(* ===== verification/Prelude.thy ===== *)
theory Prelude
  imports Main "HOL-Library.Word" "HOL-Library.Sublist"
begin

text \<open>
  Shared vocabulary of the development: the machine types of the Rust sources, the
  checked and wrapping arithmetic of \<^verbatim>\<open>i64\<close>, buffers written in place, and the
  fact collections the component theories put their rules into.
\<close>

section \<open>Machine types\<close>

text \<open>
  Unsigned and signed integers of the sources share a word type; a signed value is read
  with \<open>sint\<close>. A \<^verbatim>\<open>f32\<close> only travels through the packets as its 32 bits.
\<close>

type_synonym u8 = "8 word"
type_synonym u16 = "16 word"
type_synonym u32 = "32 word"
type_synonym u64 = "64 word"
type_synonym i16 = "16 word"
type_synonym i32 = "32 word"
type_synonym f32_bits = "32 word"
type_synonym bytes = "8 word list"

named_theorems rd_wr "reads after writes at fixed offsets of a packet buffer"
named_theorems covers "rules that a sequence of writes reproduces a given buffer"

section \<open>Signed 64-bit arithmetic on mathematical integers\<close>

text \<open>
  Balances, counts and prices are \<^verbatim>\<open>i64\<close> in the sources. They are modelled as \<open>int\<close>;
  \<open>in_i64\<close> says that a value is representable, the \<open>checked\<close> operations are Rust's
  \<^verbatim>\<open>checked_add\<close> and its kin, and \<open>wrap_i64\<close> is what an unchecked operation stores in a
  release build.
\<close>

definition i64_min :: int where "i64_min = - (2 ^ 63)"
definition i64_max :: int where "i64_max = 2 ^ 63 - 1"

definition in_i64 :: "int \<Rightarrow> bool" where
  "in_i64 x \<longleftrightarrow> i64_min \<le> x \<and> x \<le> i64_max"

definition wrap_i64 :: "int \<Rightarrow> int" where
  "wrap_i64 x = (x + 2 ^ 63) mod 2 ^ 64 - 2 ^ 63"

definition checked :: "int \<Rightarrow> int option" where
  "checked x = (if in_i64 x then Some x else None)"

text \<open>Rust's integer division truncates towards zero.\<close>

definition trunc_div :: "int \<Rightarrow> int \<Rightarrow> int" where
  "trunc_div n m =
     (let q = \<bar>n\<bar> div \<bar>m\<bar> in if (n < 0) = (m < 0) then q else - q)"

lemma wrap_i64_id [simp]: "in_i64 x \<Longrightarrow> wrap_i64 x = x"
  by (simp add: wrap_i64_def in_i64_def i64_min_def i64_max_def)

lemma in_i64_wrap [simp]: "in_i64 (wrap_i64 x)"
  using pos_mod_bound [of "2 ^ 64" "x + 2 ^ 63"]
  by (simp add: wrap_i64_def in_i64_def i64_min_def i64_max_def)

lemma checked_eq_Some [simp]: "checked x = Some y \<longleftrightarrow> in_i64 x \<and> y = x"
  by (auto simp: checked_def)

lemma checked_eq_None [simp]: "checked x = None \<longleftrightarrow> \<not> in_i64 x"
  by (simp add: checked_def)

lemma trunc_div_nonneg [simp]: "0 \<le> a \<Longrightarrow> 0 < b \<Longrightarrow> trunc_div a b = a div b"
  by (simp add: trunc_div_def)

lemma in_i64_between: "in_i64 a \<Longrightarrow> in_i64 b \<Longrightarrow> a \<le> x \<Longrightarrow> x \<le> b \<Longrightarrow> in_i64 x"
  by (simp add: in_i64_def)

section \<open>Buffers written in place\<close>

text \<open>
  \<^verbatim>\<open>b[off..off + n].copy_from_slice(src)\<close> overwrites \<open>n\<close> bytes and keeps the length of
  the buffer; \<open>slice b off n\<close> is \<^verbatim>\<open>&b[off..off + n]\<close>.
\<close>

primrec copy_at :: "'a list \<Rightarrow> nat \<Rightarrow> 'a list \<Rightarrow> 'a list" where
  "copy_at b off [] = b"
| "copy_at b off (x # xs) = copy_at (b[off := x]) (Suc off) xs"

definition slice :: "'a list \<Rightarrow> nat \<Rightarrow> nat \<Rightarrow> 'a list" where
  "slice b off n = take n (drop off b)"

lemma length_copy_at [simp]: "length (copy_at b off xs) = length b"
  by (induction xs arbitrary: b off) auto

lemma nth_copy_at:
  "copy_at b off xs ! i =
     (if off \<le> i \<and> i < off + length xs \<and> i < length b then xs ! (i - off) else b ! i)"
proof (induction xs arbitrary: b off)
  case Nil
  then show ?case by auto
next
  case (Cons x xs)
  then show ?case
    by (cases "i = off"; cases "off < length b")
       (auto simp: nth_Cons' nth_list_update list_update_beyond)
qed

lemma length_slice [simp]: "off + n \<le> length b \<Longrightarrow> length (slice b off n) = n"
  by (simp add: slice_def)

lemma nth_slice [simp]: "off + n \<le> length b \<Longrightarrow> i < n \<Longrightarrow> slice b off n ! i = b ! (off + i)"
  by (simp add: slice_def)

lemma slice_all: "slice b 0 (length b) = b"
  by (simp add: slice_def)

lemma slice_append_left [simp]: "off + n \<le> length a \<Longrightarrow> slice (a @ b) off n = slice a off n"
  by (simp add: slice_def)

lemma slice_slice: "i + n \<le> m \<Longrightarrow> slice (slice b off m) i n = slice b (off + i) n"
  by (simp add: slice_def drop_take min_def add.commute)

lemma slice_copy_skip [rd_wr]:
  "j + n \<le> i \<or> i + length xs \<le> j \<Longrightarrow> j + n \<le> length b \<Longrightarrow>
     slice (copy_at b i xs) j n = slice b j n"
  by (rule nth_equalityI) (auto simp: nth_copy_at)

lemma slice_copy_same [rd_wr]:
  "length xs = n \<Longrightarrow> i + n \<le> length b \<Longrightarrow> slice (copy_at b i xs) i n = xs"
  by (rule nth_equalityI) (auto simp: nth_copy_at)

lemma slice_update_skip [rd_wr]:
  "i < j \<or> j + n \<le> i \<Longrightarrow> slice (b[i := x]) j n = slice b j n"
  unfolding slice_def by (metis drop_update_cancel drop_update_swap leI
      le_add_diff_inverse nat_add_left_cancel_le take_update_cancel)

lemma nth_copy_skip [rd_wr]: "j < i \<or> i + length xs \<le> j \<Longrightarrow> copy_at b i xs ! j = b ! j"
  by (auto simp: nth_copy_at)

text \<open>
  \<open>covers b d k\<close>: the first \<open>k\<close> bytes of \<open>b\<close> already are those of \<open>d\<close>. A serialiser
  that writes consecutive fields extends the agreement field by field.
\<close>

definition covers :: "'a list \<Rightarrow> 'a list \<Rightarrow> nat \<Rightarrow> bool" where
  "covers b d k \<longleftrightarrow> length b = length d \<and> take k b = take k d"

lemma covers_nth: "covers b d k \<longleftrightarrow> length b = length d \<and> (\<forall>i < min k (length d). b ! i = d ! i)"
proof (cases "length b = length d")
  case True
  then have "take k b = take k d \<longleftrightarrow> (\<forall>i < min k (length d). take k b ! i = take k d ! i)"
    by (subst list_eq_iff_nth_eq) (simp add: min.commute)
  with True show ?thesis by (simp add: covers_def)
next
  case False
  then show ?thesis by (simp add: covers_def)
qed

lemma covers_start [covers]: "length b = length d \<Longrightarrow> covers b d 0"
  by (simp add: covers_def)

lemma covers_refl [simp]: "covers b b k"
  by (simp add: covers_def)

lemma covers_end: "covers b d k \<Longrightarrow> length d \<le> k \<Longrightarrow> b = d"
  by (metis covers_def take_all)

lemma covers_update [covers]:
  "covers b d k \<Longrightarrow> k' = Suc k \<Longrightarrow> covers (b[k := d ! k]) d k'"
  by (auto simp: covers_nth nth_list_update less_Suc_eq)

lemma covers_slice [covers]:
  "covers b d k \<Longrightarrow> k' = k + n \<Longrightarrow> k + n \<le> length d \<Longrightarrow> covers (copy_at b k (slice d k n)) d k'"
  by (auto simp: covers_nth nth_copy_at)

section \<open>Lists and options\<close>

lemma find_eq_None_iff: "List.find P xs = None \<longleftrightarrow> (\<forall>x \<in> set xs. \<not> P x)"
  by (induction xs) auto

lemma find_SomeD: "List.find P xs = Some x \<Longrightarrow> x \<in> set xs \<and> P x"
  by (induction xs) (auto split: if_splits)

lemma find_ex_Some: "x \<in> set xs \<Longrightarrow> P x \<Longrightarrow> \<exists>y. List.find P xs = Some y"
  by (induction xs) auto

lemma distinct_map_filter [intro]: "distinct (map f xs) \<Longrightarrow> distinct (map f (filter P xs))"
  by (induction xs) auto

text \<open>\<^verbatim>\<open>iter().position\<close> and \<^verbatim>\<open>Vec::remove\<close>.\<close>

primrec position :: "('a \<Rightarrow> bool) \<Rightarrow> 'a list \<Rightarrow> nat option" where
  "position P [] = None"
| "position P (x # xs) = (if P x then Some 0 else map_option Suc (position P xs))"

lemma position_Some: "position P xs = Some i \<Longrightarrow> i < length xs \<and> P (xs ! i)"
  by (induction xs arbitrary: i) (auto split: if_splits)

lemma position_None: "position P xs = None \<longleftrightarrow> (\<forall>x \<in> set xs. \<not> P x)"
  by (induction xs) auto

definition remove_nth :: "nat \<Rightarrow> 'a list \<Rightarrow> 'a list" where
  "remove_nth i xs = take i xs @ drop (Suc i) xs"

lemma remove_nth_simps [simp]:
  "remove_nth 0 (x # xs) = xs"
  "remove_nth (Suc i) (x # xs) = x # remove_nth i xs"
  by (simp_all add: remove_nth_def)

lemma length_remove_nth [simp]: "i < length xs \<Longrightarrow> length (remove_nth i xs) = length xs - 1"
  by (simp add: remove_nth_def)

lemma nth_remove_nth:
  "i < length xs \<Longrightarrow> remove_nth i xs ! k = (if k < i then xs ! k else xs ! Suc k)"
  by (auto simp: remove_nth_def nth_append min_def)

lemma sum_update:
  "i < length xs \<Longrightarrow> (\<Sum>x\<leftarrow>xs[i := y]. f x) = (\<Sum>x\<leftarrow>xs. f x) - f (xs ! i) + (f y :: int)"
  by (induction xs arbitrary: i) (auto split: nat.splits)

lemma sum_remove:
  "i < length xs \<Longrightarrow> (\<Sum>x\<leftarrow>remove_nth i xs. f x) = (\<Sum>x\<leftarrow>xs. f x) - (f (xs ! i) :: int)"
proof (induction xs arbitrary: i)
  case (Cons x xs)
  then show ?case by (cases i) auto
qed simp

lemma set_remove_nth:
  "i < length xs \<Longrightarrow> distinct xs \<Longrightarrow> set (remove_nth i xs) = set xs - {xs ! i}"
proof (induction xs arbitrary: i)
  case (Cons x xs)
  then show ?case by (cases i) auto
qed simp

lemma remove_nth_subset: "set (remove_nth i xs) \<subseteq> set xs"
  by (auto simp: remove_nth_def dest: in_set_takeD in_set_dropD)

lemma distinct_remove_nth: "distinct (map f xs) \<Longrightarrow> distinct (map f (remove_nth i xs))"
proof (induction xs arbitrary: i)
  case (Cons x xs)
  then show ?case
    using remove_nth_subset [of "i - 1" xs] by (cases i) (auto simp: image_iff)
qed (simp add: remove_nth_def)

end
