(* ===== verification/Wire.thy ===== *)
theory Wire
  imports Prelude
begin

text \<open>
  The byte-level helpers of the crate \<^verbatim>\<open>protocol\<close> (\<^verbatim>\<open>protocol/src/lib.rs\<close>, section
  "Error / helpers"): the parse error, the little-endian readers and writers at fixed
  offsets, the NUL-padded C strings, and the contract every fixed-size packet keeps
  (locale \<open>packet_codec\<close>), from which the stream-level facts are derived once.
\<close>

unbundle bit_operations_syntax

section \<open>Parse errors\<close>

datatype ProtocolError = BadLength (expected: nat) (got: nat)

section \<open>Little-endian integers\<close>

text \<open>\<^verbatim>\<open>u16::to_le_bytes\<close> and its inverse; \<^verbatim>\<open>i32\<close> and \<^verbatim>\<open>f32\<close> have the same bytes as \<^verbatim>\<open>u32\<close>.\<close>

definition le16 :: "u16 \<Rightarrow> bytes" where
  "le16 v = [ucast v, ucast (drop_bit 8 v)]"

definition le32 :: "u32 \<Rightarrow> bytes" where
  "le32 v = [ucast v, ucast (drop_bit 8 v), ucast (drop_bit 16 v), ucast (drop_bit 24 v)]"

definition from_le16 :: "u8 \<Rightarrow> u8 \<Rightarrow> u16" where
  "from_le16 b0 b1 = ucast b0 OR push_bit 8 (ucast b1)"

definition from_le32 :: "u8 \<Rightarrow> u8 \<Rightarrow> u8 \<Rightarrow> u8 \<Rightarrow> u32" where
  "from_le32 b0 b1 b2 b3 =
     ucast b0 OR push_bit 8 (ucast b1) OR push_bit 16 (ucast b2) OR push_bit 24 (ucast b3)"

lemma length_le16 [simp]: "length (le16 v) = 2"
  by (simp add: le16_def)

lemma length_le32 [simp]: "length (le32 v) = 4"
  by (simp add: le32_def)

lemma not_bit_u8: "8 \<le> n \<Longrightarrow> \<not> bit (w :: u8) n"
  by (auto dest: bit_imp_le_length)

lemma from_le16_le16: "from_le16 (ucast v) (ucast (drop_bit 8 v)) = v"
  unfolding from_le16_def
  by (rule bit_word_eqI) (auto simp: bit_simps)

lemma le16_from_le16: "le16 (from_le16 b0 b1) = [b0, b1]"
  unfolding from_le16_def le16_def
  by (auto intro!: bit_word_eqI simp: bit_simps not_bit_u8)

lemma from_le32_le32:
  "from_le32 (ucast v) (ucast (drop_bit 8 v)) (ucast (drop_bit 16 v)) (ucast (drop_bit 24 v)) = v"
proof (rule bit_word_eqI)
  fix n :: nat
  assume "n < LENGTH(32)"
  then consider "n < 8" | "8 \<le> n" "n < 16" | "16 \<le> n" "n < 24" | "24 \<le> n" "n < 32"
    by fastforce
  then show "bit (from_le32 (ucast v) (ucast (drop_bit 8 v)) (ucast (drop_bit 16 v))
      (ucast (drop_bit 24 v))) n = bit v n"
    by cases (auto simp: from_le32_def bit_simps)
qed

lemma le32_from_le32: "le32 (from_le32 b0 b1 b2 b3) = [b0, b1, b2, b3]"
  unfolding from_le32_def le32_def
  by (auto intro!: bit_word_eqI simp: bit_simps not_bit_u8)

section \<open>Readers and writers at an offset\<close>

definition rd_u16 :: "bytes \<Rightarrow> nat \<Rightarrow> u16" where
  "rd_u16 b off = from_le16 (b ! off) (b ! (off + 1))"

definition rd_u32 :: "bytes \<Rightarrow> nat \<Rightarrow> u32" where
  "rd_u32 b off = from_le32 (b ! off) (b ! (off + 1)) (b ! (off + 2)) (b ! (off + 3))"

definition rd_i32 :: "bytes \<Rightarrow> nat \<Rightarrow> i32" where
  "rd_i32 b off = from_le32 (b ! off) (b ! (off + 1)) (b ! (off + 2)) (b ! (off + 3))"

definition rd_f32 :: "bytes \<Rightarrow> nat \<Rightarrow> f32_bits" where
  "rd_f32 b off = from_le32 (b ! off) (b ! (off + 1)) (b ! (off + 2)) (b ! (off + 3))"

definition rd_arr :: "nat \<Rightarrow> bytes \<Rightarrow> nat \<Rightarrow> bytes" where
  "rd_arr n b off = copy_at (replicate n 0) 0 (slice b off n)"

definition wr_u16 :: "bytes \<Rightarrow> nat \<Rightarrow> u16 \<Rightarrow> bytes" where
  "wr_u16 b off v = copy_at b off (le16 v)"

definition wr_u32 :: "bytes \<Rightarrow> nat \<Rightarrow> u32 \<Rightarrow> bytes" where
  "wr_u32 b off v = copy_at b off (le32 v)"

definition wr_i32 :: "bytes \<Rightarrow> nat \<Rightarrow> i32 \<Rightarrow> bytes" where
  "wr_i32 b off v = copy_at b off (le32 v)"

definition wr_f32 :: "bytes \<Rightarrow> nat \<Rightarrow> f32_bits \<Rightarrow> bytes" where
  "wr_f32 b off v = copy_at b off (le32 v)"

text \<open>An array field that is read out of the packet is the slice of the packet.\<close>

lemma copy_at_whole: "length xs = length b \<Longrightarrow> copy_at b 0 xs = xs"
  by (rule nth_equalityI) (auto simp: nth_copy_at)

lemma rd_arr_slice [rd_wr]: "off + n \<le> length b \<Longrightarrow> rd_arr n b off = slice b off n"
  by (simp add: rd_arr_def copy_at_whole)

lemma from_le16_rd [rd_wr]: "k' = Suc k \<Longrightarrow> from_le16 (b ! k) (b ! k') = rd_u16 b k"
  by (simp add: rd_u16_def)

lemma rd_i32_u32 [rd_wr]: "rd_i32 b off = rd_u32 b off"
  by (simp add: rd_i32_def rd_u32_def)

lemma rd_f32_u32 [rd_wr]: "rd_f32 b off = rd_u32 b off"
  by (simp add: rd_f32_def rd_u32_def)

lemmas writers [rd_wr] = wr_u16_def wr_u32_def wr_i32_def wr_f32_def

lemma rd_u16_copy_skip [rd_wr]:
  "j + 2 \<le> i \<or> i + length xs \<le> j \<Longrightarrow> rd_u16 (copy_at b i xs) j = rd_u16 b j"
  by (auto simp: rd_u16_def nth_copy_at)

lemma rd_u32_copy_skip [rd_wr]:
  "j + 4 \<le> i \<or> i + length xs \<le> j \<Longrightarrow> rd_u32 (copy_at b i xs) j = rd_u32 b j"
  by (auto simp: rd_u32_def nth_copy_at)

lemma rd_u16_update_skip [rd_wr]: "i < j \<or> j + 2 \<le> i \<Longrightarrow> rd_u16 (b[i := x]) j = rd_u16 b j"
  by (auto simp: rd_u16_def nth_list_update)

lemma rd_u32_update_skip [rd_wr]: "i < j \<or> j + 4 \<le> i \<Longrightarrow> rd_u32 (b[i := x]) j = rd_u32 b j"
  by (auto simp: rd_u32_def nth_list_update)

lemma rd_u16_same [rd_wr]: "i + 2 \<le> length b \<Longrightarrow> rd_u16 (copy_at b i (le16 v)) i = v"
  by (simp add: rd_u16_def le16_def nth_list_update from_le16_le16)

lemma rd_u32_same [rd_wr]: "i + 4 \<le> length b \<Longrightarrow> rd_u32 (copy_at b i (le32 v)) i = v"
  by (simp add: rd_u32_def le32_def nth_list_update from_le32_le32)

lemma slice_2: "k + 2 \<le> length d \<Longrightarrow> slice d k 2 = [d ! k, d ! (k + 1)]"
  by (simp add: slice_def Cons_nth_drop_Suc [symmetric] numeral_2_eq_2)

lemma slice_4: "k + 4 \<le> length d \<Longrightarrow> slice d k 4 = [d ! k, d ! (k + 1), d ! (k + 2), d ! (k + 3)]"
  by (simp add: slice_def Cons_nth_drop_Suc [symmetric] eval_nat_numeral)

lemma le16_rd_u16: "k + 2 \<le> length d \<Longrightarrow> le16 (rd_u16 d k) = slice d k 2"
  by (simp add: rd_u16_def le16_from_le16 slice_2)

lemma le32_rd_u32: "k + 4 \<le> length d \<Longrightarrow> le32 (rd_u32 d k) = slice d k 4"
  by (simp add: rd_u32_def le32_from_le32 slice_4)

lemma covers_u16 [covers]:
  "covers b d k \<Longrightarrow> k' = k + 2 \<Longrightarrow> k + 2 \<le> length d \<Longrightarrow> covers (copy_at b k (le16 (rd_u16 d k))) d k'"
  by (simp add: le16_rd_u16 covers_slice)

lemma covers_u32 [covers]:
  "covers b d k \<Longrightarrow> k' = k + 4 \<Longrightarrow> k + 4 \<le> length d \<Longrightarrow> covers (copy_at b k (le32 (rd_u32 d k))) d k'"
  by (simp add: le32_rd_u32 covers_slice)

text \<open>
  Small integer arrays are written by a loop \<^verbatim>\<open>for (i, k) in xs.iter().enumerate()\<close> over
  consecutive offsets and read element by element.
\<close>

primrec wr_u32s :: "bytes \<Rightarrow> nat \<Rightarrow> u32 list \<Rightarrow> bytes" where
  "wr_u32s b off [] = b"
| "wr_u32s b off (k # ks) = wr_u32s (wr_u32 b off k) (off + 4) ks"

lemma wr_u32s_simps [rd_wr]:
  "wr_u32s b off [] = b"
  "wr_u32s b off (k # ks) = wr_u32s (wr_u32 b off k) (off + 4) ks"
  by simp_all

lemma length_wr_u32s [simp]: "length (wr_u32s b off ks) = length b"
  by (induction ks arbitrary: b off) (simp_all add: wr_u32_def)

lemma length_2_conv: "length xs = 2 \<longleftrightarrow> (\<exists>a b. xs = [a, b])"
  by (auto simp: length_Suc_conv numeral_2_eq_2)

lemma length_4_conv: "length xs = 4 \<longleftrightarrow> (\<exists>a b c d. xs = [a, b, c, d])"
  by (auto simp: length_Suc_conv eval_nat_numeral)

lemma length_5_conv: "length xs = 5 \<longleftrightarrow> (\<exists>a b c d e. xs = [a, b, c, d, e])"
  by (auto simp: length_Suc_conv eval_nat_numeral)

lemmas array_lengths = length_2_conv length_4_conv length_5_conv

section \<open>C strings\<close>

text \<open>
  \<^verbatim>\<open>from_cstr\<close> has \<^verbatim>\<open>strlcpy\<close>'s semantics: at most \<open>N - 1\<close> bytes, the rest zero.
  \<^verbatim>\<open>cstr_bytes\<close> reads up to the first NUL.
\<close>

definition from_cstr :: "nat \<Rightarrow> bytes \<Rightarrow> bytes" where
  "from_cstr N s = (let n = min (length s) (N - 1) in copy_at (replicate N 0) 0 (take n s))"

definition cstr_bytes :: "bytes \<Rightarrow> bytes" where
  "cstr_bytes b = takeWhile (\<lambda>c. c \<noteq> 0) b"

lemma length_from_cstr [simp]: "length (from_cstr N s) = N"
  by (simp add: from_cstr_def Let_def)

lemma from_cstr_eq:
  "from_cstr N s = take (N - 1) s @ replicate (N - min (length s) (N - 1)) 0"
  by (rule nth_equalityI) (auto simp: from_cstr_def Let_def nth_copy_at nth_append min_def)

lemma cstr_from_cstr:
  assumes "0 < N" and "\<forall>c \<in> set s. c \<noteq> 0"
  shows "cstr_bytes (from_cstr N s) = take (N - 1) s"
proof -
  have "\<forall>c \<in> set (take (N - 1) s). c \<noteq> 0" using assms(2) by (meson in_set_takeD)
  moreover obtain m where "N - min (length s) (N - 1) = Suc m"
    using assms(1) by (cases "N - min (length s) (N - 1)") (auto simp: min_def split: if_splits)
  ultimately show ?thesis
    by (simp add: cstr_bytes_def from_cstr_eq takeWhile_append)
qed

section \<open>The contract of a fixed-size packet\<close>

text \<open>
  Every packet struct of the crate has a constant \<^verbatim>\<open>SIZE\<close>, a \<^verbatim>\<open>to_bytes\<close> and a \<^verbatim>\<open>from_bytes\<close>
  that rejects any other length. \<open>wf\<close> says that the array fields have the lengths their
  Rust types fix.
\<close>

locale packet_codec =
  fixes size :: nat
    and wf :: "'p \<Rightarrow> bool"
    and to_bytes :: "'p \<Rightarrow> bytes"
    and from_bytes :: "bytes \<Rightarrow> ProtocolError + 'p"
  assumes to_bytes_size: "wf p \<Longrightarrow> length (to_bytes p) = size"
    and from_to: "wf p \<Longrightarrow> from_bytes (to_bytes p) = Inr p"
    and bad_length: "length d \<noteq> size \<Longrightarrow> from_bytes d = Inl (BadLength size (length d))"
    and parses: "length d = size \<Longrightarrow> \<exists>p. from_bytes d = Inr p \<and> wf p \<and> to_bytes p = d"
begin

lemma from_bytes_ok_iff: "(\<exists>p. from_bytes d = Inr p) \<longleftrightarrow> length d = size"
  by (metis Inr_Inl_False bad_length parses)

lemma from_bytes_Inr: "from_bytes d = Inr p \<longleftrightarrow> wf p \<and> to_bytes p = d"
  by (metis Inr_inject Inr_Inl_False bad_length from_to parses)

lemma from_bytes_Inl: "from_bytes d = Inl e \<longleftrightarrow> length d \<noteq> size \<and> e = BadLength size (length d)"
  by (metis Inl_Inr_False Inl_inject bad_length parses)

lemma to_bytes_inj: "inj_on to_bytes {p. wf p}"
  by (rule inj_onI) (metis Inr_inject from_to mem_Collect_eq)

lemma bijective: "bij_betw to_bytes {p. wf p} {d. length d = size}"
proof (rule bij_betwI')
  show "\<And>p q. p \<in> {p. wf p} \<Longrightarrow> q \<in> {p. wf p} \<Longrightarrow> (to_bytes p = to_bytes q) = (p = q)"
    using to_bytes_inj by (auto dest: inj_onD)
  show "\<And>p. p \<in> {p. wf p} \<Longrightarrow> to_bytes p \<in> {d. length d = size}"
    by (simp add: to_bytes_size)
  show "\<And>d. d \<in> {d. length d = size} \<Longrightarrow> \<exists>p \<in> {p. wf p}. d = to_bytes p"
    using parses by fastforce
qed

text \<open>A struct embedded in a larger packet: reading the slice it was written to.\<close>

lemma from_slice_same:
  "wf p \<Longrightarrow> off + size \<le> length b \<Longrightarrow> from_bytes (slice (copy_at b off (to_bytes p)) off size) = Inr p"
  by (simp add: slice_copy_same to_bytes_size from_to)

lemma parses_slice:
  "off + size \<le> length d \<Longrightarrow>
     \<exists>p. from_bytes (slice d off size) = Inr p \<and> wf p \<and> to_bytes p = slice d off size"
  by (rule parses) simp

end

text \<open>
  A packet meets the contract when its \<^verbatim>\<open>from_bytes\<close> is the length guard around a reader
  \<open>rd\<close>, every field written is read back, and the writes for a parsed packet reproduce
  the input field by field.
\<close>

lemma packet_codecI:
  fixes size :: nat and wf :: "'p \<Rightarrow> bool"
  assumes guard: "\<And>d. from_bytes d = (if length d \<noteq> size then Inl (BadLength size (length d)) else Inr (rd d))"
    and len: "\<And>p. wf p \<Longrightarrow> length (to_bytes p) = size"
    and read: "\<And>p. wf p \<Longrightarrow> rd (to_bytes p) = p"
    and wf: "\<And>d. length d = size \<Longrightarrow> wf (rd d)"
    and cov: "\<And>d. length d = size \<Longrightarrow> covers (to_bytes (rd d)) d size"
  shows "packet_codec size wf to_bytes from_bytes"
proof
  fix p assume "wf p"
  then show "length (to_bytes p) = size" and "from_bytes (to_bytes p) = Inr p"
    by (simp_all add: guard len read)
next
  fix d :: bytes assume "length d \<noteq> size"
  then show "from_bytes d = Inl (BadLength size (length d))" by (simp add: guard)
next
  fix d :: bytes assume d: "length d = size"
  with covers_end [OF cov] have "to_bytes (rd d) = d" by simp
  with d wf show "\<exists>p. from_bytes d = Inr p \<and> wf p \<and> to_bytes p = d" by (auto simp: guard)
qed

end
