(* ===== verification/Headers.thy ===== *)
theory Headers
  imports Prelude
begin

text \<open>
  The packet headers of \<^verbatim>\<open>protocol::header\<close> and the connection phases of \<^verbatim>\<open>protocol::phase\<close>
  (\<^verbatim>\<open>protocol/src/lib.rs\<close>). The first byte of every packet selects its layout; the two
  directions have separate header spaces.
\<close>

section \<open>Client to server\<close>

definition CG_HANDSHAKE :: u8 where [simp]: "CG_HANDSHAKE = 255"
definition CG_PONG :: u8 where [simp]: "CG_PONG = 254"
definition CG_TIME_SYNC :: u8 where [simp]: "CG_TIME_SYNC = 252"
definition CG_LOGIN :: u8 where [simp]: "CG_LOGIN = 1"
definition CG_CHARACTER_CREATE :: u8 where [simp]: "CG_CHARACTER_CREATE = 4"
definition CG_CHARACTER_DELETE :: u8 where [simp]: "CG_CHARACTER_DELETE = 5"
definition CG_CHARACTER_SELECT :: u8 where [simp]: "CG_CHARACTER_SELECT = 6"
definition CG_EMPIRE :: u8 where [simp]: "CG_EMPIRE = 90"
definition CG_CHANGE_NAME :: u8 where [simp]: "CG_CHANGE_NAME = 106"
definition CG_ENTERGAME :: u8 where [simp]: "CG_ENTERGAME = 10"
definition CG_ATTACK :: u8 where [simp]: "CG_ATTACK = 2"
definition CG_CHAT :: u8 where [simp]: "CG_CHAT = 3"
definition CG_MOVE :: u8 where [simp]: "CG_MOVE = 7"
definition CG_SYNC_POSITION :: u8 where [simp]: "CG_SYNC_POSITION = 8"
definition CG_ITEM_USE :: u8 where [simp]: "CG_ITEM_USE = 11"
definition CG_ITEM_DROP :: u8 where [simp]: "CG_ITEM_DROP = 12"
definition CG_ITEM_MOVE :: u8 where [simp]: "CG_ITEM_MOVE = 13"
definition CG_ITEM_PICKUP :: u8 where [simp]: "CG_ITEM_PICKUP = 15"
definition CG_QUICKSLOT_ADD :: u8 where [simp]: "CG_QUICKSLOT_ADD = 16"
definition CG_QUICKSLOT_DEL :: u8 where [simp]: "CG_QUICKSLOT_DEL = 17"
definition CG_QUICKSLOT_SWAP :: u8 where [simp]: "CG_QUICKSLOT_SWAP = 18"
definition CG_WHISPER :: u8 where [simp]: "CG_WHISPER = 19"
definition CG_ITEM_DROP2 :: u8 where [simp]: "CG_ITEM_DROP2 = 20"
definition CG_ON_CLICK :: u8 where [simp]: "CG_ON_CLICK = 26"
definition CG_EXCHANGE :: u8 where [simp]: "CG_EXCHANGE = 27"
definition CG_CHARACTER_POSITION :: u8 where [simp]: "CG_CHARACTER_POSITION = 28"
definition CG_SCRIPT_ANSWER :: u8 where [simp]: "CG_SCRIPT_ANSWER = 29"
definition CG_QUEST_INPUT_STRING :: u8 where [simp]: "CG_QUEST_INPUT_STRING = 30"
definition CG_QUEST_CONFIRM :: u8 where [simp]: "CG_QUEST_CONFIRM = 31"
definition CG_PVP :: u8 where [simp]: "CG_PVP = 41"
definition CG_SHOP :: u8 where [simp]: "CG_SHOP = 50"
definition CG_FLY_TARGETING :: u8 where [simp]: "CG_FLY_TARGETING = 51"
definition CG_USE_SKILL :: u8 where [simp]: "CG_USE_SKILL = 52"
definition CG_ADD_FLY_TARGETING :: u8 where [simp]: "CG_ADD_FLY_TARGETING = 53"
definition CG_SHOOT :: u8 where [simp]: "CG_SHOOT = 54"
definition CG_MYSHOP :: u8 where [simp]: "CG_MYSHOP = 55"
definition CG_ITEM_USE_TO_ITEM :: u8 where [simp]: "CG_ITEM_USE_TO_ITEM = 60"
definition CG_TARGET :: u8 where [simp]: "CG_TARGET = 61"
definition CG_HORSE :: u8 where [simp]: "CG_HORSE = 63"
definition CG_EVENT :: u8 where [simp]: "CG_EVENT = 62"
definition CG_WARP :: u8 where [simp]: "CG_WARP = 65"
definition CG_SCRIPT_BUTTON :: u8 where [simp]: "CG_SCRIPT_BUTTON = 66"
definition CG_MESSENGER :: u8 where [simp]: "CG_MESSENGER = 67"
definition CG_MALL_CHECKOUT :: u8 where [simp]: "CG_MALL_CHECKOUT = 69"
definition CG_SAFEBOX_CHECKIN :: u8 where [simp]: "CG_SAFEBOX_CHECKIN = 70"
definition CG_SAFEBOX_CHECKOUT :: u8 where [simp]: "CG_SAFEBOX_CHECKOUT = 71"
definition CG_PARTY_INVITE :: u8 where [simp]: "CG_PARTY_INVITE = 72"
definition CG_PARTY_INVITE_ANSWER :: u8 where [simp]: "CG_PARTY_INVITE_ANSWER = 73"
definition CG_PARTY_REMOVE :: u8 where [simp]: "CG_PARTY_REMOVE = 74"
definition CG_PARTY_SET_STATE :: u8 where [simp]: "CG_PARTY_SET_STATE = 75"
definition CG_PARTY_USE_SKILL :: u8 where [simp]: "CG_PARTY_USE_SKILL = 76"
definition CG_SAFEBOX_ITEM_MOVE :: u8 where [simp]: "CG_SAFEBOX_ITEM_MOVE = 77"
definition CG_SAFEBOX_MONEY :: u8 where [simp]: "CG_SAFEBOX_MONEY = 79"
definition CG_LAND_BUY :: u8 where [simp]: "CG_LAND_BUY = 56"
definition CG_LAND_TRANSFER :: u8 where [simp]: "CG_LAND_TRANSFER = 57"
definition CG_PARTY_PARAMETER :: u8 where [simp]: "CG_PARTY_PARAMETER = 78"
definition CG_GUILD :: u8 where [simp]: "CG_GUILD = 80"
definition CG_ANSWER_MAKE_GUILD :: u8 where [simp]: "CG_ANSWER_MAKE_GUILD = 81"
definition CG_FISHING :: u8 where [simp]: "CG_FISHING = 82"
definition CG_ITEM_GIVE :: u8 where [simp]: "CG_ITEM_GIVE = 83"
definition CG_REFINE :: u8 where [simp]: "CG_REFINE = 96"
definition CG_HACK :: u8 where [simp]: "CG_HACK = 105"
definition CG_SCRIPT_SELECT_ITEM :: u8 where [simp]: "CG_SCRIPT_SELECT_ITEM = 114"
definition CG_DRAGON_SOUL_REFINE :: u8 where [simp]: "CG_DRAGON_SOUL_REFINE = 205"
definition CG_ACCE :: u8 where [simp]: "CG_ACCE = 211"
definition CG_STATE_CHECKER :: u8 where [simp]: "CG_STATE_CHECKER = 206"
definition CG_MARK_LOGIN :: u8 where [simp]: "CG_MARK_LOGIN = 100"
definition CG_MARK_IDXLIST :: u8 where [simp]: "CG_MARK_IDXLIST = 104"
definition CG_CLIENT_VERSION2 :: u8 where [simp]: "CG_CLIENT_VERSION2 = 241"
definition CG_LOGIN2 :: u8 where [simp]: "CG_LOGIN2 = 109"
definition CG_DUNGEON :: u8 where [simp]: "CG_DUNGEON = 110"
definition CG_LOGIN3 :: u8 where [simp]: "CG_LOGIN3 = 111"
definition CG_LOCALE_REQUEST :: u8 where [simp]: "CG_LOCALE_REQUEST = 132"

section \<open>Server to client\<close>

definition GC_CHARACTER_ADD :: u8 where [simp]: "GC_CHARACTER_ADD = 1"
definition GC_CHARACTER_UPDATE :: u8 where [simp]: "GC_CHARACTER_UPDATE = 19"
definition GC_LOGIN_SUCCESS :: u8 where [simp]: "GC_LOGIN_SUCCESS = 6"
definition GC_LOGIN_FAILURE :: u8 where [simp]: "GC_LOGIN_FAILURE = 7"
definition GC_CHARACTER_CREATE_SUCCESS :: u8 where [simp]: "GC_CHARACTER_CREATE_SUCCESS = 8"
definition GC_CHARACTER_CREATE_FAILURE :: u8 where [simp]: "GC_CHARACTER_CREATE_FAILURE = 9"
definition GC_CHARACTER_DELETE_SUCCESS :: u8 where [simp]: "GC_CHARACTER_DELETE_SUCCESS = 10"
definition GC_CHARACTER_DELETE_WRONG_SOCIAL_ID :: u8 where [simp]: "GC_CHARACTER_DELETE_WRONG_SOCIAL_ID = 11"
definition GC_PHASE :: u8 where [simp]: "GC_PHASE = 253"
definition GC_HANDSHAKE :: u8 where [simp]: "GC_HANDSHAKE = 255"
definition GC_EMPIRE :: u8 where [simp]: "GC_EMPIRE = 90"
definition GC_LOGIN_KEY :: u8 where [simp]: "GC_LOGIN_KEY = 118"
definition GC_CHANGE_NAME :: u8 where [simp]: "GC_CHANGE_NAME = 107"
definition GC_CHAR_ADDITIONAL_INFO :: u8 where [simp]: "GC_CHAR_ADDITIONAL_INFO = 136"
definition GC_PING :: u8 where [simp]: "GC_PING = 44"
definition GC_AUTH_SUCCESS :: u8 where [simp]: "GC_AUTH_SUCCESS = 150"
definition GC_ATTACK :: u8 where [simp]: "GC_ATTACK = 12"
definition GC_DAMAGE_INFO :: u8 where [simp]: "GC_DAMAGE_INFO = 135"
definition GC_CHAT :: u8 where [simp]: "GC_CHAT = 4"
definition GC_WHISPER :: u8 where [simp]: "GC_WHISPER = 34"
definition GC_ITEM_GROUND_ADD :: u8 where [simp]: "GC_ITEM_GROUND_ADD = 26"
definition GC_ITEM_GROUND_DEL :: u8 where [simp]: "GC_ITEM_GROUND_DEL = 27"
definition GC_ITEM_OWNERSHIP :: u8 where [simp]: "GC_ITEM_OWNERSHIP = 31"
definition GC_PARTY_INVITE :: u8 where [simp]: "GC_PARTY_INVITE = 77"
definition GC_PARTY_ADD :: u8 where [simp]: "GC_PARTY_ADD = 78"
definition GC_PARTY_UPDATE :: u8 where [simp]: "GC_PARTY_UPDATE = 79"
definition GC_PARTY_REMOVE :: u8 where [simp]: "GC_PARTY_REMOVE = 80"
definition GC_QUEST_INFO :: u8 where [simp]: "GC_QUEST_INFO = 81"
definition GC_SCRIPT :: u8 where [simp]: "GC_SCRIPT = 45"
definition GC_QUEST_CONFIRM :: u8 where [simp]: "GC_QUEST_CONFIRM = 46"
definition GC_PARTY_PARAMETER :: u8 where [simp]: "GC_PARTY_PARAMETER = 83"
definition GC_PARTY_LINK :: u8 where [simp]: "GC_PARTY_LINK = 91"
definition GC_PARTY_UNLINK :: u8 where [simp]: "GC_PARTY_UNLINK = 92"
definition GC_SAFEBOX_MONEY_CHANGE :: u8 where [simp]: "GC_SAFEBOX_MONEY_CHANGE = 84"
definition GC_SAFEBOX_SET :: u8 where [simp]: "GC_SAFEBOX_SET = 85"
definition GC_SAFEBOX_DEL :: u8 where [simp]: "GC_SAFEBOX_DEL = 86"
definition GC_SAFEBOX_WRONG_PASSWORD :: u8 where [simp]: "GC_SAFEBOX_WRONG_PASSWORD = 87"
definition GC_SAFEBOX_SIZE :: u8 where [simp]: "GC_SAFEBOX_SIZE = 88"
definition GC_ITEM_UPDATE :: u8 where [simp]: "GC_ITEM_UPDATE = 25"
definition GC_ITEM_DEL :: u8 where [simp]: "GC_ITEM_DEL = 20"
definition GC_WARP :: u8 where [simp]: "GC_WARP = 65"
definition GC_TARGET :: u8 where [simp]: "GC_TARGET = 63"
definition GC_CHARACTER_POSITION :: u8 where [simp]: "GC_CHARACTER_POSITION = 43"
definition GC_WALK_MODE :: u8 where [simp]: "GC_WALK_MODE = 111"
definition GC_CHANNEL_LIST :: u8 where [simp]: "GC_CHANNEL_LIST = 164"
definition GC_SHOP :: u8 where [simp]: "GC_SHOP = 38"
definition GC_EXCHANGE :: u8 where [simp]: "GC_EXCHANGE = 42"
definition GC_AFFECT_ADD :: u8 where [simp]: "GC_AFFECT_ADD = 126"
definition GC_LOGIN_SUCCESS_NEWSLOT :: u8 where [simp]: "GC_LOGIN_SUCCESS_NEWSLOT = 32"
definition GC_LOCALE :: u8 where [simp]: "GC_LOCALE = 140"
definition GC_MESSENGER :: u8 where [simp]: "GC_MESSENGER = 74"
definition GC_DRAGON_SOUL_REFINE :: u8 where [simp]: "GC_DRAGON_SOUL_REFINE = 209"
definition GC_RESPOND_CHANNELSTATUS :: u8 where [simp]: "GC_RESPOND_CHANNELSTATUS = 210"

section \<open>Phases of a connection\<close>

definition PHASE_CLOSE :: u8 where [simp]: "PHASE_CLOSE = 0"
definition PHASE_HANDSHAKE :: u8 where [simp]: "PHASE_HANDSHAKE = 1"
definition PHASE_LOGIN :: u8 where [simp]: "PHASE_LOGIN = 2"
definition PHASE_SELECT :: u8 where [simp]: "PHASE_SELECT = 3"
definition PHASE_LOADING :: u8 where [simp]: "PHASE_LOADING = 4"
definition PHASE_GAME :: u8 where [simp]: "PHASE_GAME = 5"
definition PHASE_DEAD :: u8 where [simp]: "PHASE_DEAD = 6"
definition PHASE_CLIENT_CONNECTING :: u8 where [simp]: "PHASE_CLIENT_CONNECTING = 7"
definition PHASE_DBCLIENT :: u8 where [simp]: "PHASE_DBCLIENT = 8"
definition PHASE_P2P :: u8 where [simp]: "PHASE_P2P = 9"
definition PHASE_AUTH :: u8 where [simp]: "PHASE_AUTH = 10"

end
