(* ===== verification/ClientPackets.thy ===== *)
theory ClientPackets
  imports Wire Headers
begin

text \<open>
  The client-to-server packets of the login and character-selection flow
  (\<^verbatim>\<open>protocol/src/lib.rs\<close>, section "C->S: login / seleccion"). For each struct: its record, its
  constructor, \<^verbatim>\<open>from_bytes\<close>, \<^verbatim>\<open>to_bytes\<close>, the lengths its array types fix (\<open>_wf\<close>), and the
  interpretation of \<open>packet_codec\<close> that makes it a bijection with the byte strings of its size.
\<close>

record TPacketCGHandshake =
  header :: u8
  dw_handshake :: u32
  dw_time :: u32
  l_delta :: i32

definition TPacketCGHandshake_SIZE :: nat where [simp]: "TPacketCGHandshake_SIZE = 13"

definition TPacketCGHandshake_new :: "u32 \<Rightarrow> u32 \<Rightarrow> i32 \<Rightarrow> TPacketCGHandshake" where
  "TPacketCGHandshake_new dw_handshake' dw_time' l_delta' =
     \<lparr>header = CG_HANDSHAKE,
      dw_handshake = dw_handshake',
      dw_time = dw_time',
      l_delta = l_delta'\<rparr>"

definition TPacketCGHandshake_from_bytes :: "bytes \<Rightarrow> ProtocolError + TPacketCGHandshake" where
  "TPacketCGHandshake_from_bytes data =
     (if length data \<noteq> TPacketCGHandshake_SIZE then Inl (BadLength TPacketCGHandshake_SIZE (length data))
      else Inr \<lparr>header = data ! 0,
        dw_handshake = rd_u32 data 1,
        dw_time = rd_u32 data 5,
        l_delta = rd_i32 data 9\<rparr>)"

definition TPacketCGHandshake_to_bytes :: "TPacketCGHandshake \<Rightarrow> bytes" where
  "TPacketCGHandshake_to_bytes p =
    (let b = replicate TPacketCGHandshake_SIZE 0;
         b = b[0 := header p];
         b = wr_u32 b 1 (dw_handshake p);
         b = wr_u32 b 5 (dw_time p);
         b = wr_i32 b 9 (l_delta p)
     in b)"

definition TPacketCGHandshake_wf :: "TPacketCGHandshake \<Rightarrow> bool" where
  "TPacketCGHandshake_wf p \<longleftrightarrow> True"

interpretation cg_handshake:
  packet_codec TPacketCGHandshake_SIZE TPacketCGHandshake_wf TPacketCGHandshake_to_bytes TPacketCGHandshake_from_bytes
  by (rule packet_codecI [OF TPacketCGHandshake_from_bytes_def])
     (auto simp: TPacketCGHandshake_to_bytes_def TPacketCGHandshake_wf_def rd_wr array_lengths intro!: covers)

lemma TPacketCGHandshake_new_wf [simp]: "TPacketCGHandshake_wf (TPacketCGHandshake_new dw_handshake' dw_time' l_delta')"
  by (simp add: TPacketCGHandshake_wf_def TPacketCGHandshake_new_def)

record TPacketCGLogin =
  header :: u8
  login :: bytes
  passwd :: bytes

definition TPacketCGLogin_SIZE :: nat where [simp]: "TPacketCGLogin_SIZE = 49"

definition TPacketCGLogin_new :: "bytes \<Rightarrow> bytes \<Rightarrow> TPacketCGLogin" where
  "TPacketCGLogin_new login' passwd' =
     \<lparr>header = CG_LOGIN,
      login = from_cstr 31 login',
      passwd = from_cstr 17 passwd'\<rparr>"

definition TPacketCGLogin_from_bytes :: "bytes \<Rightarrow> ProtocolError + TPacketCGLogin" where
  "TPacketCGLogin_from_bytes data =
     (if length data \<noteq> TPacketCGLogin_SIZE then Inl (BadLength TPacketCGLogin_SIZE (length data))
      else Inr \<lparr>header = data ! 0,
        login = rd_arr 31 data 1,
        passwd = rd_arr 17 data 32\<rparr>)"

definition TPacketCGLogin_to_bytes :: "TPacketCGLogin \<Rightarrow> bytes" where
  "TPacketCGLogin_to_bytes p =
    (let b = replicate TPacketCGLogin_SIZE 0;
         b = b[0 := header p];
         b = copy_at b 1 (login p);
         b = copy_at b 32 (passwd p)
     in b)"

definition TPacketCGLogin_wf :: "TPacketCGLogin \<Rightarrow> bool" where
  "TPacketCGLogin_wf p \<longleftrightarrow> length (login p) = 31 \<and> length (passwd p) = 17"

interpretation cg_login:
  packet_codec TPacketCGLogin_SIZE TPacketCGLogin_wf TPacketCGLogin_to_bytes TPacketCGLogin_from_bytes
  by (rule packet_codecI [OF TPacketCGLogin_from_bytes_def])
     (auto simp: TPacketCGLogin_to_bytes_def TPacketCGLogin_wf_def rd_wr array_lengths intro!: covers)

lemma TPacketCGLogin_new_wf [simp]: "TPacketCGLogin_wf (TPacketCGLogin_new login' passwd')"
  by (simp add: TPacketCGLogin_wf_def TPacketCGLogin_new_def)

record TPacketCGLogin2 =
  header :: u8
  login :: bytes
  dw_login_key :: u32
  adw_client_key :: "u32 list"

definition TPacketCGLogin2_SIZE :: nat where [simp]: "TPacketCGLogin2_SIZE = 52"

definition TPacketCGLogin2_new :: "bytes \<Rightarrow> u32 \<Rightarrow> (u32 list) \<Rightarrow> TPacketCGLogin2" where
  "TPacketCGLogin2_new login' dw_login_key' adw_client_key' =
     \<lparr>header = CG_LOGIN2,
      login = from_cstr 31 login',
      dw_login_key = dw_login_key',
      adw_client_key = adw_client_key'\<rparr>"

definition TPacketCGLogin2_from_bytes :: "bytes \<Rightarrow> ProtocolError + TPacketCGLogin2" where
  "TPacketCGLogin2_from_bytes data =
     (if length data \<noteq> TPacketCGLogin2_SIZE then Inl (BadLength TPacketCGLogin2_SIZE (length data))
      else Inr \<lparr>header = data ! 0,
        login = rd_arr 31 data 1,
        dw_login_key = rd_u32 data 32,
        adw_client_key = [rd_u32 data 36, rd_u32 data 40, rd_u32 data 44, rd_u32 data 48]\<rparr>)"

definition TPacketCGLogin2_to_bytes :: "TPacketCGLogin2 \<Rightarrow> bytes" where
  "TPacketCGLogin2_to_bytes p =
    (let b = replicate TPacketCGLogin2_SIZE 0;
         b = b[0 := header p];
         b = copy_at b 1 (login p);
         b = wr_u32 b 32 (dw_login_key p);
         b = wr_u32s b 36 (adw_client_key p)
     in b)"

definition TPacketCGLogin2_wf :: "TPacketCGLogin2 \<Rightarrow> bool" where
  "TPacketCGLogin2_wf p \<longleftrightarrow> length (login p) = 31 \<and> length (adw_client_key p) = 4"

interpretation cg_login2:
  packet_codec TPacketCGLogin2_SIZE TPacketCGLogin2_wf TPacketCGLogin2_to_bytes TPacketCGLogin2_from_bytes
  by (rule packet_codecI [OF TPacketCGLogin2_from_bytes_def])
     (auto simp: TPacketCGLogin2_to_bytes_def TPacketCGLogin2_wf_def rd_wr array_lengths intro!: covers)

lemma TPacketCGLogin2_new_wf [simp]: "length adw_client_key' = 4 \<Longrightarrow> TPacketCGLogin2_wf (TPacketCGLogin2_new login' dw_login_key' adw_client_key')"
  by (simp add: TPacketCGLogin2_wf_def TPacketCGLogin2_new_def)

record TPacketCGPlayerSelect =
  header :: u8
  index :: u8

definition TPacketCGPlayerSelect_SIZE :: nat where [simp]: "TPacketCGPlayerSelect_SIZE = 2"

definition TPacketCGPlayerSelect_new :: "u8 \<Rightarrow> TPacketCGPlayerSelect" where
  "TPacketCGPlayerSelect_new index' =
     \<lparr>header = CG_CHARACTER_SELECT,
      index = index'\<rparr>"

definition TPacketCGPlayerSelect_from_bytes :: "bytes \<Rightarrow> ProtocolError + TPacketCGPlayerSelect" where
  "TPacketCGPlayerSelect_from_bytes data =
     (if length data \<noteq> TPacketCGPlayerSelect_SIZE then Inl (BadLength TPacketCGPlayerSelect_SIZE (length data))
      else Inr \<lparr>header = data ! 0,
        index = data ! 1\<rparr>)"

definition TPacketCGPlayerSelect_to_bytes :: "TPacketCGPlayerSelect \<Rightarrow> bytes" where
  "TPacketCGPlayerSelect_to_bytes p = [header p, index p]"

definition TPacketCGPlayerSelect_wf :: "TPacketCGPlayerSelect \<Rightarrow> bool" where
  "TPacketCGPlayerSelect_wf p \<longleftrightarrow> True"

interpretation cg_select:
  packet_codec TPacketCGPlayerSelect_SIZE TPacketCGPlayerSelect_wf TPacketCGPlayerSelect_to_bytes TPacketCGPlayerSelect_from_bytes
  by (rule packet_codecI [OF TPacketCGPlayerSelect_from_bytes_def])
     (auto simp: TPacketCGPlayerSelect_to_bytes_def TPacketCGPlayerSelect_wf_def rd_wr array_lengths intro!: covers)

lemma TPacketCGPlayerSelect_new_wf [simp]: "TPacketCGPlayerSelect_wf (TPacketCGPlayerSelect_new index')"
  by (simp add: TPacketCGPlayerSelect_wf_def TPacketCGPlayerSelect_new_def)

record TPacketCGPlayerDelete =
  header :: u8
  index :: u8
  private_code :: bytes

definition TPacketCGPlayerDelete_SIZE :: nat where [simp]: "TPacketCGPlayerDelete_SIZE = 10"

definition TPacketCGPlayerDelete_new :: "u8 \<Rightarrow> bytes \<Rightarrow> TPacketCGPlayerDelete" where
  "TPacketCGPlayerDelete_new index' private_code' =
     \<lparr>header = CG_CHARACTER_DELETE,
      index = index',
      private_code = from_cstr 8 private_code'\<rparr>"

definition TPacketCGPlayerDelete_from_bytes :: "bytes \<Rightarrow> ProtocolError + TPacketCGPlayerDelete" where
  "TPacketCGPlayerDelete_from_bytes data =
     (if length data \<noteq> TPacketCGPlayerDelete_SIZE then Inl (BadLength TPacketCGPlayerDelete_SIZE (length data))
      else Inr \<lparr>header = data ! 0,
        index = data ! 1,
        private_code = rd_arr 8 data 2\<rparr>)"

definition TPacketCGPlayerDelete_to_bytes :: "TPacketCGPlayerDelete \<Rightarrow> bytes" where
  "TPacketCGPlayerDelete_to_bytes p =
    (let b = replicate TPacketCGPlayerDelete_SIZE 0;
         b = b[0 := header p];
         b = b[1 := index p];
         b = copy_at b 2 (private_code p)
     in b)"

definition TPacketCGPlayerDelete_wf :: "TPacketCGPlayerDelete \<Rightarrow> bool" where
  "TPacketCGPlayerDelete_wf p \<longleftrightarrow> length (private_code p) = 8"

interpretation cg_delete:
  packet_codec TPacketCGPlayerDelete_SIZE TPacketCGPlayerDelete_wf TPacketCGPlayerDelete_to_bytes TPacketCGPlayerDelete_from_bytes
  by (rule packet_codecI [OF TPacketCGPlayerDelete_from_bytes_def])
     (auto simp: TPacketCGPlayerDelete_to_bytes_def TPacketCGPlayerDelete_wf_def rd_wr array_lengths intro!: covers)

lemma TPacketCGPlayerDelete_new_wf [simp]: "TPacketCGPlayerDelete_wf (TPacketCGPlayerDelete_new index' private_code')"
  by (simp add: TPacketCGPlayerDelete_wf_def TPacketCGPlayerDelete_new_def)

record TPacketCGPlayerCreate =
  header :: u8
  index :: u8
  char_name :: bytes
  job :: u16
  shape :: u8
  con_stat :: u8
  int_stat :: u8
  str_stat :: u8
  dex_stat :: u8

definition TPacketCGPlayerCreate_SIZE :: nat where [simp]: "TPacketCGPlayerCreate_SIZE = 34"

definition TPacketCGPlayerCreate_new :: "bytes \<Rightarrow> u16 \<Rightarrow> u8 \<Rightarrow> u8 \<Rightarrow> u8 \<Rightarrow> u8 \<Rightarrow> u8 \<Rightarrow> TPacketCGPlayerCreate" where
  "TPacketCGPlayerCreate_new char_name' job' shape' con_stat' int_stat' str_stat' dex_stat' =
     \<lparr>header = CG_CHARACTER_CREATE,
      index = 0,
      char_name = from_cstr 25 char_name',
      job = job',
      shape = shape',
      con_stat = con_stat',
      int_stat = int_stat',
      str_stat = str_stat',
      dex_stat = dex_stat'\<rparr>"

definition TPacketCGPlayerCreate_from_bytes :: "bytes \<Rightarrow> ProtocolError + TPacketCGPlayerCreate" where
  "TPacketCGPlayerCreate_from_bytes data =
     (if length data \<noteq> TPacketCGPlayerCreate_SIZE then Inl (BadLength TPacketCGPlayerCreate_SIZE (length data))
      else Inr \<lparr>header = data ! 0,
        index = data ! 1,
        char_name = rd_arr 25 data 2,
        job = rd_u16 data 27,
        shape = data ! 29,
        con_stat = data ! 30,
        int_stat = data ! 31,
        str_stat = data ! 32,
        dex_stat = data ! 33\<rparr>)"

definition TPacketCGPlayerCreate_to_bytes :: "TPacketCGPlayerCreate \<Rightarrow> bytes" where
  "TPacketCGPlayerCreate_to_bytes p =
    (let b = replicate TPacketCGPlayerCreate_SIZE 0;
         b = b[0 := header p];
         b = b[1 := index p];
         b = copy_at b 2 (char_name p);
         b = wr_u16 b 27 (job p);
         b = b[29 := shape p];
         b = b[30 := con_stat p];
         b = b[31 := int_stat p];
         b = b[32 := str_stat p];
         b = b[33 := dex_stat p]
     in b)"

definition TPacketCGPlayerCreate_wf :: "TPacketCGPlayerCreate \<Rightarrow> bool" where
  "TPacketCGPlayerCreate_wf p \<longleftrightarrow> length (char_name p) = 25"

interpretation cg_create:
  packet_codec TPacketCGPlayerCreate_SIZE TPacketCGPlayerCreate_wf TPacketCGPlayerCreate_to_bytes TPacketCGPlayerCreate_from_bytes
  by (rule packet_codecI [OF TPacketCGPlayerCreate_from_bytes_def])
     (auto simp: TPacketCGPlayerCreate_to_bytes_def TPacketCGPlayerCreate_wf_def rd_wr array_lengths intro!: covers)

lemma TPacketCGPlayerCreate_new_wf [simp]: "TPacketCGPlayerCreate_wf (TPacketCGPlayerCreate_new char_name' job' shape' con_stat' int_stat' str_stat' dex_stat')"
  by (simp add: TPacketCGPlayerCreate_wf_def TPacketCGPlayerCreate_new_def)

record TPacketCGEmpire =
  header :: u8
  b_empire :: u8

definition TPacketCGEmpire_SIZE :: nat where [simp]: "TPacketCGEmpire_SIZE = 2"

definition TPacketCGEmpire_new :: "u8 \<Rightarrow> TPacketCGEmpire" where
  "TPacketCGEmpire_new b_empire' =
     \<lparr>header = CG_EMPIRE,
      b_empire = b_empire'\<rparr>"

definition TPacketCGEmpire_from_bytes :: "bytes \<Rightarrow> ProtocolError + TPacketCGEmpire" where
  "TPacketCGEmpire_from_bytes data =
     (if length data \<noteq> TPacketCGEmpire_SIZE then Inl (BadLength TPacketCGEmpire_SIZE (length data))
      else Inr \<lparr>header = data ! 0,
        b_empire = data ! 1\<rparr>)"

definition TPacketCGEmpire_to_bytes :: "TPacketCGEmpire \<Rightarrow> bytes" where
  "TPacketCGEmpire_to_bytes p = [header p, b_empire p]"

definition TPacketCGEmpire_wf :: "TPacketCGEmpire \<Rightarrow> bool" where
  "TPacketCGEmpire_wf p \<longleftrightarrow> True"

interpretation cg_empire:
  packet_codec TPacketCGEmpire_SIZE TPacketCGEmpire_wf TPacketCGEmpire_to_bytes TPacketCGEmpire_from_bytes
  by (rule packet_codecI [OF TPacketCGEmpire_from_bytes_def])
     (auto simp: TPacketCGEmpire_to_bytes_def TPacketCGEmpire_wf_def rd_wr array_lengths intro!: covers)

lemma TPacketCGEmpire_new_wf [simp]: "TPacketCGEmpire_wf (TPacketCGEmpire_new b_empire')"
  by (simp add: TPacketCGEmpire_wf_def TPacketCGEmpire_new_def)

record TPacketCGChangeName =
  header :: u8
  index :: u8
  char_name :: bytes

definition TPacketCGChangeName_SIZE :: nat where [simp]: "TPacketCGChangeName_SIZE = 27"

definition TPacketCGChangeName_new :: "u8 \<Rightarrow> bytes \<Rightarrow> TPacketCGChangeName" where
  "TPacketCGChangeName_new index' char_name' =
     \<lparr>header = CG_CHANGE_NAME,
      index = index',
      char_name = from_cstr 25 char_name'\<rparr>"

definition TPacketCGChangeName_from_bytes :: "bytes \<Rightarrow> ProtocolError + TPacketCGChangeName" where
  "TPacketCGChangeName_from_bytes data =
     (if length data \<noteq> TPacketCGChangeName_SIZE then Inl (BadLength TPacketCGChangeName_SIZE (length data))
      else Inr \<lparr>header = data ! 0,
        index = data ! 1,
        char_name = rd_arr 25 data 2\<rparr>)"

definition TPacketCGChangeName_to_bytes :: "TPacketCGChangeName \<Rightarrow> bytes" where
  "TPacketCGChangeName_to_bytes p =
    (let b = replicate TPacketCGChangeName_SIZE 0;
         b = b[0 := header p];
         b = b[1 := index p];
         b = copy_at b 2 (char_name p)
     in b)"

definition TPacketCGChangeName_wf :: "TPacketCGChangeName \<Rightarrow> bool" where
  "TPacketCGChangeName_wf p \<longleftrightarrow> length (char_name p) = 25"

interpretation cg_change_name:
  packet_codec TPacketCGChangeName_SIZE TPacketCGChangeName_wf TPacketCGChangeName_to_bytes TPacketCGChangeName_from_bytes
  by (rule packet_codecI [OF TPacketCGChangeName_from_bytes_def])
     (auto simp: TPacketCGChangeName_to_bytes_def TPacketCGChangeName_wf_def rd_wr array_lengths intro!: covers)

lemma TPacketCGChangeName_new_wf [simp]: "TPacketCGChangeName_wf (TPacketCGChangeName_new index' char_name')"
  by (simp add: TPacketCGChangeName_wf_def TPacketCGChangeName_new_def)

record TPacketCGMarkLogin =
  header :: u8
  handle :: u32
  random_key :: u32

definition TPacketCGMarkLogin_SIZE :: nat where [simp]: "TPacketCGMarkLogin_SIZE = 9"

definition TPacketCGMarkLogin_from_bytes :: "bytes \<Rightarrow> ProtocolError + TPacketCGMarkLogin" where
  "TPacketCGMarkLogin_from_bytes data =
     (if length data \<noteq> TPacketCGMarkLogin_SIZE then Inl (BadLength TPacketCGMarkLogin_SIZE (length data))
      else Inr \<lparr>header = data ! 0,
        handle = rd_u32 data 1,
        random_key = rd_u32 data 5\<rparr>)"

definition TPacketCGMarkLogin_to_bytes :: "TPacketCGMarkLogin \<Rightarrow> bytes" where
  "TPacketCGMarkLogin_to_bytes p =
    (let b = replicate TPacketCGMarkLogin_SIZE 0;
         b = b[0 := header p];
         b = copy_at b 1 (le32 (handle p));
         b = copy_at b 5 (le32 (random_key p))
     in b)"

definition TPacketCGMarkLogin_wf :: "TPacketCGMarkLogin \<Rightarrow> bool" where
  "TPacketCGMarkLogin_wf p \<longleftrightarrow> True"

interpretation cg_mark_login:
  packet_codec TPacketCGMarkLogin_SIZE TPacketCGMarkLogin_wf TPacketCGMarkLogin_to_bytes TPacketCGMarkLogin_from_bytes
  by (rule packet_codecI [OF TPacketCGMarkLogin_from_bytes_def])
     (auto simp: TPacketCGMarkLogin_to_bytes_def TPacketCGMarkLogin_wf_def rd_wr array_lengths intro!: covers)

section \<open>LOGIN3: one layout per role\<close>

text \<open>
  \<^verbatim>\<open>TPacketCGLogin3\<close> is 65 bytes on the game channel and 68, 72 or 88 on the
  authentication server (language, then version, then hardware id). Its length is the
  only thing that tells the variants apart.
\<close>

record TPacketCGLogin3 =
  header :: u8
  login :: bytes
  passwd :: bytes
  adw_client_key :: "u32 list"
  sz_language :: bytes
  version :: "u32 option"
  hwid :: "bytes option"

definition SIZE_CHANNEL :: nat where [simp]: "SIZE_CHANNEL = 65"
definition SIZE_AUTH :: nat where [simp]: "SIZE_AUTH = 68"
definition SIZE_AUTH_VERSION :: nat where [simp]: "SIZE_AUTH_VERSION = 72"
definition SIZE_AUTH_FULL :: nat where [simp]: "SIZE_AUTH_FULL = 88"

definition TPacketCGLogin3_new_channel :: "bytes \<Rightarrow> bytes \<Rightarrow> u32 list \<Rightarrow> TPacketCGLogin3" where
  "TPacketCGLogin3_new_channel login' passwd' key =
     \<lparr>header = CG_LOGIN3, login = from_cstr 31 login', passwd = from_cstr 17 passwd',
      adw_client_key = key, sz_language = [0, 0, 0], version = None, hwid = None\<rparr>"

definition TPacketCGLogin3_new_auth ::
    "bytes \<Rightarrow> bytes \<Rightarrow> u32 list \<Rightarrow> bytes \<Rightarrow> TPacketCGLogin3" where
  "TPacketCGLogin3_new_auth login' passwd' key lang =
     \<lparr>header = CG_LOGIN3, login = from_cstr 31 login', passwd = from_cstr 17 passwd',
      adw_client_key = key, sz_language = from_cstr 3 lang, version = None, hwid = None\<rparr>"

text \<open>The closure \<^verbatim>\<open>base\<close> of \<^verbatim>\<open>from_bytes\<close>: the 65 bytes all variants share.\<close>

definition TPacketCGLogin3_base :: "bytes \<Rightarrow> TPacketCGLogin3" where
  "TPacketCGLogin3_base data =
     \<lparr>header = data ! 0, login = rd_arr 31 data 1, passwd = rd_arr 17 data 32,
      adw_client_key = [rd_u32 data 49, rd_u32 data 53, rd_u32 data 57, rd_u32 data 61],
      sz_language = [0, 0, 0], version = None, hwid = None\<rparr>"

definition TPacketCGLogin3_from_bytes :: "bytes \<Rightarrow> ProtocolError + TPacketCGLogin3" where
  "TPacketCGLogin3_from_bytes data =
     (if length data = SIZE_CHANNEL then Inr (TPacketCGLogin3_base data)
      else if length data = SIZE_AUTH then
        Inr ((TPacketCGLogin3_base data)\<lparr>sz_language := rd_arr 3 data 65\<rparr>)
      else if length data = SIZE_AUTH_VERSION then
        Inr ((TPacketCGLogin3_base data)\<lparr>sz_language := rd_arr 3 data 65,
               version := Some (rd_u32 data 68)\<rparr>)
      else if length data = SIZE_AUTH_FULL then
        Inr ((TPacketCGLogin3_base data)\<lparr>sz_language := rd_arr 3 data 65,
               version := Some (rd_u32 data 68), hwid := Some (rd_arr 16 data 72)\<rparr>)
      else Inl (BadLength SIZE_CHANNEL (length data)))"

definition TPacketCGLogin3_to_bytes_channel :: "TPacketCGLogin3 \<Rightarrow> bytes" where
  "TPacketCGLogin3_to_bytes_channel p =
    (let b = replicate SIZE_CHANNEL 0;
         b = b[0 := header p];
         b = copy_at b 1 (login p);
         b = copy_at b 32 (passwd p);
         b = wr_u32s b 49 (adw_client_key p)
     in b)"

definition TPacketCGLogin3_to_bytes_auth :: "TPacketCGLogin3 \<Rightarrow> bytes" where
  "TPacketCGLogin3_to_bytes_auth p =
    (let b = replicate SIZE_AUTH 0;
         b = copy_at b 0 (TPacketCGLogin3_to_bytes_channel p);
         b = copy_at b 65 (sz_language p)
     in b)"

definition TPacketCGLogin3_to_bytes :: "TPacketCGLogin3 \<Rightarrow> bytes" where
  "TPacketCGLogin3_to_bytes p =
     (if sz_language p = [0, 0, 0] then TPacketCGLogin3_to_bytes_channel p
      else TPacketCGLogin3_to_bytes_auth p)"

definition TPacketCGLogin3_to_bytes_auth_with ::
    "TPacketCGLogin3 \<Rightarrow> u32 option \<Rightarrow> bytes option \<Rightarrow> bytes" where
  "TPacketCGLogin3_to_bytes_auth_with p version' hwid' =
    (let b = TPacketCGLogin3_to_bytes_auth p;
         b = (case version' of Some v \<Rightarrow> b @ le32 v | None \<Rightarrow> b);
         b = (case hwid' of Some h \<Rightarrow> b @ h | None \<Rightarrow> b)
     in b)"

definition TPacketCGLogin3_wf :: "TPacketCGLogin3 \<Rightarrow> bool" where
  "TPacketCGLogin3_wf p \<longleftrightarrow>
     length (login p) = 31 \<and> length (passwd p) = 17 \<and> length (adw_client_key p) = 4 \<and>
     length (sz_language p) = 3 \<and> (\<forall>h. hwid p = Some h \<longrightarrow> length h = 16)"

lemma login3_channel_length [simp]: "length (TPacketCGLogin3_to_bytes_channel p) = 65"
  by (simp add: TPacketCGLogin3_to_bytes_channel_def rd_wr)

lemma login3_auth_length [simp]: "length (TPacketCGLogin3_to_bytes_auth p) = 68"
  by (simp add: TPacketCGLogin3_to_bytes_auth_def)

text \<open>The shared fields are read back from the first 65 bytes, whatever follows them.\<close>

lemma login3_base_channel:
  assumes "TPacketCGLogin3_wf p"
  shows "TPacketCGLogin3_base (TPacketCGLogin3_to_bytes_channel p) =
           p\<lparr>sz_language := [0, 0, 0], version := None, hwid := None\<rparr>"
  using assms
  by (auto simp: TPacketCGLogin3_base_def TPacketCGLogin3_to_bytes_channel_def
      TPacketCGLogin3_wf_def rd_wr array_lengths)

lemma login3_base_append:
  "length data = 65 \<Longrightarrow> TPacketCGLogin3_base (data @ rest) = TPacketCGLogin3_base data"
  by (simp add: TPacketCGLogin3_base_def rd_wr rd_u32_def nth_append)

lemma login3_auth_append:
  assumes "TPacketCGLogin3_wf p"
  shows "TPacketCGLogin3_to_bytes_auth p = TPacketCGLogin3_to_bytes_channel p @ sz_language p"
  using assms
  by (intro nth_equalityI)
     (auto simp: TPacketCGLogin3_to_bytes_auth_def TPacketCGLogin3_wf_def nth_copy_at nth_append)

lemma login3_from_channel:
  "TPacketCGLogin3_wf p \<Longrightarrow>
     TPacketCGLogin3_from_bytes (TPacketCGLogin3_to_bytes_channel p) =
       Inr (p\<lparr>sz_language := [0, 0, 0], version := None, hwid := None\<rparr>)"
  by (simp add: TPacketCGLogin3_from_bytes_def login3_base_channel)

lemma rd_append_right:
  "length a = off \<Longrightarrow> n \<le> length b \<Longrightarrow> rd_arr n (a @ b) off = take n b"
  "length a = off \<Longrightarrow> length b = 4 \<Longrightarrow> rd_u32 (a @ b @ c) off = rd_u32 b 0"
  by (auto simp: rd_wr slice_def rd_u32_def nth_append numeral_2_eq_2)

lemma rd_u32_le32 [simp]: "rd_u32 (le32 v) 0 = v"
  by (simp add: rd_u32_def le32_def from_le32_le32)

lemma login3_from_auth_with:
  assumes wf: "TPacketCGLogin3_wf p" and "h' = Some h \<Longrightarrow> length h = 16"
    and tail: "(v', h') = (None, None) \<or> (v', h') = (Some v, None) \<or> (v', h') = (Some v, Some h)"
  shows "TPacketCGLogin3_from_bytes (TPacketCGLogin3_to_bytes_auth_with p v' h') =
           Inr (p\<lparr>version := v', hwid := h'\<rparr>)"
proof -
  let ?c = "TPacketCGLogin3_to_bytes_channel p" and ?l = "sz_language p"
  have l: "length ?l = 3" using wf by (simp add: TPacketCGLogin3_wf_def)
  have base: "TPacketCGLogin3_base (?c @ rest) = p\<lparr>sz_language := [0, 0, 0], version := None, hwid := None\<rparr>"
    for rest using wf by (simp add: login3_base_append login3_base_channel)
  have lang: "rd_arr 3 (?c @ ?l @ rest) 65 = ?l" for rest
    using l by (subst rd_append_right(1)) auto
  have ver: "rd_u32 (?c @ ?l @ le32 v @ rest) 68 = v" for rest
    using rd_append_right(2) [of "?c @ ?l" 68 "le32 v" rest] l by simp
  have hw: "length h = 16 \<Longrightarrow> rd_arr 16 (?c @ ?l @ le32 v @ h) 72 = h"
    using rd_append_right(1) [of "?c @ ?l @ le32 v" 72 16 h] l by simp
  from assms(2) tail l show ?thesis
    using lang [of "[]"] ver [of "[]"]
    by (auto simp: TPacketCGLogin3_to_bytes_auth_with_def login3_auth_append [OF wf]
        TPacketCGLogin3_from_bytes_def base lang ver hw Let_def)
qed

section \<open>Round trip of the packets\<close>

text \<open>C12. Every client packet parses exactly from the byte strings of its size, and parsing and
  serialising are inverse to each other, for the nine fixed-size packets of the login flow.\<close>

theorem client_packets_roundtrip:
  "(TPacketCGHandshake_from_bytes d = Inr p1 \<longleftrightarrow> TPacketCGHandshake_wf p1 \<and> TPacketCGHandshake_to_bytes p1 = d)
   \<and> ((\<exists>p. TPacketCGHandshake_from_bytes d = Inr p) \<longleftrightarrow> length d = 13)
   \<and> (TPacketCGLogin_from_bytes d = Inr p2 \<longleftrightarrow> TPacketCGLogin_wf p2 \<and> TPacketCGLogin_to_bytes p2 = d)
   \<and> ((\<exists>p. TPacketCGLogin_from_bytes d = Inr p) \<longleftrightarrow> length d = 49)
   \<and> (TPacketCGLogin2_from_bytes d = Inr p3 \<longleftrightarrow> TPacketCGLogin2_wf p3 \<and> TPacketCGLogin2_to_bytes p3 = d)
   \<and> ((\<exists>p. TPacketCGLogin2_from_bytes d = Inr p) \<longleftrightarrow> length d = 52)
   \<and> (TPacketCGPlayerSelect_from_bytes d = Inr p4 \<longleftrightarrow> TPacketCGPlayerSelect_wf p4 \<and> TPacketCGPlayerSelect_to_bytes p4 = d)
   \<and> ((\<exists>p. TPacketCGPlayerSelect_from_bytes d = Inr p) \<longleftrightarrow> length d = 2)
   \<and> (TPacketCGPlayerDelete_from_bytes d = Inr p5 \<longleftrightarrow> TPacketCGPlayerDelete_wf p5 \<and> TPacketCGPlayerDelete_to_bytes p5 = d)
   \<and> ((\<exists>p. TPacketCGPlayerDelete_from_bytes d = Inr p) \<longleftrightarrow> length d = 10)
   \<and> (TPacketCGPlayerCreate_from_bytes d = Inr p6 \<longleftrightarrow> TPacketCGPlayerCreate_wf p6 \<and> TPacketCGPlayerCreate_to_bytes p6 = d)
   \<and> ((\<exists>p. TPacketCGPlayerCreate_from_bytes d = Inr p) \<longleftrightarrow> length d = 34)
   \<and> (TPacketCGEmpire_from_bytes d = Inr p7 \<longleftrightarrow> TPacketCGEmpire_wf p7 \<and> TPacketCGEmpire_to_bytes p7 = d)
   \<and> ((\<exists>p. TPacketCGEmpire_from_bytes d = Inr p) \<longleftrightarrow> length d = 2)
   \<and> (TPacketCGChangeName_from_bytes d = Inr p8 \<longleftrightarrow> TPacketCGChangeName_wf p8 \<and> TPacketCGChangeName_to_bytes p8 = d)
   \<and> ((\<exists>p. TPacketCGChangeName_from_bytes d = Inr p) \<longleftrightarrow> length d = 27)
   \<and> (TPacketCGMarkLogin_from_bytes d = Inr p9 \<longleftrightarrow> TPacketCGMarkLogin_wf p9 \<and> TPacketCGMarkLogin_to_bytes p9 = d)
   \<and> ((\<exists>p. TPacketCGMarkLogin_from_bytes d = Inr p) \<longleftrightarrow> length d = 9)"
  by (intro conjI; rule
    cg_handshake.from_bytes_Inr cg_handshake.from_bytes_ok_iff [simplified]
    cg_login.from_bytes_Inr cg_login.from_bytes_ok_iff [simplified]
    cg_login2.from_bytes_Inr cg_login2.from_bytes_ok_iff [simplified]
    cg_select.from_bytes_Inr cg_select.from_bytes_ok_iff [simplified]
    cg_delete.from_bytes_Inr cg_delete.from_bytes_ok_iff [simplified]
    cg_create.from_bytes_Inr cg_create.from_bytes_ok_iff [simplified]
    cg_empire.from_bytes_Inr cg_empire.from_bytes_ok_iff [simplified]
    cg_change_name.from_bytes_Inr cg_change_name.from_bytes_ok_iff [simplified]
    cg_mark_login.from_bytes_Inr cg_mark_login.from_bytes_ok_iff [simplified])

text \<open>LOGIN3 round trip per variant: a login with its language, and optionally its version and
  with it the hardware id, is read back exactly from the authentication form, and from the
  channel form without them. The one combination the writer accepts and the reader refuses is a
  hardware id without a version (84 bytes).\<close>

theorem login3_roundtrip:
  assumes "TPacketCGLogin3_wf p" and "version p = None \<Longrightarrow> hwid p = None" and "length h = 16"
  shows "TPacketCGLogin3_from_bytes (TPacketCGLogin3_to_bytes_auth_with p (version p) (hwid p)) = Inr p
    \<and> TPacketCGLogin3_from_bytes (TPacketCGLogin3_to_bytes_channel p)
        = Inr (p\<lparr>sz_language := [0, 0, 0], version := None, hwid := None\<rparr>)
    \<and> TPacketCGLogin3_from_bytes (TPacketCGLogin3_to_bytes_auth_with p None (Some h)) = Inl (BadLength 65 84)"
proof (intro conjI)
  have p: "p\<lparr>version := version p, hwid := hwid p\<rparr> = p" by simp
  show "TPacketCGLogin3_from_bytes (TPacketCGLogin3_to_bytes_auth_with p (version p) (hwid p)) = Inr p"
    using login3_from_auth_with [OF assms(1), of "hwid p" "the (hwid p)" "version p" "the (version p)"]
      assms(1,2) p by (cases "version p"; cases "hwid p") (auto simp: TPacketCGLogin3_wf_def)
  show "TPacketCGLogin3_from_bytes (TPacketCGLogin3_to_bytes_channel p)
        = Inr (p\<lparr>sz_language := [0, 0, 0], version := None, hwid := None\<rparr>)"
    by (rule login3_from_channel [OF assms(1)])
  show "TPacketCGLogin3_from_bytes (TPacketCGLogin3_to_bytes_auth_with p None (Some h)) = Inl (BadLength 65 84)"
    using assms(3) by (simp add: TPacketCGLogin3_to_bytes_auth_with_def TPacketCGLogin3_from_bytes_def Let_def)
qed

definition login3_sample :: TPacketCGLogin3 where
  "login3_sample = (TPacketCGLogin3_new_auth [97, 98] [99] [1, 2, 3, 4] [101, 115])
     \<lparr>version := Some 7, hwid := Some (replicate 16 9)\<rparr>"

theorem login3_roundtrip_witness:
  "TPacketCGLogin3_from_bytes (TPacketCGLogin3_to_bytes_auth_with login3_sample (version login3_sample) (hwid login3_sample))
      = Inr login3_sample
    \<and> TPacketCGLogin3_from_bytes (TPacketCGLogin3_to_bytes_channel login3_sample)
        = Inr (login3_sample\<lparr>sz_language := [0, 0, 0], version := None, hwid := None\<rparr>)
    \<and> TPacketCGLogin3_from_bytes (TPacketCGLogin3_to_bytes_auth_with login3_sample None (Some (replicate 16 0)))
        = Inl (BadLength 65 84)"
  by (rule login3_roundtrip)
    (simp_all add: login3_sample_def TPacketCGLogin3_new_auth_def TPacketCGLogin3_wf_def)

end
