(* ===== verification/ServerPackets.thy ===== *)
theory ServerPackets
  imports Wire Headers
begin

text \<open>
  The server-to-client packets of the handshake, the login, the character selection and the
  first spawn (\<^verbatim>\<open>protocol/src/lib.rs\<close>, sections "S->C"), in the shape of \<open>ClientPackets\<close>.
\<close>

record TPacketGCHandshake =
  header :: u8
  dw_handshake :: u32
  dw_time :: u32
  l_delta :: i32

definition TPacketGCHandshake_SIZE :: nat where [simp]: "TPacketGCHandshake_SIZE = 13"

definition TPacketGCHandshake_new :: "u32 \<Rightarrow> u32 \<Rightarrow> i32 \<Rightarrow> TPacketGCHandshake" where
  "TPacketGCHandshake_new dw_handshake' dw_time' l_delta' =
     \<lparr>header = GC_HANDSHAKE,
      dw_handshake = dw_handshake',
      dw_time = dw_time',
      l_delta = l_delta'\<rparr>"

definition TPacketGCHandshake_from_bytes :: "bytes \<Rightarrow> ProtocolError + TPacketGCHandshake" where
  "TPacketGCHandshake_from_bytes data =
     (if length data \<noteq> TPacketGCHandshake_SIZE then Inl (BadLength TPacketGCHandshake_SIZE (length data))
      else Inr \<lparr>header = data ! 0,
        dw_handshake = rd_u32 data 1,
        dw_time = rd_u32 data 5,
        l_delta = rd_i32 data 9\<rparr>)"

definition TPacketGCHandshake_to_bytes :: "TPacketGCHandshake \<Rightarrow> bytes" where
  "TPacketGCHandshake_to_bytes p =
    (let b = replicate TPacketGCHandshake_SIZE 0;
         b = b[0 := header p];
         b = wr_u32 b 1 (dw_handshake p);
         b = wr_u32 b 5 (dw_time p);
         b = wr_i32 b 9 (l_delta p)
     in b)"

definition TPacketGCHandshake_wf :: "TPacketGCHandshake \<Rightarrow> bool" where
  "TPacketGCHandshake_wf p \<longleftrightarrow> True"

interpretation gc_handshake:
  packet_codec TPacketGCHandshake_SIZE TPacketGCHandshake_wf TPacketGCHandshake_to_bytes TPacketGCHandshake_from_bytes
  by (rule packet_codecI [OF TPacketGCHandshake_from_bytes_def])
     (auto simp: TPacketGCHandshake_to_bytes_def TPacketGCHandshake_wf_def rd_wr array_lengths intro!: covers)

lemma TPacketGCHandshake_new_wf [simp]: "TPacketGCHandshake_wf (TPacketGCHandshake_new dw_handshake' dw_time' l_delta')"
  by (simp add: TPacketGCHandshake_wf_def TPacketGCHandshake_new_def)

record TPacketGCLoginKey =
  header :: u8
  dw_login_key :: u32

definition TPacketGCLoginKey_SIZE :: nat where [simp]: "TPacketGCLoginKey_SIZE = 5"

definition TPacketGCLoginKey_new :: "u32 \<Rightarrow> TPacketGCLoginKey" where
  "TPacketGCLoginKey_new dw_login_key' =
     \<lparr>header = GC_LOGIN_KEY,
      dw_login_key = dw_login_key'\<rparr>"

definition TPacketGCLoginKey_from_bytes :: "bytes \<Rightarrow> ProtocolError + TPacketGCLoginKey" where
  "TPacketGCLoginKey_from_bytes data =
     (if length data \<noteq> TPacketGCLoginKey_SIZE then Inl (BadLength TPacketGCLoginKey_SIZE (length data))
      else Inr \<lparr>header = data ! 0,
        dw_login_key = rd_u32 data 1\<rparr>)"

definition TPacketGCLoginKey_to_bytes :: "TPacketGCLoginKey \<Rightarrow> bytes" where
  "TPacketGCLoginKey_to_bytes p =
    (let b = replicate TPacketGCLoginKey_SIZE 0;
         b = b[0 := header p];
         b = wr_u32 b 1 (dw_login_key p)
     in b)"

definition TPacketGCLoginKey_wf :: "TPacketGCLoginKey \<Rightarrow> bool" where
  "TPacketGCLoginKey_wf p \<longleftrightarrow> True"

interpretation gc_login_key:
  packet_codec TPacketGCLoginKey_SIZE TPacketGCLoginKey_wf TPacketGCLoginKey_to_bytes TPacketGCLoginKey_from_bytes
  by (rule packet_codecI [OF TPacketGCLoginKey_from_bytes_def])
     (auto simp: TPacketGCLoginKey_to_bytes_def TPacketGCLoginKey_wf_def rd_wr array_lengths intro!: covers)

lemma TPacketGCLoginKey_new_wf [simp]: "TPacketGCLoginKey_wf (TPacketGCLoginKey_new dw_login_key')"
  by (simp add: TPacketGCLoginKey_wf_def TPacketGCLoginKey_new_def)

record TPacketGCPhase =
  header :: u8
  phase :: u8

definition TPacketGCPhase_SIZE :: nat where [simp]: "TPacketGCPhase_SIZE = 2"

definition TPacketGCPhase_new :: "u8 \<Rightarrow> TPacketGCPhase" where
  "TPacketGCPhase_new phase' =
     \<lparr>header = GC_PHASE,
      phase = phase'\<rparr>"

definition TPacketGCPhase_from_bytes :: "bytes \<Rightarrow> ProtocolError + TPacketGCPhase" where
  "TPacketGCPhase_from_bytes data =
     (if length data \<noteq> TPacketGCPhase_SIZE then Inl (BadLength TPacketGCPhase_SIZE (length data))
      else Inr \<lparr>header = data ! 0,
        phase = data ! 1\<rparr>)"

definition TPacketGCPhase_to_bytes :: "TPacketGCPhase \<Rightarrow> bytes" where
  "TPacketGCPhase_to_bytes p = [header p, phase p]"

definition TPacketGCPhase_wf :: "TPacketGCPhase \<Rightarrow> bool" where
  "TPacketGCPhase_wf p \<longleftrightarrow> True"

interpretation gc_phase:
  packet_codec TPacketGCPhase_SIZE TPacketGCPhase_wf TPacketGCPhase_to_bytes TPacketGCPhase_from_bytes
  by (rule packet_codecI [OF TPacketGCPhase_from_bytes_def])
     (auto simp: TPacketGCPhase_to_bytes_def TPacketGCPhase_wf_def rd_wr array_lengths intro!: covers)

lemma TPacketGCPhase_new_wf [simp]: "TPacketGCPhase_wf (TPacketGCPhase_new phase')"
  by (simp add: TPacketGCPhase_wf_def TPacketGCPhase_new_def)

record TPacketGCAuthSuccess =
  header :: u8
  dw_login_key :: u32
  b_result :: u8

definition TPacketGCAuthSuccess_SIZE :: nat where [simp]: "TPacketGCAuthSuccess_SIZE = 6"

definition TPacketGCAuthSuccess_new :: "u32 \<Rightarrow> u8 \<Rightarrow> TPacketGCAuthSuccess" where
  "TPacketGCAuthSuccess_new dw_login_key' b_result' =
     \<lparr>header = GC_AUTH_SUCCESS,
      dw_login_key = dw_login_key',
      b_result = b_result'\<rparr>"

definition TPacketGCAuthSuccess_from_bytes :: "bytes \<Rightarrow> ProtocolError + TPacketGCAuthSuccess" where
  "TPacketGCAuthSuccess_from_bytes data =
     (if length data \<noteq> TPacketGCAuthSuccess_SIZE then Inl (BadLength TPacketGCAuthSuccess_SIZE (length data))
      else Inr \<lparr>header = data ! 0,
        dw_login_key = rd_u32 data 1,
        b_result = data ! 5\<rparr>)"

definition TPacketGCAuthSuccess_to_bytes :: "TPacketGCAuthSuccess \<Rightarrow> bytes" where
  "TPacketGCAuthSuccess_to_bytes p =
    (let b = replicate TPacketGCAuthSuccess_SIZE 0;
         b = b[0 := header p];
         b = wr_u32 b 1 (dw_login_key p);
         b = b[5 := b_result p]
     in b)"

definition TPacketGCAuthSuccess_wf :: "TPacketGCAuthSuccess \<Rightarrow> bool" where
  "TPacketGCAuthSuccess_wf p \<longleftrightarrow> True"

interpretation gc_auth_success:
  packet_codec TPacketGCAuthSuccess_SIZE TPacketGCAuthSuccess_wf TPacketGCAuthSuccess_to_bytes TPacketGCAuthSuccess_from_bytes
  by (rule packet_codecI [OF TPacketGCAuthSuccess_from_bytes_def])
     (auto simp: TPacketGCAuthSuccess_to_bytes_def TPacketGCAuthSuccess_wf_def rd_wr array_lengths intro!: covers)

lemma TPacketGCAuthSuccess_new_wf [simp]: "TPacketGCAuthSuccess_wf (TPacketGCAuthSuccess_new dw_login_key' b_result')"
  by (simp add: TPacketGCAuthSuccess_wf_def TPacketGCAuthSuccess_new_def)

record TPacketGCLoginFailure =
  header :: u8
  sz_status :: bytes

definition TPacketGCLoginFailure_SIZE :: nat where [simp]: "TPacketGCLoginFailure_SIZE = 10"

definition TPacketGCLoginFailure_new :: "bytes \<Rightarrow> TPacketGCLoginFailure" where
  "TPacketGCLoginFailure_new status' =
     \<lparr>header = GC_LOGIN_FAILURE,
      sz_status = from_cstr 9 status'\<rparr>"

definition TPacketGCLoginFailure_from_bytes :: "bytes \<Rightarrow> ProtocolError + TPacketGCLoginFailure" where
  "TPacketGCLoginFailure_from_bytes data =
     (if length data \<noteq> TPacketGCLoginFailure_SIZE then Inl (BadLength TPacketGCLoginFailure_SIZE (length data))
      else Inr \<lparr>header = data ! 0,
        sz_status = rd_arr 9 data 1\<rparr>)"

definition TPacketGCLoginFailure_to_bytes :: "TPacketGCLoginFailure \<Rightarrow> bytes" where
  "TPacketGCLoginFailure_to_bytes p =
    (let b = replicate TPacketGCLoginFailure_SIZE 0;
         b = b[0 := header p];
         b = copy_at b 1 (sz_status p)
     in b)"

definition TPacketGCLoginFailure_wf :: "TPacketGCLoginFailure \<Rightarrow> bool" where
  "TPacketGCLoginFailure_wf p \<longleftrightarrow> length (sz_status p) = 9"

interpretation gc_login_failure:
  packet_codec TPacketGCLoginFailure_SIZE TPacketGCLoginFailure_wf TPacketGCLoginFailure_to_bytes TPacketGCLoginFailure_from_bytes
  by (rule packet_codecI [OF TPacketGCLoginFailure_from_bytes_def])
     (auto simp: TPacketGCLoginFailure_to_bytes_def TPacketGCLoginFailure_wf_def rd_wr array_lengths intro!: covers)

lemma TPacketGCLoginFailure_new_wf [simp]: "TPacketGCLoginFailure_wf (TPacketGCLoginFailure_new status')"
  by (simp add: TPacketGCLoginFailure_wf_def TPacketGCLoginFailure_new_def)

record TPacketGCEmpire =
  header :: u8
  b_empire :: u8

definition TPacketGCEmpire_SIZE :: nat where [simp]: "TPacketGCEmpire_SIZE = 2"

definition TPacketGCEmpire_new :: "u8 \<Rightarrow> TPacketGCEmpire" where
  "TPacketGCEmpire_new b_empire' =
     \<lparr>header = GC_EMPIRE,
      b_empire = b_empire'\<rparr>"

definition TPacketGCEmpire_from_bytes :: "bytes \<Rightarrow> ProtocolError + TPacketGCEmpire" where
  "TPacketGCEmpire_from_bytes data =
     (if length data \<noteq> TPacketGCEmpire_SIZE then Inl (BadLength TPacketGCEmpire_SIZE (length data))
      else Inr \<lparr>header = data ! 0,
        b_empire = data ! 1\<rparr>)"

definition TPacketGCEmpire_to_bytes :: "TPacketGCEmpire \<Rightarrow> bytes" where
  "TPacketGCEmpire_to_bytes p = [header p, b_empire p]"

definition TPacketGCEmpire_wf :: "TPacketGCEmpire \<Rightarrow> bool" where
  "TPacketGCEmpire_wf p \<longleftrightarrow> True"

interpretation gc_empire:
  packet_codec TPacketGCEmpire_SIZE TPacketGCEmpire_wf TPacketGCEmpire_to_bytes TPacketGCEmpire_from_bytes
  by (rule packet_codecI [OF TPacketGCEmpire_from_bytes_def])
     (auto simp: TPacketGCEmpire_to_bytes_def TPacketGCEmpire_wf_def rd_wr array_lengths intro!: covers)

lemma TPacketGCEmpire_new_wf [simp]: "TPacketGCEmpire_wf (TPacketGCEmpire_new b_empire')"
  by (simp add: TPacketGCEmpire_wf_def TPacketGCEmpire_new_def)

record TSimplePlayer =
  dw_id :: u32
  sz_name :: bytes
  by_job :: u8
  by_level :: u8
  dw_play_minutes :: u32
  by_st :: u8
  by_ht :: u8
  by_dx :: u8
  by_iq :: u8
  w_main_part :: u32
  b_change_name :: u8
  w_hair_part :: u32
  w_acce_part :: u32
  b_dummy :: bytes
  pos_x :: i32
  pos_y :: i32
  l_addr :: i32
  w_port :: u16
  skill_group :: u8

definition TSimplePlayer_SIZE :: nat where [simp]: "TSimplePlayer_SIZE = 71"

definition TSimplePlayer_from_bytes :: "bytes \<Rightarrow> ProtocolError + TSimplePlayer" where
  "TSimplePlayer_from_bytes data =
     (if length data \<noteq> TSimplePlayer_SIZE then Inl (BadLength TSimplePlayer_SIZE (length data))
      else Inr \<lparr>dw_id = rd_u32 data 0,
        sz_name = rd_arr 25 data 4,
        by_job = data ! 29,
        by_level = data ! 30,
        dw_play_minutes = rd_u32 data 31,
        by_st = data ! 35,
        by_ht = data ! 36,
        by_dx = data ! 37,
        by_iq = data ! 38,
        w_main_part = rd_u32 data 39,
        b_change_name = data ! 43,
        w_hair_part = rd_u32 data 44,
        w_acce_part = rd_u32 data 48,
        b_dummy = rd_arr 4 data 52,
        pos_x = rd_i32 data 56,
        pos_y = rd_i32 data 60,
        l_addr = rd_i32 data 64,
        w_port = rd_u16 data 68,
        skill_group = data ! 70\<rparr>)"

definition TSimplePlayer_to_bytes :: "TSimplePlayer \<Rightarrow> bytes" where
  "TSimplePlayer_to_bytes p =
    (let b = replicate TSimplePlayer_SIZE 0;
         b = wr_u32 b 0 (dw_id p);
         b = copy_at b 4 (sz_name p);
         b = b[29 := by_job p];
         b = b[30 := by_level p];
         b = wr_u32 b 31 (dw_play_minutes p);
         b = b[35 := by_st p];
         b = b[36 := by_ht p];
         b = b[37 := by_dx p];
         b = b[38 := by_iq p];
         b = wr_u32 b 39 (w_main_part p);
         b = b[43 := b_change_name p];
         b = wr_u32 b 44 (w_hair_part p);
         b = wr_u32 b 48 (w_acce_part p);
         b = copy_at b 52 (b_dummy p);
         b = wr_i32 b 56 (pos_x p);
         b = wr_i32 b 60 (pos_y p);
         b = wr_i32 b 64 (l_addr p);
         b = wr_u16 b 68 (w_port p);
         b = b[70 := skill_group p]
     in b)"

definition TSimplePlayer_wf :: "TSimplePlayer \<Rightarrow> bool" where
  "TSimplePlayer_wf p \<longleftrightarrow> length (sz_name p) = 25 \<and> length (b_dummy p) = 4"

interpretation simple_player:
  packet_codec TSimplePlayer_SIZE TSimplePlayer_wf TSimplePlayer_to_bytes TSimplePlayer_from_bytes
  by (rule packet_codecI [OF TSimplePlayer_from_bytes_def])
     (auto simp: TSimplePlayer_to_bytes_def TSimplePlayer_wf_def rd_wr array_lengths intro!: covers)

record TPacketGCCreateFailure =
  header :: u8
  b_type :: u8

definition TPacketGCCreateFailure_SIZE :: nat where [simp]: "TPacketGCCreateFailure_SIZE = 2"

definition TPacketGCCreateFailure_new :: "u8 \<Rightarrow> TPacketGCCreateFailure" where
  "TPacketGCCreateFailure_new b_type' =
     \<lparr>header = GC_CHARACTER_CREATE_FAILURE,
      b_type = b_type'\<rparr>"

definition TPacketGCCreateFailure_from_bytes :: "bytes \<Rightarrow> ProtocolError + TPacketGCCreateFailure" where
  "TPacketGCCreateFailure_from_bytes data =
     (if length data \<noteq> TPacketGCCreateFailure_SIZE then Inl (BadLength TPacketGCCreateFailure_SIZE (length data))
      else Inr \<lparr>header = data ! 0,
        b_type = data ! 1\<rparr>)"

definition TPacketGCCreateFailure_to_bytes :: "TPacketGCCreateFailure \<Rightarrow> bytes" where
  "TPacketGCCreateFailure_to_bytes p = [header p, b_type p]"

definition TPacketGCCreateFailure_wf :: "TPacketGCCreateFailure \<Rightarrow> bool" where
  "TPacketGCCreateFailure_wf p \<longleftrightarrow> True"

interpretation gc_create_failure:
  packet_codec TPacketGCCreateFailure_SIZE TPacketGCCreateFailure_wf TPacketGCCreateFailure_to_bytes TPacketGCCreateFailure_from_bytes
  by (rule packet_codecI [OF TPacketGCCreateFailure_from_bytes_def])
     (auto simp: TPacketGCCreateFailure_to_bytes_def TPacketGCCreateFailure_wf_def rd_wr array_lengths intro!: covers)

lemma TPacketGCCreateFailure_new_wf [simp]: "TPacketGCCreateFailure_wf (TPacketGCCreateFailure_new b_type')"
  by (simp add: TPacketGCCreateFailure_wf_def TPacketGCCreateFailure_new_def)

record TPacketGCDestroyCharacterSuccess =
  header :: u8
  account_index :: u8

definition TPacketGCDestroyCharacterSuccess_SIZE :: nat where [simp]: "TPacketGCDestroyCharacterSuccess_SIZE = 2"

definition TPacketGCDestroyCharacterSuccess_new :: "u8 \<Rightarrow> TPacketGCDestroyCharacterSuccess" where
  "TPacketGCDestroyCharacterSuccess_new account_index' =
     \<lparr>header = GC_CHARACTER_DELETE_SUCCESS,
      account_index = account_index'\<rparr>"

definition TPacketGCDestroyCharacterSuccess_from_bytes :: "bytes \<Rightarrow> ProtocolError + TPacketGCDestroyCharacterSuccess" where
  "TPacketGCDestroyCharacterSuccess_from_bytes data =
     (if length data \<noteq> TPacketGCDestroyCharacterSuccess_SIZE then Inl (BadLength TPacketGCDestroyCharacterSuccess_SIZE (length data))
      else Inr \<lparr>header = data ! 0,
        account_index = data ! 1\<rparr>)"

definition TPacketGCDestroyCharacterSuccess_to_bytes :: "TPacketGCDestroyCharacterSuccess \<Rightarrow> bytes" where
  "TPacketGCDestroyCharacterSuccess_to_bytes p = [header p, account_index p]"

definition TPacketGCDestroyCharacterSuccess_wf :: "TPacketGCDestroyCharacterSuccess \<Rightarrow> bool" where
  "TPacketGCDestroyCharacterSuccess_wf p \<longleftrightarrow> True"

interpretation gc_destroy_success:
  packet_codec TPacketGCDestroyCharacterSuccess_SIZE TPacketGCDestroyCharacterSuccess_wf TPacketGCDestroyCharacterSuccess_to_bytes TPacketGCDestroyCharacterSuccess_from_bytes
  by (rule packet_codecI [OF TPacketGCDestroyCharacterSuccess_from_bytes_def])
     (auto simp: TPacketGCDestroyCharacterSuccess_to_bytes_def TPacketGCDestroyCharacterSuccess_wf_def rd_wr array_lengths intro!: covers)

lemma TPacketGCDestroyCharacterSuccess_new_wf [simp]: "TPacketGCDestroyCharacterSuccess_wf (TPacketGCDestroyCharacterSuccess_new account_index')"
  by (simp add: TPacketGCDestroyCharacterSuccess_wf_def TPacketGCDestroyCharacterSuccess_new_def)

record TPacketGCChangeName =
  header :: u8
  pid :: u32
  char_name :: bytes

definition TPacketGCChangeName_SIZE :: nat where [simp]: "TPacketGCChangeName_SIZE = 30"

definition TPacketGCChangeName_new :: "u32 \<Rightarrow> bytes \<Rightarrow> TPacketGCChangeName" where
  "TPacketGCChangeName_new pid' char_name' =
     \<lparr>header = GC_CHANGE_NAME,
      pid = pid',
      char_name = from_cstr 25 char_name'\<rparr>"

definition TPacketGCChangeName_from_bytes :: "bytes \<Rightarrow> ProtocolError + TPacketGCChangeName" where
  "TPacketGCChangeName_from_bytes data =
     (if length data \<noteq> TPacketGCChangeName_SIZE then Inl (BadLength TPacketGCChangeName_SIZE (length data))
      else Inr \<lparr>header = data ! 0,
        pid = rd_u32 data 1,
        char_name = rd_arr 25 data 5\<rparr>)"

definition TPacketGCChangeName_to_bytes :: "TPacketGCChangeName \<Rightarrow> bytes" where
  "TPacketGCChangeName_to_bytes p =
    (let b = replicate TPacketGCChangeName_SIZE 0;
         b = b[0 := header p];
         b = wr_u32 b 1 (pid p);
         b = copy_at b 5 (char_name p)
     in b)"

definition TPacketGCChangeName_wf :: "TPacketGCChangeName \<Rightarrow> bool" where
  "TPacketGCChangeName_wf p \<longleftrightarrow> length (char_name p) = 25"

interpretation gc_change_name:
  packet_codec TPacketGCChangeName_SIZE TPacketGCChangeName_wf TPacketGCChangeName_to_bytes TPacketGCChangeName_from_bytes
  by (rule packet_codecI [OF TPacketGCChangeName_from_bytes_def])
     (auto simp: TPacketGCChangeName_to_bytes_def TPacketGCChangeName_wf_def rd_wr array_lengths intro!: covers)

lemma TPacketGCChangeName_new_wf [simp]: "TPacketGCChangeName_wf (TPacketGCChangeName_new pid' char_name')"
  by (simp add: TPacketGCChangeName_wf_def TPacketGCChangeName_new_def)

record TPacketGCCharacterAdd =
  header :: u8
  dw_vid :: u32
  angle :: f32_bits
  pos_x :: i32
  pos_y :: i32
  pos_z :: i32
  b_type :: u8
  w_race_num :: u32
  b_moving_speed :: u8
  b_attack_speed :: u8
  b_state_flag :: u8
  dw_affect_flag :: "u32 list"

definition TPacketGCCharacterAdd_SIZE :: nat where [simp]: "TPacketGCCharacterAdd_SIZE = 37"

definition TPacketGCCharacterAdd_new :: "u32 \<Rightarrow> f32_bits \<Rightarrow> i32 \<Rightarrow> i32 \<Rightarrow> i32 \<Rightarrow> u8 \<Rightarrow> u32 \<Rightarrow> u8 \<Rightarrow> u8 \<Rightarrow> u8 \<Rightarrow> (u32 list) \<Rightarrow> TPacketGCCharacterAdd" where
  "TPacketGCCharacterAdd_new dw_vid' angle' pos_x' pos_y' pos_z' b_type' w_race_num' b_moving_speed' b_attack_speed' b_state_flag' dw_affect_flag' =
     \<lparr>header = GC_CHARACTER_ADD,
      dw_vid = dw_vid',
      angle = angle',
      pos_x = pos_x',
      pos_y = pos_y',
      pos_z = pos_z',
      b_type = b_type',
      w_race_num = w_race_num',
      b_moving_speed = b_moving_speed',
      b_attack_speed = b_attack_speed',
      b_state_flag = b_state_flag',
      dw_affect_flag = dw_affect_flag'\<rparr>"

definition TPacketGCCharacterAdd_from_bytes :: "bytes \<Rightarrow> ProtocolError + TPacketGCCharacterAdd" where
  "TPacketGCCharacterAdd_from_bytes data =
     (if length data \<noteq> TPacketGCCharacterAdd_SIZE then Inl (BadLength TPacketGCCharacterAdd_SIZE (length data))
      else Inr \<lparr>header = data ! 0,
        dw_vid = rd_u32 data 1,
        angle = rd_f32 data 5,
        pos_x = rd_i32 data 9,
        pos_y = rd_i32 data 13,
        pos_z = rd_i32 data 17,
        b_type = data ! 21,
        w_race_num = rd_u32 data 22,
        b_moving_speed = data ! 26,
        b_attack_speed = data ! 27,
        b_state_flag = data ! 28,
        dw_affect_flag = [rd_u32 data 29, rd_u32 data 33]\<rparr>)"

definition TPacketGCCharacterAdd_to_bytes :: "TPacketGCCharacterAdd \<Rightarrow> bytes" where
  "TPacketGCCharacterAdd_to_bytes p =
    (let b = replicate TPacketGCCharacterAdd_SIZE 0;
         b = b[0 := header p];
         b = wr_u32 b 1 (dw_vid p);
         b = wr_f32 b 5 (angle p);
         b = wr_i32 b 9 (pos_x p);
         b = wr_i32 b 13 (pos_y p);
         b = wr_i32 b 17 (pos_z p);
         b = b[21 := b_type p];
         b = wr_u32 b 22 (w_race_num p);
         b = b[26 := b_moving_speed p];
         b = b[27 := b_attack_speed p];
         b = b[28 := b_state_flag p];
         b = wr_u32 b 29 (dw_affect_flag p ! 0);
         b = wr_u32 b 33 (dw_affect_flag p ! 1)
     in b)"

definition TPacketGCCharacterAdd_wf :: "TPacketGCCharacterAdd \<Rightarrow> bool" where
  "TPacketGCCharacterAdd_wf p \<longleftrightarrow> length (dw_affect_flag p) = 2"

interpretation gc_character_add:
  packet_codec TPacketGCCharacterAdd_SIZE TPacketGCCharacterAdd_wf TPacketGCCharacterAdd_to_bytes TPacketGCCharacterAdd_from_bytes
  by (rule packet_codecI [OF TPacketGCCharacterAdd_from_bytes_def])
     (auto simp: TPacketGCCharacterAdd_to_bytes_def TPacketGCCharacterAdd_wf_def rd_wr array_lengths intro!: covers)

lemma TPacketGCCharacterAdd_new_wf [simp]: "length dw_affect_flag' = 2 \<Longrightarrow> TPacketGCCharacterAdd_wf (TPacketGCCharacterAdd_new dw_vid' angle' pos_x' pos_y' pos_z' b_type' w_race_num' b_moving_speed' b_attack_speed' b_state_flag' dw_affect_flag')"
  by (simp add: TPacketGCCharacterAdd_wf_def TPacketGCCharacterAdd_new_def)

record TPacketGCCharacterAdditionalInfo =
  header :: u8
  dw_vid :: u32
  char_name :: bytes
  aw_part :: "u32 list"
  b_empire :: u8
  dw_guild_id :: u32
  dw_level :: u32
  s_alignment :: i16
  b_pk_mode :: u8
  dw_mount_vnum :: u32
  dw_arrow :: u32

definition TPacketGCCharacterAdditionalInfo_SIZE :: nat where [simp]: "TPacketGCCharacterAdditionalInfo_SIZE = 70"

definition TPacketGCCharacterAdditionalInfo_from_bytes :: "bytes \<Rightarrow> ProtocolError + TPacketGCCharacterAdditionalInfo" where
  "TPacketGCCharacterAdditionalInfo_from_bytes data =
     (if length data \<noteq> TPacketGCCharacterAdditionalInfo_SIZE then Inl (BadLength TPacketGCCharacterAdditionalInfo_SIZE (length data))
      else Inr \<lparr>header = data ! 0,
        dw_vid = rd_u32 data 1,
        char_name = rd_arr 25 data 5,
        aw_part = [rd_u32 data 30, rd_u32 data 34, rd_u32 data 38, rd_u32 data 42, rd_u32 data 46],
        b_empire = data ! 50,
        dw_guild_id = rd_u32 data 51,
        dw_level = rd_u32 data 55,
        s_alignment = from_le16 (data ! 59) (data ! 60),
        b_pk_mode = data ! 61,
        dw_mount_vnum = rd_u32 data 62,
        dw_arrow = rd_u32 data 66\<rparr>)"

definition TPacketGCCharacterAdditionalInfo_to_bytes :: "TPacketGCCharacterAdditionalInfo \<Rightarrow> bytes" where
  "TPacketGCCharacterAdditionalInfo_to_bytes p =
    (let b = replicate TPacketGCCharacterAdditionalInfo_SIZE 0;
         b = b[0 := header p];
         b = wr_u32 b 1 (dw_vid p);
         b = copy_at b 5 (char_name p);
         b = wr_u32s b 30 (aw_part p);
         b = b[50 := b_empire p];
         b = wr_u32 b 51 (dw_guild_id p);
         b = wr_u32 b 55 (dw_level p);
         b = copy_at b 59 (le16 (s_alignment p));
         b = b[61 := b_pk_mode p];
         b = wr_u32 b 62 (dw_mount_vnum p);
         b = wr_u32 b 66 (dw_arrow p)
     in b)"

definition TPacketGCCharacterAdditionalInfo_wf :: "TPacketGCCharacterAdditionalInfo \<Rightarrow> bool" where
  "TPacketGCCharacterAdditionalInfo_wf p \<longleftrightarrow> length (char_name p) = 25 \<and> length (aw_part p) = 5"

interpretation gc_additional_info:
  packet_codec TPacketGCCharacterAdditionalInfo_SIZE TPacketGCCharacterAdditionalInfo_wf TPacketGCCharacterAdditionalInfo_to_bytes TPacketGCCharacterAdditionalInfo_from_bytes
  by (rule packet_codecI [OF TPacketGCCharacterAdditionalInfo_from_bytes_def])
     (auto simp: TPacketGCCharacterAdditionalInfo_to_bytes_def TPacketGCCharacterAdditionalInfo_wf_def rd_wr array_lengths intro!: covers)

record TPacketGCCharacterUpdate =
  header :: u8
  dw_vid :: u32
  aw_part :: "u32 list"
  b_moving_speed :: u8
  b_attack_speed :: u8
  b_state_flag :: u8
  dw_affect_flag :: "u32 list"
  dw_guild_id :: u32
  s_alignment :: i16
  b_pk_mode :: u8
  dw_mount_vnum :: u32
  dw_arrow :: u32

definition TPacketGCCharacterUpdate_SIZE :: nat where [simp]: "TPacketGCCharacterUpdate_SIZE = 51"

definition TPacketGCCharacterUpdate_from_bytes :: "bytes \<Rightarrow> ProtocolError + TPacketGCCharacterUpdate" where
  "TPacketGCCharacterUpdate_from_bytes data =
     (if length data \<noteq> TPacketGCCharacterUpdate_SIZE then Inl (BadLength TPacketGCCharacterUpdate_SIZE (length data))
      else Inr \<lparr>header = data ! 0,
        dw_vid = rd_u32 data 1,
        aw_part = [rd_u32 data 5, rd_u32 data 9, rd_u32 data 13, rd_u32 data 17, rd_u32 data 21],
        b_moving_speed = data ! 25,
        b_attack_speed = data ! 26,
        b_state_flag = data ! 27,
        dw_affect_flag = [rd_u32 data 28, rd_u32 data 32],
        dw_guild_id = rd_u32 data 36,
        s_alignment = from_le16 (data ! 40) (data ! 41),
        b_pk_mode = data ! 42,
        dw_mount_vnum = rd_u32 data 43,
        dw_arrow = rd_u32 data 47\<rparr>)"

definition TPacketGCCharacterUpdate_to_bytes :: "TPacketGCCharacterUpdate \<Rightarrow> bytes" where
  "TPacketGCCharacterUpdate_to_bytes p =
    (let b = replicate TPacketGCCharacterUpdate_SIZE 0;
         b = b[0 := header p];
         b = wr_u32 b 1 (dw_vid p);
         b = wr_u32s b 5 (aw_part p);
         b = b[25 := b_moving_speed p];
         b = b[26 := b_attack_speed p];
         b = b[27 := b_state_flag p];
         b = wr_u32 b 28 (dw_affect_flag p ! 0);
         b = wr_u32 b 32 (dw_affect_flag p ! 1);
         b = wr_u32 b 36 (dw_guild_id p);
         b = copy_at b 40 (le16 (s_alignment p));
         b = b[42 := b_pk_mode p];
         b = wr_u32 b 43 (dw_mount_vnum p);
         b = wr_u32 b 47 (dw_arrow p)
     in b)"

definition TPacketGCCharacterUpdate_wf :: "TPacketGCCharacterUpdate \<Rightarrow> bool" where
  "TPacketGCCharacterUpdate_wf p \<longleftrightarrow> length (aw_part p) = 5 \<and> length (dw_affect_flag p) = 2"

interpretation gc_character_update:
  packet_codec TPacketGCCharacterUpdate_SIZE TPacketGCCharacterUpdate_wf TPacketGCCharacterUpdate_to_bytes TPacketGCCharacterUpdate_from_bytes
  by (rule packet_codecI [OF TPacketGCCharacterUpdate_from_bytes_def])
     (auto simp: TPacketGCCharacterUpdate_to_bytes_def TPacketGCCharacterUpdate_wf_def rd_wr array_lengths intro!: covers)

section \<open>The packets that embed a player\<close>

text \<open>
  \<^verbatim>\<open>TPacketGCPlayerCreateSuccess\<close> carries one \<^verbatim>\<open>TSimplePlayer\<close>, \<^verbatim>\<open>TPacketGCLoginSuccess\<close> five of
  them followed by the guild ids, the guild names, the handle and the random key. Their
  readers call the reader of the embedded struct on a slice and pass its error on.
\<close>

record TPacketGCPlayerCreateSuccess =
  header :: u8
  b_account_character_slot :: u8
  player :: TSimplePlayer

definition TPacketGCPlayerCreateSuccess_SIZE :: nat where
  [simp]: "TPacketGCPlayerCreateSuccess_SIZE = 73"

definition TPacketGCPlayerCreateSuccess_from_bytes ::
    "bytes \<Rightarrow> ProtocolError + TPacketGCPlayerCreateSuccess" where
  "TPacketGCPlayerCreateSuccess_from_bytes data =
     (if length data \<noteq> TPacketGCPlayerCreateSuccess_SIZE
      then Inl (BadLength TPacketGCPlayerCreateSuccess_SIZE (length data))
      else case TSimplePlayer_from_bytes (drop 2 data) of
             Inl e \<Rightarrow> Inl e
           | Inr pl \<Rightarrow> Inr \<lparr>header = data ! 0, b_account_character_slot = data ! 1, player = pl\<rparr>)"

definition TPacketGCPlayerCreateSuccess_to_bytes :: "TPacketGCPlayerCreateSuccess \<Rightarrow> bytes" where
  "TPacketGCPlayerCreateSuccess_to_bytes p =
    (let b = replicate TPacketGCPlayerCreateSuccess_SIZE 0;
         b = b[0 := header p];
         b = b[1 := b_account_character_slot p];
         b = copy_at b 2 (TSimplePlayer_to_bytes (player p))
     in b)"

definition TPacketGCPlayerCreateSuccess_wf :: "TPacketGCPlayerCreateSuccess \<Rightarrow> bool" where
  "TPacketGCPlayerCreateSuccess_wf p \<longleftrightarrow> TSimplePlayer_wf (player p)"

lemma drop_slice: "length d = k + n \<Longrightarrow> drop k d = slice d k n"
  by (simp add: slice_def)

interpretation gc_create_success:
  packet_codec TPacketGCPlayerCreateSuccess_SIZE TPacketGCPlayerCreateSuccess_wf
    TPacketGCPlayerCreateSuccess_to_bytes TPacketGCPlayerCreateSuccess_from_bytes
proof
  fix p assume "TPacketGCPlayerCreateSuccess_wf p"
  then have wf: "TSimplePlayer_wf (player p)" by (simp add: TPacketGCPlayerCreateSuccess_wf_def)
  note sp = simple_player.from_to [OF wf] simple_player.to_bytes_size [OF wf]
  show len: "length (TPacketGCPlayerCreateSuccess_to_bytes p) = TPacketGCPlayerCreateSuccess_SIZE"
    by (simp add: TPacketGCPlayerCreateSuccess_to_bytes_def)
  have "drop 2 (TPacketGCPlayerCreateSuccess_to_bytes p) = TSimplePlayer_to_bytes (player p)"
    using sp by (simp add: drop_slice [where n = 71] len)
      (simp add: TPacketGCPlayerCreateSuccess_to_bytes_def rd_wr)
  then show "TPacketGCPlayerCreateSuccess_from_bytes (TPacketGCPlayerCreateSuccess_to_bytes p) = Inr p"
    unfolding TPacketGCPlayerCreateSuccess_from_bytes_def using len sp
    by (simp add: TPacketGCPlayerCreateSuccess_to_bytes_def rd_wr)
next
  fix d :: bytes
  assume "length d \<noteq> TPacketGCPlayerCreateSuccess_SIZE"
  then show "TPacketGCPlayerCreateSuccess_from_bytes d =
      Inl (BadLength TPacketGCPlayerCreateSuccess_SIZE (length d))"
    by (simp add: TPacketGCPlayerCreateSuccess_from_bytes_def)
next
  fix d :: bytes
  assume d: "length d = TPacketGCPlayerCreateSuccess_SIZE"
  then obtain pl where pl: "TSimplePlayer_from_bytes (slice d 2 71) = Inr pl"
      "TSimplePlayer_wf pl" "TSimplePlayer_to_bytes pl = slice d 2 71"
    using simple_player.parses_slice [of 2 d] by auto
  have "covers (TPacketGCPlayerCreateSuccess_to_bytes
      \<lparr>header = d ! 0, b_account_character_slot = d ! 1, player = pl\<rparr>) d 73"
    using d pl by (auto simp: TPacketGCPlayerCreateSuccess_to_bytes_def intro!: covers)
  with d pl show "\<exists>p. TPacketGCPlayerCreateSuccess_from_bytes d = Inr p \<and>
      TPacketGCPlayerCreateSuccess_wf p \<and> TPacketGCPlayerCreateSuccess_to_bytes p = d"
    by (auto simp: TPacketGCPlayerCreateSuccess_from_bytes_def TPacketGCPlayerCreateSuccess_wf_def
        drop_slice [where n = 71] dest: covers_end)
qed

record TPacketGCLoginSuccess =
  header :: u8
  players :: "TSimplePlayer list"
  guild_id :: "u32 list"
  guild_name :: "bytes list"
  handle :: u32
  random_key :: u32

definition TPacketGCLoginSuccess_SIZE :: nat where
  [simp]: "TPacketGCLoginSuccess_SIZE = 449"
definition PLAYERS_OFFSET :: nat where [simp]: "PLAYERS_OFFSET = 1"
definition GUILD_ID_OFFSET :: nat where [simp]: "GUILD_ID_OFFSET = 356"
definition GUILD_NAME_OFFSET :: nat where [simp]: "GUILD_NAME_OFFSET = 376"
definition HANDLE_OFFSET :: nat where [simp]: "HANDLE_OFFSET = 441"
definition RANDOM_KEY_OFFSET :: nat where [simp]: "RANDOM_KEY_OFFSET = 445"

text \<open>
  The loops of the reader: \<open>rd_players\<close> is the \<^verbatim>\<open>for (i, p) in players.iter_mut()\<close> loop, whose
  \<^verbatim>\<open>?\<close> leaves at the first error.
\<close>

fun rd_players :: "nat list \<Rightarrow> bytes \<Rightarrow> ProtocolError + TSimplePlayer list" where
  "rd_players [] data = Inr []"
| "rd_players (i # is) data =
     (case TSimplePlayer_from_bytes (slice data (PLAYERS_OFFSET + i * 71) 71) of
        Inl e \<Rightarrow> Inl e
      | Inr pl \<Rightarrow> (case rd_players is data of Inl e \<Rightarrow> Inl e | Inr pls \<Rightarrow> Inr (pl # pls)))"

fun wr_blocks :: "bytes \<Rightarrow> nat \<Rightarrow> bytes list \<Rightarrow> bytes" where
  "wr_blocks b off [] = b"
| "wr_blocks b off (x # xs) = wr_blocks (copy_at b off x) (off + length x) xs"

definition TPacketGCLoginSuccess_from_bytes :: "bytes \<Rightarrow> ProtocolError + TPacketGCLoginSuccess" where
  "TPacketGCLoginSuccess_from_bytes data =
     (if length data \<noteq> TPacketGCLoginSuccess_SIZE
      then Inl (BadLength TPacketGCLoginSuccess_SIZE (length data))
      else case rd_players [0, 1, 2, 3, 4] data of
             Inl e \<Rightarrow> Inl e
           | Inr pls \<Rightarrow> Inr
               \<lparr>header = data ! 0,
                players = pls,
                guild_id = map (\<lambda>i. rd_u32 data (GUILD_ID_OFFSET + i * 4)) [0, 1, 2, 3, 4],
                guild_name = map (\<lambda>i. rd_arr 13 data (GUILD_NAME_OFFSET + i * 13)) [0, 1, 2, 3, 4],
                handle = rd_u32 data HANDLE_OFFSET,
                random_key = rd_u32 data RANDOM_KEY_OFFSET\<rparr>)"

definition TPacketGCLoginSuccess_to_bytes :: "TPacketGCLoginSuccess \<Rightarrow> bytes" where
  "TPacketGCLoginSuccess_to_bytes p =
    (let b = replicate TPacketGCLoginSuccess_SIZE 0;
         b = b[0 := header p];
         b = wr_blocks b PLAYERS_OFFSET (map TSimplePlayer_to_bytes (players p));
         b = wr_u32s b GUILD_ID_OFFSET (guild_id p);
         b = wr_blocks b GUILD_NAME_OFFSET (guild_name p);
         b = wr_u32 b HANDLE_OFFSET (handle p);
         b = wr_u32 b RANDOM_KEY_OFFSET (random_key p)
     in b)"

definition TPacketGCLoginSuccess_wf :: "TPacketGCLoginSuccess \<Rightarrow> bool" where
  "TPacketGCLoginSuccess_wf p \<longleftrightarrow>
     length (players p) = 5 \<and> list_all TSimplePlayer_wf (players p) \<and> length (guild_id p) = 5 \<and>
     length (guild_name p) = 5 \<and> list_all (\<lambda>g. length g = 13) (guild_name p)"

interpretation gc_login_success:
  packet_codec TPacketGCLoginSuccess_SIZE TPacketGCLoginSuccess_wf
    TPacketGCLoginSuccess_to_bytes TPacketGCLoginSuccess_from_bytes
proof
  fix p assume wf: "TPacketGCLoginSuccess_wf p"
  then show "length (TPacketGCLoginSuccess_to_bytes p) = TPacketGCLoginSuccess_SIZE"
    by (auto simp: TPacketGCLoginSuccess_to_bytes_def TPacketGCLoginSuccess_wf_def array_lengths rd_wr)
  from wf show "TPacketGCLoginSuccess_from_bytes (TPacketGCLoginSuccess_to_bytes p) = Inr p"
    by (cases p) (auto simp: TPacketGCLoginSuccess_from_bytes_def TPacketGCLoginSuccess_to_bytes_def
        TPacketGCLoginSuccess_wf_def array_lengths rd_wr
        simple_player.to_bytes_size [simplified] simple_player.from_to)
next
  fix d :: bytes
  assume "length d \<noteq> TPacketGCLoginSuccess_SIZE"
  then show "TPacketGCLoginSuccess_from_bytes d = Inl (BadLength TPacketGCLoginSuccess_SIZE (length d))"
    by (simp add: TPacketGCLoginSuccess_from_bytes_def)
next
  fix d :: bytes
  assume d: "length d = TPacketGCLoginSuccess_SIZE"
  obtain a b c e f where pl:
      "TSimplePlayer_from_bytes (slice d 1 71) = Inr a" "TSimplePlayer_to_bytes a = slice d 1 71"
      "TSimplePlayer_from_bytes (slice d 72 71) = Inr b" "TSimplePlayer_to_bytes b = slice d 72 71"
      "TSimplePlayer_from_bytes (slice d 143 71) = Inr c" "TSimplePlayer_to_bytes c = slice d 143 71"
      "TSimplePlayer_from_bytes (slice d 214 71) = Inr e" "TSimplePlayer_to_bytes e = slice d 214 71"
      "TSimplePlayer_from_bytes (slice d 285 71) = Inr f" "TSimplePlayer_to_bytes f = slice d 285 71"
    and wf: "TSimplePlayer_wf a" "TSimplePlayer_wf b" "TSimplePlayer_wf c" "TSimplePlayer_wf e"
      "TSimplePlayer_wf f"
    using d simple_player.parses_slice [of 1 d] simple_player.parses_slice [of 72 d]
      simple_player.parses_slice [of 143 d] simple_player.parses_slice [of 214 d]
      simple_player.parses_slice [of 285 d] by auto
  have "covers (TPacketGCLoginSuccess_to_bytes (projr (TPacketGCLoginSuccess_from_bytes d))) d 449"
    using d pl by (auto simp: TPacketGCLoginSuccess_from_bytes_def TPacketGCLoginSuccess_to_bytes_def
        rd_wr intro!: covers)
  with d pl wf show "\<exists>p. TPacketGCLoginSuccess_from_bytes d = Inr p \<and>
      TPacketGCLoginSuccess_wf p \<and> TPacketGCLoginSuccess_to_bytes p = d"
    by (auto simp: TPacketGCLoginSuccess_from_bytes_def TPacketGCLoginSuccess_wf_def rd_wr
        dest: covers_end)
qed

section \<open>Round trip of the packets\<close>

text \<open>C13. Every server packet parses exactly from the byte strings of its size, and parsing and
  serialising are inverse to each other, for the fifteen packets of the login and selection flow
  including those that embed players.\<close>

theorem server_packets_roundtrip:
  "(TPacketGCHandshake_from_bytes d = Inr p1 \<longleftrightarrow> TPacketGCHandshake_wf p1 \<and> TPacketGCHandshake_to_bytes p1 = d)
   \<and> ((\<exists>p. TPacketGCHandshake_from_bytes d = Inr p) \<longleftrightarrow> length d = 13)
   \<and> (TPacketGCLoginKey_from_bytes d = Inr p2 \<longleftrightarrow> TPacketGCLoginKey_wf p2 \<and> TPacketGCLoginKey_to_bytes p2 = d)
   \<and> ((\<exists>p. TPacketGCLoginKey_from_bytes d = Inr p) \<longleftrightarrow> length d = 5)
   \<and> (TPacketGCPhase_from_bytes d = Inr p3 \<longleftrightarrow> TPacketGCPhase_wf p3 \<and> TPacketGCPhase_to_bytes p3 = d)
   \<and> ((\<exists>p. TPacketGCPhase_from_bytes d = Inr p) \<longleftrightarrow> length d = 2)
   \<and> (TPacketGCAuthSuccess_from_bytes d = Inr p4 \<longleftrightarrow> TPacketGCAuthSuccess_wf p4 \<and> TPacketGCAuthSuccess_to_bytes p4 = d)
   \<and> ((\<exists>p. TPacketGCAuthSuccess_from_bytes d = Inr p) \<longleftrightarrow> length d = 6)
   \<and> (TPacketGCLoginFailure_from_bytes d = Inr p5 \<longleftrightarrow> TPacketGCLoginFailure_wf p5 \<and> TPacketGCLoginFailure_to_bytes p5 = d)
   \<and> ((\<exists>p. TPacketGCLoginFailure_from_bytes d = Inr p) \<longleftrightarrow> length d = 10)
   \<and> (TPacketGCEmpire_from_bytes d = Inr p6 \<longleftrightarrow> TPacketGCEmpire_wf p6 \<and> TPacketGCEmpire_to_bytes p6 = d)
   \<and> ((\<exists>p. TPacketGCEmpire_from_bytes d = Inr p) \<longleftrightarrow> length d = 2)
   \<and> (TSimplePlayer_from_bytes d = Inr p7 \<longleftrightarrow> TSimplePlayer_wf p7 \<and> TSimplePlayer_to_bytes p7 = d)
   \<and> ((\<exists>p. TSimplePlayer_from_bytes d = Inr p) \<longleftrightarrow> length d = 71)
   \<and> (TPacketGCCreateFailure_from_bytes d = Inr p8 \<longleftrightarrow> TPacketGCCreateFailure_wf p8 \<and> TPacketGCCreateFailure_to_bytes p8 = d)
   \<and> ((\<exists>p. TPacketGCCreateFailure_from_bytes d = Inr p) \<longleftrightarrow> length d = 2)
   \<and> (TPacketGCDestroyCharacterSuccess_from_bytes d = Inr p9 \<longleftrightarrow> TPacketGCDestroyCharacterSuccess_wf p9 \<and> TPacketGCDestroyCharacterSuccess_to_bytes p9 = d)
   \<and> ((\<exists>p. TPacketGCDestroyCharacterSuccess_from_bytes d = Inr p) \<longleftrightarrow> length d = 2)
   \<and> (TPacketGCChangeName_from_bytes d = Inr p10 \<longleftrightarrow> TPacketGCChangeName_wf p10 \<and> TPacketGCChangeName_to_bytes p10 = d)
   \<and> ((\<exists>p. TPacketGCChangeName_from_bytes d = Inr p) \<longleftrightarrow> length d = 30)
   \<and> (TPacketGCCharacterAdd_from_bytes d = Inr p11 \<longleftrightarrow> TPacketGCCharacterAdd_wf p11 \<and> TPacketGCCharacterAdd_to_bytes p11 = d)
   \<and> ((\<exists>p. TPacketGCCharacterAdd_from_bytes d = Inr p) \<longleftrightarrow> length d = 37)
   \<and> (TPacketGCCharacterAdditionalInfo_from_bytes d = Inr p12 \<longleftrightarrow> TPacketGCCharacterAdditionalInfo_wf p12 \<and> TPacketGCCharacterAdditionalInfo_to_bytes p12 = d)
   \<and> ((\<exists>p. TPacketGCCharacterAdditionalInfo_from_bytes d = Inr p) \<longleftrightarrow> length d = 70)
   \<and> (TPacketGCCharacterUpdate_from_bytes d = Inr p13 \<longleftrightarrow> TPacketGCCharacterUpdate_wf p13 \<and> TPacketGCCharacterUpdate_to_bytes p13 = d)
   \<and> ((\<exists>p. TPacketGCCharacterUpdate_from_bytes d = Inr p) \<longleftrightarrow> length d = 51)
   \<and> (TPacketGCPlayerCreateSuccess_from_bytes d = Inr p14 \<longleftrightarrow> TPacketGCPlayerCreateSuccess_wf p14 \<and> TPacketGCPlayerCreateSuccess_to_bytes p14 = d)
   \<and> ((\<exists>p. TPacketGCPlayerCreateSuccess_from_bytes d = Inr p) \<longleftrightarrow> length d = 73)
   \<and> (TPacketGCLoginSuccess_from_bytes d = Inr p15 \<longleftrightarrow> TPacketGCLoginSuccess_wf p15 \<and> TPacketGCLoginSuccess_to_bytes p15 = d)
   \<and> ((\<exists>p. TPacketGCLoginSuccess_from_bytes d = Inr p) \<longleftrightarrow> length d = 449)"
  by (intro conjI; rule
    gc_handshake.from_bytes_Inr gc_handshake.from_bytes_ok_iff [simplified]
    gc_login_key.from_bytes_Inr gc_login_key.from_bytes_ok_iff [simplified]
    gc_phase.from_bytes_Inr gc_phase.from_bytes_ok_iff [simplified]
    gc_auth_success.from_bytes_Inr gc_auth_success.from_bytes_ok_iff [simplified]
    gc_login_failure.from_bytes_Inr gc_login_failure.from_bytes_ok_iff [simplified]
    gc_empire.from_bytes_Inr gc_empire.from_bytes_ok_iff [simplified]
    simple_player.from_bytes_Inr simple_player.from_bytes_ok_iff [simplified]
    gc_create_failure.from_bytes_Inr gc_create_failure.from_bytes_ok_iff [simplified]
    gc_destroy_success.from_bytes_Inr gc_destroy_success.from_bytes_ok_iff [simplified]
    gc_change_name.from_bytes_Inr gc_change_name.from_bytes_ok_iff [simplified]
    gc_character_add.from_bytes_Inr gc_character_add.from_bytes_ok_iff [simplified]
    gc_additional_info.from_bytes_Inr gc_additional_info.from_bytes_ok_iff [simplified]
    gc_character_update.from_bytes_Inr gc_character_update.from_bytes_ok_iff [simplified]
    gc_create_success.from_bytes_Inr gc_create_success.from_bytes_ok_iff [simplified]
    gc_login_success.from_bytes_Inr gc_login_success.from_bytes_ok_iff [simplified])

end
