(* ===== verification/Framer.thy ===== *)
theory Framer
  imports ClientPackets
begin

text \<open>
  Framing of the client-to-server stream (\<^verbatim>\<open>network/src/framer.rs\<close>). There is no length
  prefix: the first byte of a packet selects its size from a table that depends on the role
  of the connection; five headers are variable (by a length word or a subheader) and
  \<^verbatim>\<open>CG_LOGIN3\<close> on the authentication server takes whatever has arrived, between 68 and 88
  bytes. The theory models the tables, \<^verbatim>\<open>Framer::try_extract\<close>, \<^verbatim>\<open>push\<close> and \<^verbatim>\<open>next_packet\<close>, and
  proves what a caller relies on: no byte is lost or reordered, the buffer stays bounded,
  every packet handed out is a complete frame, and on the game channel the packets do not
  depend on how TCP cut the stream.
\<close>

section \<open>The tables\<close>

datatype ConnectionRole = Auth | Channel

text \<open>Constants of \<^verbatim>\<open>protocol::chat\<close>, \<^verbatim>\<open>protocol::social\<close>, \<^verbatim>\<open>protocol::guild\<close> and the two sizes
  of packets whose structs live in other modules.\<close>

definition CG_WHISPER_FIXED :: nat where [simp]: "CG_WHISPER_FIXED = 28"
definition CG_MESSENGER_FIXED :: nat where [simp]: "CG_MESSENGER_FIXED = 2"
definition CG_ADD_BY_VID_TOTAL :: nat where [simp]: "CG_ADD_BY_VID_TOTAL = CG_MESSENGER_FIXED + 4"
definition CG_NAME_TOTAL :: nat where [simp]: "CG_NAME_TOTAL = CG_MESSENGER_FIXED + 24"
definition CG_GUILD_FIXED :: nat where [simp]: "CG_GUILD_FIXED = 2"
definition CG_CREATE_TOTAL :: nat where [simp]: "CG_CREATE_TOTAL = CG_GUILD_FIXED + 13"
definition SUB_CG_WAR_DECLARE :: u8 where [simp]: "SUB_CG_WAR_DECLARE = 15"
definition CG_WAR_DECLARE_TOTAL :: nat where [simp]: "CG_WAR_DECLARE_TOTAL = CG_GUILD_FIXED + 5"
definition CgLocaleRequest_SIZE :: nat where [simp]: "CgLocaleRequest_SIZE = 4"

definition game_phase_size :: "u8 \<Rightarrow> nat option" where
  "game_phase_size h = map_of
     [(CG_ATTACK, 8), (CG_MOVE, 16), (CG_ITEM_USE, 4), (CG_ITEM_DROP, 8), (CG_ITEM_MOVE, 8),
      (CG_ITEM_PICKUP, 5), (CG_QUICKSLOT_ADD, 4), (CG_QUICKSLOT_DEL, 2),
      (CG_QUICKSLOT_SWAP, 3), (CG_ITEM_DROP2, 9), (CG_ON_CLICK, 5), (CG_EXCHANGE, 47),
      (CG_CHARACTER_POSITION, 2), (CG_SCRIPT_ANSWER, 2), (CG_QUEST_INPUT_STRING, 66),
      (CG_QUEST_CONFIRM, 6), (CG_PVP, 10), (CG_FLY_TARGETING, 17), (CG_USE_SKILL, 9),
      (CG_ADD_FLY_TARGETING, 13), (CG_SHOOT, 2), (CG_MYSHOP, 35), (CG_LAND_BUY, 29),
      (CG_LAND_TRANSFER, 9), (CG_ITEM_USE_TO_ITEM, 7), (CG_TARGET, 5), (CG_EVENT, 2),
      (CG_HORSE, 2), (CG_WARP, 15), (CG_SCRIPT_BUTTON, 5), (CG_MALL_CHECKOUT, 5),
      (CG_SAFEBOX_CHECKIN, 5), (CG_SAFEBOX_CHECKOUT, 5), (CG_PARTY_INVITE, 5),
      (CG_PARTY_INVITE_ANSWER, 6), (CG_PARTY_REMOVE, 5), (CG_PARTY_SET_STATE, 7),
      (CG_PARTY_USE_SKILL, 6), (CG_SAFEBOX_ITEM_MOVE, 8), (CG_PARTY_PARAMETER, 2),
      (CG_SAFEBOX_MONEY, 6), (CG_ANSWER_MAKE_GUILD, 14), (CG_FISHING, 2), (CG_ITEM_GIVE, 9),
      (CG_EMPIRE, TPacketCGEmpire_SIZE), (CG_REFINE, 3), (CG_HACK, 257),
      (CG_CHANGE_NAME, TPacketCGChangeName_SIZE), (CG_DUNGEON, 5), (CG_SCRIPT_SELECT_ITEM, 5),
      (CG_DRAGON_SOUL_REFINE, 47), (CG_ACCE, 23)] h"

definition packet_size :: "ConnectionRole \<Rightarrow> u8 \<Rightarrow> nat option" where
  "packet_size role h =
     (case map_of
        [(CG_HANDSHAKE, TPacketCGHandshake_SIZE), (CG_TIME_SYNC, TPacketCGHandshake_SIZE),
         (CG_PONG, 1), (CG_LOGIN, TPacketCGLogin_SIZE), (CG_LOGIN2, TPacketCGLogin2_SIZE),
         (CG_LOGIN3, case role of Channel \<Rightarrow> SIZE_CHANNEL | Auth \<Rightarrow> SIZE_AUTH),
         (CG_CHARACTER_SELECT, TPacketCGPlayerSelect_SIZE),
         (CG_CHARACTER_CREATE, TPacketCGPlayerCreate_SIZE),
         (CG_CHARACTER_DELETE, TPacketCGPlayerDelete_SIZE),
         (CG_ENTERGAME, 1), (CG_MARK_LOGIN, TPacketCGMarkLogin_SIZE),
         (CG_CLIENT_VERSION2, 67), (CG_STATE_CHECKER, 1),
         (CG_LOCALE_REQUEST, CgLocaleRequest_SIZE)] h of
        Some n \<Rightarrow> Some n
      | None \<Rightarrow> if role = Channel then game_phase_size h else None)"

definition packet_range :: "ConnectionRole \<Rightarrow> u8 \<Rightarrow> (nat \<times> nat) option" where
  "packet_range role h =
     (if h = CG_LOGIN3 \<and> role = Auth then Some (SIZE_AUTH, SIZE_AUTH_FULL)
      else map_option (\<lambda>n. (n, n)) (packet_size role h))"

text \<open>Every entry of the tables is positive and fits a small buffer.\<close>

lemma game_phase_size_bounds: "game_phase_size h = Some n \<Longrightarrow> 0 < n \<and> n \<le> 257"
  unfolding game_phase_size_def by (drule map_of_SomeD) auto

lemma packet_size_bounds: "packet_size role h = Some n \<Longrightarrow> 0 < n \<and> n \<le> 257"
  unfolding packet_size_def
  by (auto split: option.splits if_splits ConnectionRole.splits
      dest!: map_of_SomeD game_phase_size_bounds)

lemma packet_range_bounds:
  "packet_range role h = Some (lo, hi) \<Longrightarrow> 0 < lo \<and> lo \<le> hi \<and> hi \<le> 257"
  by (auto simp: packet_range_def split: if_splits dest: packet_size_bounds)

section \<open>Extracting one packet\<close>

type_synonym io_error = string

datatype FramingError =
    UnknownHeader u8
  | Eof
  | UnexpectedEof (buffered_bytes: nat)
  | Io io_error

record Framer =
  role :: ConnectionRole
  buf :: bytes

definition Framer_new :: "ConnectionRole \<Rightarrow> Framer" where
  "Framer_new r = \<lparr>role = r, buf = []\<rparr>"

definition buffered :: "Framer \<Rightarrow> nat" where
  "buffered f = length (buf f)"

text \<open>\<^verbatim>\<open>Ok(Some(self.buf.drain(..n).collect()))\<close>\<close>

definition drain :: "nat \<Rightarrow> Framer \<Rightarrow> (FramingError + bytes option) \<times> Framer" where
  "drain n f = (Inr (Some (take n (buf f))), f\<lparr>buf := drop n (buf f)\<rparr>)"

definition shop_total :: "u8 \<Rightarrow> nat" where
  "shop_total s = (if s = 0 then 2 else if s = 1 then 4 else if s = 2 then 3 else if s = 3 then 4 else 2)"

definition messenger_total :: "u8 \<Rightarrow> nat" where
  "messenger_total s =
     (if s = 0 then CG_ADD_BY_VID_TOTAL else if s = 1 \<or> s = 2 then CG_NAME_TOTAL
      else CG_MESSENGER_FIXED)"

definition guild_total :: "u8 \<Rightarrow> nat" where
  "guild_total s = (case map_of
     [(1, CG_CREATE_TOTAL), (0, 6), (2, 12), (3, 4), (4, 6), (5, 3), (6, 6), (7, 2), (8, 7),
      (9, 10), (10, 7), (11, 7), (12, 6), (13, 6), (14, 6)] s of
     Some n \<Rightarrow> n | None \<Rightarrow> CG_GUILD_FIXED)"

definition try_extract :: "Framer \<Rightarrow> (FramingError + bytes option) \<times> Framer" where
  "try_extract f =
     (if buf f = [] then (Inr None, f)
      else let hdr = buf f ! 0 in
        if hdr = CG_CHAT \<and> role f = Channel then
          (if length (buf f) < 4 then (Inr None, f)
           else let tot = unat (from_le16 (buf f ! 1) (buf f ! 2)) in
             if tot < 4 then (Inl (UnknownHeader hdr), f)
             else if length (buf f) < tot then (Inr None, f)
             else drain tot f)
        else if hdr = CG_WHISPER \<and> role f = Channel then
          (if length (buf f) < CG_WHISPER_FIXED then (Inr None, f)
           else let tot = unat (from_le16 (buf f ! 1) (buf f ! 2)) in
             if tot < CG_WHISPER_FIXED then (Inl (UnknownHeader hdr), f)
             else if length (buf f) < tot then (Inr None, f)
             else drain tot f)
        else if hdr = CG_SHOP \<and> role f = Channel then
          (if length (buf f) < 2 then (Inr None, f)
           else let tot = shop_total (buf f ! 1) in
             if length (buf f) < tot then (Inr None, f) else drain tot f)
        else if hdr = CG_MESSENGER \<and> role f = Channel then
          (if length (buf f) < CG_MESSENGER_FIXED then (Inr None, f)
           else let tot = messenger_total (buf f ! 1) in
             if length (buf f) < tot then (Inr None, f) else drain tot f)
        else if hdr = CG_GUILD \<and> role f = Channel then
          (if length (buf f) < CG_GUILD_FIXED then (Inr None, f)
           else let tot = guild_total (buf f ! 1) in
             if length (buf f) < tot then (Inr None, f) else drain tot f)
        else (case packet_range (role f) hdr of
            None \<Rightarrow> (Inl (UnknownHeader hdr), f)
          | Some (lo, hi) \<Rightarrow>
              if length (buf f) < lo then (Inr None, f)
              else drain (min (length (buf f)) hi) f))"

section \<open>What the buffer asks for\<close>

text \<open>
  The abstract view of \<open>try_extract\<close>: given the buffered bytes, either more input is
  needed, or the stream is broken, or a frame of a known length is complete.
\<close>

datatype demand = More | Bad u8 | Frame nat

definition by_word :: "nat \<Rightarrow> bytes \<Rightarrow> demand" where
  "by_word fixed b =
     (if length b < fixed then More
      else let tot = unat (from_le16 (b ! 1) (b ! 2)) in
        if tot < fixed then Bad (b ! 0) else if length b < tot then More else Frame tot)"

definition by_subheader :: "(u8 \<Rightarrow> nat) \<Rightarrow> bytes \<Rightarrow> demand" where
  "by_subheader tot b =
     (if length b < 2 then More
      else if length b < tot (b ! 1) then More else Frame (tot (b ! 1)))"

definition by_range :: "ConnectionRole \<Rightarrow> bytes \<Rightarrow> demand" where
  "by_range r b = (case packet_range r (b ! 0) of
      None \<Rightarrow> Bad (b ! 0)
    | Some (lo, hi) \<Rightarrow> if length b < lo then More else Frame (min (length b) hi))"

definition demand :: "ConnectionRole \<Rightarrow> bytes \<Rightarrow> demand" where
  "demand r b =
     (if b = [] then More
      else if b ! 0 = CG_CHAT \<and> r = Channel then by_word 4 b
      else if b ! 0 = CG_WHISPER \<and> r = Channel then by_word 28 b
      else if b ! 0 = CG_SHOP \<and> r = Channel then by_subheader shop_total b
      else if b ! 0 = CG_MESSENGER \<and> r = Channel then by_subheader messenger_total b
      else if b ! 0 = CG_GUILD \<and> r = Channel then by_subheader guild_total b
      else by_range r b)"

lemma try_extract_demand:
  "try_extract f = (case demand (role f) (buf f) of
      More \<Rightarrow> (Inr None, f) | Bad h \<Rightarrow> (Inl (UnknownHeader h), f) | Frame n \<Rightarrow> drain n f)"
  by (auto simp: try_extract_def demand_def by_word_def by_subheader_def by_range_def Let_def
      split: option.splits)

text \<open>The three ways to compute the length: bounds, monotonicity in the buffer, and what a
  request for more input says about the number of buffered bytes.\<close>

lemma subheader_totals:
  "2 \<le> shop_total s" "shop_total s \<le> 26"
  "2 \<le> messenger_total s" "messenger_total s \<le> 26"
  "2 \<le> guild_total s" "guild_total s \<le> 26"
proof -
  have "2 \<le> guild_total s \<and> guild_total s \<le> 26"
    unfolding guild_total_def by (auto split: option.splits dest!: map_of_SomeD)
  then show "2 \<le> guild_total s" and "guild_total s \<le> 26" by simp_all
qed (auto simp: shop_total_def messenger_total_def)

lemma by_word_Frame: "by_word k b = Frame n \<Longrightarrow> k \<le> n \<and> n \<le> length b"
  by (auto simp: by_word_def Let_def split: if_splits)

lemma by_word_append:
  "by_word k b \<noteq> More \<Longrightarrow> 3 \<le> k \<Longrightarrow> by_word k (b @ c) = by_word k b"
  by (auto simp: by_word_def Let_def nth_append split: if_splits)

lemma unat_u16: "unat (w :: u16) < 65536"
  using unsigned_less [of w, where ?'a = nat] by simp

lemma by_word_More: "by_word k b = More \<Longrightarrow> k \<le> 65535 \<Longrightarrow> length b < 65535"
  using unat_u16 [of "from_le16 (b ! 1) (b ! 2)"]
  by (auto simp: by_word_def Let_def split: if_splits)

lemma by_subheader_Frame:
  assumes "by_subheader t b = Frame n" and "\<And>s. 2 \<le> t s"
  shows "0 < n \<and> n \<le> length b"
proof -
  from assms(1) have "n = t (b ! 1)" and "n \<le> length b"
    by (auto simp: by_subheader_def split: if_splits)
  with assms(2) [of "b ! 1"] show ?thesis by simp
qed

lemma by_subheader_append:
  "by_subheader t b \<noteq> More \<Longrightarrow> by_subheader t (b @ c) = by_subheader t b"
  by (auto simp: by_subheader_def nth_append split: if_splits)

lemma by_subheader_More:
  assumes "by_subheader t b = More" and "\<And>s. t s \<le> 26"
  shows "length b < 65535"
  using assms(1) assms(2) [of "b ! 1"] by (auto simp: by_subheader_def split: if_splits)

lemma by_range_Frame: "by_range r b = Frame n \<Longrightarrow> 0 < n \<and> n \<le> length b"
  by (fastforce simp: by_range_def split: option.splits if_splits dest: packet_range_bounds)

lemma by_range_More: "by_range r b = More \<Longrightarrow> length b < 65535"
  by (fastforce simp: by_range_def split: option.splits if_splits dest: packet_range_bounds)

lemma by_range_append:
  "by_range Channel b \<noteq> More \<Longrightarrow> b \<noteq> [] \<Longrightarrow> by_range Channel (b @ c) = by_range Channel b"
  by (auto simp: by_range_def packet_range_def nth_append split: option.splits if_splits)

lemmas subheader_Frame =
  by_subheader_Frame [OF _ subheader_totals(1)]
  by_subheader_Frame [OF _ subheader_totals(3)]
  by_subheader_Frame [OF _ subheader_totals(5)]

lemmas subheader_More =
  by_subheader_More [OF _ subheader_totals(2)]
  by_subheader_More [OF _ subheader_totals(4)]
  by_subheader_More [OF _ subheader_totals(6)]

lemma demand_Frame: "demand r b = Frame n \<Longrightarrow> 0 < n \<and> n \<le> length b"
  unfolding demand_def
  by (auto split: if_splits dest: by_word_Frame subheader_Frame by_range_Frame)

lemma demand_More: "demand r b = More \<Longrightarrow> length b < 65535"
  unfolding demand_def
  by (auto split: if_splits dest: by_word_More by_range_More subheader_More)

text \<open>On the game channel the answer never changes once it is given: later bytes do not matter.\<close>

lemma demand_append:
  "demand Channel b \<noteq> More \<Longrightarrow> demand Channel (b @ c) = demand Channel b"
  by (auto simp: demand_def nth_append by_word_append by_subheader_append by_range_append
      split: if_splits)

section \<open>push and next\_packet\<close>

function push_loop :: "Framer \<Rightarrow> bytes list \<Rightarrow> (FramingError + bytes list) \<times> Framer" where
  "push_loop f out =
     (case try_extract f of
        (Inl e, f') \<Rightarrow> (Inl e, f')
      | (Inr None, f') \<Rightarrow> (Inr out, f')
      | (Inr (Some pkt), f') \<Rightarrow> push_loop f' (out @ [pkt]))"
  by pat_completeness auto
termination
  by (relation "measure (\<lambda>(f, _). length (buf f))")
    (auto simp: try_extract_demand drain_def split: demand.splits dest!: demand_Frame)

declare push_loop.simps [simp del]

definition push :: "bytes \<Rightarrow> Framer \<Rightarrow> (FramingError + bytes list) \<times> Framer" where
  "push data f = push_loop (f\<lparr>buf := buf f @ data\<rparr>) []"

text \<open>
  A socket read gives some bytes (none at end of file) or fails; the list of reads is what
  the socket will answer. When it is used up the future is still pending: a timeout drops it
  there and the framer keeps its buffer.
\<close>

datatype read_result = ReadOk bytes | ReadErr io_error

fun next_packet ::
  "Framer \<Rightarrow> read_result list \<Rightarrow> (FramingError + bytes) option \<times> Framer \<times> read_result list"
where
  "next_packet f rs =
     (case try_extract f of
        (Inl e, f') \<Rightarrow> (Some (Inl e), f', rs)
      | (Inr (Some pkt), f') \<Rightarrow> (Some (Inr pkt), f', rs)
      | (Inr None, f') \<Rightarrow>
          (case rs of
             [] \<Rightarrow> (None, f', [])
           | ReadErr e # rs' \<Rightarrow> (Some (Inl (Io e)), f', rs')
           | ReadOk d # rs' \<Rightarrow>
               if d = []
               then (Some (Inl (if buf f' = [] then Eof else UnexpectedEof (length (buf f')))), f', rs')
               else next_packet (f'\<lparr>buf := buf f' @ d\<rparr>) rs'))"

declare next_packet.simps [simp del]

section \<open>The frames of a byte string\<close>

text \<open>
  The specification: \<open>frames r b\<close> cuts \<open>b\<close> from the left as long as a frame is complete; it
  gives the frames, the header that broke the stream if one did, and the bytes left over.
\<close>

function frames :: "ConnectionRole \<Rightarrow> bytes \<Rightarrow> bytes list \<times> u8 option \<times> bytes" where
  "frames r b =
     (case demand r b of
        More \<Rightarrow> ([], None, b)
      | Bad h \<Rightarrow> ([], Some h, b)
      | Frame n \<Rightarrow> (let (ps, e, rest) = frames r (drop n b) in (take n b # ps, e, rest)))"
  by pat_completeness auto
termination
  by (relation "measure (\<lambda>(_, b). length b)") (auto dest!: demand_Frame)

declare frames.simps [simp del]

lemma frames_More: "demand r b = More \<Longrightarrow> frames r b = ([], None, b)"
  by (subst frames.simps) simp

lemma push_loop_frames:
  "push_loop f out = (let (ps, e, rest) = frames (role f) (buf f)
     in (case e of None \<Rightarrow> Inr (out @ ps) | Some h \<Rightarrow> Inl (UnknownHeader h), f\<lparr>buf := rest\<rparr>))"
proof (induction f out rule: push_loop.induct)
  case (1 f out)
  show ?case
  proof (cases "demand (role f) (buf f)")
    case (Frame n)
    then have "try_extract f = (Inr (Some (take n (buf f))), f\<lparr>buf := drop n (buf f)\<rparr>)"
      by (simp add: try_extract_demand drain_def)
    with 1 Frame show ?thesis
      by (subst push_loop.simps, subst frames.simps) (auto simp: Let_def split: prod.splits option.splits)
  qed (subst push_loop.simps, subst frames.simps, simp add: try_extract_demand)+
qed

lemma push_frames:
  "push data f = (let (ps, e, rest) = frames (role f) (buf f @ data)
     in (case e of None \<Rightarrow> Inr ps | Some h \<Rightarrow> Inl (UnknownHeader h), f\<lparr>buf := rest\<rparr>))"
  by (simp add: push_def push_loop_frames cong: option.case_cong)

text \<open>Cutting loses nothing; what is left asks for more input or is the broken header; each
  frame is one that the buffer, starting there, asks to deliver.\<close>

lemma frames_concat: "frames r b = (ps, e, rest) \<Longrightarrow> b = concat ps @ rest"
  by (induction r b arbitrary: ps rule: frames.induct)
    (subst (asm) frames.simps, auto split: demand.splits prod.splits)

lemma frames_rest:
  "frames r b = (ps, e, rest) \<Longrightarrow>
     demand r rest = (case e of None \<Rightarrow> More | Some h \<Rightarrow> Bad h)"
  by (induction r b arbitrary: ps rule: frames.induct)
    (subst (asm) frames.simps, auto split: demand.splits prod.splits)

lemma demand_take:
  assumes "demand r b = Frame n"
  shows "demand r (take n b) = Frame n"
proof -
  have n: "0 < n" "n \<le> length b" using demand_Frame [OF assms] by auto
  then have "take n b \<noteq> []" "take n b ! 0 = b ! 0" by auto
  moreover have "by_word k b = Frame n \<Longrightarrow> 3 \<le> k \<Longrightarrow> by_word k (take n b) = Frame n" for k
    by (auto simp: by_word_def Let_def split: if_splits)
  moreover have "by_subheader t b = Frame n \<Longrightarrow> \<forall>s. 2 \<le> t s \<Longrightarrow> by_subheader t (take n b) = Frame n" for t
  proof -
    assume "by_subheader t b = Frame n" and t: "\<forall>s. 2 \<le> t s"
    then have "n = t (b ! 1)" "n \<le> length b" by (auto simp: by_subheader_def split: if_splits)
    with t [rule_format, of "b ! 1"] show ?thesis by (simp add: by_subheader_def)
  qed
  moreover have "by_range r b = Frame n \<Longrightarrow> by_range r (take n b) = Frame n"
    using n by (auto simp: by_range_def split: option.splits if_splits dest: packet_range_bounds)
  ultimately show ?thesis
    using assms by (auto simp: demand_def subheader_totals split: if_splits)
qed

lemma frames_complete:
  "frames r b = (ps, e, rest) \<Longrightarrow> p \<in> set ps \<Longrightarrow> demand r p = Frame (length p)"
proof (induction r b arbitrary: ps rule: frames.induct)
  case (1 r b)
  show ?case
  proof (cases "demand r b")
    case (Frame n)
    then obtain qs where "ps = take n b # qs" "frames r (drop n b) = (qs, e, rest)"
      using "1.prems"(1) by (subst (asm) frames.simps) (auto split: prod.splits)
    with 1 Frame show ?thesis
      using demand_take [OF Frame] demand_Frame [OF Frame] by (auto simp: min_def)
  qed (use "1.prems" in \<open>subst (asm) frames.simps, simp\<close>)+
qed

lemma frames_append:
  "frames Channel (b @ c) =
     (case frames Channel b of
        (ps, Some h, rest) \<Rightarrow> (ps, Some h, rest @ c)
      | (ps, None, rest) \<Rightarrow> (case frames Channel (rest @ c) of (qs, e, rest') \<Rightarrow> (ps @ qs, e, rest')))"
proof (induction "Channel" b rule: frames.induct)
  case (1 b)
  show ?case
  proof (cases "demand Channel b")
    case More
    then show ?thesis by (simp add: frames_More split: prod.splits)
  next
    case (Bad h)
    then have "demand Channel (b @ c) = Bad h" using demand_append [of b c] by simp
    with Bad show ?thesis by (simp add: frames.simps [of Channel b] frames.simps [of Channel "b @ c"])
  next
    case (Frame n)
    then have "demand Channel (b @ c) = Frame n" using demand_append [of b c] by simp
    with 1 Frame demand_Frame [OF Frame] show ?thesis
      by (simp add: frames.simps [of Channel b] frames.simps [of Channel "b @ c"] Let_def
          split: prod.splits option.splits)
  qed
qed

section \<open>Properties of the framer\<close>

text \<open>The reference for a connection that is served in several reads: the packets of all of
  them, or the error that closed it.\<close>

fun feed :: "Framer \<Rightarrow> bytes list \<Rightarrow> (FramingError + bytes list) \<times> Framer" where
  "feed f [] = (Inr [], f)"
| "feed f (d # ds) =
     (case push d f of
        (Inl e, f') \<Rightarrow> (Inl e, f')
      | (Inr ps, f') \<Rightarrow>
          (case feed f' ds of (Inl e, f'') \<Rightarrow> (Inl e, f'') | (Inr qs, f'') \<Rightarrow> (Inr (ps @ qs), f'')))"

lemma demand_Bad: "demand r b = Bad h \<Longrightarrow> b \<noteq> [] \<and> h = b ! 0"
  by (auto simp: demand_def by_word_def by_subheader_def by_range_def Let_def
      split: if_splits option.splits)

lemma push_Inr_iff:
  "push data f = (Inr ps, f') \<longleftrightarrow>
     (\<exists>rest. frames (role f) (buf f @ data) = (ps, None, rest) \<and> f' = f\<lparr>buf := rest\<rparr>)"
  by (auto simp: push_frames split: prod.splits option.splits)

text \<open>C7. Whatever arrives, \<open>push\<close> loses and reorders nothing: the packets it returns followed
  by what it keeps are the old buffer followed by the new bytes, each packet is a complete frame
  of its header, and less than 65535 bytes stay buffered. If it fails, the error names the first
  byte of what is left, and what is left is the end of the stream.\<close>

theorem push_conserves:
  "case push data f of
     (Inr ps, f') \<Rightarrow> concat ps @ buf f' = buf f @ data \<and> role f' = role f
        \<and> length (buf f') < 65535 \<and> list_all (\<lambda>p. demand (role f) p = Frame (length p)) ps
   | (Inl e, f') \<Rightarrow> e = UnknownHeader (buf f' ! 0) \<and> suffix (buf f') (buf f @ data)"
proof -
  obtain ps e rest where fr: "frames (role f) (buf f @ data) = (ps, e, rest)"
    by (cases "frames (role f) (buf f @ data)")
  note facts = frames_concat [OF fr] frames_rest [OF fr] frames_complete [OF fr]
  show ?thesis
  proof (cases e)
    case None
    then have "push data f = (Inr ps, f\<lparr>buf := rest\<rparr>)" by (simp add: push_frames fr)
    with None facts demand_More show ?thesis by (simp add: list_all_iff)
  next
    case (Some h)
    then have "push data f = (Inl (UnknownHeader h), f\<lparr>buf := rest\<rparr>)" by (simp add: push_frames fr)
    with Some facts demand_Bad show ?thesis by (auto simp: suffix_def)
  qed
qed

lemma feed_push:
  assumes "demand Channel (buf f) = More" and "role f = Channel"
  shows "fst (feed f ds) = fst (push (concat ds) f)"
  using assms
proof (induction ds arbitrary: f)
  case Nil
  then show ?case by (simp add: push_frames frames_More)
next
  case (Cons d ds)
  obtain ps e rest where fr: "frames Channel (buf f @ d) = (ps, e, rest)"
    by (cases "frames Channel (buf f @ d)")
  show ?case
  proof (cases e)
    case None
    obtain qs e' rest' where fr': "frames Channel (rest @ concat ds) = (qs, e', rest')"
      by (cases "frames Channel (rest @ concat ds)")
    from None frames_rest [OF fr] have "demand Channel rest = More" by simp
    then have "fst (feed (f\<lparr>buf := rest\<rparr>) ds) = fst (push (concat ds) (f\<lparr>buf := rest\<rparr>))"
      using Cons by simp
    moreover obtain res g where "feed (f\<lparr>buf := rest\<rparr>) ds = (res, g)"
      by (cases "feed (f\<lparr>buf := rest\<rparr>) ds")
    ultimately show ?thesis
      using None Cons.prems frames_append [of "buf f @ d" "concat ds"]
      by (cases e') (simp_all add: push_frames fr fr')
  next
    case (Some h)
    with Cons.prems show ?thesis
      using frames_append [of "buf f @ d" "concat ds"] by (simp add: push_frames fr)
  qed
qed

text \<open>C8. On the game channel the packets do not depend on how TCP cut the stream: feeding it
  chunk by chunk gives exactly the packets, or exactly the error, of one \<open>push\<close> of the whole.\<close>

theorem channel_segmentation_invariant:
  "fst (feed (Framer_new Channel) ds) = fst (push (concat ds) (Framer_new Channel))"
  by (rule feed_push) (simp_all add: Framer_new_def demand_def)

lemma next_packet_frames:
  assumes "role f = Channel" and "[] \<notin> set ds"
  shows "fst (next_packet f (map ReadOk ds)) =
    (case frames Channel (buf f @ concat ds) of
       (p # _, _, _) \<Rightarrow> Some (Inr p)
     | ([], Some h, _) \<Rightarrow> Some (Inl (UnknownHeader h))
     | ([], None, _) \<Rightarrow> None)"
  using assms
proof (induction ds arbitrary: f)
  case Nil
  then show ?case
    by (subst next_packet.simps, subst frames.simps)
      (auto simp: try_extract_demand drain_def split: demand.splits prod.splits)
next
  case (Cons d ds)
  show ?case
  proof (cases "demand Channel (buf f)")
    case More
    with Cons show ?thesis
      by (subst next_packet.simps) (auto simp: try_extract_demand)
  next
    case (Bad h)
    with Cons.prems show ?thesis
      using demand_append [of "buf f" "d @ concat ds"]
      by (subst next_packet.simps, subst frames.simps) (simp add: try_extract_demand)
  next
    case (Frame n)
    with Cons.prems demand_Frame [OF Frame] show ?thesis
      using demand_append [of "buf f" "d @ concat ds"]
      by (subst next_packet.simps, subst frames.simps)
        (simp add: try_extract_demand drain_def split: prod.splits)
  qed
qed

text \<open>The bytes a list of reads brings before the first failure or end of file.\<close>

fun incoming :: "read_result list \<Rightarrow> bytes" where
  "incoming [] = []"
| "incoming (ReadErr _ # _) = []"
| "incoming (ReadOk d # rs) = (if d = [] then [] else d @ incoming rs)"

lemma next_packet_cases:
  "case next_packet f rs of
     (Some (Inr p), f', rs') \<Rightarrow> p @ buf f' @ incoming rs' = buf f @ incoming rs
        \<and> demand (role f) p = Frame (length p) \<and> suffix rs' rs
   | (Some (Inl (UnknownHeader h)), f', rs') \<Rightarrow> demand (role f) (buf f') = Bad h
   | (Some (Inl Eof), f', rs') \<Rightarrow> buf f' = [] \<and> suffix (ReadOk [] # rs') rs
   | (Some (Inl (UnexpectedEof n)), f', rs') \<Rightarrow> n = buffered f' \<and> 0 < n \<and> n < 65535
        \<and> suffix (ReadOk [] # rs') rs
   | (Some (Inl (Io e)), f', rs') \<Rightarrow> suffix (ReadErr e # rs') rs
   | (None, f', rs') \<Rightarrow> rs' = [] \<and> buf f' = buf f @ incoming rs \<and> length (buf f') < 65535"
proof (induction rs arbitrary: f)
  case Nil
  show ?case
    using demand_take [of "role f" "buf f"] demand_Frame [of "role f" "buf f"] demand_More [of "role f" "buf f"]
    by (subst next_packet.simps) (auto simp: try_extract_demand drain_def min_def split: demand.splits)
next
  case (Cons r rs)
  show ?case
  proof (cases "\<exists>d. r = ReadOk d \<and> d \<noteq> [] \<and> demand (role f) (buf f) = More")
    case True
    then obtain d where d: "r = ReadOk d" "d \<noteq> []" and More: "demand (role f) (buf f) = More" by auto
    then have "next_packet f (r # rs) = next_packet (f\<lparr>buf := buf f @ d\<rparr>) rs"
      by (subst next_packet.simps) (simp add: try_extract_demand)
    with Cons [of "f\<lparr>buf := buf f @ d\<rparr>"] d show ?thesis
      by (auto split: prod.splits option.splits sum.splits FramingError.splits simp: suffix_Cons)
  next
    case False
    then show ?thesis
      using demand_take [of "role f" "buf f"] demand_Frame [of "role f" "buf f"] demand_More [of "role f" "buf f"]
      by (subst next_packet.simps)
        (auto simp: try_extract_demand drain_def min_def buffered_def
          split: demand.splits read_result.splits)
  qed
qed

text \<open>C9. The pull flow: one call of \<open>next_packet\<close> either hands out a complete frame, taken from
  the front of the buffered and incoming bytes with the rest kept in place, or fails for one of
  four reasons that the state explains; a pending call has consumed every read and kept every byte.\<close>

theorem next_packet_result:
  "case next_packet f rs of
     (Some (Inr p), f', rs') \<Rightarrow> p @ buf f' @ incoming rs' = buf f @ incoming rs
        \<and> demand (role f) p = Frame (length p) \<and> suffix rs' rs
   | (Some (Inl (UnknownHeader h)), f', rs') \<Rightarrow> demand (role f) (buf f') = Bad h
   | (Some (Inl Eof), f', rs') \<Rightarrow> buf f' = [] \<and> suffix (ReadOk [] # rs') rs
   | (Some (Inl (UnexpectedEof n)), f', rs') \<Rightarrow> n = buffered f' \<and> 0 < n \<and> n < 65535
        \<and> suffix (ReadOk [] # rs') rs
   | (Some (Inl (Io e)), f', rs') \<Rightarrow> suffix (ReadErr e # rs') rs
   | (None, f', rs') \<Rightarrow> rs' = [] \<and> buf f' = buf f @ incoming rs \<and> length (buf f') < 65535"
  by (rule next_packet_cases)

text \<open>Pulling a packet and pushing the whole stream agree on the game channel: when the
  socket delivers the chunks \<open>ds\<close>, \<open>next_packet\<close> gives the first frame of the stream, and when
  there is none the error of the stream or, still incomplete, nothing.\<close>

theorem pull_is_first_frame:
  "fst (next_packet (Framer_new Channel) (map ReadOk (filter (\<lambda>d. d \<noteq> []) ds))) =
    (case frames Channel (concat ds) of
       (p # _, _, _) \<Rightarrow> Some (Inr p)
     | ([], Some h, _) \<Rightarrow> Some (Inl (UnknownHeader h))
     | ([], None, _) \<Rightarrow> None)"
proof -
  have "concat (filter (\<lambda>d. d \<noteq> []) ds) = concat ds" by (induction ds) auto
  then show ?thesis
    using next_packet_frames [of "Framer_new Channel" "filter (\<lambda>d. d \<noteq> []) ds"]
    by (simp add: Framer_new_def)
qed

text \<open>The size tables: the authentication role accepts exactly the fourteen headers of the
  login flow and nothing of the game phase, and every size either role accepts is between 1 and
  257 bytes, with a real range (68 to 88) only for \<open>CG_LOGIN3\<close> on the authentication server.\<close>

theorem size_tables:
  "(packet_range Auth h \<noteq> None \<longleftrightarrow>
     h \<in> {CG_HANDSHAKE, CG_TIME_SYNC, CG_PONG, CG_LOGIN, CG_LOGIN2, CG_LOGIN3,
          CG_CHARACTER_SELECT, CG_CHARACTER_CREATE, CG_CHARACTER_DELETE, CG_ENTERGAME,
          CG_MARK_LOGIN, CG_CLIENT_VERSION2, CG_STATE_CHECKER, CG_LOCALE_REQUEST})
   \<and> (case packet_range r h of None \<Rightarrow> packet_size r h = None
   | Some (lo, hi) \<Rightarrow> 0 < lo \<and> hi \<le> 257 \<and> packet_size r h = Some lo
       \<and> (if r = Auth \<and> h = CG_LOGIN3 then lo = 68 \<and> hi = 88 else hi = lo))
   \<and> (packet_size r 0 = None)"
proof (intro conjI)
  show "packet_range Auth h \<noteq> None \<longleftrightarrow>
     h \<in> {CG_HANDSHAKE, CG_TIME_SYNC, CG_PONG, CG_LOGIN, CG_LOGIN2, CG_LOGIN3,
          CG_CHARACTER_SELECT, CG_CHARACTER_CREATE, CG_CHARACTER_DELETE, CG_ENTERGAME,
          CG_MARK_LOGIN, CG_CLIENT_VERSION2, CG_STATE_CHECKER, CG_LOCALE_REQUEST}"
    by (simp add: packet_range_def packet_size_def)
next
  show "case packet_range r h of None \<Rightarrow> packet_size r h = None
   | Some (lo, hi) \<Rightarrow> 0 < lo \<and> hi \<le> 257 \<and> packet_size r h = Some lo
       \<and> (if r = Auth \<and> h = CG_LOGIN3 then lo = 68 \<and> hi = 88 else hi = lo)"
    using packet_size_bounds [of r h]
    by (cases "packet_size r h") (auto simp: packet_range_def packet_size_def)
next
  show "packet_size r 0 = None"
    by (cases r) (simp_all add: packet_size_def game_phase_size_def)
qed

text \<open>The authentication role does depend on the segmentation: an 88-byte login in one read
  is one packet, but cut after 68 bytes the first 68 are delivered as a login without hardware
  id, and the rest, here the zeros of the version, closes the connection as an unknown header.\<close>

theorem auth_login_depends_on_segmentation:
  "(feed (Framer_new Auth) [CG_LOGIN3 # replicate 87 0]
     = (Inr [CG_LOGIN3 # replicate 87 0], Framer_new Auth))
   \<and> (push (CG_LOGIN3 # replicate 67 0) (Framer_new Auth)
     = (Inr [CG_LOGIN3 # replicate 67 0], Framer_new Auth))
   \<and> (fst (feed (Framer_new Auth) [CG_LOGIN3 # replicate 67 0, replicate 20 0]) = Inl (UnknownHeader 0))"
proof (intro conjI)
  have login: "demand Auth (CG_LOGIN3 # replicate n 0) = Frame (min (Suc n) 88)" if "67 \<le> n" for n
    using that by (simp add: demand_def by_range_def packet_range_def)
  have none: "frames Auth [] = ([], None, [])" by (simp add: frames_More demand_def)
  have zero: "demand Auth (replicate 20 0) = Bad 0"
    by (simp add: demand_def by_range_def packet_range_def packet_size_def)
  have whole: "push (CG_LOGIN3 # replicate 87 0) (Framer_new Auth)
      = (Inr [CG_LOGIN3 # replicate 87 0], Framer_new Auth)"
    using login [of 87] none by (simp add: push_frames Framer_new_def frames.simps [of Auth "_ # _"])
  have cut: "push (CG_LOGIN3 # replicate 67 0) (Framer_new Auth)
      = (Inr [CG_LOGIN3 # replicate 67 0], Framer_new Auth)"
    using login [of 67] none by (simp add: push_frames Framer_new_def frames.simps [of Auth "_ # _"])
  show "push (CG_LOGIN3 # replicate 67 0) (Framer_new Auth)
     = (Inr [CG_LOGIN3 # replicate 67 0], Framer_new Auth)" by (rule cut)
  show "feed (Framer_new Auth) [CG_LOGIN3 # replicate 87 0]
     = (Inr [CG_LOGIN3 # replicate 87 0], Framer_new Auth)" using whole by simp
  have "fst (push (replicate 20 0) (Framer_new Auth)) = Inl (UnknownHeader 0)"
    using zero by (simp add: push_frames Framer_new_def frames.simps [of Auth "replicate 20 0"])
  then show "fst (feed (Framer_new Auth) [CG_LOGIN3 # replicate 67 0, replicate 20 0]) = Inl (UnknownHeader 0)"
    using cut by (auto split: prod.splits sum.splits)
qed

text \<open>\<open>SUB_CG_WAR_DECLARE\<close> has a five-byte payload by its declaration, but the framer has no
  arm for it: the packet is handed out without its payload, whose bytes are then read as packet
  headers. A declaration with three zero flags closes the connection.\<close>

theorem war_declare_misframed:
  "(CG_WAR_DECLARE_TOTAL = 7)
   \<and> (try_extract \<lparr>role = Channel, buf = CG_GUILD # SUB_CG_WAR_DECLARE # payload\<rparr>
     = (Inr (Some [CG_GUILD, SUB_CG_WAR_DECLARE]), \<lparr>role = Channel, buf = payload\<rparr>))
   \<and> (fst (push [CG_GUILD, SUB_CG_WAR_DECLARE, 0, 0, 0, 0, 0] (Framer_new Channel)) = Inl (UnknownHeader 0))"
proof (intro conjI)
  have ex: "try_extract \<lparr>role = Channel, buf = CG_GUILD # SUB_CG_WAR_DECLARE # payload\<rparr>
     = (Inr (Some [CG_GUILD, SUB_CG_WAR_DECLARE]), \<lparr>role = Channel, buf = payload\<rparr>)" for payload
    by (simp add: try_extract_def drain_def guild_total_def)
  show "try_extract \<lparr>role = Channel, buf = CG_GUILD # SUB_CG_WAR_DECLARE # payload\<rparr>
     = (Inr (Some [CG_GUILD, SUB_CG_WAR_DECLARE]), \<lparr>role = Channel, buf = payload\<rparr>)"
    by (rule ex)
  have "try_extract \<lparr>role = Channel, buf = [0, 0, 0, 0, 0]\<rparr>
     = (Inl (UnknownHeader 0), \<lparr>role = Channel, buf = [0, 0, 0, 0, 0]\<rparr>)"
    by (simp add: try_extract_def packet_range_def packet_size_def game_phase_size_def)
  then show "fst (push [CG_GUILD, SUB_CG_WAR_DECLARE, 0, 0, 0, 0, 0] (Framer_new Channel)) = Inl (UnknownHeader 0)"
    using ex [of "[0, 0, 0, 0, 0]"]
    by (simp add: push_def Framer_new_def push_loop.simps [of "Framer.make _ _"] push_loop.simps)
qed simp

end
