(* ===== verification/Handshake.thy ===== *)
theory Handshake
  imports Framer ServerPackets
begin

text \<open>
  The connection handshake (\<^verbatim>\<open>network/src/handshake.rs\<close>): the server sends its phase and a
  nonce, the client echoes the nonce with its clock, and the server accepts when the nonce
  matches and the two clocks are close. The theory models \<^verbatim>\<open>generate_nonce\<close>,
  \<^verbatim>\<open>wait_for_echo\<close> on top of \<open>next_packet\<close>, and the retry loop of \<^verbatim>\<open>perform_with\<close>.
\<close>

section \<open>Configuration, results, errors\<close>

definition HANDSHAKE_RETRY_LIMIT :: nat where [simp]: "HANDSHAKE_RETRY_LIMIT = 32"
definition CLOCK_BIAS_TOLERANCE_MS :: int where [simp]: "CLOCK_BIAS_TOLERANCE_MS = 80"
definition HANDSHAKE_ATTEMPT_TIMEOUT :: nat where [simp]: "HANDSHAKE_ATTEMPT_TIMEOUT = 500"
definition HANDSHAKE_RETRY_DELAY :: nat where [simp]: "HANDSHAKE_RETRY_DELAY = 50"

record Handshake_res =
  server_time :: u64
  client_time :: u64
  delta :: int

datatype HandshakeError =
    RetriesExhausted (attempts: nat)
  | HsIo io_error
  | Framing FramingError
  | MarkLogin TPacketCGMarkLogin
  | LoginEarly bytes

text \<open>Durations are in milliseconds; \<open>attempt_timeout\<close> and \<open>retry_delay\<close> are waits, they decide
  which reads an attempt sees and change nothing else.\<close>

record HandshakeConfig =
  retry_limit :: nat
  attempt_timeout :: nat
  retry_delay :: nat
  bias_tolerance_ms :: int

definition HandshakeConfig_default :: HandshakeConfig where
  "HandshakeConfig_default =
     \<lparr>retry_limit = HANDSHAKE_RETRY_LIMIT, attempt_timeout = HANDSHAKE_ATTEMPT_TIMEOUT,
      retry_delay = HANDSHAKE_RETRY_DELAY, bias_tolerance_ms = CLOCK_BIAS_TOLERANCE_MS\<rparr>"

section \<open>The nonce\<close>

text \<open>\<open>nanos\<close> is the system clock, \<open>counter\<close> the value of the process-wide counter, which the
  call increments (\<^verbatim>\<open>fetch_add(1)\<close>, wrapping).\<close>

definition generate_nonce :: "u64 \<Rightarrow> u64 \<Rightarrow> u32 \<times> u64" where
  "generate_nonce nanos counter =
    (let mixed = xor nanos (counter * 0x9E3779B97F4A7C15);
         nonce = (ucast mixed :: u32)
     in (if nonce = 0 then 1 else nonce, counter + 1))"

section \<open>Waiting for the echo\<close>

text \<open>
  The outcome of a wait: the echo, an error, the \<^verbatim>\<open>unreachable!\<close> panic of a packet that does not
  parse, or nothing yet when the reads that arrived within the timeout are used up.
\<close>

datatype wait_outcome =
    Echo TPacketCGHandshake
  | Failed HandshakeError
  | Panic
  | Waiting

definition socket_measure :: "Framer \<Rightarrow> read_result list \<Rightarrow> nat" where
  "socket_measure f rs = length (buf f) + length (incoming rs)"

lemma next_packet_measure:
  assumes "next_packet f rs = (Some (Inr p), f', rs')"
  shows "socket_measure f' rs' < socket_measure f rs"
proof -
  have fr: "p @ buf f' @ incoming rs' = buf f @ incoming rs" "demand (role f) p = Frame (length p)"
    using next_packet_cases [of f rs] assms by simp_all
  then have "length p + (length (buf f') + length (incoming rs')) = length (buf f) + length (incoming rs)"
    by (metis length_append)
  moreover have "0 < length p" using demand_Frame [OF fr(2)] by simp
  ultimately show ?thesis unfolding socket_measure_def by linarith
qed

function wait_for_echo ::
  "Framer \<Rightarrow> read_result list \<Rightarrow> wait_outcome \<times> Framer \<times> read_result list"
where
  "wait_for_echo f rs =
     (case next_packet f rs of
        (None, f', rs') \<Rightarrow> (Waiting, f', rs')
      | (Some (Inl e), f', rs') \<Rightarrow> (Failed (Framing e), f', rs')
      | (Some (Inr pkt), f', rs') \<Rightarrow>
          (if pkt ! 0 = CG_TIME_SYNC \<or> pkt ! 0 = CG_PONG then wait_for_echo f' rs'
           else if pkt ! 0 = CG_HANDSHAKE then
             (case TPacketCGHandshake_from_bytes pkt of
                Inr echo \<Rightarrow> (Echo echo, f', rs') | Inl _ \<Rightarrow> (Panic, f', rs'))
           else if pkt ! 0 = CG_MARK_LOGIN then
             (case TPacketCGMarkLogin_from_bytes pkt of
                Inr p \<Rightarrow> (Failed (MarkLogin p), f', rs') | Inl _ \<Rightarrow> (Panic, f', rs'))
           else if pkt ! 0 = CG_LOGIN3 then (Failed (LoginEarly pkt), f', rs')
           else wait_for_echo f' rs'))"
  by pat_completeness auto
termination
  by (relation "measure (\<lambda>(f, rs). socket_measure f rs)") (auto dest: next_packet_measure [OF sym])

declare wait_for_echo.simps [simp del]

section \<open>The retry loop\<close>

text \<open>
  What the world does to one attempt: the two sends succeed or fail, and \<open>arriving\<close> are the
  reads that complete before the timeout. Reads that an attempt leaves in the socket are the
  first ones of the next attempt. \<open>sent\<close> collects what went out.
\<close>

record attempt_env =
  send_phase :: "io_error option"
  send_nonce :: "io_error option"
  arriving :: "read_result list"

record hs_state =
  framer :: Framer
  socket :: "read_result list"
  sent :: "bytes list"

datatype hs_outcome =
    Done Handshake_res
  | Err HandshakeError
  | Panicked

text \<open>\<^verbatim>\<open>bias.unsigned_abs() <= cfg.bias_tolerance_ms as u32\<close>, with the wrapping clock difference.\<close>

definition clock_bias :: "u32 \<Rightarrow> TPacketCGHandshake \<Rightarrow> i32" where
  "clock_bias now32 echo =
     now32 - (TPacketCGHandshake.dw_time echo + TPacketCGHandshake.l_delta echo)"

definition check_echo :: "HandshakeConfig \<Rightarrow> u32 \<Rightarrow> u64 \<Rightarrow> TPacketCGHandshake \<Rightarrow> Handshake_res option" where
  "check_echo cfg nonce now_ms echo =
     (if TPacketCGHandshake.dw_handshake echo \<noteq> nonce then None
      else if sint (TPacketCGHandshake.l_delta echo) < 0 then None
      else let bias = sint (clock_bias (ucast now_ms) echo) in
        if nat \<bar>bias\<bar> \<le> unat (word_of_int (bias_tolerance_ms cfg) :: u32)
        then Some \<lparr>server_time = now_ms, client_time = ucast (TPacketCGHandshake.dw_time echo),
               delta = bias\<rparr>
        else None)"

function perform_loop ::
  "HandshakeConfig \<Rightarrow> u32 \<Rightarrow> u64 \<Rightarrow> (nat \<Rightarrow> attempt_env) \<Rightarrow> nat \<Rightarrow> hs_state \<Rightarrow> hs_outcome \<times> hs_state"
where
  "perform_loop cfg nonce now_ms env done st =
    (let attempt = done + 1;
         phase = TPacketGCPhase_to_bytes (TPacketGCPhase_new PHASE_HANDSHAKE);
         hello = TPacketGCHandshake_to_bytes (TPacketGCHandshake_new nonce (ucast now_ms) 0);
         retry = (\<lambda>st. if retry_limit cfg \<le> attempt then (Err (RetriesExhausted attempt), st)
                       else perform_loop cfg nonce now_ms env attempt st)
     in case send_phase (env attempt) of
          Some e \<Rightarrow> (Err (HsIo e), st)
        | None \<Rightarrow> (case send_nonce (env attempt) of
            Some e \<Rightarrow> (Err (HsIo e), st\<lparr>sent := sent st @ [phase]\<rparr>)
          | None \<Rightarrow>
             (let (out, f', rs') = wait_for_echo (framer st) (socket st @ arriving (env attempt));
                  st' = st\<lparr>framer := f', socket := rs', sent := sent st @ [phase, hello]\<rparr>
              in case out of
                   Panic \<Rightarrow> (Panicked, st')
                 | Failed e \<Rightarrow> (Err e, st')
                 | Waiting \<Rightarrow> retry st'
                 | Echo echo \<Rightarrow> (case check_echo cfg nonce now_ms echo of
                      Some h \<Rightarrow> (Done h, st') | None \<Rightarrow> retry st'))))"
  by pat_completeness auto
termination
  by (relation "measure (\<lambda>(cfg, _, _, _, done, _). retry_limit cfg - done)") auto

declare perform_loop.simps [simp del]

definition perform_with ::
  "HandshakeConfig \<Rightarrow> u64 \<Rightarrow> u64 \<Rightarrow> u64 \<Rightarrow> (nat \<Rightarrow> attempt_env) \<Rightarrow> Framer \<Rightarrow> hs_outcome \<times> hs_state"
where
  "perform_with cfg nanos counter now_ms env f =
     perform_loop cfg (fst (generate_nonce nanos counter)) now_ms env 0
       \<lparr>framer = f, socket = [], sent = []\<rparr>"

definition perform ::
  "u64 \<Rightarrow> u64 \<Rightarrow> u64 \<Rightarrow> (nat \<Rightarrow> attempt_env) \<Rightarrow> Framer \<Rightarrow> hs_outcome \<times> hs_state"
where "perform = perform_with HandshakeConfig_default"

section \<open>What the framer guarantees to the handshake\<close>

lemma fixed_frame:
  assumes "demand r p = Frame (length p)" and "p ! 0 = h"
    and "h \<notin> {CG_CHAT, CG_WHISPER, CG_SHOP, CG_MESSENGER, CG_GUILD}"
    and "packet_range r h = Some (lo, hi)"
  shows "lo \<le> length p \<and> length p \<le> hi"
proof -
  from assms(1) have "p \<noteq> []" by (auto simp: demand_def)
  with assms have "by_range r p = Frame (length p)" by (simp add: demand_def)
  with assms(2,4) show ?thesis by (auto simp: by_range_def split: if_splits)
qed

lemma frame_lengths:
  assumes "demand r p = Frame (length p)"
  shows "p ! 0 = CG_HANDSHAKE \<Longrightarrow> length p = 13"
    and "p ! 0 = CG_MARK_LOGIN \<Longrightarrow> length p = 9"
    and "p ! 0 = CG_LOGIN3 \<Longrightarrow> if r = Channel then length p = 65 else 68 \<le> length p \<and> length p \<le> 88"
proof -
  have sizes: "packet_range r CG_HANDSHAKE = Some (13, 13)" "packet_range r CG_MARK_LOGIN = Some (9, 9)"
    "packet_range r CG_LOGIN3 = (if r = Channel then Some (65, 65) else Some (68, 88))"
    by (cases r; simp add: packet_range_def packet_size_def)+
  show "p ! 0 = CG_HANDSHAKE \<Longrightarrow> length p = 13"
    using fixed_frame [OF assms _ _ sizes(1)] by simp
  show "p ! 0 = CG_MARK_LOGIN \<Longrightarrow> length p = 9"
    using fixed_frame [OF assms _ _ sizes(2)] by simp
  show "p ! 0 = CG_LOGIN3 \<Longrightarrow> if r = Channel then length p = 65 else 68 \<le> length p \<and> length p \<le> 88"
    using fixed_frame [OF assms, of CG_LOGIN3] sizes(3) by (auto split: if_splits)
qed

text \<open>The five shapes a wait can end in, as one predicate over the stream before and after.\<close>

fun wait_spec ::
  "ConnectionRole \<Rightarrow> bytes \<Rightarrow> wait_outcome \<Rightarrow> bytes \<Rightarrow> bool"
where
  "wait_spec r before (Echo echo) rest \<longleftrightarrow>
     TPacketCGHandshake.header echo = CG_HANDSHAKE \<and> suffix (TPacketCGHandshake_to_bytes echo @ rest) before"
| "wait_spec r before (Failed (MarkLogin p)) rest \<longleftrightarrow>
     TPacketCGMarkLogin.header p = CG_MARK_LOGIN \<and> suffix (TPacketCGMarkLogin_to_bytes p @ rest) before"
| "wait_spec r before (Failed (LoginEarly pkt)) rest \<longleftrightarrow>
     pkt ! 0 = CG_LOGIN3 \<and> suffix (pkt @ rest) before \<and>
     (if r = Channel then length pkt = 65 else 68 \<le> length pkt \<and> length pkt \<le> 88)"
| "wait_spec r before (Failed (Framing e)) rest \<longleftrightarrow> True"
| "wait_spec r before (Failed (HsIo e)) rest \<longleftrightarrow> False"
| "wait_spec r before (Failed (RetriesExhausted n)) rest \<longleftrightarrow> False"
| "wait_spec r before Panic rest \<longleftrightarrow> False"
| "wait_spec r before Waiting rest \<longleftrightarrow> suffix rest before"

lemma wait_spec_suffix: "wait_spec r mid out rest \<Longrightarrow> suffix mid before \<Longrightarrow> wait_spec r before out rest"
  by (induction r mid out rest rule: wait_spec.induct) (auto intro: suffix_order.trans)

lemma next_packet_role: "role (fst (snd (next_packet f rs))) = role f"
proof (induction rs arbitrary: f)
  case Nil
  show ?case
    by (subst next_packet.simps) (auto simp: try_extract_demand drain_def split: demand.splits)
next
  case (Cons r rs)
  show ?case
  proof (cases r)
    case (ReadOk d)
    with Cons [of "f\<lparr>buf := buf f @ d\<rparr>"] show ?thesis
      by (subst next_packet.simps) (simp add: try_extract_demand drain_def split: demand.splits)
  qed (subst next_packet.simps, simp add: try_extract_demand drain_def split: demand.splits)
qed

text \<open>One packet leaves everything behind it in place, the reads that are still to come included.\<close>

lemma next_packet_stream:
  "case next_packet f rs of
     (Some (Inr p), f', rs') \<Rightarrow> p @ buf f' @ incoming (rs' @ t) = buf f @ incoming (rs @ t)
   | (Some (Inl e), f', rs') \<Rightarrow> True
   | (None, f', rs') \<Rightarrow> buf f' @ incoming (rs' @ t) = buf f @ incoming (rs @ t)"
proof (induction rs arbitrary: f)
  case Nil
  show ?case
    by (subst next_packet.simps) (auto simp: try_extract_demand drain_def split: demand.splits)
next
  case (Cons r rs)
  show ?case
  proof (cases "\<exists>d. r = ReadOk d \<and> d \<noteq> [] \<and> demand (role f) (buf f) = More")
    case True
    then obtain d where d: "r = ReadOk d" "d \<noteq> []" and More: "demand (role f) (buf f) = More" by auto
    then have "next_packet f (r # rs) = next_packet (f\<lparr>buf := buf f @ d\<rparr>) rs"
      by (subst next_packet.simps) (simp add: try_extract_demand)
    with Cons [of "f\<lparr>buf := buf f @ d\<rparr>"] d show ?thesis
      by (auto split: prod.splits option.splits sum.splits)
  next
    case False
    then show ?thesis
      by (subst next_packet.simps)
        (auto simp: try_extract_demand drain_def split: demand.splits read_result.splits)
  qed
qed

lemma wait_for_echo_spec:
  assumes "wait_for_echo f rs = (out, f', rs')"
  shows "wait_spec (role f) (buf f @ incoming (rs @ t)) out (buf f' @ incoming (rs' @ t))"
  using assms
proof (induction "socket_measure f rs" arbitrary: f rs rule: less_induct)
  case less
  obtain res g qs where np: "next_packet f rs = (res, g, qs)" by (cases "next_packet f rs")
  note cases = next_packet_cases [of f rs, unfolded np, simplified]
  note stream = next_packet_stream [where f = f and rs = rs and t = t, unfolded np, simplified]
  consider "res = None" | e where "res = Some (Inl e)" | p where "res = Some (Inr p)"
    by (metis not_Some_eq sum.exhaust)
  then show ?case
  proof cases
    case 1
    with less.prems np stream show ?thesis by (subst (asm) wait_for_echo.simps) auto
  next
    case 2
    with less.prems np show ?thesis by (subst (asm) wait_for_echo.simps) auto
  next
    case (3 p)
    with cases have frame: "demand (role f) p = Frame (length p)" by simp
    from 3 stream have stream: "p @ buf g @ incoming (qs @ t) = buf f @ incoming (rs @ t)" by simp
    then have suf: "suffix (buf g @ incoming (qs @ t)) (buf f @ incoming (rs @ t))" by (metis suffixI)
    have IH: "wait_for_echo g qs = (out, f', rs') \<Longrightarrow>
        wait_spec (role f) (buf f @ incoming (rs @ t)) out (buf f' @ incoming (rs' @ t))"
      using less.hyps [of g qs] next_packet_measure [OF np [unfolded 3]]
        next_packet_role [of f rs, unfolded np] wait_spec_suffix [OF _ suf] by simp
    have echo: "p ! 0 = CG_HANDSHAKE \<Longrightarrow> \<exists>e. TPacketCGHandshake_from_bytes p = Inr e
        \<and> TPacketCGHandshake_to_bytes e = p \<and> TPacketCGHandshake.header e = p ! 0"
      using frame_lengths(1) [OF frame] cg_handshake.parses [of p]
      by (auto simp: TPacketCGHandshake_from_bytes_def)
    have mark: "p ! 0 = CG_MARK_LOGIN \<Longrightarrow> \<exists>m. TPacketCGMarkLogin_from_bytes p = Inr m
        \<and> TPacketCGMarkLogin_to_bytes m = p \<and> TPacketCGMarkLogin.header m = p ! 0"
      using frame_lengths(2) [OF frame] cg_mark_login.parses [of p]
      by (auto simp: TPacketCGMarkLogin_from_bytes_def)
    from less.prems 3 np IH echo mark frame_lengths(3) [OF frame] stream show ?thesis
      by (subst (asm) wait_for_echo.simps) (auto split: if_splits)
  qed
qed

section \<open>What the retry loop guarantees\<close>

text \<open>Attempts are numbered from 1; the loop entered after \<open>n\<close> of them makes at least one more and
  at most \<open>retry_limit\<close> in all. Each attempt sends the greeting, two packets.\<close>

definition last_attempt :: "HandshakeConfig \<Rightarrow> nat \<Rightarrow> nat" where
  "last_attempt cfg n = max (Suc n) (retry_limit cfg)"

definition greeting :: "u32 \<Rightarrow> u64 \<Rightarrow> bytes list" where
  "greeting nonce now_ms =
     [TPacketGCPhase_to_bytes (TPacketGCPhase_new PHASE_HANDSHAKE),
      TPacketGCHandshake_to_bytes (TPacketGCHandshake_new nonce (ucast now_ms) 0)]"

definition greetings :: "nat \<Rightarrow> u32 \<Rightarrow> u64 \<Rightarrow> bytes list" where
  "greetings k nonce now_ms = concat (replicate k (greeting nonce now_ms))"

lemma length_greetings: "length (greetings k nonce now_ms) = 2 * k"
  by (induction k) (simp_all add: greetings_def greeting_def)

text \<open>The reads of the attempts after \<open>n\<close> up to \<open>k\<close>.\<close>

definition arrivals :: "(nat \<Rightarrow> attempt_env) \<Rightarrow> nat \<Rightarrow> nat \<Rightarrow> read_result list" where
  "arrivals env n k = concat (map (\<lambda>i. arriving (env i)) [Suc n..<Suc k])"

lemma arrivals_one [simp]: "arrivals env n (Suc n) = arriving (env (Suc n))"
  by (simp add: arrivals_def)

lemma arrivals_step: "Suc n < k \<Longrightarrow> arrivals env n k = arriving (env (Suc n)) @ arrivals env (Suc n) k"
  by (simp add: arrivals_def upt_conv_Cons del: upt_Suc)

text \<open>The packet \<open>e\<close> was read from the socket, and what \<open>st'\<close> holds is all that came behind it.\<close>

definition just_read :: "(nat \<Rightarrow> attempt_env) \<Rightarrow> nat \<Rightarrow> hs_state \<Rightarrow> nat \<Rightarrow> bytes \<Rightarrow> hs_state \<Rightarrow> bool" where
  "just_read env n st k pkt st' \<longleftrightarrow>
     suffix (pkt @ buf (framer st') @ incoming (socket st'))
       (buf (framer st) @ incoming (socket st @ arrivals env n k))"

lemma just_read_next:
  assumes "just_read env (Suc n) st' k pkt st''" and "Suc n < k"
    and "\<And>t. suffix (buf (framer st') @ incoming (socket st' @ t))
           (buf (framer st) @ incoming (socket st @ arriving (env (Suc n)) @ t))"
  shows "just_read env n st k pkt st''"
  using assms(1) assms(3) [of "arrivals env (Suc n) k"] unfolding just_read_def arrivals_step [OF assms(2)]
  by (rule suffix_order.trans)

fun loop_spec ::
  "HandshakeConfig \<Rightarrow> u32 \<Rightarrow> u64 \<Rightarrow> (nat \<Rightarrow> attempt_env) \<Rightarrow> nat \<Rightarrow> hs_state \<Rightarrow> hs_outcome \<times> hs_state \<Rightarrow> bool"
where
  "loop_spec cfg nonce now_ms env n st (Done h, st') \<longleftrightarrow>
     (\<exists>k echo. n < k \<and> k \<le> last_attempt cfg n \<and> sent st' = sent st @ greetings (k - n) nonce now_ms
        \<and> check_echo cfg nonce now_ms echo = Some h
        \<and> TPacketCGHandshake.header echo = CG_HANDSHAKE
        \<and> just_read env n st k (TPacketCGHandshake_to_bytes echo) st')"
| "loop_spec cfg nonce now_ms env n st (Err (RetriesExhausted k), st') \<longleftrightarrow>
     k = last_attempt cfg n \<and> sent st' = sent st @ greetings (k - n) nonce now_ms"
| "loop_spec cfg nonce now_ms env n st (Err e, st') \<longleftrightarrow>
     length (sent st') \<le> length (sent st) + 2 * (last_attempt cfg n - n)"
| "loop_spec cfg nonce now_ms env n st (Panicked, st') \<longleftrightarrow> False"

lemma loop_spec_next:
  assumes "loop_spec cfg nonce now_ms env (Suc n) st' res" and "Suc n < retry_limit cfg"
    and "sent st' = sent st @ greeting nonce now_ms"
    and "\<And>t. suffix (buf (framer st') @ incoming (socket st' @ t))
           (buf (framer st) @ incoming (socket st @ arriving (env (Suc n)) @ t))"
  shows "loop_spec cfg nonce now_ms env n st res"
proof -
  obtain out st'' where res: "res = (out, st'')" by (cases res)
  have last: "last_attempt cfg (Suc n) = last_attempt cfg n" "Suc n < last_attempt cfg n"
    using assms(2) by (auto simp: last_attempt_def)
  have one: "greeting nonce now_ms @ greetings (k - Suc n) nonce now_ms = greetings (k - n) nonce now_ms"
    if "Suc n < k" for k
    using that by (simp add: greetings_def Suc_diff_Suc flip: replicate_Suc concat.simps(2))
  have two: "length (greeting nonce now_ms) = 2" by (simp add: greeting_def)
  show ?thesis
  proof (cases out)
    case (Done h)
    then obtain k echo where "Suc n < k" "k \<le> last_attempt cfg n"
      "sent st'' = sent st' @ greetings (k - Suc n) nonce now_ms" "check_echo cfg nonce now_ms echo = Some h"
      "TPacketCGHandshake.header echo = CG_HANDSHAKE"
      "just_read env (Suc n) st' k (TPacketCGHandshake_to_bytes echo) st''"
      using assms(1) by (auto simp: res last)
    then show ?thesis
      using one just_read_next [of env n st' k _ st'' st] assms(4) by (auto simp: res Done assms(3) intro!: exI [of _ k] exI [of _ echo])
  qed (use assms(1) last one two in \<open>(auto simp: res assms(3)
         elim!: loop_spec.elims split: HandshakeError.splits)\<close>)
qed

lemma perform_loop_spec:
  "loop_spec cfg nonce now_ms env n st (perform_loop cfg nonce now_ms env n st)"
proof (induction "retry_limit cfg - n" arbitrary: n st rule: less_induct)
  case less
  have one: "0 < last_attempt cfg n - n" by (simp add: last_attempt_def)
  show ?case
  proof (cases "send_phase (env (Suc n)) = None \<and> send_nonce (env (Suc n)) = None")
    case False
    with one show ?thesis
      by (cases "send_phase (env (Suc n))"; cases "send_nonce (env (Suc n))";
          subst perform_loop.simps; simp add: Let_def)
  next
    case True
    obtain out f' rs' where w: "wait_for_echo (framer st) (socket st @ arriving (env (Suc n))) = (out, f', rs')"
      by (cases "wait_for_echo (framer st) (socket st @ arriving (env (Suc n)))")
    define st' where "st' = st\<lparr>framer := f', socket := rs', sent := sent st @ greeting nonce now_ms\<rparr>"
    have st': "framer st' = f'" "socket st' = rs'" "sent st' = sent st @ greeting nonce now_ms"
      by (simp_all add: st'_def)
    have wait: "wait_spec (role (framer st)) (buf (framer st) @ incoming (socket st @ arriving (env (Suc n)) @ t))
        out (buf f' @ incoming (rs' @ t))" for t
      using wait_for_echo_spec [OF w, of t] by simp
    have retry: "loop_spec cfg nonce now_ms env n st
       (if retry_limit cfg \<le> Suc n then (Err (RetriesExhausted (Suc n)), st')
        else perform_loop cfg nonce now_ms env (Suc n) st')"
      if "out = Waiting \<or> (\<exists>e. out = Echo e)"
    proof (cases "retry_limit cfg \<le> Suc n")
      case True
      then show ?thesis by (simp add: st'(3) last_attempt_def greetings_def)
    next
      case False
      have "suffix (buf (framer st') @ incoming (socket st' @ t))
           (buf (framer st) @ incoming (socket st @ arriving (env (Suc n)) @ t))" for t
        using wait [of t] that by (auto simp: st' dest: suffix_appendD)
      with False less.hyps [of "Suc n" st'] show ?thesis
        using loop_spec_next [of cfg nonce now_ms env n st' _ st] st'(3) by auto
    qed
    have unfold: "perform_loop cfg nonce now_ms env n st =
       (case out of
          Panic \<Rightarrow> (Panicked, st') | Failed e \<Rightarrow> (Err e, st')
        | Waiting \<Rightarrow> (if retry_limit cfg \<le> Suc n then (Err (RetriesExhausted (Suc n)), st')
                      else perform_loop cfg nonce now_ms env (Suc n) st')
        | Echo echo \<Rightarrow> (case check_echo cfg nonce now_ms echo of
             Some h \<Rightarrow> (Done h, st')
           | None \<Rightarrow> (if retry_limit cfg \<le> Suc n then (Err (RetriesExhausted (Suc n)), st')
                      else perform_loop cfg nonce now_ms env (Suc n) st')))"
      unfolding st'_def greeting_def using True
      by (subst perform_loop.simps) (simp add: w Let_def del: PHASE_HANDSHAKE_def)
    show ?thesis
    proof (cases out)
      case (Echo e)
      have "loop_spec cfg nonce now_ms env n st (Done h, st')" if "check_echo cfg nonce now_ms e = Some h" for h
        using that wait [of "[]"] one
        by (auto simp: Echo just_read_def st' greetings_def intro!: exI [of _ "Suc n"] exI [of _ e])
      then show ?thesis using retry unfolding unfold Echo by (auto split: option.split)
    next
      case (Failed e)
      then show ?thesis using wait [of "[]"] one unfolding unfold
        by (cases e) (simp_all add: st' greeting_def)
    qed (use retry wait [of "[]"] unfold in simp_all)
  qed
qed

lemma check_echo_Some:
  "check_echo cfg nonce now_ms echo = Some h \<longleftrightarrow>
     TPacketCGHandshake.dw_handshake echo = nonce
     \<and> 0 \<le> sint (TPacketCGHandshake.l_delta echo)
     \<and> nat \<bar>sint (clock_bias (ucast now_ms) echo)\<bar> \<le> unat (word_of_int (bias_tolerance_ms cfg) :: u32)
     \<and> h = \<lparr>server_time = now_ms, client_time = ucast (TPacketCGHandshake.dw_time echo),
            delta = sint (clock_bias (ucast now_ms) echo)\<rparr>"
  by (auto simp: check_echo_def Let_def)

section \<open>Properties of the handshake\<close>

text \<open>Waiting for the echo never reaches \<^verbatim>\<open>unreachable!\<close>: whatever bytes arrive, the packets the
  framer hands out parse. The wait consumes a prefix of the stream, ending in the echo (or the
  mark login, or the early login) that it returns, and keeps every byte that follows.\<close>

theorem wait_for_echo_correct:
  "case wait_for_echo f rs of (out, f', rs') \<Rightarrow>
     out \<noteq> Panic \<and> wait_spec (role f) (buf f @ incoming rs) out (buf f' @ incoming rs')"
  using wait_for_echo_spec [of f rs _ _ _ "[]"] by (auto split: prod.splits)

text \<open>C10. The handshake accepts only an echo it has received: when it succeeds in attempt \<open>k\<close>, the
  bytes it consumed from the stream (what was buffered and what arrived in the \<open>k\<close> attempts) end
  in a handshake packet that carries the nonce sent in the greeting, with a non-negative \<^verbatim>\<open>l_delta\<close>
  and clocks within 80 ms; the result is computed from this packet, and every byte behind it is kept.
  The greeting with the nonce went out exactly once in each attempt. The handshake never panics, makes at
  most 32 attempts, and reports 32 when it gives up. The nonce is never zero.\<close>

theorem perform_guarantees:
  "fst (generate_nonce nanos counter) \<noteq> 0 \<and>
   (case perform nanos counter now_ms env f of
      (Done h, st) \<Rightarrow> server_time h = now_ms \<and> \<bar>delta h\<bar> \<le> 80
        \<and> (\<exists>k echo. 1 \<le> k \<and> k \<le> 32
             \<and> sent st = greetings k (fst (generate_nonce nanos counter)) now_ms
             \<and> TPacketCGHandshake.header echo = CG_HANDSHAKE
             \<and> suffix (TPacketCGHandshake_to_bytes echo @ buf (framer st) @ incoming (socket st))
                 (buf f @ incoming (concat (map (\<lambda>i. arriving (env i)) [1..<Suc k])))
             \<and> TPacketCGHandshake.dw_handshake echo = fst (generate_nonce nanos counter)
             \<and> 0 \<le> sint (TPacketCGHandshake.l_delta echo)
             \<and> client_time h = ucast (TPacketCGHandshake.dw_time echo)
             \<and> delta h = sint (clock_bias (ucast now_ms) echo))
    | (Err (RetriesExhausted k), st) \<Rightarrow>
        k = 32 \<and> sent st = greetings 32 (fst (generate_nonce nanos counter)) now_ms
    | (Err e, st) \<Rightarrow> length (sent st) \<le> 64
    | (Panicked, st) \<Rightarrow> False)"
proof -
  let ?nonce = "fst (generate_nonce nanos counter)" and ?st = "\<lparr>framer = f, socket = [], sent = []\<rparr>"
  obtain out st where p: "perform nanos counter now_ms env f = (out, st)"
    by (cases "perform nanos counter now_ms env f")
  have last: "last_attempt HandshakeConfig_default 0 = 32"
    by (simp add: last_attempt_def HandshakeConfig_default_def)
  have spec: "loop_spec HandshakeConfig_default ?nonce now_ms env 0 ?st (out, st)"
    using perform_loop_spec [of HandshakeConfig_default ?nonce now_ms env 0 ?st] p
    by (simp add: perform_def perform_with_def)
  have nonce: "?nonce \<noteq> 0" by (simp add: generate_nonce_def Let_def)
  show ?thesis
  proof (cases out)
    case (Done h)
    with spec obtain k echo where "0 < k" "k \<le> 32" "sent st = greetings k ?nonce now_ms"
      "TPacketCGHandshake.header echo = CG_HANDSHAKE"
      "just_read env 0 ?st k (TPacketCGHandshake_to_bytes echo) st"
      and ok: "check_echo HandshakeConfig_default ?nonce now_ms echo = Some h"
      by (auto simp: last)
    then show ?thesis using nonce ok [unfolded check_echo_Some] unfolding p Done
      by (auto simp: just_read_def arrivals_def HandshakeConfig_default_def Suc_le_eq simp del: upt_Suc
          intro!: exI [of _ k] exI [of _ echo])
  next
    case (Err e)
    then show ?thesis using nonce spec by (cases e) (simp_all add: p last)
  qed (use nonce spec p in simp_all)
qed

text \<open>An honest client: keepalives may come first, then the echo; the first attempt succeeds.\<close>

lemma next_packet_take:
  "demand (role f) (buf f) = Frame n \<Longrightarrow>
     next_packet f rs = (Some (Inr (take n (buf f))), f\<lparr>buf := drop n (buf f)\<rparr>, rs)"
  by (subst next_packet.simps) (simp add: try_extract_demand drain_def)

lemma pong_frame: "demand r (CG_PONG # b) = Frame 1"
  by (cases r) (simp_all add: demand_def by_range_def packet_range_def packet_size_def)

lemma echo_frame:
  assumes "TPacketCGHandshake.header e = CG_HANDSHAKE"
  shows "demand r (TPacketCGHandshake_to_bytes e) = Frame 13"
proof -
  have "length (TPacketCGHandshake_to_bytes e) = 13"
    using cg_handshake.to_bytes_size [of e] by (simp add: TPacketCGHandshake_wf_def)
  moreover have "TPacketCGHandshake_to_bytes e ! 0 = CG_HANDSHAKE"
    using assms by (simp add: TPacketCGHandshake_to_bytes_def rd_wr)
  ultimately show ?thesis
    by (cases r) (auto simp: demand_def by_range_def packet_range_def packet_size_def)
qed

lemma wait_for_echo_honest:
  assumes "TPacketCGHandshake.header e = CG_HANDSHAKE"
    and "buf f = replicate k CG_PONG @ TPacketCGHandshake_to_bytes e"
  shows "wait_for_echo f rs = (Echo e, f\<lparr>buf := []\<rparr>, rs)"
  using assms(2)
proof (induction k arbitrary: f)
  case 0
  have "TPacketCGHandshake_from_bytes (TPacketCGHandshake_to_bytes e) = Inr e"
    by (rule cg_handshake.from_to) (simp add: TPacketCGHandshake_wf_def)
  moreover have "length (TPacketCGHandshake_to_bytes e) = 13" "TPacketCGHandshake_to_bytes e ! 0 = CG_HANDSHAKE"
    using assms(1) cg_handshake.to_bytes_size [of e]
    by (simp_all add: TPacketCGHandshake_wf_def, simp add: TPacketCGHandshake_to_bytes_def rd_wr)
  ultimately show ?case
    using 0 next_packet_take [of f 13 rs] echo_frame [OF assms(1)]
    by (subst wait_for_echo.simps) simp
next
  case (Suc k)
  then show ?case
    using next_packet_take [of f 1 rs] pong_frame by (subst wait_for_echo.simps) simp
qed

text \<open>C11. Liveness for an honest client: when the sends work and the first attempt receives any
  number of keepalives followed by an echo that \<open>check_echo\<close> accepts, the handshake completes in
  that attempt, with exactly the phase and the nonce sent and nothing left over.\<close>

theorem honest_client_accepted:
  assumes "TPacketCGHandshake.header e = CG_HANDSHAKE" and "check_echo cfg nonce now_ms e = Some h"
    and "env 1 = \<lparr>send_phase = None, send_nonce = None,
           arriving = [ReadOk (replicate k CG_PONG @ TPacketCGHandshake_to_bytes e)]\<rparr>"
  shows "perform_loop cfg nonce now_ms env 0 \<lparr>framer = Framer_new r, socket = [], sent = []\<rparr> =
    (Done h, \<lparr>framer = Framer_new r, socket = [],
       sent = [TPacketGCPhase_to_bytes (TPacketGCPhase_new PHASE_HANDSHAKE),
               TPacketGCHandshake_to_bytes (TPacketGCHandshake_new nonce (ucast now_ms) 0)]\<rparr>)"
proof -
  let ?data = "replicate k CG_PONG @ TPacketCGHandshake_to_bytes e"
  have "?data \<noteq> []" using cg_handshake.to_bytes_size [of e] by (auto simp: TPacketCGHandshake_wf_def)
  then have np: "next_packet (Framer_new r) [ReadOk ?data] = next_packet (Framer_new r\<lparr>buf := ?data\<rparr>) []"
    by (subst next_packet.simps) (auto simp: try_extract_demand demand_def Framer_new_def)
  have "wait_for_echo (Framer_new r) [ReadOk ?data] = wait_for_echo (Framer_new r\<lparr>buf := ?data\<rparr>) []"
    by (subst (1 2) wait_for_echo.simps) (simp only: np)
  also have "\<dots> = (Echo e, Framer_new r, [])"
    by (subst wait_for_echo_honest [OF assms(1)]) (simp_all add: Framer_new_def)
  finally show ?thesis
    using assms(2,3) by (subst perform_loop.simps) (simp add: Let_def del: PHASE_HANDSHAKE_def)
qed

theorem honest_client_accepted_witness:
  "perform_loop HandshakeConfig_default 7 1000
     (\<lambda>_. \<lparr>send_phase = None, send_nonce = None,
        arriving = [ReadOk (replicate 2 CG_PONG @ TPacketCGHandshake_to_bytes (TPacketCGHandshake_new 7 990 0))]\<rparr>)
     0 \<lparr>framer = Framer_new Channel, socket = [], sent = []\<rparr> =
   (Done \<lparr>server_time = 1000, client_time = 990, delta = 10\<rparr>,
    \<lparr>framer = Framer_new Channel, socket = [],
       sent = [TPacketGCPhase_to_bytes (TPacketGCPhase_new PHASE_HANDSHAKE),
               TPacketGCHandshake_to_bytes (TPacketGCHandshake_new 7 (ucast (1000 :: u64)) 0)]\<rparr>)"
  by (rule honest_client_accepted)
    (simp_all add: TPacketCGHandshake_new_def check_echo_def clock_bias_def HandshakeConfig_default_def)

end
