(* ===== verification/Mutation.thy ===== *)
theory Mutation
  imports Prelude "HOL-Library.Char_ord" "HOL-Library.List_Lexorder"
begin

text \<open>
  Durable mutations and their textual form (\<^verbatim>\<open>database/src/wal.rs\<close>): the uuidv7 identifiers, the
  typed parameters, the JSON line \<^verbatim>\<open>payload_json\<close> a mutation is written as, and the hand-written
  parser that reads it back when the local log is replayed. Rust strings are their UTF-8 bytes,
  here Isabelle strings (a \<open>char\<close> is a byte). Error messages become an error type.
\<close>

section \<open>Characters and numbers\<close>

abbreviation dq :: char where "dq \<equiv> CHR 0x22"
abbreviation bsl :: char where "bsl \<equiv> CHR 0x5C"
abbreviation newline :: char where "newline \<equiv> CHR 0x0A"

definition byte_of :: "char \<Rightarrow> nat" where "byte_of c = of_char c"

definition hex_digit :: "nat \<Rightarrow> char" where
  "hex_digit n = ''0123456789abcdef'' ! n"

text \<open>\<^verbatim>\<open>format!("{b:02x}")\<close> and its concatenation over a byte string.\<close>

definition hex_byte :: "u8 \<Rightarrow> string" where
  "hex_byte b = [hex_digit (unat b div 16), hex_digit (unat b mod 16)]"

definition hex_string :: "bytes \<Rightarrow> string" where
  "hex_string b = concat (map hex_byte b)"

definition hex_val :: "char \<Rightarrow> nat option" where
  "hex_val c = (let n = byte_of c in
     if 48 \<le> n \<and> n \<le> 57 then Some (n - 48)
     else if 97 \<le> n \<and> n \<le> 102 then Some (n - 87)
     else if 65 \<le> n \<and> n \<le> 70 then Some (n - 55)
     else None)"

definition is_ascii_hexdigit :: "char \<Rightarrow> bool" where
  "is_ascii_hexdigit c \<longleftrightarrow> hex_val c \<noteq> None"

text \<open>\<^verbatim>\<open>u8::from_str_radix(&hex[i..i + 2], 16)\<close> for each pair, on a string of hex digits.\<close>

fun hex_pairs :: "string \<Rightarrow> bytes" where
  "hex_pairs (a # b # s) = word_of_nat (the (hex_val a) * 16 + the (hex_val b)) # hex_pairs s"
| "hex_pairs _ = []"

lemma hex_val_digit: "n < 16 \<Longrightarrow> hex_val (hex_digit n) = Some n"
proof -
  have "\<forall>n \<in> set [0..<16]. hex_val (hex_digit n) = Some n" by code_simp
  then show "n < 16 \<Longrightarrow> hex_val (hex_digit n) = Some n" by simp
qed

lemma hex_digit_plain: "n < 16 \<Longrightarrow> hex_digit n \<notin> {dq, bsl, newline, CHR ''-''}"
proof -
  have "\<forall>n \<in> set [0..<16]. hex_digit n \<notin> {dq, bsl, newline, CHR ''-''}" by code_simp
  then show "n < 16 \<Longrightarrow> hex_digit n \<notin> {dq, bsl, newline, CHR ''-''}" by simp
qed

lemma unat_nibbles [simp]: "unat (b :: u8) div 16 < 16" "unat (b :: u8) mod 16 < 16"
  using unsigned_less [of b, where ?'a = nat] by auto

lemma hex_pairs_string [simp]: "hex_pairs (hex_string b) = b"
  by (induction b) (simp_all add: hex_string_def hex_byte_def hex_val_digit)

lemma hex_string_digits: "c \<in> set (hex_string b) \<Longrightarrow> is_ascii_hexdigit c \<and> c \<notin> {dq, bsl, newline, CHR ''-''}"
  using hex_digit_plain
  by (auto simp: hex_string_def hex_byte_def is_ascii_hexdigit_def hex_val_digit)

lemma length_hex_string [simp]: "length (hex_string b) = 2 * length b"
  by (induction b) (simp_all add: hex_string_def hex_byte_def)

text \<open>Decimal numbers: \<^verbatim>\<open>Display\<close> and \<^verbatim>\<open>parse\<close> of \<^verbatim>\<open>i64\<close>.\<close>

definition digit :: "nat \<Rightarrow> char" where "digit n = char_of (48 + n)"

fun show_nat :: "nat \<Rightarrow> string" where
  "show_nat n = (if n < 10 then [digit n] else show_nat (n div 10) @ [digit (n mod 10)])"

declare show_nat.simps [simp del]

definition show_int :: "int \<Rightarrow> string" where
  "show_int i = (if i < 0 then CHR ''-'' # show_nat (nat (- i)) else show_nat (nat i))"

definition is_ascii_digit :: "char \<Rightarrow> bool" where
  "is_ascii_digit c \<longleftrightarrow> 48 \<le> byte_of c \<and> byte_of c \<le> 57"

fun parse_digits :: "nat \<Rightarrow> string \<Rightarrow> nat option" where
  "parse_digits acc [] = Some acc"
| "parse_digits acc (c # s) =
     (if is_ascii_digit c then parse_digits (acc * 10 + (byte_of c - 48)) s else None)"

text \<open>\<^verbatim>\<open>str::parse::<i64>\<close>: an optional sign, at least one digit, in range.\<close>

definition parse_i64 :: "string \<Rightarrow> int option" where
  "parse_i64 s =
     (case s of
        [] \<Rightarrow> None
      | c # t \<Rightarrow>
          let (neg, ds) = (if c = CHR ''-'' then (True, t) else if c = CHR ''+'' then (False, t) else (False, s)) in
          if ds = [] then None
          else Option.bind (parse_digits 0 ds) (\<lambda>n. checked (if neg then - int n else int n)))"

lemma byte_of_digit [simp]: "n < 10 \<Longrightarrow> byte_of (digit n) = 48 + n"
  by (simp add: byte_of_def digit_def)

lemma digit_ascii [simp]: "n < 10 \<Longrightarrow> is_ascii_digit (digit n)"
  by (simp add: is_ascii_digit_def)

lemma parse_digits_append:
  "parse_digits a (s @ t) = Option.bind (parse_digits a s) (\<lambda>b. parse_digits b t)"
  by (induction a s rule: parse_digits.induct) auto

lemma parse_show_nat: "parse_digits 0 (show_nat n) = Some n"
proof (induction n rule: less_induct)
  case (less n)
  show ?case
    by (subst show_nat.simps) (use less in \<open>auto simp: parse_digits_append\<close>)
qed

lemma show_nat_digits: "show_nat n \<noteq> [] \<and> list_all is_ascii_digit (show_nat n)"
proof (induction n rule: less_induct)
  case (less n)
  show ?case
    by (subst (1 2) show_nat.simps) (use less in auto)
qed

lemma digit_not_sign: "is_ascii_digit c \<Longrightarrow> c \<noteq> CHR ''-'' \<and> c \<noteq> CHR ''+''"
  by (auto simp: is_ascii_digit_def byte_of_def)

lemma parse_show_int: "in_i64 i \<Longrightarrow> parse_i64 (show_int i) = Some i"
proof -
  obtain c t where s: "show_nat (nat i) = c # t" and c: "is_ascii_digit c"
    using show_nat_digits [of "nat i"] by (cases "show_nat (nat i)") auto
  have "parse_digits 0 (c # t) = Some (nat i)" using parse_show_nat [of "nat i"] s by simp
  then show "in_i64 i \<Longrightarrow> parse_i64 (show_int i) = Some i"
    using show_nat_digits [of "nat (- i)"] parse_show_nat [of "nat (- i)"] digit_not_sign [OF c]
    by (auto simp: parse_i64_def show_int_def s checked_def)
qed

section \<open>Identifiers\<close>

definition be64 :: "u64 \<Rightarrow> bytes" where
  "be64 w = map (\<lambda>i. ucast (drop_bit (8 * i) w)) [7, 6, 5, 4, 3, 2, 1, 0]"

definition uuidv7_from :: "u64 \<Rightarrow> u64 \<Rightarrow> bytes" where
  "uuidv7_from ts_ms rand =
    (let b = replicate 16 0;
         b = copy_at b 0 (drop 2 (be64 ts_ms));
         r0 = (ucast (drop_bit 40 rand) :: u8);
         r1 = (ucast (drop_bit 32 rand) :: u8);
         b = b[6 := or 0x70 (drop_bit 4 r0)];
         b = b[7 := or (push_bit 4 r0) (drop_bit 4 r1)];
         b = b[8 := or 0x80 (and r1 0x0F)];
         b = copy_at b 9 (drop 1 (be64 rand))
     in b)"

text \<open>\<^verbatim>\<open>rand64\<close>: the clock mixed with the process-wide counter, as for the handshake's nonce.\<close>

definition rand64 :: "u64 \<Rightarrow> u64 \<Rightarrow> u64 \<times> u64" where
  "rand64 nanos counter = (xor nanos (counter * 0x9E3779B97F4A7C15), counter + 1)"

definition uuidv7_string :: "bytes \<Rightarrow> string" where
  "uuidv7_string u = (let h = hex_string u in
     slice h 0 8 @ ''-'' @ slice h 8 4 @ ''-'' @ slice h 12 4 @ ''-'' @ slice h 16 4 @ ''-'' @ slice h 20 12)"

datatype parse_error =
    Expected_string
  | Unclosed_string
  | Unknown_escape char
  | Missing_brace
  | Missing_colon
  | Missing_bracket
  | Missing_comma
  | Bad_number
  | Bad_uuid
  | Missing_mutation_id
  | Missing_sql

definition parse_uuid :: "string \<Rightarrow> parse_error + bytes" where
  "parse_uuid s =
    (let hex = filter (\<lambda>c. c \<noteq> CHR ''-'') s
     in if length hex \<noteq> 32 \<or> \<not> list_all is_ascii_hexdigit hex then Inl Bad_uuid
        else Inr (hex_pairs hex))"

lemma uuidv7_string_filter:
  assumes "length u = 16"
  shows "filter (\<lambda>c. c \<noteq> CHR ''-'') (uuidv7_string u) = hex_string u"
proof -
  let ?h = "hex_string u"
  have keep: "filter (\<lambda>c. c \<noteq> CHR ''-'') (slice ?h o' n) = slice ?h o' n" for o' n
    using hex_string_digits [of _ u] by (auto simp: filter_id_conv slice_def dest!: in_set_takeD in_set_dropD)
  have "slice ?h 0 8 @ slice ?h 8 4 @ slice ?h 12 4 @ slice ?h 16 4 @ slice ?h 20 12 = ?h"
  proof -
    have step: "slice ?h a n @ drop (a + n) ?h = drop a ?h" for a n
      using append_take_drop_id [of n "drop a ?h"] by (simp add: slice_def add.commute)
    have last: "slice ?h 20 12 = drop 20 ?h" using assms by (simp add: slice_def)
    show ?thesis
      using step [of 0 8] step [of 8 4] step [of 12 4] step [of 16 4] by (simp add: last)
  qed
  then show ?thesis by (simp add: uuidv7_string_def keep Let_def)
qed

lemma parse_uuid_string: "length u = 16 \<Longrightarrow> parse_uuid (uuidv7_string u) = Inr u"
  using hex_string_digits [of _ u]
  by (simp add: parse_uuid_def uuidv7_string_filter list_all_iff)

lemma length_uuidv7_from [simp]: "length (uuidv7_from ts r) = 16"
  by (simp add: uuidv7_from_def Let_def)

lemma uuid_chars: "c \<in> set (uuidv7_string u) \<Longrightarrow> c \<notin> {dq, bsl, newline}"
  using hex_string_digits [of c u]
  by (auto simp: uuidv7_string_def slice_def Let_def dest!: in_set_takeD in_set_dropD)

section \<open>Parameters and mutations\<close>

datatype Param =
    PText string
  | PInt int
  | PBytes bytes
  | PNull

record Mutation =
  mutation_id :: bytes
  sql :: string
  params :: "Param list"

definition replace_char :: "char \<Rightarrow> string \<Rightarrow> string \<Rightarrow> string" where
  "replace_char c r s = concat (map (\<lambda>x. if x = c then r else [x]) s)"

definition Param_to_string :: "Param \<Rightarrow> string" where
  "Param_to_string p =
     (case p of
        PText s \<Rightarrow> [dq] @ replace_char dq [bsl, dq] (replace_char bsl [bsl, bsl] s) @ [dq]
      | PInt i \<Rightarrow> show_int i
      | PBytes b \<Rightarrow> [dq, bsl, bsl, CHR ''x''] @ hex_string b @ [dq]
      | PNull \<Rightarrow> ''null'')"

definition serde_json_lite_escape :: "string \<Rightarrow> string" where
  "serde_json_lite_escape s =
     [dq] @ concat (map (\<lambda>c. if c = dq then [bsl, dq] else if c = bsl then [bsl, bsl] else [c]) s) @ [dq]"

fun join_with :: "string \<Rightarrow> string list \<Rightarrow> string" where
  "join_with sep [] = []"
| "join_with sep [x] = x"
| "join_with sep (x # y # xs) = x @ sep @ join_with sep (y # xs)"

definition quoted :: "string \<Rightarrow> string" where "quoted s = [dq] @ s @ [dq]"

definition payload_json :: "Mutation \<Rightarrow> string" where
  "payload_json m =
     ''{'' @ quoted ''mutation_id'' @ '':'' @ quoted (uuidv7_string (mutation_id m))
     @ '','' @ quoted ''sql'' @ '':'' @ serde_json_lite_escape (sql m)
     @ '','' @ quoted ''params'' @ '':['' @ join_with '','' (map Param_to_string (params m)) @ '']}''"

text \<open>Both escapes are the same one-pass map.\<close>

lemma Text_escape: "Param_to_string (PText s) = serde_json_lite_escape s"
  by (induction s) (auto simp: Param_to_string_def serde_json_lite_escape_def replace_char_def)

section \<open>The parser of a payload line\<close>

text \<open>Rust's \<^verbatim>\<open>trim_start\<close> removes Unicode white space; \<open>ws_len\<close> is the length in bytes of the
  white-space character a string starts with, 0 if it starts with none.\<close>

definition ws_len :: "string \<Rightarrow> nat" where
  "ws_len s =
    (let b = map byte_of (take 3 s); b0 = b ! 0; b1 = b ! 1; b2 = b ! 2
     in if b = [] then 0
        else if b0 = 32 \<or> 9 \<le> b0 \<and> b0 \<le> 13 then 1
        else if length b < 2 then 0
        else if b0 = 194 \<and> (b1 = 133 \<or> b1 = 160) then 2
        else if length b < 3 then 0
        else if b = [225, 154, 128] \<or> b = [226, 129, 159] \<or> b = [227, 128, 128] then 3
        else if b0 = 226 \<and> b1 = 128 \<and> (128 \<le> b2 \<and> b2 \<le> 138 \<or> b2 \<in> {168, 169, 175}) then 3
        else 0)"

function trim_start :: "string \<Rightarrow> string" where
  "trim_start s = (if ws_len s = 0 then s else trim_start (drop (ws_len s) s))"
  by pat_completeness auto
termination
  by (relation "measure length") (auto simp: ws_len_def Let_def split: if_splits)

declare trim_start.simps [simp del]

lemma trim_start_id: "ws_len s = 0 \<Longrightarrow> trim_start s = s"
  by (simp add: trim_start.simps [of s])

text \<open>\<^verbatim>\<open>trim_end\<close>, by the same table: white space whose last byte ends the string.\<close>

definition ws_suffix_len :: "string \<Rightarrow> nat" where
  "ws_suffix_len s =
     (if 1 \<le> length s \<and> ws_len (drop (length s - 1) s) = 1 then 1
      else if 2 \<le> length s \<and> ws_len (drop (length s - 2) s) = 2 then 2
      else if 3 \<le> length s \<and> ws_len (drop (length s - 3) s) = 3 then 3
      else 0)"

function trim_end :: "string \<Rightarrow> string" where
  "trim_end s = (if ws_suffix_len s = 0 then s else trim_end (take (length s - ws_suffix_len s) s))"
  by pat_completeness auto
termination
  by (relation "measure length") (auto simp: ws_suffix_len_def split: if_splits)

declare trim_end.simps [simp del]

lemma trim_end_id: "ws_suffix_len s = 0 \<Longrightarrow> trim_end s = s"
  by (simp add: trim_end.simps [of s])

definition trim :: "string \<Rightarrow> string" where "trim s = trim_end (trim_start s)"

definition strip_prefix :: "char \<Rightarrow> string \<Rightarrow> string option" where
  "strip_prefix c s = (case s of [] \<Rightarrow> None | x # t \<Rightarrow> if x = c then Some t else None)"

definition utf8_len :: "char \<Rightarrow> nat" where
  "utf8_len c = (let n = byte_of c in
     if n \<le> 0x7F then 1 else if 0xC0 \<le> n \<and> n \<le> 0xDF then 2
     else if 0xE0 \<le> n \<and> n \<le> 0xEF then 3 else 4)"

lemma utf8_len_pos [simp]: "0 < utf8_len c"
  by (simp add: utf8_len_def Let_def)

text \<open>The loop of \<^verbatim>\<open>parse_json_string\<close> from index \<open>i\<close>, on the suffix that starts there.\<close>

function string_loop :: "string \<Rightarrow> string \<Rightarrow> nat \<Rightarrow> parse_error + (string \<times> nat)" where
  "string_loop [] out i = Inl Unclosed_string"
| "string_loop (c # b) out i =
     (if c = dq then Inr (out, i + 1)
      else if c = bsl then
        (case b of
           [] \<Rightarrow> Inl Unclosed_string
         | nxt # b' \<Rightarrow>
             if nxt = dq \<or> nxt = bsl then string_loop b' (out @ [nxt]) (i + 2)
             else Inl (Unknown_escape nxt))
      else let n = min (utf8_len c) (length (c # b))
           in string_loop (drop n (c # b)) (out @ take n (c # b)) (i + n))"
  by pat_completeness auto
termination
  by (relation "measure (\<lambda>(b, _, _). length b)") (auto simp: min_def)

declare string_loop.simps(2) [simp del]

definition parse_json_string :: "string \<Rightarrow> parse_error + (string \<times> nat)" where
  "parse_json_string s =
     (case s of [] \<Rightarrow> Inl Expected_string
      | c # b \<Rightarrow> if c \<noteq> dq then Inl Expected_string else string_loop b [] 1)"

definition parse_json_param :: "string \<Rightarrow> parse_error + (Param \<times> nat)" where
  "parse_json_param s =
    (let trimmed = trim_start s; off = length s - length trimmed
     in if take 4 trimmed = ''null'' then Inr (PNull, off + 4)
        else if take 1 trimmed = [dq] then
          (case parse_json_string trimmed of
             Inl e \<Rightarrow> Inl e
           | Inr (v, n) \<Rightarrow>
               (let hex = drop 2 v
                in if take 2 v = [bsl, CHR ''x''] \<and> length hex mod 2 = 0 \<and> hex \<noteq> []
                      \<and> list_all is_ascii_hexdigit hex
                   then Inr (PBytes (hex_pairs hex), off + n)
                   else Inr (PText v, off + n)))
        else let num = takeWhile (\<lambda>c. is_ascii_digit c \<or> c = CHR ''-'') trimmed
             in case parse_i64 num of
                  None \<Rightarrow> Inl Bad_number
                | Some i \<Rightarrow> Inr (PInt i, off + length num))"

text \<open>The loop of \<^verbatim>\<open>parse_json_array\<close>: \<open>rest\<close> is the input from the current element on, \<open>len\<close> the
  length of the whole slice, from which the count of consumed bytes is computed.\<close>

function array_loop :: "nat \<Rightarrow> string \<Rightarrow> Param list \<Rightarrow> parse_error + (Param list \<times> nat)" where
  "array_loop len rest out =
     (case parse_json_param rest of
        Inl e \<Rightarrow> Inl e
      | Inr (p, n) \<Rightarrow>
          (let rest' = trim_start (drop n rest)
           in if take 1 rest' = '']'' then Inr (out @ [p], len - length rest' + 1)
              else (case strip_prefix CHR '','' rest' of
                      None \<Rightarrow> Inl Missing_comma
                    | Some r \<Rightarrow> array_loop len (trim_start r) (out @ [p]))))"
  by pat_completeness auto

lemma length_trim_start: "length (trim_start s) \<le> length s"
proof (induction s rule: trim_start.induct)
  case (1 s)
  then show ?case by (subst trim_start.simps) (auto intro: order_trans)
qed

lemma strip_prefix_eq_Some [simp]: "strip_prefix c s = Some t \<longleftrightarrow> s = c # t"
  by (cases s) (auto simp: strip_prefix_def)

lemma strip_prefix_simps [simp]:
  "strip_prefix c [] = None" "strip_prefix c (x # t) = (if x = c then Some t else None)"
  by (simp_all add: strip_prefix_def)

lemma array_loop_decreases:
  assumes "trim_start (drop n rest) = c # r"
  shows "length (trim_start r) < length rest"
  using length_trim_start [of "drop n rest"] length_trim_start [of r] assms by simp

termination array_loop
  by (relation "measure (\<lambda>(_, rest, _). length rest)") (auto intro: array_loop_decreases)

declare array_loop.simps [simp del]

definition parse_json_array :: "string \<Rightarrow> parse_error + (Param list \<times> nat)" where
  "parse_json_array s =
     (case strip_prefix CHR ''['' (trim_start s) of
        None \<Rightarrow> Inl Missing_bracket
      | Some r \<Rightarrow>
          (let rest = trim_start r
           in if take 1 rest = '']'' then Inr ([], length s - length rest + 1)
              else array_loop (length s) rest []))"

text \<open>Any JSON value, to skip an unknown key: the text of a value is not used.\<close>

definition parse_json_value :: "string \<Rightarrow> parse_error + nat" where
  "parse_json_value s =
    (let trimmed = trim_start s; off = length s - length trimmed
     in if take 1 trimmed = [dq] then
          (case parse_json_string trimmed of Inl e \<Rightarrow> Inl e | Inr (_, n) \<Rightarrow> Inr (off + n))
        else if take 1 trimmed = ''['' then
          (case parse_json_array trimmed of Inl e \<Rightarrow> Inl e | Inr (_, n) \<Rightarrow> Inr (off + n))
        else if take 4 trimmed = ''null'' then Inr (off + 4)
        else Inr (off + length (takeWhile (\<lambda>c. c \<noteq> CHR '','' \<and> c \<noteq> CHR ''}'') trimmed)))"

text \<open>The three optional fields collected by the loop of \<^verbatim>\<open>parse_payload_json\<close>.\<close>

record payload_acc =
  p_id :: "bytes option"
  p_sql :: "string option"
  p_params :: "Param list option"

definition parse_value_of ::
  "string \<Rightarrow> string \<Rightarrow> payload_acc \<Rightarrow> parse_error + (payload_acc \<times> nat)"
where
  "parse_value_of key rest acc =
     (if key = ''mutation_id'' then
        (case parse_json_string rest of
           Inl e \<Rightarrow> Inl e
         | Inr (v, n) \<Rightarrow> (case parse_uuid v of
             Inl e \<Rightarrow> Inl e | Inr u \<Rightarrow> Inr (acc\<lparr>p_id := Some u\<rparr>, n)))
      else if key = ''sql'' then
        (case parse_json_string rest of
           Inl e \<Rightarrow> Inl e | Inr (v, n) \<Rightarrow> Inr (acc\<lparr>p_sql := Some v\<rparr>, n))
      else if key = ''params'' then
        (case parse_json_array rest of
           Inl e \<Rightarrow> Inl e | Inr (v, n) \<Rightarrow> Inr (acc\<lparr>p_params := Some v\<rparr>, n))
      else (case parse_json_value rest of Inl e \<Rightarrow> Inl e | Inr n \<Rightarrow> Inr (acc, n)))"

function payload_loop :: "string \<Rightarrow> payload_acc \<Rightarrow> parse_error + payload_acc" where
  "payload_loop rest acc =
     (if rest = [] then Inr acc
      else case parse_json_string rest of
        Inl e \<Rightarrow> Inl e
      | Inr (key, n) \<Rightarrow>
          (case strip_prefix CHR '':'' (trim_start (drop n rest)) of
             None \<Rightarrow> Inl Missing_colon
           | Some r \<Rightarrow>
               (case parse_value_of key (trim_start r) acc of
                  Inl e \<Rightarrow> Inl e
                | Inr (acc', k) \<Rightarrow>
                    (let r1 = trim_start (drop k (trim_start r));
                         r2 = (case strip_prefix CHR '','' r1 of Some t \<Rightarrow> trim_start t | None \<Rightarrow> r1)
                     in if take 1 r2 = ''}'' then Inr acc' else payload_loop r2 acc'))))"
  by pat_completeness auto

lemma payload_loop_decreases:
  assumes "trim_start (drop n rest) = c # r"
  shows "length (case strip_prefix d (trim_start (drop k (trim_start r))) of
           Some t \<Rightarrow> trim_start t | None \<Rightarrow> trim_start (drop k (trim_start r))) < length rest"
proof -
  let ?x = "trim_start (drop k (trim_start r))"
  have "length ?x \<le> length r"
    using length_trim_start [of "drop k (trim_start r)"] length_trim_start [of r] by simp
  moreover have "length r < length rest" using length_trim_start [of "drop n rest"] assms by simp
  moreover have "strip_prefix d ?x = Some t \<Longrightarrow> length (trim_start t) \<le> length ?x" for t
    using length_trim_start [of t] by simp
  ultimately show ?thesis by (fastforce split: option.split dest: order_le_less_trans)
qed

termination payload_loop
  by (relation "measure (\<lambda>(rest, _). length rest)") (auto intro: payload_loop_decreases)

declare payload_loop.simps [simp del]

definition parse_payload_json :: "string \<Rightarrow> parse_error + Mutation" where
  "parse_payload_json line =
     (case strip_prefix CHR ''{'' (trim line) of
        None \<Rightarrow> Inl Missing_brace
      | Some r \<Rightarrow>
          (case payload_loop (trim_start r) \<lparr>p_id = None, p_sql = None, p_params = None\<rparr> of
             Inl e \<Rightarrow> Inl e
           | Inr acc \<Rightarrow>
               (case p_id acc of
                  None \<Rightarrow> Inl Missing_mutation_id
                | Some u \<Rightarrow>
                    (case p_sql acc of
                       None \<Rightarrow> Inl Missing_sql
                     | Some q \<Rightarrow> Inr \<lparr>mutation_id = u, sql = q,
                         params = (case p_params acc of Some ps \<Rightarrow> ps | None \<Rightarrow> [])\<rparr>))))"

section \<open>Round trip of a payload line\<close>

text \<open>What Rust guarantees of a \<^verbatim>\<open>String\<close> and what \<^verbatim>\<open>from_utf8\<close> checks: every leading byte is followed
  by the continuation bytes it announces, with no overlong form, no surrogate and nothing above
  the last code point.\<close>

definition is_cont :: "char \<Rightarrow> bool" where
  "is_cont c \<longleftrightarrow> 128 \<le> byte_of c \<and> byte_of c \<le> 191"

definition scalar_start :: "char \<Rightarrow> string \<Rightarrow> bool" where
  "scalar_start c s \<longleftrightarrow>
     (let n = byte_of c; k = byte_of (hd s)
      in n < 128 \<or> s \<noteq> [] \<and> 194 \<le> n \<and> n \<le> 244 \<and> (n = 224 \<longrightarrow> 160 \<le> k) \<and> (n = 237 \<longrightarrow> k \<le> 159)
           \<and> (n = 240 \<longrightarrow> 144 \<le> k) \<and> (n = 244 \<longrightarrow> k \<le> 143))"

function utf8 :: "string \<Rightarrow> bool" where
  "utf8 [] \<longleftrightarrow> True"
| "utf8 (c # s) \<longleftrightarrow> scalar_start c s \<and> utf8_len c - 1 \<le> length s
     \<and> list_all is_cont (take (utf8_len c - 1) s) \<and> utf8 (drop (utf8_len c - 1) s)"
  by pat_completeness auto
termination by (relation "measure length") auto

declare utf8.simps(2) [simp del]

lemma scalar_start_ascii: "byte_of c < 128 \<Longrightarrow> scalar_start c s"
  by (simp add: scalar_start_def Let_def)

lemma scalar_start_append: "scalar_start c s \<Longrightarrow> scalar_start c (s @ t)"
  by (auto simp: scalar_start_def Let_def)

lemma scalar_start_take: "scalar_start c s \<Longrightarrow> scalar_start c (take (utf8_len c - 1) s)"
  by (cases s) (auto simp: scalar_start_def utf8_len_def Let_def)

definition escaped :: "string \<Rightarrow> string" where
  "escaped s = concat (map (\<lambda>c. if c = dq then [bsl, dq] else if c = bsl then [bsl, bsl] else [c]) s)"

lemma escape_escaped: "serde_json_lite_escape s = dq # escaped s @ [dq]"
  by (simp add: serde_json_lite_escape_def escaped_def)

lemma escaped_append [simp]: "escaped (a @ b) = escaped a @ escaped b"
  by (simp add: escaped_def)

lemma escaped_plain: "dq \<notin> set s \<Longrightarrow> bsl \<notin> set s \<Longrightarrow> escaped s = s"
  by (induction s) (auto simp: escaped_def)

lemma cont_plain: "list_all is_cont s \<Longrightarrow> dq \<notin> set s \<and> bsl \<notin> set s"
  by (auto simp: list_all_iff is_cont_def byte_of_def)

lemma utf8_len_meta [simp]: "utf8_len dq = 1" "utf8_len bsl = 1"
  by (simp_all add: utf8_len_def byte_of_def)

lemma string_loop_char:
  assumes "c \<noteq> dq" and "c \<noteq> bsl" and "utf8_len c = Suc (length a)"
  shows "string_loop (c # a @ b) out i = string_loop b (out @ c # a) (i + utf8_len c)"
proof -
  have "min (utf8_len c) (length (c # a @ b)) = Suc (length a)" using assms(3) by simp
  with assms show ?thesis by (subst string_loop.simps(2)) (simp only: Let_def, simp)
qed

lemma string_loop_escaped:
  "utf8 s \<Longrightarrow> string_loop (escaped s @ dq # rest) out i = Inr (out @ s, i + length (escaped s) + 1)"
proof (induction s arbitrary: out i rule: utf8.induct)
  case 1
  then show ?case by (simp add: escaped_def string_loop.simps(2))
next
  case (2 c s)
  let ?k = "utf8_len c - 1"
  have s: "s = take ?k s @ drop ?k s" by simp
  have k: "?k \<le> length s" "list_all is_cont (take ?k s)" "utf8 (drop ?k s)"
    using "2.prems" by (auto simp: utf8.simps)
  note IH = "2.IH" [OF k(3)]
  show ?case
  proof (cases "c = dq \<or> c = bsl")
    case True
    then have "escaped (c # s) = bsl # c # escaped s" by (auto simp: escaped_def)
    with True IH show ?thesis by (auto simp: string_loop.simps(2))
  next
    case False
    have "escaped (take ?k s) = take ?k s" using cont_plain [OF k(2)] by (simp add: escaped_plain)
    then have esc: "escaped (c # s) = c # take ?k s @ escaped (drop ?k s)"
      using False s escaped_append [of "take ?k s" "drop ?k s"] by (simp add: escaped_def)
    have len: "utf8_len c = Suc (length (take ?k s))" using utf8_len_pos [of c] k(1) by simp
    have "string_loop (c # take ?k s @ escaped (drop ?k s) @ dq # rest) out i
        = string_loop (escaped (drop ?k s) @ dq # rest) (out @ c # take ?k s) (i + utf8_len c)"
      using False by (intro string_loop_char len) auto
    with IH esc len k(1) show ?thesis by simp
  qed
qed

lemma parse_escape:
  "utf8 s \<Longrightarrow> parse_json_string (serde_json_lite_escape s @ rest) = Inr (s, length (serde_json_lite_escape s))"
  by (simp add: parse_json_string_def escape_escaped string_loop_escaped)

lemma ascii_utf8: "list_all (\<lambda>c. byte_of c < 128) s \<Longrightarrow> utf8 s"
  by (induction s) (auto simp: utf8.simps scalar_start_ascii utf8_len_def Let_def)

lemma parse_quoted:
  assumes "list_all (\<lambda>c. byte_of c < 128) s" and "dq \<notin> set s" and "bsl \<notin> set s"
  shows "parse_json_string (quoted s @ rest) = Inr (s, length s + 2)"
  using parse_escape [OF ascii_utf8 [OF assms(1)], of rest] assms(2,3)
  by (simp add: quoted_def escape_escaped escaped_plain)

lemma ws_len_ascii [simp]: "33 \<le> byte_of c \<Longrightarrow> byte_of c < 128 \<Longrightarrow> ws_len (c # s) = 0"
  by (simp add: ws_len_def Let_def)

lemma byte_literals [simp]:
  "byte_of dq = 34" "byte_of CHR '','' = 44" "byte_of CHR '':'' = 58" "byte_of CHR ''{'' = 123"
  "byte_of CHR ''}'' = 125" "byte_of CHR ''['' = 91" "byte_of CHR '']'' = 93" "byte_of CHR ''n'' = 110"
  "byte_of CHR ''-'' = 45" "byte_of bsl = 92" "byte_of CHR ''x'' = 120"
  by (simp_all add: byte_of_def)

lemma trim_start_Cons [simp]: "33 \<le> byte_of c \<Longrightarrow> byte_of c < 128 \<Longrightarrow> trim_start (c # s) = c # s"
  by (simp add: trim_start_id)

text \<open>What a parameter is read back as: text of the form \<^verbatim>\<open>\x\<close> followed by hexadecimal pairs comes
  back as bytes, and an empty byte string as the text \<^verbatim>\<open>\x\<close>; anything else as itself.\<close>

definition hex_lookalike :: "string \<Rightarrow> bool" where
  "hex_lookalike v \<longleftrightarrow> take 2 v = [bsl, CHR ''x''] \<and> length (drop 2 v) mod 2 = 0 \<and> drop 2 v \<noteq> []
     \<and> list_all is_ascii_hexdigit (drop 2 v)"

definition replayed :: "Param \<Rightarrow> Param" where
  "replayed p = (case p of
     PText s \<Rightarrow> if hex_lookalike s then PBytes (hex_pairs (drop 2 s)) else PText s
   | PBytes b \<Rightarrow> if b = [] then PText [bsl, CHR ''x''] else PBytes b
   | _ \<Rightarrow> p)"

definition Param_ok :: "Param \<Rightarrow> bool" where
  "Param_ok p = (case p of PText s \<Rightarrow> utf8 s | PInt i \<Rightarrow> in_i64 i | _ \<Rightarrow> True)"

lemma PBytes_escape:
  "Param_to_string (PBytes b) = serde_json_lite_escape ([bsl, CHR ''x''] @ hex_string b)"
proof -
  have "dq \<notin> set (hex_string b)" "bsl \<notin> set (hex_string b)" using hex_string_digits by auto
  then have "escaped (hex_string b) = hex_string b" by (rule escaped_plain)
  then show ?thesis by (simp add: Param_to_string_def escape_escaped escaped_def)
qed

lemma hex_ascii: "is_ascii_hexdigit c \<Longrightarrow> byte_of c < 128"
  by (auto simp: is_ascii_hexdigit_def hex_val_def Let_def split: if_splits)

lemma string_param:
  assumes "utf8 v"
  shows "parse_json_param (serde_json_lite_escape v @ rest) =
    Inr (if hex_lookalike v then PBytes (hex_pairs (drop 2 v)) else PText v, length (serde_json_lite_escape v))"
  using parse_escape [OF assms, of rest]
  by (auto simp: parse_json_param_def escape_escaped hex_lookalike_def Let_def)

lemma show_int_chars:
  "show_int i \<noteq> [] \<and> list_all (\<lambda>c. is_ascii_digit c \<or> c = CHR ''-'') (show_int i)"
proof -
  have "list_all (\<lambda>c. is_ascii_digit c \<or> c = CHR ''-'') (show_nat n)" for n
    using show_nat_digits [of n] by (auto simp: list_all_iff)
  then show ?thesis using show_nat_digits by (simp add: show_int_def)
qed

lemma int_param:
  assumes "in_i64 i" and "case rest of [] \<Rightarrow> True | c # _ \<Rightarrow> c = CHR '','' \<or> c = CHR '']''"
  shows "parse_json_param (show_int i @ rest) = Inr (PInt i, length (show_int i))"
proof -
  let ?num = "\<lambda>c. is_ascii_digit c \<or> c = CHR ''-''"
  obtain c t where s: "show_int i = c # t" and c: "?num c"
    using show_int_chars [of i] by (cases "show_int i") auto
  then have lit: "33 \<le> byte_of c" "byte_of c < 128" "c \<noteq> dq" "c \<noteq> CHR ''n''"
    by (auto simp: is_ascii_digit_def)
  have "takeWhile ?num (show_int i @ rest) = show_int i"
  proof -
    have "takeWhile ?num rest = []"
      using assms(2) by (cases rest) (auto simp: is_ascii_digit_def)
    then show ?thesis using show_int_chars [of i] by (simp add: takeWhile_append2 list_all_iff)
  qed
  with lit s parse_show_int [OF assms(1)] show ?thesis
    by (simp add: parse_json_param_def Let_def)
qed

lemma param_roundtrip:
  assumes "Param_ok p" and "case rest of [] \<Rightarrow> True | c # _ \<Rightarrow> c = CHR '','' \<or> c = CHR '']''"
  shows "parse_json_param (Param_to_string p @ rest) = Inr (replayed p, length (Param_to_string p))"
proof (cases p)
  case (PText s)
  with assms(1) string_param [of s rest] show ?thesis
    by (simp add: Text_escape Param_ok_def replayed_def)
next
  case (PInt i)
  with assms int_param [of i rest] show ?thesis
    by (simp add: Param_ok_def Param_to_string_def replayed_def)
next
  case (PBytes b)
  let ?v = "[bsl, CHR ''x''] @ hex_string b"
  have digits: "list_all is_ascii_hexdigit (hex_string b)"
    using hex_string_digits [of _ b] by (auto simp: list_all_iff)
  have "hex_string b = [] \<longleftrightarrow> b = []"
    by (cases b) (simp_all add: hex_string_def hex_byte_def)
  with digits have "hex_lookalike ?v \<longleftrightarrow> b \<noteq> []" by (simp add: hex_lookalike_def)
  moreover have "utf8 ?v"
    using digits hex_ascii by (intro ascii_utf8) (auto simp: list_all_iff)
  ultimately show ?thesis
    unfolding PBytes PBytes_escape using string_param [of ?v rest]
    by (cases "b = []") (simp_all add: replayed_def, simp add: hex_string_def)
next
  case PNull
  then show ?thesis by (simp add: Param_to_string_def parse_json_param_def replayed_def)
qed

lemma Param_string_head:
  "\<exists>c t. Param_to_string p = c # t \<and> 33 \<le> byte_of c \<and> byte_of c < 128 \<and> c \<noteq> CHR '']''"
proof (cases p)
  case (PInt i)
  obtain c t where "show_int i = c # t" "is_ascii_digit c \<or> c = CHR ''-''"
    using show_int_chars [of i] by (cases "show_int i") auto
  then show ?thesis using PInt by (auto simp: Param_to_string_def is_ascii_digit_def)
qed (simp_all add: Text_escape escape_escaped, simp_all add: Param_to_string_def)

lemma join_head:
  "\<exists>c t. join_with '','' (map Param_to_string (p # ps)) = c # t \<and> 33 \<le> byte_of c \<and> byte_of c < 128
     \<and> c \<noteq> CHR '']''"
  using Param_string_head [of p] by (cases ps) auto

lemma array_loop_join:
  assumes "list_all Param_ok (p # ps)" and "length rest < len"
  shows "array_loop len (join_with '','' (map Param_to_string (p # ps)) @ CHR '']'' # rest) out =
    Inr (out @ map replayed (p # ps), len - length rest)"
  using assms
proof (induction ps arbitrary: p out)
  case Nil
  then have "parse_json_param (Param_to_string p @ CHR '']'' # rest) = Inr (replayed p, length (Param_to_string p))"
    by (intro param_roundtrip) auto
  then show ?case using Nil.prems(2) by (subst array_loop.simps) (simp add: Let_def Suc_diff_Suc)
next
  case (Cons q qs)
  let ?more = "join_with '','' (map Param_to_string (q # qs)) @ CHR '']'' # rest"
  have "parse_json_param (Param_to_string p @ CHR '','' # ?more) = Inr (replayed p, length (Param_to_string p))"
    using Cons.prems by (intro param_roundtrip) auto
  moreover have "trim_start ?more = ?more"
    using join_head [of q qs] by auto
  ultimately show ?case
    using Cons.IH [of q "out @ [replayed p]"] Cons.prems by (subst array_loop.simps) (simp add: Let_def)
qed

lemma array_roundtrip:
  assumes "list_all Param_ok ps"
  shows "parse_json_array (CHR ''['' # join_with '','' (map Param_to_string ps) @ CHR '']'' # rest) =
    Inr (map replayed ps, length (join_with '','' (map Param_to_string ps)) + 2)"
proof (cases ps)
  case Nil
  then show ?thesis by (simp add: parse_json_array_def Let_def)
next
  case (Cons q qs)
  let ?j = "join_with '','' (map Param_to_string (q # qs))"
  obtain c t where c: "?j = c # t" "33 \<le> byte_of c" "byte_of c < 128" "c \<noteq> CHR '']''"
    using join_head [of q qs] by auto
  have "array_loop (length ?j + 2 + length rest) (?j @ CHR '']'' # rest) [] = Inr (map replayed (q # qs), length ?j + 2)"
    using array_loop_join [of q qs rest "length ?j + 2 + length rest" "[]"] assms Cons by simp
  with c Cons show ?thesis by (simp add: parse_json_array_def Let_def)
qed

definition Mutation_ok :: "Mutation \<Rightarrow> bool" where
  "Mutation_ok m \<longleftrightarrow> length (mutation_id m) = 16 \<and> utf8 (sql m) \<and> list_all Param_ok (params m)"

lemma parse_quoted_uuid:
  "length u = 16 \<Longrightarrow> parse_json_string (quoted (uuidv7_string u) @ rest) = Inr (uuidv7_string u, length (uuidv7_string u) + 2)"
proof (rule parse_quoted)
  show "list_all (\<lambda>c. byte_of c < 128) (uuidv7_string u)"
    using hex_string_digits [of _ u] hex_ascii
    by (auto simp: list_all_iff uuidv7_string_def Let_def slice_def dest!: in_set_takeD in_set_dropD)
qed (use uuid_chars in auto)

lemma field_step:
  assumes "parse_json_string (quoted k @ CHR '':'' # v @ CHR '','' # r) = Inr (k, length k + 2)"
    and "parse_value_of k (v @ CHR '','' # r) acc = Inr (acc', length v)"
    and "\<exists>c t. v = c # t \<and> 33 \<le> byte_of c \<and> byte_of c < 128" and "take 1 r = [dq]"
  shows "payload_loop (quoted k @ CHR '':'' # v @ CHR '','' # r) acc = payload_loop r acc'"
proof -
  obtain t where "r = dq # t" using assms(4) by (cases r) auto
  with assms(1-3) show ?thesis by (subst payload_loop.simps) (auto simp: quoted_def Let_def)
qed

lemma ws_suffix_ascii:
  assumes "33 \<le> byte_of c" and "byte_of c < 128"
  shows "ws_suffix_len (s @ [c]) = 0"
proof -
  have one: "ws_len [c] = 0" using assms by simp
  have two: "ws_len [x, c] \<noteq> 2" for x
    using assms by (simp add: ws_len_def Let_def)
  have three: "ws_len [x, y, c] \<noteq> 3" for x y
    using assms by (simp add: ws_len_def Let_def)
  have d2: "2 \<le> length (s @ [c]) \<Longrightarrow> \<exists>x. drop (length (s @ [c]) - 2) (s @ [c]) = [x, c]"
    by (cases s rule: rev_cases) auto
  have d3: "3 \<le> length (s @ [c]) \<Longrightarrow> \<exists>x y. drop (length (s @ [c]) - 3) (s @ [c]) = [x, y, c]"
    by (cases s rule: rev_cases; cases "butlast s" rule: rev_cases) auto
  show ?thesis unfolding ws_suffix_len_def using one two three d2 d3 by auto
qed

lemma payload_roundtrip:
  assumes "Mutation_ok m"
  shows "parse_payload_json (payload_json m) = Inr (m\<lparr>params := map replayed (params m)\<rparr>)"
proof -
  let ?id = "quoted (uuidv7_string (mutation_id m))" and ?sql = "serde_json_lite_escape (sql m)"
    and ?ps = "CHR ''['' # join_with '','' (map Param_to_string (params m)) @ '']''"
  let ?r3 = "quoted ''params'' @ CHR '':'' # ?ps @ ''}''"
  let ?r2 = "quoted ''sql'' @ CHR '':'' # ?sql @ CHR '','' # ?r3"
  let ?r1 = "quoted ''mutation_id'' @ CHR '':'' # ?id @ CHR '','' # ?r2"
  let ?a0 = "\<lparr>p_id = None, p_sql = None, p_params = None\<rparr>"
  have m: "length (mutation_id m) = 16" "utf8 (sql m)" "list_all Param_ok (params m)"
    using assms by (auto simp: Mutation_ok_def)
  have keys: "parse_json_string (quoted k @ rest) = Inr (k, length k + 2)"
    if "k \<in> {''mutation_id'', ''sql'', ''params''}" for k rest
    using that by (intro parse_quoted) (auto simp: byte_of_def)
  have "payload_loop ?r1 ?a0 = payload_loop ?r2 (?a0\<lparr>p_id := Some (mutation_id m)\<rparr>)"
  proof (rule field_step)
    show "parse_value_of ''mutation_id'' (?id @ CHR '','' # ?r2) ?a0
        = Inr (?a0\<lparr>p_id := Some (mutation_id m)\<rparr>, length ?id)"
      unfolding parse_value_of_def parse_quoted_uuid [OF m(1)]
      by (simp add: parse_uuid_string [OF m(1)], simp add: quoted_def)
  qed (use keys in simp, simp_all add: quoted_def)
  also have "\<dots> = payload_loop ?r3 (?a0\<lparr>p_id := Some (mutation_id m), p_sql := Some (sql m)\<rparr>)"
  proof (rule field_step)
    show "parse_value_of ''sql'' (?sql @ CHR '','' # ?r3) (?a0\<lparr>p_id := Some (mutation_id m)\<rparr>)
        = Inr (?a0\<lparr>p_id := Some (mutation_id m), p_sql := Some (sql m)\<rparr>, length ?sql)"
      unfolding parse_value_of_def parse_escape [OF m(2)] by simp
  qed (use keys in simp, simp_all add: quoted_def escape_escaped)
  also have "\<dots> = Inr \<lparr>p_id = Some (mutation_id m), p_sql = Some (sql m), p_params = Some (map replayed (params m))\<rparr>"
    using keys [of "''params''"] array_roundtrip [OF m(3), of "''}''"]
    by (subst payload_loop.simps) (simp add: parse_value_of_def quoted_def Let_def)
  finally have loop: "payload_loop ?r1 ?a0
      = Inr \<lparr>p_id = Some (mutation_id m), p_sql = Some (sql m), p_params = Some (map replayed (params m))\<rparr>" .
  have line: "payload_json m = CHR ''{'' # ?r1" by (simp add: payload_json_def)
  have "ws_suffix_len (payload_json m) = 0"
    using ws_suffix_ascii [of "CHR ''}''" "CHR ''{'' # butlast ?r1"]
    by (simp add: payload_json_def quoted_def butlast_append)
  then have "trim (payload_json m) = payload_json m"
    by (simp add: trim_def line trim_end_id)
  then show ?thesis
    using loop by (simp add: parse_payload_json_def line quoted_def)
qed

lemma replayed_id: "replayed p = p \<longleftrightarrow> (case p of PText s \<Rightarrow> \<not> hex_lookalike s | PBytes b \<Rightarrow> b \<noteq> [] | _ \<Rightarrow> True)"
  by (auto simp: replayed_def split: Param.splits)

section \<open>Identifiers sort by time\<close>

text \<open>Two numbers of equally many digits compare like their digit strings.\<close>

fun big_endian :: "nat \<Rightarrow> nat list \<Rightarrow> nat" where
  "big_endian B [] = 0"
| "big_endian B (d # ds) = d * B ^ length ds + big_endian B ds"

lemma big_endian_bound: "list_all (\<lambda>d. d < B) ds \<Longrightarrow> big_endian B ds < B ^ length ds"
proof (induction ds)
  case (Cons d ds)
  then have "d * B ^ length ds + big_endian B ds < (d + 1) * B ^ length ds" by simp
  also have "\<dots> \<le> B * B ^ length ds" using Cons.prems by (intro mult_le_mono1) simp
  finally show ?case by simp
qed simp

lemma big_endian_less_iff:
  assumes "length xs = length ys" and "list_all (\<lambda>d. d < B) xs" and "list_all (\<lambda>d. d < B) ys"
  shows "big_endian B xs < big_endian B ys \<longleftrightarrow> xs < ys"
  using assms
proof (induction xs ys rule: list_induct2)
  case (Cons x xs y ys)
  let ?P = "B ^ length xs"
  have bx: "big_endian B xs < ?P" and bys: "big_endian B ys < ?P"
    using Cons big_endian_bound [of B xs] big_endian_bound [of B ys] by auto
  have big: "a * ?P + u < b * ?P + v" if "a < b" "u < ?P" for a b u v
  proof -
    have "a * ?P + u < (a + 1) * ?P" using that(2) by simp
    also have "\<dots> \<le> b * ?P" using that(1) by (intro mult_le_mono1) simp
    finally show ?thesis by simp
  qed
  show ?case
    using Cons big [of x y "big_endian B xs" "big_endian B ys"]
      big [of y x "big_endian B ys" "big_endian B xs"] bx bys
    by (cases x y rule: linorder_cases) (auto simp: Cons.hyps(1) [symmetric])
qed simp

lemma map_less_iff:
  assumes "\<And>a b. a \<in> set xs \<Longrightarrow> b \<in> set ys \<Longrightarrow> f a < f b \<longleftrightarrow> a < b"
    and "\<And>a b. a \<in> set xs \<Longrightarrow> b \<in> set ys \<Longrightarrow> f a = f b \<longleftrightarrow> a = b"
    and "length xs = length ys"
  shows "map f xs < map f ys \<longleftrightarrow> xs < ys"
  using assms(3,1,2) by (induction xs ys rule: list_induct2) auto

lemma append_less:
  fixes xs ys :: "'a :: order list"
  shows "length xs = length ys \<Longrightarrow> xs < ys \<Longrightarrow> xs @ u < ys @ v"
  by (induction xs ys rule: list_induct2) auto

lemma append_less_same:
  fixes xs u v :: "'a :: order list"
  shows "u < v \<Longrightarrow> xs @ u < xs @ v"
  by (induction xs) auto

definition nibbles :: "bytes \<Rightarrow> nat list" where
  "nibbles b = concat (map (\<lambda>x. [unat x div 16, unat x mod 16]) b)"

lemma hex_string_nibbles: "hex_string b = map hex_digit (nibbles b)"
  by (induction b) (simp_all add: hex_string_def hex_byte_def nibbles_def)

lemma nibbles_bound: "list_all (\<lambda>d. d < 16) (nibbles b)"
  by (induction b) (simp_all add: nibbles_def)

lemma length_nibbles [simp]: "length (nibbles b) = 2 * length b"
  by (induction b) (simp_all add: nibbles_def)

lemma hex_digit_less: "a < 16 \<Longrightarrow> b < 16 \<Longrightarrow> hex_digit a < hex_digit b \<longleftrightarrow> a < b"
proof -
  have "\<forall>a \<in> set [0..<16]. \<forall>b \<in> set [0..<16]. hex_digit a < hex_digit b \<longleftrightarrow> a < b" by code_simp
  then show "a < 16 \<Longrightarrow> b < 16 \<Longrightarrow> hex_digit a < hex_digit b \<longleftrightarrow> a < b" by simp
qed

lemma hex_string_less_iff: "length a = length b \<Longrightarrow> hex_string a < hex_string b \<longleftrightarrow> nibbles a < nibbles b"
  unfolding hex_string_nibbles
  using nibbles_bound [of a] nibbles_bound [of b] hex_digit_less hex_val_digit
  by (intro map_less_iff) (auto simp: list_all_iff, metis option.inject)

lemma big_endian_nibbles: "big_endian 16 (nibbles b) = big_endian 256 (map unat b)"
proof (induction b)
  case (Cons x b)
  have pow: "(16 :: nat) ^ (2 * length b) = 256 ^ length b" by (simp add: power_mult)
  have "nibbles (x # b) = unat x div 16 # unat x mod 16 # nibbles b" by (simp add: nibbles_def)
  then have "big_endian 16 (nibbles (x # b))
      = unat x div 16 * (16 * 16 ^ (2 * length b)) + (unat x mod 16 * 16 ^ (2 * length b) + big_endian 16 (nibbles b))"
    by simp
  also have "\<dots> = (unat x div 16 * 16 + unat x mod 16) * 256 ^ length b + big_endian 16 (nibbles b)"
    unfolding pow by (simp only: add_mult_distrib mult.assoc add.assoc)
  finally have "big_endian 16 (nibbles (x # b)) = unat x * 256 ^ length b + big_endian 16 (nibbles b)"
    by simp
  then show ?case using Cons by simp
qed (simp add: nibbles_def)

lemma unat_byte: "unat (ucast (drop_bit k (w :: u64)) :: u8) = unat w div 2 ^ k mod 256"
  by (simp add: unsigned_ucast_eq unat_drop_bit_eq take_bit_eq_mod) (simp add: drop_bit_eq_div)

lemma unat_low_byte: "unat (ucast (w :: u64) :: u8) = unat w mod 256"
  using unat_byte [of 0 w] by simp

lemma six_digits:
  fixes n :: nat
  assumes "n = q1 * 256 + d0" and "q1 = q2 * 256 + d1" and "q2 = q3 * 256 + d2"
    and "q3 = q4 * 256 + d3" and "q4 = q5 * 256 + d4" and "q5 = 0 * 256 + d5"
  shows "d5 * 256 ^ 5 + (d4 * 256 ^ 4 + (d3 * 256 ^ 3 + (d2 * 256 ^ 2 + (d1 * 256 + d0)))) = n"
  using assms by simp

lemma big_endian_be64:
  assumes "unat w < 2 ^ 48"
  shows "big_endian 256 (map unat (drop 2 (be64 w))) = unat w"
proof -
  let ?n = "unat w"
  have split: "?n div 256 ^ k = ?n div 256 ^ (Suc k) * 256 + ?n div 256 ^ k mod 256" for k
  proof -
    have "?n div 256 ^ (Suc k) = ?n div 256 ^ k div 256" by (metis div_mult2_eq power_Suc2)
    then show ?thesis by simp
  qed
  have top: "?n div 256 ^ 6 = 0" using assms by simp
  have eq: "big_endian 256 (map unat (drop 2 (be64 w))) =
    ?n div 256 ^ 5 mod 256 * 256 ^ 5 + (?n div 256 ^ 4 mod 256 * 256 ^ 4 + (?n div 256 ^ 3 mod 256 * 256 ^ 3
      + (?n div 256 ^ 2 mod 256 * 256 ^ 2 + (?n div 256 mod 256 * 256 + ?n mod 256))))"
    by (simp add: be64_def unat_byte unat_low_byte unat_drop_bit_eq) (simp add: drop_bit_eq_div)
  show ?thesis unfolding eq
  proof (rule six_digits)
    show "?n = ?n div 256 * 256 + ?n mod 256" by simp
    show "?n div 256 = ?n div 256 ^ 2 * 256 + ?n div 256 mod 256" using split [of 1] by simp
    show "?n div 256 ^ 5 = 0 * 256 + ?n div 256 ^ 5 mod 256" using split [of 5] top by simp
  qed (use split [of 2] split [of 3] split [of 4] in simp_all)
qed

lemma uuidv7_time_bytes: "take 6 (uuidv7_from ts r) = drop 2 (be64 ts)"
  by (intro nth_equalityI)
    (auto simp: uuidv7_from_def Let_def nth_copy_at be64_def nth_list_update nth_Cons')

lemma uuidv7_string_parts:
  "length u = 16 \<Longrightarrow> \<exists>t. uuidv7_string u =
     take 8 (hex_string (take 6 u)) @ ''-'' @ drop 8 (hex_string (take 6 u)) @ t"
proof -
  assume u: "length u = 16"
  have h: "hex_string u = hex_string (take 6 u) @ hex_string (drop 6 u)"
    by (metis append_take_drop_id concat_append hex_string_def map_append)
  show ?thesis
    using u by (simp add: uuidv7_string_def Let_def slice_def h)
qed

lemma less_split:
  fixes a b :: "'a :: linorder list"
  assumes "length a = length b" and "a < b"
  shows "take n a < take n b \<or> take n a = take n b \<and> drop n a < drop n b"
  using assms
proof (induction n arbitrary: a b)
  case (Suc n)
  then show ?case by (cases a; cases b) auto
qed simp

lemma uuidv7_chronological:
  assumes "unat ts < unat ts'" and "unat ts' < 2 ^ 48"
  shows "uuidv7_string (uuidv7_from ts r) < uuidv7_string (uuidv7_from ts' r')"
proof -
  let ?h = "hex_string (take 6 (uuidv7_from ts r))" and ?h' = "hex_string (take 6 (uuidv7_from ts' r'))"
  have "big_endian 256 (map unat (take 6 (uuidv7_from ts r)))
      < big_endian 256 (map unat (take 6 (uuidv7_from ts' r')))"
    using assms by (simp add: uuidv7_time_bytes big_endian_be64)
  then have "nibbles (take 6 (uuidv7_from ts r)) < nibbles (take 6 (uuidv7_from ts' r'))"
    using big_endian_less_iff [OF _ nibbles_bound nibbles_bound]
    by (simp flip: big_endian_nibbles)
  then have less: "?h < ?h'" by (simp add: hex_string_less_iff)
  obtain t t' where
    "uuidv7_string (uuidv7_from ts r) = take 8 ?h @ ''-'' @ drop 8 ?h @ t"
    "uuidv7_string (uuidv7_from ts' r') = take 8 ?h' @ ''-'' @ drop 8 ?h' @ t'"
    using uuidv7_string_parts [OF length_uuidv7_from] by metis
  moreover have "drop 8 ?h < drop 8 ?h' \<Longrightarrow> drop 8 ?h @ t < drop 8 ?h' @ t'"
    by (rule append_less) simp_all
  moreover have "take 8 ?h < take 8 ?h' \<Longrightarrow> take 8 ?h @ u < take 8 ?h' @ v" for u v
    by (rule append_less) simp_all
  ultimately show ?thesis
    using less_split [OF _ less, of 8] by (auto intro!: append_less_same)
qed

section \<open>Properties of the log line\<close>

text \<open>C6. A mutation read back from its log line is the mutation written, except that each
  parameter is what \<open>replayed\<close> says: a text of the form \<^verbatim>\<open>\x\<close> with hexadecimal pairs comes back as
  bytes, and empty bytes as a text; every other parameter comes back unchanged.\<close>

theorem log_line_roundtrip:
  assumes "Mutation_ok m"
  shows "parse_payload_json (payload_json m) = Inr (m\<lparr>params := map replayed (params m)\<rparr>)"
  using assms by (rule payload_roundtrip)

theorem log_line_roundtrip_witness:
  "parse_payload_json (payload_json
      \<lparr>mutation_id = uuidv7_from 5 6, sql = ''UPDATE t'',
       params = [PText [bsl, CHR ''x'', CHR ''4'', CHR ''1''], PInt (-3), PBytes [], PNull, PText [dq, bsl]]\<rparr>) =
    Inr \<lparr>mutation_id = uuidv7_from 5 6, sql = ''UPDATE t'',
       params = [PBytes [65], PInt (-3), PText [bsl, CHR ''x''], PNull, PText [dq, bsl]]\<rparr>"
proof -
  have "is_ascii_hexdigit CHR ''4'' \<and> is_ascii_hexdigit CHR ''1'' \<and> hex_pairs ''41'' = [65]" by code_simp
  then show ?thesis
    using log_line_roundtrip [of "\<lparr>mutation_id = uuidv7_from 5 6, sql = ''UPDATE t'',
       params = [PText [bsl, CHR ''x'', CHR ''4'', CHR ''1''], PInt (-3), PBytes [], PNull, PText [dq, bsl]]\<rparr>"]
    by (simp add: Mutation_ok_def Param_ok_def replayed_def hex_lookalike_def in_i64_def i64_min_def
        i64_max_def ascii_utf8 byte_of_def)
qed

text \<open>Identifiers and file names sort by time: the canonical form of a uuidv7 with an earlier
  millisecond is smaller in the byte order of the file names, whatever the random parts.\<close>

theorem uuids_sort_by_time:
  assumes "unat ts < unat ts'" and "unat ts' < 2 ^ 48"
  shows "uuidv7_string (uuidv7_from ts r) < uuidv7_string (uuidv7_from ts' r')
    \<and> parse_uuid (uuidv7_string (uuidv7_from ts r)) = Inr (uuidv7_from ts r)"
  using assms by (simp add: uuidv7_chronological parse_uuid_string)

theorem uuids_sort_by_time_witness:
  "uuidv7_string (uuidv7_from 255 77) < uuidv7_string (uuidv7_from 256 0)
    \<and> parse_uuid (uuidv7_string (uuidv7_from 255 77)) = Inr (uuidv7_from 255 77)"
  by (rule uuids_sort_by_time) simp_all

end
