(* ===== verification/Batcher.thy ===== *)
theory Batcher
  imports Mutation
begin

text \<open>
  The batching worker of the durable pipeline (\<^verbatim>\<open>database/src/wal.rs\<close>, \<^verbatim>\<open>MutationSink\<close> and
  \<^verbatim>\<open>Batcher\<close>): mutations arrive on a channel and are handed to a sink in batches, closed by size,
  by silence on the channel, or by an explicit flush whose caller waits for the result. The
  trait \<^verbatim>\<open>MutationSink\<close> is a locale, against which the worker's guarantees are proved.
\<close>

section \<open>The interface of a sink\<close>

text \<open>
  A sink applies a batch in one transaction. \<open>applied\<close> is the sequence of mutations that are in
  effect; the contract is atomicity: success puts the whole batch in effect, and an error
  leaves either nothing or, when only the acknowledgement of the commit was lost, the whole batch.
\<close>

type_synonym 's sink = "'s \<Rightarrow> Mutation list \<Rightarrow> (string + unit) \<times> 's"

locale mutation_sink =
  fixes apply_batch :: "'s sink"
    and applied :: "'s \<Rightarrow> Mutation list"
  assumes commit: "apply_batch s b = (Inr u, s') \<Longrightarrow> applied s' = applied s @ b"
    and atomic: "apply_batch s b = (Inl e, s') \<Longrightarrow> applied s' = applied s \<or> applied s' = applied s @ b"

section \<open>The worker\<close>

text \<open>
  What the worker sees of the channel: a mutation, a flush with the channel of its
  acknowledgement (here its number), or that \<open>flush_interval\<close> passed while it was waiting for the
  next message of an open batch. The end of the list is the closed channel.
\<close>

datatype event = EvM Mutation | EvFlush nat | EvTimeout

text \<open>The inner loop: extend an open batch up to \<open>max_batch\<close>.\<close>

fun accumulate :: "nat \<Rightarrow> event list \<Rightarrow> Mutation list \<Rightarrow> Mutation list \<times> nat option \<times> event list" where
  "accumulate max_batch evs batch =
     (if length batch < max_batch then
        (case evs of
           EvM m # evs' \<Rightarrow> accumulate max_batch evs' (batch @ [m])
         | EvFlush ack # evs' \<Rightarrow> (batch, Some ack, evs')
         | EvTimeout # evs' \<Rightarrow> (batch, None, evs')
         | [] \<Rightarrow> (batch, None, []))
      else (batch, None, evs))"

declare accumulate.simps [simp del]

lemma accumulate_shorter: "accumulate k evs b = (b', ack, rest) \<Longrightarrow> length rest \<le> length evs"
proof (induction evs arbitrary: b)
  case Nil
  then show ?case by (subst (asm) accumulate.simps) (auto split: if_splits)
next
  case (Cons e evs)
  then show ?case
    by (subst (asm) accumulate.simps) (fastforce split: if_splits event.splits)
qed

text \<open>The worker's state: the sink, the results of the batches in order, and the
  acknowledgements sent.\<close>

record 's worker =
  sink_state :: 's
  batches :: "(Mutation list \<times> (string + unit)) list"
  acks :: "(nat \<times> (string + unit)) list"

text \<open>The outer loop. No timer runs while no batch is open, so a timeout there is skipped.\<close>

function run :: "'s sink \<Rightarrow> nat \<Rightarrow> event list \<Rightarrow> 's worker \<Rightarrow> 's worker" where
  "run apply_batch max_batch [] w = w"
| "run apply_batch max_batch (EvTimeout # evs) w = run apply_batch max_batch evs w"
| "run apply_batch max_batch (EvFlush ack # evs) w =
     run apply_batch max_batch evs (w\<lparr>acks := acks w @ [(ack, Inr ())]\<rparr>)"
| "run apply_batch max_batch (EvM m # evs) w =
     (let (batch, flush_ack, rest) = accumulate max_batch evs [m];
          (result, s') = apply_batch (sink_state w) batch;
          w' = w\<lparr>sink_state := s', batches := batches w @ [(batch, result)]\<rparr>
      in run apply_batch max_batch rest
           (case flush_ack of Some ack \<Rightarrow> w'\<lparr>acks := acks w' @ [(ack, result)]\<rparr> | None \<Rightarrow> w'))"
  by pat_completeness auto
termination
  by (relation "measure (\<lambda>(_, _, evs, _). length evs)")
    (auto dest: accumulate_shorter [OF sym] simp: less_Suc_eq_le)

definition spawn :: "'s \<Rightarrow> 's worker" where
  "spawn s = \<lparr>sink_state = s, batches = [], acks = []\<rparr>"

definition handed :: "'s worker \<Rightarrow> Mutation list list" where
  "handed w = map fst (batches w)"

text \<open>The mutations and the flushes of an event list, in order.\<close>

fun muts :: "event list \<Rightarrow> Mutation list" where
  "muts [] = []"
| "muts (EvM m # evs) = m # muts evs"
| "muts (_ # evs) = muts evs"

fun flushes :: "event list \<Rightarrow> nat list" where
  "flushes [] = []"
| "flushes (EvFlush a # evs) = a # flushes evs"
| "flushes (_ # evs) = flushes evs"

lemma accumulate_spec:
  assumes "accumulate k evs b = (b', ack, rest)"
  shows "b' @ muts rest = b @ muts evs
    \<and> (case ack of Some a \<Rightarrow> a # flushes rest = flushes evs | None \<Rightarrow> flushes rest = flushes evs)
    \<and> length b \<le> length b' \<and> length b' \<le> max (length b) k"
  using assms
proof (induction evs arbitrary: b)
  case Nil
  then show ?case by (subst (asm) accumulate.simps) (auto split: if_splits)
next
  case (Cons e evs)
  show ?case
  proof (cases "length b < k \<and> (\<exists>m. e = EvM m)")
    case True
    then obtain m where m: "e = EvM m" by auto
    with True Cons.prems have "accumulate k evs (b @ [m]) = (b', ack, rest)"
      by (subst (asm) accumulate.simps) simp
    from Cons.IH [OF this] m True show ?thesis by (auto split: option.splits)
  next
    case False
    with Cons.prems show ?thesis
      by (subst (asm) accumulate.simps) (auto split: if_splits event.splits)
  qed
qed

text \<open>What every batch and every acknowledgement preserve, the worker preserves.\<close>

lemma run_invariant:
  assumes batch: "\<And>w b r s' a. P w \<Longrightarrow> f (sink_state w) b = (r, s') \<Longrightarrow>
      P (w\<lparr>sink_state := s', batches := batches w @ [(b, r)], acks := a\<rparr>)"
    and ack: "\<And>w a. P w \<Longrightarrow> P (w\<lparr>acks := a\<rparr>)"
  shows "P w \<Longrightarrow> P (run f k evs w)"
proof (induction "length evs" arbitrary: evs w rule: less_induct)
  case less
  show ?case
  proof (cases evs)
    case (Cons e es)
    show ?thesis
    proof (cases e)
      case (EvM m)
      obtain b ack' rest where acc: "accumulate k es [m] = (b, ack', rest)"
        by (cases "accumulate k es [m]")
      obtain r s' where ap: "f (sink_state w) b = (r, s')" by (cases "f (sink_state w) b")
      define w' where "w' = w\<lparr>sink_state := s', batches := batches w @ [(b, r)],
        acks := (case ack' of Some a \<Rightarrow> acks w @ [(a, r)] | None \<Rightarrow> acks w)\<rparr>"
      have "P w'" unfolding w'_def by (rule batch [OF less.prems ap])
      then have "P (run f k rest w')"
        using less.hyps accumulate_shorter [OF acc] Cons by simp
      moreover have "run f k evs w = run f k rest w'"
        by (cases ack') (simp_all add: Cons EvM acc ap w'_def)
      ultimately show ?thesis by simp
    qed (use less Cons ack in simp_all)
  qed (use less in simp)
qed

lemma run_spec:
  "concat (handed (run f k evs w)) = concat (handed w) @ muts evs
   \<and> map fst (acks (run f k evs w)) = map fst (acks w) @ flushes evs
   \<and> (list_all (\<lambda>b. b \<noteq> [] \<and> length b \<le> max 1 k) (handed w) \<longrightarrow>
      list_all (\<lambda>b. b \<noteq> [] \<and> length b \<le> max 1 k) (handed (run f k evs w)))"
proof (induction f k evs w rule: run.induct)
  case (4 f k m evs w)
  obtain b ack rest where acc: "accumulate k evs [m] = (b, ack, rest)"
    by (cases "accumulate k evs [m]")
  obtain r s' where ap: "f (sink_state w) b = (r, s')" by (cases "f (sink_state w) b")
  have spec: "b @ muts rest = m # muts evs" "b \<noteq> []" "length b \<le> max 1 k"
    "case ack of Some a \<Rightarrow> a # flushes rest = flushes evs | None \<Rightarrow> flushes rest = flushes evs"
    using accumulate_spec [OF acc] by auto
  from "4.IH" [OF acc [symmetric] refl refl ap [symmetric] refl refl] spec acc ap show ?case
    by (auto simp: handed_def Let_def split: option.splits)
qed (auto simp: handed_def)

section \<open>What reaches the database\<close>

definition succeeded :: "(Mutation list \<times> (string + unit)) list \<Rightarrow> Mutation list list" where
  "succeeded bs = map fst (filter (\<lambda>(_, r). r = Inr ()) bs)"

lemma succeeded_append [simp]: "succeeded (a @ b) = succeeded a @ succeeded b"
  by (simp add: succeeded_def)

lemma subseq_snoc: "subseq xs ys \<Longrightarrow> subseq xs (ys @ [y])"
  using list_emb_append_mono [of "(=)" xs ys "[]" "[y]"] by simp

lemma subseq_concat: "subseq xs ys \<Longrightarrow> subseq (concat xs) (concat ys)"
  by (induction rule: list_emb.induct) (auto intro: list_emb_append_mono)

context mutation_sink
begin

text \<open>The batches in effect are those that succeeded and possibly some whose error came after
  the commit, in the order they were handed over.\<close>

definition reflects :: "Mutation list \<Rightarrow> 's worker \<Rightarrow> bool" where
  "reflects before w \<longleftrightarrow> (\<exists>bs. subseq (succeeded (batches w)) bs \<and> subseq bs (handed w)
     \<and> applied (sink_state w) = before @ concat bs)"

lemma reflects_step:
  assumes "reflects before w" and "apply_batch (sink_state w) b = (r, s')"
  shows "reflects before (w\<lparr>sink_state := s', batches := batches w @ [(b, r)], acks := a\<rparr>)"
proof -
  obtain bs where bs: "subseq (succeeded (batches w)) bs" "subseq bs (handed w)"
    "applied (sink_state w) = before @ concat bs" using assms(1) by (auto simp: reflects_def)
  have skip: "subseq bs (handed w @ [b])" using bs(2) by (rule subseq_snoc)
  have take: "subseq (bs @ [b]) (handed w @ [b])" using bs(2) by (simp add: list_emb_append_mono)
  have succ: "subseq (succeeded (batches w) @ [b]) (bs @ [b])" "subseq (succeeded (batches w)) (bs @ [b])"
    using bs(1) by (simp_all add: list_emb_append_mono subseq_snoc)
  consider u where "r = Inr u" | e where "r = Inl e" "applied s' = applied (sink_state w)"
    | e where "r = Inl e" "applied s' = applied (sink_state w) @ b"
    using assms(2) atomic by (cases r) blast+
  then show ?thesis
  proof cases
    case 1
    with assms(2) commit bs(3) have "applied s' = before @ concat (bs @ [b])" by simp
    with 1 succ take show ?thesis
      unfolding reflects_def by (intro exI [of _ "bs @ [b]"]) (simp add: succeeded_def handed_def)
  next
    case 2
    with bs skip show ?thesis
      unfolding reflects_def by (intro exI [of _ bs]) (simp add: succeeded_def handed_def)
  next
    case 3
    with bs(3) have "applied s' = before @ concat (bs @ [b])" by simp
    with 3 succ take show ?thesis
      unfolding reflects_def by (intro exI [of _ "bs @ [b]"]) (simp add: succeeded_def handed_def)
  qed
qed

lemma reflects_acks: "reflects before w \<Longrightarrow> reflects before (w\<lparr>acks := a\<rparr>)"
  by (simp add: reflects_def handed_def)

lemma run_reflects: "reflects before w \<Longrightarrow> reflects before (run apply_batch k evs w)"
  by (rule run_invariant [where P = "reflects before"]) (auto intro: reflects_step reflects_acks)

lemma spawn_reflects: "reflects (applied s) (spawn s)"
  unfolding reflects_def by (intro exI [of _ "[]"]) (simp add: spawn_def succeeded_def handed_def)

text \<open>At most once, in order, and exactly once when every batch is confirmed.\<close>

lemma run_subseq:
  "\<exists>ms. applied (sink_state (run apply_batch k evs (spawn s))) = applied s @ ms \<and> subseq ms (muts evs)"
proof -
  let ?w = "run apply_batch k evs (spawn s)"
  obtain bs where bs: "subseq bs (handed ?w)" "applied (sink_state ?w) = applied s @ concat bs"
    using run_reflects [OF spawn_reflects [of s], of k evs] unfolding reflects_def by blast
  have "subseq (concat bs) (concat (handed ?w))"
    using bs(1) by (rule subseq_concat)
  with bs(2) run_spec [of apply_batch k evs "spawn s"] show ?thesis
    by (auto simp: spawn_def handed_def)
qed

lemma run_all_confirmed:
  assumes "list_all (\<lambda>(_, r). r = Inr ()) (batches (run apply_batch k evs (spawn s)))"
  shows "applied (sink_state (run apply_batch k evs (spawn s))) = applied s @ muts evs"
proof -
  let ?w = "run apply_batch k evs (spawn s)"
  have "succeeded (batches ?w) = handed ?w"
    using assms by (simp add: succeeded_def handed_def list_all_iff filter_id_conv)
  then obtain bs where "bs = handed ?w" "applied (sink_state ?w) = applied s @ concat bs"
    using run_reflects [OF spawn_reflects [of s], of k evs]
    by (auto simp: reflects_def dest: subseq_order.antisym)
  with run_spec [of apply_batch k evs "spawn s"] show ?thesis
    by (simp add: spawn_def handed_def)
qed

end

section \<open>Units and flushes\<close>

text \<open>How a run of mutations is cut: while there is room they join the open batch.\<close>

lemma accumulate_room:
  "length b + length ms < k \<Longrightarrow> accumulate k (map EvM ms @ evs) b = accumulate k evs (b @ ms)"
proof (induction ms arbitrary: b)
  case (Cons m ms)
  then show ?case by (subst accumulate.simps) simp
qed simp

lemma accumulate_fill:
  assumes "length b + length ms = k" and "length b < k"
  shows "accumulate k (map EvM ms @ evs) b = (b @ ms, None, evs)"
proof -
  obtain ms' m where ms: "ms = ms' @ [m]" using assms by (cases ms rule: rev_cases) auto
  then have "accumulate k (map EvM ms @ evs) b = accumulate k (EvM m # evs) (b @ ms')"
    using assms accumulate_room [of b ms' k "EvM m # evs"] by simp
  also have "\<dots> = accumulate k evs (b @ ms)"
    using assms ms by (subst accumulate.simps) simp
  also have "\<dots> = (b @ ms, None, evs)"
    using assms by (subst accumulate.simps) simp
  finally show ?thesis .
qed

lemma run_batch:
  assumes "ms \<noteq> []" and "length ms < k" and "f (sink_state w) ms = (r, s')"
  shows "run f k (map EvM ms @ EvFlush a # evs) w =
    run f k evs (w\<lparr>sink_state := s', batches := batches w @ [(ms, r)], acks := acks w @ [(a, r)]\<rparr>)"
proof -
  obtain m ms' where ms: "ms = m # ms'" using assms(1) by (cases ms) auto
  have "accumulate k (map EvM ms' @ EvFlush a # evs) [m] = (ms, Some a, evs)"
    using assms(2) ms accumulate_room [of "[m]" ms' k "EvFlush a # evs"]
    by (simp add: accumulate.simps [of k "EvFlush a # evs"])
  with assms(3) ms show ?thesis by simp
qed

lemma run_full:
  assumes "ms \<noteq> []" and "length ms = k" and "f (sink_state w) ms = (r, s')"
  shows "run f k (map EvM ms @ evs) w = run f k evs (w\<lparr>sink_state := s', batches := batches w @ [(ms, r)]\<rparr>)"
proof -
  obtain m ms' where ms: "ms = m # ms'" using assms(1) by (cases ms) auto
  have "accumulate k (map EvM ms' @ evs) [m] = (ms, None, evs)"
  proof (cases "ms' = []")
    case True
    with assms(2) ms show ?thesis by (subst accumulate.simps) simp
  next
    case False
    with assms(2) ms accumulate_fill [of "[m]" ms' k evs] show ?thesis by (cases ms') auto
  qed
  with assms(3) ms show ?thesis by simp
qed

text \<open>C5. The worker loses, repeats and reorders nothing: the batches it hands to the sink are, one
  after the other, exactly the mutations pushed, each batch has between 1 and \<open>max_batch\<close> of them, and
  every flush is acknowledged exactly once, in order, whatever the sink does.\<close>

theorem batcher_conserves:
  "concat (handed (run f max_batch evs (spawn s))) = muts evs
   \<and> list_all (\<lambda>b. b \<noteq> [] \<and> length b \<le> max 1 max_batch) (handed (run f max_batch evs (spawn s)))
   \<and> map fst (acks (run f max_batch evs (spawn s))) = flushes evs"
  using run_spec [of f max_batch evs "spawn s"] by (simp add: spawn_def handed_def)

text \<open>The unit of work as documented: mutations pushed on an idle worker, fewer than
  \<open>max_batch\<close>, and then flushed, are one batch, and the flush gets the result of that batch.\<close>

theorem unit_is_one_batch:
  assumes "unit \<noteq> []" and "length unit < max_batch" and "f (sink_state w) unit = (r, s')"
  shows "run f max_batch (map EvM unit @ EvFlush a # evs) w =
    run f max_batch evs
      (w\<lparr>sink_state := s', batches := batches w @ [(unit, r)], acks := acks w @ [(a, r)]\<rparr>)"
  using assms by (rule run_batch)

definition sample :: "nat \<Rightarrow> Mutation" where
  "sample n = \<lparr>mutation_id = uuidv7_from (of_nat n) 0, sql = ''SELECT 1'', params = [PInt (int n)]\<rparr>"

definition failing :: "unit sink" where "failing s b = (Inl ''COMMIT'', s)"

theorem unit_is_one_batch_witness:
  "run failing 64 (map EvM [sample 1, sample 2] @ EvFlush 7 # []) (spawn ()) =
     \<lparr>sink_state = (), batches = [([sample 1, sample 2], Inl ''COMMIT'')], acks = [(7, Inl ''COMMIT'')]\<rparr>"
  by (subst unit_is_one_batch [where r = "Inl ''COMMIT''" and s' = "()"])
    (simp_all add: failing_def spawn_def)

text \<open>The edge of that contract: a unit of exactly \<open>max_batch\<close> mutations is closed by size, so
  the flush that follows finds no open batch and is acknowledged with success, also when the
  batch of the unit failed.\<close>

theorem full_unit_flush_is_blind:
  assumes "unit \<noteq> []" and "length unit = max_batch" and "f (sink_state w) unit = (Inl e, s')"
  shows "run f max_batch (map EvM unit @ EvFlush a # evs) w =
    run f max_batch evs
      (w\<lparr>sink_state := s', batches := batches w @ [(unit, Inl e)], acks := acks w @ [(a, Inr ())]\<rparr>)"
  using run_full [of unit max_batch f w "Inl e" s' "EvFlush a # evs"] assms by simp

theorem full_unit_flush_is_blind_witness:
  "run failing 2 (map EvM [sample 1, sample 2] @ EvFlush 7 # []) (spawn ()) =
     \<lparr>sink_state = (), batches = [([sample 1, sample 2], Inl ''COMMIT'')], acks = [(7, Inr ())]\<rparr>"
  by (subst full_unit_flush_is_blind [where e = "''COMMIT''" and s' = "()"])
    (simp_all add: failing_def spawn_def)

text \<open>The worker is shared: when mutations of others are already in the open batch, a unit
  that no longer fits is cut in two transactions, although it is smaller than \<open>max_batch\<close>, and its
  flush reports only the second.\<close>

theorem shared_batch_splits_unit:
  assumes "others \<noteq> []" and "length (others @ front) = max_batch" and "back \<noteq> []" and "length back < max_batch"
    and "f (sink_state w) (others @ front) = (r1, s1)" and "f s1 back = (r2, s2)"
  shows "run f max_batch (map EvM others @ map EvM (front @ back) @ EvFlush a # evs) w =
    run f max_batch evs
      (w\<lparr>sink_state := s2, batches := batches w @ [(others @ front, r1), (back, r2)],
         acks := acks w @ [(a, r2)]\<rparr>)"
proof -
  let ?w1 = "w\<lparr>sink_state := s1, batches := batches w @ [(others @ front, r1)]\<rparr>"
  have "run f max_batch (map EvM (others @ front) @ (map EvM back @ EvFlush a # evs)) w =
      run f max_batch (map EvM back @ EvFlush a # evs) ?w1"
    using assms by (intro run_full) auto
  also have "\<dots> = run f max_batch evs (?w1\<lparr>sink_state := s2, batches := batches ?w1 @ [(back, r2)],
      acks := acks ?w1 @ [(a, r2)]\<rparr>)"
    using assms by (intro run_batch) auto
  finally show ?thesis by simp
qed

definition first_fails :: "nat sink" where
  "first_fails n b = (if n = 0 then Inl ''COMMIT'' else Inr (), Suc n)"

theorem shared_batch_splits_unit_witness:
  "run first_fails 3 (map EvM [sample 1, sample 2] @ map EvM ([sample 3] @ [sample 4]) @ EvFlush 7 # []) (spawn 0) =
     \<lparr>sink_state = 2, batches = [([sample 1, sample 2, sample 3], Inl ''COMMIT''), ([sample 4], Inr ())],
      acks = [(7, Inr ())]\<rparr>"
  by (subst shared_batch_splits_unit [where ?r1.0 = "Inl ''COMMIT''" and ?s1.0 = 1 and ?r2.0 = "Inr ()" and ?s2.0 = 2])
    (simp_all add: first_fails_def spawn_def)

section \<open>Time\<close>

text \<open>
  \<^verbatim>\<open>timeout(flush_interval, rx.recv())\<close> is armed for each message: \<open>timed\<close> derives the events from
  the arrival times by putting a timeout where the gap since the previous message exceeds the
  interval.
\<close>

fun timed :: "nat \<Rightarrow> nat \<Rightarrow> (nat \<times> event) list \<Rightarrow> event list" where
  "timed interval prev [] = []"
| "timed interval prev ((t, e) # msgs) =
     (if prev + interval < t then EvTimeout # e # timed interval t msgs else e # timed interval t msgs)"

fun steady :: "nat \<Rightarrow> nat \<Rightarrow> Mutation list \<Rightarrow> (nat \<times> event) list" where
  "steady interval t [] = []"
| "steady interval t (m # ms) = (t, EvM m) # steady interval (t + interval) ms"

lemma timed_steady: "t \<le> prev + interval \<Longrightarrow> timed interval prev (steady interval t ms) = map EvM ms"
  by (induction ms arbitrary: prev t) auto

lemma steady_last: "ms \<noteq> [] \<Longrightarrow> fst (last (steady interval t ms)) = t + (length ms - 1) * interval"
proof (induction ms arbitrary: t)
  case (Cons m ms)
  have "steady interval u ms = [] \<longleftrightarrow> ms = []" for u by (cases ms) simp_all
  with Cons.IH [of "t + interval"] show ?case by (cases "ms = []") (simp_all, cases ms, simp_all)
qed simp

text \<open>The interval is not measured from the first mutation of a batch: mutations that arrive
  one \<open>flush_interval\<close> apart keep a batch open until it is full, so the first of them waits for
  \<open>max_batch - 1\<close> intervals (6.3 seconds with 64 and 100 ms) before it is applied.\<close>

theorem steady_stream_delays_the_first:
  assumes "ms \<noteq> []" and "length ms = max_batch" and "f s ms = (r, s')"
  shows "run f max_batch (timed interval t (steady interval t ms)) (spawn s) =
      \<lparr>sink_state = s', batches = [(ms, r)], acks = []\<rparr>
    \<and> fst (last (steady interval t ms)) - fst (hd (steady interval t ms)) = (max_batch - 1) * interval"
proof -
  have "hd (steady interval t ms) = (t, EvM (hd ms))" using assms(1) by (cases ms) auto
  then show ?thesis
    using run_full [of ms max_batch f "spawn s" r s' "[]"] assms steady_last [OF assms(1), of interval t]
    by (simp add: timed_steady, simp add: spawn_def)
qed

theorem steady_stream_delays_the_first_witness:
  "run first_fails 3 (timed 100 50 (steady 100 50 [sample 1, sample 2, sample 3])) (spawn 1) =
      \<lparr>sink_state = 2, batches = [([sample 1, sample 2, sample 3], Inr ())], acks = []\<rparr>
    \<and> fst (last (steady 100 50 [sample 1, sample 2, sample 3]))
        - fst (hd (steady 100 50 [sample 1, sample 2, sample 3])) = (3 - 1) * (100 :: nat)"
  by (rule steady_stream_delays_the_first) (simp_all add: first_fails_def)

end
