(* ===== verification/Wal.thy ===== *)
theory Wal
  imports Batcher
begin

text \<open>
  The durable end of the pipeline (\<^verbatim>\<open>database/src/wal.rs\<close>): \<^verbatim>\<open>PgMutationSink\<close>, which applies a
  batch and its audit rows in one transaction, \<^verbatim>\<open>WalSink\<close>, which writes the batch to a local file
  first and removes the file after the commit, and \<^verbatim>\<open>replay_wal\<close>, which applies the files left
  on disk at start-up. The database engine is a parameter: a function that executes one
  statement, and the failures of its connection; so are the failures of the file system.
\<close>

section \<open>PgMutationSink\<close>

text \<open>\<open>audit\<close> is the audit table, keyed by mutation id; \<open>journal\<close> is a ghost: the mutations of the
  transactions that committed.\<close>

record 'd pg =
  db :: 'd
  audit :: "(bytes \<times> string) list"
  calls :: nat
  journal :: "Mutation list"

datatype pg_fault =
    NoConnection
  | BeginFails
  | AuditFails
  | CommitFails
  | CommitAckLost

text \<open>\<^verbatim>\<open>INSERT ... ON CONFLICT DO NOTHING\<close>\<close>

definition audit_insert :: "bytes \<Rightarrow> string \<Rightarrow> (bytes \<times> string) list \<Rightarrow> (bytes \<times> string) list" where
  "audit_insert i payload a = (if i \<in> fst ` set a then a else a @ [(i, payload)])"

fun exec_tx ::
  "(Mutation \<Rightarrow> 'd \<Rightarrow> string + 'd) \<Rightarrow> bool \<Rightarrow> Mutation list \<Rightarrow> 'd \<times> (bytes \<times> string) list
     \<Rightarrow> string + ('d \<times> (bytes \<times> string) list)"
where
  "exec_tx exec audit_fails [] st = Inr st"
| "exec_tx exec audit_fails (m # ms) st =
     (case exec m (fst st) of
        Inl e \<Rightarrow> Inl (''mutation '' @ uuidv7_string (mutation_id m) @ '': '' @ e)
      | Inr d \<Rightarrow>
          if audit_fails then Inl (''audit '' @ uuidv7_string (mutation_id m))
          else exec_tx exec audit_fails ms (d, audit_insert (mutation_id m) (payload_json m) (snd st)))"

definition pg_apply ::
  "(Mutation \<Rightarrow> 'd \<Rightarrow> string + 'd) \<Rightarrow> (nat \<Rightarrow> pg_fault option) \<Rightarrow> 'd pg sink"
where
  "pg_apply exec fault s batch =
    (let s1 = s\<lparr>calls := calls s + 1\<rparr>; f = fault (calls s)
     in if f = Some NoConnection then (Inl ''PG pool get'', s1)
        else if f = Some BeginFails then (Inl ''BEGIN'', s1)
        else (case exec_tx exec (f = Some AuditFails) batch (db s, audit s) of
                Inl e \<Rightarrow> (Inl e, s1)
              | Inr (d, a) \<Rightarrow>
                  if f = Some CommitFails then (Inl ''COMMIT'', s1)
                  else (if f = Some CommitAckLost then Inl ''COMMIT'' else Inr (),
                        s1\<lparr>db := d, audit := a, journal := journal s @ batch\<rparr>)))"

interpretation pg: mutation_sink "pg_apply exec fault" journal
  by unfold_locales
    (auto simp: pg_apply_def Let_def split: if_splits sum.splits)

section \<open>The log files\<close>

type_synonym files = "(string \<times> string) list"

definition put_file :: "string \<Rightarrow> string \<Rightarrow> files \<Rightarrow> files" where
  "put_file n c fs = (n, c) # filter (\<lambda>(m, _). m \<noteq> n) fs"

definition remove_file :: "string \<Rightarrow> files \<Rightarrow> files" where
  "remove_file n fs = filter (\<lambda>(m, _). m \<noteq> n) fs"

text \<open>One \<open>payload_json\<close> per line.\<close>

definition file_content :: "Mutation list \<Rightarrow> string" where
  "file_content batch = concat (map (\<lambda>m. payload_json m @ [newline]) batch)"

definition wal_name :: "u64 \<Rightarrow> u64 \<Rightarrow> string" where
  "wal_name ts rand = uuidv7_string (uuidv7_from ts rand) @ ''.wal''"

text \<open>What the file system does to one \<^verbatim>\<open>persist_batch\<close>: it may refuse the directory or the file, or
  the write or the sync may fail with only \<open>k\<close> bytes of the content in the file.\<close>

datatype persist_fault = CannotCreate | CutAfter nat

record io_env =
  stamp :: u64
  rnd :: u64
  persist_fault :: "persist_fault option"
  unlink_fails :: bool

definition persist_batch :: "io_env \<Rightarrow> Mutation list \<Rightarrow> files \<Rightarrow> (string + string) \<times> files" where
  "persist_batch e batch fs =
    (let n = wal_name (stamp e) (rnd e)
     in case persist_fault e of
          Some CannotCreate \<Rightarrow> (Inl ''create'', fs)
        | Some (CutAfter k) \<Rightarrow> (Inl ''write'', put_file n (take k (file_content batch)) fs)
        | None \<Rightarrow> (Inr n, put_file n (file_content batch) fs))"

section \<open>WalSink\<close>

record 's wal =
  inner :: 's
  files :: files
  writes :: nat

text \<open>\<^verbatim>\<open>WalSink::apply\<close> as the durable states it goes through, one for each of its effects in the order
  of the code: the file is written (or the write failed), the inner sink has returned, and after
  its success the file is unlinked (or the unlink failed). The call leaves the last of them.\<close>

definition wal_moments ::
  "'s sink \<Rightarrow> (nat \<Rightarrow> io_env) \<Rightarrow> 's wal \<Rightarrow> Mutation list \<Rightarrow> (string + unit) \<times> 's wal list"
where
  "wal_moments apply_inner io s batch =
    (let e = io (writes s); s1 = s\<lparr>writes := writes s + 1\<rparr>
     in case persist_batch e batch (files s) of
          (Inl err, fs) \<Rightarrow> (Inl (''persistiendo WAL: '' @ err), [s1\<lparr>files := fs\<rparr>])
        | (Inr n, fs) \<Rightarrow>
            (let s2 = s1\<lparr>files := fs\<rparr>
             in case apply_inner (inner s2) batch of
                  (Inr _, i) \<Rightarrow>
                    (let s3 = s2\<lparr>inner := i\<rparr>
                     in (Inr (), [s2, s3, if unlink_fails e then s3 else s3\<lparr>files := remove_file n (files s3)\<rparr>]))
                | (Inl err, i) \<Rightarrow> (Inl err, [s2, s2\<lparr>inner := i\<rparr>])))"

definition wal_apply :: "'s sink \<Rightarrow> (nat \<Rightarrow> io_env) \<Rightarrow> 's wal sink" where
  "wal_apply apply_inner io s batch =
    (case wal_moments apply_inner io s batch of (r, ms) \<Rightarrow> (r, last ms))"

lemma wal_apply_eq:
  "wal_apply apply_inner io s batch =
    (let e = io (writes s); s1 = s\<lparr>writes := writes s + 1\<rparr>
     in case persist_batch e batch (files s) of
          (Inl err, fs) \<Rightarrow> (Inl (''persistiendo WAL: '' @ err), s1\<lparr>files := fs\<rparr>)
        | (Inr n, fs) \<Rightarrow>
            (case apply_inner (inner s) batch of
               (Inr _, i) \<Rightarrow>
                 (Inr (), s1\<lparr>inner := i, files := (if unlink_fails e then fs else remove_file n fs)\<rparr>)
             | (Inl err, i) \<Rightarrow> (Inl err, s1\<lparr>inner := i, files := fs\<rparr>)))"
  by (simp add: wal_apply_def wal_moments_def Let_def split: prod.split sum.split)

text \<open>A log in front of a sink is again a sink.\<close>


context mutation_sink
begin

lemma wal_sink: "mutation_sink (wal_apply apply_batch io) (\<lambda>s. applied (inner s))"
  by unfold_locales
    (auto simp: wal_apply_eq Let_def split: prod.splits sum.splits dest: commit atomic)

end

interpretation wal_pg: mutation_sink "wal_apply (pg_apply exec fault) io" "\<lambda>s. journal (inner s)"
  by (rule pg.wal_sink)

text \<open>A batch whose file was written is in effect or still on disk.\<close>

lemma wal_apply_keeps:
  assumes "persist_fault (io (writes s)) = None" and "wal_apply f io s b = (r, s')"
    and "wal_name (stamp (io (writes s))) (rnd (io (writes s))) \<notin> fst ` set (files s)"
  shows "writes s' = Suc (writes s) \<and> set (files s) \<subseteq> set (files s')
    \<and> fst ` set (files s') \<subseteq> insert (wal_name (stamp (io (writes s))) (rnd (io (writes s)))) (fst ` set (files s))
    \<and> (r = Inr () \<or> (wal_name (stamp (io (writes s))) (rnd (io (writes s))), file_content b) \<in> set (files s'))"
  using assms
  by (auto simp: wal_apply_eq persist_batch_def put_file_def remove_file_def Let_def
      split: prod.splits sum.splits if_splits intro: rev_image_eqI)

section \<open>Reading a file back\<close>

text \<open>\<^verbatim>\<open>str::lines\<close>: split at line feeds, one carriage return before each removed, no empty last line.\<close>

function lines_of :: "string \<Rightarrow> string list" where
  "lines_of s =
     (if s = [] then []
      else let l = takeWhile (\<lambda>c. c \<noteq> newline) s; r = dropWhile (\<lambda>c. c \<noteq> newline) s
           in if r = [] then [l]
              else (if l \<noteq> [] \<and> last l = CHR 0x0D then butlast l else l) # lines_of (tl r))"
  by pat_completeness auto
termination
proof (relation "measure length")
  fix s :: string and l r
  assume "r = dropWhile (\<lambda>c. c \<noteq> newline) s" and "r \<noteq> []"
  then have "length (tl r) < length r" and "length r \<le> length s"
    by (auto simp: length_dropWhile_le)
  then show "(tl r, s) \<in> measure length" by simp
qed simp

declare lines_of.simps [simp del]

text \<open>The loop of \<^verbatim>\<open>replay_wal\<close> over the lines of one file.\<close>

fun parse_lines :: "string list \<Rightarrow> parse_error + Mutation list" where
  "parse_lines [] = Inr []"
| "parse_lines (l # ls) =
     (if trim l = [] then parse_lines ls
      else (case parse_payload_json l of
              Inl e \<Rightarrow> Inl e
            | Inr m \<Rightarrow> (case parse_lines ls of Inl e \<Rightarrow> Inl e | Inr ms \<Rightarrow> Inr (m # ms))))"

definition parse_file :: "string \<Rightarrow> parse_error + Mutation list" where
  "parse_file content = parse_lines (lines_of content)"

text \<open>A mutation survives the log unchanged: what Rust strings and the identifiers guarantee, no
  line feed in a text, and no parameter that is read back as another one.\<close>

definition plain_param :: "Param \<Rightarrow> bool" where
  "plain_param p \<longleftrightarrow> Param_ok p \<and> replayed p = p \<and> (case p of PText s \<Rightarrow> newline \<notin> set s | _ \<Rightarrow> True)"

definition loggable :: "Mutation \<Rightarrow> bool" where
  "loggable m \<longleftrightarrow> length (mutation_id m) = 16 \<and> utf8 (sql m) \<and> newline \<notin> set (sql m)
     \<and> list_all plain_param (params m)"

lemma loggable_roundtrip: "loggable m \<Longrightarrow> parse_payload_json (payload_json m) = Inr m"
proof -
  assume m: "loggable m"
  then have "Mutation_ok m" by (auto simp: loggable_def Mutation_ok_def plain_param_def list_all_iff)
  moreover have "map replayed (params m) = params m"
    using m by (auto simp: loggable_def plain_param_def list_all_iff intro: map_idI)
  ultimately show ?thesis by (simp add: payload_roundtrip)
qed

lemma newline_escaped: "newline \<notin> set s \<Longrightarrow> newline \<notin> set (serde_json_lite_escape s)"
  by (auto simp: serde_json_lite_escape_def)

lemma newline_join: "newline \<notin> set sep \<Longrightarrow> \<forall>x \<in> set xs. newline \<notin> set x \<Longrightarrow> newline \<notin> set (join_with sep xs)"
  by (induction sep xs rule: join_with.induct) auto

lemma newline_show_int: "newline \<notin> set (show_int i)"
  using show_int_chars [of i] by (auto simp: list_all_iff is_ascii_digit_def byte_of_def)

lemma newline_param: "plain_param p \<Longrightarrow> newline \<notin> set (Param_to_string p)"
  using newline_show_int hex_string_digits
  by (cases p) (auto simp: plain_param_def Text_escape newline_escaped, auto simp: Param_to_string_def)

lemma newline_payload: "loggable m \<Longrightarrow> newline \<notin> set (payload_json m)"
  using uuid_chars [of newline "mutation_id m"] newline_escaped [of "sql m"]
    newline_join [of "'',''" "map Param_to_string (params m)"] newline_param
  by (auto simp: payload_json_def loggable_def quoted_def list_all_iff)

lemma lines_of_line:
  assumes "newline \<notin> set l" and "l \<noteq> []" and "last l \<noteq> CHR 0x0D"
  shows "lines_of (l @ newline # rest) = l # lines_of rest"
proof -
  have "takeWhile (\<lambda>c. c \<noteq> newline) (l @ newline # rest) = l"
    and "dropWhile (\<lambda>c. c \<noteq> newline) (l @ newline # rest) = newline # rest"
    using assms(1) by (induction l) auto
  with assms(2,3) show ?thesis by (subst lines_of.simps) simp
qed

lemma payload_ends: "payload_json m \<noteq> [] \<and> last (payload_json m) = CHR ''}'' \<and> hd (payload_json m) = CHR ''{''"
  by (simp add: payload_json_def)

lemma parse_file_content:
  "list_all loggable b \<Longrightarrow> parse_file (file_content b) = Inr b"
proof (induction b)
  case Nil
  then show ?case by (simp add: parse_file_def file_content_def lines_of.simps)
next
  case (Cons m b)
  have "lines_of (file_content (m # b)) = payload_json m # lines_of (file_content b)"
    using Cons.prems newline_payload payload_ends [of m]
    by (simp add: file_content_def lines_of_line)
  moreover have "trim (payload_json m) \<noteq> []"
  proof
    assume "trim (payload_json m) = []"
    then have "parse_payload_json (payload_json m) = Inl Missing_brace"
      by (simp add: parse_payload_json_def)
    with loggable_roundtrip [of m] Cons.prems show False by simp
  qed
  ultimately show ?case
    using Cons loggable_roundtrip [of m] by (simp add: parse_file_def)
qed

text \<open>The content is again UTF-8, so \<^verbatim>\<open>read_to_string\<close> accepts the file.\<close>

lemma utf8_append: "utf8 a \<Longrightarrow> utf8 b \<Longrightarrow> utf8 (a @ b)"
proof (induction a rule: utf8.induct)
  case (2 c s)
  then have "utf8_len c - 1 \<le> length s" by (simp only: utf8.simps)
  then have "utf8_len c - Suc (length s) = 0" using utf8_len_pos [of c] by linarith
  with 2 show ?case by (simp add: utf8.simps scalar_start_append)
qed simp

lemma utf8_char:
  "scalar_start c a \<Longrightarrow> utf8_len c = Suc (length a) \<Longrightarrow> list_all is_cont a \<Longrightarrow> utf8 (c # a @ b) \<longleftrightarrow> utf8 b"
  by (simp add: utf8.simps scalar_start_append)

lemma utf8_concat: "\<forall>x \<in> set xs. utf8 x \<Longrightarrow> utf8 (concat xs)"
  by (induction xs) (auto intro: utf8_append)

lemma utf8_escaped: "utf8 s \<Longrightarrow> utf8 (escaped s)"
proof (induction s rule: utf8.induct)
  case (2 c s)
  let ?k = "utf8_len c - 1"
  have k: "?k \<le> length s" "list_all is_cont (take ?k s)" "utf8 (drop ?k s)" "scalar_start c (take ?k s)"
    using "2.prems" scalar_start_take [of c s] by (auto simp: utf8.simps)
  have "escaped (take ?k s) = take ?k s" using cont_plain [OF k(2)] by (simp add: escaped_plain)
  then have tail: "escaped s = take ?k s @ escaped (drop ?k s)"
    using escaped_append [of "take ?k s" "drop ?k s"] by simp
  have bs: "utf8 (bsl # t) = utf8 t" "utf8 (dq # t) = utf8 t" for t
    using utf8_char [of bsl "[]" t] utf8_char [of dq "[]" t]
    by (simp_all add: scalar_start_ascii byte_of_def)
  show ?case
  proof (cases "c = dq \<or> c = bsl")
    case True
    then have "escaped (c # s) = bsl # c # escaped s" by (auto simp: escaped_def)
    moreover have "?k = 0" using True by auto
    ultimately show ?thesis using True "2.IH" k(3) by (auto simp: bs)
  next
    case False
    then have "escaped (c # s) = c # escaped s" by (simp add: escaped_def)
    then have "escaped (c # s) = c # take ?k s @ escaped (drop ?k s)" by (simp only: tail)
    moreover have "utf8_len c = Suc (length (take ?k s))" using k(1) utf8_len_pos [of c] by simp
    ultimately show ?thesis using k(2,4) "2.IH" [OF k(3)] by (metis utf8_char)
  qed
qed (simp add: escaped_def)

lemma utf8_escape: "utf8 s \<Longrightarrow> utf8 (serde_json_lite_escape s)"
  by (simp add: escape_escaped utf8.simps scalar_start_ascii byte_of_def utf8_append utf8_escaped)

lemma utf8_param:
  assumes "Param_ok p"
  shows "utf8 (Param_to_string p)"
proof (cases p)
  case (PInt i)
  have "list_all (\<lambda>c. byte_of c < 128) (show_int i)"
    using show_int_chars [of i] by (auto simp: list_all_iff is_ascii_digit_def)
  then show ?thesis using PInt by (simp add: Param_to_string_def ascii_utf8)
next
  case (PBytes b)
  have "list_all (\<lambda>c. byte_of c < 128) ([bsl, CHR ''x''] @ hex_string b)"
    using hex_ascii hex_string_digits [of _ b] by (auto simp: list_all_iff)
  then show ?thesis unfolding PBytes PBytes_escape by (intro utf8_escape ascii_utf8)
qed (use assms in \<open>simp_all add: Text_escape Param_ok_def utf8_escape\<close>,
     simp add: Param_to_string_def ascii_utf8 byte_of_def)

lemma utf8_join: "\<forall>x \<in> set xs. utf8 x \<Longrightarrow> utf8 sep \<Longrightarrow> utf8 (join_with sep xs)"
  by (induction sep xs rule: join_with.induct) (auto intro: utf8_append)

lemma utf8_payload: "loggable m \<Longrightarrow> utf8 (payload_json m)"
proof -
  assume m: "loggable m"
  have lit: "list_all (\<lambda>c. byte_of c < 128) s \<Longrightarrow> utf8 s" for s by (rule ascii_utf8)
  have "list_all (\<lambda>c. byte_of c < 128) (uuidv7_string (mutation_id m))"
    using hex_string_digits [of _ "mutation_id m"] hex_ascii
    by (auto simp: list_all_iff uuidv7_string_def Let_def slice_def dest!: in_set_takeD in_set_dropD)
  with m show ?thesis
    unfolding payload_json_def quoted_def loggable_def
    by (intro utf8_append utf8_escape utf8_join)
      (auto simp: byte_of_def list_all_iff plain_param_def intro!: lit utf8_param)
qed

lemma utf8_file: "list_all loggable b \<Longrightarrow> utf8 (file_content b)"
  unfolding file_content_def list_all_iff
  by (intro utf8_concat) (auto intro!: utf8_append utf8_payload simp: utf8.simps scalar_start_ascii byte_of_def utf8_len_def)

section \<open>Replay\<close>

definition is_wal :: "string \<Rightarrow> bool" where
  "is_wal n \<longleftrightarrow> 4 < length n \<and> drop (length n - 4) n = ''.wal''"

text \<open>The loop over the sorted files: read, parse, apply as one batch, remove, count. The first
  failure ends it; \<open>unlink_fails\<close> tells for which names the removal is refused.\<close>

fun replay_loop ::
  "'s sink \<Rightarrow> (string \<Rightarrow> bool) \<Rightarrow> string list \<Rightarrow> 's \<Rightarrow> files \<Rightarrow> nat \<Rightarrow> (string + nat) \<times> 's \<times> files"
where
  "replay_loop f cannot_unlink [] s fs n = (Inr n, s, fs)"
| "replay_loop f cannot_unlink (name # names) s fs n =
     (case map_of fs name of
        None \<Rightarrow> (Inl (''leyendo '' @ name), s, fs)
      | Some content \<Rightarrow>
          if \<not> utf8 content then (Inl (''leyendo '' @ name), s, fs)
          else (case parse_file content of
                  Inl e \<Rightarrow> (Inl (''parseando '' @ name), s, fs)
                | Inr batch \<Rightarrow>
                    (case f s batch of
                       (Inl e, s') \<Rightarrow> (Inl (''replay de '' @ name @ '': '' @ e), s', fs)
                     | (Inr _, s') \<Rightarrow>
                         if cannot_unlink name then (Inl (''borrando '' @ name), s', fs)
                         else replay_loop f cannot_unlink names s' (remove_file name fs) (n + 1))))"

definition replay_order :: "files \<Rightarrow> string list" where
  "replay_order fs = sort (filter is_wal (map fst fs))"

definition replay_wal :: "'s sink \<Rightarrow> (string \<Rightarrow> bool) \<Rightarrow> 's \<Rightarrow> files \<Rightarrow> (string + nat) \<times> 's \<times> files" where
  "replay_wal f cannot_unlink s fs = replay_loop f cannot_unlink (replay_order fs) s fs 0"

text \<open>Files leave the disk only after their batch was applied, in the order of the names.\<close>

lemma remove_file_set: "set (remove_file n fs) = {x \<in> set fs. fst x \<noteq> n}"
  by (auto simp: remove_file_def)

lemma map_of_remove_file: "m \<noteq> n \<Longrightarrow> map_of (remove_file n fs) m = map_of fs m"
  by (induction fs) (auto simp: remove_file_def)

text \<open>The outcome of a replay: the names \<open>finished\<close> were read, parsed to the batches \<open>bs\<close>, applied and
  removed; \<open>rest\<close> were not, except that the batch of the first of them may be in effect when
  the replay failed (its commit or its removal was the failure).\<close>

definition replay_outcome ::
  "('s \<Rightarrow> Mutation list) \<Rightarrow> files \<Rightarrow> 's \<Rightarrow> string list \<Rightarrow> string list \<Rightarrow> Mutation list list \<Rightarrow> string + nat \<Rightarrow> 's \<Rightarrow> files \<Rightarrow> bool"
where
  "replay_outcome applied fs s finished rest bs r s' fs' \<longleftrightarrow>
     set fs' = {x \<in> set fs. fst x \<notin> set finished}
     \<and> map (\<lambda>m. map_option parse_file (map_of fs m)) finished = map (Some \<circ> Inr) bs
     \<and> (case r of
          Inr k \<Rightarrow> rest = [] \<and> applied s' = applied s @ concat bs
        | Inl e \<Rightarrow> rest \<noteq> [] \<and> (applied s' = applied s @ concat bs
            \<or> (\<exists>b. map_option parse_file (map_of fs (hd rest)) = Some (Inr b)
                 \<and> applied s' = applied s @ concat bs @ b)))"

context mutation_sink
begin

lemma replay_outcome_Cons:
  assumes out: "replay_outcome applied (remove_file m fs) s1 finished rest bs r s' fs'"
    and "m \<notin> set (finished @ rest)" and "map_of fs m = Some c" and "parse_file c = Inr b"
    and "applied s1 = applied s @ b"
  shows "replay_outcome applied fs s (m # finished) rest (b # bs) r s' fs'"
proof -
  have same: "x \<in> set (finished @ rest) \<Longrightarrow> map_of (remove_file m fs) x = map_of fs x" for x
    using assms(2) by (intro map_of_remove_file) auto
  have "map (\<lambda>x. map_option parse_file (map_of (remove_file m fs) x)) finished
      = map (\<lambda>x. map_option parse_file (map_of fs x)) finished"
    using same by simp
  moreover have "rest \<noteq> [] \<Longrightarrow> map_of (remove_file m fs) (hd rest) = map_of fs (hd rest)"
    by (intro same) simp
  ultimately show ?thesis
    using assms unfolding replay_outcome_def by (cases r) (auto simp: remove_file_set)
qed

lemma replay_loop_spec:
  assumes "replay_loop apply_batch cu names s fs n = (r, s', fs')" and "distinct names"
  shows "\<exists>finished rest bs. names = finished @ rest \<and> replay_outcome applied fs s finished rest bs r s' fs'
    \<and> (\<forall>k. r = Inr k \<longrightarrow> k = n + length names)"
  using assms
proof (induction names arbitrary: s fs n)
  case Nil
  then show ?case by (auto simp: replay_outcome_def)
next
  case (Cons m ms)
  show ?case
  proof (cases "\<exists>c b s1. map_of fs m = Some c \<and> utf8 c \<and> parse_file c = Inr b
      \<and> apply_batch s b = (Inr (), s1) \<and> \<not> cu m")
    case True
    then obtain c b s1 where c: "map_of fs m = Some c" "utf8 c" "parse_file c = Inr b"
      "apply_batch s b = (Inr (), s1)" "\<not> cu m" by blast
    with Cons.prems have "replay_loop apply_batch cu ms s1 (remove_file m fs) (n + 1) = (r, s', fs')"
      by simp
    from Cons.IH [OF this] Cons.prems(2) obtain finished rest bs where IH: "ms = finished @ rest"
      "replay_outcome applied (remove_file m fs) s1 finished rest bs r s' fs'"
      "\<forall>k. r = Inr k \<longrightarrow> k = n + 1 + length ms" by force
    have "replay_outcome applied fs s (m # finished) rest (b # bs) r s' fs'"
      using replay_outcome_Cons [OF IH(2) _ c(1,3) commit [OF c(4)]] IH(1) Cons.prems(2) by simp
    with IH(1,3) show ?thesis
      by (intro exI [of _ "m # finished"] exI [of _ rest] exI [of _ "b # bs"]) simp
  next
    case False
    with Cons.prems(1) obtain e where r: "r = Inl e" "fs' = fs" and
      s': "applied s' = applied s \<or> (\<exists>b. map_option parse_file (map_of fs m) = Some (Inr b)
        \<and> applied s' = applied s @ b)"
      by (auto split: option.splits if_splits sum.splits prod.splits dest: commit atomic)
    then show ?thesis
      by (intro exI [of _ "[]"] exI [of _ "m # ms"]) (auto simp: replay_outcome_def)
  qed
qed

end

lemma wal_name_less:
  assumes "unat ts < unat ts'" and "unat ts' < 2 ^ 48"
  shows "wal_name ts r < wal_name ts' r'"
proof -
  have len: "length (uuidv7_string (uuidv7_from ts r)) = 36" for ts r
    by (simp add: uuidv7_string_def Let_def slice_def)
  show ?thesis unfolding wal_name_def
    by (rule append_less) (simp_all add: len uuidv7_chronological [OF assms])
qed

section \<open>Properties of the durable pipeline\<close>

text \<open>C3. The production stack, the batcher over the local log over PostgreSQL: whatever fails,
  the committed mutations are a subsequence, in order and without repetition, of the mutations
  pushed, and they are all of them when every batch was confirmed.\<close>

theorem pipeline_at_most_once:
  "\<exists>ms. journal (inner (sink_state (run (wal_apply (pg_apply exec fault) io) k evs (spawn s))))
          = journal (inner s) @ ms
     \<and> subseq ms (muts evs)
     \<and> (list_all (\<lambda>(_, r). r = Inr ()) (batches (run (wal_apply (pg_apply exec fault) io) k evs (spawn s)))
          \<longrightarrow> ms = muts evs)"
  using wal_pg.run_subseq [of exec fault io k evs s] wal_pg.run_all_confirmed [of exec fault io k evs s]
  by (metis same_append_eq)

theorem pipeline_at_most_once_witness:
  "\<exists>ms. journal (inner (sink_state (run (wal_apply (pg_apply (\<lambda>m (d :: int). Inr (d + 1)) (\<lambda>_. None))
          (\<lambda>_. \<lparr>stamp = 1, rnd = 1, persist_fault = None, unlink_fails = False\<rparr>)) 64 [EvM (sample 1)]
          (spawn \<lparr>inner = \<lparr>db = 0, audit = [], calls = 0, journal = []\<rparr>, files = [], writes = 0\<rparr>)))) = ms
     \<and> subseq ms [sample 1] \<and> ms = [sample 1]"
proof -
  let ?s = "\<lparr>inner = \<lparr>db = 0 :: int, audit = [], calls = 0, journal = []\<rparr>, files = [], writes = 0\<rparr>"
  let ?f = "wal_apply (pg_apply (\<lambda>m (d :: int). Inr (d + 1)) (\<lambda>_. None))
      (\<lambda>_. \<lparr>stamp = 1, rnd = 1, persist_fault = None, unlink_fails = False\<rparr>)"
  have "list_all (\<lambda>(_, r). r = Inr ()) (batches (run ?f 64 [EvM (sample 1)] (spawn ?s)))"
    by (simp add: accumulate.simps spawn_def wal_apply_eq pg_apply_def persist_batch_def Let_def)
  then show ?thesis
    using pipeline_at_most_once [of "\<lambda>m (d :: int). Inr (d + 1)" "\<lambda>_. None"
      "\<lambda>_. \<lparr>stamp = 1, rnd = 1, persist_fault = None, unlink_fails = False\<rparr>" 64 "[EvM (sample 1)]" ?s]
    by auto
qed

text \<open>No mutation is lost between the two: with distinct file names and a file system that takes
  the writes, each batch is confirmed or its file is on disk, complete.\<close>

definition nth_name :: "(nat \<Rightarrow> io_env) \<Rightarrow> nat \<Rightarrow> string" where
  "nth_name io i = wal_name (stamp (io i)) (rnd (io i))"

definition accounted :: "(nat \<Rightarrow> io_env) \<Rightarrow> 's wal worker \<Rightarrow> bool" where
  "accounted io w \<longleftrightarrow>
     (\<forall>(b, r) \<in> set (batches w). r = Inr () \<or> (\<exists>n. (n, file_content b) \<in> set (files (sink_state w))))
     \<and> fst ` set (files (sink_state w)) \<subseteq> nth_name io ` {..<writes (sink_state w)}"

lemma accounted_step:
  assumes io: "\<And>i. persist_fault (io i) = None" "inj_on (nth_name io) {..<N}" "writes (sink_state w) < N"
    and w: "accounted io w" "wal_apply f io (sink_state w) b = (r, s')"
  shows "accounted io (w\<lparr>sink_state := s', batches := batches w @ [(b, r)], acks := a\<rparr>)"
proof -
  let ?n = "nth_name io (writes (sink_state w))"
  have "?n \<notin> fst ` set (files (sink_state w))"
  proof
    assume "?n \<in> fst ` set (files (sink_state w))"
    with w(1) obtain i where "i < writes (sink_state w)" "?n = nth_name io i"
      by (auto simp: accounted_def)
    with inj_onD [OF io(2)] io(3) show False by fastforce
  qed
  then have kept: "writes s' = Suc (writes (sink_state w))" "set (files (sink_state w)) \<subseteq> set (files s')"
    "fst ` set (files s') \<subseteq> insert ?n (fst ` set (files (sink_state w)))"
    "r = Inr () \<or> (?n, file_content b) \<in> set (files s')"
    using wal_apply_keeps [of io "sink_state w" f b r s'] io(1) w(2) by (auto simp: nth_name_def)
  have "fst ` set (files s') \<subseteq> nth_name io ` {..<writes s'}"
    using kept(3) w(1) unfolding accounted_def kept(1) lessThan_Suc image_insert by blast
  moreover have "r' = Inr () \<or> (\<exists>n. (n, file_content b') \<in> set (files s'))"
    if "(b', r') \<in> set (batches w @ [(b, r)])" for b' r'
  proof (cases "(b', r') = (b, r)")
    case True
    with kept(4) show ?thesis by blast
  next
    case False
    with that w(1) have "r' = Inr () \<or> (\<exists>n. (n, file_content b') \<in> set (files (sink_state w)))"
      unfolding accounted_def by auto
    with kept(2) show ?thesis by blast
  qed
  ultimately show ?thesis unfolding accounted_def by (auto simp del: set_append)
qed

lemma wal_writes: "wal_apply f io s b = (r, s') \<Longrightarrow> writes s' = Suc (writes s)"
  by (auto simp: wal_apply_eq Let_def split: prod.splits sum.splits)

lemma few_batches: "length (batches (run f k evs (spawn s))) \<le> length (muts evs)"
proof -
  have "length bs \<le> length (concat bs)" if "list_all (\<lambda>b. b \<noteq> [] \<and> length b \<le> n) bs"
    for bs :: "Mutation list list" and n
    using that by (induction bs) (auto simp: neq_Nil_conv)
  then show ?thesis
    using run_spec [of f k evs "spawn s"] by (force simp: spawn_def handed_def)
qed

text \<open>C2. Nothing is lost: as long as the file system takes the writes and the file names of the
  run differ, after any sequence of events each batch handed to the stack was confirmed by the
  database or lies complete in a file that the next start will replay.\<close>

theorem no_batch_is_lost:
  assumes "\<And>i. persist_fault (io i) = None" and "inj_on (nth_name io) {..<length (muts evs)}"
    and "files s = []" and "writes s = 0"
  shows "list_all (\<lambda>(b, r). r = Inr () \<or> (\<exists>n. (n, file_content b) \<in>
        set (files (sink_state (run (wal_apply (pg_apply exec fault) io) k evs (spawn s))))))
     (batches (run (wal_apply (pg_apply exec fault) io) k evs (spawn s)))"
proof -
  let ?N = "length (muts evs)"
  let ?P = "\<lambda>w. writes (sink_state w) = length (batches w) \<and> (length (batches w) \<le> ?N \<longrightarrow> accounted io w)"
  have "?P (run (wal_apply (pg_apply exec fault) io) k evs (spawn s))"
  proof (rule run_invariant [where P = ?P])
    show "?P (spawn s)" using assms(3,4) by (simp add: accounted_def spawn_def)
  next
    fix w b r s' a
    assume P: "?P w" and ap: "wal_apply (pg_apply exec fault) io (sink_state w) b = (r, s')"
    show "?P (w\<lparr>sink_state := s', batches := batches w @ [(b, r)], acks := a\<rparr>)"
      using P wal_writes [OF ap] accounted_step [OF assms(1,2) _ _ ap, of a] by simp
  qed (auto simp: accounted_def)
  then show ?thesis using few_batches by (force simp: accounted_def list_all_iff)
qed

text \<open>The log is faithful: a file written by \<open>persist_batch\<close> reads back as exactly the batch,
  for every batch of mutations whose texts have no line feed and no form that is taken for bytes.\<close>

theorem log_file_roundtrip:
  assumes "list_all loggable b"
  shows "utf8 (file_content b) \<and> parse_file (file_content b) = Inr b"
  using assms utf8_file parse_file_content by blast

lemma loggable_sample: "loggable (sample n)" if "n < 100"
  using that by (auto simp: loggable_def sample_def plain_param_def Param_ok_def replayed_def in_i64_def
      i64_min_def i64_max_def byte_of_def intro!: ascii_utf8)

theorem log_file_roundtrip_witness:
  "utf8 (file_content [sample 1, sample 2]) \<and> parse_file (file_content [sample 1, sample 2]) = Inr [sample 1, sample 2]"
  by (rule log_file_roundtrip) (simp add: loggable_sample)

text \<open>C4. Replay is ordered and removes no file it has not applied: it works through the log
  files in the order of their names; those it removed were parsed and committed, in that order;
  on success all of them were; on failure the database holds the finished ones and at most the
  one that failed, and every other file is still on disk.\<close>

theorem replay_is_ordered_and_safe:
  assumes "replay_wal (pg_apply exec fault) cu s fs = (r, s', fs')" and "distinct (map fst fs)"
  shows "\<exists>finished rest bs. replay_order fs = finished @ rest
     \<and> replay_outcome journal fs s finished rest bs r s' fs'
     \<and> (case r of Inr k \<Rightarrow> k = length (replay_order fs) | Inl _ \<Rightarrow> True)"
proof -
  have d: "distinct (replay_order fs)" using assms(2) by (simp add: replay_order_def)
  obtain finished rest bs where out: "replay_order fs = finished @ rest"
      "replay_outcome journal fs s finished rest bs r s' fs'" and k: "\<forall>k. r = Inr k \<longrightarrow> k = length (replay_order fs)"
    using pg.replay_loop_spec [OF assms(1) [unfolded replay_wal_def] d] by auto
  have "case r of Inr k \<Rightarrow> k = length (replay_order fs) | Inl _ \<Rightarrow> True" using k by (cases r) simp_all
  with out show ?thesis by blast
qed

text \<open>One row is enough to tell executions apart: a statement that writes its first parameter.\<close>

definition set_row :: "Mutation \<Rightarrow> int \<Rightarrow> string + int" where
  "set_row m d = (case params m of [PInt i] \<Rightarrow> Inr i | _ \<Rightarrow> Inl ''syntax'')"

lemma set_row_sample [simp]: "set_row (sample n) d = Inr (int n)"
  by (simp add: set_row_def sample_def)

definition plain_io :: "nat \<Rightarrow> io_env" where
  "plain_io n = \<lparr>stamp = of_nat n, rnd = 0, persist_fault = None, unlink_fails = False\<rparr>"

definition fresh_stack :: "'d \<Rightarrow> 'd pg wal" where
  "fresh_stack d = \<lparr>inner = \<lparr>db = d, audit = [], calls = 0, journal = []\<rparr>, files = [], writes = 0\<rparr>"

theorem replay_is_ordered_and_safe_witness:
  "\<exists>finished rest bs. replay_order [(''a.wal'', file_content [sample 1])] = finished @ rest
     \<and> replay_outcome journal [(''a.wal'', file_content [sample 1])]
         \<lparr>db = 0 :: int, audit = [], calls = 0, journal = []\<rparr> finished rest bs (Inr 1)
         \<lparr>db = 1, audit = [(mutation_id (sample 1), payload_json (sample 1))], calls = 1, journal = [sample 1]\<rparr> []
     \<and> (case (Inr 1 :: string + nat) of
          Inr k \<Rightarrow> k = length (replay_order [(''a.wal'', file_content [sample 1])]) | Inl _ \<Rightarrow> True)"
proof (rule replay_is_ordered_and_safe)
  show "replay_wal (pg_apply set_row (\<lambda>_. None)) (\<lambda>_. False) \<lparr>db = 0, audit = [], calls = 0, journal = []\<rparr>
      [(''a.wal'', file_content [sample 1])] =
    (Inr 1, \<lparr>db = 1, audit = [(mutation_id (sample 1), payload_json (sample 1))], calls = 1, journal = [sample 1]\<rparr>, [])"
    using loggable_sample [of 1] utf8_file [of "[sample 1]"] parse_file_content [of "[sample 1]"]
    by (simp add: replay_wal_def replay_order_def is_wal_def pg_apply_def Let_def)
      (simp add: audit_insert_def remove_file_def)
qed simp

theorem no_batch_is_lost_witness:
  "list_all (\<lambda>(b, r). r = Inr () \<or> (\<exists>n. (n, file_content b) \<in>
        set (files (sink_state (run (wal_apply (pg_apply set_row (\<lambda>_. Some CommitFails)) plain_io) 64
          [EvM (sample 1), EvTimeout, EvM (sample 2)] (spawn (fresh_stack 0)))))))
     (batches (run (wal_apply (pg_apply set_row (\<lambda>_. Some CommitFails)) plain_io) 64
        [EvM (sample 1), EvTimeout, EvM (sample 2)] (spawn (fresh_stack 0))))"
proof (rule no_batch_is_lost)
  have "wal_name 0 0 \<noteq> wal_name 1 0" using wal_name_less [of 0 1 0 0] by force
  then show "inj_on (nth_name plain_io) {..<length (muts [EvM (sample 1), EvTimeout, EvM (sample 2)])}"
    by (auto simp: inj_on_def nth_name_def plain_io_def less_Suc_eq numeral_2_eq_2)
qed (simp_all add: plain_io_def fresh_stack_def)

text \<open>Executing a batch without the connection's failures.\<close>

fun exec_batch :: "(Mutation \<Rightarrow> 'd \<Rightarrow> string + 'd) \<Rightarrow> Mutation list \<Rightarrow> 'd \<Rightarrow> string + 'd" where
  "exec_batch exec [] d = Inr d"
| "exec_batch exec (m # ms) d = (case exec m d of Inl e \<Rightarrow> Inl e | Inr d' \<Rightarrow> exec_batch exec ms d')"

lemma exec_tx_batch:
  "exec_batch exec b d = Inr d' \<Longrightarrow> \<exists>a'. exec_tx exec False b (d, a) = Inr (d', a')"
  by (induction b arbitrary: d a) (auto split: sum.splits)

lemma exec_batch_tx:
  "exec_tx exec audit_fails b (d, a) = Inr (d', a') \<Longrightarrow> exec_batch exec b d = Inr d'"
  by (induction b arbitrary: d a) (auto split: sum.splits if_splits)

lemma pg_apply_ok:
  assumes "exec_batch exec b (db s) = Inr d'" and "fault (calls s) = None"
  shows "\<exists>s'. pg_apply exec fault s b = (Inr (), s') \<and> db s' = d' \<and> calls s' = Suc (calls s)"
proof -
  obtain a' where "exec_tx exec False b (db s, audit s) = Inr (d', a')"
    using exec_tx_batch [OF assms(1)] by blast
  then show ?thesis using assms(2) by (simp add: pg_apply_def Let_def)
qed

lemma is_wal_name: "is_wal (wal_name ts r)"
  by (simp add: is_wal_def wal_name_def uuidv7_string_def Let_def slice_def)

lemma replay_one:
  assumes "list_all loggable b" and "exec_batch exec b (db s) = Inr d'" and "fault (calls s) = None"
  shows "\<exists>s'. replay_wal (pg_apply exec fault) (\<lambda>_. False) s [(wal_name ts r, file_content b)] = (Inr 1, s', [])
    \<and> db s' = d'"
proof -
  obtain s' where "pg_apply exec fault s b = (Inr (), s')" "db s' = d'"
    using pg_apply_ok [of exec b s d' fault] assms(2,3) by blast
  then show ?thesis
    using parse_file_content [OF assms(1)] utf8_file [OF assms(1)]
    by (simp add: replay_wal_def replay_order_def is_wal_name remove_file_def)
qed

text \<open>Whatever the connection does, a batch that executes is in effect as a whole or not at all.\<close>

lemma pg_apply_all_or_nothing:
  assumes "exec_batch exec b (db s) = Inr d'" and "pg_apply exec fault s b = (r, s')"
  shows "(db s' = db s \<or> db s' = d') \<and> (r = Inr () \<longrightarrow> db s' = d')"
proof -
  have "d = d'" if "exec_tx exec af b (db s, audit s) = Inr (d, a)" for af d a
    using exec_batch_tx [OF that] assms(1) by simp
  then show ?thesis using assms(2) by (auto simp: pg_apply_def Let_def split: if_splits sum.splits)
qed

definition recovered :: "(Mutation \<Rightarrow> 'd \<Rightarrow> string + 'd) \<Rightarrow> 'd \<Rightarrow> 'd pg wal \<Rightarrow> bool" where
  "recovered exec d' m \<longleftrightarrow>
     (\<exists>k s'. replay_wal (pg_apply exec (\<lambda>_. None)) (\<lambda>_. False) (inner m) (files m) = (Inr k, s', []) \<and> db s' = d')"

lemma recovered_no_file: "db (inner m) = d' \<Longrightarrow> files m = [] \<Longrightarrow> recovered exec d' m"
  by (simp add: recovered_def replay_wal_def replay_order_def)

lemma recovered_one_file:
  "list_all loggable b \<Longrightarrow> exec_batch exec b (db (inner m)) = Inr d' \<Longrightarrow>
   files m = [(wal_name ts r, file_content b)] \<Longrightarrow> recovered exec d' m"
  using replay_one [of b exec "inner m" d' "\<lambda>_. None" ts r] by (auto simp: recovered_def)

lemma crash_recovers:
  assumes "list_all loggable b" and "persist_fault (io (writes s)) = None" and "files s = []"
    and "exec_batch exec b (db (inner s)) = Inr d'" and "exec_batch exec b d' = Inr d'"
  shows "list_all (recovered exec d') (snd (wal_moments (pg_apply exec fault) io s b))"
proof -
  let ?e = "io (writes s)"
  let ?n = "wal_name (stamp ?e) (rnd ?e)"
  have disk: "persist_batch ?e b (files s) = (Inr ?n, [(?n, file_content b)])"
    using assms(2,3) by (simp add: persist_batch_def put_file_def Let_def)
  have left: "recovered exec d' m" if "files m = [(?n, file_content b)]"
      and "db (inner m) = db (inner s) \<or> db (inner m) = d'" for m
    using recovered_one_file [OF assms(1) _ that(1)] that(2) assms(4,5) by auto
  obtain r i where i: "pg_apply exec fault (inner s) b = (r, i)" by fastforce
  have after: "db i = db (inner s) \<or> db i = d'" "r = Inr () \<Longrightarrow> db i = d'"
    using pg_apply_all_or_nothing [OF assms(4) i] by simp_all
  show ?thesis
  proof (cases r)
    case (Inl err)
    then show ?thesis using after(1) by (simp add: wal_moments_def Let_def disk i left)
  next
    case (Inr u)
    then show ?thesis using after(2) by (simp add: wal_moments_def Let_def disk i left recovered_no_file remove_file_def)
  qed
qed

text \<open>C1. Crash safety of one batch: let the log directory be empty, let the file be written, let
  the batch be one that the database executes, that survives the log (no line feed or hexadecimal
  look-alike in its texts) and that changes nothing more when it is executed again. Then, whatever
  the connection does, in each durable state that \<^verbatim>\<open>WalSink::apply\<close> goes through once the file is
  complete (file written, transaction committed or failed, file unlinked or not), a start that
  finds this state replays to the database with the batch applied exactly once in effect, and
  leaves no file. A process that dies while it writes the file leaves a torn one, which is not
  covered: \<open>torn_file_blocks_replay\<close> and \<open>torn_unit_is_applied_in_part\<close> below.\<close>

theorem crash_recovery:
  assumes "list_all loggable b" and "persist_fault (io (writes s)) = None" and "files s = []"
    and "exec_batch exec b (db (inner s)) = Inr d'" and "exec_batch exec b d' = Inr d'"
  shows "list_all (\<lambda>m. \<exists>k s'. replay_wal (pg_apply exec (\<lambda>_. None)) (\<lambda>_. False) (inner m) (files m) = (Inr k, s', [])
            \<and> db s' = d')
     (snd (wal_moments (pg_apply exec fault) io s b))"
  using assms crash_recovers [of b io s exec d' fault] unfolding recovered_def by blast

theorem crash_recovery_witness:
  "list_all (\<lambda>m. \<exists>k s'. replay_wal (pg_apply set_row (\<lambda>_. None)) (\<lambda>_. False) (inner m) (files m) = (Inr k, s', [])
            \<and> db s' = 2)
     (snd (wal_moments (pg_apply set_row (\<lambda>_. Some CommitAckLost)) plain_io (fresh_stack 0) [sample 1, sample 2]))"
  by (rule crash_recovery) (simp_all add: loggable_sample plain_io_def fresh_stack_def)

text \<open>The lines of a log file are written one by one, and nothing in the file tells how many
  there should be: a process that dies between two lines leaves a file that the next start reads,
  applies as a batch of its own and removes, although it is a part of one transaction.\<close>

lemma torn_unit_is_applied_in_part:
  assumes "list_all loggable b1" and "exec_batch exec b1 (db s) = Inr d1" and "fault (calls s) = None"
    and "persist_fault e = Some (CutAfter (length (file_content b1)))"
  shows "\<exists>s'. replay_wal (pg_apply exec fault) (\<lambda>_. False) s (snd (persist_batch e (b1 @ b2) [])) = (Inr 1, s', [])
    \<and> db s' = d1"
  using assms replay_one [of b1 exec s d1 fault "stamp e" "rnd e"]
  by (simp add: persist_batch_def put_file_def file_content_def Let_def)

text \<open>One torn file stops the replay: a process that dies while it writes a log file leaves a
  prefix of it; at every later start the replay stops there with an error, and the newer files
  behind it, complete and possibly the only trace of their batches, are not applied.\<close>

theorem torn_file_blocks_replay:
  assumes "unat ts < unat ts'" and "unat ts' < 2 ^ 48"
  shows "replay_wal f cu s [(wal_name ts r, take 1 (file_content (m # b))), (wal_name ts' r', file_content b')]
    = (Inl (''parseando '' @ wal_name ts r), s,
       [(wal_name ts r, take 1 (file_content (m # b))), (wal_name ts' r', file_content b')])"
proof -
  have less: "wal_name ts r < wal_name ts' r'" by (rule wal_name_less [OF assms])
  have torn: "take 1 (file_content (m # b)) = ''{''" by (simp add: file_content_def payload_json_def)
  have "lines_of ''{'' = [''{'']" by (subst lines_of.simps) simp
  moreover have "trim ''{'' = ''{''"
    using ws_suffix_ascii [of "CHR ''{''" "[]"] by (simp add: trim_def trim_end_id)
  ultimately have "parse_file ''{'' = Inl Missing_mutation_id"
    by (simp add: parse_file_def parse_payload_json_def payload_loop.simps trim_start_id ws_len_def Let_def)
  moreover have "utf8 ''{''" by (simp add: ascii_utf8)
  moreover have "replay_order [(wal_name ts r, ''{''), (wal_name ts' r', file_content b')]
      = [wal_name ts r, wal_name ts' r']"
    using less by (simp add: replay_order_def is_wal_name order_less_imp_le)
  ultimately show ?thesis unfolding torn replay_wal_def by simp
qed

theorem torn_file_blocks_replay_witness:
  "replay_wal (pg_apply set_row (\<lambda>_. None)) (\<lambda>_. False) \<lparr>db = 0, audit = [], calls = 0, journal = []\<rparr>
      [(wal_name 1 0, take 1 (file_content [sample 1])), (wal_name 2 0, file_content [sample 2])]
    = (Inl (''parseando '' @ wal_name 1 0), \<lparr>db = 0, audit = [], calls = 0, journal = []\<rparr>,
       [(wal_name 1 0, take 1 (file_content [sample 1])), (wal_name 2 0, file_content [sample 2])])"
  by (rule torn_file_blocks_replay) simp_all

text \<open>A batch that failed is replayed after the batches that overtook it: if the commit of
  \<open>b1\<close> fails and the later \<open>b2\<close> commits, the next start applies \<open>b1\<close> on top of \<open>b2\<close>. For the
  absolute writes of the character save the older value wins.\<close>

theorem late_replay_overwrites:
  assumes "list_all loggable b1" and "exec_batch exec b1 d = Inr d1" and "exec_batch exec b2 d = Inr d2"
    and "exec_batch exec b1 d2 = Inr d21"
    and "f = pg_apply exec (\<lambda>n. if n = 0 then Some CommitFails else None)"
  shows "\<exists>s1 s2 s3. wal_apply f plain_io (fresh_stack d) b1 = (Inl ''COMMIT'', s1)
     \<and> wal_apply f plain_io s1 b2 = (Inr (), s2) \<and> db (inner s2) = d2
     \<and> replay_wal (pg_apply exec (\<lambda>_. None)) (\<lambda>_. False) (inner s2) (files s2) = (Inr 1, s3, [])
     \<and> db s3 = d21"
proof -
  let ?n0 = "wal_name 0 0" and ?n1 = "wal_name 1 0"
  have names: "?n0 \<noteq> ?n1" using wal_name_less [of 0 1 0 0] by force
  obtain a1 where "exec_tx exec False b1 (d, []) = Inr (d1, a1)" using exec_tx_batch [OF assms(2)] by blast
  then have one: "wal_apply f plain_io (fresh_stack d) b1 =
      (Inl ''COMMIT'', \<lparr>inner = \<lparr>db = d, audit = [], calls = 1, journal = []\<rparr>,
         files = [(?n0, file_content b1)], writes = 1\<rparr>)"
    by (simp add: assms(5) wal_apply_eq pg_apply_def persist_batch_def put_file_def plain_io_def
        fresh_stack_def Let_def)
  obtain a2 where "exec_tx exec False b2 (d, []) = Inr (d2, a2)" using exec_tx_batch [OF assms(3)] by blast
  then have two: "wal_apply f plain_io \<lparr>inner = \<lparr>db = d, audit = [], calls = 1, journal = []\<rparr>,
         files = [(?n0, file_content b1)], writes = 1\<rparr> b2 =
      (Inr (), \<lparr>inner = \<lparr>db = d2, audit = a2, calls = 2, journal = b2\<rparr>,
         files = [(?n0, file_content b1)], writes = 2\<rparr>)"
    using names by (simp add: assms(5) wal_apply_eq pg_apply_def persist_batch_def put_file_def remove_file_def
        plain_io_def Let_def)
  obtain s3 where "replay_wal (pg_apply exec (\<lambda>_. None)) (\<lambda>_. False)
      \<lparr>db = d2, audit = a2, calls = 2, journal = b2\<rparr> [(?n0, file_content b1)] = (Inr 1, s3, [])" "db s3 = d21"
    using replay_one [OF assms(1), of exec "\<lparr>db = d2, audit = a2, calls = 2, journal = b2\<rparr>" d21 "\<lambda>_. None" 0 0]
      assms(4) by auto
  with one two show ?thesis by simp
qed

theorem late_replay_overwrites_witness:
  "\<exists>s1 s2 s3. wal_apply (pg_apply set_row (\<lambda>n. if n = 0 then Some CommitFails else None)) plain_io
        (fresh_stack 0) [sample 1] = (Inl ''COMMIT'', s1)
     \<and> wal_apply (pg_apply set_row (\<lambda>n. if n = 0 then Some CommitFails else None)) plain_io s1 [sample 2]
        = (Inr (), s2) \<and> db (inner s2) = 2
     \<and> replay_wal (pg_apply set_row (\<lambda>_. None)) (\<lambda>_. False) (inner s2) (files s2) = (Inr 1, s3, [])
     \<and> db s3 = 1"
  by (rule late_replay_overwrites [where ?d1.0 = 1]) (simp_all add: loggable_sample)

end
