(* ===== verification/Wallet.thy ===== *)
theory Wallet
  imports Mutation
begin

text \<open>
  The gold guards (\<^verbatim>\<open>database/src/economy.rs\<close>): the range of a wallet, the checked delta and
  subtraction the shop, the trade and the guild use, the guarded absolute write, and the type
  check of the money log.
\<close>

section \<open>The money log\<close>

definition MONEY_LOG_RESERVED :: int where "MONEY_LOG_RESERVED = 0"
definition MONEY_LOG_MONSTER :: int where "MONEY_LOG_MONSTER = 1"
definition MONEY_LOG_SHOP :: int where "MONEY_LOG_SHOP = 2"
definition MONEY_LOG_REFINE :: int where "MONEY_LOG_REFINE = 3"
definition MONEY_LOG_QUEST :: int where "MONEY_LOG_QUEST = 4"
definition MONEY_LOG_GUILD :: int where "MONEY_LOG_GUILD = 5"
definition MONEY_LOG_MISC :: int where "MONEY_LOG_MISC = 6"
definition MONEY_LOG_MONSTER_KILL :: int where "MONEY_LOG_MONSTER_KILL = 7"
definition MONEY_LOG_DROP :: int where "MONEY_LOG_DROP = 8"
definition MONEY_LOG_TYPE_MAX_NUM :: int where "MONEY_LOG_TYPE_MAX_NUM = 9"

lemmas money_log_types = MONEY_LOG_RESERVED_def MONEY_LOG_MONSTER_def MONEY_LOG_SHOP_def
  MONEY_LOG_REFINE_def MONEY_LOG_QUEST_def MONEY_LOG_GUILD_def MONEY_LOG_MISC_def
  MONEY_LOG_MONSTER_KILL_def MONEY_LOG_DROP_def MONEY_LOG_TYPE_MAX_NUM_def

definition validate_money_log_type :: "int \<Rightarrow> string + unit" where
  "validate_money_log_type t =
    (if t \<le> MONEY_LOG_RESERVED \<or> t \<ge> MONEY_LOG_TYPE_MAX_NUM
     then Inl (''money log: type '' @ show_int t @ '' fuera de 1..='' @ show_int (MONEY_LOG_TYPE_MAX_NUM - 1)
               @ '' (RESERVED/MAX)'')
     else Inr ())"

lemma validate_money_log_type_ok:
  "validate_money_log_type t = Inr () \<longleftrightarrow> t \<in> {MONEY_LOG_MONSTER, MONEY_LOG_SHOP, MONEY_LOG_REFINE,
     MONEY_LOG_QUEST, MONEY_LOG_GUILD, MONEY_LOG_MISC, MONEY_LOG_MONSTER_KILL, MONEY_LOG_DROP}"
  by (auto simp: validate_money_log_type_def money_log_types)

section \<open>The gold guards\<close>

definition GOLD_MAX :: int where "GOLD_MAX = 2000000000"

definition is_valid_gold :: "int \<Rightarrow> bool" where
  "is_valid_gold gold \<longleftrightarrow> 0 \<le> gold \<and> gold \<le> GOLD_MAX"

definition checked_gold_delta :: "int \<Rightarrow> int \<Rightarrow> int option" where
  "checked_gold_delta current delta =
    (if \<not> is_valid_gold current then None
     else case checked (current + delta) of
            None \<Rightarrow> None
          | Some nxt \<Rightarrow> if is_valid_gold nxt then Some nxt else None)"

definition checked_gold_sub :: "int \<Rightarrow> int \<Rightarrow> int option" where
  "checked_gold_sub current amount =
    (if amount < 0 then None
     else if \<not> is_valid_gold current then None
     else case checked (current - amount) of
            None \<Rightarrow> None
          | Some nxt \<Rightarrow> if is_valid_gold nxt then Some nxt else None)"

definition SET_GOLD_SQL :: string where
  "SET_GOLD_SQL = ''UPDATE player.player SET gold = $2 WHERE id = $1''"

text \<open>\<^verbatim>\<open>Mutation::new\<close> draws a fresh identifier; it is the first argument here.\<close>

definition checked_gold_mutation :: "bytes \<Rightarrow> int \<Rightarrow> int \<Rightarrow> string + Mutation" where
  "checked_gold_mutation u player_id gold =
    (if \<not> is_valid_gold gold
     then Inl (''gold fuera de 0..='' @ show_int GOLD_MAX @ '' ('' @ show_int gold @ '') para el player ''
               @ show_int player_id)
     else Inr \<lparr>mutation_id = u, sql = SET_GOLD_SQL, params = [PInt player_id, PInt gold]\<rparr>)"

lemma valid_gold_i64: "is_valid_gold g \<Longrightarrow> in_i64 g"
  by (simp add: is_valid_gold_def GOLD_MAX_def in_i64_def i64_min_def i64_max_def)

lemma checked_gold_delta_Some:
  "checked_gold_delta c d = Some n \<longleftrightarrow> is_valid_gold c \<and> n = c + d \<and> is_valid_gold n"
  by (auto simp: checked_gold_delta_def valid_gold_i64 split: option.splits)

lemma checked_gold_sub_Some:
  "checked_gold_sub c a = Some n \<longleftrightarrow> 0 \<le> a \<and> is_valid_gold c \<and> n = c - a \<and> is_valid_gold n"
  by (auto simp: checked_gold_sub_def valid_gold_i64 split: option.splits)

lemma checked_gold_delta_None:
  "checked_gold_delta c d = None \<longleftrightarrow> \<not> (is_valid_gold c \<and> is_valid_gold (c + d))"
  using checked_gold_delta_Some [of c d] by (metis not_None_eq)

lemma checked_gold_sub_None:
  "checked_gold_sub c a = None \<longleftrightarrow> \<not> (0 \<le> a \<and> a \<le> c \<and> is_valid_gold c)"
proof -
  have "checked_gold_sub c a = None \<longleftrightarrow> \<not> (0 \<le> a \<and> is_valid_gold c \<and> is_valid_gold (c - a))"
    using checked_gold_sub_Some [of c a] by (metis not_None_eq)
  then show ?thesis by (auto simp: is_valid_gold_def)
qed

end
