(* ===== verification/Item.thy ===== *)
theory Item
  imports Wal Wallet
begin

text \<open>
  Item rows and the durable exchange unit (\<^verbatim>\<open>database/src/item.rs\<close>): the parameters of the
  upsert, the guarded statements of an \<^verbatim>\<open>ItemExchange\<close>, and what they do to the tables. What the
  game relies on in the database is the locale \<open>item_store\<close>; its laws are discharged by an
  interpreter of the statement texts.
\<close>

section \<open>Rows and statements\<close>

record ItemRow =
  row_id :: int
  row_window :: string
  row_pos :: int
  row_count :: int
  row_vnum :: int
  row_sockets :: "int list"
  row_attrs :: "(int \<times> int) list"

text \<open>
  The fixed array sizes and integer widths of the Rust struct, and a window name that the log
  gives back as it is (the sources use the four names of the item windows).
\<close>

definition ItemRow_ok :: "ItemRow \<Rightarrow> bool" where
  "ItemRow_ok r \<longleftrightarrow> length (row_sockets r) = 3 \<and> length (row_attrs r) = 7
     \<and> in_i64 (row_id r) \<and> in_i64 (row_pos r) \<and> in_i64 (row_count r) \<and> in_i64 (row_vnum r)
     \<and> plain_param (PText (row_window r)) \<and> list_all in_i64 (row_sockets r) \<and> list_all (\<lambda>(t, v). in_i64 t \<and> in_i64 v) (row_attrs r)"

definition UPSERT_SQL :: string where \<open>UPSERT_SQL =
''INSERT INTO player.item (id, owner_id, "window", pos, count, vnum, socket0, socket1, socket2, attrtype0, attrvalue0, attrtype1, attrvalue1, attrtype2, attrvalue2, attrtype3, attrvalue3, attrtype4, attrvalue4, attrtype5, attrvalue5, attrtype6, attrvalue6) VALUES ($1, $2, $3, $4, $5, $6, $7, $8, $9, $10, $11, $12, $13, $14, $15, $16, $17, $18, $19, $20, $21, $22, $23) ON CONFLICT (id) DO UPDATE SET owner_id = EXCLUDED.owner_id, "window" = EXCLUDED."window", pos = EXCLUDED.pos, count = EXCLUDED.count, vnum = EXCLUDED.vnum, socket0 = EXCLUDED.socket0, socket1 = EXCLUDED.socket1, socket2 = EXCLUDED.socket2, attrtype0 = EXCLUDED.attrtype0, attrvalue0 = EXCLUDED.attrvalue0, attrtype1 = EXCLUDED.attrtype1, attrvalue1 = EXCLUDED.attrvalue1, attrtype2 = EXCLUDED.attrtype2, attrvalue2 = EXCLUDED.attrvalue2, attrtype3 = EXCLUDED.attrtype3, attrvalue3 = EXCLUDED.attrvalue3, attrtype4 = EXCLUDED.attrtype4, attrvalue4 = EXCLUDED.attrvalue4, attrtype5 = EXCLUDED.attrtype5, attrvalue5 = EXCLUDED.attrvalue5, attrtype6 = EXCLUDED.attrtype6, attrvalue6 = EXCLUDED.attrvalue6 RETURNING id''\<close>

definition UPSERT_DEFAULT_ID_SQL :: string where \<open>UPSERT_DEFAULT_ID_SQL =
''INSERT INTO player.item (owner_id, "window", pos, count, vnum, socket0, socket1, socket2, attrtype0, attrvalue0, attrtype1, attrvalue1, attrtype2, attrvalue2, attrtype3, attrvalue3, attrtype4, attrvalue4, attrtype5, attrvalue5, attrtype6, attrvalue6) VALUES ($1, $2, $3, $4, $5, $6, $7, $8, $9, $10, $11, $12, $13, $14, $15, $16, $17, $18, $19, $20, $21, $22) ON CONFLICT (id) DO UPDATE SET owner_id = EXCLUDED.owner_id, "window" = EXCLUDED."window", pos = EXCLUDED.pos, count = EXCLUDED.count, vnum = EXCLUDED.vnum, socket0 = EXCLUDED.socket0, socket1 = EXCLUDED.socket1, socket2 = EXCLUDED.socket2, attrtype0 = EXCLUDED.attrtype0, attrvalue0 = EXCLUDED.attrvalue0, attrtype1 = EXCLUDED.attrtype1, attrvalue1 = EXCLUDED.attrvalue1, attrtype2 = EXCLUDED.attrtype2, attrvalue2 = EXCLUDED.attrvalue2, attrtype3 = EXCLUDED.attrtype3, attrvalue3 = EXCLUDED.attrvalue3, attrtype4 = EXCLUDED.attrtype4, attrvalue4 = EXCLUDED.attrvalue4, attrtype5 = EXCLUDED.attrtype5, attrvalue5 = EXCLUDED.attrvalue5, attrtype6 = EXCLUDED.attrtype6, attrvalue6 = EXCLUDED.attrvalue6 RETURNING id''\<close>

definition DELETE_GUARD_SQL :: string where
  "DELETE_GUARD_SQL = ''DELETE FROM player.item WHERE id = $1 AND count = $2''"
definition COUNT_GUARD_SQL :: string where
  "COUNT_GUARD_SQL = ''UPDATE player.item SET count = $2 WHERE id = $1 AND count = $3''"
definition GOLD_GUARD_SQL :: string where
  "GOLD_GUARD_SQL = ''UPDATE player.player SET gold = $2 WHERE id = $1 AND gold = $3''"

definition item_params_mutation :: "ItemRow \<Rightarrow> int \<Rightarrow> Param list" where
  "item_params_mutation row owner_id =
     (if row_id row \<noteq> 0 then [PInt (row_id row)] else [])
     @ [PInt owner_id, PText (row_window row), PInt (row_pos row), PInt (row_count row), PInt (row_vnum row)]
     @ map PInt (row_sockets row)
     @ concat (map (\<lambda>(t, v). [PInt t, PInt v]) (row_attrs row))"

text \<open>A statement is the text and the parameters; \<^verbatim>\<open>Mutation::new\<close> adds the identifier.\<close>

type_synonym statement = "string \<times> Param list"

definition Mutation_new :: "bytes \<Rightarrow> statement \<Rightarrow> Mutation" where
  "Mutation_new u st = \<lparr>mutation_id = u, sql = fst st, params = snd st\<rparr>"

definition upsert_mutation :: "ItemRow \<Rightarrow> int \<Rightarrow> statement" where
  "upsert_mutation row owner_id =
    (if row_id row = 0 then UPSERT_DEFAULT_ID_SQL else UPSERT_SQL, item_params_mutation row owner_id)"

record ItemExchange =
  ex_owner :: int
  ex_materials :: "(int \<times> int \<times> int) list"
  ex_result :: "(ItemRow \<times> int) option"
  ex_gold :: "(int \<times> int) option"

definition consume_mutation :: "int \<times> int \<times> int \<Rightarrow> statement" where
  "consume_mutation m =
    (case m of (i, pre, post) \<Rightarrow>
       if post = 0 then (DELETE_GUARD_SQL, [PInt i, PInt pre])
       else (COUNT_GUARD_SQL, [PInt i, PInt post, PInt pre]))"

definition gold_mutation :: "int \<Rightarrow> int \<times> int \<Rightarrow> statement" where
  "gold_mutation owner g =
    (case g of (pre, post) \<Rightarrow> (GOLD_GUARD_SQL, [PInt owner, PInt post, PInt pre]))"

definition exchange_mutations :: "ItemExchange \<Rightarrow> statement list" where
  "exchange_mutations ex =
     map consume_mutation (ex_materials ex)
     @ (case ex_result ex of Some (row, owner) \<Rightarrow> [upsert_mutation row owner] | None \<Rightarrow> [])
     @ (case ex_gold ex of Some g \<Rightarrow> [gold_mutation (ex_owner ex) g] | None \<Rightarrow> [])"

text \<open>\<open>u\<close> gives the identifiers the calls of \<^verbatim>\<open>Mutation::new\<close> draw.\<close>

definition unit_batch :: "(nat \<Rightarrow> bytes) \<Rightarrow> statement list \<Rightarrow> Mutation list" where
  "unit_batch u sts = map (\<lambda>(i, st). Mutation_new (u i) st) (enumerate 0 sts)"

section \<open>What the statements mean\<close>

text \<open>
  The two tables the unit touches: \<^verbatim>\<open>player.item\<close> by identifier (owner and row) and the gold of
  \<^verbatim>\<open>player.player\<close> by character. Each statement is an operation on one key of one table.
\<close>

type_synonym item_table = "int \<rightharpoonup> int \<times> ItemRow"
type_synonym purse_table = "int \<rightharpoonup> int"
type_synonym tables = "item_table \<times> purse_table"

datatype item_op =
    Consume int int int
  | Place ItemRow int
  | Transfer int int int

fun op_statement :: "item_op \<Rightarrow> statement" where
  "op_statement (Consume i pre post) = consume_mutation (i, pre, post)"
| "op_statement (Place row owner) = upsert_mutation row owner"
| "op_statement (Transfer owner pre post) = gold_mutation owner (pre, post)"

definition consume_row :: "int \<Rightarrow> int \<Rightarrow> (int \<times> ItemRow) option \<Rightarrow> (int \<times> ItemRow) option" where
  "consume_row pre post e =
    (case e of
       Some (owner, r) \<Rightarrow>
         if row_count r = pre then (if post = 0 then None else Some (owner, r\<lparr>row_count := post\<rparr>)) else e
     | None \<Rightarrow> None)"

fun op_effect :: "item_op \<Rightarrow> tables \<Rightarrow> tables" where
  "op_effect (Consume i pre post) (t, g) = (t(i := consume_row pre post (t i)), g)"
| "op_effect (Place row owner) (t, g) = (t(row_id row \<mapsto> (owner, row)), g)"
| "op_effect (Transfer owner pre post) (t, g) =
     (t, if g owner = Some pre then g(owner \<mapsto> post) else g)"

fun op_key :: "item_op \<Rightarrow> int + int" where
  "op_key (Consume i pre post) = Inl i"
| "op_key (Place row owner) = Inl (row_id row)"
| "op_key (Transfer owner pre post) = Inr owner"

text \<open>
  The parameters the statements are meant for: a result with an identifier of its own, and a
  balance the \<^verbatim>\<open>gold\<close> column accepts.
\<close>

fun op_ok :: "item_op \<Rightarrow> bool" where
  "op_ok (Consume i pre post) \<longleftrightarrow> in_i64 i \<and> in_i64 pre \<and> in_i64 post"
| "op_ok (Place row owner) \<longleftrightarrow> row_id row \<noteq> 0 \<and> ItemRow_ok row \<and> in_i64 owner"
| "op_ok (Transfer owner pre post) \<longleftrightarrow> in_i64 owner \<and> in_i64 pre \<and> is_valid_gold post"

definition unit_ops :: "ItemExchange \<Rightarrow> item_op list" where
  "unit_ops ex =
     map (\<lambda>(i, pre, post). Consume i pre post) (ex_materials ex)
     @ (case ex_result ex of Some (row, owner) \<Rightarrow> [Place row owner] | None \<Rightarrow> [])
     @ (case ex_gold ex of Some (pre, post) \<Rightarrow> [Transfer (ex_owner ex) pre post] | None \<Rightarrow> [])"

lemma unit_statements: "exchange_mutations ex = map op_statement (unit_ops ex)"
  by (auto simp: exchange_mutations_def unit_ops_def split: option.split)

text \<open>A batch that carries the statements of \<open>ops\<close>, whatever identifiers were drawn.\<close>

definition carries :: "item_op list \<Rightarrow> Mutation list \<Rightarrow> bool" where
  "carries ops b \<longleftrightarrow> list_all2 (\<lambda>p m. m = Mutation_new (mutation_id m) (op_statement p)) ops b"

lemma carries_Nil [simp]: "carries [] b \<longleftrightarrow> b = []"
  by (simp add: carries_def)

lemma carries_Cons:
  "carries (p # ps) b \<longleftrightarrow> (\<exists>u b'. b = Mutation_new u (op_statement p) # b' \<and> carries ps b')"
  by (auto simp: carries_def list_all2_Cons1 Mutation_new_def)

lemma carries_unit_batch: "carries ps (unit_batch u (map op_statement ps))"
  by (auto simp: carries_def unit_batch_def list_all2_conv_all_nth nth_enumerate_eq Mutation_new_def)

subsection \<open>Locality\<close>

definition at_key :: "int + int \<Rightarrow> tables \<Rightarrow> (int \<times> ItemRow) option + int option" where
  "at_key k T = (case k of Inl i \<Rightarrow> Inl (fst T i) | Inr ow \<Rightarrow> Inr (snd T ow))"

lemma tables_eqI: "(\<And>k. at_key k T = at_key k T') \<Longrightarrow> T = T'"
proof (rule prod_eqI)
  assume eq: "\<And>k. at_key k T = at_key k T'"
  show "fst T = fst T'" using eq [of "Inl _"] by (auto simp: at_key_def)
  show "snd T = snd T'" using eq [of "Inr _"] by (auto simp: at_key_def)
qed

lemma effect_frame: "k \<noteq> op_key p \<Longrightarrow> at_key k (op_effect p T) = at_key k T"
  by (cases T; cases p) (auto simp: at_key_def split: sum.split)

lemma effect_local:
  "at_key (op_key p) T = at_key (op_key p) T' \<Longrightarrow>
   at_key (op_key p) (op_effect p T) = at_key (op_key p) (op_effect p T')"
  by (cases T; cases T'; cases p) (auto simp: at_key_def)

lemma consume_row_idem: "consume_row pre post (consume_row pre post e) = consume_row pre post e"
  by (auto simp: consume_row_def split: option.splits)

lemma effect_idem: "op_effect p (op_effect p T) = op_effect p T"
  by (cases T; cases p) (auto simp: consume_row_idem)

lemma effect_fixed: "at_key (op_key p) (op_effect p T) = at_key (op_key p) T \<Longrightarrow> op_effect p T = T"
  using effect_frame by (intro tables_eqI) metis

lemma fold_frame: "k \<notin> op_key ` set ps \<Longrightarrow> at_key k (fold op_effect ps T) = at_key k T"
  by (induction ps arbitrary: T) (auto simp: effect_frame)

lemma fold_at:
  "distinct (map op_key ps) \<Longrightarrow> p \<in> set ps \<Longrightarrow>
   at_key (op_key p) (fold op_effect ps T) = at_key (op_key p) (op_effect p T)"
proof (induction ps arbitrary: T)
  case (Cons q ps)
  show ?case
  proof (cases "p = q")
    case True
    with Cons.prems show ?thesis by (simp add: fold_frame)
  next
    case False
    with Cons.prems have p: "p \<in> set ps" "op_key p \<noteq> op_key q" by (auto simp: rev_image_eqI)
    have "at_key (op_key p) (fold op_effect (q # ps) T) = at_key (op_key p) (op_effect p (op_effect q T))"
      using Cons.IH [OF _ p(1), of "op_effect q T"] Cons.prems(1) by simp
    also have "\<dots> = at_key (op_key p) (op_effect p T)"
      by (rule effect_local) (simp add: effect_frame p(2))
    finally show ?thesis .
  qed
qed simp

text \<open>After operations on distinct keys each of them has nothing left to do.\<close>

lemma settled:
  assumes "distinct (map op_key ps)" and "p \<in> set ps"
  shows "op_effect p (fold op_effect ps T) = fold op_effect ps T"
proof (rule effect_fixed)
  let ?F = "fold op_effect ps T"
  have at: "at_key (op_key p) ?F = at_key (op_key p) (op_effect p T)" by (rule fold_at [OF assms])
  then have "at_key (op_key p) (op_effect p ?F) = at_key (op_key p) (op_effect p (op_effect p T))"
    by (rule effect_local)
  with at show "at_key (op_key p) (op_effect p ?F) = at_key (op_key p) ?F" by (simp add: effect_idem)
qed

section \<open>The database behind the exchange\<close>

locale item_store =
  fixes exec :: "Mutation \<Rightarrow> 'd \<Rightarrow> string + 'd"
    and tables :: "'d \<Rightarrow> tables"
  assumes effect: "op_ok p \<Longrightarrow>
      \<exists>d'. exec (Mutation_new u (op_statement p)) d = Inr d' \<and> tables d' = op_effect p (tables d)"
    and unchanged: "op_ok p \<Longrightarrow> op_effect p (tables d) = tables d \<Longrightarrow>
      exec (Mutation_new u (op_statement p)) d = Inr d"
begin

lemma batch_effect:
  "list_all op_ok ps \<Longrightarrow> carries ps b \<Longrightarrow>
   \<exists>d'. exec_batch exec b d = Inr d' \<and> tables d' = fold op_effect ps (tables d)"
proof (induction ps arbitrary: b d)
  case (Cons p ps)
  then obtain u b' where b: "b = Mutation_new u (op_statement p) # b'" "carries ps b'"
    by (auto simp: carries_Cons)
  obtain d1 where d1: "exec (Mutation_new u (op_statement p)) d = Inr d1"
      "tables d1 = op_effect p (tables d)"
    using effect [of p u d] Cons.prems(1) by auto
  show ?case using Cons.IH [OF _ b(2), of d1] Cons.prems(1) b(1) d1 by auto
qed simp

lemma batch_unchanged:
  "list_all op_ok ps \<Longrightarrow> carries ps b \<Longrightarrow> list_all (\<lambda>p. op_effect p (tables d) = tables d) ps \<Longrightarrow>
   exec_batch exec b d = Inr d"
proof (induction ps arbitrary: b)
  case (Cons p ps)
  then show ?case using unchanged [of p d] by (auto simp: carries_Cons)
qed simp

text \<open>Once a batch over distinct keys is in effect, re-executing any part of it changes nothing.\<close>

lemma replay_part:
  assumes "list_all op_ok ps" and "distinct (map op_key ps)" and "carries ps b"
    and "exec_batch exec b d = Inr d'" and "set qs \<subseteq> set ps" and "carries qs b'"
  shows "exec_batch exec b' d' = Inr d'"
proof (rule batch_unchanged [OF _ assms(6)])
  have "tables d' = fold op_effect ps (tables d)"
    using batch_effect [OF assms(1,3), of d] assms(4) by auto
  then show "list_all (\<lambda>p. op_effect p (tables d') = tables d') qs"
    using settled [OF assms(2), of _ "tables d"] assms(5) by (auto simp: list_all_iff simp del: split_paired_All)
  show "list_all op_ok qs" using assms(1,5) by (auto simp: list_all_iff)
qed

end

section \<open>An interpreter of the statements\<close>

record item_db =
  rows :: item_table
  purses :: purse_table
  next_item :: int

definition db_tables :: "item_db \<Rightarrow> tables" where
  "db_tables d = (rows d, purses d)"

fun ints_of :: "Param list \<Rightarrow> int list option" where
  "ints_of [] = Some []"
| "ints_of (PInt i # ps) = map_option ((#) i) (ints_of ps)"
| "ints_of (_ # ps) = None"

fun pairs_of :: "int list \<Rightarrow> (int \<times> int) list" where
  "pairs_of (a # b # xs) = (a, b) # pairs_of xs"
| "pairs_of _ = []"

text \<open>The columns of the insert from \<^verbatim>\<open>owner_id\<close> on.\<close>

definition insert_row :: "int \<Rightarrow> Param list \<Rightarrow> (ItemRow \<times> int) option" where
  "insert_row i ps =
    (case ps of
       PInt ow # PText w # cols \<Rightarrow>
         (case ints_of cols of
            Some (p # c # v # s0 # s1 # s2 # attrs) \<Rightarrow>
              if length attrs = 14
              then Some (\<lparr>row_id = i, row_window = w, row_pos = p, row_count = c, row_vnum = v,
                          row_sockets = [s0, s1, s2], row_attrs = pairs_of attrs\<rparr>, ow)
              else None
          | _ \<Rightarrow> None)
     | _ \<Rightarrow> None)"

definition store_row :: "(ItemRow \<times> int) option \<Rightarrow> item_db \<Rightarrow> string + item_db" where
  "store_row r d = (case r of
     Some (row, ow) \<Rightarrow> Inr (d\<lparr>rows := (rows d)(row_id row \<mapsto> (ow, row))\<rparr>)
   | None \<Rightarrow> Inl ''bind'')"

definition exec_item :: "Mutation \<Rightarrow> item_db \<Rightarrow> string + item_db" where
  "exec_item m d =
    (if sql m = UPSERT_SQL then
       (case params m of PInt i # ps \<Rightarrow> store_row (insert_row i ps) d | _ \<Rightarrow> Inl ''bind'')
     else if sql m = UPSERT_DEFAULT_ID_SQL then
       store_row (insert_row (next_item d) (params m)) (d\<lparr>next_item := next_item d + 1\<rparr>)
     else if sql m = DELETE_GUARD_SQL then
       (case ints_of (params m) of
          Some [i, pre] \<Rightarrow> Inr (d\<lparr>rows := (rows d)(i := consume_row pre 0 (rows d i))\<rparr>)
        | _ \<Rightarrow> Inl ''bind'')
     else if sql m = COUNT_GUARD_SQL then
       (case ints_of (params m) of
          Some [i, post, pre] \<Rightarrow>
            Inr (d\<lparr>rows := (rows d)(i := map_option (\<lambda>(ow, r). (ow, if row_count r = pre
                                          then r\<lparr>row_count := post\<rparr> else r)) (rows d i))\<rparr>)
        | _ \<Rightarrow> Inl ''bind'')
     else if sql m = GOLD_GUARD_SQL then
       (case ints_of (params m) of
          Some [ow, post, pre] \<Rightarrow>
            if purses d ow = Some pre
            then (if post < 0 then Inl ''CHECK (gold >= 0)'' else Inr (d\<lparr>purses := (purses d)(ow \<mapsto> post)\<rparr>))
            else Inr d
        | _ \<Rightarrow> Inl ''bind'')
     else if sql m = SET_GOLD_SQL then
       (case ints_of (params m) of
          Some [ow, post] \<Rightarrow>
            if purses d ow \<noteq> None
            then (if post < 0 then Inl ''CHECK (gold >= 0)'' else Inr (d\<lparr>purses := (purses d)(ow \<mapsto> post)\<rparr>))
            else Inr d
        | _ \<Rightarrow> Inl ''bind'')
     else Inl ''syntax'')"

text \<open>The statements differ within their first characters.\<close>

lemma sql_heads:
  "take 28 UPSERT_SQL = ''INSERT INTO player.item (id,''"
  "take 28 UPSERT_DEFAULT_ID_SQL = ''INSERT INTO player.item (own''"
  "take 28 DELETE_GUARD_SQL = ''DELETE FROM player.item WHER''"
  "take 28 COUNT_GUARD_SQL = ''UPDATE player.item SET count''"
  "take 28 GOLD_GUARD_SQL = ''UPDATE player.player SET gol''"
  by (simp_all add: UPSERT_SQL_def UPSERT_DEFAULT_ID_SQL_def DELETE_GUARD_SQL_def COUNT_GUARD_SQL_def
      GOLD_GUARD_SQL_def)

lemma head_differs: "take 28 a \<noteq> take 28 b \<Longrightarrow> a \<noteq> b" for a b :: string
  by auto

lemma sql_distinct [simp]:
  "UPSERT_DEFAULT_ID_SQL \<noteq> UPSERT_SQL" "DELETE_GUARD_SQL \<noteq> UPSERT_SQL"
  "DELETE_GUARD_SQL \<noteq> UPSERT_DEFAULT_ID_SQL" "COUNT_GUARD_SQL \<noteq> UPSERT_SQL"
  "COUNT_GUARD_SQL \<noteq> UPSERT_DEFAULT_ID_SQL" "COUNT_GUARD_SQL \<noteq> DELETE_GUARD_SQL"
  "GOLD_GUARD_SQL \<noteq> UPSERT_SQL" "GOLD_GUARD_SQL \<noteq> UPSERT_DEFAULT_ID_SQL"
  "GOLD_GUARD_SQL \<noteq> DELETE_GUARD_SQL" "GOLD_GUARD_SQL \<noteq> COUNT_GUARD_SQL"
  by (rule head_differs, simp add: sql_heads)+

lemma ints_of_map [simp]: "ints_of (map PInt xs) = Some xs"
  by (induction xs) auto

lemma ints_of_append [simp]:
  "ints_of (map PInt xs @ ps) = map_option ((@) xs) (ints_of ps)"
  by (induction xs) (simp_all add: option.map_comp comp_def option.map_id0 id_def [symmetric])

lemma attr_params: "concat (map (\<lambda>(t, v). [PInt t, PInt v]) as) = map PInt (concat (map (\<lambda>(t, v). [t, v]) as))"
  by (induction as) auto

lemma pairs_of_flat: "pairs_of (concat (map (\<lambda>(t, v). [t, v]) as)) = as"
  by (induction as) auto

lemma length_flat: "length (concat (map (\<lambda>(t, v). [t, v]) as)) = 2 * length as"
  by (induction as) auto

lemma insert_row_params:
  assumes "ItemRow_ok row" and "row_id row \<noteq> 0"
  shows "\<exists>cols. item_params_mutation row ow = PInt (row_id row) # cols
    \<and> insert_row (row_id row) cols = Some (row, ow)"
proof -
  obtain s0 s1 s2 where "row_sockets row = [s0, s1, s2]"
    using assms(1) by (auto simp: ItemRow_ok_def length_Suc_conv numeral_3_eq_3)
  with assms show ?thesis
    by (simp add: item_params_mutation_def insert_row_def attr_params pairs_of_flat length_flat ItemRow_ok_def)
qed

lemma exec_place:
  assumes "ItemRow_ok row" and "row_id row \<noteq> 0"
  shows "exec_item (Mutation_new u (upsert_mutation row ow)) d = Inr (d\<lparr>rows := (rows d)(row_id row \<mapsto> (ow, row))\<rparr>)"
  using insert_row_params [OF assms, of ow] assms(2)
  by (auto simp: exec_item_def Mutation_new_def upsert_mutation_def store_row_def)

lemma exec_consume:
  "exec_item (Mutation_new u (consume_mutation (i, pre, post))) d =
    Inr (d\<lparr>rows := (rows d)(i := consume_row pre post (rows d i))\<rparr>)"
  by (auto simp: exec_item_def Mutation_new_def consume_mutation_def consume_row_def fun_eq_iff
      split: option.split)

lemma exec_transfer:
  "0 \<le> post \<Longrightarrow> exec_item (Mutation_new u (gold_mutation ow (pre, post))) d =
    Inr (d\<lparr>purses := (if purses d ow = Some pre then (purses d)(ow \<mapsto> post) else purses d)\<rparr>)"
  by (auto simp: exec_item_def Mutation_new_def gold_mutation_def)

lemma exec_op:
  "op_ok p \<Longrightarrow> exec_item (Mutation_new u (op_statement p)) d =
    Inr (d\<lparr>rows := fst (op_effect p (db_tables d)), purses := snd (op_effect p (db_tables d))\<rparr>)"
  by (cases p) (auto simp: exec_place exec_consume exec_transfer db_tables_def is_valid_gold_def)

interpretation pg_items: item_store exec_item db_tables
  by unfold_locales (auto simp: exec_op db_tables_def)

section \<open>The exchange unit\<close>

text \<open>Each unit names an item at most once, and its result is none of its materials; its result, when
  it has one, has an identifier (\<open>op_ok\<close>), as the units of the handlers have. The interface allows a
  result with identifier 0 too: see \<open>fresh_result_is_duplicated\<close>.\<close>

definition unit_ok :: "ItemExchange \<Rightarrow> bool" where
  "unit_ok ex \<longleftrightarrow> list_all op_ok (unit_ops ex) \<and> distinct (map op_key (unit_ops ex))"

lemma sql_ascii:
  "list_all (\<lambda>c. byte_of c < 128 \<and> c \<noteq> newline) UPSERT_SQL"
  "list_all (\<lambda>c. byte_of c < 128 \<and> c \<noteq> newline) DELETE_GUARD_SQL"
  "list_all (\<lambda>c. byte_of c < 128 \<and> c \<noteq> newline) COUNT_GUARD_SQL"
  "list_all (\<lambda>c. byte_of c < 128 \<and> c \<noteq> newline) GOLD_GUARD_SQL"
  by (simp_all add: UPSERT_SQL_def DELETE_GUARD_SQL_def COUNT_GUARD_SQL_def GOLD_GUARD_SQL_def byte_of_def)

lemma ascii_text: "list_all (\<lambda>c. byte_of c < 128 \<and> c \<noteq> newline) s \<Longrightarrow> utf8 s \<and> newline \<notin> set s"
  using ascii_utf8 [of s] by (auto simp: list_all_iff)

lemma plain_int [simp]: "plain_param (PInt i) \<longleftrightarrow> in_i64 i"
  by (simp add: plain_param_def Param_ok_def replayed_def)

lemma statement_loggable:
  assumes "op_ok p" and "length u = 16"
  shows "loggable (Mutation_new u (op_statement p))"
proof (cases p)
  case (Place row ow)
  with assms show ?thesis
    using ascii_text [OF sql_ascii(1)]
    by (auto simp: loggable_def Mutation_new_def upsert_mutation_def item_params_mutation_def ItemRow_ok_def
        list_all_iff)
qed (use assms ascii_text [OF sql_ascii(2)] ascii_text [OF sql_ascii(3)] ascii_text [OF sql_ascii(4)]
    valid_gold_i64 in
    \<open>auto simp: loggable_def Mutation_new_def consume_mutation_def gold_mutation_def\<close>)

lemma unit_loggable:
  assumes "list_all op_ok ps" and "\<And>i. length (u i) = 16"
  shows "list_all loggable (unit_batch u (map op_statement ps))"
  using assms statement_loggable
  by (auto simp: list_all_iff unit_batch_def enumerate_eq_zip dest!: set_zip_rightD)

text \<open>C14. An exchange unit is applied exactly once in effect. For a unit that names no item twice and
  whose result, if any, carries an identifier other than 0: its batch executes and does to the
  two tables what its guarded statements say; and if its log file is the only one and was written
  completely, then in each durable state that \<^verbatim>\<open>WalSink::apply\<close> goes through from there, whatever
  the connection does, the replay of the next start ends with exactly these tables. (For a result
  with identifier 0 it does not: \<open>fresh_result_is_duplicated\<close>.)\<close>

theorem exchange_unit_crash_safe:
  assumes "unit_ok ex" and "\<And>i. length (u i) = 16" and "persist_fault (io (writes s)) = None"
    and "files s = []" and "b = unit_batch u (exchange_mutations ex)"
  shows "\<exists>d'. exec_batch exec_item b (db (inner s)) = Inr d'
     \<and> db_tables d' = fold op_effect (unit_ops ex) (db_tables (db (inner s)))
     \<and> list_all (\<lambda>m. \<exists>k s'. replay_wal (pg_apply exec_item (\<lambda>_. None)) (\<lambda>_. False) (inner m) (files m)
              = (Inr k, s', []) \<and> db s' = d')
         (snd (wal_moments (pg_apply exec_item fault) io s b))"
proof -
  have ok: "list_all op_ok (unit_ops ex)" "distinct (map op_key (unit_ops ex))"
    using assms(1) by (simp_all add: unit_ok_def)
  have b: "carries (unit_ops ex) b" by (simp add: assms(5) unit_statements carries_unit_batch)
  obtain d' where d': "exec_batch exec_item b (db (inner s)) = Inr d'"
      "db_tables d' = fold op_effect (unit_ops ex) (db_tables (db (inner s)))"
    using pg_items.batch_effect [OF ok(1) b] by blast
  have "exec_batch exec_item b d' = Inr d'"
    by (rule pg_items.replay_part [OF ok b d'(1) _ b]) simp
  moreover have "list_all loggable b"
    unfolding assms(5) unit_statements using ok(1) assms(2) by (rule unit_loggable)
  ultimately have "list_all (recovered exec_item d') (snd (wal_moments (pg_apply exec_item fault) io s b))"
    using crash_recovers [of b io s exec_item d' fault] assms(3,4) d'(1) by simp
  with d' show ?thesis unfolding recovered_def by blast
qed

text \<open>A refinement of a sword: two scrolls are used up, the sword gets a new row, gold is paid.\<close>

definition sample_row :: "int \<Rightarrow> int \<Rightarrow> ItemRow" where
  "sample_row i c = \<lparr>row_id = i, row_window = ''INVENTORY'', row_pos = 3, row_count = c, row_vnum = 101,
     row_sockets = [0, 0, 0], row_attrs = replicate 7 (0, 0)\<rparr>"

definition sample_unit :: ItemExchange where
  "sample_unit = \<lparr>ex_owner = 7, ex_materials = [(1, 5, 3), (2, 1, 0)], ex_result = Some (sample_row 3 1, 7),
     ex_gold = Some (100, 40)\<rparr>"

lemma small_i64 [simp]: "\<bar>i\<bar> < 1000000000 \<Longrightarrow> in_i64 i"
  by (auto simp: in_i64_def i64_min_def i64_max_def)

lemma inventory_plain [simp]: "plain_param (PText ''INVENTORY'')"
  by (simp add: plain_param_def Param_ok_def replayed_def hex_lookalike_def ascii_utf8 byte_of_def)

lemma sample_row_ok: "\<bar>i\<bar> < 1000000000 \<Longrightarrow> \<bar>c\<bar> < 1000000000 \<Longrightarrow> ItemRow_ok (sample_row i c)"
  by (simp add: ItemRow_ok_def sample_row_def list_all_iff)

definition sample_stack :: "item_db pg wal" where
  "sample_stack = fresh_stack \<lparr>rows = [1 \<mapsto> (7, sample_row 1 5)], purses = [7 \<mapsto> 100], next_item = 9\<rparr>"

theorem exchange_unit_crash_safe_witness:
  "\<exists>d'. exec_batch exec_item (unit_batch (\<lambda>_. replicate 16 0) (exchange_mutations sample_unit))
        (db (inner sample_stack)) = Inr d'
     \<and> db_tables d' = fold op_effect (unit_ops sample_unit) (db_tables (db (inner sample_stack)))
     \<and> list_all (\<lambda>m. \<exists>k s'. replay_wal (pg_apply exec_item (\<lambda>_. None)) (\<lambda>_. False) (inner m) (files m)
              = (Inr k, s', []) \<and> db s' = d')
         (snd (wal_moments (pg_apply exec_item (\<lambda>_. Some CommitAckLost)) plain_io sample_stack
            (unit_batch (\<lambda>_. replicate 16 0) (exchange_mutations sample_unit))))"
  by (rule exchange_unit_crash_safe)
    (simp_all add: unit_ok_def unit_ops_def sample_unit_def sample_row_ok is_valid_gold_def GOLD_MAX_def
      plain_io_def sample_stack_def fresh_stack_def, simp_all add: sample_row_def)

section \<open>A result without an identifier\<close>

lemma exec_fresh:
  assumes "ItemRow_ok row" and "row_id row = 0"
  shows "exec_item (Mutation_new u (upsert_mutation row ow)) d =
    Inr (d\<lparr>rows := (rows d)(next_item d \<mapsto> (ow, row\<lparr>row_id := next_item d\<rparr>)), next_item := next_item d + 1\<rparr>)"
proof -
  obtain s0 s1 s2 where "row_sockets row = [s0, s1, s2]"
    using assms(1) by (auto simp: ItemRow_ok_def length_Suc_conv numeral_3_eq_3)
  moreover have "insert_row (next_item d) (item_params_mutation row ow) = Some (row\<lparr>row_id := next_item d\<rparr>, ow)"
    using assms calculation
    by (simp add: item_params_mutation_def insert_row_def attr_params pairs_of_flat length_flat ItemRow_ok_def)
  ultimately show ?thesis
    using assms(2) by (simp add: exec_item_def Mutation_new_def upsert_mutation_def store_row_def)
qed

lemma exec_ops:
  "list_all op_ok ps \<Longrightarrow> carries ps b \<Longrightarrow> \<exists>d'. exec_batch exec_item b d = Inr d'
     \<and> next_item d' = next_item d \<and> db_tables d' = fold op_effect ps (db_tables d)"
proof (induction ps arbitrary: b d)
  case (Cons p ps)
  obtain u b' where b: "b = Mutation_new u (op_statement p) # b'" "carries ps b'"
    using Cons.prems(2) by (auto simp: carries_Cons)
  let ?d = "d\<lparr>rows := fst (op_effect p (db_tables d)), purses := snd (op_effect p (db_tables d))\<rparr>"
  have "db_tables ?d = op_effect p (db_tables d)" by (simp add: db_tables_def)
  moreover have "exec_item (Mutation_new u (op_statement p)) d = Inr ?d"
    by (rule exec_op) (use Cons.prems(1) in simp)
  ultimately show ?case
    using Cons.IH [OF _ b(2), of ?d] Cons.prems(1) b(1) by auto
qed simp

lemma exec_batch_append:
  "exec_batch exec (a @ b) d = (case exec_batch exec a d of Inl e \<Rightarrow> Inl e | Inr d' \<Rightarrow> exec_batch exec b d')"
  by (induction a arbitrary: d) (auto split: sum.split)

lemma rows_kept:
  assumes "list_all op_ok ps" and "carries ps b" and "exec_batch exec_item b d = Inr d'"
    and "Inl k \<notin> op_key ` set ps"
  shows "next_item d' = next_item d \<and> rows d' k = rows d k"
proof -
  have "next_item d' = next_item d" and d': "db_tables d' = fold op_effect ps (db_tables d)"
    using exec_ops [OF assms(1,2), of d] assms(3) by auto
  moreover have "rows d' k = rows d k"
    using fold_frame [OF assms(4), of "db_tables d", folded d'] by (simp add: at_key_def db_tables_def)
  ultimately show ?thesis by simp
qed

text \<open>The parts of a unit before and after its result.\<close>

lemma carries_append: "carries (p @ q) b \<longleftrightarrow> (\<exists>a c. b = a @ c \<and> carries p a \<and> carries q c)"
proof
  assume "carries (p @ q) b"
  then show "\<exists>a c. b = a @ c \<and> carries p a \<and> carries q c"
    unfolding carries_def list_all2_append1 by blast
next
  assume "\<exists>a c. b = a @ c \<and> carries p a \<and> carries q c"
  then show "carries (p @ q) b" unfolding carries_def by (blast intro: list_all2_appendI)
qed

lemma unit_parts:
  assumes "ex_result ex = Some (row, ow)"
  shows "\<exists>v a c. unit_batch u (exchange_mutations ex) = a @ Mutation_new v (upsert_mutation row ow) # c
    \<and> carries (map (\<lambda>(i, pre, post). Consume i pre post) (ex_materials ex)) a
    \<and> carries (case ex_gold ex of Some (pre, post) \<Rightarrow> [Transfer (ex_owner ex) pre post] | None \<Rightarrow> []) c"
  using carries_unit_batch [of "unit_ops ex" u] assms
  by (auto simp: unit_statements unit_ops_def carries_append carries_Cons)

definition fresh_unit :: "ItemExchange \<Rightarrow> ItemRow \<Rightarrow> int \<Rightarrow> bool" where
  "fresh_unit ex row ow \<longleftrightarrow> ex_result ex = Some (row, ow) \<and> row_id row = 0 \<and> ItemRow_ok row \<and> in_i64 ow
     \<and> list_all op_ok (unit_ops (ex\<lparr>ex_result := None\<rparr>))"

lemma exec_fresh_unit:
  assumes "fresh_unit ex row ow" and "next_item d \<notin> fst ` set (ex_materials ex)"
  shows "\<exists>d'. exec_batch exec_item (unit_batch u (exchange_mutations ex)) d = Inr d'
    \<and> next_item d' = next_item d + 1
    \<and> rows d' (next_item d) = Some (ow, row\<lparr>row_id := next_item d\<rparr>)
    \<and> (\<forall>k. k \<noteq> next_item d \<longrightarrow> k \<notin> fst ` set (ex_materials ex) \<longrightarrow> rows d' k = rows d k)"
proof -
  let ?cs = "map (\<lambda>(i, pre, post). Consume i pre post) (ex_materials ex)"
  let ?gs = "case ex_gold ex of Some (pre, post) \<Rightarrow> [Transfer (ex_owner ex) pre post] | None \<Rightarrow> []"
  have row: "ItemRow_ok row" "row_id row = 0" "ex_result ex = Some (row, ow)"
    and ok: "list_all op_ok ?cs" "list_all op_ok ?gs"
    using assms(1) by (simp_all add: fresh_unit_def unit_ops_def split: option.splits prod.splits)
  obtain v a c where b: "unit_batch u (exchange_mutations ex) = a @ Mutation_new v (upsert_mutation row ow) # c"
    and ac: "carries ?cs a" "carries ?gs c" using unit_parts [OF row(3), of u] by blast
  obtain d1 where d1: "exec_batch exec_item a d = Inr d1" using exec_ops [OF ok(1) ac(1)] by blast
  have one: "k \<notin> fst ` set (ex_materials ex) \<Longrightarrow> next_item d1 = next_item d \<and> rows d1 k = rows d k" for k
    by (rule rows_kept [OF ok(1) ac(1) d1]) (auto simp: rev_image_eqI)
  let ?d2 = "d1\<lparr>rows := (rows d1)(next_item d1 \<mapsto> (ow, row\<lparr>row_id := next_item d1\<rparr>)), next_item := next_item d1 + 1\<rparr>"
  obtain d3 where d3: "exec_batch exec_item c ?d2 = Inr d3" using exec_ops [OF ok(2) ac(2)] by blast
  have two: "next_item d3 = next_item ?d2 \<and> rows d3 k = rows ?d2 k" for k
    by (rule rows_kept [OF ok(2) ac(2) d3]) (auto split: option.splits)
  show ?thesis
    using one one [OF assms(2)] two d3 by (simp add: b exec_batch_append d1 exec_fresh [OF row(1,2)])
qed

text \<open>The interface documents a result with identifier 0 as one that gets its identifier from the
  table (\<^verbatim>\<open>id == 0 -> identity DEFAULT\<close>), and the replay as an exact no-op after the commit. For
  such a unit it is not: a process that dies after the commit and before the file is removed
  leaves a file whose replay inserts the result a second time.\<close>

lemma fresh_unit_loggable:
  assumes "fresh_unit ex row ow" and "\<And>i. length (u i) = 16"
  shows "list_all loggable (unit_batch u (exchange_mutations ex))"
proof -
  have sql: "list_all (\<lambda>c. byte_of c < 128 \<and> c \<noteq> newline) UPSERT_DEFAULT_ID_SQL"
    by (simp add: UPSERT_DEFAULT_ID_SQL_def byte_of_def)
  have "loggable (Mutation_new v (upsert_mutation row ow))" if "length v = 16" for v
    using assms(1) that ascii_text [OF sql]
    by (auto simp: fresh_unit_def loggable_def Mutation_new_def upsert_mutation_def item_params_mutation_def
        ItemRow_ok_def list_all_iff)
  moreover have "loggable (Mutation_new v st)" if "st \<in> set (exchange_mutations (ex\<lparr>ex_result := None\<rparr>))"
      and "length v = 16" for v st
    using assms(1) that statement_loggable
    by (auto simp: fresh_unit_def unit_statements list_all_iff)
  moreover have "st = upsert_mutation row ow \<or> st \<in> set (exchange_mutations (ex\<lparr>ex_result := None\<rparr>))"
    if "st \<in> set (exchange_mutations ex)" for st
    using assms(1) that by (auto simp: fresh_unit_def exchange_mutations_def split: option.splits)
  ultimately show ?thesis
    using assms(2) by (fastforce simp: list_all_iff unit_batch_def enumerate_eq_zip dest!: set_zip_rightD)
qed

theorem fresh_result_is_duplicated:
  assumes "fresh_unit ex row ow" and "\<And>i. length (u i) = 16" and "persist_fault (io (writes s)) = None"
    and "files s = []" and "fault (calls (inner s)) = None" and "n = next_item (db (inner s))"
    and "n \<notin> fst ` set (ex_materials ex)" and "n + 1 \<notin> fst ` set (ex_materials ex)"
  shows "\<exists>m s'. m \<in> set (snd (wal_moments (pg_apply exec_item fault) io s (unit_batch u (exchange_mutations ex))))
     \<and> rows (db (inner m)) n = Some (ow, row\<lparr>row_id := n\<rparr>)
     \<and> rows (db (inner m)) (n + 1) = rows (db (inner s)) (n + 1)
     \<and> replay_wal (pg_apply exec_item (\<lambda>_. None)) (\<lambda>_. False) (inner m) (files m) = (Inr 1, s', [])
     \<and> rows (db s') n = Some (ow, row\<lparr>row_id := n\<rparr>)
     \<and> rows (db s') (n + 1) = Some (ow, row\<lparr>row_id := n + 1\<rparr>)"
proof -
  let ?b = "unit_batch u (exchange_mutations ex)" and ?e = "io (writes s)"
  let ?n = "wal_name (stamp ?e) (rnd ?e)"
  obtain d1 where d1: "exec_batch exec_item ?b (db (inner s)) = Inr d1" "next_item d1 = n + 1"
      "rows d1 n = Some (ow, row\<lparr>row_id := n\<rparr>)" "rows d1 (n + 1) = rows (db (inner s)) (n + 1)"
    using exec_fresh_unit [OF assms(1), of "db (inner s)" u] assms(6-8) by auto
  obtain d2 where d2: "exec_batch exec_item ?b d1 = Inr d2"
      "rows d2 (n + 1) = Some (ow, row\<lparr>row_id := n + 1\<rparr>)" "rows d2 n = rows d1 n"
    using exec_fresh_unit [OF assms(1), of d1 u] d1(2) assms(7,8) by auto
  obtain i where i: "pg_apply exec_item fault (inner s) ?b = (Inr (), i)" "db i = d1"
    using pg_apply_ok [of exec_item ?b "inner s" d1 fault] d1(1) assms(5) by blast
  let ?m = "s\<lparr>writes := writes s + 1, files := [(?n, file_content ?b)], inner := i\<rparr>"
  have m: "?m \<in> set (snd (wal_moments (pg_apply exec_item fault) io s ?b))"
    using assms(3,4) i(1) by (simp add: wal_moments_def persist_batch_def put_file_def Let_def)
  obtain s' where s': "replay_wal (pg_apply exec_item (\<lambda>_. None)) (\<lambda>_. False) i [(?n, file_content ?b)] = (Inr 1, s', [])"
      "db s' = d2"
    using replay_one [of ?b exec_item i d2 "\<lambda>_. None" "stamp ?e" "rnd ?e"]
      fresh_unit_loggable [OF assms(1,2)] d2(1) i(2) by auto
  show ?thesis
    by (intro exI [of _ ?m] exI [of _ s']) (use m s' d1 d2 i(2) in simp)
qed

theorem fresh_result_is_duplicated_witness:
  "\<exists>m s'. m \<in> set (snd (wal_moments (pg_apply exec_item (\<lambda>_. None)) plain_io sample_stack
        (unit_batch (\<lambda>_. replicate 16 0) (exchange_mutations (sample_unit\<lparr>ex_result := Some (sample_row 0 1, 7)\<rparr>)))))
     \<and> rows (db (inner m)) 9 = Some (7, (sample_row 0 1)\<lparr>row_id := 9\<rparr>)
     \<and> rows (db (inner m)) (9 + 1) = rows (db (inner sample_stack)) (9 + 1)
     \<and> replay_wal (pg_apply exec_item (\<lambda>_. None)) (\<lambda>_. False) (inner m) (files m) = (Inr 1, s', [])
     \<and> rows (db s') 9 = Some (7, (sample_row 0 1)\<lparr>row_id := 9\<rparr>)
     \<and> rows (db s') (9 + 1) = Some (7, (sample_row 0 1)\<lparr>row_id := 9 + 1\<rparr>)"
  by (rule fresh_result_is_duplicated)
    (simp_all add: fresh_unit_def unit_ops_def sample_unit_def sample_row_ok is_valid_gold_def GOLD_MAX_def
      plain_io_def sample_stack_def fresh_stack_def, simp_all add: sample_row_def)

end
