(* ===== verification/Shop.thy ===== *)
theory Shop
  imports Item
begin

text \<open>
  NPC shops: the rules of buying and selling (\<^verbatim>\<open>game_core/src/shop.rs\<close>) and the handlers of the
  channel that turn a receipt into a durable exchange unit and into the state of the session
  (\<^verbatim>\<open>apply_buy\<close> and \<^verbatim>\<open>apply_sell\<close> of \<^verbatim>\<open>server_realms/src/channel/shop.rs\<close>).
\<close>

section \<open>Prices\<close>

definition SHOP_HOST_ITEM_MAX_NUM :: nat where "SHOP_HOST_ITEM_MAX_NUM = 40"
definition SHOP_MAX_DISTANCE :: int where "SHOP_MAX_DISTANCE = 1000"
definition SELL_TAX_PCT :: int where "SELL_TAX_PCT = 3"
definition SELL_PRICE_DIVISOR :: int where "SELL_PRICE_DIVISOR = 5"
definition INVENTORY_MAX_NUM :: u16 where "INVENTORY_MAX_NUM = 180"
definition ITEM_COUNT_LIMIT :: int where "ITEM_COUNT_LIMIT = 200"

record ShopItem =
  si_vnum :: int
  si_count :: int
  si_price :: int
  si_display_pos :: u8

datatype ShopError =
    InvalidPos
  | SoldOut
  | NotEnoughMoney
  | InventoryFull
  | NoItem
  | Equipped
  | NotSellable
  | GoldOverflow

fun wire_subheader :: "ShopError \<Rightarrow> u8" where
  "wire_subheader InvalidPos = 8"
| "wire_subheader SoldOut = 6"
| "wire_subheader NotEnoughMoney = 4"
| "wire_subheader InventoryFull = 7"
| "wire_subheader NoItem = 1"
| "wire_subheader Equipped = 1"
| "wire_subheader NotSellable = 1"
| "wire_subheader GoldOverflow = 4"

text \<open>Rust's \<^verbatim>\<open>/\<close> and \<^verbatim>\<open>checked_div\<close> truncate; \<^verbatim>\<open>checked_mul\<close> and \<^verbatim>\<open>checked_sub\<close> stay in range.\<close>

definition checked_buy_price :: "int \<Rightarrow> int \<Rightarrow> bool \<Rightarrow> int option" where
  "checked_buy_price item_gold count count_per_1gold =
    (if item_gold < 0 \<or> count < 0 then None
     else if count_per_1gold then
       (if item_gold = 0 then Some count else Some (trunc_div count item_gold))
     else checked (item_gold * count))"

definition buy_price :: "int \<Rightarrow> int \<Rightarrow> bool \<Rightarrow> int" where
  "buy_price item_gold count count_per_1gold =
    (case checked_buy_price item_gold count count_per_1gold of Some p \<Rightarrow> p | None \<Rightarrow> i64_max)"

definition checked_sell_price :: "int \<Rightarrow> int \<Rightarrow> bool \<Rightarrow> int option" where
  "checked_sell_price shop_buy_price count count_per_1gold =
    (if shop_buy_price < 0 \<or> count < 0 then None
     else
       (let base = (if count_per_1gold then
                      (if shop_buy_price = 0 then Some count else Some (trunc_div count shop_buy_price))
                    else checked (shop_buy_price * count))
        in case base of
             None \<Rightarrow> None
           | Some b \<Rightarrow>
               (let price = trunc_div b SELL_PRICE_DIVISOR
                in case checked (price * SELL_TAX_PCT) of
                     None \<Rightarrow> None
                   | Some t \<Rightarrow> checked (price - trunc_div t 100))))"

definition sell_price :: "int \<Rightarrow> int \<Rightarrow> bool \<Rightarrow> int" where
  "sell_price shop_buy_price count count_per_1gold =
    (case checked_sell_price shop_buy_price count count_per_1gold of Some p \<Rightarrow> p | None \<Rightarrow> i64_max)"

section \<open>Buying\<close>

record BuyReceipt =
  br_price :: int
  br_stack :: "(int \<times> int \<times> int) option"
  br_new_pos :: u16

text \<open>The sum of two counts is not checked: a release build wraps.\<close>

definition stackable :: "ShopItem \<Rightarrow> int \<Rightarrow> ItemRow \<Rightarrow> bool" where
  "stackable it count_limit i \<longleftrightarrow>
     row_vnum i = si_vnum it \<and> wrap_i64 (row_count i + si_count it) \<le> count_limit"

definition free_cell :: "ItemRow list \<Rightarrow> u16 \<Rightarrow> u16 option" where
  "free_cell inventory cells =
    (let occupied = map row_pos inventory
     in map_option word_of_nat (List.find (\<lambda>cell. int cell \<notin> set occupied) [0..<unat cells]))"

definition buy :: "ItemRow list \<Rightarrow> int \<Rightarrow> ShopItem \<Rightarrow> int \<Rightarrow> u16 \<Rightarrow> ShopError + BuyReceipt" where
  "buy inventory gold it count_limit inventory_cells =
    (if si_vnum it \<le> 0 then Inl SoldOut
     else if \<not> is_valid_gold gold \<or> si_price it < 0 then Inl GoldOverflow
     else if gold < si_price it then Inl NotEnoughMoney
     else if checked_gold_sub gold (si_price it) = None then Inl GoldOverflow
     else case List.find (stackable it count_limit) inventory of
            Some e \<Rightarrow>
              Inr \<lparr>br_price = si_price it,
                   br_stack = Some (row_id e, row_count e, wrap_i64 (row_count e + si_count it)),
                   br_new_pos = 0\<rparr>
          | None \<Rightarrow>
              (case free_cell inventory inventory_cells of
                 Some cell \<Rightarrow> Inr \<lparr>br_price = si_price it, br_stack = None, br_new_pos = cell\<rparr>
               | None \<Rightarrow> Inl InventoryFull))"

section \<open>Selling\<close>

record SellProto =
  shop_buy_price :: int
  count_per_1gold :: bool

record SellReceipt =
  sr_price :: int
  sr_material :: "int \<times> int \<times> int"

text \<open>\<^verbatim>\<open>i.pos as u16 == cell\<close>, whatever window the row is in.\<close>

definition in_cell :: "u16 \<Rightarrow> ItemRow \<Rightarrow> bool" where
  "in_cell cell i \<longleftrightarrow> word_of_int (row_pos i) = cell"

definition sell_quantity :: "int \<Rightarrow> int \<Rightarrow> int" where
  "sell_quantity qty count = (if qty = 0 \<or> qty > count then count else qty)"

definition sell :: "ItemRow list \<Rightarrow> int \<Rightarrow> u16 \<Rightarrow> int \<Rightarrow> bool \<Rightarrow> SellProto \<Rightarrow> ShopError + SellReceipt" where
  "sell inventory gold cell qty antiflag_sell proto =
    (case List.find (in_cell cell) inventory of
       None \<Rightarrow> Inl NoItem
     | Some i \<Rightarrow>
         if row_window i \<noteq> ''INVENTORY'' then Inl Equipped
         else if antiflag_sell then Inl NotSellable
         else
           (let q = sell_quantity qty (row_count i)
            in case checked_sell_price (shop_buy_price proto) q (count_per_1gold proto) of
                 None \<Rightarrow> Inl GoldOverflow
               | Some price \<Rightarrow>
                   if checked_gold_delta gold price = None then Inl GoldOverflow
                   else Inr \<lparr>sr_price = price, sr_material = (row_id i, row_count i, row_count i - q)\<rparr>))"

section \<open>The handlers of the channel\<close>

text \<open>The part of the session the handlers read and write, and what they send.\<close>

record session =
  s_owner :: int
  s_gold :: int
  s_inventory :: "ItemRow list"

datatype reply =
    ShopSub u8
  | ItemUpdate u16 int
  | ItemSet u16 int int
  | ItemDel u16
  | Points
  | MoneyLog int int

record outcome =
  unit_sent :: "ItemExchange option"
  session_after :: session
  replies :: "reply list"

definition SHOP_SUBHEADER_GC_END :: u8 where "SHOP_SUBHEADER_GC_END = 1"

definition quiet :: "session \<Rightarrow> reply list \<Rightarrow> outcome" where
  "quiet s rs = \<lparr>unit_sent = None, session_after = s, replies = rs\<rparr>"

definition bought_row :: "int \<Rightarrow> u16 \<Rightarrow> int \<Rightarrow> int \<Rightarrow> ItemRow" where
  "bought_row i new_pos count vnum =
    \<lparr>row_id = i, row_window = ''INVENTORY'', row_pos = uint new_pos, row_count = count, row_vnum = vnum,
     row_sockets = [0, 0, 0], row_attrs = replicate 7 (0, 0)\<rparr>"

text \<open>The first row with identifier \<open>i\<close> gets the count.\<close>

fun set_count_by :: "(ItemRow \<Rightarrow> bool) \<Rightarrow> int \<Rightarrow> ItemRow list \<Rightarrow> ItemRow list" where
  "set_count_by P c [] = []"
| "set_count_by P c (r # rs) = (if P r then r\<lparr>row_count := c\<rparr> # rs else r # set_count_by P c rs)"

fun remove_by :: "(ItemRow \<Rightarrow> bool) \<Rightarrow> ItemRow list \<Rightarrow> ItemRow list" where
  "remove_by P [] = []"
| "remove_by P (r # rs) = (if P r then rs else r # remove_by P rs)"

definition buy_unit :: "session \<Rightarrow> ShopItem \<Rightarrow> BuyReceipt \<Rightarrow> int \<Rightarrow> int \<Rightarrow> ItemExchange" where
  "buy_unit s it r new_gold new_id =
    (case br_stack r of
       Some m \<Rightarrow> \<lparr>ex_owner = s_owner s, ex_materials = [m], ex_result = None,
                  ex_gold = Some (s_gold s, new_gold)\<rparr>
     | None \<Rightarrow> \<lparr>ex_owner = s_owner s, ex_materials = [],
                ex_result = Some (bought_row new_id (br_new_pos r) (si_count it) (si_vnum it), s_owner s),
                ex_gold = Some (s_gold s, new_gold)\<rparr>)"

text \<open>
  \<open>new_id\<close> is what \<^verbatim>\<open>max_id_in_range\<close> plus one gave, \<open>exchange_ok\<close> whether the durable unit was
  acknowledged. The price fits the \<^verbatim>\<open>i32\<close> of the money log because it is below the wallet.
\<close>

definition apply_buy :: "session \<Rightarrow> ShopItem \<Rightarrow> int \<Rightarrow> bool \<Rightarrow> outcome" where
  "apply_buy s it new_id exchange_ok =
    (case buy (s_inventory s) (s_gold s) it ITEM_COUNT_LIMIT INVENTORY_MAX_NUM of
       Inl e \<Rightarrow> quiet s [ShopSub (wire_subheader e)]
     | Inr r \<Rightarrow>
         (case checked_gold_sub (s_gold s) (br_price r) of
            None \<Rightarrow> quiet s [ShopSub (wire_subheader GoldOverflow)]
          | Some new_gold \<Rightarrow>
              (let ex = buy_unit s it r new_gold new_id
               in if \<not> exchange_ok
                  then \<lparr>unit_sent = Some ex, session_after = s, replies = [ShopSub SHOP_SUBHEADER_GC_END]\<rparr>
                  else
                    (let s1 = s\<lparr>s_gold := new_gold\<rparr>
                     in case br_stack r of
                          Some (i, pre, post) \<Rightarrow>
                            (let bag = set_count_by (\<lambda>x. row_id x = i) (wrap_i64 (pre + si_count it)) (s_inventory s)
                             in \<lparr>unit_sent = Some ex, session_after = s1\<lparr>s_inventory := bag\<rparr>,
                                 replies = (case List.find (\<lambda>x. row_id x = i) bag of
                                              Some x \<Rightarrow> [ItemUpdate (word_of_int (row_pos x)) (row_count x)]
                                            | None \<Rightarrow> [])
                                   @ [Points, MoneyLog (si_vnum it) (- si_price it)]\<rparr>)
                        | None \<Rightarrow>
                            (let row = bought_row new_id (br_new_pos r) (si_count it) (si_vnum it)
                             in \<lparr>unit_sent = Some ex, session_after = s1\<lparr>s_inventory := s_inventory s @ [row]\<rparr>,
                                 replies = [ItemSet (br_new_pos r) (si_vnum it) (si_count it), Points,
                                            MoneyLog (si_vnum it) (- si_price it)]\<rparr>)))))"

text \<open>\<open>proto\<close> answers the query for the sell price and the flag of a vnum.\<close>

definition apply_sell :: "session \<Rightarrow> u16 \<Rightarrow> int \<Rightarrow> (int \<Rightarrow> SellProto) \<Rightarrow> bool \<Rightarrow> outcome" where
  "apply_sell s cell qty proto exchange_ok =
    (case List.find (in_cell cell) (s_inventory s) of
       None \<Rightarrow> quiet s []
     | Some i \<Rightarrow>
         (case sell (s_inventory s) (s_gold s) cell qty False (proto (row_vnum i)) of
            Inl e \<Rightarrow> quiet s []
          | Inr r \<Rightarrow>
              (case checked_gold_delta (s_gold s) (sr_price r) of
                 None \<Rightarrow> quiet s []
               | Some new_gold \<Rightarrow>
                   (let ex = \<lparr>ex_owner = s_owner s, ex_materials = [sr_material r], ex_result = None,
                              ex_gold = Some (s_gold s, new_gold)\<rparr>;
                        post = snd (snd (sr_material r))
                    in if \<not> exchange_ok then \<lparr>unit_sent = Some ex, session_after = s, replies = []\<rparr>
                       else
                         (let bag = (if post \<le> 0 then remove_by (in_cell cell) (s_inventory s)
                                     else set_count_by (in_cell cell) post (s_inventory s))
                          in \<lparr>unit_sent = Some ex,
                              session_after = s\<lparr>s_gold := new_gold, s_inventory := bag\<rparr>,
                              replies = [if post \<le> 0 then ItemDel cell else ItemUpdate cell post, Points,
                                         MoneyLog (row_vnum i) (sr_price r)]\<rparr>)))))"

section \<open>Prices and receipts\<close>

lemma find_Some_D: "List.find P xs = Some x \<Longrightarrow> x \<in> set xs \<and> P x"
  by (metis find_Some_iff nth_mem)

lemma find_None_D: "List.find P xs = None \<Longrightarrow> x \<in> set xs \<Longrightarrow> \<not> P x"
  by (simp add: find_None_iff)

lemma find_upt_Some:
  "List.find P [0..<n] = Some k \<Longrightarrow> k < n \<and> P k \<and> (\<forall>j < k. \<not> P j)"
  by (auto simp: find_Some_iff)

lemma find_upt_None: "List.find P [0..<n] = None \<Longrightarrow> j < n \<Longrightarrow> \<not> P j"
  by (auto simp: find_None_iff)

lemma free_cell_Some:
  assumes "free_cell bag cells = Some c"
  shows "unat c < unat cells" and "uint c \<notin> row_pos ` set bag"
    and "int ` {..<unat c} \<subseteq> row_pos ` set bag"
proof -
  obtain k where k: "List.find (\<lambda>cell. int cell \<notin> set (map row_pos bag)) [0..<unat cells] = Some k"
      and c: "c = word_of_nat k"
    using assms by (auto simp: free_cell_def Let_def)
  have "k < 2 ^ 16" using find_upt_Some [OF k] unsigned_less [of cells, where ?'a = nat] by simp
  then have "unat c = k" by (simp add: c unat_of_nat take_bit_nat_eq_self)
  moreover from this have "uint c = int k" by (metis uint_nat)
  ultimately show "unat c < unat cells" "uint c \<notin> row_pos ` set bag" "int ` {..<unat c} \<subseteq> row_pos ` set bag"
    using find_upt_Some [OF k] by auto
qed

lemma free_cell_None: "free_cell bag cells = None \<Longrightarrow> int ` {..<unat cells} \<subseteq> row_pos ` set bag"
  by (auto simp: free_cell_def Let_def dest: find_upt_None)

text \<open>The price of a sale is a fifth of the base less three per cent, both rounded towards zero.\<close>

lemma sell_price_value:
  assumes "checked_sell_price p c f = Some v"
  shows "\<exists>b. b = (if f then (if p = 0 then c else c div p) else p * c)
    \<and> v = b div 5 - (b div 5 * 3) div 100 \<and> 0 \<le> v \<and> v \<le> b div 5"
proof -
  define b where "b = (if f then (if p = 0 then c else c div p) else p * c)"
  have pos: "0 \<le> p" "0 \<le> c" using assms by (auto simp: checked_sell_price_def split: if_splits)
  then have b0: "0 \<le> b" by (simp add: b_def pos_imp_zdiv_nonneg_iff)
  then have t0: "0 \<le> b div 5 * 3" by (simp add: pos_imp_zdiv_nonneg_iff)
  have "v = trunc_div b 5 - trunc_div (trunc_div b 5 * 3) 100"
    using assms pos
    by (auto simp: checked_sell_price_def b_def SELL_PRICE_DIVISOR_def SELL_TAX_PCT_def Let_def
        split: if_splits option.splits)
  then have "v = b div 5 - (b div 5 * 3) div 100" using b0 t0 by simp
  moreover have "(b div 5 * 3) div 100 \<le> b div 5" "0 \<le> (b div 5 * 3) div 100"
    using b0 t0 by (linarith, simp add: pos_imp_zdiv_nonneg_iff)
  ultimately show ?thesis using b0 by (intro exI [of _ b]) (simp add: b_def)
qed

text \<open>C15. What a purchase decides, on every branch: an accepted one leaves a valid balance and either
  fills a stack of the same vnum up to the limit or names the first cell no row stands in; each
  rejection has its reason in the inputs, and the three errors of a sale never occur.\<close>

theorem buy_decides:
  "case buy bag gold it lim cells of
     Inl e \<Rightarrow>
       (case e of
          SoldOut \<Rightarrow> si_vnum it \<le> 0
        | GoldOverflow \<Rightarrow> \<not> (is_valid_gold gold \<and> 0 \<le> si_price it)
        | NotEnoughMoney \<Rightarrow> is_valid_gold gold \<and> gold < si_price it
        | InventoryFull \<Rightarrow>
            int ` {..<unat cells} \<subseteq> row_pos ` set bag \<and> list_all (\<lambda>i. \<not> stackable it lim i) bag
        | _ \<Rightarrow> False)
   | Inr r \<Rightarrow>
       br_price r = si_price it \<and> 0 \<le> si_price it \<and> is_valid_gold gold \<and> is_valid_gold (gold - si_price it)
       \<and> (case br_stack r of
            Some (i, pre, post) \<Rightarrow>
              (\<exists>e. e \<in> set bag \<and> row_id e = i \<and> row_vnum e = si_vnum it \<and> row_count e = pre
                 \<and> post = wrap_i64 (pre + si_count it) \<and> post \<le> lim)
          | None \<Rightarrow>
              list_all (\<lambda>i. \<not> stackable it lim i) bag \<and> unat (br_new_pos r) < unat cells
              \<and> uint (br_new_pos r) \<notin> row_pos ` set bag
              \<and> int ` {..<unat (br_new_pos r)} \<subseteq> row_pos ` set bag)"
proof (cases "0 < si_vnum it \<and> is_valid_gold gold \<and> 0 \<le> si_price it \<and> si_price it \<le> gold")
  case True
  then have paid: "is_valid_gold (gold - si_price it)" by (simp add: is_valid_gold_def)
  then have sub: "checked_gold_sub gold (si_price it) \<noteq> None"
    using True checked_gold_sub_None [of gold "si_price it"] by simp
  show ?thesis
  proof (cases "List.find (stackable it lim) bag")
    case (Some e)
    then show ?thesis using True paid sub find_Some_D [OF Some] by (auto simp: buy_def stackable_def)
  next
    case None
    have no: "list_all (\<lambda>i. \<not> stackable it lim i) bag"
      using find_None_D [OF None] by (auto simp: list_all_iff)
    show ?thesis
    proof (cases "free_cell bag cells")
      case None
      with \<open>List.find (stackable it lim) bag = None\<close> True sub no free_cell_None [OF None] show ?thesis
        by (simp add: buy_def)
    next
      case (Some c)
      with \<open>List.find (stackable it lim) bag = None\<close> True paid sub no free_cell_Some [OF Some]
      show ?thesis by (simp add: buy_def)
    qed
  qed
qed (auto simp: buy_def checked_gold_sub_None)

text \<open>C16. What a sale decides: it is for the first row in the cell, which must be in the inventory
  window, for the asked quantity or the whole stack; the price is a fifth of the base less the
  tax, and the balance stays valid. An empty cell, another window, a forbidden item and a balance
  above the maximum are the only rejections.\<close>

theorem sell_decides:
  "case sell bag gold cell qty anti proto of
     Inl e \<Rightarrow>
       (case e of
          NoItem \<Rightarrow> list_all (\<lambda>i. \<not> in_cell cell i) bag
        | Equipped \<Rightarrow> (\<exists>i. List.find (in_cell cell) bag = Some i \<and> row_window i \<noteq> ''INVENTORY'')
        | NotSellable \<Rightarrow> anti
        | GoldOverflow \<Rightarrow>
            (\<exists>i. List.find (in_cell cell) bag = Some i
               \<and> (case checked_sell_price (shop_buy_price proto) (sell_quantity qty (row_count i)) (count_per_1gold proto)
                  of None \<Rightarrow> True | Some p \<Rightarrow> \<not> (is_valid_gold gold \<and> is_valid_gold (gold + p))))
        | _ \<Rightarrow> False)
   | Inr r \<Rightarrow>
       (\<exists>i q b. List.find (in_cell cell) bag = Some i \<and> row_window i = ''INVENTORY'' \<and> \<not> anti
          \<and> q = sell_quantity qty (row_count i) \<and> 0 \<le> q \<and> q \<le> row_count i
          \<and> sr_material r = (row_id i, row_count i, row_count i - q)
          \<and> b = (if count_per_1gold proto
                 then (if shop_buy_price proto = 0 then q else q div shop_buy_price proto)
                 else shop_buy_price proto * q)
          \<and> sr_price r = b div 5 - (b div 5 * 3) div 100 \<and> 0 \<le> sr_price r
          \<and> is_valid_gold gold \<and> is_valid_gold (gold + sr_price r))"
proof (cases "List.find (in_cell cell) bag")
  case None
  then show ?thesis using find_None_D [OF None] by (auto simp: sell_def list_all_iff)
next
  case (Some i)
  let ?q = "sell_quantity qty (row_count i)"
  have q: "?q \<le> row_count i" by (simp add: sell_quantity_def)
  show ?thesis
  proof (cases "checked_sell_price (shop_buy_price proto) ?q (count_per_1gold proto)")
    case None
    with Some show ?thesis by (simp add: sell_def Let_def)
  next
    case (Some p)
    have "0 \<le> ?q" using Some by (auto simp: checked_sell_price_def split: if_splits)
    with \<open>List.find (in_cell cell) bag = Some i\<close> Some q sell_price_value [OF Some] show ?thesis
      by (auto simp: sell_def Let_def checked_gold_delta_None)
  qed
qed

section \<open>Sessions and tables stay equal\<close>

text \<open>
  A session mirrors the tables when its inventory is exactly the rows its character owns and its
  gold the balance of the character.
\<close>

definition bag_map :: "ItemRow list \<Rightarrow> int \<rightharpoonup> ItemRow" where
  "bag_map bag = map_of (map (\<lambda>r. (row_id r, r)) bag)"

definition owned :: "int \<Rightarrow> tables \<Rightarrow> int \<rightharpoonup> ItemRow" where
  "owned ow T = (\<lambda>i. case fst T i of Some (o', r) \<Rightarrow> if o' = ow then Some r else None | None \<Rightarrow> None)"

definition row_sane :: "ItemRow \<Rightarrow> bool" where
  "row_sane r \<longleftrightarrow> ItemRow_ok r \<and> row_id r \<noteq> 0 \<and> 0 < row_count r \<and> row_count r < 2 ^ 31"

definition mirrors :: "session \<Rightarrow> tables \<Rightarrow> bool" where
  "mirrors s T \<longleftrightarrow> distinct (map row_id (s_inventory s)) \<and> list_all row_sane (s_inventory s)
     \<and> in_i64 (s_owner s) \<and> is_valid_gold (s_gold s)
     \<and> snd T (s_owner s) = Some (s_gold s) \<and> owned (s_owner s) T = bag_map (s_inventory s)"

lemma bag_map_Nil [simp]: "bag_map [] = Map.empty"
  by (simp add: bag_map_def)

lemma bag_map_Cons [simp]: "bag_map (r # rs) = (bag_map rs)(row_id r \<mapsto> r)"
  by (simp add: bag_map_def)

lemma bag_map_append_new:
  "row_id r \<notin> row_id ` set bag \<Longrightarrow> bag_map (bag @ [r]) = (bag_map bag)(row_id r \<mapsto> r)"
  by (induction bag) (auto simp: fun_upd_twist)

lemma bag_map_None: "bag_map bag i = None \<longleftrightarrow> i \<notin> row_id ` set bag"
  by (induction bag) auto

lemma find_id: "List.find P bag = Some e \<Longrightarrow> row_id r \<notin> row_id ` set bag \<Longrightarrow> row_id e \<noteq> row_id r"
  by (metis find_Some_D imageI)

lemma find_bag_map:
  "List.find P bag = Some e \<Longrightarrow> distinct (map row_id bag) \<Longrightarrow> bag_map bag (row_id e) = Some e"
  by (induction bag) (auto split: if_splits dest: find_id)

lemma map_id_set_count [simp]: "map row_id (set_count_by P c bag) = map row_id bag"
  by (induction bag) auto

lemma set_id_set_count [simp]: "row_id ` set (set_count_by P c bag) = row_id ` set bag"
  by (metis map_id_set_count set_map)

lemma bag_map_set_count:
  "List.find P bag = Some e \<Longrightarrow> distinct (map row_id bag) \<Longrightarrow>
   bag_map (set_count_by P c bag) = (bag_map bag)(row_id e \<mapsto> e\<lparr>row_count := c\<rparr>)"
  by (induction bag) (auto split: if_splits dest: find_id intro!: fun_upd_twist)

lemma bag_map_remove:
  "List.find P bag = Some e \<Longrightarrow> distinct (map row_id bag) \<Longrightarrow>
   bag_map (remove_by P bag) = (bag_map bag)(row_id e := None)"
proof (induction bag)
  case (Cons r bag)
  show ?case
  proof (cases "P r")
    case True
    moreover have "bag_map bag (row_id r) = None" using Cons.prems(2) by (auto simp: bag_map_None)
    ultimately show ?thesis using Cons.prems(1) by (auto simp: fun_upd_idem)
  next
    case False
    with Cons.prems have "row_id e \<noteq> row_id r" by (auto dest: find_id)
    with False Cons show ?thesis by (auto simp: fun_upd_twist)
  qed
qed simp

lemma set_remove: "set (remove_by P bag) \<subseteq> set bag"
  by (induction bag) auto

lemma distinct_remove: "distinct (map row_id bag) \<Longrightarrow> distinct (map row_id (remove_by P bag))"
  by (induction bag) (use set_remove in fastforce)+

lemma sane_set_count:
  assumes "list_all row_sane bag" and "0 < c" and "c < 2 ^ 31"
  shows "list_all row_sane (set_count_by P c bag)"
proof -
  have "in_i64 c" using assms(2,3) by (simp add: in_i64_def i64_min_def i64_max_def)
  then show ?thesis using assms by (induction bag) (auto simp: row_sane_def ItemRow_ok_def)
qed

lemma owned_item:
  "owned ow T i = Some r \<Longrightarrow> fst T i = Some (ow, r)"
  by (auto simp: owned_def split: option.splits if_splits)

text \<open>What the two kinds of units do to the rows of their owner.\<close>

lemma consume_effect:
  assumes "mirrors s T" and "bag_map (s_inventory s) i = Some e" and "pre = row_count e"
    and "T' = fold op_effect [Consume i pre post, Transfer (s_owner s) (s_gold s) g] T"
  shows "owned (s_owner s) T' = (bag_map (s_inventory s))(i := if post = 0 then None else Some (e\<lparr>row_count := post\<rparr>))"
    and "snd T' (s_owner s) = Some g"
proof -
  have e: "fst T i = Some (s_owner s, e)"
    using assms(1,2) by (intro owned_item) (simp add: mirrors_def)
  have own: "owned (s_owner s) T j = bag_map (s_inventory s) j" for j
    using assms(1) by (simp add: mirrors_def)
  show "owned (s_owner s) T' = (bag_map (s_inventory s))(i := if post = 0 then None else Some (e\<lparr>row_count := post\<rparr>))"
    using e own by (cases T) (auto simp: assms(3,4) owned_def consume_row_def fun_eq_iff)
  show "snd T' (s_owner s) = Some g"
    using assms(1) by (cases T) (auto simp: assms(4) mirrors_def)
qed

lemma place_effect:
  assumes "mirrors s T" and "T' = fold op_effect [Place row (s_owner s), Transfer (s_owner s) (s_gold s) g] T"
  shows "owned (s_owner s) T' = (bag_map (s_inventory s))(row_id row \<mapsto> row)"
    and "snd T' (s_owner s) = Some g"
proof -
  have own: "owned (s_owner s) T j = bag_map (s_inventory s) j" for j
    using assms(1) by (simp add: mirrors_def)
  show "owned (s_owner s) T' = (bag_map (s_inventory s))(row_id row \<mapsto> row)"
    using own by (cases T) (auto simp: assms(2) owned_def fun_eq_iff)
  show "snd T' (s_owner s) = Some g"
    using assms(1) by (cases T) (auto simp: assms(2) mirrors_def)
qed

text \<open>
  One action of a player. A unit that was acknowledged is executed; of one that was not, the
  transaction was rolled back.
\<close>

definition execute_unit :: "(nat \<Rightarrow> bytes) \<Rightarrow> outcome \<Rightarrow> bool \<Rightarrow> item_db \<Rightarrow> item_db \<Rightarrow> bool" where
  "execute_unit u r committed d d' \<longleftrightarrow>
    (case unit_sent r of
       Some ex \<Rightarrow> if committed then exec_batch exec_item (unit_batch u (exchange_mutations ex)) d = Inr d' else d' = d
     | None \<Rightarrow> d' = d)"

definition item_sane :: "ShopItem \<Rightarrow> bool" where
  "item_sane it \<longleftrightarrow> 0 < si_count it \<and> si_count it < 2 ^ 31 \<and> in_i64 (si_vnum it)"

inductive shop_step :: "session \<times> item_db \<Rightarrow> session \<times> item_db \<Rightarrow> bool" where
  Buy: "item_sane it \<Longrightarrow> rows d new_id = None \<Longrightarrow> new_id \<noteq> 0 \<Longrightarrow> in_i64 new_id \<Longrightarrow>
     execute_unit u (apply_buy s it new_id committed) committed d d' \<Longrightarrow>
     shop_step (s, d) (session_after (apply_buy s it new_id committed), d')"
| Sell: "execute_unit u (apply_sell s cell qty proto committed) committed d d' \<Longrightarrow>
     shop_step (s, d) (session_after (apply_sell s cell qty proto committed), d')"

lemma execute_ops:
  assumes "exec_batch exec_item (unit_batch u (exchange_mutations ex)) d = Inr d'"
    and "list_all op_ok (unit_ops ex)"
  shows "db_tables d' = fold op_effect (unit_ops ex) (db_tables d)"
  using pg_items.batch_effect [OF assms(2) carries_unit_batch, of u d] assms(1)
  by (auto simp: unit_statements)

lemma i64_of_sane: "row_sane r \<Longrightarrow> in_i64 (row_id r) \<and> in_i64 (row_count r)"
  by (simp add: row_sane_def ItemRow_ok_def)

lemma bag_member: "bag_map bag i = Some r \<Longrightarrow> r \<in> set bag \<and> row_id r = i"
  by (auto simp: bag_map_def dest!: map_of_SomeD)

lemma small_sum: "0 < a \<Longrightarrow> a < 2 ^ 31 \<Longrightarrow> 0 < b \<Longrightarrow> b < 2 ^ 31 \<Longrightarrow> wrap_i64 (a + b) = a + b" for a b :: int
  by (rule wrap_i64_id) (simp add: in_i64_def i64_min_def i64_max_def)

lemma find_by_id:
  "distinct (map row_id bag) \<Longrightarrow> e \<in> set bag \<Longrightarrow> List.find (\<lambda>x. row_id x = row_id e) bag = Some e"
  by (induction bag) (auto dest: imageI [of e _ row_id])

lemma mirrors_sane: "mirrors s T \<Longrightarrow> r \<in> set (s_inventory s) \<Longrightarrow> row_sane r"
  by (auto simp: mirrors_def list_all_iff)

text \<open>Updating or dropping one row keeps the mirror.\<close>

lemma mirror_consumed:
  assumes "mirrors s T" and "List.find P (s_inventory s) = Some e" and "0 \<le> post" and "post < 2 ^ 31"
    and "is_valid_gold g" and "T' = fold op_effect [Consume (row_id e) (row_count e) post, Transfer (s_owner s) (s_gold s) g] T"
    and "s' = s\<lparr>s_gold := g, s_inventory := (if post = 0 then remove_by P (s_inventory s)
                                             else set_count_by P post (s_inventory s))\<rparr>"
  shows "mirrors s' T'"
proof -
  have d: "distinct (map row_id (s_inventory s))" using assms(1) by (simp add: mirrors_def)
  note eff = consume_effect [OF assms(1) find_bag_map [OF assms(2) d] refl assms(6)]
  have "list_all row_sane (remove_by P (s_inventory s))"
    using assms(1) set_remove [of P "s_inventory s"] by (auto simp: mirrors_def list_all_iff)
  moreover have "post \<noteq> 0 \<Longrightarrow> list_all row_sane (set_count_by P post (s_inventory s))"
    using assms(1,3,4) by (intro sane_set_count) (auto simp: mirrors_def)
  ultimately show ?thesis
    using assms(1,5) eff d bag_map_remove [OF assms(2) d] bag_map_set_count [OF assms(2) d, of post]
    by (auto simp: mirrors_def assms(7) distinct_remove)
qed

lemma mirror_placed:
  assumes "mirrors s T" and "row_sane row" and "fst T (row_id row) = None" and "is_valid_gold g"
    and "T' = fold op_effect [Place row (s_owner s), Transfer (s_owner s) (s_gold s) g] T"
    and "s' = s\<lparr>s_gold := g, s_inventory := s_inventory s @ [row]\<rparr>"
  shows "mirrors s' T'"
proof -
  note eff = place_effect [OF assms(1,5)]
  have "owned (s_owner s) T (row_id row) = None" using assms(3) by (simp add: owned_def)
  then have new: "row_id row \<notin> row_id ` set (s_inventory s)"
    using assms(1) by (simp add: mirrors_def bag_map_None)
  then show ?thesis
    using assms(1,2,4) eff by (auto simp: mirrors_def assms(6) bag_map_append_new)
qed

text \<open>The four ways \<^verbatim>\<open>apply_buy\<close> and \<^verbatim>\<open>apply_sell\<close> can end.\<close>

lemma buy_outcome:
  obtains "unit_sent (apply_buy s it i ok) = None" "session_after (apply_buy s it i ok) = s"
  | ex where "unit_sent (apply_buy s it i ok) = Some ex" "\<not> ok" "session_after (apply_buy s it i ok) = s"
  | e where "ok" "List.find (stackable it ITEM_COUNT_LIMIT) (s_inventory s) = Some e"
      "is_valid_gold (s_gold s - si_price it)"
      "unit_sent (apply_buy s it i ok) = Some \<lparr>ex_owner = s_owner s,
         ex_materials = [(row_id e, row_count e, wrap_i64 (row_count e + si_count it))], ex_result = None,
         ex_gold = Some (s_gold s, s_gold s - si_price it)\<rparr>"
      "session_after (apply_buy s it i ok) = s\<lparr>s_gold := s_gold s - si_price it,
         s_inventory := set_count_by (\<lambda>x. row_id x = row_id e) (wrap_i64 (row_count e + si_count it)) (s_inventory s)\<rparr>"
  | c where "ok" "is_valid_gold (s_gold s - si_price it)"
      "unit_sent (apply_buy s it i ok) = Some \<lparr>ex_owner = s_owner s, ex_materials = [],
         ex_result = Some (bought_row i c (si_count it) (si_vnum it), s_owner s),
         ex_gold = Some (s_gold s, s_gold s - si_price it)\<rparr>"
      "session_after (apply_buy s it i ok) = s\<lparr>s_gold := s_gold s - si_price it,
         s_inventory := s_inventory s @ [bought_row i c (si_count it) (si_vnum it)]\<rparr>"
proof (cases "buy (s_inventory s) (s_gold s) it ITEM_COUNT_LIMIT INVENTORY_MAX_NUM")
  case (Inl e)
  then show ?thesis by (intro that(1)) (simp_all add: apply_buy_def quiet_def)
next
  case (Inr r)
  then have r: "br_price r = si_price it" "checked_gold_sub (s_gold s) (si_price it) \<noteq> None"
    by (auto simp: buy_def split: if_splits option.splits)
  then have sub: "checked_gold_sub (s_gold s) (br_price r) = Some (s_gold s - si_price it)"
      "is_valid_gold (s_gold s - si_price it)"
    by (auto simp: checked_gold_sub_Some)
  show ?thesis
  proof (cases ok)
    case False
    with Inr sub show ?thesis
      by (intro that(2) [of "buy_unit s it r (s_gold s - si_price it) i"]) (simp_all add: apply_buy_def Let_def)
  next
    case True
    show ?thesis
    proof (cases "List.find (stackable it ITEM_COUNT_LIMIT) (s_inventory s)")
      case None
      then have "br_stack r = None" using Inr by (auto simp: buy_def split: if_splits option.splits)
      with True Inr sub show ?thesis
        by (intro that(4) [of "br_new_pos r"]) (simp_all add: apply_buy_def buy_unit_def Let_def)
    next
      case (Some e)
      then have "br_stack r = Some (row_id e, row_count e, wrap_i64 (row_count e + si_count it))"
        using Inr by (auto simp: buy_def split: if_splits)
      with True Inr sub Some show ?thesis
        by (intro that(3) [of e]) (simp_all add: apply_buy_def buy_unit_def Let_def)
    qed
  qed
qed

lemma sell_outcome:
  obtains "unit_sent (apply_sell s cell qty proto ok) = None" "session_after (apply_sell s cell qty proto ok) = s"
  | ex where "unit_sent (apply_sell s cell qty proto ok) = Some ex" "\<not> ok"
      "session_after (apply_sell s cell qty proto ok) = s"
  | e q g where "ok" "List.find (in_cell cell) (s_inventory s) = Some e" "0 \<le> q" "q \<le> row_count e"
      "is_valid_gold g"
      "unit_sent (apply_sell s cell qty proto ok) = Some \<lparr>ex_owner = s_owner s,
         ex_materials = [(row_id e, row_count e, row_count e - q)], ex_result = None,
         ex_gold = Some (s_gold s, g)\<rparr>"
      "session_after (apply_sell s cell qty proto ok) = s\<lparr>s_gold := g,
         s_inventory := (if row_count e - q = 0 then remove_by (in_cell cell) (s_inventory s)
                         else set_count_by (in_cell cell) (row_count e - q) (s_inventory s))\<rparr>"
proof (cases "List.find (in_cell cell) (s_inventory s)")
  case None
  then show ?thesis by (intro that(1)) (simp_all add: apply_sell_def quiet_def)
next
  case (Some e)
  show ?thesis
  proof (cases "sell (s_inventory s) (s_gold s) cell qty False (proto (row_vnum e))")
    case (Inl x)
    with Some show ?thesis by (intro that(1)) (simp_all add: apply_sell_def quiet_def)
  next
    case (Inr r)
    define q where "q = sell_quantity qty (row_count e)"
    have "q \<le> row_count e" by (simp add: q_def sell_quantity_def)
    moreover have "0 \<le> q" "sr_material r = (row_id e, row_count e, row_count e - q)"
        and delta: "checked_gold_delta (s_gold s) (sr_price r) \<noteq> None"
      using Inr Some
      by (auto simp: sell_def q_def Let_def checked_sell_price_def split: if_splits option.splits)
    moreover obtain g where "checked_gold_delta (s_gold s) (sr_price r) = Some g" "is_valid_gold g"
      using delta by (auto simp: checked_gold_delta_Some)
    ultimately show ?thesis
      using Some Inr
      by (cases ok) (auto intro: that(2) that(3) simp: apply_sell_def Let_def)
  qed
qed

lemma bought_row_sane:
  assumes "item_sane it" and "i \<noteq> 0" and "in_i64 i"
  shows "row_sane (bought_row i c (si_count it) (si_vnum it))"
proof -
  have "0 \<le> uint c" "uint c < 2 ^ 16" using uint_lt2p [of c] by simp_all
  then have "in_i64 (uint c)" by (intro small_i64) simp
  moreover have "in_i64 (si_count it)"
    using assms(1) by (simp add: item_sane_def in_i64_def i64_min_def i64_max_def)
  ultimately show ?thesis
    using assms by (simp add: row_sane_def bought_row_def ItemRow_ok_def item_sane_def list_all_iff)
qed

lemma buy_mirrors:
  assumes "item_sane it" and "rows d i = None" and "i \<noteq> 0" and "in_i64 i"
    and "execute_unit u (apply_buy s it i ok) ok d d'" and "mirrors s (db_tables d)"
  shows "mirrors (session_after (apply_buy s it i ok)) (db_tables d')"
  using buy_outcome [of s it i ok]
proof cases
  case (3 e)
  have bag: "e \<in> set (s_inventory s)" "distinct (map row_id (s_inventory s))"
    using assms(6) find_Some_D [OF 3(2)] by (simp_all add: mirrors_def)
  have e: "row_sane e" by (rule mirrors_sane [OF assms(6) bag(1)])
  have limit: "wrap_i64 (row_count e + si_count it) \<le> ITEM_COUNT_LIMIT"
    using find_Some_D [OF 3(2)] by (simp add: stackable_def)
  have sum: "wrap_i64 (row_count e + si_count it) = row_count e + si_count it"
    using e assms(1) by (intro small_sum) (simp_all add: row_sane_def item_sane_def)
  let ?post = "row_count e + si_count it"
  have post: "0 \<le> ?post" "?post < 2 ^ 31" "?post \<noteq> 0"
    using e assms(1) limit sum by (simp_all add: row_sane_def item_sane_def ITEM_COUNT_LIMIT_def)
  have "in_i64 ?post" using post by (simp add: in_i64_def i64_min_def i64_max_def)
  then have ops: "list_all op_ok [Consume (row_id e) (row_count e) ?post,
      Transfer (s_owner s) (s_gold s) (s_gold s - si_price it)]"
    using assms(6) 3(3) i64_of_sane [OF e] valid_gold_i64 [of "s_gold s"] by (auto simp: mirrors_def)
  have "db_tables d' = fold op_effect [Consume (row_id e) (row_count e) ?post,
      Transfer (s_owner s) (s_gold s) (s_gold s - si_price it)] (db_tables d)"
    using assms(5) 3 ops execute_ops [where ex = "the (unit_sent (apply_buy s it i ok))" and d = d and d' = d' and u = u]
    by (simp add: execute_unit_def unit_ops_def sum)
  from mirror_consumed [OF assms(6) find_by_id [OF bag(2,1)] post(1,2) 3(3) this refl]
  show ?thesis using 3(5) post(3) sum by simp
next
  case (4 c)
  let ?row = "bought_row i c (si_count it) (si_vnum it)"
  have row: "row_sane ?row" "row_id ?row = i"
    using bought_row_sane [OF assms(1,3,4)] by (simp_all add: bought_row_def)
  then have ops: "list_all op_ok [Place ?row (s_owner s), Transfer (s_owner s) (s_gold s) (s_gold s - si_price it)]"
    using assms(3,6) 4(2) valid_gold_i64 [of "s_gold s"] by (auto simp: mirrors_def row_sane_def)
  have "db_tables d' = fold op_effect [Place ?row (s_owner s),
      Transfer (s_owner s) (s_gold s) (s_gold s - si_price it)] (db_tables d)"
    using assms(5) 4 ops execute_ops [where ex = "the (unit_sent (apply_buy s it i ok))" and d = d and d' = d' and u = u]
    by (simp add: execute_unit_def unit_ops_def)
  from mirror_placed [OF assms(6) row(1) _ 4(2) this 4(4)] show ?thesis
    by (simp add: row(2) db_tables_def assms(2))
qed (use assms(5,6) in \<open>simp_all add: execute_unit_def\<close>)

lemma sell_mirrors:
  assumes "execute_unit u (apply_sell s cell qty proto ok) ok d d'" and "mirrors s (db_tables d)"
  shows "mirrors (session_after (apply_sell s cell qty proto ok)) (db_tables d')"
  using sell_outcome [of s cell qty proto ok]
proof cases
  case (3 e q g)
  have e: "row_sane e" using mirrors_sane [OF assms(2)] find_Some_D [OF 3(2)] by blast
  let ?post = "row_count e - q"
  have post: "0 \<le> ?post" "?post < 2 ^ 31" using e 3(3,4) by (simp_all add: row_sane_def)
  have "in_i64 ?post" using post by (simp add: in_i64_def i64_min_def i64_max_def)
  then have ops: "list_all op_ok [Consume (row_id e) (row_count e) ?post, Transfer (s_owner s) (s_gold s) g]"
    using assms(2) 3(5) i64_of_sane [OF e] valid_gold_i64 [of "s_gold s"] by (auto simp: mirrors_def)
  have "db_tables d' = fold op_effect [Consume (row_id e) (row_count e) ?post,
      Transfer (s_owner s) (s_gold s) g] (db_tables d)"
    using assms(1) 3 ops
      execute_ops [where ex = "the (unit_sent (apply_sell s cell qty proto ok))" and d = d and d' = d' and u = u]
    by (simp add: execute_unit_def unit_ops_def)
  from mirror_consumed [OF assms(2) 3(2) post 3(5) this 3(7)] show ?thesis .
qed (use assms in \<open>simp_all add: execute_unit_def\<close>)

text \<open>C17. Durable and volatile state agree: whatever a player buys and sells, with units committed or
  rolled back in any pattern, the inventory and the gold of the session are exactly the rows and
  the balance of its character in the tables.\<close>

theorem shop_keeps_the_mirror:
  assumes "shop_step\<^sup>*\<^sup>* (s, d) (s', d')" and "mirrors s (db_tables d)"
  shows "mirrors s' (db_tables d')"
  using assms
proof (induction rule: rtranclp_induct2)
  case (step s1 d1 s2 d2)
  from step.hyps(2) step.IH [OF step.prems] show ?case
    by cases (auto intro: buy_mirrors sell_mirrors)
qed simp

text \<open>A character with five potions and 1000 gold buys three more and sells the whole stack.\<close>

definition sample_session :: session where
  "sample_session = \<lparr>s_owner = 7, s_gold = 1000, s_inventory = [sample_row 1 5]\<rparr>"

definition sample_tables :: item_db where
  "sample_tables = \<lparr>rows = [1 \<mapsto> (7, sample_row 1 5)], purses = [7 \<mapsto> 1000], next_item = 9\<rparr>"

definition potion :: ShopItem where
  "potion = \<lparr>si_vnum = 101, si_count = 3, si_price = 300, si_display_pos = 0\<rparr>"

lemma sample_mirror: "mirrors sample_session (db_tables sample_tables)"
  using sample_row_ok [of 1 5]
  by (auto simp: mirrors_def sample_session_def sample_tables_def db_tables_def row_sane_def is_valid_gold_def
      GOLD_MAX_def owned_def) (auto simp: sample_row_def fun_eq_iff)

lemma sample_purchase:
  "\<exists>d'. shop_step (sample_session, sample_tables)
     (\<lparr>s_owner = 7, s_gold = 700, s_inventory = [sample_row 1 8]\<rparr>, d')"
proof -
  have out: "apply_buy sample_session potion 2 True =
    \<lparr>unit_sent = Some \<lparr>ex_owner = 7, ex_materials = [(1, 5, 8)], ex_result = None, ex_gold = Some (1000, 700)\<rparr>,
     session_after = \<lparr>s_owner = 7, s_gold = 700, s_inventory = [sample_row 1 8]\<rparr>,
     replies = [ItemUpdate 3 8, Points, MoneyLog 101 (- 300)]\<rparr>"
    by (simp add: apply_buy_def buy_def buy_unit_def sample_session_def sample_row_def potion_def stackable_def
        checked_gold_sub_def is_valid_gold_def GOLD_MAX_def ITEM_COUNT_LIMIT_def checked_def Let_def)
  obtain d' where "exec_batch exec_item (unit_batch (\<lambda>_. []) (exchange_mutations
      \<lparr>ex_owner = 7, ex_materials = [(1, 5, 8)], ex_result = None, ex_gold = Some (1000, 700)\<rparr>)) sample_tables = Inr d'"
    using pg_items.batch_effect [of "unit_ops \<lparr>ex_owner = 7, ex_materials = [(1, 5, 8)], ex_result = None,
        ex_gold = Some (1000, 700)\<rparr>" _ sample_tables, OF _ carries_unit_batch]
    by (auto simp: unit_statements unit_ops_def is_valid_gold_def GOLD_MAX_def)
  then have "execute_unit (\<lambda>_. []) (apply_buy sample_session potion 2 True) True sample_tables d'"
    by (simp add: execute_unit_def out)
  then have "shop_step (sample_session, sample_tables) (session_after (apply_buy sample_session potion 2 True), d')"
    by (intro shop_step.Buy) (simp_all add: potion_def item_sane_def sample_tables_def)
  then show ?thesis unfolding out by auto
qed

theorem shop_keeps_the_mirror_witness:
  "\<exists>d'. mirrors \<lparr>s_owner = 7, s_gold = 700, s_inventory = [sample_row 1 8]\<rparr> (db_tables d')"
  using sample_purchase shop_keeps_the_mirror [OF _ sample_mirror] by blast

text \<open>A row of another window hides an inventory item from the shop: belt rows are numbered from
  zero like the inventory cells, so when the belt row comes first the sale of the cell is
  rejected as equipped, for any gold, quantity and price.\<close>

theorem belt_row_blocks_sale:
  "sell (belt\<lparr>row_window := ''BELT_INVENTORY''\<rparr> # potions\<lparr>row_window := ''INVENTORY'', row_pos := row_pos belt\<rparr> # bag)
     gold (word_of_int (row_pos belt)) qty anti proto = Inl Equipped"
  by (simp add: sell_def in_cell_def)

end
