(* ===== verification/Trade.thy ===== *)
theory Trade
  imports Shop
begin

text \<open>
  The trade between two players: the session of the offers and the units of its commit
  (\<^verbatim>\<open>game_core/src/trade.rs\<close>), and the handlers of the channel that validate and execute the
  commit and bring its result into a session (\<^verbatim>\<open>trade_gold_posts\<close>, \<^verbatim>\<open>apply_commit\<close> and
  \<^verbatim>\<open>apply_done\<close> of \<^verbatim>\<open>server_realms/src/channel/trade.rs\<close>).
\<close>

section \<open>The offers\<close>

definition EXCHANGE_ITEM_MAX_NUM :: nat where "EXCHANGE_ITEM_MAX_NUM = 12"
definition EXCHANGE_MAX_DISTANCE :: int where "EXCHANGE_MAX_DISTANCE = 1000"
definition ITEM_ID_RANGE_MIN :: int where "ITEM_ID_RANGE_MIN = 100000000"
definition ITEM_ID_RANGE_MAX :: int where "ITEM_ID_RANGE_MAX = 200000000"

datatype TradeError =
    ItemLimit
  | DisplayPosTaken
  | AlreadyOffered
  | GoldAlreadyOffered
  | InvalidGold

record TradeOfferItem =
  offer_row :: ItemRow
  display_pos :: u8

record TradeSide =
  side_items :: "TradeOfferItem list"
  side_gold :: int
  side_accept :: bool

definition TradeSide_default :: TradeSide where
  "TradeSide_default = \<lparr>side_items = [], side_gold = 0, side_accept = False\<rparr>"

text \<open>The two sides are an array of length two.\<close>

record TradeSession =
  sides :: "TradeSide list"

definition TradeSession_default :: TradeSession where
  "TradeSession_default = \<lparr>sides = [TradeSide_default, TradeSide_default]\<rparr>"

definition reset_accepts :: "TradeSession \<Rightarrow> TradeSession" where
  "reset_accepts t = t\<lparr>sides := map (\<lambda>s. s\<lparr>side_accept := False\<rparr>) (sides t)\<rparr>"

definition both_accepted :: "TradeSession \<Rightarrow> bool" where
  "both_accepted t \<longleftrightarrow> side_accept (sides t ! 0) \<and> side_accept (sides t ! 1)"

definition add_item :: "nat \<Rightarrow> ItemRow \<Rightarrow> u8 \<Rightarrow> TradeSession \<Rightarrow> (TradeError + unit) \<times> TradeSession" where
  "add_item side row dpos t =
    (let s = sides t ! side
     in if EXCHANGE_ITEM_MAX_NUM \<le> length (side_items s) then (Inl ItemLimit, t)
        else if list_ex (\<lambda>i. display_pos i = dpos) (side_items s) then (Inl DisplayPosTaken, t)
        else if list_ex (\<lambda>i. row_id (offer_row i) = row_id row) (side_items s) then (Inl AlreadyOffered, t)
        else
          (let s' = s\<lparr>side_items := side_items s @ [\<lparr>offer_row = row, display_pos = dpos\<rparr>]\<rparr>
           in (Inr (), reset_accepts (t\<lparr>sides := (sides t)[side := s']\<rparr>))))"

definition remove_item :: "nat \<Rightarrow> u8 \<Rightarrow> TradeSession \<Rightarrow> bool \<times> TradeSession" where
  "remove_item side dpos t =
    (let s = sides t ! side;
         kept = filter (\<lambda>i. display_pos i \<noteq> dpos) (side_items s);
         t' = t\<lparr>sides := (sides t)[side := s\<lparr>side_items := kept\<rparr>]\<rparr>
     in if length kept \<noteq> length (side_items s) then (True, reset_accepts t') else (False, t'))"

definition add_gold :: "nat \<Rightarrow> int \<Rightarrow> TradeSession \<Rightarrow> (TradeError + unit) \<times> TradeSession" where
  "add_gold side gold t =
    (let s = sides t ! side
     in if gold \<le> 0 then (Inl InvalidGold, t)
        else if side_gold s > 0 then (Inl GoldAlreadyOffered, t)
        else (Inr (), reset_accepts (t\<lparr>sides := (sides t)[side := s\<lparr>side_gold := gold\<rparr>]\<rparr>)))"

definition accept :: "nat \<Rightarrow> TradeSession \<Rightarrow> bool \<times> TradeSession" where
  "accept side t =
    (let t' = t\<lparr>sides := (sides t)[side := (sides t ! side)\<lparr>side_accept := True\<rparr>]\<rparr>
     in (both_accepted t', t'))"

section \<open>The commit\<close>

record TradeCommitPlan =
  executor :: u32
  partner :: u32
  gold_executor :: int
  gold_partner :: int
  offers_executor :: "ItemRow list"
  offers_partner :: "ItemRow list"

definition received_row :: "ItemRow \<Rightarrow> int \<Rightarrow> ItemRow" where
  "received_row offer i =
    \<lparr>row_id = i, row_window = ''INVENTORY'', row_pos = row_pos offer, row_count = row_count offer,
     row_vnum = row_vnum offer, row_sockets = row_sockets offer, row_attrs = row_attrs offer\<rparr>"

definition consume_unit :: "u32 \<Rightarrow> ItemRow list \<Rightarrow> int \<Rightarrow> int \<Rightarrow> ItemExchange" where
  "consume_unit v offers gold_now gold_post =
    \<lparr>ex_owner = uint v, ex_materials = map (\<lambda>r. (row_id r, row_count r, 0)) offers, ex_result = None,
     ex_gold = Some (gold_now, gold_post)\<rparr>"

definition receive_unit :: "u32 \<Rightarrow> ItemRow \<Rightarrow> int \<Rightarrow> ItemExchange" where
  "receive_unit v r i =
    \<lparr>ex_owner = uint v, ex_materials = [], ex_result = Some (received_row r i, uint v), ex_gold = None\<rparr>"

text \<open>The identifiers come from a counter: \<^verbatim>\<open>next_id\<close> returns \<open>base\<close>, \<open>base + 1\<close> and so on.\<close>

definition receive_units :: "u32 \<Rightarrow> ItemRow list \<Rightarrow> int \<Rightarrow> ItemExchange list" where
  "receive_units v offers base = map (\<lambda>(k, r). receive_unit v r (base + int k)) (enumerate 0 offers)"

definition build_commit_units :: "TradeCommitPlan \<Rightarrow> int \<Rightarrow> int \<Rightarrow> int \<Rightarrow> ItemExchange list" where
  "build_commit_units plan gold_now_executor gold_now_partner base =
    (let exec_post = gold_now_executor - gold_executor plan;
         partner_post = gold_now_partner - gold_partner plan
     in (if offers_executor plan \<noteq> [] \<or> gold_executor plan > 0
         then [consume_unit (executor plan) (offers_executor plan) gold_now_executor exec_post] else [])
      @ (if offers_partner plan \<noteq> [] \<or> gold_partner plan > 0
         then [consume_unit (partner plan) (offers_partner plan) gold_now_partner partner_post] else [])
      @ receive_units (partner plan) (offers_executor plan) base
      @ receive_units (executor plan) (offers_partner plan) (base + int (length (offers_executor plan))))"

definition trade_gold_posts :: "int \<Rightarrow> int \<Rightarrow> int \<Rightarrow> int \<Rightarrow> (int \<times> int) option" where
  "trade_gold_posts gold_now_executor gold_now_partner gold_exec gold_part =
    (if gold_exec < 0 \<or> gold_part < 0 then None
     else case checked_gold_sub gold_now_executor gold_exec of
            None \<Rightarrow> None
          | Some executor_post \<Rightarrow>
              (case checked_gold_sub gold_now_partner gold_part of
                 None \<Rightarrow> None
               | Some partner_post \<Rightarrow>
                   (case checked_gold_delta executor_post gold_part of
                      None \<Rightarrow> None
                    | Some _ \<Rightarrow>
                        (case checked_gold_delta partner_post gold_exec of
                           None \<Rightarrow> None
                         | Some _ \<Rightarrow> Some (executor_post, partner_post)))))"

section \<open>The handlers of the channel\<close>

text \<open>
  The executor's check of its own side, then the units: they are sent one after the other and the
  first that is not acknowledged ends the commit. \<open>partner_gold\<close> is the balance read from the
  tables, \<open>max_id\<close> the largest identifier of the range, \<open>exchange_ok\<close> the acknowledgement of the
  \<open>n\<close>-th unit. The result is what is reported to the world and the units that were sent.
\<close>

datatype commit_result = CommitDone | CommitRejected

definition still_offered :: "ItemRow list \<Rightarrow> ItemRow \<Rightarrow> bool" where
  "still_offered bag offer =
    (case List.find (\<lambda>i. row_id i = row_id offer) bag of
       None \<Rightarrow> False
     | Some mine \<Rightarrow> row_count mine = row_count offer)"

fun send_units :: "(nat \<Rightarrow> bool) \<Rightarrow> nat \<Rightarrow> ItemExchange list \<Rightarrow> commit_result \<times> ItemExchange list" where
  "send_units exchange_ok n [] = (CommitDone, [])"
| "send_units exchange_ok n (ex # exs) =
     (if exchange_ok n then map_prod (\<lambda>r. r) ((#) ex) (send_units exchange_ok (Suc n) exs)
      else (CommitRejected, []))"

definition apply_commit ::
  "session \<Rightarrow> TradeCommitPlan \<Rightarrow> int \<Rightarrow> int option \<Rightarrow> (nat \<Rightarrow> bool) \<Rightarrow> commit_result \<times> ItemExchange list"
where
  "apply_commit s plan partner_gold max_id exchange_ok =
    (if \<not> list_all (still_offered (s_inventory s)) (offers_executor plan) then (CommitRejected, [])
     else case trade_gold_posts (s_gold s) partner_gold (gold_executor plan) (gold_partner plan) of
            None \<Rightarrow> (CommitRejected, [])
          | Some _ \<Rightarrow>
              (let base = (case max_id of Some m \<Rightarrow> m + 1 | None \<Rightarrow> ITEM_ID_RANGE_MIN)
               in send_units exchange_ok 0 (build_commit_units plan (s_gold s) partner_gold base)))"

text \<open>
  \<^verbatim>\<open>apply_done\<close>: the delivered rows leave the inventory, each received row gets the first free
  cell (the first cell when there is none) and is upserted with its own identifier, and the gold
  delta is added to the balance of the session. The second component are the rows upserted.
\<close>

definition deliver :: "ItemRow list \<Rightarrow> ItemRow list \<Rightarrow> ItemRow list" where
  "deliver delivered bag = fold (\<lambda>d. remove_by (\<lambda>i. row_id i = row_id d)) delivered bag"

definition receive_cell :: "ItemRow list \<Rightarrow> u16" where
  "receive_cell bag = (case free_cell bag INVENTORY_MAX_NUM of Some c \<Rightarrow> c | None \<Rightarrow> 0)"

fun receive :: "ItemRow list \<Rightarrow> ItemRow list \<Rightarrow> ItemRow list \<times> ItemRow list" where
  "receive [] bag = (bag, [])"
| "receive (r # rs) bag =
     (let row = r\<lparr>row_pos := uint (receive_cell bag)\<rparr>
      in map_prod (\<lambda>b. b) ((#) row) (receive rs (bag @ [row])))"

definition apply_done ::
  "session \<Rightarrow> int \<Rightarrow> ItemRow list \<Rightarrow> ItemRow list \<Rightarrow> string + (session \<times> ItemRow list)"
where
  "apply_done s gold_delta received delivered =
    (case checked_gold_delta (s_gold s) gold_delta of
       None \<Rightarrow> Inl ''trade deja el oro fuera de rango''
     | Some new_gold \<Rightarrow>
         (case receive received (deliver delivered (s_inventory s)) of
            (bag, upserted) \<Rightarrow> Inr (s\<lparr>s_gold := new_gold, s_inventory := bag\<rparr>, upserted)))"

section \<open>What a commit does to the tables\<close>

lemma unit_ops_consume:
  "unit_ops (consume_unit v offers g p) =
     map (\<lambda>r. Consume (row_id r) (row_count r) 0) offers @ [Transfer (uint v) g p]"
  by (simp add: unit_ops_def consume_unit_def)

lemma unit_ops_receive: "unit_ops (receive_unit v r i) = [Place (received_row r i) (uint v)]"
  by (simp add: unit_ops_def receive_unit_def)

definition place_ops :: "u32 \<Rightarrow> ItemRow list \<Rightarrow> int \<Rightarrow> item_op list" where
  "place_ops v offers base = map (\<lambda>(k, r). Place (received_row r (base + int k)) (uint v)) (enumerate 0 offers)"

lemma concat_receive_units: "concat (map unit_ops (receive_units v offers base)) = place_ops v offers base"
  by (simp add: receive_units_def place_ops_def unit_ops_receive case_prod_beta comp_def concat_map_singleton)

definition pay_ops :: "u32 \<Rightarrow> ItemRow list \<Rightarrow> int \<Rightarrow> int \<Rightarrow> item_op list" where
  "pay_ops v offers g offered =
    (if offers \<noteq> [] \<or> offered > 0
     then map (\<lambda>r. Consume (row_id r) (row_count r) 0) offers @ [Transfer (uint v) g (g - offered)] else [])"

definition commit_ops :: "TradeCommitPlan \<Rightarrow> int \<Rightarrow> int \<Rightarrow> int \<Rightarrow> item_op list" where
  "commit_ops plan ge gp base =
     pay_ops (executor plan) (offers_executor plan) ge (gold_executor plan)
     @ pay_ops (partner plan) (offers_partner plan) gp (gold_partner plan)
     @ place_ops (partner plan) (offers_executor plan) base
     @ place_ops (executor plan) (offers_partner plan) (base + int (length (offers_executor plan)))"

lemma commit_unit_ops: "concat (map unit_ops (build_commit_units plan ge gp base)) = commit_ops plan ge gp base"
  by (simp add: build_commit_units_def commit_ops_def pay_ops_def Let_def unit_ops_consume concat_receive_units)

text \<open>
  The hypotheses of a commit: the offered rows are in the tables as offered, under distinct
  identifiers, the new identifiers are unused, and both balances pass \<^verbatim>\<open>trade_gold_posts\<close>.
\<close>

definition commit_ready :: "TradeCommitPlan \<Rightarrow> int \<Rightarrow> int \<Rightarrow> int \<Rightarrow> tables \<Rightarrow> bool" where
  "commit_ready plan ge gp base T \<longleftrightarrow>
     executor plan \<noteq> partner plan
     \<and> distinct (map row_id (offers_executor plan @ offers_partner plan))
     \<and> list_all row_sane (offers_executor plan @ offers_partner plan)
     \<and> list_all (\<lambda>r. fst T (row_id r) = Some (uint (executor plan), r)) (offers_executor plan)
     \<and> list_all (\<lambda>r. fst T (row_id r) = Some (uint (partner plan), r)) (offers_partner plan)
     \<and> list_all (\<lambda>r. row_id r < base) (offers_executor plan @ offers_partner plan)
     \<and> 0 < base \<and> in_i64 (base + int (length (offers_executor plan @ offers_partner plan)))
     \<and> snd T (uint (executor plan)) = Some ge \<and> snd T (uint (partner plan)) = Some gp
     \<and> trade_gold_posts ge gp (gold_executor plan) (gold_partner plan) \<noteq> None"

lemma trade_gold_posts_Some:
  "trade_gold_posts ge gp oe op = Some (pe, pp) \<longleftrightarrow>
     0 \<le> oe \<and> 0 \<le> op \<and> is_valid_gold ge \<and> is_valid_gold gp \<and> pe = ge - oe \<and> pp = gp - op
     \<and> is_valid_gold pe \<and> is_valid_gold pp \<and> is_valid_gold (pe + op) \<and> is_valid_gold (pp + oe)"
  by (auto simp: trade_gold_posts_def checked_gold_sub_Some checked_gold_delta_Some checked_gold_sub_None
      checked_gold_delta_None is_valid_gold_def split: option.splits)

lemma posts_valid:
  assumes "trade_gold_posts ge gp oe op \<noteq> None"
  shows "0 \<le> oe" "0 \<le> op" "is_valid_gold ge" "is_valid_gold gp" "is_valid_gold (ge - oe)" "is_valid_gold (gp - op)"
  using assms trade_gold_posts_Some [of ge gp oe op] by (metis option.exhaust surj_pair)+

lemma u32_i64 [simp]: "in_i64 (uint (v :: u32))"
  using uint_lt2p [of v] unsigned_greater_eq [of v, where ?'a = int]
  by (simp add: in_i64_def i64_min_def i64_max_def order_trans [of _ 0])

lemma received_sane: "row_sane r \<Longrightarrow> i \<noteq> 0 \<Longrightarrow> in_i64 i \<Longrightarrow> row_sane (received_row r i)"
  by (simp add: row_sane_def received_row_def ItemRow_ok_def)

lemma place_ops_ok:
  assumes "list_all row_sane offers" and "0 < base" and "in_i64 (base + int (length offers))"
  shows "list_all op_ok (place_ops v offers base)"
proof -
  have "op_ok (Place (received_row (offers ! k) (base + int k)) (uint v))" if k: "k < length offers" for k
  proof -
    have "in_i64 (base + int k)" using assms(2,3) k by (simp add: in_i64_def i64_min_def)
    then have "row_sane (received_row (offers ! k) (base + int k))"
      using assms(1,2) k by (intro received_sane) (auto simp: list_all_length)
    then show ?thesis by (simp add: row_sane_def)
  qed
  then show ?thesis by (auto simp: place_ops_def list_all_iff in_set_enumerate_eq)
qed

lemma pay_ops_ok:
  "list_all row_sane offers \<Longrightarrow> is_valid_gold g \<Longrightarrow> is_valid_gold (g - o') \<Longrightarrow> list_all op_ok (pay_ops v offers g o')"
  using i64_of_sane valid_gold_i64 by (auto simp: pay_ops_def list_all_iff)

lemma commit_ops_ok: "commit_ready plan ge gp base T \<Longrightarrow> list_all op_ok (commit_ops plan ge gp base)"
proof -
  assume r: "commit_ready plan ge gp base T"
  let ?e = "offers_executor plan" and ?p = "offers_partner plan"
  have sane: "list_all row_sane ?e" "list_all row_sane ?p" and base: "0 < base"
      and top: "in_i64 (base + int (length (?e @ ?p)))"
    and posts: "trade_gold_posts ge gp (gold_executor plan) (gold_partner plan) \<noteq> None"
    using r by (simp_all add: commit_ready_def)
  note v = posts_valid [OF posts]
  have "in_i64 (base + int (length ?e))"
    using top base by (simp add: in_i64_def i64_min_def)
  then show ?thesis
    using pay_ops_ok [OF sane(1) v(3,5)] pay_ops_ok [OF sane(2) v(4,6)]
      place_ops_ok [OF sane(1) base] place_ops_ok [OF sane(2), of "base + int (length ?e)"] base top
    by (simp add: commit_ops_def add.assoc)
qed

lemma place_keys: "map op_key (place_ops v offers base) = map (\<lambda>k. Inl (base + int k)) [0..<length offers]"
  by (rule nth_equalityI) (simp_all add: place_ops_def nth_enumerate_eq received_row_def)

lemma pay_keys:
  "map op_key (pay_ops v offers g o') =
     (if offers \<noteq> [] \<or> o' > 0 then map (Inl \<circ> row_id) offers @ [Inr (uint v)] else [])"
  by (simp add: pay_ops_def comp_def)

text \<open>The keys of a commit are distinct; this does not depend on the tables.\<close>

definition commit_ids :: "TradeCommitPlan \<Rightarrow> int \<Rightarrow> bool" where
  "commit_ids plan base \<longleftrightarrow> executor plan \<noteq> partner plan
     \<and> distinct (map row_id (offers_executor plan @ offers_partner plan))
     \<and> list_all (\<lambda>r. row_id r < base) (offers_executor plan @ offers_partner plan)"

lemma commit_ready_ids: "commit_ready plan ge gp base T \<Longrightarrow> commit_ids plan base"
  by (simp add: commit_ready_def commit_ids_def)

lemma commit_keys_distinct:
  assumes "commit_ids plan base"
  shows "distinct (map op_key (commit_ops plan ge gp base))"
proof -
  have d: "distinct (map row_id (offers_executor plan))" "distinct (map row_id (offers_partner plan))"
      "row_id ` set (offers_executor plan) \<inter> row_id ` set (offers_partner plan) = {}"
      "executor plan \<noteq> partner plan"
    and lt: "r \<in> set (offers_executor plan @ offers_partner plan) \<Longrightarrow> row_id r < base" for r
    using assms by (auto simp: commit_ids_def list_all_iff)
  have inl: "distinct (map (Inl \<circ> row_id) xs)" if "distinct (map row_id xs)" for xs
    using that by (simp add: distinct_map inj_on_def)
  have new: "distinct (map (\<lambda>k. Inl (b + int k) :: int + int) [0..<n])" for b n
    by (simp add: distinct_map inj_on_def)
  have u: "uint (executor plan) \<noteq> uint (partner plan)" using d(4) by (simp add: word_uint_eq_iff)
  show ?thesis
    unfolding commit_ops_def map_append pay_keys place_keys
    using d inl [OF d(1)] inl [OF d(2)] new u lt
    by (auto simp: image_iff dest!: lt) (force dest: lt)+
qed

lemma carries_units:
  "carries (concat (map unit_ops exs)) (concat (map (\<lambda>ex. unit_batch u (exchange_mutations ex)) exs))"
  using carries_unit_batch
  by (induction exs) (auto simp: carries_def unit_statements list_all2_appendI)

lemma fst_at_key: "fst T i = fst T' i' \<longleftrightarrow> at_key (Inl i) T = at_key (Inl i') T'"
  by (simp add: at_key_def)

lemma at_Inl: "at_key (Inl i) T = Inl x \<longleftrightarrow> fst T i = x"
  by (simp add: at_key_def)

lemma at_Inr: "at_key (Inr i) T = Inr x \<longleftrightarrow> snd T i = x"
  by (simp add: at_key_def)

lemma consumed_at:
  assumes "distinct (map op_key ps)" and "Consume i pre post \<in> set ps"
  shows "fst (fold op_effect ps T) i = consume_row pre post (fst T i)"
  using fold_at [OF assms, of T] by (cases T) (simp add: at_key_def)

lemma placed_at:
  assumes "distinct (map op_key ps)" and "Place row ow \<in> set ps"
  shows "fst (fold op_effect ps T) (row_id row) = Some (ow, row)"
  using fold_at [OF assms, of T] by (cases T) (simp add: at_key_def)

lemma transferred_at:
  assumes "distinct (map op_key ps)" and "Transfer ow pre post \<in> set ps"
  shows "snd (fold op_effect ps T) ow = (if snd T ow = Some pre then Some post else snd T ow)"
  using fold_at [OF assms, of T] by (cases T) (auto simp: at_key_def)

lemma untouched_purse: "Inr ow \<notin> op_key ` set ps \<Longrightarrow> snd (fold op_effect ps T) ow = snd T ow"
  using fold_frame [of "Inr ow" ps T] by (simp add: at_key_def)

lemma untouched_item: "Inl i \<notin> op_key ` set ps \<Longrightarrow> fst (fold op_effect ps T) i = fst T i"
  using fold_frame [of "Inl i" ps T] by (simp add: at_key_def)

lemma pay_purse:
  assumes "distinct (map op_key ps)" and "set (pay_ops v offers g o') \<subseteq> set ps"
    and "Inr (uint v) \<in> op_key ` set ps \<longleftrightarrow> offers \<noteq> [] \<or> 0 < o'"
    and "snd T (uint v) = Some g" and "0 \<le> o'"
  shows "snd (fold op_effect ps T) (uint v) = Some (g - o')"
proof (cases "offers \<noteq> [] \<or> 0 < o'")
  case True
  then have "Transfer (uint v) g (g - o') \<in> set ps" using assms(2) by (auto simp: pay_ops_def)
  from transferred_at [OF assms(1) this, of T] show ?thesis using assms(4) by simp
next
  case False
  then show ?thesis using untouched_purse assms(3-5) by auto
qed

lemma place_key_Inl: "Inr ow \<notin> op_key ` set (place_ops v offers b)"
  by (auto simp: place_ops_def)

lemma pay_key_Inr: "Inr ow \<in> op_key ` set (pay_ops v offers g o') \<longleftrightarrow> (offers \<noteq> [] \<or> 0 < o') \<and> ow = uint v"
  by (auto simp: pay_ops_def intro!: image_eqI [where x = "Transfer (uint v) g (g - o')"])

lemma purse_keys:
  "Inr ow \<in> op_key ` set (commit_ops plan ge gp base) \<longleftrightarrow>
     (offers_executor plan \<noteq> [] \<or> 0 < gold_executor plan) \<and> ow = uint (executor plan)
     \<or> (offers_partner plan \<noteq> [] \<or> 0 < gold_partner plan) \<and> ow = uint (partner plan)"
  by (simp add: commit_ops_def image_Un place_key_Inl pay_key_Inr)

text \<open>The tables after all the operations of a commit.\<close>

lemma commit_effect:
  assumes "commit_ready plan ge gp base T" and "T' = fold op_effect (commit_ops plan ge gp base) T"
  shows "list_all (\<lambda>r. fst T' (row_id r) = None) (offers_executor plan @ offers_partner plan)"
    and "list_all (\<lambda>(k, r). fst T' (base + int k) = Some (uint (partner plan), received_row r (base + int k)))
           (enumerate 0 (offers_executor plan))"
    and "list_all (\<lambda>(k, r). fst T' (base + int k) = Some (uint (executor plan), received_row r (base + int k)))
           (enumerate (length (offers_executor plan)) (offers_partner plan))"
    and "snd T' = (snd T)(uint (executor plan) \<mapsto> ge - gold_executor plan,
                          uint (partner plan) \<mapsto> gp - gold_partner plan)"
proof -
  let ?ps = "commit_ops plan ge gp base"
  note d = commit_keys_distinct [OF commit_ready_ids [OF assms(1)]]
  have posts: "trade_gold_posts ge gp (gold_executor plan) (gold_partner plan) \<noteq> None"
    and neq: "uint (executor plan) \<noteq> uint (partner plan)"
    using assms(1) by (simp_all add: commit_ready_def word_uint_eq_iff)
  note pos = posts_valid(1,2) [OF posts]
  have gone: "fst T' (row_id r) = None" if "r \<in> set (offers_executor plan @ offers_partner plan)" for r
  proof -
    have "Consume (row_id r) (row_count r) 0 \<in> set ?ps" using that by (auto simp: commit_ops_def pay_ops_def)
    from consumed_at [OF d this, of T] that show ?thesis
      using assms(1) by (auto simp: assms(2) commit_ready_def list_all_iff consume_row_def)
  qed
  then show "list_all (\<lambda>r. fst T' (row_id r) = None) (offers_executor plan @ offers_partner plan)"
    by (simp add: list_all_iff)
  have new: "fst T' (base + int k) = Some (ow, received_row r (base + int k))"
    if "Place (received_row r (base + int k)) ow \<in> set ?ps" for k r ow
    using placed_at [OF d that, of T] by (simp add: assms(2) received_row_def)
  show "list_all (\<lambda>(k, r). fst T' (base + int k) = Some (uint (partner plan), received_row r (base + int k)))
      (enumerate 0 (offers_executor plan))"
    by (auto simp: list_all_iff intro!: new) (force simp: commit_ops_def place_ops_def)
  have "Place (received_row r (base + int k)) (uint (executor plan)) \<in> set ?ps"
    if "(k, r) \<in> set (enumerate (length (offers_executor plan)) (offers_partner plan))" for k r
  proof -
    from that have "(k - length (offers_executor plan), r) \<in> set (enumerate 0 (offers_partner plan))"
        "length (offers_executor plan) \<le> k"
      by (auto simp: in_set_enumerate_eq)
    then show ?thesis by (force simp: commit_ops_def place_ops_def of_nat_diff)
  qed
  then show "list_all (\<lambda>(k, r). fst T' (base + int k) = Some (uint (executor plan), received_row r (base + int k)))
      (enumerate (length (offers_executor plan)) (offers_partner plan))"
    by (auto simp: list_all_iff intro!: new)
  have sub: "set (pay_ops (executor plan) (offers_executor plan) ge (gold_executor plan)) \<subseteq> set ?ps"
      "set (pay_ops (partner plan) (offers_partner plan) gp (gold_partner plan)) \<subseteq> set ?ps"
    by (auto simp: commit_ops_def)
  have "snd T' (uint (executor plan)) = Some (ge - gold_executor plan)"
    unfolding assms(2)
    by (rule pay_purse [OF d]) (use assms(1) neq pos sub in \<open>auto simp: purse_keys commit_ready_def\<close>)
  moreover have "snd T' (uint (partner plan)) = Some (gp - gold_partner plan)"
    unfolding assms(2)
    by (rule pay_purse [OF d]) (use assms(1) neq pos sub in \<open>auto simp: purse_keys commit_ready_def\<close>)
  moreover have "snd T' ow = snd T ow" if "ow \<noteq> uint (executor plan)" "ow \<noteq> uint (partner plan)" for ow
    unfolding assms(2) by (rule untouched_purse) (simp add: purse_keys that)
  ultimately show "snd T' = (snd T)(uint (executor plan) \<mapsto> ge - gold_executor plan,
      uint (partner plan) \<mapsto> gp - gold_partner plan)"
    by (auto simp: fun_eq_iff)
qed

text \<open>What a commit hands over is in the tables afterwards, whatever was in them before.\<close>

lemma executor_placed:
  assumes "commit_ids plan base" and "(k, r) \<in> set (enumerate 0 (offers_executor plan))"
  shows "fst (fold op_effect (commit_ops plan ge gp base) T) (base + int k)
    = Some (uint (partner plan), received_row r (base + int k))"
proof -
  have "Place (received_row r (base + int k)) (uint (partner plan)) \<in> set (commit_ops plan ge gp base)"
    using assms(2) by (force simp: commit_ops_def place_ops_def)
  from placed_at [OF commit_keys_distinct [OF assms(1)] this, of T] show ?thesis
    by (simp add: received_row_def)
qed

lemma partner_placed:
  assumes "commit_ids plan base" and "(k, r) \<in> set (enumerate (length (offers_executor plan)) (offers_partner plan))"
  shows "fst (fold op_effect (commit_ops plan ge gp base) T) (base + int k)
    = Some (uint (executor plan), received_row r (base + int k))"
proof -
  have "(k - length (offers_executor plan), r) \<in> set (enumerate 0 (offers_partner plan))"
      "length (offers_executor plan) \<le> k"
    using assms(2) by (auto simp: in_set_enumerate_eq)
  then have "Place (received_row r (base + int k)) (uint (executor plan)) \<in> set (commit_ops plan ge gp base)"
    by (force simp: commit_ops_def place_ops_def of_nat_diff)
  from placed_at [OF commit_keys_distinct [OF assms(1)] this, of T] show ?thesis
    by (simp add: received_row_def)
qed

lemma commit_item_keys:
  "Inl i \<in> op_key ` set (commit_ops plan ge gp base) \<Longrightarrow>
     i \<in> row_id ` set (offers_executor plan @ offers_partner plan)
     \<or> base \<le> i \<and> i < base + int (length (offers_executor plan @ offers_partner plan))"
  by (auto simp: commit_ops_def pay_ops_def place_ops_def received_row_def in_set_enumerate_eq split: if_splits)

lemma commit_id_less:
  "commit_ids plan base \<Longrightarrow> r \<in> set (offers_executor plan @ offers_partner plan) \<Longrightarrow> row_id r < base"
  by (simp only: commit_ids_def list_all_iff)

lemma commit_ids_mono: "commit_ids plan base \<Longrightarrow> base \<le> base' \<Longrightarrow> commit_ids plan base'"
  unfolding commit_ids_def by (auto elim!: list.pred_mono_strong)

text \<open>A later commit of the same plan, under later identifiers, leaves the items of the first in place.\<close>

lemma later_commit_keeps:
  assumes "commit_ids plan base" and "base + int (length (offers_executor plan @ offers_partner plan)) \<le> base'"
    and "base \<le> i" and "i < base'"
  shows "fst (fold op_effect (commit_ops plan ge gp base') T) i = fst T i"
proof (rule untouched_item, rule notI)
  assume "Inl i \<in> op_key ` set (commit_ops plan ge gp base')"
  from commit_item_keys [OF this] show False
  proof
    assume "i \<in> row_id ` set (offers_executor plan @ offers_partner plan)"
    then show False using commit_id_less [OF assms(1)] assms(3) by (metis imageE not_less)
  qed (use assms(4) in simp)
qed

lemma received_row_update: "received_row r i = r\<lparr>row_id := i, row_window := ''INVENTORY''\<rparr>"
  by (simp add: received_row_def)

text \<open>C18. The commit of a trade in the tables: from tables in which the offers are as offered and with
  balances that pass the check, the units of a trade execute; then every offered row is gone,
  every item is back under a new identifier of the other player with its count, vnum, sockets and
  attributes, and re-executing any of the units changes nothing. The balances are only debited:
  no unit credits what the other side offered.\<close>

theorem commit_moves_the_items:
  assumes "commit_ready plan ge gp base (db_tables d)"
    and "bs = map (\<lambda>ex. unit_batch u (exchange_mutations ex)) (build_commit_units plan ge gp base)"
  shows "\<exists>d'. exec_batch exec_item (concat bs) d = Inr d'
    \<and> list_all (\<lambda>r. rows d' (row_id r) = None) (offers_executor plan @ offers_partner plan)
    \<and> list_all (\<lambda>(k, r). rows d' (base + int k) = Some (uint (partner plan), r\<lparr>row_id := base + int k, row_window := ''INVENTORY''\<rparr>))
        (enumerate 0 (offers_executor plan))
    \<and> list_all (\<lambda>(k, r). rows d' (base + int k) = Some (uint (executor plan), r\<lparr>row_id := base + int k, row_window := ''INVENTORY''\<rparr>))
        (enumerate (length (offers_executor plan)) (offers_partner plan))
    \<and> purses d' = (purses d)(uint (executor plan) \<mapsto> ge - gold_executor plan,
                             uint (partner plan) \<mapsto> gp - gold_partner plan)
    \<and> list_all (\<lambda>b. exec_batch exec_item b d' = Inr d') bs"
proof -
  let ?ops = "commit_ops plan ge gp base"
  note ok = commit_ops_ok [OF assms(1)]
  note d = commit_keys_distinct [OF commit_ready_ids [OF assms(1)]]
  have carried: "carries ?ops (concat bs)"
    using carries_units [of "build_commit_units plan ge gp base" u] by (simp add: assms(2) commit_unit_ops)
  obtain d' where d': "exec_batch exec_item (concat bs) d = Inr d'"
      "db_tables d' = fold op_effect ?ops (db_tables d)"
    using pg_items.batch_effect [OF ok carried, of d] by blast
  have "exec_batch exec_item b d' = Inr d'" if "b \<in> set bs" for b
  proof -
    from that obtain ex where ex: "ex \<in> set (build_commit_units plan ge gp base)"
        "b = unit_batch u (exchange_mutations ex)"
      by (auto simp: assms(2))
    then have "set (unit_ops ex) \<subseteq> set ?ops" by (auto simp flip: commit_unit_ops)
    then show ?thesis
      using pg_items.replay_part [OF ok d carried d'(1)] carries_unit_batch by (simp add: ex(2) unit_statements)
  qed
  then show ?thesis
    using d'(1) commit_effect [OF assms(1) d'(2)]
    by (intro exI [of _ d']) (simp add: db_tables_def list_all_iff received_row_update)
qed

text \<open>A stack of five for 300 gold.\<close>

definition sample_plan :: TradeCommitPlan where
  "sample_plan = \<lparr>executor = 7, partner = 8, gold_executor = 0, gold_partner = 300,
     offers_executor = [sample_row 1 5], offers_partner = []\<rparr>"

definition sample_market :: item_db where
  "sample_market = \<lparr>rows = [1 \<mapsto> (7, sample_row 1 5)], purses = [7 \<mapsto> 1000, 8 \<mapsto> 500], next_item = 9\<rparr>"

lemma sample_ready: "commit_ready sample_plan 1000 500 100 (db_tables sample_market)"
proof -
  have "trade_gold_posts 1000 500 0 300 = Some (1000, 200)"
    by (simp add: trade_gold_posts_Some is_valid_gold_def GOLD_MAX_def)
  then show ?thesis
    using sample_row_ok [of 1 5]
    by (simp add: commit_ready_def sample_plan_def sample_market_def db_tables_def row_sane_def)
      (simp add: sample_row_def)
qed

theorem commit_moves_the_items_witness:
  "\<exists>d'. exec_batch exec_item (concat (map (\<lambda>ex. unit_batch (\<lambda>_. []) (exchange_mutations ex))
        (build_commit_units sample_plan 1000 500 100))) sample_market = Inr d'
    \<and> list_all (\<lambda>r. rows d' (row_id r) = None) (offers_executor sample_plan @ offers_partner sample_plan)
    \<and> list_all (\<lambda>(k, r). rows d' (100 + int k) = Some (uint (partner sample_plan), r\<lparr>row_id := 100 + int k, row_window := ''INVENTORY''\<rparr>))
        (enumerate 0 (offers_executor sample_plan))
    \<and> list_all (\<lambda>(k, r). rows d' (100 + int k) = Some (uint (executor sample_plan), r\<lparr>row_id := 100 + int k, row_window := ''INVENTORY''\<rparr>))
        (enumerate (length (offers_executor sample_plan)) (offers_partner sample_plan))
    \<and> purses d' = (purses sample_market)(uint (executor sample_plan) \<mapsto> 1000 - gold_executor sample_plan,
                             uint (partner sample_plan) \<mapsto> 500 - gold_partner sample_plan)
    \<and> list_all (\<lambda>b. exec_batch exec_item b d' = Inr d')
        (map (\<lambda>ex. unit_batch (\<lambda>_. []) (exchange_mutations ex)) (build_commit_units sample_plan 1000 500 100))"
  by (rule commit_moves_the_items [OF sample_ready refl])

end
