(* ===== verification/Social.thy ===== *)
theory Social
  imports Trade
begin

text \<open>
  The social part of the world simulation (\<^verbatim>\<open>game_core/src/ecs/systems/social.rs\<close>): which player
  has which shop window open, the trade pairs shared by two players, and the handlers of the shop
  and trade intents; and \<^verbatim>\<open>leave_player\<close> of \<^verbatim>\<open>ecs/world.rs\<close>. The entity store is the part of the
  world these handlers only read.
\<close>

section \<open>Distance\<close>

text \<open>\<^verbatim>\<open>DISTANCE_APPROX\<close> in wrapping \<^verbatim>\<open>i32\<close> arithmetic; \<^verbatim>\<open>>>\<close> on \<^verbatim>\<open>i32\<close> is arithmetic.\<close>

definition abs_i32 :: "i32 \<Rightarrow> i32" where
  "abs_i32 x = (if sint x < 0 then - x else x)"

definition distance_approx :: "i32 \<Rightarrow> i32 \<Rightarrow> i32" where
  "distance_approx dx dy =
    (let dx = abs_i32 dx; dy = abs_i32 dy;
         mn = (if sint dx < sint dy then dx else dy);
         mx = (if sint dx < sint dy then dy else dx)
     in signed_drop_bit 8
          (push_bit 8 mx + push_bit 3 mx - push_bit 4 mx - push_bit 1 mx
           + push_bit 7 mn - push_bit 5 mn + push_bit 3 mn - push_bit 1 mn))"

section \<open>The state\<close>

record Shop =
  shop_vnum :: int
  shop_npc_vnum :: int
  shop_items :: "ShopItem list"

record ShopOpen =
  open_npc_vnum :: int
  open_npc_vid :: u32

text \<open>\<^verbatim>\<open>side_of\<close> is a hash map with the two players of the pair.\<close>

record TradePair =
  pair_session :: TradeSession
  side_map :: "(u32 \<times> nat) list"

definition TradePair_new :: "u32 \<Rightarrow> u32 \<Rightarrow> TradePair" where
  "TradePair_new a b = \<lparr>pair_session = TradeSession_default, side_map = [(a, 0), (b, 1)]\<rparr>"

text \<open>Indexing the map panics on a missing player (\<open>None\<close>), and so does the \<^verbatim>\<open>expect\<close> of \<^verbatim>\<open>other\<close>.\<close>

definition side_of :: "TradePair \<Rightarrow> u32 \<Rightarrow> nat option" where
  "side_of p v = map_of (side_map p) v"

definition other :: "TradePair \<Rightarrow> u32 \<Rightarrow> u32 option" where
  "other p v = map_option fst (List.find (\<lambda>(w, _). w \<noteq> v) (side_map p))"

text \<open>
  Both players hold the same \<^verbatim>\<open>Arc<Mutex<TradePair>>\<close>: \<open>trades\<close> maps a player to an address and
  \<open>pairs\<close> an address to the pair, so that a change through one player is seen by the other.
\<close>

record world =
  connected :: "u32 \<Rightarrow> bool"
  player_pos :: "u32 \<Rightarrow> (i32 \<times> i32) option"
  entity_pos :: "u32 \<Rightarrow> (i32 \<times> i32) option"
  mob_vnum :: "u32 \<Rightarrow> int option"
  shop_table :: "int \<Rightarrow> Shop option"
  open_shops :: "u32 \<rightharpoonup> ShopOpen"
  trades :: "u32 \<rightharpoonup> nat"
  pairs :: "nat \<rightharpoonup> TradePair"
  next_pair :: nat

datatype social_intent =
    ShopIntent_Open u32 u32
  | ShopIntent_Close u32
  | ShopIntent_Buy u32 u8
  | ShopIntent_Sell u32 u16
  | ShopIntent_Sell2 u32 u16 u32
  | TradeIntent_Start u32 u32
  | TradeIntent_ItemAdd u32 ItemRow u8
  | TradeIntent_ItemDel u32 u8
  | TradeIntent_GoldAdd u32 int
  | TradeIntent_Accept u32
  | TradeIntent_Cancel u32
  | TradeIntent_CommitOk u32
  | TradeIntent_CommitFail u32
  | Leave u32

datatype social_event =
    Opened u32 u32 "ShopItem list"
  | Closed u32
  | BuyResult u32 u8 int int int
  | SellResult u32 u16 int
  | BuyRejected u32 u8 ShopError
  | Started u32 u32
  | Already u32
  | ItemAdded u32 bool u8 int int "int list" "(int \<times> int) list"
  | ItemRemoved u32 bool u8
  | GoldAdded u32 bool int
  | AcceptState u32 bool bool
  | Commit u32 TradeCommitPlan
  | Done u32 int "ItemRow list" "ItemRow list"
  | Cancelled u32

type_synonym reaction = "(social_event list \<times> world) option"

abbreviation silent :: "world \<Rightarrow> reaction" where "silent w \<equiv> Some ([], w)"

section \<open>Shops\<close>

definition shop_by_npc :: "world \<Rightarrow> u32 \<Rightarrow> Shop option" where
  "shop_by_npc w npc_vid = Option.bind (mob_vnum w npc_vid) (shop_table w)"

definition shop_open :: "u32 \<Rightarrow> u32 \<Rightarrow> world \<Rightarrow> reaction" where
  "shop_open player_vid npc_vid w =
    (if open_shops w player_vid \<noteq> None then silent w
     else if trades w player_vid \<noteq> None then silent w
     else case shop_by_npc w npc_vid of
            None \<Rightarrow> silent w
          | Some shop \<Rightarrow>
              (case (player_pos w player_vid, entity_pos w npc_vid) of
                 (Some (px, py), Some (nx, ny)) \<Rightarrow>
                   if sint (distance_approx (px - nx) (py - ny)) \<ge> SHOP_MAX_DISTANCE then silent w
                   else Some ([Opened player_vid npc_vid (shop_items shop)],
                              w\<lparr>open_shops := (open_shops w)(player_vid \<mapsto>
                                  \<lparr>open_npc_vnum = shop_npc_vnum shop, open_npc_vid = npc_vid\<rparr>)\<rparr>)
               | _ \<Rightarrow> silent w))"

definition shop_close :: "u32 \<Rightarrow> world \<Rightarrow> reaction" where
  "shop_close player_vid w =
    (if open_shops w player_vid \<noteq> None
     then Some ([Closed player_vid], w\<lparr>open_shops := (open_shops w)(player_vid := None)\<rparr>)
     else silent w)"

definition shop_buy :: "u32 \<Rightarrow> u8 \<Rightarrow> world \<Rightarrow> reaction" where
  "shop_buy player_vid pos w =
    (case open_shops w player_vid of
       None \<Rightarrow> silent w
     | Some op \<Rightarrow>
         (case shop_table w (open_npc_vnum op) of
            None \<Rightarrow> silent w
          | Some shop \<Rightarrow>
              if unat pos \<ge> length (shop_items shop) then Some ([BuyRejected player_vid pos InvalidPos], w)
              else
                (let item = shop_items shop ! unat pos
                 in if si_price item \<le> 0 then Some ([BuyRejected player_vid pos NotEnoughMoney], w)
                    else Some ([BuyResult player_vid pos (si_vnum item) (si_count item) (si_price item)], w))))"

definition shop_sell_gate :: "u32 \<Rightarrow> u16 \<Rightarrow> int \<Rightarrow> world \<Rightarrow> reaction" where
  "shop_sell_gate player_vid cell count w =
    (if open_shops w player_vid = None then silent w else Some ([SellResult player_vid cell count], w))"

section \<open>Trades\<close>

definition trade_start :: "u32 \<Rightarrow> u32 \<Rightarrow> world \<Rightarrow> reaction" where
  "trade_start player_vid target_vid w =
    (if player_vid = target_vid then silent w
     else if trades w player_vid \<noteq> None then silent w
     else if \<not> connected w target_vid then silent w
     else if trades w target_vid \<noteq> None \<or> open_shops w target_vid \<noteq> None
     then Some ([Already player_vid], w)
     else if open_shops w player_vid \<noteq> None then silent w
     else case (player_pos w player_vid, player_pos w target_vid) of
            (Some (px, py), Some (tx, ty)) \<Rightarrow>
              if sint (distance_approx (px - tx) (py - ty)) \<ge> EXCHANGE_MAX_DISTANCE then silent w
              else Some ([Started player_vid target_vid, Started target_vid player_vid],
                         w\<lparr>trades := (trades w)(player_vid \<mapsto> next_pair w, target_vid \<mapsto> next_pair w),
                           pairs := (pairs w)(next_pair w \<mapsto> TradePair_new player_vid target_vid),
                           next_pair := Suc (next_pair w)\<rparr>)
          | _ \<Rightarrow> silent w)"

text \<open>
  The pair of a player, its address, the player's side and the other player; without a pair the
  handlers do nothing, and a pair that does not know the player makes them panic.
\<close>

definition with_pair ::
  "world \<Rightarrow> u32 \<Rightarrow> (nat \<Rightarrow> TradePair \<Rightarrow> nat \<Rightarrow> u32 \<Rightarrow> reaction) \<Rightarrow> reaction"
where
  "with_pair w v k =
    (case trades w v of
       None \<Rightarrow> silent w
     | Some a \<Rightarrow>
         (case pairs w a of
            None \<Rightarrow> None
          | Some p \<Rightarrow>
              (case (side_of p v, other p v) of
                 (Some s, Some o') \<Rightarrow> k a p s o'
               | _ \<Rightarrow> None)))"

definition put_session :: "world \<Rightarrow> nat \<Rightarrow> TradePair \<Rightarrow> TradeSession \<Rightarrow> world" where
  "put_session w a p t = w\<lparr>pairs := (pairs w)(a \<mapsto> p\<lparr>pair_session := t\<rparr>)\<rparr>"

definition trade_item_add :: "u32 \<Rightarrow> ItemRow \<Rightarrow> u8 \<Rightarrow> world \<Rightarrow> reaction" where
  "trade_item_add v row dpos w = with_pair w v (\<lambda>a p side o'.
     case add_item side row dpos (pair_session p) of
       (Inr _, t) \<Rightarrow>
         Some ([ItemAdded v True dpos (row_vnum row) (row_count row) (row_sockets row) (row_attrs row),
                ItemAdded o' False dpos (row_vnum row) (row_count row) (row_sockets row) (row_attrs row)],
               put_session w a p t)
     | (Inl _, t) \<Rightarrow> silent (put_session w a p t))"

definition trade_item_del :: "u32 \<Rightarrow> u8 \<Rightarrow> world \<Rightarrow> reaction" where
  "trade_item_del v dpos w = with_pair w v (\<lambda>a p side o'.
     case remove_item side dpos (pair_session p) of
       (removed, t) \<Rightarrow>
         if \<not> removed then silent (put_session w a p t)
         else Some ([ItemRemoved v True dpos, ItemRemoved o' False dpos], put_session w a p t))"

definition trade_gold_add :: "u32 \<Rightarrow> int \<Rightarrow> world \<Rightarrow> reaction" where
  "trade_gold_add v gold w = with_pair w v (\<lambda>a p side o'.
     case add_gold side gold (pair_session p) of
       (Inl _, t) \<Rightarrow> silent (put_session w a p t)
     | (Inr _, t) \<Rightarrow> Some ([GoldAdded v True gold, GoldAdded o' False gold], put_session w a p t))"

definition rows_of :: "TradeSide \<Rightarrow> ItemRow list" where
  "rows_of s = map offer_row (side_items s)"

definition trade_accept :: "u32 \<Rightarrow> world \<Rightarrow> reaction" where
  "trade_accept v w = with_pair w v (\<lambda>a p side o'.
     case accept side (pair_session p) of
       (completed, t) \<Rightarrow>
         if \<not> completed then Some ([AcceptState v True True, AcceptState o' False True], put_session w a p t)
         else
           (case side_of p o' of
              None \<Rightarrow> None
            | Some so \<Rightarrow>
                Some ([Commit v \<lparr>executor = v, partner = o', gold_executor = side_gold (sides t ! side),
                         gold_partner = side_gold (sides t ! so), offers_executor = rows_of (sides t ! side),
                         offers_partner = rows_of (sides t ! so)\<rparr>],
                      put_session w a p t)))"

text \<open>\<^verbatim>\<open>CommitOk\<close> removes both keys and reports to both players; the partner's side is \<^verbatim>\<open>1 - side\<close>.\<close>

definition trade_commit_ok :: "u32 \<Rightarrow> world \<Rightarrow> reaction" where
  "trade_commit_ok v w = with_pair w v (\<lambda>a p side o'.
     let t = pair_session p;
         mine = sides t ! side;
         theirs = sides t ! (1 - side)
     in Some ([Done v (side_gold theirs) (rows_of theirs) (rows_of mine),
               Done o' (side_gold mine) (rows_of mine) (rows_of theirs)],
              w\<lparr>trades := (trades w)(v := None, o' := None)\<rparr>))"

text \<open>\<^verbatim>\<open>trade_cancel\<close> and \<^verbatim>\<open>leave_player\<close> only ask for the other player.\<close>

definition trade_cancel :: "u32 \<Rightarrow> world \<Rightarrow> reaction" where
  "trade_cancel v w =
    (case trades w v of
       None \<Rightarrow> silent w
     | Some a \<Rightarrow>
         (case Option.bind (pairs w a) (\<lambda>p. other p v) of
            None \<Rightarrow> None
          | Some o' \<Rightarrow> Some ([Cancelled v, Cancelled o'], w\<lparr>trades := (trades w)(v := None, o' := None)\<rparr>)))"

definition leave_player :: "u32 \<Rightarrow> world \<Rightarrow> reaction" where
  "leave_player v w =
    (let w1 = w\<lparr>open_shops := (open_shops w)(v := None)\<rparr>;
         gone = (\<lambda>u. u\<lparr>connected := (connected u)(v := False), player_pos := (player_pos u)(v := None)\<rparr>)
     in case trades w v of
          None \<Rightarrow> silent (gone w1)
        | Some a \<Rightarrow>
            (case Option.bind (pairs w a) (\<lambda>p. other p v) of
               None \<Rightarrow> None
             | Some o' \<Rightarrow> silent (gone (w1\<lparr>trades := (trades w)(v := None, o' := None)\<rparr>))))"

fun handle_social :: "social_intent \<Rightarrow> world \<Rightarrow> reaction" where
  "handle_social (ShopIntent_Open v n) w = shop_open v n w"
| "handle_social (ShopIntent_Close v) w = shop_close v w"
| "handle_social (ShopIntent_Buy v pos) w = shop_buy v pos w"
| "handle_social (ShopIntent_Sell v cell) w = shop_sell_gate v cell 0 w"
| "handle_social (ShopIntent_Sell2 v cell c) w = shop_sell_gate v cell (uint c) w"
| "handle_social (TradeIntent_Start v t) w = trade_start v t w"
| "handle_social (TradeIntent_ItemAdd v row d) w = trade_item_add v row d w"
| "handle_social (TradeIntent_ItemDel v d) w = trade_item_del v d w"
| "handle_social (TradeIntent_GoldAdd v g) w = trade_gold_add v g w"
| "handle_social (TradeIntent_Accept v) w = trade_accept v w"
| "handle_social (TradeIntent_Cancel v) w = trade_cancel v w"
| "handle_social (TradeIntent_CommitOk v) w = trade_commit_ok v w"
| "handle_social (TradeIntent_CommitFail v) w = trade_cancel v w"
| "handle_social (Leave v) w = leave_player v w"

section \<open>The invariant\<close>

definition side_ok :: "TradeSide \<Rightarrow> bool" where
  "side_ok s \<longleftrightarrow> length (side_items s) \<le> EXCHANGE_ITEM_MAX_NUM \<and> distinct (map display_pos (side_items s))
     \<and> distinct (map (row_id \<circ> offer_row) (side_items s)) \<and> 0 \<le> side_gold s"

definition session_ok :: "TradeSession \<Rightarrow> bool" where
  "session_ok t \<longleftrightarrow> length (sides t) = 2 \<and> list_all side_ok (sides t)"

definition pair_ok :: "TradePair \<Rightarrow> u32 \<Rightarrow> u32 \<Rightarrow> bool" where
  "pair_ok p a b \<longleftrightarrow> a \<noteq> b \<and> side_map p = [(a, 0), (b, 1)] \<and> session_ok (pair_session p)"

definition trade_ok :: "world \<Rightarrow> u32 \<Rightarrow> nat \<Rightarrow> bool" where
  "trade_ok w v addr \<longleftrightarrow> addr < next_pair w
     \<and> (\<exists>p a b. pairs w addr = Some p \<and> pair_ok p a b \<and> (v = a \<or> v = b)
          \<and> trades w a = Some addr \<and> trades w b = Some addr)"

definition social_inv :: "world \<Rightarrow> bool" where
  "social_inv w \<longleftrightarrow> (\<forall>v addr. trades w v = Some addr \<longrightarrow> trade_ok w v addr)
     \<and> (\<forall>v. trades w v = None \<or> open_shops w v = None)"

lemma side_ok_clear [simp]: "side_ok (s\<lparr>side_accept := b\<rparr>) = side_ok s"
  by (simp add: side_ok_def)

lemma session_ok_reset [simp]: "session_ok (reset_accepts t) = session_ok t"
  by (simp add: session_ok_def reset_accepts_def list_all_iff)

lemma session_ok_put: "session_ok t \<Longrightarrow> side_ok s \<Longrightarrow> session_ok (t\<lparr>sides := (sides t)[i := s]\<rparr>)"
  by (auto simp: session_ok_def list_all_iff dest!: set_update_subset_insert [THEN subsetD])

lemma session_side: "session_ok t \<Longrightarrow> i < 2 \<Longrightarrow> side_ok (sides t ! i)"
  by (simp add: session_ok_def list_all_length)

lemma add_item_ok: "session_ok t \<Longrightarrow> i < 2 \<Longrightarrow> session_ok (snd (add_item i row d t))"
  using session_side [of t i]
  by (auto simp: add_item_def Let_def side_ok_def list_ex_iff intro!: session_ok_put) blast+

lemma remove_item_ok: "session_ok t \<Longrightarrow> i < 2 \<Longrightarrow> session_ok (snd (remove_item i d t))"
  using session_side [of t i]
  by (auto simp: remove_item_def Let_def side_ok_def distinct_map_filter
      intro!: session_ok_put intro: le_trans [OF length_filter_le])

lemma add_gold_ok: "session_ok t \<Longrightarrow> i < 2 \<Longrightarrow> session_ok (snd (add_gold i g t))"
  using session_side [of t i] by (auto simp: add_gold_def Let_def side_ok_def intro!: session_ok_put)

lemma accept_ok: "session_ok t \<Longrightarrow> i < 2 \<Longrightarrow> session_ok (snd (accept i t))"
  using session_side [of t i] by (auto simp: accept_def Let_def intro!: session_ok_put)

lemma default_ok: "session_ok TradeSession_default"
  by (simp add: session_ok_def TradeSession_default_def TradeSide_default_def side_ok_def)

text \<open>In a world with the invariant every pair is complete.\<close>

lemma pair_of:
  assumes "social_inv w" and "trades w v = Some addr"
  obtains p a b side o' where "addr < next_pair w" "pairs w addr = Some p" "pair_ok p a b"
    "trades w a = Some addr" "trades w b = Some addr" "side_of p v = Some side" "side < 2"
    "other p v = Some o'" "v = a \<and> o' = b \<and> side = 0 \<or> v = b \<and> o' = a \<and> side = 1"
proof -
  obtain p a b where p: "addr < next_pair w" "pairs w addr = Some p" "pair_ok p a b"
      "trades w a = Some addr" "trades w b = Some addr" "v = a \<or> v = b"
    using assms unfolding social_inv_def trade_ok_def by blast
  show ?thesis
  proof (cases "v = a")
    case True
    with p(3) show ?thesis by (intro that [OF p(1-5), of 0 b]) (auto simp: pair_ok_def side_of_def other_def)
  next
    case False
    with p(3,6) show ?thesis by (intro that [OF p(1-5), of 1 a]) (auto simp: pair_ok_def side_of_def other_def)
  qed
qed

lemma other_side: "pair_ok p a b \<Longrightarrow> side_of p v = Some side \<Longrightarrow> other p v = Some o' \<Longrightarrow> side_of p o' = Some (1 - side)"
  by (auto simp: pair_ok_def side_of_def other_def split: if_splits)

lemma inv_put_session:
  assumes "social_inv w" and "pairs w addr = Some p" and "session_ok t"
  shows "social_inv (put_session w addr p t)"
proof -
  have "trade_ok (put_session w addr p t) v c" if v: "trade_ok w v c" for v c
  proof -
    obtain q a b where q: "c < next_pair w" "pairs w c = Some q" "pair_ok q a b" "v = a \<or> v = b"
        "trades w a = Some c" "trades w b = Some c"
      using v unfolding trade_ok_def by blast
    show ?thesis
      unfolding trade_ok_def
      by (rule conjI, use q in \<open>simp add: put_session_def\<close>)
        (rule exI [of _ "if c = addr then p\<lparr>pair_session := t\<rparr> else q"], rule exI [of _ a], rule exI [of _ b],
          use q assms(2,3) in \<open>auto simp: put_session_def pair_ok_def\<close>)
  qed
  then show ?thesis using assms(1) by (simp add: social_inv_def put_session_def)
qed

lemma inv_close:
  assumes "social_inv w"
  shows "social_inv (w\<lparr>open_shops := (open_shops w)(v := None)\<rparr>)"
  using assms by (auto simp: social_inv_def trade_ok_def)

lemma inv_drop_pair:
  assumes "social_inv w" and "pairs w addr = Some p" and "pair_ok p a b" and "trades w a = Some addr"
    and "trades w b = Some addr"
  shows "social_inv (w\<lparr>trades := (trades w)(a := None, b := None)\<rparr>)"
proof -
  have "trade_ok (w\<lparr>trades := (trades w)(a := None, b := None)\<rparr>) u c"
    if u: "u \<noteq> a" "u \<noteq> b" and t: "trades w u = Some c" for u c
  proof -
    obtain q a' b' where q: "pairs w c = Some q" "pair_ok q a' b'" "u = a' \<or> u = b'"
        "trades w a' = Some c" "trades w b' = Some c" "c < next_pair w"
      using assms(1) t unfolding social_inv_def trade_ok_def by blast
    have "c \<noteq> addr" using q(1-3) assms(2,3) u by (auto simp: pair_ok_def)
    then have "a' \<notin> {a, b}" "b' \<notin> {a, b}" using q(4,5) assms(4,5) by auto
    with q show ?thesis by (auto simp: trade_ok_def)
  qed
  then show ?thesis using assms(1) by (auto simp: social_inv_def split: if_splits)
qed

text \<open>Both orders of the removed keys occur.\<close>

lemma inv_drop_both:
  assumes "social_inv w" and "pairs w addr = Some p" and "pair_ok p a b" and "trades w a = Some addr"
    and "trades w b = Some addr" and "v = a \<and> o' = b \<or> v = b \<and> o' = a"
  shows "social_inv (w\<lparr>trades := (trades w)(v := None, o' := None)\<rparr>)"
proof -
  have "(trades w)(v := None, o' := None) = (trades w)(a := None, b := None)"
    using assms(6) by (cases "v = a") (auto simp: fun_upd_twist)
  then show ?thesis using inv_drop_pair [OF assms(1-5)] by simp
qed

text \<open>The handlers that work inside a pair keep the invariant when the session operation does.\<close>

lemma with_pair_inv:
  assumes inv: "social_inv w"
    and step: "\<And>addr p a b side o'. trades w v = Some addr \<Longrightarrow> pairs w addr = Some p \<Longrightarrow> pair_ok p a b \<Longrightarrow>
      trades w a = Some addr \<Longrightarrow> trades w b = Some addr \<Longrightarrow> side_of p v = Some side \<Longrightarrow> side < 2 \<Longrightarrow>
      other p v = Some o' \<Longrightarrow> v = a \<and> o' = b \<or> v = b \<and> o' = a \<Longrightarrow>
      \<exists>ev w'. k addr p side o' = Some (ev, w') \<and> social_inv w'"
  shows "\<exists>ev w'. with_pair w v k = Some (ev, w') \<and> social_inv w'"
proof (cases "trades w v")
  case None
  with inv show ?thesis by (simp add: with_pair_def)
next
  case (Some addr)
  obtain p a b side o' where p: "pairs w addr = Some p" "pair_ok p a b" "trades w a = Some addr"
      "trades w b = Some addr" "side_of p v = Some side" "side < 2" "other p v = Some o'"
      "v = a \<and> o' = b \<and> side = 0 \<or> v = b \<and> o' = a \<and> side = 1"
    by (rule pair_of [OF inv Some])
  then have "v = a \<and> o' = b \<or> v = b \<and> o' = a" by auto
  from step [OF Some p(1-7) this] p(1,5,7) Some show ?thesis by (simp add: with_pair_def)
qed

lemma put_ok:
  "social_inv w \<Longrightarrow> pairs w addr = Some p \<Longrightarrow> pair_ok p a b \<Longrightarrow>
   (session_ok (pair_session p) \<Longrightarrow> session_ok t) \<Longrightarrow> social_inv (put_session w addr p t)"
  by (rule inv_put_session) (auto simp: pair_ok_def)

lemma trade_item_add_inv: "social_inv w \<Longrightarrow> \<exists>ev w'. trade_item_add v row d w = Some (ev, w') \<and> social_inv w'"
  unfolding trade_item_add_def
  by (rule with_pair_inv, assumption)
    (auto split: prod.split sum.split intro!: put_ok dest: add_item_ok [of _ _ row d])

lemma trade_item_del_inv: "social_inv w \<Longrightarrow> \<exists>ev w'. trade_item_del v d w = Some (ev, w') \<and> social_inv w'"
  unfolding trade_item_del_def
  by (rule with_pair_inv, assumption)
    (auto split: prod.split intro!: put_ok dest: remove_item_ok [of _ _ d])

lemma trade_gold_add_inv: "social_inv w \<Longrightarrow> \<exists>ev w'. trade_gold_add v g w = Some (ev, w') \<and> social_inv w'"
  unfolding trade_gold_add_def
  by (rule with_pair_inv, assumption)
    (auto split: prod.split sum.split intro!: put_ok dest: add_gold_ok [of _ _ g])

lemma trade_accept_inv: "social_inv w \<Longrightarrow> \<exists>ev w'. trade_accept v w = Some (ev, w') \<and> social_inv w'"
  unfolding trade_accept_def
  by (rule with_pair_inv, assumption)
    (auto split: prod.split option.split intro!: put_ok dest: accept_ok other_side)

lemma trade_commit_ok_inv: "social_inv w \<Longrightarrow> \<exists>ev w'. trade_commit_ok v w = Some (ev, w') \<and> social_inv w'"
  unfolding trade_commit_ok_def
  by (rule with_pair_inv, assumption) (auto simp: Let_def intro: inv_drop_both)

lemma trade_cancel_inv: "social_inv w \<Longrightarrow> \<exists>ev w'. trade_cancel v w = Some (ev, w') \<and> social_inv w'"
proof (cases "trades w v")
  case (Some addr)
  assume inv: "social_inv w"
  obtain p a b o' where p: "pairs w addr = Some p" "pair_ok p a b" "trades w a = Some addr"
      "trades w b = Some addr" "other p v = Some o'" "v = a \<and> o' = b \<or> v = b \<and> o' = a"
    by (rule pair_of [OF inv Some]) blast
  with inv_drop_both [OF inv p(1-4,6)] Some show ?thesis by (simp add: trade_cancel_def)
qed (simp add: trade_cancel_def)

lemma inv_gone:
  "social_inv (w\<lparr>connected := c, player_pos := q\<rparr>) = social_inv w"
  by (simp add: social_inv_def trade_ok_def)

lemma leave_player_inv: "social_inv w \<Longrightarrow> \<exists>ev w'. leave_player v w = Some (ev, w') \<and> social_inv w'"
proof (cases "trades w v")
  case None
  assume "social_inv w"
  with None show ?thesis by (simp add: leave_player_def Let_def inv_gone inv_close)
next
  case (Some addr)
  assume inv: "social_inv w"
  obtain p a b o' where p: "pairs w addr = Some p" "pair_ok p a b" "trades w a = Some addr"
      "trades w b = Some addr" "other p v = Some o'" "v = a \<and> o' = b \<or> v = b \<and> o' = a"
    by (rule pair_of [OF inv Some]) blast
  from inv_drop_both [OF inv_close [OF inv, of v], of addr p a b v o'] p Some show ?thesis
    by (simp add: leave_player_def Let_def inv_gone)
qed

lemma shop_open_inv: "social_inv w \<Longrightarrow> \<exists>ev w'. shop_open v n w = Some (ev, w') \<and> social_inv w'"
  by (auto simp: shop_open_def social_inv_def trade_ok_def split: option.split prod.split)

lemma shop_close_inv: "social_inv w \<Longrightarrow> \<exists>ev w'. shop_close v w = Some (ev, w') \<and> social_inv w'"
  by (auto simp: shop_close_def inv_close)

lemma shop_buy_inv: "social_inv w \<Longrightarrow> \<exists>ev w'. shop_buy v pos w = Some (ev, w') \<and> social_inv w'"
  by (auto simp: shop_buy_def Let_def split: option.split)

lemma shop_sell_inv: "social_inv w \<Longrightarrow> \<exists>ev w'. shop_sell_gate v cell c w = Some (ev, w') \<and> social_inv w'"
  by (auto simp: shop_sell_gate_def)

lemma inv_new_pair:
  assumes "social_inv w" and "v \<noteq> t" and "trades w v = None" and "trades w t = None"
    and "open_shops w v = None" and "open_shops w t = None"
  shows "social_inv (w\<lparr>trades := (trades w)(v \<mapsto> next_pair w, t \<mapsto> next_pair w),
      pairs := (pairs w)(next_pair w \<mapsto> TradePair_new v t), next_pair := Suc (next_pair w)\<rparr>)" (is "social_inv ?w")
proof -
  have "trade_ok ?w u c" if u: "trade_ok w u c" for u c
  proof -
    obtain q a b where "pairs w c = Some q" "pair_ok q a b" "u = a \<or> u = b" "trades w a = Some c"
        "trades w b = Some c" "c < next_pair w"
      using u unfolding trade_ok_def by blast
    then show ?thesis
      unfolding trade_ok_def using assms(3,4)
      by (intro conjI exI [of _ q] exI [of _ a] exI [of _ b]) auto
  qed
  moreover have "trade_ok ?w v (next_pair w)" "trade_ok ?w t (next_pair w)"
    using assms(2) by (auto simp: trade_ok_def pair_ok_def TradePair_new_def default_ok)
  ultimately show ?thesis using assms by (auto simp: social_inv_def split: if_splits)
qed

lemma trade_start_inv: "social_inv w \<Longrightarrow> \<exists>ev w'. trade_start v t w = Some (ev, w') \<and> social_inv w'"
  by (auto simp: trade_start_def inv_new_pair split: option.split prod.split)

lemma handle_social_inv: "social_inv w \<Longrightarrow> \<exists>ev w'. handle_social i w = Some (ev, w') \<and> social_inv w'"
  by (cases i) (auto simp: shop_open_inv shop_close_inv shop_buy_inv shop_sell_inv trade_start_inv
      trade_item_add_inv trade_item_del_inv trade_gold_add_inv trade_accept_inv trade_cancel_inv
      trade_commit_ok_inv leave_player_inv)

section \<open>Runs\<close>

text \<open>The intents of all connections in the order the world task takes them; \<open>None\<close> is a panic.\<close>

fun run_social :: "social_intent list \<Rightarrow> world \<Rightarrow> reaction" where
  "run_social [] w = Some ([], w)"
| "run_social (i # is) w =
     (case handle_social i w of
        None \<Rightarrow> None
      | Some (ev, w') \<Rightarrow> map_option (map_prod ((@) ev) (\<lambda>u. u)) (run_social is w'))"

definition fresh_world :: "world \<Rightarrow> bool" where
  "fresh_world w \<longleftrightarrow> trades w = Map.empty \<and> open_shops w = Map.empty"

lemma fresh_inv: "fresh_world w \<Longrightarrow> social_inv w"
  by (simp add: fresh_world_def social_inv_def)

lemma run_inv: "social_inv w \<Longrightarrow> \<exists>ev w'. run_social is w = Some (ev, w') \<and> social_inv w'"
proof (induction "is" arbitrary: w)
  case (Cons i "is")
  obtain ev1 w1 where "handle_social i w = Some (ev1, w1)" "social_inv w1"
    using handle_social_inv [OF Cons.prems] by blast
  with Cons.IH [of w1] show ?case by force
qed simp

lemma run_world_inv: "social_inv w \<Longrightarrow> run_social is w = Some (ev, w') \<Longrightarrow> social_inv w'"
  using run_inv [of w "is"] by auto

text \<open>C19. No intent panics the world task, in any order: on every world without open windows, every
  sequence of shop and trade intents and of departures runs to its end; then a player with a
  trade shares one pair with exactly one other player, has no shop open, and each side offers at
  most 12 items in distinct places of the window, no item twice, and no negative gold.\<close>

theorem social_never_panics:
  assumes "fresh_world w"
  shows "\<exists>ev w'. run_social is w = Some (ev, w')
    \<and> (trades w' v = None \<or> open_shops w' v = None)
    \<and> (case trades w' v of
         None \<Rightarrow> True
       | Some addr \<Rightarrow>
           (\<exists>p a b. pairs w' addr = Some p \<and> a \<noteq> b \<and> (v = a \<or> v = b) \<and> trades w' a = Some addr
              \<and> trades w' b = Some addr \<and> side_map p = [(a, 0), (b, 1)] \<and> session_ok (pair_session p)))"
proof -
  obtain ev w' where run: "run_social is w = Some (ev, w')" and inv: "social_inv w'"
    using run_inv [OF fresh_inv [OF assms]] by blast
  have "case trades w' v of None \<Rightarrow> True
    | Some addr \<Rightarrow> (\<exists>p a b. pairs w' addr = Some p \<and> a \<noteq> b \<and> (v = a \<or> v = b) \<and> trades w' a = Some addr
        \<and> trades w' b = Some addr \<and> side_map p = [(a, 0), (b, 1)] \<and> session_ok (pair_session p))"
  proof (cases "trades w' v")
    case (Some addr)
    then have "trade_ok w' v addr" using inv by (simp add: social_inv_def)
    with Some show ?thesis by (auto simp: trade_ok_def pair_ok_def)
  qed simp
  with run inv show ?thesis by (auto simp: social_inv_def)
qed

definition two_players :: world where
  "two_players = \<lparr>connected = (\<lambda>v. v = 1 \<or> v = 2), player_pos = [1 \<mapsto> (0, 0), 2 \<mapsto> (200, 0)],
     entity_pos = Map.empty, mob_vnum = Map.empty, shop_table = Map.empty, open_shops = Map.empty,
     trades = Map.empty, pairs = Map.empty, next_pair = 0\<rparr>"

theorem social_never_panics_witness:
  "\<exists>ev w'. run_social [TradeIntent_Start 1 2, TradeIntent_GoldAdd 1 5, TradeIntent_Accept 2, Leave 1] two_players
       = Some (ev, w')
    \<and> (trades w' 2 = None \<or> open_shops w' 2 = None)
    \<and> (case trades w' 2 of
         None \<Rightarrow> True
       | Some addr \<Rightarrow>
           (\<exists>p a b. pairs w' addr = Some p \<and> a \<noteq> b \<and> (2 = a \<or> 2 = b) \<and> trades w' a = Some addr
              \<and> trades w' b = Some addr \<and> side_map p = [(a, 0), (b, 1)] \<and> session_ok (pair_session p)))"
  by (rule social_never_panics) (simp add: fresh_world_def two_players_def)

section \<open>From the offers to the commit\<close>

text \<open>An accept that completes the pair: what it read and what it leaves.\<close>

definition plan_of :: "TradeSession \<Rightarrow> u32 \<Rightarrow> nat \<Rightarrow> u32 \<Rightarrow> TradeCommitPlan" where
  "plan_of t v side o' =
    \<lparr>executor = v, partner = o', gold_executor = side_gold (sides t ! side),
     gold_partner = side_gold (sides t ! (1 - side)), offers_executor = rows_of (sides t ! side),
     offers_partner = rows_of (sides t ! (1 - side))\<rparr>"

lemma accepting_accepted:
  assumes "both_accepted t" and "side < 2"
  shows "accept side t = (True, t)"
proof -
  have "(sides t ! side)\<lparr>side_accept := True\<rparr> = sides t ! side"
    using assms by (auto simp: both_accepted_def less_2_cases_iff)
  then show ?thesis using assms(1) by (simp add: accept_def Let_def)
qed

lemma accept_commits:
  assumes "social_inv w" and "handle_social (TradeIntent_Accept v) w = Some ([Commit v plan], w1)"
  obtains addr p a b t side o' where "trades w1 v = Some addr" "pairs w1 addr = Some p" "pair_ok p a b"
    "trades w1 a = Some addr" "trades w1 b = Some addr" "both_accepted (pair_session p)"
    "side_of p v = Some side" "other p v = Some o'" "side_of p o' = Some (1 - side)" "other p o' = Some v"
    "plan = plan_of (pair_session p) v side o'" "side < 2"
proof -
  obtain addr where addr: "trades w v = Some addr"
    using assms(2) by (cases "trades w v") (auto simp: trade_accept_def with_pair_def)
  obtain p a b side o' where p: "pairs w addr = Some p" "pair_ok p a b" "trades w a = Some addr"
      "trades w b = Some addr" "side_of p v = Some side" "side < 2" "other p v = Some o'"
      "v = a \<and> o' = b \<and> side = 0 \<or> v = b \<and> o' = a \<and> side = 1"
    by (rule pair_of [OF assms(1) addr])
  obtain c t where t: "accept side (pair_session p) = (c, t)" by fastforce
  note so = other_side [OF p(2,5,7)]
  have c: "c" and plan: "plan = plan_of t v side o'" and w1: "w1 = put_session w addr p t"
    using assms(2) addr p(1,5,7) t so
    by (auto simp: trade_accept_def with_pair_def plan_of_def split: if_splits)
  from c t have both: "both_accepted t" by (auto simp: accept_def Let_def)
  let ?p = "p\<lparr>pair_session := t\<rparr>"
  have "session_ok t" using accept_ok [of "pair_session p" side] p(2,6) t by (simp add: pair_ok_def)
  moreover have "side_of ?p v = Some side" "other ?p v = Some o'" "side_of ?p o' = Some (1 - side)"
      "other ?p o' = Some v"
    using p(2,5,7,8) so by (auto simp: side_of_def other_def pair_ok_def split: if_splits)
  ultimately show ?thesis
    using addr p both plan w1
    by (intro that [of addr ?p a b side o']) (simp_all add: put_session_def pair_ok_def)
qed

lemma put_same: "pairs w addr = Some p \<Longrightarrow> put_session w addr p (pair_session p) = w"
  by (simp add: put_session_def fun_upd_idem)

text \<open>The pair stays open between the commit and its confirmation: after the accept that completes
  a pair, a second accept of either player asks for the same commit again, and when both commits
  are executed, the second under identifiers above the first, each item the executor gave is in
  the tables twice, as two rows of the partner.\<close>

theorem second_accept_commits_twice:
  assumes "social_inv w" and "handle_social (TradeIntent_Accept v) w = Some ([Commit v plan], w1)"
    and "commit_ids plan base"
    and "base + int (length (offers_executor plan @ offers_partner plan)) \<le> base'"
    and "T1 = fold op_effect (commit_ops plan ge gp base) T"
    and "T2 = fold op_effect (commit_ops plan ge' gp' base') T1"
  shows "handle_social (TradeIntent_Accept v) w1 = Some ([Commit v plan], w1)
    \<and> handle_social (TradeIntent_Accept (partner plan)) w1 =
        Some ([Commit (partner plan) \<lparr>executor = partner plan, partner = v, gold_executor = gold_partner plan,
                 gold_partner = gold_executor plan, offers_executor = offers_partner plan,
                 offers_partner = offers_executor plan\<rparr>], w1)
    \<and> list_all (\<lambda>(k, r). fst T2 (base + int k) = Some (uint (partner plan), received_row r (base + int k))
                       \<and> fst T2 (base' + int k) = Some (uint (partner plan), received_row r (base' + int k)))
        (enumerate 0 (offers_executor plan))"
proof -
  obtain addr p a b t side o' where p: "trades w1 v = Some addr" "pairs w1 addr = Some p" "pair_ok p a b"
      "trades w1 a = Some addr" "trades w1 b = Some addr" "both_accepted (pair_session p)"
      "side_of p v = Some side" "other p v = Some o'" "side_of p o' = Some (1 - side)" "other p o' = Some v"
      "plan = plan_of (pair_session p) v side o'" "side < 2"
    by (rule accept_commits [OF assms(1,2)])
  have o': "trades w1 o' = Some addr" using p(3-5,8) by (auto simp: pair_ok_def other_def split: if_splits)
  have twice: "Suc 0 - (Suc 0 - side) = side" using p(12) by linarith
  have again: "handle_social (TradeIntent_Accept v) w1 = Some ([Commit v plan], w1)"
    using p by (simp add: trade_accept_def with_pair_def accepting_accepted put_same plan_of_def)
  have partner: "handle_social (TradeIntent_Accept o') w1 = Some ([Commit o' (plan_of (pair_session p) o' (1 - side) v)], w1)"
    using p o' twice by (simp add: trade_accept_def with_pair_def accepting_accepted put_same plan_of_def)
  have ids': "commit_ids plan base'"
    using assms(4) by (intro commit_ids_mono [OF assms(3)]) simp
  have "fst T2 (base + int k) = Some (uint (partner plan), received_row r (base + int k))
      \<and> fst T2 (base' + int k) = Some (uint (partner plan), received_row r (base' + int k))"
    if k: "(k, r) \<in> set (enumerate 0 (offers_executor plan))" for k r
  proof -
    have "k < length (offers_executor plan)" using k by (simp add: in_set_enumerate_eq)
    then have "fst T2 (base + int k) = fst T1 (base + int k)"
      unfolding assms(6) using assms(4) by (intro later_commit_keeps [OF assms(3,4)]) auto
    then show ?thesis
      using executor_placed [OF assms(3) k] executor_placed [OF ids' k] assms(5,6) by simp
  qed
  with again partner show ?thesis
    unfolding p(11) by (auto simp: plan_of_def twice list_all_iff)
qed

text \<open>A pair about to be completed: five of an item for 300 gold, the buyer has accepted.\<close>

definition agreed_pair :: TradePair where
  "agreed_pair = \<lparr>pair_session = \<lparr>sides =
       [\<lparr>side_items = [\<lparr>offer_row = sample_row 1 5, display_pos = 0\<rparr>], side_gold = 0, side_accept = False\<rparr>,
        \<lparr>side_items = [], side_gold = 300, side_accept = True\<rparr>]\<rparr>,
     side_map = [(7, 0), (8, 1)]\<rparr>"

definition agreed_world :: world where
  "agreed_world = two_players\<lparr>trades := [7 \<mapsto> 0, 8 \<mapsto> 0], pairs := [0 \<mapsto> agreed_pair], next_pair := 1\<rparr>"

definition completed_world :: world where
  "completed_world = put_session agreed_world 0 agreed_pair (snd (accept 0 (pair_session agreed_pair)))"

lemma agreed_inv: "social_inv agreed_world"
  by (auto simp: social_inv_def agreed_world_def two_players_def trade_ok_def pair_ok_def agreed_pair_def
      session_ok_def side_ok_def EXCHANGE_ITEM_MAX_NUM_def split: if_splits)

lemma agreed_accept:
  "handle_social (TradeIntent_Accept 7) agreed_world = Some ([Commit 7 sample_plan], completed_world)"
  by (simp add: trade_accept_def with_pair_def agreed_world_def two_players_def agreed_pair_def side_of_def
      other_def accept_def both_accepted_def rows_of_def sample_plan_def completed_world_def Let_def)

lemma sample_ids: "commit_ids sample_plan 100"
  by (rule commit_ready_ids [OF sample_ready])

theorem second_accept_commits_twice_witness:
  "handle_social (TradeIntent_Accept 7) completed_world = Some ([Commit 7 sample_plan], completed_world)
    \<and> handle_social (TradeIntent_Accept (partner sample_plan)) completed_world =
        Some ([Commit (partner sample_plan) \<lparr>executor = partner sample_plan, partner = 7,
                 gold_executor = gold_partner sample_plan, gold_partner = gold_executor sample_plan,
                 offers_executor = offers_partner sample_plan, offers_partner = offers_executor sample_plan\<rparr>],
              completed_world)
    \<and> list_all (\<lambda>(k, r).
          fst (fold op_effect (commit_ops sample_plan 1000 200 101)
                 (fold op_effect (commit_ops sample_plan 1000 500 100) (db_tables sample_market))) (100 + int k)
            = Some (uint (partner sample_plan), received_row r (100 + int k))
        \<and> fst (fold op_effect (commit_ops sample_plan 1000 200 101)
                 (fold op_effect (commit_ops sample_plan 1000 500 100) (db_tables sample_market))) (101 + int k)
            = Some (uint (partner sample_plan), received_row r (101 + int k)))
        (enumerate 0 (offers_executor sample_plan))"
  by (rule second_accept_commits_twice [OF agreed_inv agreed_accept sample_ids _ refl refl])
    (simp add: sample_plan_def)

lemma accept_executor:
  assumes "social_inv w" and "handle_social (TradeIntent_Accept v) w = Some ([Commit v plan], w1)"
  shows "executor plan = v"
  by (rule accept_commits [OF assms]) (simp add: plan_of_def Let_def)

lemma commit_ok_reports:
  assumes "social_inv w" and "handle_social (TradeIntent_Accept v) w = Some ([Commit v plan], w1)"
  shows "\<exists>w2. handle_social (TradeIntent_CommitOk v) w1 =
    Some ([Done v (gold_partner plan) (offers_partner plan) (offers_executor plan),
           Done (partner plan) (gold_executor plan) (offers_executor plan) (offers_partner plan)], w2)"
proof -
  obtain addr p a b side o' where p: "trades w1 v = Some addr" "pairs w1 addr = Some p"
      "side_of p v = Some side" "other p v = Some o'" "plan = plan_of (pair_session p) v side o'"
    by (rule accept_commits [OF assms]) blast
  then show ?thesis by (simp add: trade_commit_ok_def with_pair_def plan_of_def Let_def)
qed

lemma apply_done_gold: "apply_done s g received delivered = Inr (s', up) \<Longrightarrow> s_gold s' = s_gold s + g"
  by (auto simp: apply_done_def checked_gold_delta_Some split: option.splits prod.splits)

text \<open>C20. A trade creates gold in the sessions: confirmation adds to each balance what the other side
  offered and takes from neither what it offered, so the two balances together grow by both
  offers.\<close>

theorem trade_creates_gold:
  assumes "social_inv w" and "handle_social (TradeIntent_Accept v) w = Some ([Commit v plan], w1)"
    and "handle_social (TradeIntent_CommitOk v) w1 = Some ([Done v g1 in1 out1, Done x g2 in2 out2], w2)"
    and "apply_done s1 g1 in1 out1 = Inr (s1', up1)" and "apply_done s2 g2 in2 out2 = Inr (s2', up2)"
  shows "s_gold s1' + s_gold s2' = s_gold s1 + s_gold s2 + gold_executor plan + gold_partner plan"
  using commit_ok_reports [OF assms(1,2)] assms(3) apply_done_gold [OF assms(4)] apply_done_gold [OF assms(5)]
  by auto

lemma completed_confirmed:
  "\<exists>w2. handle_social (TradeIntent_CommitOk 7) completed_world =
     Some ([Done 7 300 [] [sample_row 1 5], Done 8 0 [sample_row 1 5] []], w2)"
  using commit_ok_reports [OF agreed_inv agreed_accept] by (simp add: sample_plan_def)

lemma seller_done:
  "apply_done \<lparr>s_owner = 7, s_gold = 1000, s_inventory = [sample_row 1 5]\<rparr> 300 [] [sample_row 1 5]
     = Inr (\<lparr>s_owner = 7, s_gold = 1300, s_inventory = []\<rparr>, [])"
  by (simp add: apply_done_def deliver_def checked_gold_delta_def is_valid_gold_def GOLD_MAX_def checked_def)

lemma buyer_done:
  "\<exists>up. apply_done \<lparr>s_owner = 8, s_gold = 500, s_inventory = []\<rparr> 0 [sample_row 1 5] []
     = Inr (\<lparr>s_owner = 8, s_gold = 500, s_inventory = up\<rparr>, up)"
  by (simp add: apply_done_def deliver_def checked_gold_delta_def is_valid_gold_def GOLD_MAX_def checked_def Let_def)

theorem trade_creates_gold_witness:
  "\<exists>s1' up1 s2' up2.
     apply_done \<lparr>s_owner = 7, s_gold = 1000, s_inventory = [sample_row 1 5]\<rparr> 300 [] [sample_row 1 5] = Inr (s1', up1)
     \<and> apply_done \<lparr>s_owner = 8, s_gold = 500, s_inventory = []\<rparr> 0 [sample_row 1 5] [] = Inr (s2', up2)
     \<and> s_gold s1' + s_gold s2' = 1000 + 500 + gold_executor sample_plan + gold_partner sample_plan"
proof -
  obtain w2 up where fin: "handle_social (TradeIntent_CommitOk 7) completed_world =
      Some ([Done 7 300 [] [sample_row 1 5], Done 8 0 [sample_row 1 5] []], w2)"
    "apply_done \<lparr>s_owner = 8, s_gold = 500, s_inventory = []\<rparr> 0 [sample_row 1 5] []
      = Inr (\<lparr>s_owner = 8, s_gold = 500, s_inventory = up\<rparr>, up)"
    using completed_confirmed buyer_done by blast
  from seller_done fin(2) trade_creates_gold [OF agreed_inv agreed_accept fin(1) seller_done fin(2)]
  show ?thesis by (intro exI conjI) (assumption, assumption, simp add: sample_plan_def)
qed

text \<open>\<open>receive\<close> upserts the rows it was given, with another position.\<close>

lemma receive_upserts: "list_all2 (\<lambda>r u. \<exists>pos. u = r\<lparr>row_pos := pos\<rparr>) rs (snd (receive rs bag))"
  by (induction rs arbitrary: bag) (auto simp: Let_def)

lemma receive_ids: "map row_id (snd (receive rs bag)) = map row_id rs"
  by (induction rs arbitrary: bag) (auto simp: Let_def)

lemma apply_done_upserts:
  "apply_done s g received delivered = Inr (s', up) \<Longrightarrow> \<exists>bag. up = snd (receive received bag)"
  by (auto simp: apply_done_def split: option.splits prod.splits) (metis snd_conv)

text \<open>The upserts of the two sessions, in whatever order they reach the database.\<close>

lemma upserted:
  assumes "ps \<in> shuffles (map (\<lambda>r. Place r a) up1) (map (\<lambda>r. Place r b) up2)"
    and "distinct (map row_id (up1 @ up2))"
  shows "u \<in> set up1 \<Longrightarrow> fst (fold op_effect ps T) (row_id u) = Some (a, u)"
    and "u \<in> set up2 \<Longrightarrow> fst (fold op_effect ps T) (row_id u) = Some (b, u)"
    and "i \<notin> row_id ` set (up1 @ up2) \<Longrightarrow> fst (fold op_effect ps T) i = fst T i"
proof -
  have ids: "inj_on row_id (set (up1 @ up2))" "distinct up1" "distinct up2" "set up1 \<inter> set up2 = {}"
    using assms(2) unfolding distinct_map by auto
  have ps: "set ps = (\<lambda>r. Place r a) ` set up1 \<union> (\<lambda>r. Place r b) ` set up2"
    using set_shuffles [OF assms(1)] by simp
  have "distinct ps"
    by (rule distinct_disjoint_shuffles [OF _ _ _ assms(1)])
      (use ids in \<open>auto simp: distinct_map inj_on_def\<close>)
  moreover have "inj_on op_key (set ps)"
  proof -
    have "row_id r \<noteq> row_id r'" if "r \<in> set up1" "r' \<in> set up2" for r r'
      using inj_onD [OF ids(1), of r r'] ids(4) that by auto
    then show ?thesis
      using ids(1) unfolding ps by (auto simp: inj_on_def) metis+
  qed
  ultimately have d: "distinct (map op_key ps)" by (simp add: distinct_map)
  show "u \<in> set up1 \<Longrightarrow> fst (fold op_effect ps T) (row_id u) = Some (a, u)"
    and "u \<in> set up2 \<Longrightarrow> fst (fold op_effect ps T) (row_id u) = Some (b, u)"
    by (rule placed_at [OF d]; simp add: ps)+
  show "i \<notin> row_id ` set (up1 @ up2) \<Longrightarrow> fst (fold op_effect ps T) i = fst T i"
    by (rule untouched_item) (auto simp: ps)
qed

lemma received_again:
  assumes "(k, r) \<in> set (enumerate n rs)"
    and "\<And>u. u \<in> set (snd (receive rs bag)) \<Longrightarrow> fst T (row_id u) = Some (ow, u)"
  shows "\<exists>pos. fst T (row_id r) = Some (ow, r\<lparr>row_pos := pos\<rparr>)"
proof -
  have "k - n < length rs" "r = rs ! (k - n)" using assms(1) by (auto simp: in_set_enumerate_eq)
  then obtain pos where "snd (receive rs bag) ! (k - n) = r\<lparr>row_pos := pos\<rparr>" "k - n < length (snd (receive rs bag))"
    using receive_upserts [of rs bag] by (auto simp: list_all2_conv_all_nth)
  then have "r\<lparr>row_pos := pos\<rparr> \<in> set (snd (receive rs bag))" by (metis nth_mem)
  from assms(2) [OF this] show ?thesis by auto
qed

text \<open>C21. A trade duplicates every traded item in the tables: the confirmation hands each player the rows
  the other one offered, under their old identifiers, and its session upserts them. So once the
  units of the commit and the upserts of the two sessions (in any order among each other) are in
  the tables, each offered item, of the executor and of the partner, is two rows of its new owner:
  one under the old identifier and one under the new.\<close>

theorem trade_duplicates_items:
  assumes "social_inv w" and "handle_social (TradeIntent_Accept v) w = Some ([Commit v plan], w1)"
    and "handle_social (TradeIntent_CommitOk v) w1 = Some ([Done v g1 in1 out1, Done x g2 in2 out2], w2)"
    and "apply_done s1 g1 in1 out1 = Inr (s1', up1)" and "apply_done s2 g2 in2 out2 = Inr (s2', up2)"
    and "commit_ids plan base" and "T1 = fold op_effect (commit_ops plan ge gp base) T"
    and "ps \<in> shuffles (map (\<lambda>r. Place r (uint v)) up1) (map (\<lambda>r. Place r (uint x)) up2)"
    and "T2 = fold op_effect ps T1"
  shows "v = executor plan \<and> x = partner plan
    \<and> list_all (\<lambda>(k, r). (\<exists>pos. fst T2 (row_id r) = Some (uint x, r\<lparr>row_pos := pos\<rparr>))
          \<and> fst T2 (base + int k) = Some (uint x, received_row r (base + int k)))
        (enumerate 0 (offers_executor plan))
    \<and> list_all (\<lambda>(k, r). (\<exists>pos. fst T2 (row_id r) = Some (uint v, r\<lparr>row_pos := pos\<rparr>))
          \<and> fst T2 (base + int k) = Some (uint v, received_row r (base + int k)))
        (enumerate (length (offers_executor plan)) (offers_partner plan))"
proof -
  let ?E = "offers_executor plan" and ?P = "offers_partner plan"
  have v: "executor plan = v" by (rule accept_executor [OF assms(1,2)])
  have x: "x = partner plan" "in1 = ?P" "in2 = ?E"
    using commit_ok_reports [OF assms(1,2)] assms(3) by auto
  obtain bag1 bag2 where up: "up1 = snd (receive ?P bag1)" "up2 = snd (receive ?E bag2)"
    using apply_done_upserts [OF assms(4)] apply_done_upserts [OF assms(5)] x by auto
  have ids: "map row_id (up1 @ up2) = map row_id (?P @ ?E)" by (simp add: up receive_ids)
  have d: "distinct (map row_id (up1 @ up2))" unfolding ids using assms(6) by (auto simp: commit_ids_def)
  have fresh: "base + int k \<notin> row_id ` set (up1 @ up2)" for k
  proof
    assume "base + int k \<in> row_id ` set (up1 @ up2)"
    also have "row_id ` set (up1 @ up2) = row_id ` set (?P @ ?E)" by (metis ids set_map)
    finally obtain r where "r \<in> set (?E @ ?P)" "row_id r = base + int k"
      by (metis imageE set_append Un_commute)
    with commit_id_less [OF assms(6) this(1)] show False by simp
  qed
  note T2 = upserted [OF assms(8) d, of _ T1, folded assms(9)]
  have "(\<exists>pos. fst T2 (row_id r) = Some (uint x, r\<lparr>row_pos := pos\<rparr>))
      \<and> fst T2 (base + int k) = Some (uint x, received_row r (base + int k))"
    if "(k, r) \<in> set (enumerate 0 ?E)" for k r
    using received_again [OF that, of bag2 T2] T2(2) T2(3) [OF fresh] executor_placed [OF assms(6) that]
    by (auto simp: up x(1) assms(7))
  moreover have "(\<exists>pos. fst T2 (row_id r) = Some (uint v, r\<lparr>row_pos := pos\<rparr>))
      \<and> fst T2 (base + int k) = Some (uint v, received_row r (base + int k))"
    if "(k, r) \<in> set (enumerate (length ?E) ?P)" for k r
    using received_again [OF that, of bag1 T2] T2(1) T2(3) [OF fresh] partner_placed [OF assms(6) that]
    by (auto simp: up v assms(7))
  ultimately show ?thesis using v x(1) by (auto simp: list_all_iff)
qed

theorem trade_duplicates_items_witness:
  "\<exists>up. (7 :: u32) = executor sample_plan \<and> (8 :: u32) = partner sample_plan
    \<and> list_all (\<lambda>(k, r). (\<exists>pos. fst (fold op_effect (map (\<lambda>r. Place r (uint (8 :: u32))) up)
             (fold op_effect (commit_ops sample_plan 1000 500 100) (db_tables sample_market))) (row_id r)
            = Some (uint (8 :: u32), r\<lparr>row_pos := pos\<rparr>))
        \<and> fst (fold op_effect (map (\<lambda>r. Place r (uint (8 :: u32))) up)
            (fold op_effect (commit_ops sample_plan 1000 500 100) (db_tables sample_market))) (100 + int k)
          = Some (uint (8 :: u32), received_row r (100 + int k)))
      (enumerate 0 (offers_executor sample_plan))
    \<and> length (offers_executor sample_plan) = 1"
proof -
  obtain w2 up where fin: "handle_social (TradeIntent_CommitOk 7) completed_world =
      Some ([Done 7 300 [] [sample_row 1 5], Done 8 0 [sample_row 1 5] []], w2)"
    "apply_done \<lparr>s_owner = 8, s_gold = 500, s_inventory = []\<rparr> 0 [sample_row 1 5] []
      = Inr (\<lparr>s_owner = 8, s_gold = 500, s_inventory = up\<rparr>, up)"
    using completed_confirmed buyer_done by blast
  from trade_duplicates_items [OF agreed_inv agreed_accept fin(1) seller_done fin(2) sample_ids refl _ refl,
      of "map (\<lambda>r. Place r (uint (8 :: u32))) up" 1000 500 "db_tables sample_market"]
  show ?thesis by (intro exI [of _ up]) (simp add: sample_plan_def)
qed

end
