(* ===== verification/QuestAst.thy ===== *)
theory QuestAst
  imports Prelude
begin

text \<open>
  The syntax tree of the quest language (\<^verbatim>\<open>quest_dsl/src/ast.rs\<close>), as far as the engine
  evaluates it: expressions, actions, statements, events, states and quests. Strings are lists
  of the bytes the sources keep in UTF-8; an \<^verbatim>\<open>i64\<close> literal is an \<open>int\<close>, and the predicates at
  the end of the theory say that the literals of a tree are representable.
\<close>

section \<open>Triggers\<close>

datatype TriggerTarget = TargetNum u32 | TargetParam string

datatype TriggerKind =
    KLogin | KLevelUp | KLetter | KButton | KInfo | KEnter | KLogout | KTimer
  | KChat TriggerTarget
  | KKill TriggerTarget
  | KUse TriggerTarget
  | KTargetClick
  | KRust string

record Trigger =
  trigger_kind :: TriggerKind

section \<open>Expressions and values\<close>

datatype CmpOp = CmpEq | CmpNe | CmpLt | CmpGt | CmpLe | CmpGe

datatype FuncName =
    PcLevel | CountItem | GetQf | Number | GetTime | GetMapIndex | GetGmLevel | PetIsSummon
  | IsTestServer

datatype Expr =
    EBetween Expr Expr Expr
  | ECompare Expr CmpOp Expr
  | EAdd Expr Expr
  | ESub Expr Expr
  | EMul Expr Expr
  | EDiv Expr Expr
  | EAnd Expr Expr
  | EOr Expr Expr
  | ENot Expr
  | EValue Val
  | ECapture string
  | EFunc FuncName "Expr list"
and Val =
    VNum int
  | VStr string
  | VKey string
  | VParam string
  | VExpr Expr

section \<open>Statements\<close>

datatype ActionName =
    SayTitle | Say | SayReward | SayItemVnum | SendLetter | ClearLetter | Wait | SetState
  | SetQuestState | SetQf | GiveItem2 | RemoveItem | TargetVid | TargetDelete | Warp | Notice
  | NoticeMultiline | AffectAdd | AffectRemove | Select | InputNumber | Return

record Action =
  action_name :: ActionName
  action_args :: "Val list"

text \<open>The branch of the condition \<open>None\<close> is an \<^verbatim>\<open>else\<close>.\<close>

datatype Stmt =
    SAction Action "string option"
  | SBranch "Expr option" "Stmt list"
  | SUse string "Val list"

section \<open>Quests\<close>

record QEvent =
  ev_triggers :: "Trigger list"
  ev_condition :: "Expr option"
  ev_body :: "Stmt list"

record QState =
  state_name :: string
  state_events :: "QEvent list"

record QuestDef =
  quest_name :: string
  quest_states :: "QState list"

section \<open>Representable literals\<close>

fun expr_ok :: "Expr \<Rightarrow> bool" and val_ok :: "Val \<Rightarrow> bool" where
  "expr_ok (EBetween a b c) \<longleftrightarrow> expr_ok a \<and> expr_ok b \<and> expr_ok c"
| "expr_ok (ECompare a oper b) \<longleftrightarrow> expr_ok a \<and> expr_ok b"
| "expr_ok (EAdd a b) \<longleftrightarrow> expr_ok a \<and> expr_ok b"
| "expr_ok (ESub a b) \<longleftrightarrow> expr_ok a \<and> expr_ok b"
| "expr_ok (EMul a b) \<longleftrightarrow> expr_ok a \<and> expr_ok b"
| "expr_ok (EDiv a b) \<longleftrightarrow> expr_ok a \<and> expr_ok b"
| "expr_ok (EAnd a b) \<longleftrightarrow> expr_ok a \<and> expr_ok b"
| "expr_ok (EOr a b) \<longleftrightarrow> expr_ok a \<and> expr_ok b"
| "expr_ok (ENot a) \<longleftrightarrow> expr_ok a"
| "expr_ok (EValue v) \<longleftrightarrow> val_ok v"
| "expr_ok (ECapture c) \<longleftrightarrow> True"
| "expr_ok (EFunc f es) \<longleftrightarrow> (\<forall>e \<in> set es. expr_ok e)"
| "val_ok (VNum n) \<longleftrightarrow> in_i64 n"
| "val_ok (VStr s) \<longleftrightarrow> True"
| "val_ok (VKey s) \<longleftrightarrow> True"
| "val_ok (VParam s) \<longleftrightarrow> True"
| "val_ok (VExpr e) \<longleftrightarrow> expr_ok e"

fun stmt_ok :: "Stmt \<Rightarrow> bool" where
  "stmt_ok (SAction a cap) \<longleftrightarrow> list_all val_ok (action_args a)"
| "stmt_ok (SBranch c body) \<longleftrightarrow> (case c of None \<Rightarrow> True | Some e \<Rightarrow> expr_ok e) \<and> (\<forall>s \<in> set body. stmt_ok s)"
| "stmt_ok (SUse n args) \<longleftrightarrow> list_all val_ok args"

text \<open>The parser nests branches one level deep: a branch inside a branch has an empty body.\<close>

fun bodiless :: "Stmt \<Rightarrow> bool" where
  "bodiless (SBranch c body) \<longleftrightarrow> body = []"
| "bodiless _ \<longleftrightarrow> True"

fun flat_stmt :: "Stmt \<Rightarrow> bool" where
  "flat_stmt (SBranch c body) \<longleftrightarrow> list_all bodiless body"
| "flat_stmt _ \<longleftrightarrow> True"

fun event_ok :: "QEvent \<Rightarrow> bool" where
  "event_ok ev \<longleftrightarrow> (case ev_condition ev of None \<Rightarrow> True | Some e \<Rightarrow> expr_ok e)
    \<and> list_all stmt_ok (ev_body ev) \<and> list_all flat_stmt (ev_body ev)"

definition quest_ok :: "QuestDef \<Rightarrow> bool" where
  "quest_ok q \<longleftrightarrow> list_all (\<lambda>sd. list_all event_ok (state_events sd)) (quest_states q)"

end
