(* ===== verification/Dice.thy ===== *)
theory Dice
  imports Prelude
begin

text \<open>
  The random numbers of the world (\<^verbatim>\<open>Rand\<close> of \<^verbatim>\<open>game_core/src/ecs/resources.rs\<close>), an xorshift
  generator, and the contract its clients rely on: the locale \<open>dice\<close>, a source of numbers that
  stay between the two bounds.
\<close>

unbundle bit_operations_syntax

section \<open>The generator\<close>

record Rand =
  rand_state :: u64

definition Rand_new :: "u64 \<Rightarrow> Rand" where
  "Rand_new seed = \<lparr>rand_state = seed OR 1\<rparr>"

definition xorshift :: "u64 \<Rightarrow> u64" where
  "xorshift x0 =
    (let x1 = x0 XOR push_bit 13 x0;
         x2 = x1 XOR drop_bit 7 x1
     in x2 XOR push_bit 17 x2)"

text \<open>
  The bounds are \<^verbatim>\<open>i32\<close>; the sum \<^verbatim>\<open>min + (x % span) as i32\<close> wraps, which the truncation to the
  low 32 bits and the addition of words reproduce.
\<close>

definition roll :: "i32 \<Rightarrow> i32 \<Rightarrow> Rand \<Rightarrow> i32 \<times> Rand" where
  "roll mn mx g =
    (let x = xorshift (rand_state g);
         g' = g\<lparr>rand_state := x\<rparr>;
         span = sint mx - sint mn + 1
     in if span \<le> 1 then (mn, g')
        else (mn + word_of_int (uint x mod span), g'))"

section \<open>The contract\<close>

locale dice =
  fixes throw :: "'g \<Rightarrow> int \<Rightarrow> int \<Rightarrow> int \<times> 'g"
  assumes throw_bounds: "- (2 ^ 31) \<le> lo \<Longrightarrow> lo \<le> hi \<Longrightarrow> hi < 2 ^ 31 \<Longrightarrow>
    lo \<le> fst (throw g lo hi) \<and> fst (throw g lo hi) \<le> hi"
begin

text \<open>A throw against a percentage: the two sides of the comparisons the game makes.\<close>

lemma percent_always: "100 < p \<Longrightarrow> fst (throw g 1 100) < p"
  using throw_bounds [of 1 100 g] by simp

lemma percent_never: "\<not> fst (throw g 1 100) < 1"
  using throw_bounds [of 1 100 g] by simp

end

text \<open>The generator as a source of integers.\<close>

definition rand_throw :: "Rand \<Rightarrow> int \<Rightarrow> int \<Rightarrow> int \<times> Rand" where
  "rand_throw g lo hi = map_prod sint (\<lambda>h. h) (roll (word_of_int lo) (word_of_int hi) g)"

lemma sint_small: "- (2 ^ 31) \<le> i \<Longrightarrow> i < 2 ^ 31 \<Longrightarrow> sint (word_of_int i :: i32) = i"
  by (simp add: signed_of_int signed_take_bit_int_eq_self)

lemma roll_value:
  assumes "sint mn \<le> sint mx"
  shows "\<exists>k. 0 \<le> k \<and> k \<le> sint mx - sint mn \<and> sint (fst (roll mn mx g)) = sint mn + k"
proof (cases "sint mx - sint mn + 1 \<le> 1")
  case True
  then show ?thesis using assms by (intro exI [of _ 0]) (simp add: roll_def Let_def)
next
  case False
  define k where "k = uint (xorshift (rand_state g)) mod (sint mx - sint mn + 1)"
  have k: "0 \<le> k" "k \<le> sint mx - sint mn"
    using False pos_mod_bound [of "sint mx - sint mn + 1"] pos_mod_sign [of "sint mx - sint mn + 1"]
    by (simp_all add: k_def)
  have "mn = word_of_int (sint mn)" by simp
  then have "fst (roll mn mx g) = word_of_int (sint mn + k)"
    using False by (simp add: roll_def Let_def k_def)
  moreover have "- (2 ^ 31) \<le> sint mn + k" "sint mn + k < 2 ^ 31"
    using k sint_ge [of mn] sint_lt [of mx] by simp_all
  ultimately have "sint (fst (roll mn mx g)) = sint mn + k" by (simp only: sint_small)
  with k show ?thesis by blast
qed

interpretation rand: dice rand_throw
proof
  fix lo hi :: int and g
  assume b: "- (2 ^ 31) \<le> lo" "lo \<le> hi" "hi < 2 ^ 31"
  then have lo: "sint (word_of_int lo :: i32) = lo" and hi: "sint (word_of_int hi :: i32) = hi"
    by (simp_all add: sint_small)
  obtain k where "0 \<le> k" "k \<le> hi - lo" "sint (fst (roll (word_of_int lo) (word_of_int hi) g)) = lo + k"
    using roll_value [of "word_of_int lo" "word_of_int hi" g] b(2) by (auto simp: lo hi)
  then show "lo \<le> fst (rand_throw g lo hi) \<and> fst (rand_throw g lo hi) \<le> hi"
    by (simp add: rand_throw_def)
qed

section \<open>The generator never degenerates\<close>

lemma shift_left_fixed:
  fixes x :: "'a :: len word"
  assumes "x = push_bit n x" and "0 < n"
  shows "x = 0"
proof (rule bit_word_eqI)
  fix i
  show "bit x i = bit 0 i"
  proof (induction i rule: less_induct)
    case (less i)
    have "bit x i \<longleftrightarrow> bit (push_bit n x) i" using assms(1) by simp
    also have "\<dots> \<longleftrightarrow> n \<le> i \<and> i < LENGTH('a) \<and> bit x (i - n)" by (auto simp: bit_push_bit_iff)
    finally show ?case using less.IH [of "i - n"] assms(2) by auto
  qed
qed

lemma shift_right_fixed:
  fixes x :: "'a :: len word"
  assumes "x = drop_bit n x" and "0 < n"
  shows "x = 0"
proof -
  have "bit x i \<longleftrightarrow> bit x (i + k * n)" for i k
  proof (induction k)
    case (Suc k)
    have "bit x (i + k * n) \<longleftrightarrow> bit (drop_bit n x) (i + k * n)" using assms(1) by simp
    then show ?case using Suc by (simp add: bit_drop_bit_eq ac_simps)
  qed simp
  then have "\<not> bit x i" for i
  proof -
    have "LENGTH('a) \<le> i + LENGTH('a) * n" using assms(2) by (cases n) auto
    with \<open>\<And>i k. bit x i \<longleftrightarrow> bit x (i + k * n)\<close> [of i "LENGTH('a)"] show ?thesis
      by (auto dest: bit_imp_le_length)
  qed
  then show ?thesis by (intro bit_word_eqI) simp
qed

lemma xor_zero: "a XOR b = 0 \<Longrightarrow> a = b" for a b :: "'a :: len word"
  by (metis xor.right_neutral xor.assoc xor_self_eq)

lemma xorshift_nonzero: "x \<noteq> 0 \<Longrightarrow> xorshift x \<noteq> 0"
  unfolding xorshift_def Let_def
  by (metis shift_left_fixed shift_right_fixed xor_zero zero_less_numeral)

lemma roll_nonzero: "rand_state g \<noteq> 0 \<Longrightarrow> rand_state (snd (roll mn mx g)) \<noteq> 0"
  by (simp add: roll_def Let_def xorshift_nonzero)

lemma Rand_new_nonzero: "rand_state (Rand_new seed) \<noteq> 0"
proof -
  have "bit (seed OR 1) 0" by (simp add: bit_or_iff bit_1_iff)
  then show ?thesis by (auto simp: Rand_new_def)
qed

fun rolls :: "(i32 \<times> i32) list \<Rightarrow> Rand \<Rightarrow> i32 list \<times> Rand" where
  "rolls [] g = ([], g)"
| "rolls ((mn, mx) # bs) g =
     (case roll mn mx g of (r, g') \<Rightarrow> map_prod ((#) r) (\<lambda>h. h) (rolls bs g'))"

lemma rolls_nonzero: "rand_state g \<noteq> 0 \<Longrightarrow> rand_state (snd (rolls bs g)) \<noteq> 0"
proof (induction bs arbitrary: g)
  case (Cons b bs)
  obtain mn mx where b: "b = (mn, mx)" by fastforce
  obtain r g' where r: "roll mn mx g = (r, g')" by fastforce
  with roll_nonzero [OF Cons.prems, of mn mx] Cons.IH [of g'] show ?case by (simp add: b r)
qed simp

lemma rolls_bounds:
  "list_all (\<lambda>(mn, mx). sint mn \<le> sint mx) bs \<Longrightarrow>
   list_all2 (\<lambda>(mn, mx) r. sint mn \<le> sint r \<and> sint r \<le> sint mx) bs (fst (rolls bs g))"
proof (induction bs arbitrary: g)
  case (Cons b bs)
  obtain mn mx where b: "b = (mn, mx)" by fastforce
  obtain r g' where r: "roll mn mx g = (r, g')" by fastforce
  obtain k where "0 \<le> k" "k \<le> sint mx - sint mn" "sint r = sint mn + k"
    using roll_value [of mn mx g] Cons.prems by (auto simp: b r)
  with Cons.IH [of g'] Cons.prems show ?case by (simp add: b r)
qed simp

text \<open>The numbers of the world: from any seed, every sequence of rolls stays within the bounds of
  each roll, although the sum is computed in wrapping 32-bit arithmetic, and the state never
  becomes the zero at which the generator would stand still.\<close>

theorem rolls_stay_in_bounds:
  assumes "list_all (\<lambda>(mn, mx). sint mn \<le> sint mx) bs"
  shows "list_all2 (\<lambda>(mn, mx) r. sint mn \<le> sint r \<and> sint r \<le> sint mx) bs (fst (rolls bs (Rand_new seed)))
    \<and> rand_state (snd (rolls bs (Rand_new seed))) \<noteq> 0"
  using rolls_bounds [OF assms] rolls_nonzero [OF Rand_new_nonzero] by blast

theorem rolls_stay_in_bounds_witness:
  "list_all2 (\<lambda>(mn :: i32, mx :: i32) r. sint mn \<le> sint r \<and> sint r \<le> sint mx)
      [(1, 100), (- 2147483648, 2147483647)]
      (fst (rolls [(1, 100), (- 2147483648, 2147483647)] (Rand_new 42)))
    \<and> rand_state (snd (rolls [(1, 100), (- 2147483648, 2147483647)] (Rand_new 42))) \<noteq> 0"
  by (rule rolls_stay_in_bounds [of "[(1, 100), (- 2147483648, 2147483647)]" 42]) simp

end
