(* ===== verification/QuestEngine.thy ===== *)
theory QuestEngine
  imports QuestAst Dice Mutation "HOL-Library.AList"
begin

text \<open>
  The quest engine (\<^verbatim>\<open>game_core/src/quest/engine.rs\<close>): the runtime of one player, the
  evaluation of conditions, the execution of the body of an event up to a suspension, the
  trigger and the answer that resumes. The number generator of the world is the argument
  \<open>throw\<close>, a state passing function; a computation that may fail with an error value or panic
  is a function from its state to a \<open>result\<close> and the state it leaves.
\<close>

section \<open>Results\<close>

datatype QuestError =
    NotNumeric Val
  | NoCapture string
  | DivisionByZero
  | NoFuncArg nat
  | BadVnum int
  | BadNumericArg Val
  | BadKey Val
  | BadName Val
  | BadFlagName Expr
  | MissingArg ActionName nat
  | OutOfRange ActionName nat
  | UnknownState string
  | UnknownQuest string
  | UnknownQuestState string string
  | BranchCondition QuestError

datatype 'a qresult = QOk 'a | QErr QuestError | QPanic

definition qbind :: "('s \<Rightarrow> 'a qresult \<times> 's) \<Rightarrow> ('a \<Rightarrow> 's \<Rightarrow> 'b qresult \<times> 's) \<Rightarrow> 's \<Rightarrow> 'b qresult \<times> 's" where
  "qbind m f s =
    (case m s of
       (QOk a, s') \<Rightarrow> f a s'
     | (QErr e, s') \<Rightarrow> (QErr e, s')
     | (QPanic, s') \<Rightarrow> (QPanic, s'))"

definition qret :: "'a \<Rightarrow> 's \<Rightarrow> 'a qresult \<times> 's" where
  "qret a s = (QOk a, s)"

definition qlift :: "'a qresult \<Rightarrow> 's \<Rightarrow> 'a qresult \<times> 's" where
  "qlift r s = (r, s)"

definition ok_or :: "QuestError \<Rightarrow> 'a option \<Rightarrow> 'a qresult" where
  "ok_or e p = (case p of None \<Rightarrow> QErr e | Some a \<Rightarrow> QOk a)"

text \<open>\<^verbatim>\<open>args.get(i)\<close> and \<^verbatim>\<open>u32::try_from\<close> of an \<^verbatim>\<open>i64\<close>.\<close>

definition get_nth :: "'a list \<Rightarrow> nat \<Rightarrow> 'a option" where
  "get_nth xs i = (if i < length xs then Some (xs ! i) else None)"

definition u32_try :: "int \<Rightarrow> u32 option" where
  "u32_try v = (if 0 \<le> v \<and> v < 2 ^ 32 then Some (word_of_int v) else None)"

section \<open>Triggers\<close>

datatype QuestTrigger =
    OnLogin | OnLevelUp | OnLetter | OnButton | OnInfo | OnEnter | OnLogout | OnTimer
  | OnTargetClick
  | OnKill u32
  | OnChat u32
  | OnUse u32

fun target_num :: "TriggerTarget \<Rightarrow> u32 option" where
  "target_num (TargetNum n) = Some n"
| "target_num (TargetParam p) = None"

definition trigger_matches :: "QuestTrigger \<Rightarrow> TriggerKind \<Rightarrow> bool" where
  "trigger_matches t k =
    (case t of
       OnLogin \<Rightarrow> k = KLogin
     | OnLevelUp \<Rightarrow> k = KLevelUp
     | OnLetter \<Rightarrow> k = KLetter
     | OnButton \<Rightarrow> k = KButton
     | OnInfo \<Rightarrow> k = KInfo
     | OnEnter \<Rightarrow> k = KEnter
     | OnLogout \<Rightarrow> k = KLogout
     | OnTimer \<Rightarrow> k = KTimer
     | OnTargetClick \<Rightarrow> k = KTargetClick
     | OnKill v \<Rightarrow> (case k of KKill t \<Rightarrow> target_num t = Some v | _ \<Rightarrow> False)
     | OnChat v \<Rightarrow> (case k of KChat t \<Rightarrow> target_num t = Some v | _ \<Rightarrow> False)
     | OnUse v \<Rightarrow> (case k of KUse t \<Rightarrow> target_num t = Some v | _ \<Rightarrow> False))"

section \<open>The runtime of a player\<close>

record QuestFlag =
  qf_quest :: string
  qf_flag :: string
  qf_value :: int

record Suspension =
  susp_quest :: string
  susp_state :: nat
  susp_event :: nat
  susp_stmt :: nat
  susp_branch :: "nat option"
  susp_capture :: "string option"

text \<open>
  The timers are a hash map that is iterated, so they are an association list with distinct
  keys in the order of the iteration.
\<close>

record QuestRuntime =
  rt_states :: "string \<rightharpoonup> nat"
  rt_flags :: "string \<times> string \<rightharpoonup> int"
  rt_suspended :: "Suspension option"
  rt_timers :: "((string \<times> string) \<times> int) list"

definition runtime_default :: QuestRuntime where
  "runtime_default =
    \<lparr>rt_states = Map.empty, rt_flags = Map.empty, rt_suspended = None, rt_timers = []\<rparr>"

definition add_timer :: "string \<Rightarrow> string \<Rightarrow> int \<Rightarrow> int \<Rightarrow> QuestRuntime \<Rightarrow> QuestRuntime" where
  "add_timer qn n secs now_s rt =
    rt\<lparr>rt_timers := AList.update (qn, n) (wrap_i64 (now_s + max secs 0)) (rt_timers rt)\<rparr>"

definition cancel_timer :: "string \<Rightarrow> string \<Rightarrow> QuestRuntime \<Rightarrow> QuestRuntime" where
  "cancel_timer qn n rt = rt\<lparr>rt_timers := AList.delete (qn, n) (rt_timers rt)\<rparr>"

definition take_due :: "int \<Rightarrow> QuestRuntime \<Rightarrow> (string \<times> string) list \<times> QuestRuntime" where
  "take_due now_s rt =
    (let due = List.map fst (List.filter (\<lambda>(k, e). e \<le> now_s) (rt_timers rt))
     in (due, rt\<lparr>rt_timers := fold AList.delete due (rt_timers rt)\<rparr>))"

text \<open>\<^verbatim>\<open>format!("{}.__status", quest)\<close>.\<close>

definition status_flag :: "string \<Rightarrow> string" where
  "status_flag qn = qn @ ''.__status''"

definition runtime_load :: "QuestFlag list \<Rightarrow> QuestRuntime" where
  "runtime_load rows =
    fold (\<lambda>r rt.
        if qf_flag r = status_flag (qf_quest r)
        then rt\<lparr>rt_states := (rt_states rt)(qf_quest r \<mapsto> nat (qf_value r))\<rparr>
        else rt\<lparr>rt_flags := (rt_flags rt)((qf_quest r, qf_flag r) \<mapsto> qf_value r)\<rparr>)
      rows runtime_default"

section \<open>Effects and outcome\<close>

datatype QuestEffect =
    GiveItem u32 u32
  | TakeItem u32 u32
  | WarpTo int int
  | NoticeText string
  | LetterText string
  | TargetArrow string u32 string
  | TargetGone string
  | AffectGained string i32 i32
  | AffectLost string

record QuestOutcome =
  out_script :: "string option"
  out_effects :: "QuestEffect list"
  out_dirty :: "QuestFlag list"
  out_suspended :: bool

definition outcome_default :: QuestOutcome where
  "outcome_default = \<lparr>out_script = None, out_effects = [], out_dirty = [], out_suspended = False\<rparr>"

record EvalCtx =
  ctx_level :: i32
  ctx_map_index :: u32
  ctx_now_s :: int
  ctx_items :: "u32 \<rightharpoonup> int"
  ctx_captures :: "string \<rightharpoonup> int"

record Engine =
  eng_quests :: "QuestDef list"
  eng_texts :: "string \<rightharpoonup> string"

type_synonym flag_map = "string \<times> string \<rightharpoonup> int"
type_synonym 'g throw = "'g \<Rightarrow> int \<Rightarrow> int \<Rightarrow> int \<times> 'g"

definition find_quest :: "Engine \<Rightarrow> string \<Rightarrow> QuestDef option" where
  "find_quest eng qn = List.find (\<lambda>q. quest_name q = qn) (eng_quests eng)"

text \<open>The index of a state counts from 1.\<close>

definition state_index :: "QuestDef \<Rightarrow> string \<Rightarrow> nat option" where
  "state_index q sn =
    map_option Suc (List.find (\<lambda>i. state_name (quest_states q ! i) = sn) [0..<length (quest_states q)])"

section \<open>Evaluation of conditions\<close>

fun arg_name :: "Expr \<Rightarrow> string qresult" where
  "arg_name (EValue (VStr s)) = QOk s"
| "arg_name (EValue (VKey s)) = QOk s"
| "arg_name (ECapture c) = QOk c"
| "arg_name e = QErr (BadFlagName e)"

definition bool_int :: "bool \<Rightarrow> int" where
  "bool_int b = (if b then 1 else 0)"

fun compare :: "CmpOp \<Rightarrow> int \<Rightarrow> int \<Rightarrow> bool" where
  "compare CmpEq x y \<longleftrightarrow> x = y"
| "compare CmpNe x y \<longleftrightarrow> x \<noteq> y"
| "compare CmpLt x y \<longleftrightarrow> x < y"
| "compare CmpGt x y \<longleftrightarrow> x > y"
| "compare CmpLe x y \<longleftrightarrow> x \<le> y"
| "compare CmpGe x y \<longleftrightarrow> x \<ge> y"

text \<open>
  \<^verbatim>\<open>i64\<close> division: a zero divisor is an error of the engine, the one quotient that does not
  fit is a panic of the language.
\<close>

definition div_i64 :: "int \<Rightarrow> int \<Rightarrow> int qresult" where
  "div_i64 x y =
    (if y = 0 then QErr DivisionByZero
     else if x = i64_min \<and> y = - 1 then QPanic
     else QOk (trunc_div x y))"

definition count_of :: "EvalCtx \<Rightarrow> int \<Rightarrow> int qresult" where
  "count_of ctx v =
    (case u32_try v of
       None \<Rightarrow> QErr (BadVnum v)
     | Some vnum \<Rightarrow> QOk (case ctx_items ctx vnum of None \<Rightarrow> 0 | Some n \<Rightarrow> n))"

definition flag_value :: "flag_map \<Rightarrow> string \<Rightarrow> string \<Rightarrow> int" where
  "flag_value fl qn n = (case fl (qn, n) of None \<Rightarrow> 0 | Some v \<Rightarrow> v)"

definition qf_get :: "flag_map \<Rightarrow> string \<Rightarrow> Expr \<Rightarrow> int qresult" where
  "qf_get fl qn e =
    (case arg_name e of QOk n \<Rightarrow> QOk (flag_value fl qn n) | QErr er \<Rightarrow> QErr er | QPanic \<Rightarrow> QPanic)"

definition number :: "'g throw \<Rightarrow> int \<Rightarrow> int \<Rightarrow> 'g \<Rightarrow> int qresult \<times> 'g" where
  "number throw lo hi g = (case throw g lo hi of (r, g') \<Rightarrow> (QOk r, g'))"

fun eval_expr :: "'g throw \<Rightarrow> EvalCtx \<Rightarrow> flag_map \<Rightarrow> string \<Rightarrow> Expr \<Rightarrow> 'g \<Rightarrow> int qresult \<times> 'g" where
  "eval_expr throw ctx fl qn (EValue (VNum n)) = qret n"
| "eval_expr throw ctx fl qn (EValue (VExpr inner)) = eval_expr throw ctx fl qn inner"
| "eval_expr throw ctx fl qn (EValue v) = qlift (QErr (NotNumeric v))"
| "eval_expr throw ctx fl qn (ECapture c) = qlift (ok_or (NoCapture c) (ctx_captures ctx c))"
| "eval_expr throw ctx fl qn (EBetween a b c) =
    qbind (eval_expr throw ctx fl qn a) (\<lambda>v.
    qbind (eval_expr throw ctx fl qn b) (\<lambda>lo.
    qbind (eval_expr throw ctx fl qn c) (\<lambda>hi. qret (bool_int (lo \<le> v \<and> v \<le> hi)))))"
| "eval_expr throw ctx fl qn (ECompare a oper b) =
    qbind (eval_expr throw ctx fl qn a) (\<lambda>x.
    qbind (eval_expr throw ctx fl qn b) (\<lambda>y. qret (bool_int (compare oper x y))))"
| "eval_expr throw ctx fl qn (EAdd a b) =
    qbind (eval_expr throw ctx fl qn a) (\<lambda>x.
    qbind (eval_expr throw ctx fl qn b) (\<lambda>y. qret (wrap_i64 (x + y))))"
| "eval_expr throw ctx fl qn (ESub a b) =
    qbind (eval_expr throw ctx fl qn a) (\<lambda>x.
    qbind (eval_expr throw ctx fl qn b) (\<lambda>y. qret (wrap_i64 (x - y))))"
| "eval_expr throw ctx fl qn (EMul a b) =
    qbind (eval_expr throw ctx fl qn a) (\<lambda>x.
    qbind (eval_expr throw ctx fl qn b) (\<lambda>y. qret (wrap_i64 (x * y))))"
| "eval_expr throw ctx fl qn (EDiv a b) =
    qbind (eval_expr throw ctx fl qn a) (\<lambda>x.
    qbind (eval_expr throw ctx fl qn b) (\<lambda>y. qlift (div_i64 x y)))"
| "eval_expr throw ctx fl qn (EAnd a b) =
    qbind (eval_expr throw ctx fl qn a) (\<lambda>x.
      if x = 0 then qret 0
      else qbind (eval_expr throw ctx fl qn b) (\<lambda>y. qret (bool_int (y \<noteq> 0))))"
| "eval_expr throw ctx fl qn (EOr a b) =
    qbind (eval_expr throw ctx fl qn a) (\<lambda>x.
      if x \<noteq> 0 then qret 1
      else qbind (eval_expr throw ctx fl qn b) (\<lambda>y. qret (bool_int (y \<noteq> 0))))"
| "eval_expr throw ctx fl qn (ENot a) =
    qbind (eval_expr throw ctx fl qn a) (\<lambda>x. qret (bool_int (x = 0)))"
| "eval_expr throw ctx fl qn (EFunc f args) =
    (case f of
       PcLevel \<Rightarrow> qret (sint (ctx_level ctx))
     | CountItem \<Rightarrow>
         (case args of
            [] \<Rightarrow> qlift (QErr (NoFuncArg 0))
          | a # _ \<Rightarrow> qbind (eval_expr throw ctx fl qn a) (\<lambda>v. qlift (count_of ctx v)))
     | GetQf \<Rightarrow>
         (case args of
            [] \<Rightarrow> qlift (QErr (NoFuncArg 0))
          | a # _ \<Rightarrow> qlift (qf_get fl qn a))
     | Number \<Rightarrow>
         (case args of
            [] \<Rightarrow> qlift (QErr (NoFuncArg 0))
          | a # rest \<Rightarrow> qbind (eval_expr throw ctx fl qn a) (\<lambda>lo.
              case rest of
                [] \<Rightarrow> qlift (QErr (NoFuncArg 1))
              | b # _ \<Rightarrow> qbind (eval_expr throw ctx fl qn b) (\<lambda>hi. number throw lo hi)))
     | GetTime \<Rightarrow> qret (ctx_now_s ctx)
     | GetMapIndex \<Rightarrow> qret (uint (ctx_map_index ctx))
     | GetGmLevel \<Rightarrow> qret 0
     | PetIsSummon \<Rightarrow> qret 0
     | IsTestServer \<Rightarrow> qret 0)"

fun eval_arg :: "'g throw \<Rightarrow> EvalCtx \<Rightarrow> flag_map \<Rightarrow> string \<Rightarrow> Val \<Rightarrow> 'g \<Rightarrow> int qresult \<times> 'g" where
  "eval_arg throw ctx fl qn (VNum n) = qret n"
| "eval_arg throw ctx fl qn (VExpr e) = eval_expr throw ctx fl qn e"
| "eval_arg throw ctx fl qn v = qlift (QErr (BadNumericArg v))"

fun key_of :: "Val \<Rightarrow> string qresult" where
  "key_of (VStr s) = QOk s"
| "key_of (VKey s) = QOk s"
| "key_of (VNum n) = QOk (show_int n)"
| "key_of v = QErr (BadKey v)"

definition key_text :: "Engine \<Rightarrow> Val \<Rightarrow> string qresult" where
  "key_text eng v =
    (case key_of v of
       QOk key \<Rightarrow> QOk (case eng_texts eng key of Some t \<Rightarrow> t | None \<Rightarrow> key)
     | r \<Rightarrow> r)"

fun name_text :: "Val \<Rightarrow> string qresult" where
  "name_text (VStr s) = QOk s"
| "name_text (VKey s) = QOk s"
| "name_text v = QErr (BadName v)"

section \<open>Execution of a body\<close>

text \<open>What \<^verbatim>\<open>exec_body\<close> changes through its mutable references, and the generator.\<close>

record 'g exec =
  x_rt :: QuestRuntime
  x_flags :: flag_map
  x_rng :: 'g
  x_script :: string
  x_out :: QuestOutcome

datatype flow = Continue | Suspend Suspension | Leave

definition push_script :: "string \<Rightarrow> 'g exec \<Rightarrow> 'g exec" where
  "push_script t x = x\<lparr>x_script := x_script x @ t\<rparr>"

definition push_effect :: "QuestEffect \<Rightarrow> 'g exec \<Rightarrow> 'g exec" where
  "push_effect e x = x\<lparr>x_out := (x_out x)\<lparr>out_effects := out_effects (x_out x) @ [e]\<rparr>\<rparr>"

definition push_dirty :: "string \<Rightarrow> string \<Rightarrow> int \<Rightarrow> 'g exec \<Rightarrow> 'g exec" where
  "push_dirty qn fl v x =
    x\<lparr>x_out := (x_out x)\<lparr>out_dirty := out_dirty (x_out x) @ [\<lparr>qf_quest = qn, qf_flag = fl, qf_value = v\<rparr>]\<rparr>\<rparr>"

definition put_state :: "string \<Rightarrow> nat \<Rightarrow> 'g exec \<Rightarrow> 'g exec" where
  "put_state qn idx x =
    push_dirty qn (status_flag qn) (int idx)
      (x\<lparr>x_rt := (x_rt x)\<lparr>rt_states := (rt_states (x_rt x))(qn \<mapsto> idx)\<rparr>\<rparr>)"

definition put_flag :: "string \<Rightarrow> string \<Rightarrow> int \<Rightarrow> 'g exec \<Rightarrow> 'g exec" where
  "put_flag qn n v x =
    push_dirty qn n v
      (x\<lparr>x_rt := (x_rt x)\<lparr>rt_flags := (rt_flags (x_rt x))((qn, n) \<mapsto> v)\<rparr>,
         x_flags := (x_flags x)((qn, n) \<mapsto> v)\<rparr>)"

definition x_eval :: "'g throw \<Rightarrow> EvalCtx \<Rightarrow> string \<Rightarrow> Val \<Rightarrow> 'g exec \<Rightarrow> int qresult \<times> 'g exec" where
  "x_eval throw ctx qn v x =
    (case eval_arg throw ctx (x_flags x) qn v (x_rng x) of (r, g) \<Rightarrow> (r, x\<lparr>x_rng := g\<rparr>))"

text \<open>The value of a condition: \<open>None\<close> holds, an expression holds when it is not zero.\<close>

definition x_cond :: "'g throw \<Rightarrow> EvalCtx \<Rightarrow> string \<Rightarrow> Expr option \<Rightarrow> 'g exec \<Rightarrow> bool qresult \<times> 'g exec" where
  "x_cond throw ctx qn c x =
    (case c of
       None \<Rightarrow> (QOk True, x)
     | Some e \<Rightarrow>
         (case eval_expr throw ctx (x_flags x) qn e (x_rng x) of
            (QOk v, g) \<Rightarrow> (QOk (v \<noteq> 0), x\<lparr>x_rng := g\<rparr>)
          | (QErr er, g) \<Rightarrow> (QErr er, x\<lparr>x_rng := g\<rparr>)
          | (QPanic, g) \<Rightarrow> (QPanic, x\<lparr>x_rng := g\<rparr>)))"

text \<open>The n-th argument of an action, its text and its value as a \<^verbatim>\<open>u32\<close>.\<close>

definition nth_arg :: "ActionName \<Rightarrow> Val list \<Rightarrow> nat \<Rightarrow> Val qresult" where
  "nth_arg an args i = ok_or (MissingArg an i) (get_nth args i)"

definition arg_value :: "'g throw \<Rightarrow> EvalCtx \<Rightarrow> string \<Rightarrow> ActionName \<Rightarrow> Val list \<Rightarrow> nat \<Rightarrow> 'g exec \<Rightarrow> int qresult \<times> 'g exec" where
  "arg_value throw ctx qn an args i =
    qbind (qlift (nth_arg an args i)) (\<lambda>v. x_eval throw ctx qn v)"

definition arg_u32 :: "'g throw \<Rightarrow> EvalCtx \<Rightarrow> string \<Rightarrow> ActionName \<Rightarrow> Val list \<Rightarrow> nat \<Rightarrow> 'g exec \<Rightarrow> u32 qresult \<times> 'g exec" where
  "arg_u32 throw ctx qn an args i =
    qbind (arg_value throw ctx qn an args i) (\<lambda>v. qlift (ok_or (OutOfRange an i) (u32_try v)))"

definition arg_text :: "Engine \<Rightarrow> ActionName \<Rightarrow> Val list \<Rightarrow> nat \<Rightarrow> 's \<Rightarrow> string qresult \<times> 's" where
  "arg_text eng an args i = qbind (qlift (nth_arg an args i)) (\<lambda>v. qlift (key_text eng v))"

definition arg_str :: "ActionName \<Rightarrow> Val list \<Rightarrow> nat \<Rightarrow> 's \<Rightarrow> string qresult \<times> 's" where
  "arg_str an args i = qbind (qlift (nth_arg an args i)) (\<lambda>v. qlift (name_text v))"

definition continue_with :: "('g exec \<Rightarrow> 'g exec) \<Rightarrow> 'g exec \<Rightarrow> flow qresult \<times> 'g exec" where
  "continue_with f x = (QOk Continue, f x)"

text \<open>The menu of a \<^verbatim>\<open>select\<close>: \<^verbatim>\<open>[QUESTION 1;a|2;b]\<close>.\<close>

fun select_menu :: "Engine \<Rightarrow> nat \<Rightarrow> Val list \<Rightarrow> 'g exec \<Rightarrow> unit qresult \<times> 'g exec" where
  "select_menu eng n [] x = (QOk (), x)"
| "select_menu eng n (k # ks) x =
    (let x' = (if n > 0 then push_script ''|'' x else x)
     in case key_text eng k of
          QOk t \<Rightarrow> select_menu eng (Suc n) ks (push_script (show_nat (Suc n) @ '';'' @ t) x')
        | QErr e \<Rightarrow> (QErr e, x')
        | QPanic \<Rightarrow> (QPanic, x'))"

definition x_set_quest_state :: "Engine \<Rightarrow> Val list \<Rightarrow> 'g exec \<Rightarrow> flow qresult \<times> 'g exec" where
  "x_set_quest_state eng args =
    qbind (arg_str SetQuestState args 0) (\<lambda>qn.
    qbind (arg_str SetQuestState args 1) (\<lambda>sn.
      case find_quest eng qn of
        None \<Rightarrow> qlift (QErr (UnknownQuest qn))
      | Some tq \<Rightarrow>
          (case state_index tq sn of
             None \<Rightarrow> qlift (QErr (UnknownQuestState qn sn))
           | Some idx \<Rightarrow> continue_with (put_state qn idx))))"

text \<open>
  One action of the body of the event \<open>ev\<close> of state \<open>st\<close>; \<open>i\<close> is its index and \<open>br\<close> the branch
  it stands in. The actions of the last case are the ones the engine logs and ignores.
\<close>

definition exec_action :: "'g throw \<Rightarrow> Engine \<Rightarrow> EvalCtx \<Rightarrow> QuestDef \<Rightarrow> nat \<Rightarrow> nat \<Rightarrow> nat option \<Rightarrow> nat \<Rightarrow>
    Action \<Rightarrow> string option \<Rightarrow> 'g exec \<Rightarrow> flow qresult \<times> 'g exec" where
  "exec_action throw eng ctx q st ev br i a cap =
    (let qn = quest_name q; args = action_args a; an = action_name a;
         susp = \<lambda>c. Suspend \<lparr>susp_quest = qn, susp_state = st, susp_event = ev, susp_stmt = Suc i,
                             susp_branch = br, susp_capture = c\<rparr>;
         say = qbind (arg_text eng an args 0) (\<lambda>t. continue_with (\<lambda>x. push_script ''[ENTER]'' (push_script t x)))
     in case an of
          SayTitle \<Rightarrow> say
        | Say \<Rightarrow> say
        | SayReward \<Rightarrow> say
        | Wait \<Rightarrow> (\<lambda>x. (QOk (susp None), push_script ''[NEXT]'' x))
        | Select \<Rightarrow> (\<lambda>x.
            qbind (select_menu eng 0 args) (\<lambda>_ x'. (QOk (susp cap), push_script '']'' x'))
              (push_script ''[QUESTION '' x))
        | SetState \<Rightarrow>
            qbind (arg_str an args 0) (\<lambda>target.
              case state_index q target of
                None \<Rightarrow> qlift (QErr (UnknownState target))
              | Some idx \<Rightarrow> continue_with (put_state qn idx))
        | SetQf \<Rightarrow>
            qbind (arg_str an args 0) (\<lambda>flag.
            qbind (arg_value throw ctx qn an args 1) (\<lambda>v. continue_with (put_flag qn flag v)))
        | GiveItem2 \<Rightarrow>
            qbind (arg_u32 throw ctx qn an args 0) (\<lambda>v.
            qbind (if 1 < length args then arg_u32 throw ctx qn an args 1 else qret 1) (\<lambda>c.
              continue_with (push_effect (GiveItem v (max c 1)))))
        | RemoveItem \<Rightarrow>
            qbind (arg_u32 throw ctx qn an args 0) (\<lambda>v.
            qbind (arg_u32 throw ctx qn an args 1) (\<lambda>c.
              continue_with (push_effect (TakeItem v (max c 1)))))
        | Warp \<Rightarrow>
            qbind (arg_value throw ctx qn an args 0) (\<lambda>px.
            qbind (arg_value throw ctx qn an args 1) (\<lambda>py. continue_with (push_effect (WarpTo px py))))
        | Notice \<Rightarrow> qbind (arg_text eng an args 0) (\<lambda>t. continue_with (push_effect (NoticeText t)))
        | SendLetter \<Rightarrow> qbind (arg_text eng an args 0) (\<lambda>t. continue_with (push_effect (LetterText t)))
        | SetQuestState \<Rightarrow> x_set_quest_state eng args
        | TargetVid \<Rightarrow>
            qbind (arg_str an args 0) (\<lambda>n.
            qbind (arg_u32 throw ctx qn an args 1) (\<lambda>vid.
            qbind (arg_text eng an args 2) (\<lambda>title. continue_with (push_effect (TargetArrow n vid title)))))
        | TargetDelete \<Rightarrow> qbind (arg_str an args 0) (\<lambda>n. continue_with (push_effect (TargetGone n)))
        | AffectAdd \<Rightarrow>
            qbind (arg_str an args 0) (\<lambda>ap.
            qbind (arg_value throw ctx qn an args 1) (\<lambda>v.
            qbind (arg_value throw ctx qn an args 2) (\<lambda>d.
              continue_with (push_effect (AffectGained ap (word_of_int v) (word_of_int d))))))
        | AffectRemove \<Rightarrow>
            continue_with (push_effect (AffectLost
              (case get_nth args 0 of
                 None \<Rightarrow> []
               | Some v \<Rightarrow> (case name_text v of QOk n \<Rightarrow> n | _ \<Rightarrow> []))))
        | Return \<Rightarrow> qret Leave
        | _ \<Rightarrow> qret Continue)"

text \<open>
  The loop over \<^verbatim>\<open>body[from..]\<close>; the list is the rest of the body and \<open>i\<close> the index of its head.
\<close>

fun exec_stmts :: "'g throw \<Rightarrow> Engine \<Rightarrow> EvalCtx \<Rightarrow> QuestDef \<Rightarrow> nat \<Rightarrow> nat \<Rightarrow> nat option \<Rightarrow> nat \<Rightarrow>
    Stmt list \<Rightarrow> 'g exec \<Rightarrow> Suspension option qresult \<times> 'g exec" where
  "exec_stmts throw eng ctx q st ev br i [] x = (QOk None, x)"
| "exec_stmts throw eng ctx q st ev br i (SAction a cap # rest) x =
    (case exec_action throw eng ctx q st ev br i a cap x of
       (QOk Continue, x') \<Rightarrow> exec_stmts throw eng ctx q st ev br (Suc i) rest x'
     | (QOk (Suspend s), x') \<Rightarrow> (QOk (Some s), x')
     | (QOk Leave, x') \<Rightarrow> (QOk None, x')
     | (QErr e, x') \<Rightarrow> (QErr e, x')
     | (QPanic, x') \<Rightarrow> (QPanic, x'))"
| "exec_stmts throw eng ctx q st ev br i (SBranch c body # rest) x =
    (case x_cond throw ctx (quest_name q) c x of
       (QOk True, x') \<Rightarrow>
         (case exec_stmts throw eng ctx q st ev (Some i) 0 body x' of
            (QOk None, x'') \<Rightarrow> exec_stmts throw eng ctx q st ev br (Suc i) rest x''
          | r \<Rightarrow> r)
     | (QOk False, x') \<Rightarrow> exec_stmts throw eng ctx q st ev br (Suc i) rest x'
     | (QErr e, x') \<Rightarrow> (QErr (BranchCondition e), x')
     | (QPanic, x') \<Rightarrow> (QPanic, x'))"
| "exec_stmts throw eng ctx q st ev br i (SUse n args # rest) x =
    exec_stmts throw eng ctx q st ev br (Suc i) rest x"

definition exec_body :: "'g throw \<Rightarrow> Engine \<Rightarrow> EvalCtx \<Rightarrow> QuestDef \<Rightarrow> nat \<Rightarrow> nat \<Rightarrow> Stmt list \<Rightarrow> nat \<Rightarrow>
    nat option \<Rightarrow> 'g exec \<Rightarrow> Suspension option qresult \<times> 'g exec" where
  "exec_body throw eng ctx q st ev body start br =
    exec_stmts throw eng ctx q st ev br start (drop start body)"

section \<open>Events and answers\<close>

text \<open>
  The loops of \<^verbatim>\<open>run\<close>: whether they go on to the next quest, were left by a suspension, or the
  task has panicked.
\<close>

datatype loop = Going | Suspended | Crashed

text \<open>The condition of an event: an error counts as false.\<close>

definition event_fires :: "'g throw \<Rightarrow> EvalCtx \<Rightarrow> string \<Rightarrow> Expr option \<Rightarrow> 'g exec \<Rightarrow> bool option \<times> 'g exec" where
  "event_fires throw ctx qn c x =
    (case x_cond throw ctx qn c x of
       (QOk b, x') \<Rightarrow> (Some b, x')
     | (QErr e, x') \<Rightarrow> (Some False, x')
     | (QPanic, x') \<Rightarrow> (None, x'))"

definition put_script :: "'g exec \<Rightarrow> 'g exec" where
  "put_script x = x\<lparr>x_out := (x_out x)\<lparr>out_script := Some (x_script x)\<rparr>\<rparr>"

definition suspend_at :: "Suspension \<Rightarrow> 'g exec \<Rightarrow> 'g exec" where
  "suspend_at s x =
    (let y = put_script x
     in y\<lparr>x_rt := (x_rt y)\<lparr>rt_suspended := Some s\<rparr>, x_out := (x_out y)\<lparr>out_suspended := True\<rparr>\<rparr>)"

text \<open>What \<^verbatim>\<open>run\<close> and \<^verbatim>\<open>answer\<close> do with the result of a body.\<close>

definition finish :: "Suspension option qresult \<times> 'g exec \<Rightarrow> loop \<times> 'g exec" where
  "finish r =
    (case r of
       (QOk (Some s), x) \<Rightarrow> (Suspended, suspend_at s x)
     | (QOk None, x) \<Rightarrow> (Going, if x_script x \<noteq> [] then put_script x else x)
     | (QErr e, x) \<Rightarrow> (Going, x)
     | (QPanic, x) \<Rightarrow> (Crashed, x))"

definition fire :: "'g throw \<Rightarrow> Engine \<Rightarrow> EvalCtx \<Rightarrow> QuestDef \<Rightarrow> nat \<Rightarrow> nat \<Rightarrow> nat \<Rightarrow> QEvent \<Rightarrow> 'g exec \<Rightarrow> loop \<times> 'g exec" where
  "fire throw eng ctx q st target ei ev x =
    (let x1 = (if st = 0 then put_state (quest_name q) 1 x else x)
     in finish (exec_body throw eng ctx q target ei (ev_body ev) 0 None (x1\<lparr>x_script := []\<rparr>)))"

fun run_events :: "'g throw \<Rightarrow> Engine \<Rightarrow> EvalCtx \<Rightarrow> QuestTrigger \<Rightarrow> QuestDef \<Rightarrow> nat \<Rightarrow> nat \<Rightarrow> nat \<Rightarrow>
    QEvent list \<Rightarrow> 'g exec \<Rightarrow> loop \<times> 'g exec" where
  "run_events throw eng ctx t q st target ei [] x = (Going, x)"
| "run_events throw eng ctx t q st target ei (ev # evs) x =
    (if \<not> list_ex (\<lambda>tr. trigger_matches t (trigger_kind tr)) (ev_triggers ev)
     then run_events throw eng ctx t q st target (Suc ei) evs x
     else case event_fires throw ctx (quest_name q) (ev_condition ev) x of
            (None, x') \<Rightarrow> (Crashed, x')
          | (Some False, x') \<Rightarrow> run_events throw eng ctx t q st target (Suc ei) evs x'
          | (Some True, x') \<Rightarrow>
              (case fire throw eng ctx q st target ei ev x' of
                 (Going, x'') \<Rightarrow> run_events throw eng ctx t q st target (Suc ei) evs x''
               | r \<Rightarrow> r))"

definition start_or :: "nat \<Rightarrow> nat" where
  "start_or st = (if st = 0 then 1 else st)"

fun run_quests :: "'g throw \<Rightarrow> Engine \<Rightarrow> EvalCtx \<Rightarrow> QuestTrigger \<Rightarrow> QuestDef list \<Rightarrow> 'g exec \<Rightarrow> loop \<times> 'g exec" where
  "run_quests throw eng ctx t [] x = (Going, x)"
| "run_quests throw eng ctx t (q # qs) x =
    (let st = (case rt_states (x_rt x) (quest_name q) of None \<Rightarrow> 0 | Some s \<Rightarrow> s)
     in case get_nth (quest_states q) (start_or st - 1) of
          None \<Rightarrow> run_quests throw eng ctx t qs x
        | Some sd \<Rightarrow>
            (case run_events throw eng ctx t q st (start_or st) 0 (state_events sd) x of
               (Going, x') \<Rightarrow> run_quests throw eng ctx t qs x'
             | r \<Rightarrow> r))"

text \<open>The outcome, the runtime and the generator afterwards; \<open>None\<close> is a panic.\<close>

definition leave :: "loop \<times> 'g exec \<Rightarrow> (QuestOutcome \<times> QuestRuntime \<times> 'g) option" where
  "leave r = (case r of (Crashed, x) \<Rightarrow> None | (_, x) \<Rightarrow> Some (x_out x, x_rt x, x_rng x))"

definition enter :: "QuestRuntime \<Rightarrow> 'g \<Rightarrow> 'g exec" where
  "enter rt g =
    \<lparr>x_rt = rt, x_flags = rt_flags rt, x_rng = g, x_script = [], x_out = outcome_default\<rparr>"

definition engine_run :: "'g throw \<Rightarrow> Engine \<Rightarrow> QuestRuntime \<Rightarrow> QuestTrigger \<Rightarrow> i32 \<Rightarrow> u32 \<Rightarrow> int \<Rightarrow>
    (u32 \<rightharpoonup> int) \<Rightarrow> 'g \<Rightarrow> (QuestOutcome \<times> QuestRuntime \<times> 'g) option" where
  "engine_run throw eng rt t level map_index now_s items g =
    (let ctx = \<lparr>ctx_level = level, ctx_map_index = map_index, ctx_now_s = now_s, ctx_items = items,
                ctx_captures = Map.empty\<rparr>
     in if rt_suspended rt \<noteq> None then Some (outcome_default, rt, g)
        else leave (run_quests throw eng ctx t (eng_quests eng) (enter rt g)))"

text \<open>The body in which a suspension resumes.\<close>

definition resume_body :: "QuestDef \<Rightarrow> Suspension \<Rightarrow> Stmt list option" where
  "resume_body q s =
    (case get_nth (quest_states q) (susp_state s - 1) of
       None \<Rightarrow> None
     | Some sd \<Rightarrow>
         (case get_nth (state_events sd) (susp_event s) of
            None \<Rightarrow> None
          | Some ev \<Rightarrow>
              (case susp_branch s of
                 None \<Rightarrow> Some (ev_body ev)
               | Some b \<Rightarrow>
                   (case get_nth (ev_body ev) b of
                      Some (SBranch c body) \<Rightarrow> Some body
                    | _ \<Rightarrow> None))))"

definition engine_answer :: "'g throw \<Rightarrow> Engine \<Rightarrow> QuestRuntime \<Rightarrow> int \<Rightarrow> i32 \<Rightarrow> u32 \<Rightarrow> int \<Rightarrow>
    (u32 \<rightharpoonup> int) \<Rightarrow> 'g \<Rightarrow> (QuestOutcome \<times> QuestRuntime \<times> 'g) option" where
  "engine_answer throw eng rt ans level map_index now_s items g =
    (case rt_suspended rt of
       None \<Rightarrow> Some (outcome_default, rt, g)
     | Some s \<Rightarrow>
         (let rt1 = rt\<lparr>rt_suspended := None\<rparr>
          in case find_quest eng (susp_quest s) of
               None \<Rightarrow> Some (outcome_default, rt1, g)
             | Some q \<Rightarrow>
                 (case resume_body q s of
                    None \<Rightarrow> Some (outcome_default, rt1, g)
                  | Some body \<Rightarrow>
                      (let caps = (case susp_capture s of None \<Rightarrow> Map.empty | Some c \<Rightarrow> [c \<mapsto> ans]);
                           ctx = \<lparr>ctx_level = level, ctx_map_index = map_index, ctx_now_s = now_s,
                                  ctx_items = items, ctx_captures = caps\<rparr>
                       in leave (finish (exec_body throw eng ctx q (susp_state s) (susp_event s) body
                            (susp_stmt s) (susp_branch s) (enter rt1 g)))))))"

text \<open>One run of the timer trigger for each timer that is due.\<close>

fun run_due :: "'g throw \<Rightarrow> Engine \<Rightarrow> i32 \<Rightarrow> u32 \<Rightarrow> int \<Rightarrow> (u32 \<rightharpoonup> int) \<Rightarrow> (string \<times> string) list \<Rightarrow>
    QuestRuntime \<Rightarrow> 'g \<Rightarrow> (QuestOutcome list \<times> QuestRuntime \<times> 'g) option" where
  "run_due throw eng level map_index now_s items [] rt g = Some ([], rt, g)"
| "run_due throw eng level map_index now_s items (k # ks) rt g =
    (case engine_run throw eng rt OnTimer level map_index now_s items g of
       None \<Rightarrow> None
     | Some (out, rt', g') \<Rightarrow>
         map_option (map_prod ((#) out) (\<lambda>r. r))
           (run_due throw eng level map_index now_s items ks rt' g'))"

definition check_timers :: "'g throw \<Rightarrow> Engine \<Rightarrow> QuestRuntime \<Rightarrow> i32 \<Rightarrow> u32 \<Rightarrow> int \<Rightarrow> (u32 \<rightharpoonup> int) \<Rightarrow>
    'g \<Rightarrow> (QuestOutcome list \<times> QuestRuntime \<times> 'g) option" where
  "check_timers throw eng rt level map_index now_s items g =
    (case take_due now_s rt of
       (due, rt') \<Rightarrow> run_due throw eng level map_index now_s items due rt' g)"

end
