(* ===== verification/QuestRun.thy ===== *)
theory QuestRun
  imports QuestEngine
begin

text \<open>
  What the execution of quests keeps: representable values, the snapshot of the flags, valid
  states and valid suspension points, and that a runtime reloaded from its persisted rows
  behaves as the one it was saved from. The preservation lemmas are proved once, in the locale
  \<open>exec_invariant\<close>, from what an invariant says of the five elementary changes of a run.
\<close>

section \<open>Preservation by the combinators\<close>

definition keeps :: "('s \<Rightarrow> bool) \<Rightarrow> ('s \<Rightarrow> 'a \<times> 's) \<Rightarrow> bool" where
  "keeps P m \<longleftrightarrow> (\<forall>s. P s \<longrightarrow> P (snd (m s)))"

named_theorems keeps_intros "preservation of an invariant by the combinators"

lemma keepsD: "keeps P m \<Longrightarrow> P s \<Longrightarrow> P (snd (m s))"
  by (simp add: keeps_def)

lemma keeps_qbind [keeps_intros]: "keeps P m \<Longrightarrow> (\<And>a. keeps P (f a)) \<Longrightarrow> keeps P (qbind m f)"
  unfolding keeps_def qbind_def
  by (auto split: prod.splits qresult.splits)

lemma keeps_qlift [keeps_intros]: "keeps P (qlift r)"
  by (simp add: keeps_def qlift_def)

lemma keeps_qret [keeps_intros]: "keeps P (qret a)"
  by (simp add: keeps_def qret_def)

lemma keeps_arg_text [keeps_intros]: "keeps P (arg_text eng an args i)"
  unfolding arg_text_def by (intro keeps_intros)

lemma keeps_arg_str [keeps_intros]: "keeps P (arg_str an args i)"
  unfolding arg_str_def by (intro keeps_intros)

lemma qbind_qret [simp]: "qbind (qret a) f = f a"
  by (simp add: fun_eq_iff qbind_def qret_def)

lemma qbind_err [simp]: "qbind (qlift (QErr e)) f = qlift (QErr e)" "qbind (qlift QPanic) f = qlift QPanic"
  by (simp_all add: fun_eq_iff qbind_def qlift_def)

section \<open>Flags named by a body\<close>

text \<open>The names a \<^verbatim>\<open>set_qf\<close> of the body can write.\<close>

fun action_flags :: "Action \<Rightarrow> string set" where
  "action_flags a =
    (if action_name a = SetQf
     then (case get_nth (action_args a) 0 of
             None \<Rightarrow> {}
           | Some v \<Rightarrow> (case name_text v of QOk n \<Rightarrow> {n} | _ \<Rightarrow> {}))
     else {})"

fun stmt_flags :: "Stmt \<Rightarrow> string set" where
  "stmt_flags (SAction a cap) = action_flags a"
| "stmt_flags (SBranch c body) = (\<Union>s \<in> set body. stmt_flags s)"
| "stmt_flags (SUse n args) = {}"

definition quest_flags :: "QuestDef \<Rightarrow> string set" where
  "quest_flags q =
    (\<Union>sd \<in> set (quest_states q). \<Union>ev \<in> set (state_events sd). \<Union>s \<in> set (ev_body ev). stmt_flags s)"

text \<open>The states an execution for the quest \<open>q\<close> can write.\<close>

definition valid_target :: "Engine \<Rightarrow> QuestDef \<Rightarrow> string \<Rightarrow> nat \<Rightarrow> bool" where
  "valid_target eng q qn idx \<longleftrightarrow>
    (\<exists>tq. quest_name tq = qn \<and> (tq = q \<or> find_quest eng qn = Some tq)
       \<and> 1 \<le> idx \<and> idx \<le> length (quest_states tq))"

lemma find_quest_name: "find_quest eng qn = Some q \<Longrightarrow> quest_name q = qn \<and> q \<in> set (eng_quests eng)"
  by (auto simp: find_quest_def find_Some_iff)

lemma state_index_bounds: "state_index q sn = Some idx \<Longrightarrow> 1 \<le> idx \<and> idx \<le> length (quest_states q)"
  by (auto simp: state_index_def find_Some_iff)

lemma valid_target_self: "state_index q sn = Some idx \<Longrightarrow> valid_target eng q (quest_name q) idx"
  using state_index_bounds [of q sn idx] by (auto simp: valid_target_def)

lemma valid_target_other:
  "find_quest eng qn = Some tq \<Longrightarrow> state_index tq sn = Some idx \<Longrightarrow> valid_target eng q qn idx"
  using state_index_bounds [of tq sn idx] find_quest_name [of eng qn tq]
  by (auto simp: valid_target_def)

section \<open>Invariants of an execution\<close>

locale exec_invariant =
  fixes P :: "'g exec \<Rightarrow> bool" and eng :: Engine and q :: QuestDef and S :: "string set"
  assumes script: "P x \<Longrightarrow> P (push_script t x)"
    and effect: "P x \<Longrightarrow> P (push_effect e x)"
    and state: "P x \<Longrightarrow> valid_target eng q qn idx \<Longrightarrow> P (put_state qn idx x)"
    and flag: "P x \<Longrightarrow> n \<in> S \<Longrightarrow> P (put_flag (quest_name q) n v x)"
    and rng: "P x \<Longrightarrow> P (x\<lparr>x_rng := g\<rparr>)"
begin

lemma keeps_eval [keeps_intros]: "keeps P (x_eval throw ctx qn v)"
  by (simp add: keeps_def x_eval_def rng split: prod.splits)

lemma keeps_cond [keeps_intros]: "keeps P (x_cond throw ctx qn c)"
  by (auto simp: keeps_def x_cond_def rng split: option.splits prod.splits qresult.splits)

lemma keeps_arg_value [keeps_intros]: "keeps P (arg_value throw ctx qn an args i)"
  unfolding arg_value_def by (intro keeps_intros)

lemma keeps_arg_u32 [keeps_intros]: "keeps P (arg_u32 throw ctx qn an args i)"
  unfolding arg_u32_def by (intro keeps_intros)

lemma keeps_menu: "P x \<Longrightarrow> P (snd (select_menu eng' n ks x))"
proof (induction ks arbitrary: n x)
  case (Cons k ks)
  then have "P (if n > 0 then push_script ''|'' x else x)" by (simp add: script)
  with Cons.IH show ?case by (auto simp: Let_def script split: qresult.splits)
qed simp

lemma keeps_script [keeps_intros]: "keeps P (continue_with (\<lambda>x. push_script t' (push_script t x)))"
  by (simp add: keeps_def continue_with_def script)

lemma keeps_effect [keeps_intros]: "keeps P (continue_with (push_effect e))"
  by (simp add: keeps_def continue_with_def effect)

lemma keeps_state: "valid_target eng q qn idx \<Longrightarrow> keeps P (continue_with (put_state qn idx))"
  by (simp add: keeps_def continue_with_def state)

lemma keeps_flag: "n \<in> S \<Longrightarrow> keeps P (continue_with (put_flag (quest_name q) n v))"
  by (simp add: keeps_def continue_with_def flag)

lemma keeps_set_quest_state [keeps_intros]: "keeps P (x_set_quest_state eng args)"
  unfolding x_set_quest_state_def
  by (intro keeps_intros) (auto split: option.splits intro: keeps_intros keeps_state valid_target_other)

lemma keeps_action:
  assumes "action_flags a \<subseteq> S"
  shows "keeps P (exec_action throw eng ctx q st ev br i a cap)"
proof (cases "action_name a")
  case Wait
  then show ?thesis by (simp add: exec_action_def keeps_def Let_def script)
next
  case Select
  have "keeps P (\<lambda>x. qbind (select_menu eng 0 args) f (push_script t x))"
    if "\<And>u. keeps P (f u)" for args :: "Val list" and f :: "unit \<Rightarrow> 'g exec \<Rightarrow> flow qresult \<times> 'g exec" and t
  proof -
    have "keeps P (qbind (select_menu eng 0 args) f)"
      by (rule keeps_qbind [OF _ that]) (simp add: keeps_def keeps_menu)
    then show ?thesis by (simp add: keeps_def script)
  qed
  moreover have "keeps P (\<lambda>x'. (r, push_script '']'' x'))" for r :: "flow qresult"
    by (simp add: keeps_def script)
  ultimately show ?thesis using Select by (simp add: exec_action_def Let_def)
next
  case SetState
  have "keeps P (case state_index q target of None \<Rightarrow> qlift (QErr (UnknownState target))
      | Some idx \<Rightarrow> continue_with (put_state (quest_name q) idx))" for target
    by (auto split: option.splits intro: keeps_intros keeps_state valid_target_self)
  with SetState show ?thesis by (simp add: exec_action_def Let_def) (intro keeps_intros)
next
  case SetQf
  show ?thesis
  proof (cases "\<exists>v n. get_nth (action_args a) 0 = Some v \<and> name_text v = QOk n")
    case True
    then obtain v n where vn: "get_nth (action_args a) 0 = Some v" "name_text v = QOk n" by blast
    with assms SetQf have "n \<in> S" by simp
    have "arg_str SetQf (action_args a) 0 = (qret n :: 'g exec \<Rightarrow> string qresult \<times> 'g exec)"
      using vn by (simp add: fun_eq_iff arg_str_def nth_arg_def ok_or_def qbind_def qlift_def qret_def)
    then show ?thesis using SetQf \<open>n \<in> S\<close>
      by (simp add: exec_action_def Let_def keeps_qbind keeps_arg_value keeps_flag)
  next
    case False
    then have "\<exists>r :: string qresult. (\<forall>n. r \<noteq> QOk n)
        \<and> arg_str SetQf (action_args a) 0 = (qlift r :: 'g exec \<Rightarrow> string qresult \<times> 'g exec)"
      by (cases "get_nth (action_args a) 0"; cases "name_text (the (get_nth (action_args a) 0))")
         (auto simp: fun_eq_iff arg_str_def nth_arg_def ok_or_def qbind_def qlift_def)
    then obtain r :: "string qresult" where r: "\<forall>n. r \<noteq> QOk n"
        "arg_str SetQf (action_args a) 0 = (qlift r :: 'g exec \<Rightarrow> string qresult \<times> 'g exec)" by blast
    then show ?thesis using SetQf
      by (cases r) (auto simp: exec_action_def Let_def keeps_qlift)
  qed
qed (simp add: exec_action_def Let_def; (intro keeps_intros)?; simp add: keeps_intros)+

lemma keeps_stmts_aux:
  "eng' = eng \<Longrightarrow> q' = q \<Longrightarrow> P x \<Longrightarrow> (\<Union>s \<in> set stmts. stmt_flags s) \<subseteq> S \<Longrightarrow>
   P (snd (exec_stmts throw eng' ctx q' st ev br i stmts x))"
proof (induction throw eng' ctx q' st ev br i stmts x rule: exec_stmts.induct)
  case (2 throw eng' ctx q' st ev br i a cap rest x)
  then have "P (snd (exec_action throw eng' ctx q' st ev br i a cap x))"
    by (auto intro!: keepsD [OF keeps_action] simp del: action_flags.simps)
  with 2 show ?case by (auto split: prod.splits qresult.splits flow.splits simp del: action_flags.simps)
next
  case (3 throw eng' ctx q' st ev br i c body rest x)
  then have "P (snd (x_cond throw ctx (quest_name q') c x))"
    by (auto intro!: keepsD [OF keeps_cond])
  with 3 show ?case by (auto split: prod.splits qresult.splits option.splits bool.splits)
qed auto

lemmas keeps_stmts = keeps_stmts_aux [OF refl refl]

end

section \<open>Suspension points\<close>

lemma qbind_ok:
  "qbind m f s = (QOk b, s') \<longleftrightarrow> (\<exists>a s1. m s = (QOk a, s1) \<and> f a s1 = (QOk b, s'))"
  by (auto simp: qbind_def split: prod.splits qresult.splits)

lemma qlift_ok: "qlift r s = (QOk b, s') \<longleftrightarrow> r = QOk b \<and> s' = s"
  by (auto simp: qlift_def)

lemma qret_ok: "qret a s = (QOk b, s') \<longleftrightarrow> b = a \<and> s' = s"
  by (auto simp: qret_def)

lemma continue_ok: "continue_with f s = (QOk b, s') \<longleftrightarrow> b = Continue \<and> s' = f s"
  by (auto simp: continue_with_def)

lemmas run_ok = qbind_ok qlift_ok qret_ok continue_ok

definition susp_of :: "QuestDef \<Rightarrow> nat \<Rightarrow> nat \<Rightarrow> Suspension \<Rightarrow> bool" where
  "susp_of q st ev s \<longleftrightarrow> susp_quest s = quest_name q \<and> susp_state s = st \<and> susp_event s = ev"

lemma set_quest_state_flow: "x_set_quest_state eng args x = (QOk f, x') \<Longrightarrow> f = Continue"
  unfolding x_set_quest_state_def qbind_ok
  by (elim exE conjE) (simp split: option.split_asm add: run_ok)

lemma exec_action_susp:
  assumes "exec_action throw eng ctx q st ev br i a cap x = (QOk (Suspend s), x')"
  shows "susp_of q st ev s \<and> susp_branch s = br \<and> susp_stmt s = Suc i"
  using assms
  by (cases "action_name a")
     (auto simp: exec_action_def Let_def run_ok susp_of_def split: option.split_asm if_splits
        dest: set_quest_state_flow)

lemma susp_in_branch:
  "exec_stmts throw eng ctx q st ev br i stmts x = (QOk (Some s), x') \<Longrightarrow> list_all bodiless stmts \<Longrightarrow>
   susp_of q st ev s \<and> susp_branch s = br \<and> susp_stmt s \<le> i + length stmts"
proof (induction throw eng ctx q st ev br i stmts x rule: exec_stmts.induct)
  case (2 throw eng ctx q st ev br i a cap rest x)
  then show ?case
    by (auto split: prod.splits qresult.splits flow.splits dest!: exec_action_susp)
next
  case (3 throw eng ctx q st ev br i c body rest x)
  from 3(5) have "body = []" and rest: "list_all bodiless rest" by simp_all
  obtain r y where "x_cond throw ctx (quest_name q) c x = (r, y)" by fastforce
  with 3(4) \<open>body = []\<close> have "exec_stmts throw eng ctx q st ev br (Suc i) rest y = (QOk (Some s), x') \<and> (\<exists>b. r = QOk b)"
    by (auto split: qresult.splits bool.splits)
  then obtain b where "r = QOk b" "exec_stmts throw eng ctx q st ev br (Suc i) rest y = (QOk (Some s), x')" by blast
  with 3(2,3) [OF \<open>x_cond throw ctx (quest_name q) c x = (r, y)\<close> [symmetric]] rest \<open>body = []\<close>
  show ?case by (cases b) auto
qed auto

text \<open>A point of the body of an event, or of one of its branches.\<close>

definition event_point :: "Stmt list \<Rightarrow> nat \<Rightarrow> Suspension \<Rightarrow> bool" where
  "event_point stmts i s \<longleftrightarrow>
    (case susp_branch s of
       None \<Rightarrow> susp_stmt s \<le> i + length stmts
     | Some b \<Rightarrow> i \<le> b \<and> (\<exists>c body. get_nth stmts (b - i) = Some (SBranch c body) \<and> susp_stmt s \<le> length body))"

lemma get_nth_Suc: "get_nth (y # ys) (Suc n) = get_nth ys n"
  by (simp add: get_nth_def)

lemma event_point_Cons: "event_point rest (Suc i) s \<Longrightarrow> event_point (y # rest) i s"
proof (cases "susp_branch s")
  case (Some b)
  assume "event_point rest (Suc i) s"
  with Some have "Suc i \<le> b" by (simp add: event_point_def)
  then have "b - i = Suc (b - Suc i)" by simp
  with \<open>event_point rest (Suc i) s\<close> Some show ?thesis by (auto simp: event_point_def get_nth_Suc)
qed (simp add: event_point_def)

lemma event_point_here: "susp_branch s = None \<Longrightarrow> susp_stmt s = Suc i \<Longrightarrow> event_point (y # rest) i s"
  by (simp add: event_point_def)

lemma susp_in_event:
  "exec_stmts throw eng ctx q st ev br i stmts x = (QOk (Some s), x') \<Longrightarrow> br = None \<Longrightarrow> list_all flat_stmt stmts \<Longrightarrow>
   susp_of q st ev s \<and> event_point stmts i s"
proof (induction throw eng ctx q st ev br i stmts x rule: exec_stmts.induct)
  case (2 throw eng ctx q st ev br i a cap rest x)
  show ?case
  proof (cases "exec_action throw eng ctx q st ev br i a cap x")
    case (Pair r y)
    with 2 show ?thesis
      by (cases r) (auto split: flow.splits dest!: exec_action_susp simp: event_point_Cons event_point_here)
  qed
next
  case (3 throw eng ctx q st ev br i c body rest x)
  obtain r y where c: "x_cond throw ctx (quest_name q) c x = (r, y)" by fastforce
  show ?case
  proof (cases "r = QOk True")
    case True
    obtain r' z where e: "exec_stmts throw eng ctx q st ev (Some i) 0 body y = (r', z)" by fastforce
    show ?thesis
    proof (cases "r' = QOk None")
      case True
      with 3 c e \<open>r = QOk True\<close> show ?thesis by (auto simp: event_point_Cons)
    next
      case False
      with 3(4) c e \<open>r = QOk True\<close> have "r' = QOk (Some s)" by (auto split: qresult.splits option.splits)
      moreover have "list_all bodiless body" using 3(6) by simp
      ultimately show ?thesis
        using susp_in_branch [OF e [unfolded \<open>r' = QOk (Some s)\<close>]] by (simp add: event_point_def get_nth_def)
    qed
  next
    case False
    with 3 c show ?thesis by (auto split: qresult.splits bool.splits simp: event_point_Cons)
  qed
next
  case 4
  then show ?case by (auto simp: event_point_Cons)
qed auto

text \<open>A suspension the engine can resume: the body exists and the index is within it.\<close>

definition susp_ok :: "Engine \<Rightarrow> Suspension \<Rightarrow> bool" where
  "susp_ok eng s \<longleftrightarrow> (\<exists>q body. find_quest eng (susp_quest s) = Some q \<and> resume_body q s = Some body
     \<and> susp_stmt s \<le> length body)"

definition engine_ok :: "Engine \<Rightarrow> bool" where
  "engine_ok eng \<longleftrightarrow> distinct (List.map quest_name (eng_quests eng)) \<and> list_all quest_ok (eng_quests eng)"

lemma find_quest_self:
  assumes "engine_ok eng" and "q \<in> set (eng_quests eng)"
  shows "find_quest eng (quest_name q) = Some q"
proof -
  have "List.find (\<lambda>q'. quest_name q' = quest_name q) qs = Some q"
    if "distinct (List.map quest_name qs)" "q \<in> set qs" for qs
    using that by (induction qs) auto
  with assms show ?thesis by (simp add: engine_ok_def find_quest_def)
qed

lemma event_in_ok:
  assumes "quest_ok q" and "get_nth (quest_states q) n = Some sd" and "get_nth (state_events sd) ei = Some ev"
  shows "event_ok ev"
  using assms by (auto simp: quest_ok_def get_nth_def list_all_length split: if_splits simp del: event_ok.simps)

lemma susp_ok_event:
  assumes "engine_ok eng" and "q \<in> set (eng_quests eng)"
    and "get_nth (quest_states q) (st - 1) = Some sd" and "get_nth (state_events sd) ei = Some ev"
    and "exec_body throw eng ctx q st ei (ev_body ev) n None x = (QOk (Some s), x')"
    and "n \<le> length (ev_body ev)"
  shows "susp_ok eng s"
proof -
  have "quest_ok q" using assms(1,2) by (auto simp: engine_ok_def list_all_iff)
  then have "list_all flat_stmt (ev_body ev)" using event_in_ok [OF _ assms(3,4)] by simp
  then have flat: "list_all flat_stmt (drop n (ev_body ev))"
    by (metis append_take_drop_id list_all_append)
  have p: "susp_of q st ei s" "event_point (drop n (ev_body ev)) n s"
    using susp_in_event [OF assms(5) [unfolded exec_body_def] refl flat] by simp_all
  show ?thesis
  proof (cases "susp_branch s")
    case None
    with p assms(3,4,6) find_quest_self [OF assms(1,2)] show ?thesis
      by (auto simp: susp_ok_def susp_of_def event_point_def resume_body_def)
  next
    case (Some b)
    with p(2) obtain c body where b: "n \<le> b" "get_nth (drop n (ev_body ev)) (b - n) = Some (SBranch c body)"
      "susp_stmt s \<le> length body" by (auto simp: event_point_def)
    then have "get_nth (ev_body ev) b = Some (SBranch c body)"
      by (auto simp: get_nth_def split: if_splits)
    with Some b p(1) assms(3,4) find_quest_self [OF assms(1,2)] show ?thesis
      by (auto simp: susp_ok_def susp_of_def resume_body_def)
  qed
qed

lemma susp_ok_resume:
  assumes "engine_ok eng" and "susp_ok eng s" and "find_quest eng (susp_quest s) = Some q"
    and "resume_body q s = Some body"
    and "exec_body throw eng ctx q (susp_state s) (susp_event s) body (susp_stmt s) (susp_branch s) x
      = (QOk (Some s'), x')"
  shows "susp_ok eng s'"
proof -
  have q: "q \<in> set (eng_quests eng)" "quest_name q = susp_quest s"
    using find_quest_name [OF assms(3)] by simp_all
  have le: "susp_stmt s \<le> length body" using assms(2-4) by (auto simp: susp_ok_def)
  obtain sd ev where ev: "get_nth (quest_states q) (susp_state s - 1) = Some sd"
      "get_nth (state_events sd) (susp_event s) = Some ev"
    using assms(4) by (auto simp: resume_body_def split: option.splits)
  show ?thesis
  proof (cases "susp_branch s")
    case None
    with assms(4) ev have "body = ev_body ev" by (simp add: resume_body_def)
    with susp_ok_event [OF assms(1) q(1) ev] assms(5) None le show ?thesis by simp
  next
    case (Some b)
    with assms(4) ev obtain c where c: "get_nth (ev_body ev) b = Some (SBranch c body)"
      by (auto simp: resume_body_def split: option.splits Stmt.splits)
    have "quest_ok q" using assms(1) q(1) by (auto simp: engine_ok_def list_all_iff)
    then have "list_all flat_stmt (ev_body ev)" using event_in_ok [OF _ ev] by simp
    with c have "flat_stmt (SBranch c body)"
      by (auto simp: get_nth_def list_all_length split: if_splits simp del: flat_stmt.simps)
    then have "list_all bodiless (drop (susp_stmt s) body)"
      by (metis append_take_drop_id list_all_append flat_stmt.simps(1))
    then have "susp_of q (susp_state s) (susp_event s) s'" "susp_branch s' = Some b"
        "susp_stmt s' \<le> susp_stmt s + length (drop (susp_stmt s) body)"
      using susp_in_branch [OF assms(5) [unfolded exec_body_def]] Some by simp_all
    with ev c le q assms(3) show ?thesis
      by (auto simp: susp_ok_def susp_of_def resume_body_def)
  qed
qed

section \<open>Invariants of a run\<close>

definition loop_post :: "('g exec \<Rightarrow> bool) \<Rightarrow> Engine \<Rightarrow> loop \<times> 'g exec \<Rightarrow> bool" where
  "loop_post P eng r \<longleftrightarrow>
    (case r of
       (Going, x) \<Rightarrow> P x
     | (Suspended, x) \<Rightarrow> (\<exists>s y. P y \<and> susp_ok eng s \<and> x = suspend_at s y)
     | (Crashed, x) \<Rightarrow> True)"

lemma loop_post_going [simp]: "loop_post P eng (Going, x) \<longleftrightarrow> P x"
  by (simp add: loop_post_def)

lemma loop_post_crashed [simp]: "loop_post P eng (Crashed, x)"
  by (simp add: loop_post_def)

lemma get_nth_set: "get_nth xs n = Some y \<Longrightarrow> y \<in> set xs"
  by (auto simp: get_nth_def split: if_splits)

locale run_invariant =
  fixes P :: "'g exec \<Rightarrow> bool" and eng :: Engine
  assumes ok: "engine_ok eng"
    and body: "q \<in> set (eng_quests eng) \<Longrightarrow> exec_invariant P eng q (quest_flags q)"
    and reset: "P x \<Longrightarrow> P (x\<lparr>x_script := t\<rparr>)"
    and shown: "P x \<Longrightarrow> P (put_script x)"
begin

lemma keeps_fires: "q \<in> set (eng_quests eng) \<Longrightarrow> P x \<Longrightarrow> P (snd (event_fires throw ctx qn c x))"
  using keepsD [OF exec_invariant.keeps_cond [OF body], of q x throw ctx qn c]
  by (auto simp: event_fires_def split: prod.splits qresult.splits)

lemma event_flags:
  assumes "get_nth (quest_states q) n = Some sd" and "get_nth (state_events sd) ei = Some ev"
    and "set stmts \<subseteq> set (ev_body ev)"
  shows "(\<Union>s \<in> set stmts. stmt_flags s) \<subseteq> quest_flags q"
proof -
  have "sd \<in> set (quest_states q)" "ev \<in> set (state_events sd)"
    using assms(1,2) by (auto simp: get_nth_def split: if_splits)
  with assms(3) show ?thesis by (auto simp: quest_flags_def)
qed

lemma finish_post:
  assumes "P (snd r)" and "\<And>s x. r = (QOk (Some s), x) \<Longrightarrow> susp_ok eng s"
  shows "loop_post P eng (finish r)"
  using assms by (cases r) (auto simp: finish_def loop_post_def shown split: qresult.splits option.splits)

lemma keeps_body:
  assumes "q \<in> set (eng_quests eng)" and "(\<Union>s \<in> set stmts. stmt_flags s) \<subseteq> quest_flags q" and "P x"
  shows "P (snd (exec_body throw eng ctx q st ei stmts n br x))"
proof -
  have "(\<Union>s \<in> set (drop n stmts). stmt_flags s) \<subseteq> quest_flags q"
    using assms(2) by (meson UN_mono in_set_dropD subset_iff order_trans order_refl)
  then show ?thesis
    unfolding exec_body_def by (rule exec_invariant.keeps_stmts [OF body [OF assms(1)] assms(3)])
qed

lemma fire_post:
  assumes "q \<in> set (eng_quests eng)" and "get_nth (quest_states q) (target - 1) = Some sd"
    and "get_nth (state_events sd) ei = Some ev" and "P x"
  shows "loop_post P eng (fire throw eng ctx q st target ei ev x)"
proof -
  have "0 < length (quest_states q)" using assms(2) by (auto simp: get_nth_def split: if_splits)
  then have "valid_target eng q (quest_name q) 1" by (auto simp: valid_target_def Suc_le_eq)
  then have "P (if st = 0 then put_state (quest_name q) 1 x else x)"
    using exec_invariant.state [OF body [OF assms(1)]] assms(4) by simp
  then show ?thesis
    unfolding fire_def Let_def
    by (rule finish_post [OF keeps_body [OF assms(1) event_flags [OF assms(2,3) order_refl] reset]])
       (use susp_ok_event [OF ok assms(1-3) _ le0] in blast)+
qed

lemma run_events_post:
  assumes "q \<in> set (eng_quests eng)" and "get_nth (quest_states q) (target - 1) = Some sd"
  shows "drop ei (state_events sd) = evs \<Longrightarrow> P x \<Longrightarrow>
    loop_post P eng (run_events throw eng ctx t q st target ei evs x)"
proof (induction evs arbitrary: ei x)
  case Nil
  then show ?case by (simp add: loop_post_def)
next
  case (Cons ev evs)
  from Cons.prems(1) have ev: "get_nth (state_events sd) ei = Some ev" and rest: "drop (Suc ei) (state_events sd) = evs"
    by (auto simp: get_nth_def drop_Suc tl_drop [symmetric])
       (metis length_drop length_greater_0_conv list.distinct(1) nth_via_drop zero_less_diff)+
  obtain b y where f: "event_fires throw ctx (quest_name q) (ev_condition ev) x = (b, y)" by fastforce
  with keeps_fires [OF assms(1) Cons.prems(2)] have "P y" by (metis snd_conv)
  obtain r z where r: "fire throw eng ctx q st target ei ev y = (r, z)" by fastforce
  with fire_post [OF assms ev \<open>P y\<close>] have post: "loop_post P eng (r, z)" by metis
  show ?case
    using Cons.IH [OF rest] Cons.prems(2) f r post \<open>P y\<close>
    by (cases b; cases r) (auto split: bool.splits)
qed

lemma run_quests_post:
  "set qs \<subseteq> set (eng_quests eng) \<Longrightarrow> P x \<Longrightarrow> loop_post P eng (run_quests throw eng ctx t qs x)"
proof (induction qs arbitrary: x)
  case Nil
  then show ?case by (simp add: loop_post_def)
next
  case (Cons q qs)
  define st where "st = (case rt_states (x_rt x) (quest_name q) of None \<Rightarrow> 0 | Some s \<Rightarrow> s)"
  show ?case
  proof (cases "get_nth (quest_states q) (start_or st - 1)")
    case None
    with Cons show ?thesis by (simp add: st_def [symmetric] Let_def)
  next
    case (Some sd)
    obtain r y where r: "run_events throw eng ctx t q st (start_or st) 0 (state_events sd) x = (r, y)" by fastforce
    have "loop_post P eng (r, y)"
      using run_events_post [OF _ Some, of 0 "state_events sd" x throw ctx t st] Cons.prems r by simp
    with Cons Some r show ?thesis
      by (cases r) (simp_all add: st_def [symmetric] Let_def loop_post_def)
  qed
qed

lemma answer_post:
  assumes "susp_ok eng s" and "find_quest eng (susp_quest s) = Some q" and "resume_body q s = Some stmts" and "P x"
  shows "loop_post P eng (finish (exec_body throw eng ctx q (susp_state s) (susp_event s) stmts
    (susp_stmt s) (susp_branch s) x))"
proof -
  have q: "q \<in> set (eng_quests eng)" using find_quest_name [OF assms(2)] by simp
  obtain sd ev where ev: "get_nth (quest_states q) (susp_state s - 1) = Some sd"
      "get_nth (state_events sd) (susp_event s) = Some ev"
    using assms(3) by (auto simp: resume_body_def split: option.splits)
  have sub: "(\<Union>s \<in> set stmts. stmt_flags s) \<subseteq> (\<Union>s \<in> set (ev_body ev). stmt_flags s)"
  proof (cases "susp_branch s")
    case None
    with assms(3) ev show ?thesis by (simp add: resume_body_def)
  next
    case (Some b)
    with assms(3) ev obtain c where "get_nth (ev_body ev) b = Some (SBranch c stmts)"
      by (auto simp: resume_body_def split: option.splits Stmt.splits)
    then have "SBranch c stmts \<in> set (ev_body ev)" by (rule get_nth_set)
    then show ?thesis using UN_upper [of "SBranch c stmts" "set (ev_body ev)" stmt_flags] by simp
  qed
  show ?thesis
    by (rule finish_post [OF keeps_body [OF q subset_trans [OF sub event_flags [OF ev order_refl]] assms(4)]])
       (rule susp_ok_resume [OF ok assms(1-3)])
qed

end

end
