(* ===== verification/QuestSim.thy ===== *)
theory QuestSim
  imports QuestRun
begin

text \<open>
  Two runtimes that read the same (an absent flag reads 0, an absent state is 0) run the same:
  evaluation, actions, bodies and whole triggers give equal outcomes and leave runtimes that
  read the same. Also here: the values of expressions are representable.
\<close>

section \<open>Reading a runtime\<close>

definition state_value :: "(string \<rightharpoonup> nat) \<Rightarrow> string \<Rightarrow> nat" where
  "state_value m qn = (case m qn of None \<Rightarrow> 0 | Some s \<Rightarrow> s)"

definition flags_eq :: "flag_map \<Rightarrow> flag_map \<Rightarrow> bool" where
  "flags_eq m m' \<longleftrightarrow> (\<forall>qn n. flag_value m qn n = flag_value m' qn n)"

definition rt_eq :: "QuestRuntime \<Rightarrow> QuestRuntime \<Rightarrow> bool" where
  "rt_eq a b \<longleftrightarrow> flags_eq (rt_flags a) (rt_flags b)
    \<and> (\<forall>qn. state_value (rt_states a) qn = state_value (rt_states b) qn)
    \<and> rt_suspended a = rt_suspended b"

definition x_eq :: "'g exec \<Rightarrow> 'g exec \<Rightarrow> bool" where
  "x_eq x y \<longleftrightarrow> rt_eq (x_rt x) (x_rt y) \<and> flags_eq (x_flags x) (x_flags y) \<and> x_rng x = x_rng y
    \<and> x_script x = x_script y \<and> x_out x = x_out y"

lemma x_eq_changes:
  assumes "x_eq x y"
  shows "x_eq (push_script t x) (push_script t y)" "x_eq (push_effect e x) (push_effect e y)"
    "x_eq (put_state qn idx x) (put_state qn idx y)" "x_eq (put_flag qn n v x) (put_flag qn n v y)"
    "x_eq (x\<lparr>x_rng := g\<rparr>) (y\<lparr>x_rng := g\<rparr>)" "x_eq (x\<lparr>x_script := t\<rparr>) (y\<lparr>x_script := t\<rparr>)"
    "x_eq (put_script x) (put_script y)" "x_eq (suspend_at s x) (suspend_at s y)"
  using assms
  by (auto simp: x_eq_def rt_eq_def flags_eq_def flag_value_def state_value_def push_script_def push_effect_def
      put_state_def put_flag_def push_dirty_def put_script_def suspend_at_def Let_def)

section \<open>Evaluation reads flags through their values only\<close>

lemma qbind_cong: "(\<And>a. f a = f' a) \<Longrightarrow> qbind m f = qbind m f'"
  by (rule arg_cong [of _ _ "qbind m"]) (rule ext)

lemma eval_cong: "flags_eq m m' \<Longrightarrow> eval_expr throw ctx m qn e = eval_expr throw ctx m' qn e"
  by (induction throw ctx m qn e rule: eval_expr.induct)
     (auto simp: qf_get_def flags_eq_def cong: qresult.case_cong
       split: FuncName.splits list.splits intro!: qbind_cong)

section \<open>Actions and bodies\<close>

definition coherent :: "('g exec \<Rightarrow> 'a \<times> 'g exec) \<Rightarrow> bool" where
  "coherent m \<longleftrightarrow> (\<forall>x y. x_eq x y \<longrightarrow> fst (m x) = fst (m y) \<and> x_eq (snd (m x)) (snd (m y)))"

named_theorems coherent_intros "computations that respect equal readings"

lemma coherentD:
  assumes "coherent m" and "x_eq x y" and "m x = (r, x')"
  shows "\<exists>y'. m y = (r, y') \<and> x_eq x' y'"
proof -
  have "fst (m x) = fst (m y) \<and> x_eq (snd (m x)) (snd (m y))"
    using assms(1,2) by (simp add: coherent_def)
  with assms(3) show ?thesis by (cases "m y") simp
qed

lemma coherentI:
  fixes m :: "'a exec \<Rightarrow> 'b \<times> 'a exec"
  assumes "\<And>x y r x'. x_eq x y \<Longrightarrow> m x = (r, x') \<Longrightarrow> \<exists>y'. m y = (r, y') \<and> x_eq x' y'"
  shows "coherent m"
  unfolding coherent_def
proof (intro allI impI)
  fix x y :: "'a exec" assume "x_eq x y"
  then show "fst (m x) = fst (m y) \<and> x_eq (snd (m x)) (snd (m y))"
    using assms [of x y "fst (m x)" "snd (m x)"] by auto
qed

lemma coherent_qbind [coherent_intros]: "coherent m \<Longrightarrow> (\<And>a. coherent (f a)) \<Longrightarrow> coherent (qbind m f)"
proof (rule coherentI)
  fix x y r x' assume m: "coherent m" and f: "\<And>a. coherent (f a)" and xy: "x_eq x y" and r: "qbind m f x = (r, x')"
  obtain a x1 where a: "m x = (a, x1)" by fastforce
  with coherentD [OF m xy] obtain y1 where y1: "m y = (a, y1)" "x_eq x1 y1" by blast
  with r a coherentD [OF f y1(2)] show "\<exists>y'. qbind m f y = (r, y') \<and> x_eq x' y'"
    by (cases a) (auto simp: qbind_def)
qed

lemma coherent_pure [coherent_intros]: "coherent (qlift r)" "coherent (qret a)"
  by (simp_all add: coherent_def qlift_def qret_def)

lemma coherent_texts [coherent_intros]: "coherent (arg_text eng an args i)" "coherent (arg_str an args i)"
  unfolding arg_text_def arg_str_def by (intro coherent_intros)+

lemma coherent_changes [coherent_intros]:
  "coherent (continue_with (\<lambda>x. push_script t' (push_script t x)))"
  "coherent (continue_with (push_effect e))"
  "coherent (continue_with (put_state qn idx))" "coherent (continue_with (put_flag qn n v))"
  by (simp_all add: coherent_def continue_with_def x_eq_changes)

lemma coherent_eval [coherent_intros]: "coherent (x_eval throw ctx qn v)"
proof (rule coherentI)
  fix x y r x' assume xy: "x_eq x y" and r: "x_eval throw ctx qn v x = (r, x')"
  have "eval_arg throw ctx (x_flags x) qn v = eval_arg throw ctx (x_flags y) qn v"
    using xy eval_cong [of "x_flags x" "x_flags y"] by (cases v) (simp_all add: x_eq_def)
  moreover have "x_rng y = x_rng x" using xy by (simp add: x_eq_def)
  ultimately show "\<exists>y'. x_eval throw ctx qn v y = (r, y') \<and> x_eq x' y'"
    using r xy by (auto simp: x_eval_def x_eq_changes split: prod.splits)
qed

lemma coherent_cond [coherent_intros]: "coherent (x_cond throw ctx qn c)"
proof (rule coherentI)
  fix x y r x' assume xy: "x_eq x y" and r: "x_cond throw ctx qn c x = (r, x')"
  have "eval_expr throw ctx (x_flags x) qn e = eval_expr throw ctx (x_flags y) qn e" for e
    using xy eval_cong [of "x_flags x" "x_flags y"] by (simp add: x_eq_def)
  moreover have "x_rng y = x_rng x" using xy by (simp add: x_eq_def)
  ultimately show "\<exists>y'. x_cond throw ctx qn c y = (r, y') \<and> x_eq x' y'"
    using r xy by (auto simp: x_cond_def x_eq_changes split: option.splits prod.splits qresult.splits)
qed

lemma coherent_args [coherent_intros]:
  "coherent (arg_value throw ctx qn an args i)" "coherent (arg_u32 throw ctx qn an args i)"
  unfolding arg_u32_def arg_value_def by (intro coherent_intros)+

lemma menu_coherent: "x_eq x y \<Longrightarrow> select_menu eng n ks x = (r, x') \<Longrightarrow>
  \<exists>y'. select_menu eng n ks y = (r, y') \<and> x_eq x' y'"
proof (induction ks arbitrary: n x y)
  case (Cons k ks)
  define u v where "u = (if n > 0 then push_script ''|'' x else x)"
    and "v = (if n > 0 then push_script ''|'' y else y)"
  have uv: "x_eq u v" using Cons.prems(1) by (simp add: u_def v_def x_eq_changes)
  show ?case
  proof (cases "key_text eng k")
    case (QOk t)
    with Cons.prems(2) Cons.IH [OF x_eq_changes(1) [OF uv]] show ?thesis
      by (simp add: Let_def u_def [symmetric] v_def [symmetric])
  qed (use Cons.prems(2) uv in \<open>auto simp: Let_def u_def [symmetric] v_def [symmetric]\<close>)
qed simp

lemma coherent_menu [coherent_intros]: "coherent (select_menu eng n ks)"
  by (rule coherentI) (rule menu_coherent)

lemma coherent_set_quest_state [coherent_intros]: "coherent (x_set_quest_state eng args)"
  unfolding x_set_quest_state_def
  by (intro coherent_intros) (auto split: option.splits intro: coherent_intros)

lemma coherent_push: "coherent m \<Longrightarrow> coherent (\<lambda>x. m (push_script t x))"
  by (simp add: coherent_def x_eq_changes)

lemma coherent_give [coherent_intros]: "coherent a \<Longrightarrow> coherent b \<Longrightarrow> coherent (if c then a else b)"
  by simp

lemma coherent_action: "coherent (exec_action throw eng ctx q st ev br i a cap)"
proof (cases "action_name a")
  case Wait
  then show ?thesis by (simp add: exec_action_def Let_def coherent_def x_eq_changes)
next
  case Select
  have "coherent (\<lambda>x'. (r, push_script '']'' x'))" for r :: "flow qresult"
    by (simp add: coherent_def x_eq_changes)
  then have "coherent (qbind (select_menu eng 0 args) (\<lambda>_ x'. (r, push_script '']'' x')))"
    for r :: "flow qresult" and args :: "Val list"
    by (intro coherent_qbind coherent_menu)
  from coherent_push [OF this] Select show ?thesis by (simp add: exec_action_def Let_def)
next
  case SetState
  have "coherent (case state_index q target of None \<Rightarrow> qlift (QErr (UnknownState target))
      | Some idx \<Rightarrow> continue_with (put_state (quest_name q) idx))" for target
    by (auto split: option.splits intro: coherent_intros)
  with SetState show ?thesis by (simp add: exec_action_def Let_def) (intro coherent_intros)
qed (simp add: exec_action_def Let_def; (intro coherent_intros)?; simp add: coherent_intros)+

lemma stmts_coherent:
  "x_eq x y \<Longrightarrow> exec_stmts throw eng ctx q st ev br i stmts x = (r, x') \<Longrightarrow>
   \<exists>y'. exec_stmts throw eng ctx q st ev br i stmts y = (r, y') \<and> x_eq x' y'"
proof (induction throw eng ctx q st ev br i stmts x arbitrary: y r x' rule: exec_stmts.induct)
  case (2 throw eng ctx q st ev br i a cap rest x)
  obtain f x1 where f: "exec_action throw eng ctx q st ev br i a cap x = (f, x1)" by fastforce
  with coherentD [OF coherent_action 2(2)] obtain y1 where y1:
    "exec_action throw eng ctx q st ev br i a cap y = (f, y1)" "x_eq x1 y1" by blast
  show ?case using 2(3) f y1 2(1) [OF f [symmetric] _ _ y1(2)]
    by (auto split: qresult.splits flow.splits)
next
  case (3 throw eng ctx q st ev br i c body rest x)
  obtain f x1 where f: "x_cond throw ctx (quest_name q) c x = (f, x1)" by fastforce
  with coherentD [OF coherent_cond 3(4)] obtain y1 where y1:
    "x_cond throw ctx (quest_name q) c y = (f, y1)" "x_eq x1 y1" by blast
  show ?case
  proof (cases "f = QOk True")
    case True
    obtain h x2 where h: "exec_stmts throw eng ctx q st ev (Some i) 0 body x1 = (h, x2)" by fastforce
    with 3(1) [OF f [symmetric] True refl y1(2)] obtain y2 where y2:
      "exec_stmts throw eng ctx q st ev (Some i) 0 body y1 = (h, y2)" "x_eq x2 y2" by blast
    show ?thesis using 3(5) f y1 h y2 True 3(2) [OF f [symmetric] True refl h [symmetric] _ _ y2(2)]
      by (auto split: qresult.splits option.splits)
  next
    case False
    with 3(5) f y1 3(3) [OF f [symmetric] _ _ y1(2)] show ?thesis
      by (auto split: qresult.splits bool.splits)
  qed
qed auto

section \<open>Triggers and answers\<close>

lemma coherent_fires: "coherent (event_fires throw ctx qn c)"
proof (rule coherentI)
  fix x y r x' assume xy: "x_eq x y" and r: "event_fires throw ctx qn c x = (r, x')"
  obtain b x1 where b: "x_cond throw ctx qn c x = (b, x1)" by fastforce
  with coherentD [OF coherent_cond xy] obtain y1 where "x_cond throw ctx qn c y = (b, y1)" "x_eq x1 y1" by blast
  with b r show "\<exists>y'. event_fires throw ctx qn c y = (r, y') \<and> x_eq x' y'"
    by (cases b) (auto simp: event_fires_def)
qed

lemma coherent_body: "coherent (exec_body throw eng ctx q st ev body n br)"
  unfolding exec_body_def by (rule coherentI) (rule stmts_coherent)

lemma coherent_finish:
  assumes "coherent m"
  shows "coherent (\<lambda>x. finish (m x))"
proof (rule coherentI)
  fix x y r x' assume xy: "x_eq x y" and r: "finish (m x) = (r, x')"
  obtain f x1 where f: "m x = (f, x1)" by fastforce
  with coherentD [OF assms xy] obtain y1 where y: "m y = (f, y1)" "x_eq x1 y1" by blast
  then have "x_script x1 = x_script y1" by (simp add: x_eq_def)
  with f y r show "\<exists>y'. finish (m y) = (r, y') \<and> x_eq x' y'"
    by (cases f) (auto simp: finish_def x_eq_changes split: option.splits)
qed

lemma coherent_fire: "coherent (fire throw eng ctx q st target ei ev)"
proof -
  let ?m = "exec_body throw eng ctx q target ei (ev_body ev) 0 None"
  have "coherent (\<lambda>x. finish (?m ((if st = 0 then put_state (quest_name q) 1 x else x)\<lparr>x_script := []\<rparr>)))"
    using coherent_finish [OF coherent_body, of throw eng ctx q target ei "ev_body ev" 0 None]
    by (auto simp: coherent_def x_eq_changes)
  then show ?thesis by (simp add: fire_def [abs_def] Let_def)
qed

lemma coherent_events: "coherent (run_events throw eng ctx t q st target ei evs)"
proof (rule coherentI)
  show "\<exists>y'. run_events throw eng ctx t q st target ei evs y = (r, y') \<and> x_eq x' y'"
    if "x_eq x y" "run_events throw eng ctx t q st target ei evs x = (r, x')" for x y r x'
    using that
  proof (induction evs arbitrary: ei x y)
    case (Cons ev evs)
    show ?case
    proof (cases "list_ex (\<lambda>tr. trigger_matches t (trigger_kind tr)) (ev_triggers ev)")
      case False
      with Cons show ?thesis by simp
    next
      case match: True
      obtain b x1 where b: "event_fires throw ctx (quest_name q) (ev_condition ev) x = (b, x1)" by fastforce
      with coherentD [OF coherent_fires Cons.prems(1)] obtain y1 where
        y1: "event_fires throw ctx (quest_name q) (ev_condition ev) y = (b, y1)" "x_eq x1 y1" by blast
      obtain f x2 where f: "fire throw eng ctx q st target ei ev x1 = (f, x2)" by fastforce
      with coherentD [OF coherent_fire y1(2)] obtain y2 where
        y2: "fire throw eng ctx q st target ei ev y1 = (f, y2)" "x_eq x2 y2" by blast
      show ?thesis
        using Cons.prems(2) match b y1 f y2 Cons.IH [OF y1(2)] Cons.IH [OF y2(2)]
        by (cases b; cases f) (auto split: bool.splits)
    qed
  qed simp
qed

lemma coherent_quests: "coherent (run_quests throw eng ctx t qs)"
proof (rule coherentI)
  show "\<exists>y'. run_quests throw eng ctx t qs y = (r, y') \<and> x_eq x' y'"
    if "x_eq x y" "run_quests throw eng ctx t qs x = (r, x')" for x y r x'
    using that
  proof (induction qs arbitrary: x y)
    case (Cons q qs)
    define st where "st = state_value (rt_states (x_rt x)) (quest_name q)"
    then have st: "st = state_value (rt_states (x_rt y)) (quest_name q)"
      using Cons.prems(1) by (simp add: x_eq_def rt_eq_def)
    show ?case
    proof (cases "get_nth (quest_states q) (start_or st - 1)")
      case None
      then show ?thesis
        using Cons.prems(2) Cons.IH [OF Cons.prems(1)] st_def st
        by (simp add: Let_def state_value_def)
    next
      case (Some sd)
      obtain f x1 where f: "run_events throw eng ctx t q st (start_or st) 0 (state_events sd) x = (f, x1)" by fastforce
      with coherentD [OF coherent_events Cons.prems(1)] obtain y1 where
        y1: "run_events throw eng ctx t q st (start_or st) 0 (state_events sd) y = (f, y1)" "x_eq x1 y1" by blast
      show ?thesis
        using Cons.prems(2) Some f y1 Cons.IH [OF y1(2)]
        unfolding run_quests.simps Let_def state_value_def [symmetric] st_def [symmetric] st [symmetric]
        by (cases f) auto
    qed
  qed simp
qed

abbreviation same_outcome where
  "same_outcome \<equiv> rel_option (rel_prod (=) (rel_prod rt_eq (=)))"

lemma leave_eq: "fst r = fst r' \<Longrightarrow> x_eq (snd r) (snd r') \<Longrightarrow> same_outcome (leave r) (leave r')"
  by (cases r; cases r'; cases "fst r") (auto simp: leave_def x_eq_def)

lemma enter_eq: "rt_eq a b \<Longrightarrow> x_eq (enter a g) (enter b g)"
  by (simp add: enter_def x_eq_def rt_eq_def)

lemma engine_run_eq:
  "rt_eq a b \<Longrightarrow> same_outcome (engine_run throw eng a t level map_index now_s items g)
     (engine_run throw eng b t level map_index now_s items g)"
  using coherent_quests [unfolded coherent_def, rule_format, OF enter_eq, of a b throw eng _ t "eng_quests eng" g]
  by (auto simp: engine_run_def Let_def rt_eq_def [of a b] intro!: leave_eq)

section \<open>Values are representable\<close>

locale dice_i64 =
  fixes throw :: "'g \<Rightarrow> int \<Rightarrow> int \<Rightarrow> int \<times> 'g"
  assumes throw_i64: "in_i64 (fst (throw g lo hi))"

definition ctx_ok :: "EvalCtx \<Rightarrow> bool" where
  "ctx_ok ctx \<longleftrightarrow> in_i64 (ctx_now_s ctx) \<and> (\<forall>v \<in> ran (ctx_items ctx). in_i64 v)
    \<and> (\<forall>v \<in> ran (ctx_captures ctx). in_i64 v)"

definition flags_ok :: "flag_map \<Rightarrow> bool" where
  "flags_ok fl \<longleftrightarrow> (\<forall>v \<in> ran fl. in_i64 v)"

fun no_div :: "Expr \<Rightarrow> bool" and no_div_val :: "Val \<Rightarrow> bool" where
  "no_div (EBetween a b c) \<longleftrightarrow> no_div a \<and> no_div b \<and> no_div c"
| "no_div (ECompare a oper b) \<longleftrightarrow> no_div a \<and> no_div b"
| "no_div (EAdd a b) \<longleftrightarrow> no_div a \<and> no_div b"
| "no_div (ESub a b) \<longleftrightarrow> no_div a \<and> no_div b"
| "no_div (EMul a b) \<longleftrightarrow> no_div a \<and> no_div b"
| "no_div (EDiv a b) \<longleftrightarrow> False"
| "no_div (EAnd a b) \<longleftrightarrow> no_div a \<and> no_div b"
| "no_div (EOr a b) \<longleftrightarrow> no_div a \<and> no_div b"
| "no_div (ENot a) \<longleftrightarrow> no_div a"
| "no_div (EValue v) \<longleftrightarrow> no_div_val v"
| "no_div (ECapture c) \<longleftrightarrow> True"
| "no_div (EFunc f es) \<longleftrightarrow> (\<forall>e \<in> set es. no_div e)"
| "no_div_val (VExpr e) \<longleftrightarrow> no_div e"
| "no_div_val _ \<longleftrightarrow> True"

lemma bool_int_i64: "in_i64 (bool_int b)"
  by (simp add: bool_int_def in_i64_def i64_min_def i64_max_def)

lemma trunc_div_abs: "\<bar>trunc_div x y\<bar> = \<bar>x\<bar> div \<bar>y\<bar>"
  by (cases "y = 0") (simp_all add: trunc_div_def Let_def pos_imp_zdiv_nonneg_iff)

lemma div_i64_ok:
  assumes "in_i64 x" and "div_i64 x y = QOk v"
  shows "in_i64 v"
proof -
  have v: "v = trunc_div x y" "y \<noteq> 0" and no: "\<not> (x = i64_min \<and> y = - 1)"
    using assms(2) by (simp_all add: div_i64_def split: if_splits)
  consider "y = 1" | "y = - 1" | "2 \<le> \<bar>y\<bar>" using v(2) by linarith
  then show ?thesis
  proof cases
    case 3
    have "\<bar>v\<bar> \<le> \<bar>x\<bar> div 2" unfolding v(1) trunc_div_abs by (rule zdiv_mono2) (use 3 in simp_all)
    moreover have "2 * (\<bar>x\<bar> div 2) \<le> \<bar>x\<bar>" by simp
    ultimately have "2 * \<bar>v\<bar> \<le> \<bar>x\<bar>" by linarith
    then show ?thesis using assms(1) unfolding in_i64_def i64_min_def i64_max_def by linarith
  qed (use assms(1) v no in \<open>auto simp: trunc_div_def Let_def in_i64_def i64_min_def i64_max_def\<close>)
qed

definition yields :: "('a \<Rightarrow> bool) \<Rightarrow> ('s \<Rightarrow> 'a qresult \<times> 's) \<Rightarrow> bool" where
  "yields Q m \<longleftrightarrow> (\<forall>s v. fst (m s) = QOk v \<longrightarrow> Q v)"

definition calm :: "('s \<Rightarrow> 'a qresult \<times> 's) \<Rightarrow> bool" where
  "calm m \<longleftrightarrow> (\<forall>s. fst (m s) \<noteq> QPanic)"

lemma yields_qbind: "yields Q m \<Longrightarrow> (\<And>a. Q a \<Longrightarrow> yields R (f a)) \<Longrightarrow> yields R (qbind m f)"
  unfolding yields_def qbind_def by (auto split: prod.splits qresult.splits) (metis fst_conv)

lemma calm_qbind: "calm m \<Longrightarrow> (\<And>a. calm (f a)) \<Longrightarrow> calm (qbind m f)"
  unfolding calm_def qbind_def by (auto split: prod.splits qresult.splits) (metis fst_conv)+

lemma yields_pure: "Q a \<Longrightarrow> yields Q (qret a)" "(\<And>v. r = QOk v \<Longrightarrow> Q v) \<Longrightarrow> yields Q (qlift r)"
  by (auto simp: yields_def qret_def qlift_def)

lemma calm_pure: "calm (qret a)" "r \<noteq> QPanic \<Longrightarrow> calm (qlift r)"
  by (auto simp: calm_def qret_def qlift_def)

lemma i64_words: "in_i64 (sint (w :: i32))" "in_i64 (uint (u :: u32))" "in_i64 0" "in_i64 1"
  using sint_ge [of w] sint_lt [of w] uint_lt2p [of u] uint_ge_0 [of u]
  by (simp_all add: in_i64_def i64_min_def i64_max_def del: uint_ge_0 unsigned_greater_eq)

lemma count_of_ok: "ctx_ok ctx \<Longrightarrow> count_of ctx v = QOk n \<Longrightarrow> in_i64 n"
  by (auto simp: count_of_def ctx_ok_def i64_words ranI split: option.splits)

lemma qf_get_ok: "flags_ok fl \<Longrightarrow> qf_get fl qn e = QOk n \<Longrightarrow> in_i64 n"
  by (auto simp: qf_get_def flag_value_def flags_ok_def i64_words ranI split: option.splits qresult.splits)

lemma capture_ok: "ctx_ok ctx \<Longrightarrow> ok_or er (ctx_captures ctx c) = QOk n \<Longrightarrow> in_i64 n"
  by (auto simp: ok_or_def ctx_ok_def ranI split: option.splits)

lemma now_ok: "ctx_ok ctx \<Longrightarrow> in_i64 (ctx_now_s ctx)"
  by (simp add: ctx_ok_def)

lemma yields_number: "(\<And>g lo hi. in_i64 (fst (throw g lo hi))) \<Longrightarrow> yields in_i64 (number throw lo hi)"
  unfolding yields_def number_def by (auto split: prod.splits) (metis fst_conv)

lemma calm_number: "calm (number throw lo hi)"
  by (simp add: calm_def number_def split: prod.splits)

lemma eval_yields:
  "(\<And>g lo hi. in_i64 (fst (throw g lo hi))) \<Longrightarrow> ctx_ok ctx \<Longrightarrow> flags_ok fl \<Longrightarrow> expr_ok e \<Longrightarrow>
   yields in_i64 (eval_expr throw ctx fl qn e)"
  by (induction throw ctx fl qn e rule: eval_expr.induct)
     (auto intro!: yields_pure yields_qbind yields_number in_i64_wrap bool_int_i64 i64_words now_ok
       dest: count_of_ok qf_get_ok capture_ok div_i64_ok split: list.splits FuncName.splits)

lemma pure_no_panic: "ok_or er p \<noteq> QPanic" "count_of ctx v \<noteq> QPanic"
  by (simp_all add: ok_or_def count_of_def split: option.splits)

lemma arg_name_no_panic: "arg_name e \<noteq> QPanic"
  by (cases e rule: arg_name.cases) simp_all

lemma eval_calm: "no_div e \<Longrightarrow> calm (eval_expr throw ctx fl qn e)"
  by (induction throw ctx fl qn e rule: eval_expr.induct)
     (auto intro!: calm_pure calm_qbind calm_number pure_no_panic
       simp: qf_get_def arg_name_no_panic split: list.splits FuncName.splits qresult.splits)

context dice_i64
begin

lemma eval_i64:
  "ctx_ok ctx \<Longrightarrow> flags_ok fl \<Longrightarrow> expr_ok e \<Longrightarrow>
   case fst (eval_expr throw ctx fl qn e g) of QOk v \<Rightarrow> in_i64 v | QErr er \<Rightarrow> True | QPanic \<Rightarrow> \<not> no_div e"
  using eval_yields [of throw ctx fl e qn, OF throw_i64] eval_calm [of e throw ctx fl qn]
  by (auto simp: yields_def calm_def split: qresult.splits)

end

end
