(* ===== verification/QuestWorld.thy ===== *)
theory QuestWorld
  imports QuestSim
begin

text \<open>
  Quests in the world and in the tables: the intents of the world
  (\<^verbatim>\<open>game_core/src/ecs/systems/quest.rs\<close>), the rows of \<^verbatim>\<open>player.quest\<close> and how a session writes
  and reads them (\<^verbatim>\<open>database/src/quest.rs\<close>, \<^verbatim>\<open>channel/quest.rs\<close>, \<^verbatim>\<open>channel/entry.rs\<close>), and the
  invariant of any mixture of entries, triggers and answers of any players.
\<close>

section \<open>The numbers of the world as \<open>i64\<close>\<close>

definition i32_or :: "int \<Rightarrow> int \<Rightarrow> int" where
  "i32_or d v = (if - (2 ^ 31) \<le> v \<and> v < 2 ^ 31 then v else d)"

definition world_throw :: "Rand throw" where
  "world_throw g lo hi = rand_throw g (i32_or (- (2 ^ 31)) lo) (i32_or (2 ^ 31 - 1) hi)"

interpretation world_dice: dice_i64 world_throw
proof
  fix g lo hi
  have "fst (rand_throw g a b) = sint (fst (roll (word_of_int a) (word_of_int b) g))" for a b
    by (simp add: rand_throw_def)
  then show "in_i64 (fst (world_throw g lo hi))" unfolding world_throw_def by (simp only: i64_words)
qed

section \<open>The intents\<close>

text \<open>
  \<open>qw_players\<close> is what the entity of a player says of level and map, \<open>qw_npcs\<close> the number of
  the mob behind a character on the map. Loading takes the result of the parser of the quest
  language.
\<close>

record QuestWorld =
  qw_engine :: "Engine option"
  qw_store :: "u32 \<rightharpoonup> QuestRuntime"
  qw_players :: "u32 \<rightharpoonup> i32 \<times> u32"
  qw_npcs :: "u32 \<rightharpoonup> int"
  qw_rand :: Rand

datatype QuestIntent =
    QLoad "QuestDef list option" "string \<rightharpoonup> string"
  | QInit u32 "QuestFlag list"
  | QTrigger u32 QuestTrigger "u32 \<rightharpoonup> int"
  | QNpcClick u32 u32 "u32 \<rightharpoonup> int"
  | QAnswer u32 u8
  | QInput u32 string
  | QConfirm u32 u8 u32
  | QButton u32 u32

datatype QuestEvent = QuestRan u32 QuestOutcome

definition run_quest :: "u32 \<Rightarrow> QuestTrigger \<Rightarrow> (u32 \<rightharpoonup> int) \<Rightarrow> u64 \<Rightarrow> int option \<Rightarrow> QuestWorld \<Rightarrow>
    (QuestOutcome option \<times> QuestWorld) option" where
  "run_quest vid t items now_ms ans w =
    (case qw_players w vid of
       None \<Rightarrow> Some (None, w)
     | Some (level, map_index) \<Rightarrow>
         (case qw_engine w of
            None \<Rightarrow> Some (None, w)
          | Some eng \<Rightarrow>
              (case qw_store w vid of
                 None \<Rightarrow> Some (None, w)
               | Some rt \<Rightarrow>
                   (let now_s = uint now_ms div 1000;
                        r = (case ans of
                               Some a \<Rightarrow> engine_answer world_throw eng rt a level map_index now_s items (qw_rand w)
                             | None \<Rightarrow> engine_run world_throw eng rt t level map_index now_s items (qw_rand w))
                    in case r of
                         None \<Rightarrow> None
                       | Some (out, rt', g) \<Rightarrow>
                           Some (Some out, w\<lparr>qw_store := (qw_store w)(vid \<mapsto> rt'), qw_rand := g\<rparr>)))))"

definition tell :: "u32 \<Rightarrow> (QuestOutcome option \<times> QuestWorld) option \<Rightarrow> (QuestEvent list \<times> QuestWorld) option" where
  "tell vid r =
    map_option (\<lambda>(o1, w). (case o1 of None \<Rightarrow> [] | Some out \<Rightarrow> [QuestRan vid out], w)) r"

definition says_something :: "QuestOutcome \<Rightarrow> bool" where
  "says_something out \<longleftrightarrow> out_script out \<noteq> None \<or> out_effects out \<noteq> [] \<or> out_dirty out \<noteq> [] \<or> out_suspended out"

definition quest_button :: "u32 \<Rightarrow> u32 \<Rightarrow> u64 \<Rightarrow> QuestWorld \<Rightarrow> (QuestEvent list \<times> QuestWorld) option" where
  "quest_button vid idx now_ms w =
    map_option
      (\<lambda>(o1, w'). (case o1 of
          None \<Rightarrow> []
        | Some out \<Rightarrow> if says_something out then [QuestRan vid out] else [], w'))
      (run_quest vid (if bit idx 31 then OnInfo else OnButton) Map.empty now_ms None w)"

definition quest_click :: "u32 \<Rightarrow> u32 \<Rightarrow> (u32 \<rightharpoonup> int) \<Rightarrow> u64 \<Rightarrow> QuestWorld \<Rightarrow> (QuestEvent list \<times> QuestWorld) option" where
  "quest_click vid npc items now_ms w =
    (case qw_npcs w npc of
       None \<Rightarrow> Some ([], w)
     | Some vnum \<Rightarrow> tell vid (run_quest vid (OnChat (word_of_int vnum)) items now_ms None w))"

fun handle_quest :: "QuestIntent \<Rightarrow> u64 \<Rightarrow> QuestWorld \<Rightarrow> (QuestEvent list \<times> QuestWorld) option" where
  "handle_quest (QLoad parsed texts) now_ms w =
     Some ([], w\<lparr>qw_engine := map_option (\<lambda>qs. \<lparr>eng_quests = qs, eng_texts = texts\<rparr>) parsed\<rparr>)"
| "handle_quest (QInit vid rows) now_ms w =
     Some ([], w\<lparr>qw_store := (qw_store w)(vid \<mapsto> runtime_load rows)\<rparr>)"
| "handle_quest (QTrigger vid t items) now_ms w = tell vid (run_quest vid t items now_ms None w)"
| "handle_quest (QNpcClick vid npc items) now_ms w = quest_click vid npc items now_ms w"
| "handle_quest (QAnswer vid ans) now_ms w =
     tell vid (run_quest vid OnLogin Map.empty now_ms (Some (uint ans)) w)"
| "handle_quest (QInput vid t) now_ms w = Some ([], w)"
| "handle_quest (QConfirm vid ans req) now_ms w = Some ([], w)"
| "handle_quest (QButton vid idx) now_ms w = quest_button vid idx now_ms w"

section \<open>The rows of \<open>player.quest\<close>\<close>

record QuestRow =
  dw_pid :: int
  sz_name :: string
  sz_state :: string
  l_value :: i32

definition row_key :: "QuestRow \<Rightarrow> int \<times> string \<times> string" where
  "row_key r = (dw_pid r, sz_name r, sz_state r)"

text \<open>
  The table is a list of rows with distinct keys; a value of 0 deletes the row of the key, any
  other inserts it or replaces its value.
\<close>

definition save_row :: "QuestRow \<Rightarrow> QuestRow list \<Rightarrow> QuestRow list" where
  "save_row r tbl =
    (let others = List.filter (\<lambda>s. row_key s \<noteq> row_key r) tbl
     in if l_value r = 0 then others else others @ [r])"

definition save_rows :: "QuestRow list \<Rightarrow> QuestRow list \<Rightarrow> QuestRow list" where
  "save_rows rows tbl = fold save_row rows tbl"

definition load_rows :: "int \<Rightarrow> QuestRow list \<Rightarrow> QuestRow list" where
  "load_rows pid tbl = List.filter (\<lambda>r. dw_pid r = pid) tbl"

text \<open>The cast \<^verbatim>\<open>d.value as i32\<close> keeps the low 32 bits.\<close>

definition dirty_row :: "int \<Rightarrow> QuestFlag \<Rightarrow> QuestRow" where
  "dirty_row pid d =
    \<lparr>dw_pid = pid, sz_name = qf_quest d, sz_state = qf_flag d, l_value = word_of_int (qf_value d)\<rparr>"

definition persist_flags :: "int \<Rightarrow> QuestFlag list \<Rightarrow> QuestRow list \<Rightarrow> QuestRow list" where
  "persist_flags pid dirty tbl = save_rows (List.map (dirty_row pid) dirty) tbl"

definition persisted_flags :: "QuestRow list \<Rightarrow> QuestFlag list" where
  "persisted_flags rows =
    List.map (\<lambda>r. \<lparr>qf_quest = sz_name r, qf_flag = sz_state r, qf_value = sint (l_value r)\<rparr>) rows"

section \<open>Sessions\<close>

text \<open>
  A player enters (the rows of the table initialise the runtime), an intent is handled and the
  rows of its events are saved, and the level or the map of a player changes. The last
  component logs every row that was saved.

  \<open>Breaks\<close> is an intent whose event the session does not get through: \<^verbatim>\<open>emit\<close> sends the dialogue and
  the effects first and \<^verbatim>\<open>QuestRepo::save\<close> writes row by row, without a transaction, so an error at any
  call leaves the first \<open>n\<close> rows saved, none when it comes before the save. It ends the session. The
  runtime the world still holds is then out of reach until the next entry replaces it; the model
  drops it at once. (An entry whose own query fails goes on with it, which is not modelled.)
\<close>

datatype SessionOp =
    Enter u32
  | Ask QuestIntent u64
  | Breaks QuestIntent u64 nat
  | Moved u32 "(i32 \<times> u32) option"

type_synonym quest_sessions = "QuestWorld \<times> QuestRow list \<times> QuestFlag list"

fun save_event :: "(u32 \<Rightarrow> int) \<Rightarrow> QuestEvent \<Rightarrow> QuestRow list \<Rightarrow> QuestRow list" where
  "save_event pid (QuestRan vid out) tbl = persist_flags (pid vid) (out_dirty out) tbl"

fun event_dirty :: "QuestEvent \<Rightarrow> QuestFlag list" where
  "event_dirty (QuestRan vid out) = out_dirty out"

fun break_off :: "(u32 \<Rightarrow> int) \<Rightarrow> nat \<Rightarrow> QuestEvent list \<times> QuestWorld \<Rightarrow> quest_sessions \<Rightarrow> quest_sessions" where
  "break_off pid n ([], w') (w, tbl, log) = (w', tbl, log)"
| "break_off pid n (QuestRan vid out # evs, w') (w, tbl, log) =
     (w'\<lparr>qw_store := (qw_store w')(vid := None)\<rparr>, persist_flags (pid vid) (take n (out_dirty out)) tbl,
      log @ take n (out_dirty out))"

fun session_step :: "(u32 \<Rightarrow> int) \<Rightarrow> SessionOp \<Rightarrow> quest_sessions \<Rightarrow> quest_sessions option" where
  "session_step pid (Enter vid) (w, tbl, log) =
     map_option (\<lambda>(evs, w'). (w', tbl, log))
       (handle_quest (QInit vid (persisted_flags (load_rows (pid vid) tbl))) 0 w)"
| "session_step pid (Ask i now_ms) (w, tbl, log) =
     map_option (\<lambda>(evs, w'). (w', fold (save_event pid) evs tbl, log @ concat (List.map event_dirty evs)))
       (handle_quest i now_ms w)"
| "session_step pid (Breaks i now_ms n) (w, tbl, log) =
     map_option (\<lambda>r. break_off pid n r (w, tbl, log)) (handle_quest i now_ms w)"
| "session_step pid (Moved vid p) (w, tbl, log) =
     Some (w\<lparr>qw_players := (qw_players w)(vid := p)\<rparr>, tbl, log)"

fun run_sessions :: "(u32 \<Rightarrow> int) \<Rightarrow> SessionOp list \<Rightarrow> quest_sessions \<Rightarrow> quest_sessions option" where
  "run_sessions pid [] s = Some s"
| "run_sessions pid (p # ps) s =
    (case session_step pid p s of None \<Rightarrow> None | Some s' \<Rightarrow> run_sessions pid ps s')"

section \<open>Reading the table\<close>

definition row_value :: "int \<Rightarrow> QuestRow list \<Rightarrow> string \<Rightarrow> string \<Rightarrow> int" where
  "row_value pid tbl qn n =
    (case List.find (\<lambda>r. row_key r = (pid, qn, n)) tbl of None \<Rightarrow> 0 | Some r \<Rightarrow> sint (l_value r))"

definition in_i32 :: "int \<Rightarrow> bool" where
  "in_i32 v \<longleftrightarrow> - (2 ^ 31) \<le> v \<and> v < 2 ^ 31"

abbreviation values_i32 :: "QuestFlag list \<Rightarrow> bool" where
  "values_i32 ds \<equiv> list_all (\<lambda>d. in_i32 (qf_value d)) ds"

lemma find_filter_other:
  "(\<And>x. P x \<Longrightarrow> Q x) \<Longrightarrow> List.find P (List.filter Q xs) = List.find P xs"
  by (induction xs) auto

lemma find_none_filter: "(\<And>x. P x \<Longrightarrow> \<not> Q x) \<Longrightarrow> List.find P (List.filter Q xs) = None"
  by (induction xs) auto

lemma find_append: "List.find P (xs @ ys) = (case List.find P xs of None \<Rightarrow> List.find P ys | Some x \<Rightarrow> Some x)"
  by (induction xs) auto

lemma row_value_save:
  "row_value pid (save_row r tbl) qn n =
    (if row_key r = (pid, qn, n) then sint (l_value r) else row_value pid tbl qn n)"
proof (cases "row_key r = (pid, qn, n)")
  case True
  then have "List.find (\<lambda>s. row_key s = (pid, qn, n)) (List.filter (\<lambda>s. row_key s \<noteq> row_key r) tbl) = None"
    by (intro find_none_filter) simp
  with True show ?thesis by (simp add: row_value_def save_row_def Let_def find_append)
next
  case False
  then have "List.find (\<lambda>s. row_key s = (pid, qn, n)) (List.filter (\<lambda>s. row_key s \<noteq> row_key r) tbl)
      = List.find (\<lambda>s. row_key s = (pid, qn, n)) tbl"
    by (intro find_filter_other) auto
  with False show ?thesis by (auto simp: row_value_def save_row_def Let_def find_append split: option.splits)
qed

lemma row_value_dirty:
  assumes "in_i32 (qf_value d)"
  shows "row_value pid (save_row (dirty_row pid' d) tbl) qn n =
    (if (pid', qf_quest d, qf_flag d) = (pid, qn, n) then qf_value d else row_value pid tbl qn n)"
  using assms sint_small [of "qf_value d"]
  by (auto simp: row_value_save row_key_def dirty_row_def in_i32_def)

lemma persist_append: "persist_flags pid (ds @ es) tbl = persist_flags pid es (persist_flags pid ds tbl)"
  by (simp add: persist_flags_def save_rows_def)

lemma persist_Nil [simp]: "persist_flags pid [] tbl = tbl"
  by (simp add: persist_flags_def save_rows_def)

lemma persist_one: "persist_flags pid [d] tbl = save_row (dirty_row pid d) tbl"
  by (simp add: persist_flags_def save_rows_def)

lemma persist_other: "pid \<noteq> pid' \<Longrightarrow> row_value pid (persist_flags pid' ds tbl) qn n = row_value pid tbl qn n"
  by (induction ds arbitrary: tbl)
     (simp_all add: persist_flags_def save_rows_def row_value_save dirty_row_def row_key_def)

lemma distinct_save: "distinct (List.map row_key tbl) \<Longrightarrow> distinct (List.map row_key (save_row r tbl))"
  by (auto simp: save_row_def Let_def distinct_map_filter)

lemma distinct_persist: "distinct (List.map row_key tbl) \<Longrightarrow> distinct (List.map row_key (persist_flags pid ds tbl))"
  by (induction ds arbitrary: tbl) (simp_all add: persist_flags_def save_rows_def distinct_save)

section \<open>What the table says of a runtime\<close>

text \<open>
  The runtime and the rows of its player read the same; a flag that carries the name of the
  state row of its quest does not occur.
\<close>

definition reads :: "int \<Rightarrow> QuestRow list \<Rightarrow> QuestRuntime \<Rightarrow> bool" where
  "reads pid tbl rt \<longleftrightarrow>
    (\<forall>qn n. n \<noteq> status_flag qn \<longrightarrow> flag_value (rt_flags rt) qn n = row_value pid tbl qn n)
    \<and> (\<forall>qn. int (state_value (rt_states rt) qn) = row_value pid tbl qn (status_flag qn))
    \<and> (\<forall>qn. rt_flags rt (qn, status_flag qn) = None)"

definition states_ok :: "Engine \<Rightarrow> QuestRuntime \<Rightarrow> bool" where
  "states_ok eng rt \<longleftrightarrow>
    (\<forall>q \<in> set (eng_quests eng). state_value (rt_states rt) (quest_name q) \<le> length (quest_states q))"

definition rt_ok :: "Engine \<Rightarrow> QuestRuntime \<Rightarrow> bool" where
  "rt_ok eng rt \<longleftrightarrow> states_ok eng rt \<and> (\<forall>s. rt_suspended rt = Some s \<longrightarrow> susp_ok eng s)"

text \<open>No quest writes a flag with the name of its state row.\<close>

definition clean :: "Engine \<Rightarrow> bool" where
  "clean eng \<longleftrightarrow> (\<forall>q \<in> set (eng_quests eng). status_flag (quest_name q) \<notin> quest_flags q)"

text \<open>What is written to a state row is a state of its quest.\<close>

definition row_targets :: "Engine \<Rightarrow> QuestFlag list \<Rightarrow> bool" where
  "row_targets eng ds \<longleftrightarrow>
    (\<forall>d \<in> set ds. qf_flag d = status_flag (qf_quest d) \<longrightarrow>
       (\<exists>q \<in> set (eng_quests eng). quest_name q = qf_quest d \<and> 0 \<le> qf_value d
          \<and> qf_value d \<le> int (length (quest_states q))))"

definition saved :: "Engine \<Rightarrow> int \<Rightarrow> QuestRow list \<Rightarrow> 'g exec \<Rightarrow> bool" where
  "saved eng pid tbl x \<longleftrightarrow> states_ok eng (x_rt x) \<and> rt_suspended (x_rt x) = None
    \<and> row_targets eng (out_dirty (x_out x))
    \<and> (values_i32 (out_dirty (x_out x)) \<longrightarrow> reads pid (persist_flags pid (out_dirty (x_out x)) tbl) (x_rt x))"

lemma quest_eq:
  assumes "engine_ok eng" and "q \<in> set (eng_quests eng)" and "q' \<in> set (eng_quests eng)"
    and "quest_name q = quest_name q'"
  shows "q = q'"
  using find_quest_self [OF assms(1,2)] find_quest_self [OF assms(1,3)] unfolding assms(4) by simp

lemma valid_target_in:
  assumes "q \<in> set (eng_quests eng)" and "valid_target eng q qn idx"
  shows "\<exists>tq \<in> set (eng_quests eng). quest_name tq = qn \<and> idx \<le> length (quest_states tq)"
  using assms find_quest_name [of eng qn] by (auto simp: valid_target_def)

lemma reads_state:
  assumes "in_i32 (int idx)" and "reads pid T rt"
  shows "reads pid (save_row (dirty_row pid \<lparr>qf_quest = qn, qf_flag = status_flag qn, qf_value = int idx\<rparr>) T)
    (rt\<lparr>rt_states := (rt_states rt)(qn \<mapsto> idx)\<rparr>)"
proof -
  have v: "row_value pid (save_row (dirty_row pid \<lparr>qf_quest = qn, qf_flag = status_flag qn, qf_value = int idx\<rparr>) T) qn' n
      = (if qn' = qn \<and> n = status_flag qn then int idx else row_value pid T qn' n)" for qn' n
    using assms(1) by (auto simp: row_value_dirty)
  show ?thesis
    using assms(2) unfolding reads_def v by (auto simp: state_value_def)
qed

lemma reads_flag:
  assumes "in_i32 v" and "n \<noteq> status_flag qn" and "reads pid T rt"
  shows "reads pid (save_row (dirty_row pid \<lparr>qf_quest = qn, qf_flag = n, qf_value = v\<rparr>) T)
    (rt\<lparr>rt_flags := (rt_flags rt)((qn, n) \<mapsto> v)\<rparr>)"
proof -
  have v: "row_value pid (save_row (dirty_row pid \<lparr>qf_quest = qn, qf_flag = n, qf_value = v\<rparr>) T) qn' n'
      = (if qn' = qn \<and> n' = n then v else row_value pid T qn' n')" for qn' n'
    using assms(1) by (auto simp: row_value_dirty)
  show ?thesis
    using assms(2,3) unfolding reads_def v by (auto simp: flag_value_def)
qed

lemma saved_state:
  assumes "engine_ok eng" and "q \<in> set (eng_quests eng)" and "valid_target eng q qn idx" and "saved eng pid tbl x"
  shows "saved eng pid tbl (put_state qn idx x)"
proof -
  obtain tq where tq: "tq \<in> set (eng_quests eng)" "quest_name tq = qn" "idx \<le> length (quest_states tq)"
    using valid_target_in [OF assms(2,3)] by blast
  have "states_ok eng ((x_rt x)\<lparr>rt_states := (rt_states (x_rt x))(qn \<mapsto> idx)\<rparr>)"
    unfolding states_ok_def
  proof
    fix q' assume q': "q' \<in> set (eng_quests eng)"
    show "state_value (rt_states ((x_rt x)\<lparr>rt_states := (rt_states (x_rt x))(qn \<mapsto> idx)\<rparr>)) (quest_name q')
        \<le> length (quest_states q')"
    proof (cases "quest_name q' = qn")
      case True
      with quest_eq [OF assms(1) q' tq(1)] tq show ?thesis by (simp add: state_value_def)
    next
      case False
      with assms(4) q' show ?thesis by (simp add: saved_def states_ok_def state_value_def)
    qed
  qed
  moreover have "row_targets eng (out_dirty (x_out (put_state qn idx x)))"
    using assms(4) tq by (auto simp: saved_def row_targets_def put_state_def push_dirty_def)
  ultimately show ?thesis using assms(4)
    by (simp add: saved_def put_state_def push_dirty_def persist_append persist_one reads_state)
qed

lemma saved_flag:
  assumes "n \<noteq> status_flag qn" and "saved eng pid tbl x"
  shows "saved eng pid tbl (put_flag qn n v x)"
  using assms
  by (auto simp: saved_def row_targets_def put_flag_def push_dirty_def persist_append persist_one reads_flag states_ok_def)

lemma saved_other:
  "saved eng pid tbl x \<Longrightarrow> saved eng pid tbl (push_script t x)"
  "saved eng pid tbl x \<Longrightarrow> saved eng pid tbl (push_effect e x)"
  "saved eng pid tbl x \<Longrightarrow> saved eng pid tbl (x\<lparr>x_rng := g\<rparr>)"
  "saved eng pid tbl x \<Longrightarrow> saved eng pid tbl (x\<lparr>x_script := t\<rparr>)"
  "saved eng pid tbl x \<Longrightarrow> saved eng pid tbl (put_script x)"
  by (simp_all add: saved_def push_script_def push_effect_def put_script_def)

lemma saved_invariant:
  assumes "engine_ok eng" and "clean eng"
  shows "run_invariant (saved eng pid tbl) eng"
proof (rule run_invariant.intro)
  fix q assume q: "q \<in> set (eng_quests eng)"
  with assms(2) have "n \<in> quest_flags q \<Longrightarrow> n \<noteq> status_flag (quest_name q)" for n
    by (auto simp: clean_def)
  then show "exec_invariant (saved eng pid tbl) eng q (quest_flags q)"
    by unfold_locales (auto intro: saved_other saved_flag saved_state [OF assms(1) q])
qed (use assms(1) in \<open>auto intro: saved_other\<close>)

text \<open>A run or an answer leaves a runtime the saved rows read as.\<close>

lemma post_saved:
  assumes "loop_post (saved eng pid tbl) eng r" and "leave r = Some (out, rt, g)"
  shows "rt_ok eng rt \<and> row_targets eng (out_dirty out)
    \<and> (values_i32 (out_dirty out) \<longrightarrow> reads pid (persist_flags pid (out_dirty out) tbl) rt)"
proof (cases r)
  case (Pair f x)
  show ?thesis
  proof (cases f)
    case Going
    with Pair assms show ?thesis by (auto simp: leave_def saved_def rt_ok_def)
  next
    case Suspended
    with Pair assms show ?thesis
      by (auto simp: leave_def loop_post_def saved_def rt_ok_def suspend_at_def Let_def put_script_def
          states_ok_def reads_def)
  next
    case Crashed
    with Pair assms(2) show ?thesis by (simp add: leave_def)
  qed
qed

lemma saved_enter: "states_ok eng rt \<Longrightarrow> rt_suspended rt = None \<Longrightarrow> reads pid tbl rt \<Longrightarrow> saved eng pid tbl (enter rt g)"
  by (simp add: saved_def row_targets_def enter_def outcome_default_def)

lemma run_saved:
  assumes "engine_ok eng" and "clean eng" and "rt_ok eng rt" and "reads pid tbl rt"
    and "engine_run throw eng rt t level map_index now_s items g = Some (out, rt', g')"
  shows "rt_ok eng rt' \<and> row_targets eng (out_dirty out)
    \<and> (values_i32 (out_dirty out) \<longrightarrow> reads pid (persist_flags pid (out_dirty out) tbl) rt')"
proof (cases "rt_suspended rt")
  case None
  then have "saved eng pid tbl (enter rt g)" using assms(3,4) by (simp add: saved_enter rt_ok_def)
  note post = run_invariant.run_quests_post [OF saved_invariant [OF assms(1,2)] order_refl this]
  show ?thesis using assms(5) None by (simp add: engine_run_def Let_def) (erule post_saved [OF post])
next
  case (Some s)
  with assms(3-5) show ?thesis by (auto simp: engine_run_def outcome_default_def row_targets_def)
qed

lemma answer_saved:
  assumes "engine_ok eng" and "clean eng" and "rt_ok eng rt" and "reads pid tbl rt"
    and "engine_answer throw eng rt ans level map_index now_s items g = Some (out, rt', g')"
  shows "rt_ok eng rt' \<and> row_targets eng (out_dirty out)
    \<and> (values_i32 (out_dirty out) \<longrightarrow> reads pid (persist_flags pid (out_dirty out) tbl) rt')"
proof (cases "rt_suspended rt")
  case None
  with assms(3-5) show ?thesis by (auto simp: engine_answer_def outcome_default_def row_targets_def)
next
  case (Some s)
  with assms(3) have s: "susp_ok eng s" by (simp add: rt_ok_def)
  then obtain q body where q: "find_quest eng (susp_quest s) = Some q" "resume_body q s = Some body"
    by (auto simp: susp_ok_def)
  have "saved eng pid tbl (enter (rt\<lparr>rt_suspended := None\<rparr>) g)"
    using assms(3,4) by (intro saved_enter) (simp_all add: rt_ok_def states_ok_def reads_def)
  note post = run_invariant.answer_post [OF saved_invariant [OF assms(1,2)] s q this]
  show ?thesis using assms(5) Some q by (simp add: engine_answer_def Let_def) (erule post_saved [OF post])
qed

section \<open>Loading\<close>

definition loaded :: "int \<Rightarrow> QuestRow list \<Rightarrow> QuestRuntime \<Rightarrow> bool" where
  "loaded pid rows rt \<longleftrightarrow>
    (\<forall>qn. state_value (rt_states rt) qn = nat (row_value pid rows qn (status_flag qn)))
    \<and> (\<forall>qn n. n \<noteq> status_flag qn \<longrightarrow> flag_value (rt_flags rt) qn n = row_value pid rows qn n)
    \<and> (\<forall>qn. rt_flags rt (qn, status_flag qn) = None) \<and> rt_suspended rt = None"

lemma row_value_snoc:
  assumes "distinct (List.map row_key (rows @ [r]))"
  shows "row_value pid (rows @ [r]) qn n
      = (if row_key r = (pid, qn, n) then sint (l_value r) else row_value pid rows qn n)"
proof (cases "row_key r = (pid, qn, n)")
  case True
  with assms have "List.find (\<lambda>s. row_key s = (pid, qn, n)) rows = None"
    by (auto simp: find_None_iff image_iff)
  with True show ?thesis by (simp add: row_value_def find_append)
qed (auto simp: row_value_def find_append split: option.splits)

lemma load_loaded:
  "distinct (List.map row_key rows) \<Longrightarrow> \<forall>r \<in> set rows. dw_pid r = pid \<Longrightarrow>
   loaded pid rows (runtime_load (persisted_flags rows))"
proof (induction rows rule: rev_induct)
  case Nil
  show ?case
    by (simp add: loaded_def runtime_load_def persisted_flags_def runtime_default_def state_value_def
        flag_value_def row_value_def)
next
  case (snoc r rows)
  have step: "runtime_load (persisted_flags (rows @ [r])) =
    (let rt = runtime_load (persisted_flags rows)
     in if sz_state r = status_flag (sz_name r)
        then rt\<lparr>rt_states := (rt_states rt)(sz_name r \<mapsto> nat (sint (l_value r)))\<rparr>
        else rt\<lparr>rt_flags := (rt_flags rt)((sz_name r, sz_state r) \<mapsto> sint (l_value r))\<rparr>)"
    by (simp add: runtime_load_def persisted_flags_def Let_def)
  from snoc have "loaded pid rows (runtime_load (persisted_flags rows))" "dw_pid r = pid" by simp_all
  with row_value_snoc [OF snoc.prems(1)] show ?case
    by (auto simp: step Let_def loaded_def row_key_def state_value_def flag_value_def)
qed

lemma row_value_load: "row_value pid (load_rows pid tbl) qn n = row_value pid tbl qn n"
proof -
  have "List.find (\<lambda>r. row_key r = (pid, qn, n)) (load_rows pid tbl)
      = List.find (\<lambda>r. row_key r = (pid, qn, n)) tbl"
    unfolding load_rows_def by (rule find_filter_other) (simp add: row_key_def)
  then show ?thesis by (simp add: row_value_def)
qed

lemma entry_loaded:
  assumes "distinct (List.map row_key tbl)"
  shows "loaded pid tbl (runtime_load (persisted_flags (load_rows pid tbl)))"
proof -
  have "distinct (List.map row_key (load_rows pid tbl))"
    using assms unfolding load_rows_def by (rule distinct_map_filter)
  moreover have "\<forall>r \<in> set (load_rows pid tbl). dw_pid r = pid" by (simp add: load_rows_def)
  ultimately have "loaded pid (load_rows pid tbl) (runtime_load (persisted_flags (load_rows pid tbl)))"
    by (rule load_loaded)
  then show ?thesis unfolding loaded_def row_value_load .
qed

section \<open>The sessions keep table and runtimes together\<close>

definition rows_ok :: "Engine \<Rightarrow> int \<Rightarrow> QuestRow list \<Rightarrow> bool" where
  "rows_ok eng pid tbl \<longleftrightarrow> (\<forall>qn. 0 \<le> row_value pid tbl qn (status_flag qn))
    \<and> (\<forall>q \<in> set (eng_quests eng).
        row_value pid tbl (quest_name q) (status_flag (quest_name q)) \<le> int (length (quest_states q)))"

definition sound :: "Engine \<Rightarrow> (u32 \<Rightarrow> int) \<Rightarrow> QuestWorld \<Rightarrow> QuestRow list \<Rightarrow> bool" where
  "sound eng pid w tbl \<longleftrightarrow> qw_engine w = Some eng \<and> distinct (List.map row_key tbl)
    \<and> (\<forall>vid. rows_ok eng (pid vid) tbl)
    \<and> (\<forall>vid rt. qw_store w vid = Some rt \<longrightarrow> rt_ok eng rt \<and> reads (pid vid) tbl rt)"

lemma reads_rows_ok: "reads pid tbl rt \<Longrightarrow> states_ok eng rt \<Longrightarrow> rows_ok eng pid tbl"
  unfolding rows_ok_def reads_def states_ok_def by (metis of_nat_0_le_iff of_nat_le_iff)

lemma loaded_reads: "loaded pid tbl rt \<Longrightarrow> rows_ok eng pid tbl \<Longrightarrow> reads pid tbl rt \<and> rt_ok eng rt"
  by (auto simp: loaded_def rows_ok_def reads_def rt_ok_def states_ok_def nat_le_iff)

lemma sound_enter:
  assumes "sound eng pid w tbl"
  shows "sound eng pid (w\<lparr>qw_store := (qw_store w)(vid \<mapsto>
    runtime_load (persisted_flags (load_rows (pid vid) tbl)))\<rparr>) tbl"
  using assms loaded_reads [OF entry_loaded] by (auto simp: sound_def)

lemma run_quest_sound:
  assumes "engine_ok eng" and "clean eng" and "sound eng pid w tbl"
    and "run_quest vid t items now_ms ans w = Some (o1, w')"
  shows "case o1 of
      None \<Rightarrow> w' = w
    | Some out \<Rightarrow> \<exists>rt g. w' = w\<lparr>qw_store := (qw_store w)(vid \<mapsto> rt), qw_rand := g\<rparr> \<and> rt_ok eng rt
        \<and> row_targets eng (out_dirty out)
        \<and> (values_i32 (out_dirty out) \<longrightarrow> reads (pid vid) (persist_flags (pid vid) (out_dirty out) tbl) rt)"
proof -
  have eng: "qw_engine w = Some eng" using assms(3) by (simp add: sound_def)
  show ?thesis
  proof (cases "qw_players w vid = None \<or> qw_store w vid = None")
    case True
    with assms(4) eng show ?thesis by (auto simp: run_quest_def split: option.splits prod.splits)
  next
    case False
    then obtain level map_index rt where p: "qw_players w vid = Some (level, map_index)" "qw_store w vid = Some rt" by auto
    with assms(3) have rt: "rt_ok eng rt" "reads (pid vid) tbl rt" by (simp_all add: sound_def)
    note run = run_saved [OF assms(1,2) rt] and ans = answer_saved [OF assms(1,2) rt]
    from assms(4) p eng show ?thesis
      by (cases ans)
         (auto simp: run_quest_def Let_def split: option.split_asm prod.split_asm dest: run ans intro!: exI)
  qed
qed

text \<open>Saving the rows of one player.\<close>

lemma sound_save:
  assumes "sound eng pid w tbl" and "inj pid" and "rt_ok eng rt"
    and "reads (pid vid) (persist_flags (pid vid) ds tbl) rt"
  shows "sound eng pid (w\<lparr>qw_store := (qw_store w)(vid \<mapsto> rt), qw_rand := g\<rparr>) (persist_flags (pid vid) ds tbl)"
proof -
  have same: "row_value (pid v) (persist_flags (pid vid) ds tbl) qn n = row_value (pid v) tbl qn n" if "v \<noteq> vid" for v qn n
    using that assms(2) by (intro persist_other) (simp add: inj_eq)
  have "rows_ok eng (pid v) (persist_flags (pid vid) ds tbl)" for v
    using assms(1,3,4) same [of v] reads_rows_ok [OF assms(4)]
    by (cases "v = vid") (auto simp: sound_def rows_ok_def rt_ok_def)
  moreover have "rt_ok eng r \<and> reads (pid v) (persist_flags (pid vid) ds tbl) r"
    if "((qw_store w)(vid \<mapsto> rt)) v = Some r" for v r
    using that assms(1,3,4) same [of v] by (cases "v = vid") (auto simp: sound_def reads_def)
  ultimately show ?thesis using assms(1) by (simp add: sound_def distinct_persist)
qed

text \<open>A save that stops after any of its rows.\<close>

lemma row_targets_take: "row_targets eng ds \<Longrightarrow> row_targets eng (take n ds)"
  by (auto simp: row_targets_def dest: in_set_takeD)

lemma rows_persist:
  assumes "engine_ok eng"
  shows "rows_ok eng pid tbl \<Longrightarrow> row_targets eng ds \<Longrightarrow> values_i32 ds \<Longrightarrow> rows_ok eng pid (persist_flags pid ds tbl)"
proof (induction ds arbitrary: tbl)
  case (Cons d ds)
  have v: "row_value pid (save_row (dirty_row pid d) tbl) qn n =
      (if (qf_quest d, qf_flag d) = (qn, n) then qf_value d else row_value pid tbl qn n)" for qn n
    using Cons.prems(3) by (auto simp: row_value_dirty)
  have "rows_ok eng pid (save_row (dirty_row pid d) tbl)"
    using Cons.prems(1,2) quest_eq [OF assms] unfolding rows_ok_def v
    by (fastforce simp: row_targets_def)
  with Cons.IH [of "save_row (dirty_row pid d) tbl"] Cons.prems show ?case
    by (simp add: row_targets_def persist_append [of pid "[d]" ds, simplified] persist_one)
qed simp

lemma sound_break:
  assumes "sound eng pid w tbl" and "inj pid" and "engine_ok eng" and "row_targets eng ds" and "values_i32 ds"
  shows "sound eng pid (w\<lparr>qw_rand := g, qw_store := (qw_store w)(vid := None)\<rparr>) (persist_flags (pid vid) ds tbl)"
proof -
  have same: "row_value (pid v) (persist_flags (pid vid) ds tbl) qn n = row_value (pid v) tbl qn n" if "v \<noteq> vid" for v qn n
    using that assms(2) by (intro persist_other) (simp add: inj_eq)
  have "rows_ok eng (pid v) (persist_flags (pid vid) ds tbl)" for v
    using assms(1,4,5) same [of v] rows_persist [OF assms(3), of "pid vid" tbl ds]
    by (cases "v = vid") (auto simp: sound_def rows_ok_def)
  moreover have "rt_ok eng r \<and> reads (pid v) (persist_flags (pid vid) ds tbl) r"
    if "((qw_store w)(vid := None)) v = Some r" for v r
    using that assms(1) same [of v] by (cases "v = vid") (auto simp: sound_def reads_def)
  ultimately show ?thesis using assms(1) by (simp add: sound_def distinct_persist)
qed

text \<open>The table of a server is loaded once, before the players enter; the rows come with \<open>Enter\<close>.\<close>

fun intent_allowed :: "QuestIntent \<Rightarrow> bool" where
  "intent_allowed (QLoad qs texts) \<longleftrightarrow> False"
| "intent_allowed (QInit vid rows) \<longleftrightarrow> False"
| "intent_allowed _ \<longleftrightarrow> True"

fun op_allowed :: "SessionOp \<Rightarrow> bool" where
  "op_allowed (Ask i now_ms) \<longleftrightarrow> intent_allowed i"
| "op_allowed (Breaks i now_ms n) \<longleftrightarrow> intent_allowed i"
| "op_allowed _ \<longleftrightarrow> True"

text \<open>What an intent does: nothing that is to be saved, or a run of one player.\<close>

definition intent_result :: "Engine \<Rightarrow> (u32 \<Rightarrow> int) \<Rightarrow> QuestWorld \<Rightarrow> QuestRow list \<Rightarrow> QuestEvent list \<Rightarrow> QuestWorld \<Rightarrow> bool" where
  "intent_result eng pid w tbl evs w' \<longleftrightarrow> evs = [] \<and> sound eng pid w' tbl
     \<or> (\<exists>vid out rt g. evs = [QuestRan vid out] \<and> w' = w\<lparr>qw_store := (qw_store w)(vid \<mapsto> rt), qw_rand := g\<rparr>
          \<and> rt_ok eng rt \<and> row_targets eng (out_dirty out)
          \<and> (values_i32 (out_dirty out) \<longrightarrow> reads (pid vid) (persist_flags (pid vid) (out_dirty out) tbl) rt))"

lemma ran_handled:
  assumes "engine_ok eng" and "clean eng" and "sound eng pid w tbl" and "inj pid"
    and "run_quest vid t items now_ms ans w = Some (o1, w')"
    and "evs = (case o1 of None \<Rightarrow> [] | Some out \<Rightarrow> [QuestRan vid out])
       \<or> (evs = [] \<and> (\<exists>out. o1 = Some out \<and> out_dirty out = []))"
  shows "intent_result eng pid w tbl evs w'"
proof (cases o1)
  case None
  with run_quest_sound [OF assms(1-3,5)] assms(3,6) show ?thesis by (auto simp: intent_result_def)
next
  case (Some out)
  with run_quest_sound [OF assms(1-3,5)] obtain rt g where
    w': "w' = w\<lparr>qw_store := (qw_store w)(vid \<mapsto> rt), qw_rand := g\<rparr>" and rt: "rt_ok eng rt" "row_targets eng (out_dirty out)"
    and r: "values_i32 (out_dirty out) \<longrightarrow> reads (pid vid) (persist_flags (pid vid) (out_dirty out) tbl) rt"
    by auto
  show ?thesis
  proof (cases "evs = [QuestRan vid out]")
    case True
    with w' rt r show ?thesis by (auto simp: intent_result_def)
  next
    case False
    with assms(6) Some have "evs = []" "out_dirty out = []" by auto
    with sound_save [OF assms(3,4) rt(1), of vid "[]" g] w' r show ?thesis by (simp add: intent_result_def)
  qed
qed

lemma tell_Some:
  "tell vid r = Some (evs, w') \<longleftrightarrow>
    (\<exists>o1. r = Some (o1, w') \<and> evs = (case o1 of None \<Rightarrow> [] | Some out \<Rightarrow> [QuestRan vid out]))"
  by (auto simp: tell_def)

lemma intent_handled:
  assumes "engine_ok eng" and "clean eng" and "sound eng pid w tbl" and "inj pid" and "intent_allowed i"
    and "handle_quest i now_ms w = Some (evs, w')"
  shows "intent_result eng pid w tbl evs w'"
proof (cases i)
  case (QTrigger vid t items)
  with assms(6) show ?thesis by (auto simp: tell_Some intro: ran_handled [OF assms(1-4)])
next
  case (QNpcClick vid npc items)
  show ?thesis
  proof (cases "qw_npcs w npc")
    case None
    with QNpcClick assms(3,6) show ?thesis by (simp add: quest_click_def intent_result_def)
  next
    case (Some vnum)
    with QNpcClick assms(6) show ?thesis
      by (auto simp: quest_click_def tell_Some intro: ran_handled [OF assms(1-4)])
  qed
next
  case (QAnswer vid a)
  with assms(6) show ?thesis by (auto simp: tell_Some intro: ran_handled [OF assms(1-4)])
next
  case (QButton vid idx)
  with assms(6) obtain o1 where o1: "run_quest vid (if bit idx 31 then OnInfo else OnButton) Map.empty now_ms None w = Some (o1, w')"
      "evs = (case o1 of None \<Rightarrow> [] | Some out \<Rightarrow> if says_something out then [QuestRan vid out] else [])"
    by (auto simp: quest_button_def)
  show ?thesis
    by (rule ran_handled [OF assms(1-4) o1(1)]) (use o1(2) in \<open>auto simp: says_something_def split: option.splits\<close>)
qed (use assms(3,5,6) in \<open>auto simp: intent_result_def\<close>)

lemma step_sound:
  assumes "engine_ok eng" and "clean eng" and "sound eng pid w tbl" and "inj pid" and "op_allowed p"
    and "session_step pid p (w, tbl, log) = Some (w', tbl', log')" and "values_i32 log'"
  shows "sound eng pid w' tbl'"
proof (cases p)
  case (Enter vid)
  with assms(6) sound_enter [OF assms(3), of vid] show ?thesis by auto
next
  case (Moved vid q)
  with assms(3,6) show ?thesis by (auto simp: sound_def)
next
  case (Ask i now_ms)
  with assms(6) obtain evs where evs: "handle_quest i now_ms w = Some (evs, w')"
      "tbl' = fold (save_event pid) evs tbl" "log' = log @ concat (List.map event_dirty evs)" by auto
  have "intent_result eng pid w tbl evs w'" using intent_handled [OF assms(1-4) _ evs(1)] assms(5) Ask by simp
  with evs(2,3) assms(7) sound_save [OF assms(3,4)] show ?thesis by (auto simp: intent_result_def)
next
  case (Breaks i now_ms n)
  with assms(6) obtain evs w1 where evs: "handle_quest i now_ms w = Some (evs, w1)"
      "break_off pid n (evs, w1) (w, tbl, log) = (w', tbl', log')" by auto
  have "intent_result eng pid w tbl evs w1" using intent_handled [OF assms(1-4) _ evs(1)] assms(5) Breaks by simp
  with evs(2) assms(7) sound_break [OF assms(3,4,1) row_targets_take] show ?thesis by (auto simp: intent_result_def)
qed

lemma break_log: "break_off pid n r (w, tbl, log) = (w', tbl', log') \<Longrightarrow> \<exists>ds. log' = log @ ds"
  by (cases "(pid, n, r, (w, tbl, log))" rule: break_off.cases) auto

lemma step_log: "session_step pid p (w, tbl, log) = Some (w', tbl', log') \<Longrightarrow> \<exists>ds. log' = log @ ds"
  by (cases p) (auto dest: break_log)

lemma sessions_log: "run_sessions pid ops (w, tbl, log) = Some (w', tbl', log') \<Longrightarrow> \<exists>ds. log' = log @ ds"
proof (induction ops arbitrary: w tbl log)
  case (Cons p ps)
  then obtain w1 tbl1 log1 where s: "session_step pid p (w, tbl, log) = Some (w1, tbl1, log1)"
      "run_sessions pid ps (w1, tbl1, log1) = Some (w', tbl', log')"
    by (auto split: option.splits)
  with Cons.IH [OF s(2)] step_log [OF s(1)] show ?case by auto
qed simp

lemma sessions_sound:
  "run_sessions pid ops (w, tbl, log) = Some (w', tbl', log') \<Longrightarrow> engine_ok eng \<Longrightarrow> clean eng \<Longrightarrow> inj pid \<Longrightarrow>
   sound eng pid w tbl \<Longrightarrow> list_all op_allowed ops \<Longrightarrow> values_i32 log' \<Longrightarrow> sound eng pid w' tbl'"
proof (induction ops arbitrary: w tbl log)
  case (Cons p ps)
  from Cons.prems(1) obtain w1 tbl1 log1 where s: "session_step pid p (w, tbl, log) = Some (w1, tbl1, log1)"
      "run_sessions pid ps (w1, tbl1, log1) = Some (w', tbl', log')"
    by (auto split: option.splits)
  have "values_i32 log1" using sessions_log [OF s(2)] Cons.prems(7) by auto
  with step_sound [OF Cons.prems(2,3,5,4) _ s(1)] Cons.prems(6) have "sound eng pid w1 tbl1" by simp
  with Cons.IH [OF s(2)] Cons.prems show ?case by simp
qed simp

lemma sound_start:
  "qw_engine w = Some eng \<Longrightarrow> qw_store w = Map.empty \<Longrightarrow> sound eng pid w []"
  by (simp add: sound_def rows_ok_def row_value_def)

lemma runtime_same:
  "reads pid tbl a \<Longrightarrow> reads pid tbl b \<Longrightarrow> rt_suspended a = rt_suspended b \<Longrightarrow> rt_eq a b"
proof -
  assume r: "reads pid tbl a" "reads pid tbl b" and s: "rt_suspended a = rt_suspended b"
  have "flag_value (rt_flags a) qn n = flag_value (rt_flags b) qn n" for qn n
    using r by (cases "n = status_flag qn") (simp_all add: reads_def flag_value_def)
  moreover have "state_value (rt_states a) qn = state_value (rt_states b) qn" for qn
    using r by (metis reads_def of_nat_eq_iff)
  ultimately show "rt_eq a b" using s by (simp add: rt_eq_def flags_eq_def)
qed

lemma trigger_same:
  assumes "rt_eq a b"
  shows "map_option fst (handle_quest (QTrigger vid t items) now_ms (w\<lparr>qw_store := (qw_store w)(vid \<mapsto> a)\<rparr>))
    = map_option fst (handle_quest (QTrigger vid t items) now_ms (w\<lparr>qw_store := (qw_store w)(vid \<mapsto> b)\<rparr>))"
proof (cases "qw_players w vid = None \<or> qw_engine w = None")
  case True
  then show ?thesis by (auto simp: run_quest_def tell_def split: option.splits prod.splits)
next
  case False
  then obtain level map_index eng where p: "qw_players w vid = Some (level, map_index)" "qw_engine w = Some eng" by auto
  have "rel_option (rel_prod (=) (rel_prod rt_eq (=)))
      (engine_run world_throw eng a t level map_index (uint now_ms div 1000) items (qw_rand w))
      (engine_run world_throw eng b t level map_index (uint now_ms div 1000) items (qw_rand w))"
    by (rule engine_run_eq [OF assms])
  then show ?thesis
    by (cases rule: option.rel_cases) (use p in \<open>auto simp: run_quest_def tell_def\<close>)
qed

section \<open>A conversation, evaluated\<close>

definition sample_quest :: QuestDef where
  "sample_quest =
    \<lparr>quest_name = ''hello'',
     quest_states =
       [\<lparr>state_name = ''start'',
         state_events =
           [\<lparr>ev_triggers = [\<lparr>trigger_kind = KChat (TargetNum 20011)\<rparr>], ev_condition = None,
             ev_body =
               [SAction \<lparr>action_name = Select, action_args = [VKey ''yes'', VKey ''no'']\<rparr> (Some ''choice''),
                SBranch (Some (ECompare (ECapture ''choice'') CmpEq (EValue (VNum 1))))
                  [SAction \<lparr>action_name = SetQf, action_args = [VStr ''seen'', VNum 7]\<rparr> None,
                   SAction \<lparr>action_name = SetState, action_args = [VStr ''met'']\<rparr> None]]\<rparr>]\<rparr>,
        \<lparr>state_name = ''met'', state_events = []\<rparr>]\<rparr>"

definition sample_world :: QuestWorld where
  "sample_world =
    \<lparr>qw_engine = Some \<lparr>eng_quests = [sample_quest], eng_texts = Map.empty\<rparr>, qw_store = Map.empty,
     qw_players = [2 \<mapsto> (5, 1)], qw_npcs = [9 \<mapsto> 20011], qw_rand = Rand_new 42\<rparr>"

definition sample_ops :: "SessionOp list" where
  "sample_ops = [Enter 2, Ask (QNpcClick 2 9 Map.empty) 1000, Ask (QAnswer 2 1) 2000]"

definition sample_runtime :: QuestRuntime where
  "sample_runtime =
    \<lparr>rt_states = [''hello'' \<mapsto> 2], rt_flags = [(''hello'', ''seen'') \<mapsto> 7], rt_suspended = None, rt_timers = []\<rparr>"

definition sample_after :: QuestWorld where
  "sample_after = sample_world\<lparr>qw_store := [2 \<mapsto> sample_runtime]\<rparr>"

definition sample_rows :: "QuestRow list" where
  "sample_rows =
    [\<lparr>dw_pid = 2, sz_name = ''hello'', sz_state = ''seen'', l_value = 7\<rparr>,
     \<lparr>dw_pid = 2, sz_name = ''hello'', sz_state = ''hello.__status'', l_value = 2\<rparr>]"

definition sample_log :: "QuestFlag list" where
  "sample_log =
    [\<lparr>qf_quest = ''hello'', qf_flag = ''hello.__status'', qf_value = 1\<rparr>,
     \<lparr>qf_quest = ''hello'', qf_flag = ''seen'', qf_value = 7\<rparr>,
     \<lparr>qf_quest = ''hello'', qf_flag = ''hello.__status'', qf_value = 2\<rparr>]"

lemmas engine_eval = engine_run_def engine_answer_def enter_def leave_def finish_def fire_def start_or_def
  get_nth_def trigger_matches_def event_fires_def x_cond_def exec_body_def exec_action_def nth_arg_def
  arg_text_def arg_str_def key_text_def ok_or_def qbind_def qlift_def qret_def continue_with_def
  push_script_def push_effect_def put_state_def put_flag_def push_dirty_def x_eval_def arg_value_def
  arg_u32_def u32_try_def count_of_def suspend_at_def put_script_def resume_body_def find_quest_def
  state_index_def status_flag_def outcome_default_def bool_int_def show_nat.simps

lemmas table_eval = runtime_default_def runtime_load_def persisted_flags_def load_rows_def persist_flags_def
  save_rows_def save_row_def dirty_row_def row_key_def

lemma sample_runtime_eq:
  "sample_runtime =
    \<lparr>rt_states = [''hello'' \<mapsto> Suc (Suc 0)], rt_flags = [(''hello'', ''seen'') \<mapsto> 7], rt_suspended = None, rt_timers = []\<rparr>"
  by (simp add: sample_runtime_def numeral_2_eq_2)

lemma sample_conversation:
  "run_sessions uint sample_ops (sample_world, [], []) = Some (sample_after, sample_rows, sample_log)"
  by (simp add: engine_eval table_eval sample_ops_def sample_world_def sample_quest_def sample_after_def
      sample_runtime_eq sample_rows_def sample_log_def quest_click_def run_quest_def tell_def Let_def
      split del: if_split)

text \<open>When the save of the answer breaks off after its first row, the flag is there and the state is not.\<close>

lemma sample_break:
  "map_option (\<lambda>(w, tbl, log). (tbl, log))
      (run_sessions uint [Enter 2, Ask (QNpcClick 2 9 Map.empty) 1000, Breaks (QAnswer 2 1) 2000 1] (sample_world, [], []))
    = Some ([\<lparr>dw_pid = 2, sz_name = ''hello'', sz_state = ''hello.__status'', l_value = 1\<rparr>,
             \<lparr>dw_pid = 2, sz_name = ''hello'', sz_state = ''seen'', l_value = 7\<rparr>], butlast sample_log)"
  by (simp add: engine_eval table_eval sample_world_def sample_quest_def sample_log_def quest_click_def run_quest_def
      tell_def Let_def split del: if_split)

abbreviation sample_engine :: Engine where
  "sample_engine \<equiv> \<lparr>eng_quests = [sample_quest], eng_texts = Map.empty\<rparr>"

lemma sample_engine_ok: "engine_ok sample_engine" "clean sample_engine"
  by (simp_all add: engine_ok_def clean_def sample_quest_def quest_ok_def quest_flags_def status_flag_def
      get_nth_def in_i64_def i64_min_def i64_max_def)

lemma inj_uint: "inj (uint :: u32 \<Rightarrow> int)"
  by (rule injI) (simp only: word_uint_eq_iff)

section \<open>The quests of a player survive the session\<close>

text \<open>C22. Whatever players enter, trigger and answer in whatever order, and wherever sessions break off
  while an event is sent or its rows are saved, as long as the saved values fit the column: the
  state of every quest of every player is one of its states, a pending dialogue stands at a point
  its quest can be resumed from (the early returns of the answer are never taken), and the saved
  rows read as the live flags and states.\<close>

theorem quest_sessions_sound:
  assumes "engine_ok eng" and "clean eng" and "inj pid"
    and "qw_engine w = Some eng" and "qw_store w = Map.empty"
    and "run_sessions pid ops (w, [], []) = Some (w', tbl, log)"
    and "list_all op_allowed ops" and "values_i32 log"
    and "qw_store w' vid = Some rt"
  shows "rt_ok eng rt \<and> reads (pid vid) tbl rt"
  using sessions_sound [OF assms(6,1-3) sound_start [OF assms(4,5)] assms(7,8)] assms(9)
  by (simp add: sound_def)

theorem quest_sessions_sound_witness:
  "rt_ok sample_engine sample_runtime \<and> reads 2 sample_rows sample_runtime"
  using quest_sessions_sound [OF sample_engine_ok inj_uint _ _ sample_conversation, of 2 sample_runtime]
  by (simp add: sample_ops_def sample_log_def in_i32_def sample_world_def sample_after_def)

text \<open>C23. A player who leaves after any such history and enters again without an open dialogue gets
  the same reaction to every trigger as if he had stayed.\<close>

theorem relogin_is_invisible:
  assumes "engine_ok eng" and "clean eng" and "inj pid"
    and "qw_engine w = Some eng" and "qw_store w = Map.empty"
    and "run_sessions pid ops (w, [], []) = Some (w', tbl, log)"
    and "list_all op_allowed ops" and "values_i32 log"
    and "qw_store w' vid = Some rt" and "rt_suspended rt = None"
    and "session_step pid (Enter vid) (w', tbl, log) = Some (w'', tbl, log)"
  shows "map_option fst (handle_quest (QTrigger vid t items) now_ms w'')
    = map_option fst (handle_quest (QTrigger vid t items) now_ms w')"
proof -
  let ?a = "runtime_load (persisted_flags (load_rows (pid vid) tbl))"
  have s: "sound eng pid w' tbl"
    by (rule sessions_sound [OF assms(6,1-3) sound_start [OF assms(4,5)] assms(7,8)])
  then have l: "loaded (pid vid) tbl ?a" by (simp add: sound_def entry_loaded)
  have "rows_ok eng (pid vid) tbl" using s by (simp add: sound_def)
  with loaded_reads [OF l] have "reads (pid vid) tbl ?a" by blast
  then have "rt_eq ?a rt"
    using s assms(9,10) l by (intro runtime_same) (auto simp: sound_def loaded_def)
  from trigger_same [OF this, of vid t items now_ms w'] assms(9,11)
  show ?thesis by (auto simp: fun_upd_idem simp del: handle_quest.simps(3))
qed

theorem relogin_is_invisible_witness:
  "map_option fst (handle_quest (QTrigger 2 OnLogin Map.empty) 3000
      (sample_after\<lparr>qw_store := [2 \<mapsto> runtime_load (persisted_flags (load_rows 2 sample_rows))]\<rparr>))
    = map_option fst (handle_quest (QTrigger 2 OnLogin Map.empty) 3000 sample_after)"
  using relogin_is_invisible [OF sample_engine_ok inj_uint _ _ sample_conversation, of 2 sample_runtime _ OnLogin Map.empty 3000]
  by (simp add: sample_ops_def sample_log_def in_i32_def sample_world_def sample_after_def sample_runtime_def
      del: handle_quest.simps(3))

end
