(* ===== verification/QuestCases.thy ===== *)
theory QuestCases
  imports QuestWorld
begin

text \<open>
  The values of expressions, and runs of concrete quests on which the engine does not do what
  the quest language means: branches, a state change undone by a later event of the same
  trigger, and what an answer no longer knows.
\<close>

text \<open>Every expression of a quest evaluates to a representable \<open>i64\<close> whatever the numbers the world
  throws, and the evaluation panics on no expression without a division.\<close>

theorem quest_values_are_i64:
  assumes "ctx_ok ctx" and "flags_ok fl" and "expr_ok e"
  shows "case fst (eval_expr world_throw ctx fl qn e g) of
      QOk v \<Rightarrow> in_i64 v
    | QErr er \<Rightarrow> True
    | QPanic \<Rightarrow> \<not> no_div e"
  using assms by (rule world_dice.eval_i64)

definition sample_ctx :: EvalCtx where
  "sample_ctx = \<lparr>ctx_level = 5, ctx_map_index = 1, ctx_now_s = 1700000000, ctx_items = Map.empty, ctx_captures = Map.empty\<rparr>"

text \<open>\<^verbatim>\<open>get_time() + 60 * 60 * 22\<close>, and the sum that wraps.\<close>

definition sample_sum :: Expr where
  "sample_sum = EAdd (EFunc GetTime []) (EMul (EMul (EValue (VNum 60)) (EValue (VNum 60))) (EValue (VNum 22)))"

theorem quest_values_are_i64_witness:
  "case fst (eval_expr world_throw sample_ctx Map.empty ''q'' sample_sum (Rand_new 42)) of
      QOk v \<Rightarrow> in_i64 v
    | QErr er \<Rightarrow> True
    | QPanic \<Rightarrow> \<not> no_div sample_sum"
  by (rule quest_values_are_i64)
     (simp_all add: ctx_ok_def sample_ctx_def flags_ok_def sample_sum_def in_i64_def i64_min_def i64_max_def)

section \<open>Branches\<close>

text \<open>Writing quests.\<close>

definition act :: "ActionName \<Rightarrow> Val list \<Rightarrow> Stmt" where
  "act n args = SAction \<lparr>action_name = n, action_args = args\<rparr> None"

definition chat_event :: "Stmt list \<Rightarrow> QEvent" where
  "chat_event body =
    \<lparr>ev_triggers = [\<lparr>trigger_kind = KChat (TargetNum 20011)\<rparr>], ev_condition = None, ev_body = body\<rparr>"

definition one_quest :: "QState list \<Rightarrow> Engine" where
  "one_quest states = \<lparr>eng_quests = [\<lparr>quest_name = ''q'', quest_states = states\<rparr>], eng_texts = Map.empty\<rparr>"

definition grown_up :: Expr where
  "grown_up = ECompare (EFunc PcLevel []) CmpGe (EValue (VNum 5))"

text \<open>
  \<^verbatim>\<open>if pc.level >= 5 -> give_item2(1) else -> give_item2(2)\<close>, then
  \<^verbatim>\<open>if pc.level >= 5 -> return\<close>, then \<^verbatim>\<open>give_item2(3)\<close>.
\<close>

definition else_quest :: Engine where
  "else_quest = one_quest [\<lparr>state_name = ''start'', state_events = [chat_event
    [SBranch (Some grown_up) [act GiveItem2 [VNum 1]],
     SBranch None [act GiveItem2 [VNum 2]],
     SBranch (Some grown_up) [act Return []],
     act GiveItem2 [VNum 3]]]\<rparr>]"

text \<open>\<^verbatim>\<open>if pc.level >= 5 -> wait()\<close>, then \<^verbatim>\<open>give_item2(4)\<close>.\<close>

definition wait_quest :: Engine where
  "wait_quest = one_quest [\<lparr>state_name = ''start'', state_events = [chat_event
    [SBranch (Some grown_up) [act Wait []],
     act GiveItem2 [VNum 4]]]\<rparr>]"

definition gifts :: "(QuestOutcome \<times> QuestRuntime \<times> 'g) option \<Rightarrow> QuestEffect list option" where
  "gifts r = map_option (\<lambda>(out, _, _). out_effects out) r"

lemmas case_eval = engine_eval act_def chat_event_def one_quest_def grown_up_def gifts_def runtime_default_def

text \<open>Branches do not branch: an \<^verbatim>\<open>else\<close> body also runs when its \<^verbatim>\<open>if\<close> body did, a \<^verbatim>\<open>return\<close> in a branch
  does not end the event, and a dialogue that waits inside a branch drops the statements after
  the branch when it is answered.\<close>

theorem branches_do_not_branch:
  "gifts (engine_run throw else_quest runtime_default (OnChat 20011) level map_index now_s items g)
      = Some (if 5 \<le> sint level then [GiveItem 1 1, GiveItem 2 1, GiveItem 3 1] else [GiveItem 2 1, GiveItem 3 1])
    \<and> (case engine_run throw wait_quest runtime_default (OnChat 20011) 5 map_index now_s items g of
         Some (out, rt, g') \<Rightarrow> out_suspended out
           \<and> gifts (engine_answer throw wait_quest rt 0 5 map_index now_s items g') = Some []
       | None \<Rightarrow> False)"
  by (simp add: case_eval else_quest_def wait_quest_def Let_def)

section \<open>State changes\<close>

text \<open>Two events of the start state answer to the same trigger; the first one moves on.\<close>

definition start_quest :: Engine where
  "start_quest = one_quest
    [\<lparr>state_name = ''start'',
      state_events = [chat_event [act SetState [VStr ''met'']], chat_event [act GiveItem2 [VNum 1]]]\<rparr>,
     \<lparr>state_name = ''met'', state_events = []\<rparr>]"

text \<open>The first trigger of a quest can undo its own state change: a second event of the start state
  that answers to the same trigger writes state 1 over the state the first event has set, in
  the runtime and as the last row to be saved.\<close>

theorem first_trigger_undoes_set_state:
  "case engine_run throw start_quest runtime_default (OnChat 20011) level map_index now_s items g of
      Some (out, rt, g') \<Rightarrow> rt_states rt ''q'' = Some 1
        \<and> List.map qf_value (out_dirty out) = [1, 2, 1]
    | None \<Rightarrow> False"
  by (simp add: case_eval start_quest_def Let_def)

section \<open>Answers\<close>

text \<open>
  \<^verbatim>\<open>select(yes, no) as choice\<close>, \<^verbatim>\<open>wait()\<close>, then a reward for \<^verbatim>\<open>choice == 1\<close>; and \<^verbatim>\<open>wait()\<close>, then a
  reward for \<^verbatim>\<open>count_item(30006) >= 1\<close>.
\<close>

definition choice_quest :: Engine where
  "choice_quest = one_quest [\<lparr>state_name = ''start'', state_events = [chat_event
    [SAction \<lparr>action_name = Select, action_args = [VKey ''yes'', VKey ''no'']\<rparr> (Some ''choice''),
     act Wait [],
     SBranch (Some (ECompare (ECapture ''choice'') CmpEq (EValue (VNum 1)))) [act GiveItem2 [VNum 5]],
     act GiveItem2 [VNum 6]]]\<rparr>]"

definition count_quest :: Engine where
  "count_quest = one_quest [\<lparr>state_name = ''start'', state_events = [chat_event
    [act Wait [],
     SBranch (Some (ECompare (EFunc CountItem [EValue (VNum 30006)]) CmpGe (EValue (VNum 1)))) [act GiveItem2 [VNum 7]]]]\<rparr>]"

definition talk :: "Engine \<Rightarrow> (u32 \<rightharpoonup> int) \<Rightarrow> u8 list \<Rightarrow> (QuestEvent list \<times> QuestWorld) option" where
  "talk eng items answers =
    fold (\<lambda>a r. case r of
            None \<Rightarrow> None
          | Some (evs, w) \<Rightarrow> map_option (\<lambda>(evs', w'). (evs', w')) (handle_quest (QAnswer 2 a) 2000 w))
      answers
      (handle_quest (QNpcClick 2 9 items) 1000
        (sample_world\<lparr>qw_engine := Some eng, qw_store := [2 \<mapsto> runtime_default]\<rparr>))"

definition last_gifts :: "(QuestEvent list \<times> QuestWorld) option \<Rightarrow> QuestEffect list option" where
  "last_gifts r = map_option (\<lambda>(evs, w). concat (List.map (\<lambda>e. case e of QuestRan v out \<Rightarrow> out_effects out) evs)) r"

text \<open>An answer forgets: the capture of a \<^verbatim>\<open>select\<close> is gone after the next pause, so a body that asks
  for it aborts and gives nothing, and after an answer the player owns no item as far as
  \<^verbatim>\<open>count_item\<close> knows, whatever the inventory holds.\<close>

theorem answers_forget:
  "last_gifts (talk choice_quest Map.empty [1, 0]) = Some []
    \<and> last_gifts (talk count_quest [30006 \<mapsto> 3] [0]) = Some []"
  by (simp add: case_eval choice_quest_def count_quest_def talk_def last_gifts_def quest_click_def run_quest_def
      tell_def sample_world_def Let_def split del: if_split)

section \<open>Values that do not fit the column\<close>

definition late_flag :: QuestFlag where
  "late_flag = \<lparr>qf_quest = ''q'', qf_flag = ''until'', qf_value = 2 ^ 31 + 79200\<rparr>"

text \<open>A flag beyond 32 bits is cut when it is saved: a duration set from the clock after January 2038
  comes back negative, a multiple of \<open>2 ^ 32\<close> deletes the row.\<close>

theorem flags_are_cut:
  "row_value pid (persist_flags pid [late_flag] tbl) ''q'' ''until'' = 79200 - 2 ^ 31
    \<and> row_value pid (persist_flags pid [late_flag\<lparr>qf_value := k * 2 ^ 32\<rparr>] tbl) ''q'' ''until'' = 0"
proof -
  have "(word_of_int (k * 2 ^ 32) :: i32) = word_of_int k * word_of_int (2 ^ 32)" by (rule of_int_mult)
  also have "(word_of_int (2 ^ 32) :: i32) = 0" by simp
  finally have "(word_of_int (k * 2 ^ 32) :: i32) = 0" by simp
  then show ?thesis by (simp add: persist_one row_value_save dirty_row_def row_key_def late_flag_def)
qed

end
