(* ===== verification/QuestItems.thy ===== *)
theory QuestItems
  imports Shop
begin

text \<open>
  The items a quest gives and takes (\<^verbatim>\<open>server_realms/src/channel/quest.rs\<close>): \<open>give_item\<close> fills the
  stacks of the inventory and puts the rest into a free cell, \<open>remove_item\<close> empties stacks until
  the number is reached. The loops are modelled with the rows they write; the packets of each
  write carry the row. Counts are the integers of the column, far from the bounds of \<^verbatim>\<open>i64\<close>.
\<close>

section \<open>Lists updated by index\<close>

lemma filter_update_less:
  "i < length xs \<Longrightarrow> P (xs ! i) \<Longrightarrow> \<not> P y \<Longrightarrow> length (List.filter P (xs[i := y])) < length (List.filter P xs)"
proof (induction xs arbitrary: i)
  case (Cons x xs)
  then show ?case by (cases i) auto
qed simp

section \<open>Giving\<close>

definition mine :: "int \<Rightarrow> ItemRow \<Rightarrow> bool" where
  "mine vnum r \<longleftrightarrow> row_window r = ''INVENTORY'' \<and> row_vnum r = vnum"

definition room_in :: "int \<Rightarrow> ItemRow \<Rightarrow> bool" where
  "room_in vnum r \<longleftrightarrow> mine vnum r \<and> row_sockets r = [0, 0, 0] \<and> row_count r < ITEM_COUNT_LIMIT"

text \<open>The loop over the stacks; it returns the inventory, what is left to give and the rows written.\<close>

function give_stacks :: "int \<Rightarrow> ItemRow list \<Rightarrow> int \<Rightarrow> ItemRow list \<times> int \<times> ItemRow list" where
  "give_stacks vnum bag remaining =
    (case position (room_in vnum) bag of
       None \<Rightarrow> (bag, remaining, [])
     | Some i \<Rightarrow>
         (let add = min (ITEM_COUNT_LIMIT - row_count (bag ! i)) remaining;
              r = (bag ! i)\<lparr>row_count := row_count (bag ! i) + add\<rparr>;
              bag' = bag[i := r];
              remaining' = remaining - add
          in if remaining' \<le> 0 then (bag', remaining', [r])
             else (case give_stacks vnum bag' remaining' of (b, m, ups) \<Rightarrow> (b, m, r # ups))))"
  by pat_completeness auto

termination
proof (relation "measure (\<lambda>(vnum, bag, remaining). length (List.filter (room_in vnum) bag))")
  fix vnum bag remaining i add r bag' remaining'
  assume i: "position (room_in vnum) bag = Some i"
    and add: "add = min (ITEM_COUNT_LIMIT - row_count (bag ! i)) remaining"
    and r: "r = (bag ! i)\<lparr>row_count := row_count (bag ! i) + add\<rparr>"
    and bag': "bag' = bag[i := r]" and rem: "remaining' = remaining - add" "\<not> remaining' \<le> 0"
  from add rem have "add = ITEM_COUNT_LIMIT - row_count (bag ! i)" by (auto simp: min_def split: if_splits)
  then have "\<not> room_in vnum r" by (simp add: r room_in_def)
  with position_Some [OF i] show "((vnum, bag', remaining'), (vnum, bag, remaining))
      \<in> measure (\<lambda>(vnum, bag, remaining). length (List.filter (room_in vnum) bag))"
    by (simp add: bag' filter_update_less)
qed simp

declare give_stacks.simps [simp del]

text \<open>The first cell of the inventory no row of the window occupies.\<close>

definition inventory_cell :: "ItemRow list \<Rightarrow> u16 option" where
  "inventory_cell bag =
    (let occupied = List.map (\<lambda>r. word_of_int (row_pos r) :: u16) (List.filter (\<lambda>r. row_window r = ''INVENTORY'') bag)
     in map_option word_of_nat (List.find (\<lambda>c. word_of_nat c \<notin> set occupied) [0..<unat INVENTORY_MAX_NUM]))"

text \<open>
  The identifier and the sockets and attributes of a new row come from the tables. The result
  is the inventory and the rows written; a full inventory drops what is left.
\<close>

definition quest_give_item :: "int \<Rightarrow> int list \<Rightarrow> (int \<times> int) list \<Rightarrow> u32 \<Rightarrow> u32 \<Rightarrow> ItemRow list \<Rightarrow> ItemRow list \<times> ItemRow list" where
  "quest_give_item new_id sockets attrs vnum count bag =
    (case give_stacks (uint vnum) bag (uint count) of
       (bag', remaining, ups) \<Rightarrow>
         if remaining \<le> 0 then (bag', ups)
         else (case inventory_cell bag' of
                 None \<Rightarrow> (bag', ups)
               | Some slot \<Rightarrow>
                   (let r = \<lparr>row_id = new_id, row_window = ''INVENTORY'', row_pos = uint slot,
                             row_count = remaining, row_vnum = uint vnum, row_sockets = sockets, row_attrs = attrs\<rparr>
                    in (bag' @ [r], ups @ [r]))))"

section \<open>Taking\<close>

datatype row_write = Wrote ItemRow | Deleted int

function remove_rows :: "int \<Rightarrow> nat \<Rightarrow> ItemRow list \<Rightarrow> int \<Rightarrow> ItemRow list \<times> int \<times> row_write list" where
  "remove_rows vnum idx bag remaining =
    (if remaining > 0 \<and> idx < length bag then
       (if \<not> mine vnum (bag ! idx) then remove_rows vnum (Suc idx) bag remaining
        else
          (let part = min (row_count (bag ! idx)) remaining;
               consumed = (bag ! idx)\<lparr>row_count := row_count (bag ! idx) - part\<rparr>
           in if row_count consumed = 0
              then (case remove_rows vnum idx (take idx bag @ drop (Suc idx) bag) (remaining - part) of
                      (b, m, ws) \<Rightarrow> (b, m, Deleted (row_id consumed) # ws))
              else (case remove_rows vnum idx (bag[idx := consumed]) (remaining - part) of
                      (b, m, ws) \<Rightarrow> (b, m, Wrote consumed # ws))))
     else (bag, remaining, []))"
  by pat_completeness auto

termination
  by (relation "measure (\<lambda>(vnum, idx, bag, remaining). length bag - idx + (if remaining > 0 then 1 else 0))")
     (auto simp: min_def split: if_splits)

declare remove_rows.simps [simp del]

definition quest_remove_item :: "u32 \<Rightarrow> u32 \<Rightarrow> ItemRow list \<Rightarrow> ItemRow list \<times> row_write list" where
  "quest_remove_item vnum count bag =
    (case remove_rows (uint vnum) 0 bag (uint count) of (b, m, ws) \<Rightarrow> (b, ws))"

section \<open>What they do to the numbers\<close>

definition owned_count :: "int \<Rightarrow> ItemRow list \<Rightarrow> int" where
  "owned_count vnum bag = (\<Sum>r\<leftarrow>bag. if mine vnum r then row_count r else 0)"

definition room :: "int \<Rightarrow> ItemRow list \<Rightarrow> int" where
  "room vnum bag = (\<Sum>r\<leftarrow>bag. if room_in vnum r then ITEM_COUNT_LIMIT - row_count r else 0)"

lemma room_nonneg: "0 \<le> room vnum bag"
  unfolding room_def by (rule sum_list_nonneg) (auto simp: room_in_def)

lemma no_room: "position (room_in vnum) bag = None \<Longrightarrow> room vnum bag = 0"
  by (induction bag) (auto simp: room_def split: if_splits)

text \<open>A stack of another kind of item is not touched by a change of a count.\<close>

lemma mine_count [simp]: "mine v (r\<lparr>row_count := c\<rparr>) \<longleftrightarrow> mine v r"
  by (simp add: mine_def)

definition places :: "ItemRow list \<Rightarrow> (string \<times> int) list" where
  "places bag = List.map (\<lambda>r. (row_window r, row_pos r)) bag"

lemma cell_places:
  assumes "places a = places b"
  shows "inventory_cell a = inventory_cell b"
proof -
  have cells: "List.map (\<lambda>r. word_of_int (row_pos r) :: u16) (List.filter (\<lambda>r. row_window r = ''INVENTORY'') c)
      = List.map (\<lambda>(w, p). word_of_int p) (List.filter (\<lambda>(w, p). w = ''INVENTORY'') (places c))" for c
    by (induction c) (simp_all add: places_def)
  show ?thesis unfolding inventory_cell_def cells assms ..
qed

text \<open>One stack filled up, or topped by what is left.\<close>

lemma fill_stack:
  assumes "position (room_in vnum) bag = Some i" and "0 < remaining"
    and "add = min (ITEM_COUNT_LIMIT - row_count (bag ! i)) remaining"
    and "r = (bag ! i)\<lparr>row_count := row_count (bag ! i) + add\<rparr>"
  shows "owned_count u (bag[i := r]) = owned_count u bag + (if u = vnum then add else 0)"
    and "room vnum (bag[i := r]) = room vnum bag - add"
    and "places (bag[i := r]) = places bag"
    and "add < remaining \<Longrightarrow> length (List.filter (room_in vnum) (bag[i := r])) < length (List.filter (room_in vnum) bag)"
    and "add \<le> room vnum bag"
proof -
  have i: "i < length bag" "room_in vnum (bag ! i)" using position_Some [OF assms(1)] by simp_all
  show "owned_count u (bag[i := r]) = owned_count u bag + (if u = vnum then add else 0)"
    using i assms(4) by (auto simp: owned_count_def sum_update room_in_def mine_def)
  show "room vnum (bag[i := r]) = room vnum bag - add"
    using i assms(3,4) by (auto simp: room_def sum_update) (auto simp: room_in_def min_def split: if_splits)
  then show "add \<le> room vnum bag" using room_nonneg [of vnum "bag[i := r]"] by simp
  show "places (bag[i := r]) = places bag"
    using i assms(4) by (auto simp: places_def map_update intro!: nth_equalityI) (auto simp: nth_list_update)
  show "length (List.filter (room_in vnum) (bag[i := r])) < length (List.filter (room_in vnum) bag)" if "add < remaining"
  proof -
    have "add = ITEM_COUNT_LIMIT - row_count (bag ! i)" using assms(3) that by (simp add: min_def split: if_splits)
    then have "\<not> room_in vnum r" by (simp add: assms(4) room_in_def)
    with i show ?thesis by (intro filter_update_less)
  qed
qed

lemma give_stacks_spec:
  "give_stacks vnum bag remaining = (bag', m, ups) \<Longrightarrow> 0 < remaining \<Longrightarrow>
    m = max 0 (remaining - room vnum bag)
    \<and> (\<forall>u. owned_count u bag' = owned_count u bag + (if u = vnum then remaining - m else 0))
    \<and> places bag' = places bag
    \<and> length ups \<le> length (List.filter (room_in vnum) bag)"
proof (induction vnum bag remaining arbitrary: bag' m ups rule: give_stacks.induct)
  case (1 vnum bag remaining)
  show ?case
  proof (cases "position (room_in vnum) bag")
    case None
    with 1(2,3) no_room [OF None] show ?thesis by (subst (asm) give_stacks.simps) auto
  next
    case (Some i)
    define add where "add = min (ITEM_COUNT_LIMIT - row_count (bag ! i)) remaining"
    define r where "r = (bag ! i)\<lparr>row_count := row_count (bag ! i) + add\<rparr>"
    note f = fill_stack [OF Some 1(3) add_def r_def]
    have le: "add \<le> remaining" by (simp add: add_def)
    show ?thesis
    proof (cases "remaining - add \<le> 0")
      case True
      with 1(2) Some have res: "bag' = bag[i := r]" "m = remaining - add" "ups = [r]"
        by (subst (asm) give_stacks.simps, simp add: add_def r_def Let_def)+
      have "0 < length (List.filter (room_in vnum) bag)"
        using position_Some [OF Some] by (auto simp: filter_empty_conv)
      with res f True le show ?thesis by (auto simp: Suc_le_eq)
    next
      case False
      obtain b k us where rec: "give_stacks vnum (bag[i := r]) (remaining - add) = (b, k, us)" by (cases rule: prod_cases3)
      with 1(2) Some False have res: "bag' = b" "m = k" "ups = r # us"
        by (subst (asm) give_stacks.simps, simp add: add_def r_def Let_def)+
      note IH = 1(1) [OF Some add_def r_def refl refl False rec]
      from IH f False show ?thesis by (auto simp: res)
    qed
  qed
qed

lemma owned_append [simp]: "owned_count u (bag @ [r]) = owned_count u bag + (if mine u r then row_count r else 0)"
  by (simp add: owned_count_def)

text \<open>C24. A quest reward reaches the inventory: the player owns exactly \<open>count\<close> more of the item, unless no
  cell is free and the stacks have less room, when he owns as much more as the stacks had room;
  no other item changes, and each stack is written at most once, so the loop ends.\<close>

theorem give_item_counts:
  assumes "0 < count" and "quest_give_item new_id sockets attrs vnum count bag = (bag', ups)"
  shows "owned_count u bag' = owned_count u bag +
      (if u = uint vnum then
         (if inventory_cell bag = None then min (uint count) (room u bag) else uint count)
       else 0)
    \<and> length ups \<le> Suc (length (List.filter (room_in (uint vnum)) bag))"
proof -
  obtain b m us where g: "give_stacks (uint vnum) bag (uint count) = (b, m, us)" by (cases rule: prod_cases3)
  have pos: "0 < uint count" using assms(1) by (simp add: word_less_def)
  note spec = give_stacks_spec [OF g pos]
  then have cell: "inventory_cell b = inventory_cell bag" by (intro cell_places) simp
  have m: "m = max 0 (uint count - room (uint vnum) bag)"
    and us: "length us \<le> length (List.filter (room_in (uint vnum)) bag)"
    using spec by auto
  have own: "owned_count u b = owned_count u bag + (if u = uint vnum then uint count - m else 0)" for u
    using spec by blast
  show ?thesis
  proof (cases "m \<le> 0")
    case True
    with assms(2) g have "bag' = b" "ups = us" by (simp_all add: quest_give_item_def)
    with True m own us show ?thesis by auto
  next
    case False
    show ?thesis
    proof (cases "inventory_cell bag")
      case None
      with assms(2) g cell False have "bag' = b" "ups = us" by (simp_all add: quest_give_item_def)
      with None False m own us show ?thesis by auto
    next
      case (Some slot)
      with assms(2) g cell False obtain r where r: "bag' = b @ [r]" "ups = us @ [r]"
          "row_window r = ''INVENTORY''" "row_vnum r = uint vnum" "row_count r = m"
        by (auto simp: quest_give_item_def Let_def)
      with Some own us show ?thesis by (auto simp: mine_def)
    qed
  qed
qed

definition reward_bag :: "ItemRow list" where
  "reward_bag = [sample_row 1 150, sample_row 2 200]"

theorem give_item_counts_witness:
  "owned_count 27001 (fst (quest_give_item 9 [0, 0, 0] [] 27001 300 reward_bag)) = owned_count 27001 reward_bag +
      (if (27001 :: int) = uint (27001 :: u32) then
         (if inventory_cell reward_bag = None then min (uint (300 :: u32)) (room 27001 reward_bag) else uint (300 :: u32))
       else 0)"
  using give_item_counts [of 300 9 "[0, 0, 0]" "[]" 27001 reward_bag
      "fst (quest_give_item 9 [0, 0, 0] [] 27001 300 reward_bag)" "snd (quest_give_item 9 [0, 0, 0] [] 27001 300 reward_bag)" 27001]
  by simp

text \<open>The reward of more than a stack is one oversized stack: into an empty inventory a quest that gives
  \<open>count\<close> items puts a single row of \<open>count\<close>, above the limit of 200 all other code keeps.\<close>

theorem reward_exceeds_the_stack:
  assumes "ITEM_COUNT_LIMIT < uint count"
  shows "List.map row_count (fst (quest_give_item new_id sockets attrs vnum count [])) = [uint count]"
proof -
  have "give_stacks (uint vnum) [] (uint count) = ([], uint count, [])" by (subst give_stacks.simps) simp
  moreover have "inventory_cell [] = Some 0"
    by (simp add: inventory_cell_def INVENTORY_MAX_NUM_def upt_conv_Cons)
  ultimately show ?thesis using assms by (simp add: quest_give_item_def ITEM_COUNT_LIMIT_def Let_def)
qed

theorem reward_exceeds_the_stack_witness:
  "List.map row_count (fst (quest_give_item 9 [0, 0, 0] [] 27001 1000 [])) = [uint (1000 :: u32)]"
  by (rule reward_exceeds_the_stack) (simp add: ITEM_COUNT_LIMIT_def)

text \<open>Taking from sound rows.\<close>

lemma owned_update: "i < length bag \<Longrightarrow>
  owned_count u (bag[i := (bag ! i)\<lparr>row_count := c\<rparr>]) = owned_count u bag + (if mine u (bag ! i) then c - row_count (bag ! i) else 0)"
  by (simp add: owned_count_def sum_update)

lemma owned_delete: "i < length bag \<Longrightarrow>
  owned_count u (take i bag @ drop (Suc i) bag) = owned_count u bag - (if mine u (bag ! i) then row_count (bag ! i) else 0)"
  unfolding owned_count_def by (rule sum_remove [unfolded remove_nth_def])

lemma mine_unique: "mine u r \<Longrightarrow> mine v r \<Longrightarrow> u = v"
  by (simp add: mine_def)

lemma owned_nonneg: "list_all (\<lambda>r. 0 < row_count r) bag \<Longrightarrow> 0 \<le> owned_count u bag"
  by (induction bag) (auto simp: owned_count_def)

lemma owned_none: "list_all (\<lambda>r. \<not> mine u r) bag \<Longrightarrow> owned_count u bag = 0"
  by (induction bag) (auto simp: owned_count_def)

lemma remove_rows_none: "remaining \<le> 0 \<Longrightarrow> remove_rows vnum idx bag remaining = (bag, remaining, [])"
  by (subst remove_rows.simps) simp

lemma remove_rows_spec:
  "remove_rows vnum idx bag remaining = (bag', m, ws) \<Longrightarrow> 0 \<le> remaining \<Longrightarrow>
   list_all (\<lambda>r. 0 < row_count r) bag \<Longrightarrow> list_all (\<lambda>r. \<not> mine vnum r) (take idx bag) \<Longrightarrow>
    m = max 0 (remaining - owned_count vnum bag)
    \<and> (\<forall>u. owned_count u bag' = owned_count u bag - (if u = vnum then remaining - m else 0))
    \<and> list_all (\<lambda>r. 0 < row_count r) bag'"
proof (induction vnum idx bag remaining arbitrary: bag' m ws rule: remove_rows.induct)
  case (1 vnum idx bag remaining)
  show ?case
  proof (cases "remaining > 0 \<and> idx < length bag")
    case False
    then have "remove_rows vnum idx bag remaining = (bag, remaining, [])"
      by (subst remove_rows.simps) (simp only: if_False)
    with 1(4) have res: "bag' = bag" "m = remaining" by simp_all
    show ?thesis
    proof (cases "remaining > 0")
      case True
      with False have "owned_count vnum bag = 0" using 1(7) by (intro owned_none) simp
      with res 1(5,6) show ?thesis by auto
    next
      case False
      with 1(5) res 1(6) owned_nonneg [OF 1(6), of vnum] show ?thesis by auto
    qed
  next
    case go: True
    show ?thesis
    proof (cases "mine vnum (bag ! idx)")
      case False
      with go 1(4) have "remove_rows vnum (Suc idx) bag remaining = (bag', m, ws)"
        by (subst (asm) remove_rows.simps) simp
      from 1(1) [OF go False this 1(5,6)] go False 1(7) show ?thesis
        by (simp add: take_Suc_conv_app_nth)
    next
      case True
      define part where "part = min (row_count (bag ! idx)) remaining"
      define consumed where "consumed = (bag ! idx)\<lparr>row_count := row_count (bag ! idx) - part\<rparr>"
      have c: "0 < row_count (bag ! idx)" using 1(6) go by (simp add: list_all_length)
      show ?thesis
      proof (cases "row_count consumed = 0")
        case gone: True
        then have part: "part = row_count (bag ! idx)" "part \<le> remaining" by (simp_all add: consumed_def part_def)
        obtain b k us where rec: "remove_rows vnum idx (take idx bag @ drop (Suc idx) bag) (remaining - part) = (b, k, us)"
          by (cases rule: prod_cases3)
        with 1(4) go True gone have res: "bag' = b" "m = k"
          by (subst (asm) remove_rows.simps, simp add: part_def consumed_def Let_def)+
        have all: "list_all (\<lambda>r. 0 < row_count r) (take idx bag @ drop (Suc idx) bag)"
          using 1(6) by (auto simp: list_all_iff dest: in_set_takeD in_set_dropD)
        have "min (length bag) idx = idx" using go by simp
        then have before: "list_all (\<lambda>r. \<not> mine vnum r) (take idx (take idx bag @ drop (Suc idx) bag))"
          using 1(7) by simp
        from 1(2) [OF go _ part_def consumed_def gone rec _ all before] True part(2)
        have "k = max 0 (remaining - part - owned_count vnum (take idx bag @ drop (Suc idx) bag))
          \<and> (\<forall>u. owned_count u b = owned_count u (take idx bag @ drop (Suc idx) bag) - (if u = vnum then remaining - part - k else 0))
          \<and> list_all (\<lambda>r. 0 < row_count r) b" by simp
        moreover have "mine u (bag ! idx) \<longleftrightarrow> u = vnum" for u using True mine_unique by auto
        ultimately show ?thesis using go part by (simp add: res owned_delete)
      next
        case False
        then have part: "part = remaining" "remaining < row_count (bag ! idx)"
          using c by (auto simp: consumed_def part_def min_def split: if_splits)
        with 1(4) go True False have res: "bag' = bag[idx := consumed]" "m = 0"
          by (subst (asm) remove_rows.simps, simp add: part_def consumed_def Let_def remove_rows_none)+
        have m: "mine u (bag ! idx) \<longleftrightarrow> u = vnum" for u using True mine_unique by auto
        have "owned_count u bag' = owned_count u bag - (if u = vnum then remaining else 0)" for u
          using go part m by (simp add: res consumed_def owned_update)
        moreover have "list_all (\<lambda>r. 0 < row_count r) bag'"
          using 1(6) part c go by (auto simp: res consumed_def list_all_length nth_list_update)
        moreover have "remaining \<le> owned_count vnum bag"
          using owned_nonneg [of bag' vnum] calculation by simp
        ultimately show ?thesis using res by simp
      qed
    qed
  qed
qed

text \<open>C25. What a quest takes: from sound stacks exactly the smaller of the asked number and the number
  owned, of that item and of no other, and no empty stack stays behind.\<close>

theorem remove_item_counts:
  assumes "list_all (\<lambda>r. 0 < row_count r) bag" and "quest_remove_item vnum count bag = (bag', ws)"
  shows "owned_count u bag' = owned_count u bag -
      (if u = uint vnum then min (uint count) (owned_count u bag) else 0)
    \<and> list_all (\<lambda>r. 0 < row_count r) bag'"
proof -
  obtain m where "remove_rows (uint vnum) 0 bag (uint count) = (bag', m, ws)"
    using assms(2) by (auto simp: quest_remove_item_def split: prod.splits)
  from remove_rows_spec [OF this _ assms(1)] show ?thesis by auto
qed

theorem remove_item_counts_witness:
  "owned_count 27001 (fst (quest_remove_item 27001 300 reward_bag)) = owned_count 27001 reward_bag -
      (if (27001 :: int) = uint (27001 :: u32) then min (uint (300 :: u32)) (owned_count 27001 reward_bag) else 0)
    \<and> list_all (\<lambda>r. 0 < row_count r) (fst (quest_remove_item 27001 300 reward_bag))"
  by (rule remove_item_counts [where ws = "snd (quest_remove_item 27001 300 reward_bag)"])
     (simp_all add: reward_bag_def sample_row_def)

end
