(* ===== verification/Guild.thy ===== *)
theory Guild
  imports Dice Mutation
begin

text \<open>
  Guilds (\<^verbatim>\<open>game_core/src/guild.rs\<close>): members, invitations, grades, the board of comments, wars and
  the ranking; and the penalties of player killing (\<^verbatim>\<open>game_core/src/pvp.rs\<close>), which a war lifts.
  The source of the rolls is the locale \<open>dice\<close>. Texts are UTF-8 bytes, an instant is a number
  of milliseconds.
\<close>

section \<open>Texts\<close>

text \<open>\<^verbatim>\<open>chars().count()\<close> and \<^verbatim>\<open>eq_ignore_ascii_case\<close>.\<close>

definition char_count :: "string \<Rightarrow> nat" where
  "char_count s = length (List.filter (\<lambda>c. \<not> is_cont c) s)"

definition to_lower :: "char \<Rightarrow> char" where
  "to_lower c = (if CHR ''A'' \<le> c \<and> c \<le> CHR ''Z'' then char_of (of_char c + (32 :: nat)) else c)"

definition eq_ignore_case :: "string \<Rightarrow> string \<Rightarrow> bool" where
  "eq_ignore_case a b \<longleftrightarrow> List.map to_lower a = List.map to_lower b"

section \<open>Data\<close>

definition NAME_MAX :: nat where "NAME_MAX = 12"
definition NAME_MIN :: nat where "NAME_MIN = 2"
definition GRADE_COUNT :: nat where "GRADE_COUNT = 15"
definition GRADE_NAME_MAX :: nat where "GRADE_NAME_MAX = 8"
definition COMMENT_MAX :: nat where "COMMENT_MAX = 50"
definition GUILD_INVITE_TTL :: nat where "GUILD_INVITE_TTL = 10000"
definition MAX_MEMBERS :: nat where "MAX_MEMBERS = 32"
definition WAR_TYPE_FIELD :: u8 where "WAR_TYPE_FIELD = 0"
definition WAR_TYPE_BATTLE :: u8 where "WAR_TYPE_BATTLE = 1"
definition WAR_TYPE_FLAG :: u8 where "WAR_TYPE_FLAG = 2"

record GuildComment =
  gc_id :: int
  gc_author :: string
  gc_text :: string

record GuildGrade =
  gg_grade :: nat
  gg_name :: string
  gg_auth :: u8

record Guild =
  g_id :: int
  g_name :: string
  g_members :: "int list"
  g_grades :: "GuildGrade list"
  g_comments :: "GuildComment list"
  g_invites :: "int \<rightharpoonup> nat"

datatype GuildError =
    NameTooShort | NameTooLong | DuplicateName | DuplicateMember | DuplicateGrade | GradeFull
  | EmptyComment | CommentTooLong | DuplicateComment | SelfWar | AlreadyAtWar

section \<open>Life of a guild\<close>

definition create_guild :: "int \<Rightarrow> string \<Rightarrow> string list \<Rightarrow> GuildError + Guild" where
  "create_guild gid name existing =
    (let n = trim name; len = char_count n
     in if \<not> (NAME_MIN \<le> len \<and> len \<le> NAME_MAX) then Inl (if len < NAME_MIN then NameTooShort else NameTooLong)
        else if list_ex (\<lambda>e. eq_ignore_case e n) existing then Inl DuplicateName
        else Inr \<lparr>g_id = gid, g_name = n, g_members = [], g_grades = [], g_comments = [], g_invites = Map.empty\<rparr>)"

definition add_member :: "int \<Rightarrow> Guild \<Rightarrow> (GuildError + unit) \<times> Guild" where
  "add_member pid g =
    (if pid \<in> set (g_members g) then (Inl DuplicateMember, g)
     else (Inr (), g\<lparr>g_members := g_members g @ [pid]\<rparr>))"

definition guild_remove_member :: "int \<Rightarrow> Guild \<Rightarrow> bool \<times> Guild" where
  "guild_remove_member pid g =
    (let ms = List.filter (\<lambda>m. m \<noteq> pid) (g_members g)
     in (length ms \<noteq> length (g_members g), g\<lparr>g_members := ms\<rparr>))"

definition invite :: "int \<Rightarrow> nat \<Rightarrow> Guild \<Rightarrow> bool \<times> Guild" where
  "invite pid now g =
    (if g_invites g pid \<noteq> None \<or> length (g_members g) \<ge> MAX_MEMBERS then (False, g)
     else (True, g\<lparr>g_invites := (g_invites g)(pid \<mapsto> now + GUILD_INVITE_TTL)\<rparr>))"

definition accept_invite :: "int \<Rightarrow> nat \<Rightarrow> Guild \<Rightarrow> bool \<times> Guild" where
  "accept_invite pid now g =
    (case g_invites g pid of
       None \<Rightarrow> (False, g)
     | Some expires \<Rightarrow>
         (let g1 = g\<lparr>g_invites := (g_invites g)(pid := None)\<rparr>
          in if expires \<ge> now \<and> length (g_members g1) < MAX_MEMBERS
             then (case add_member pid g1 of (r, g2) \<Rightarrow> (r = Inr (), g2))
             else (False, g1)))"

definition deny_invite :: "int \<Rightarrow> Guild \<Rightarrow> Guild" where
  "deny_invite pid g = g\<lparr>g_invites := (g_invites g)(pid := None)\<rparr>"

section \<open>Grades and comments\<close>

definition free_grade :: "Guild \<Rightarrow> nat option" where
  "free_grade g = List.find (\<lambda>n. list_all (\<lambda>gr. gg_grade gr \<noteq> n) (g_grades g)) [1..<Suc GRADE_COUNT]"

definition add_grade :: "string \<Rightarrow> Guild \<Rightarrow> (GuildError + nat) \<times> Guild" where
  "add_grade name g =
    (let n = trim name; len = char_count n
     in if \<not> (1 \<le> len \<and> len \<le> GRADE_NAME_MAX) then (Inl (if len = 0 then NameTooShort else NameTooLong), g)
        else if list_ex (\<lambda>gr. eq_ignore_case (gg_name gr) n) (g_grades g) then (Inl DuplicateGrade, g)
        else case free_grade g of
               None \<Rightarrow> (Inl GradeFull, g)
             | Some grade \<Rightarrow>
                 (Inr grade, g\<lparr>g_grades := g_grades g @ [\<lparr>gg_grade = grade, gg_name = n, gg_auth = 0\<rparr>]\<rparr>))"

fun set_auth_first :: "nat \<Rightarrow> u8 \<Rightarrow> GuildGrade list \<Rightarrow> bool \<times> GuildGrade list" where
  "set_auth_first grade auth [] = (False, [])"
| "set_auth_first grade auth (gr # grs) =
     (if gg_grade gr = grade then (True, gr\<lparr>gg_auth := auth\<rparr> # grs)
      else map_prod (\<lambda>b. b) ((#) gr) (set_auth_first grade auth grs))"

definition set_grade_auth :: "nat \<Rightarrow> u8 \<Rightarrow> Guild \<Rightarrow> bool \<times> Guild" where
  "set_grade_auth grade auth g =
    map_prod (\<lambda>b. b) (\<lambda>grs. g\<lparr>g_grades := grs\<rparr>) (set_auth_first grade auth (g_grades g))"

definition max_comment_id :: "GuildComment list \<Rightarrow> int" where
  "max_comment_id cs = (case cs of [] \<Rightarrow> 0 | c # rest \<Rightarrow> foldl (\<lambda>m c. max m (gc_id c)) (gc_id c) rest)"

definition add_comment :: "string \<Rightarrow> string \<Rightarrow> Guild \<Rightarrow> (GuildError + int) \<times> Guild" where
  "add_comment author content g =
    (let t = trim content; len = char_count t
     in if \<not> (1 \<le> len \<and> len \<le> COMMENT_MAX) then (Inl (if len = 0 then EmptyComment else CommentTooLong), g)
        else if list_ex (\<lambda>c. gc_author c = author \<and> gc_text c = t) (g_comments g) then (Inl DuplicateComment, g)
        else (let cid = wrap_i64 (max_comment_id (g_comments g) + 1)
              in (Inr cid, g\<lparr>g_comments := g_comments g @ [\<lparr>gc_id = cid, gc_author = author, gc_text = t\<rparr>]\<rparr>)))"

definition remove_comment :: "int \<Rightarrow> Guild \<Rightarrow> bool \<times> Guild" where
  "remove_comment cid g =
    (let cs = List.filter (\<lambda>c. gc_id c \<noteq> cid) (g_comments g)
     in (length cs \<noteq> length (g_comments g), g\<lparr>g_comments := cs\<rparr>))"

section \<open>Wars and ranking\<close>

record GuildWar =
  w_guild_a :: int
  w_guild_b :: int
  w_score_a :: u32
  w_score_b :: u32

definition start_war :: "int \<Rightarrow> int \<Rightarrow> GuildWar" where
  "start_war a b = \<lparr>w_guild_a = a, w_guild_b = b, w_score_a = 0, w_score_b = 0\<rparr>"

definition sorted_pair :: "int \<Rightarrow> int \<Rightarrow> int \<times> int" where
  "sorted_pair a b = (if a < b then (a, b) else (b, a))"

definition declare_war :: "GuildWar list \<Rightarrow> int \<Rightarrow> int \<Rightarrow> u8 \<Rightarrow> GuildError + GuildWar" where
  "declare_war existing a b war_type =
    (if a = b then Inl SelfWar
     else if war_type > WAR_TYPE_FLAG then Inl NameTooLong
     else (case sorted_pair a b of (x, y) \<Rightarrow>
       if list_ex (\<lambda>w. sorted_pair (w_guild_a w) (w_guild_b w) = (x, y)) existing then Inl AlreadyAtWar
       else Inr \<lparr>w_guild_a = x, w_guild_b = y, w_score_a = 0, w_score_b = 0\<rparr>))"

definition add_score :: "GuildWar \<Rightarrow> int \<Rightarrow> u32 \<Rightarrow> GuildWar" where
  "add_score w gid points =
    (if gid = w_guild_a w then w\<lparr>w_score_a := w_score_a w + points\<rparr>
     else if gid = w_guild_b w then w\<lparr>w_score_b := w_score_b w + points\<rparr>
     else w)"

record GuildRanking =
  gr_guild :: int
  gr_points :: u32

fun add_points :: "int \<Rightarrow> u32 \<Rightarrow> GuildRanking list \<Rightarrow> GuildRanking \<times> GuildRanking list" where
  "add_points gid points [] =
     (let r = \<lparr>gr_guild = gid, gr_points = points\<rparr> in (r, [r]))"
| "add_points gid points (r # rs) =
     (if gr_guild r = gid then (let r' = r\<lparr>gr_points := gr_points r + points\<rparr> in (r', r' # rs))
      else map_prod (\<lambda>x. x) ((#) r) (add_points gid points rs))"

text \<open>\<^verbatim>\<open>max_by_key\<close> keeps the last of several maximal elements.\<close>

fun top_guilds :: "GuildRanking list \<Rightarrow> GuildRanking option" where
  "top_guilds [] = None"
| "top_guilds (r # rs) =
     (case top_guilds rs of
        None \<Rightarrow> Some r
      | Some t \<Rightarrow> Some (if gr_points t < gr_points r then r else t))"

section \<open>The invariant of a guild\<close>

text \<open>The operations on an existing guild beside its roster, which the handlers of \<open>GuildChannel\<close> fill.\<close>

datatype GuildOp =
    OpRemove int
  | OpGrade string
  | OpAuth nat u8
  | OpComment string string
  | OpUncomment int

fun guild_op :: "GuildOp \<Rightarrow> Guild \<Rightarrow> Guild" where
  "guild_op (OpRemove pid) g = snd (guild_remove_member pid g)"
| "guild_op (OpGrade name) g = snd (add_grade name g)"
| "guild_op (OpAuth grade auth) g = snd (set_grade_auth grade auth g)"
| "guild_op (OpComment author content) g = snd (add_comment author content g)"
| "guild_op (OpUncomment cid) g = snd (remove_comment cid g)"

definition grades_ok :: "GuildGrade list \<Rightarrow> bool" where
  "grades_ok grs \<longleftrightarrow> distinct (List.map gg_grade grs)
    \<and> distinct (List.map (\<lambda>gr. List.map to_lower (gg_name gr)) grs)
    \<and> list_all (\<lambda>gr. 1 \<le> gg_grade gr \<and> gg_grade gr \<le> GRADE_COUNT
        \<and> 1 \<le> char_count (gg_name gr) \<and> char_count (gg_name gr) \<le> GRADE_NAME_MAX) grs"

text \<open>The identifiers of the comments are at most \<open>n\<close>, the number of operations so far.\<close>

definition comments_ok :: "nat \<Rightarrow> GuildComment list \<Rightarrow> bool" where
  "comments_ok n cs \<longleftrightarrow> distinct (List.map gc_id cs)
    \<and> distinct (List.map (\<lambda>c. (gc_author c, gc_text c)) cs)
    \<and> list_all (\<lambda>c. 1 \<le> gc_id c \<and> gc_id c \<le> int n
        \<and> 1 \<le> char_count (gc_text c) \<and> char_count (gc_text c) \<le> COMMENT_MAX) cs"

definition guild_ok :: "nat \<Rightarrow> Guild \<Rightarrow> bool" where
  "guild_ok n g \<longleftrightarrow> NAME_MIN \<le> char_count (g_name g) \<and> char_count (g_name g) \<le> NAME_MAX
    \<and> distinct (g_members g) \<and> length (g_members g) \<le> MAX_MEMBERS
    \<and> grades_ok (g_grades g) \<and> comments_ok n (g_comments g)"

lemma comments_mono: "comments_ok n cs \<Longrightarrow> n \<le> m \<Longrightarrow> comments_ok m cs"
  by (force simp: comments_ok_def list_all_iff)

lemma find_in: "List.find P xs = Some x \<Longrightarrow> x \<in> set xs \<and> P x"
  by (induction xs) (auto split: if_splits)

lemma free_grade_Some:
  "free_grade g = Some n \<Longrightarrow> 1 \<le> n \<and> n \<le> GRADE_COUNT \<and> n \<notin> set (List.map gg_grade (g_grades g))"
  unfolding free_grade_def by (drule find_in) (auto simp: list_all_iff simp del: upt_Suc)

lemma grade_ok_add: "grades_ok (g_grades g) \<Longrightarrow> grades_ok (g_grades (snd (add_grade name g)))"
  using free_grade_Some [of g]
  by (auto simp: add_grade_def Let_def grades_ok_def list_ex_iff eq_ignore_case_def image_iff split: option.split)

lemma set_auth_same:
  "List.map gg_grade (snd (set_auth_first grade auth grs)) = List.map gg_grade grs"
  "List.map gg_name (snd (set_auth_first grade auth grs)) = List.map gg_name grs"
  by (induction grade auth grs rule: set_auth_first.induct) (auto simp: map_prod_def split: prod.splits)

lemma grades_ok_names:
  "grades_ok grs \<longleftrightarrow> distinct (List.map gg_grade grs) \<and> distinct (List.map (List.map to_lower) (List.map gg_name grs))
    \<and> list_all (\<lambda>n. 1 \<le> n \<and> n \<le> GRADE_COUNT) (List.map gg_grade grs)
    \<and> list_all (\<lambda>s. 1 \<le> char_count s \<and> char_count s \<le> GRADE_NAME_MAX) (List.map gg_name grs)"
  by (auto simp: grades_ok_def list_all_iff comp_def)

lemma grade_ok_auth: "grades_ok grs \<Longrightarrow> grades_ok (snd (set_auth_first grade auth grs))"
  unfolding grades_ok_names set_auth_same .

lemma foldl_max_bounds:
  "a \<le> foldl (\<lambda>m c. max m (f c)) (a :: int) cs"
  "c \<in> set cs \<Longrightarrow> f c \<le> foldl (\<lambda>m c. max m (f c)) a cs"
  "a \<le> b \<Longrightarrow> (\<And>c. c \<in> set cs \<Longrightarrow> f c \<le> b) \<Longrightarrow> foldl (\<lambda>m c. max m (f c)) a cs \<le> b"
proof -
  have le: "a \<le> foldl (\<lambda>m c. max m (f c)) a cs" for a cs
    by (induction cs arbitrary: a) (auto intro: order_trans [OF max.cobounded1])
  then show "a \<le> foldl (\<lambda>m c. max m (f c)) a cs" .
  show "c \<in> set cs \<Longrightarrow> f c \<le> foldl (\<lambda>m c. max m (f c)) a cs"
  proof (induction cs arbitrary: a)
    case (Cons d cs)
    then show ?case using le [of "max a (f d)"] by auto
  qed simp
  show "a \<le> b \<Longrightarrow> (\<And>c. c \<in> set cs \<Longrightarrow> f c \<le> b) \<Longrightarrow> foldl (\<lambda>m c. max m (f c)) a cs \<le> b"
    by (induction cs arbitrary: a) auto
qed

lemma max_comment:
  assumes "comments_ok n cs"
  shows "0 \<le> max_comment_id cs" "max_comment_id cs \<le> int n" "c \<in> set cs \<Longrightarrow> gc_id c \<le> max_comment_id cs"
proof -
  show "c \<in> set cs \<Longrightarrow> gc_id c \<le> max_comment_id cs"
    by (cases cs) (auto simp: max_comment_id_def foldl_max_bounds)
  show "0 \<le> max_comment_id cs" "max_comment_id cs \<le> int n"
    using assms foldl_max_bounds(1) [of "gc_id (hd cs)" gc_id "tl cs"]
    by (cases cs; force simp: max_comment_id_def comments_ok_def intro!: foldl_max_bounds(3) simp: list_all_iff)+
qed

lemma comment_ok_add:
  assumes "comments_ok n (g_comments g)" and "int (Suc n) \<le> i64_max"
  shows "comments_ok (Suc n) (g_comments (snd (add_comment author content g)))"
proof -
  note m = max_comment [OF assms(1)]
  have w: "wrap_i64 (max_comment_id (g_comments g) + 1) = max_comment_id (g_comments g) + 1"
    using m(1,2) assms(2) by (intro wrap_i64_id) (simp add: in_i64_def i64_min_def)
  have fresh: "max_comment_id (g_comments g) + 1 \<notin> gc_id ` set (g_comments g)"
    using m(3) by force
  show ?thesis
    using assms(1) comments_mono [OF assms(1), of "Suc n"] m(1,2) fresh
    by (auto simp: add_comment_def Let_def w comments_ok_def list_ex_iff image_iff)
qed

lemma comments_filter: "comments_ok n cs \<Longrightarrow> comments_ok n (List.filter P cs)"
  by (auto simp: comments_ok_def list_all_iff distinct_map_filter)

lemma guild_mono: "guild_ok n g \<Longrightarrow> n \<le> m \<Longrightarrow> guild_ok m g"
  using comments_mono by (auto simp: guild_ok_def)

lemma guild_op_ok:
  assumes "guild_ok n g" and "int (Suc n) \<le> i64_max"
  shows "guild_ok (Suc n) (guild_op p g)"
proof -
  note c = comments_mono [of n "g_comments g" "Suc n"]
  show ?thesis
  proof (cases p)
    case (OpRemove pid)
    with assms(1) c show ?thesis
      by (auto simp: guild_ok_def guild_remove_member_def Let_def intro: order_trans [OF length_filter_le])
  next
    case (OpGrade name)
    have "g_name (guild_op p g) = g_name g" "g_members (guild_op p g) = g_members g" "g_comments (guild_op p g) = g_comments g"
      using OpGrade by (simp_all add: add_grade_def Let_def split: option.split)
    with OpGrade assms(1) c grade_ok_add show ?thesis by (auto simp: guild_ok_def)
  next
    case (OpAuth grade auth)
    have "guild_op p g = g\<lparr>g_grades := snd (set_auth_first grade auth (g_grades g))\<rparr>"
      using OpAuth by (simp add: set_grade_auth_def)
    with assms(1) c grade_ok_auth show ?thesis by (simp add: guild_ok_def)
  next
    case (OpComment author content)
    have "g_name (guild_op p g) = g_name g" "g_members (guild_op p g) = g_members g" "g_grades (guild_op p g) = g_grades g"
      using OpComment by (simp_all add: add_comment_def Let_def)
    with OpComment assms comment_ok_add show ?thesis by (auto simp: guild_ok_def)
  next
    case (OpUncomment cid)
    with assms(1) c comments_filter show ?thesis by (auto simp: guild_ok_def remove_comment_def Let_def)
  qed
qed

lemma guild_op_same: "g_id (guild_op p g) = g_id g" "g_name (guild_op p g) = g_name g"
  "set (g_members (guild_op p g)) \<subseteq> set (g_members g)"
  by (cases p; auto simp: guild_remove_member_def add_grade_def set_grade_auth_def add_comment_def
      remove_comment_def Let_def map_prod_def split: option.split prod.split)+

lemma guild_ok_invites [simp]: "guild_ok n (g\<lparr>g_invites := i\<rparr>) = guild_ok n g"
  by (simp add: guild_ok_def)

lemma invite_same:
  "g_id (snd (invite pid now g)) = g_id g" "g_name (snd (invite pid now g)) = g_name g"
  "g_members (snd (invite pid now g)) = g_members g" "guild_ok n (snd (invite pid now g)) = guild_ok n g"
  by (simp_all add: invite_def)

lemma deny_same:
  "g_id (deny_invite pid g) = g_id g" "g_name (deny_invite pid g) = g_name g"
  "g_members (deny_invite pid g) = g_members g" "guild_ok n (deny_invite pid g) = guild_ok n g"
  by (simp_all add: deny_invite_def)

lemma accept_same:
  "g_id (snd (accept_invite pid now g)) = g_id g" "g_name (snd (accept_invite pid now g)) = g_name g"
  "set (g_members (snd (accept_invite pid now g))) \<subseteq> insert pid (set (g_members g))"
  "guild_ok n g \<Longrightarrow> guild_ok n (snd (accept_invite pid now g))"
  by (auto simp: accept_invite_def add_member_def guild_ok_def Let_def split: option.split prod.split)

lemma create_ok:
  "create_guild gid name existing = Inr g \<Longrightarrow>
     guild_ok 0 g \<and> g_members g = [] \<and> g_id g = gid \<and> List.map to_lower (g_name g) \<notin> List.map to_lower ` set existing"
  by (auto simp: create_guild_def Let_def guild_ok_def grades_ok_def comments_ok_def list_ex_iff
      eq_ignore_case_def split: if_splits)

section \<open>Wars\<close>

definition war_pair :: "GuildWar \<Rightarrow> int \<times> int" where
  "war_pair w = sorted_pair (w_guild_a w) (w_guild_b w)"

text \<open>Wars as they are declared one after the other; a rejected declaration changes nothing.\<close>

definition declare_step :: "int \<times> int \<times> u8 \<Rightarrow> GuildWar list \<Rightarrow> GuildWar list" where
  "declare_step d ws =
    (case d of (a, b, t) \<Rightarrow> (case declare_war ws a b t of Inl e \<Rightarrow> ws | Inr w \<Rightarrow> ws @ [w]))"

lemma sorted_pair_sym: "sorted_pair a b = sorted_pair b a"
  by (auto simp: sorted_pair_def)

lemma sorted_pair_idem: "sorted_pair (fst (sorted_pair a b)) (snd (sorted_pair a b)) = sorted_pair a b"
  by (auto simp: sorted_pair_def)

lemma sorted_pair_eq: "sorted_pair a b = sorted_pair c d \<longleftrightarrow> (a = c \<and> b = d) \<or> (a = d \<and> b = c)"
  by (auto simp: sorted_pair_def)

lemma declare_war_pair:
  "declare_war ws a b t = Inr w \<Longrightarrow> war_pair w = sorted_pair a b \<and> a \<noteq> b \<and> t \<le> 2 \<and> sorted_pair a b \<notin> war_pair ` set ws"
  using sorted_pair_idem [of a b]
  by (auto simp: declare_war_def war_pair_def list_ex_iff image_iff WAR_TYPE_FLAG_def not_less
      split: prod.splits if_splits)

lemma declare_war_rejects:
  "declare_war ws a b t = Inl e \<Longrightarrow> a = b \<or> t > 2 \<or> sorted_pair a b \<in> war_pair ` set ws"
  by (force simp: declare_war_def war_pair_def list_ex_iff image_iff WAR_TYPE_FLAG_def split: prod.splits if_splits)

lemma declared_pairs:
  "war_pair ` set (fold declare_step ds ws) =
     war_pair ` set ws \<union> {sorted_pair a b |a b t. (a, b, t) \<in> set ds \<and> a \<noteq> b \<and> t \<le> 2}
   \<and> (distinct (List.map war_pair ws) \<longrightarrow> distinct (List.map war_pair (fold declare_step ds ws)))"
proof (induction ds arbitrary: ws)
  case (Cons d ds)
  obtain a b t where d: "d = (a, b, t)" by (cases d) auto
  show ?case
  proof (cases "declare_war ws a b t")
    case (Inl e)
    with declare_war_rejects [OF Inl] Cons.IH [of ws] show ?thesis
      by (auto simp: d declare_step_def not_less [symmetric])
  next
    case (Inr w)
    with declare_war_pair [OF Inr] Cons.IH [of "ws @ [w]"] show ?thesis
      by (auto simp: d declare_step_def)
  qed
qed simp

end
