(* ===== verification/GuildChannel.thy ===== *)
theory GuildChannel
  imports Guild Framer
begin

text \<open>
  The guild handlers of a channel (\<^verbatim>\<open>server_realms/src/channel/guild.rs\<close>) over the registry of the
  process: founding a guild, inviting a player and answering an invitation, from the packet bytes
  to the registry and the packets sent. A failing send ends the connection after the registry
  was changed, so it plays no part here.
\<close>

section \<open>Packets\<close>

text \<open>\<^verbatim>\<open>String::from_utf8_lossy\<close>: each maximal part of an ill-formed sequence becomes U+FFFD.\<close>

definition replacement :: string where
  "replacement = [CHR 0xEF, CHR 0xBF, CHR 0xBD]"

definition lossy_tail :: "char \<Rightarrow> string \<Rightarrow> nat" where
  "lossy_tail c s =
    (if s \<noteq> [] \<and> is_cont (hd s) \<and> scalar_start c s
     then length (takeWhile is_cont (take (utf8_len c - 1) s)) else 0)"

function utf8_lossy :: "string \<Rightarrow> string" where
  "utf8_lossy [] = []"
| "utf8_lossy (c # s) =
    (if byte_of c < 128 then c # utf8_lossy s
     else (let k = lossy_tail c s
           in (if k = utf8_len c - 1 then c # take k s else replacement) @ utf8_lossy (drop k s)))"
  by pat_completeness auto
termination by (relation "measure length") auto

declare utf8_lossy.simps(2) [simp del]

lemma utf8_lossy_id: "utf8 s \<Longrightarrow> utf8_lossy s = s"
proof (induction s rule: utf8.induct)
  case (2 c s)
  let ?k = "utf8_len c - 1"
  have s: "scalar_start c s" "?k \<le> length s" "list_all is_cont (take ?k s)" "utf8 (drop ?k s)"
    using "2.prems" by (simp_all add: utf8.simps)
  show ?case
  proof (cases "byte_of c < 128")
    case True
    then have "utf8_len c = 1" by (simp add: utf8_len_def Let_def)
    with True s(4) "2.IH" show ?thesis by (simp add: utf8_lossy.simps(2))
  next
    case False
    then have len: "2 \<le> utf8_len c" "s \<noteq> []" using s(1) by (auto simp: scalar_start_def utf8_len_def Let_def)
    then have "is_cont (hd s)" using s(3) by (cases s; cases ?k) auto
    moreover have tw: "takeWhile is_cont (take ?k s) = take ?k s" using s(3) by (simp add: list_all_iff)
    ultimately have "lossy_tail c s = ?k" unfolding lossy_tail_def tw using s(1,2) len(2) by simp
    with False s(4) "2.IH" show ?thesis by (simp add: utf8_lossy.simps(2) Let_def)
  qed
qed simp

definition GC_GUILD :: u8 where [simp]: "GC_GUILD = 75"
definition SUB_CG_CREATE :: u8 where [simp]: "SUB_CG_CREATE = 1"
definition SUB_CG_ADD_MEMBER :: u8 where [simp]: "SUB_CG_ADD_MEMBER = 0"
definition SUB_CG_INVITE_ANSWER :: u8 where [simp]: "SUB_CG_INVITE_ANSWER = 11"
definition CG_ADD_MEMBER_TOTAL :: nat where [simp]: "CG_ADD_MEMBER_TOTAL = CG_GUILD_FIXED + 4"
definition CG_INVITE_ANSWER_TOTAL :: nat where [simp]: "CG_INVITE_ANSWER_TOTAL = CG_GUILD_FIXED + 5"
definition SUB_GC_GUILD_INVITE :: u8 where [simp]: "SUB_GC_GUILD_INVITE = 14"
definition SUB_GC_INFO :: u8 where [simp]: "SUB_GC_INFO = 8"

definition gc_guild_head :: "u8 \<Rightarrow> nat \<Rightarrow> bytes" where
  "gc_guild_head sub payload_len = [GC_GUILD] @ le16 (word_of_nat (4 + payload_len)) @ [sub]"

definition name_field :: "string \<Rightarrow> bytes" where
  "name_field name = (let n = List.map of_char (take 12 name) in n @ replicate (13 - length n) 0)"

definition gc_info :: "u32 \<Rightarrow> u32 \<Rightarrow> string \<Rightarrow> bytes" where
  "gc_info guild_id master_pid name =
     gc_guild_head SUB_GC_INFO 35 @ le16 1 @ le16 32 @ le32 guild_id @ le32 master_pid @ le32 0 @ [1]
     @ name_field name @ le32 0 @ [0]"

definition gc_guild_invite :: "u32 \<Rightarrow> string \<Rightarrow> bytes" where
  "gc_guild_invite guild_id name = gc_guild_head SUB_GC_GUILD_INVITE 17 @ le32 guild_id @ name_field name"

definition guild_chat :: "u8 \<Rightarrow> string \<Rightarrow> bytes" where
  "guild_chat empire s =
     [GC_CHAT] @ le16 (word_of_nat (9 + length s)) @ [1] @ le32 0 @ [empire] @ List.map of_char s"

section \<open>The handlers\<close>

text \<open>What a handler sees of its session and of the process: the character, its empire, who is
  registered in the chat, and the clock.\<close>

record guild_env =
  ge_pid :: int
  ge_empire :: u8
  ge_online :: "u32 \<Rightarrow> bool"
  ge_now :: nat

definition ge_vid :: "guild_env \<Rightarrow> u32" where
  "ge_vid e = word_of_int (ge_pid e)"

datatype guild_out = ToSession bytes | ToVid u32 bytes

abbreviation guild_says :: "guild_env \<Rightarrow> string \<Rightarrow> guild_out list" where
  "guild_says e s \<equiv> [ToSession (guild_chat (ge_empire e) s)]"

definition guild_member :: "int \<Rightarrow> Guild \<Rightarrow> bool" where
  "guild_member pid g \<longleftrightarrow> pid \<in> set (g_members g)"

text \<open>\<^verbatim>\<open>iter_mut().find\<close> and an assignment to what it found.\<close>

fun update_first :: "('a \<Rightarrow> bool) \<Rightarrow> ('a \<Rightarrow> 'a) \<Rightarrow> 'a list \<Rightarrow> 'a list" where
  "update_first P f [] = []"
| "update_first P f (x # xs) = (if P x then f x # xs else x # update_first P f xs)"

definition guild_create :: "guild_env \<Rightarrow> bytes \<Rightarrow> Guild list \<Rightarrow> guild_out list \<times> Guild list" where
  "guild_create e pkt store =
    (let raw = drop 2 (take CG_CREATE_TOTAL pkt);
         name = utf8_lossy (List.map (\<lambda>b. char_of (unat b)) (takeWhile (\<lambda>b. b \<noteq> 0) raw))
     in case create_guild (int (length store) + 1) name (List.map g_name store) of
          Inr g0 \<Rightarrow>
            (let g = snd (add_member (ge_pid e) g0)
             in (ToSession (gc_info (word_of_int (g_id g)) (ge_vid e) (g_name g))
                   # guild_says e (''<Guild> ['' @ g_name g @ ''] guild has been created.''), store @ [g]))
        | Inl DuplicateName \<Rightarrow> (guild_says e ''<Guild> A guild with that name already exists.'', store)
        | Inl _ \<Rightarrow> (guild_says e ''<Guild> The guild name is invalid.'', store))"

definition guild_handle_invite :: "guild_env \<Rightarrow> bytes \<Rightarrow> Guild list \<Rightarrow> guild_out list \<times> Guild list" where
  "guild_handle_invite e pkt store =
    (if length pkt < CG_ADD_MEMBER_TOTAL then ([], store)
     else let vid = rd_u32 pkt 2; mine = guild_member (uint (ge_vid e))
     in if \<not> ge_online e vid then (guild_says e ''<Guild> Cannot find the player.'', store)
        else if list_ex (guild_member (uint vid)) store
        then (guild_says e ''<Guild> The player is already in a guild.'', store)
        else (case List.find mine store of
                None \<Rightarrow> (guild_says e ''<Guild> You are not in a guild.'', store)
              | Some g \<Rightarrow>
                  (if fst (invite (uint vid) (ge_now e) g)
                   then [ToVid vid (gc_guild_invite (word_of_int (g_id g)) (g_name g))] else [],
                   update_first mine (\<lambda>g. snd (invite (uint vid) (ge_now e) g)) store)))"

definition guild_handle_answer :: "guild_env \<Rightarrow> bytes \<Rightarrow> Guild list \<Rightarrow> guild_out list \<times> Guild list" where
  "guild_handle_answer e pkt store =
    (if length pkt < CG_INVITE_ANSWER_TOTAL then ([], store)
     else let gid = uint (rd_u32 pkt 2); accept = pkt ! 6 \<noteq> 0; vid = uint (ge_vid e);
              already = list_ex (guild_member vid) store; this = (\<lambda>g. g_id g = gid)
     in case List.find this store of
          None \<Rightarrow> ([], store)
        | Some g \<Rightarrow>
            if accept then
              (if already
               then (guild_says e ''<Guild> The player is already in a guild.'', update_first this (deny_invite vid) store)
               else (if fst (accept_invite vid (ge_now e) g) then guild_says e ''<Guild> You have joined the guild.'' else [],
                     update_first this (\<lambda>g. snd (accept_invite vid (ge_now e) g)) store))
            else ([], update_first this (deny_invite vid) store))"

definition guild_handle :: "guild_env \<Rightarrow> bytes \<Rightarrow> Guild list \<Rightarrow> guild_out list \<times> Guild list" where
  "guild_handle e pkt store =
    (if length pkt < CG_GUILD_FIXED then ([], store)
     else if pkt ! 1 = SUB_CG_CREATE then guild_create e pkt store
     else if pkt ! 1 = SUB_CG_ADD_MEMBER then guild_handle_invite e pkt store
     else if pkt ! 1 = SUB_CG_INVITE_ANSWER then guild_handle_answer e pkt store
     else ([], store))"

section \<open>The registry stays sound\<close>

text \<open>Everything that happens to the registry: a guild packet of any session at any time, or one of
  the operations that no handler calls yet, on the guild at an index.\<close>

datatype guild_event =
    GPacket guild_env bytes
  | GOperation nat GuildOp

fun guild_step :: "guild_event \<Rightarrow> Guild list \<Rightarrow> Guild list" where
  "guild_step (GPacket e pkt) store = snd (guild_handle e pkt store)"
| "guild_step (GOperation i p) store = (if i < length store then store[i := guild_op p (store ! i)] else store)"

fun founders :: "guild_event list \<Rightarrow> int set" where
  "founders [] = {}"
| "founders (GPacket e pkt # evs) =
     (if 2 \<le> length pkt \<and> pkt ! 1 = SUB_CG_CREATE then insert (ge_pid e) (founders evs) else founders evs)"
| "founders (GOperation i p # evs) = founders evs"

definition guilds_of :: "int \<Rightarrow> Guild list \<Rightarrow> Guild list" where
  "guilds_of pid store = List.filter (guild_member pid) store"

text \<open>\<open>n\<close> bounds the identifiers of the comments, \<open>F\<close> are the characters that may found guilds.\<close>

definition guilds_ok :: "nat \<Rightarrow> int set \<Rightarrow> Guild list \<Rightarrow> bool" where
  "guilds_ok n F store \<longleftrightarrow>
     List.map g_id store = List.map (\<lambda>i. int i + 1) [0..<length store]
     \<and> distinct (List.map (\<lambda>g. List.map to_lower (g_name g)) store)
     \<and> list_all (guild_ok n) store
     \<and> (\<forall>pid. pid \<notin> F \<longrightarrow> length (guilds_of pid store) \<le> 1)"

lemma map_update_first: "(\<And>x. h (f x) = h x) \<Longrightarrow> List.map h (update_first P f xs) = List.map h xs"
  by (induction xs) auto

lemma all_update_first: "list_all Q xs \<Longrightarrow> (\<And>x. Q x \<Longrightarrow> Q (f x)) \<Longrightarrow> list_all Q (update_first P f xs)"
  by (induction xs) auto

lemma count_update_first:
  "(\<And>g. guild_member pid (f g) \<Longrightarrow> guild_member pid g) \<Longrightarrow>
   length (guilds_of pid (update_first P f gs)) \<le> length (guilds_of pid gs)"
  by (induction gs) (auto simp: guilds_of_def le_SucI)

lemma count_first_new: "guilds_of pid gs = [] \<Longrightarrow> length (guilds_of pid (update_first P f gs)) \<le> 1"
  by (induction gs) (auto simp: guilds_of_def filter_empty_conv split: if_splits)

lemma guilds_update:
  assumes "guilds_ok n F store" and "\<And>g. g_id (f g) = g_id g" and "\<And>g. g_name (f g) = g_name g"
    and "\<And>g. guild_ok n g \<Longrightarrow> guild_ok n (f g)"
    and "\<And>g pid. guild_member pid (f g) \<Longrightarrow> guild_member pid g \<or> pid = new"
    and "guilds_of new store = [] \<or> (\<forall>g. guild_member new (f g) \<longrightarrow> guild_member new g)"
  shows "guilds_ok n F (update_first P f store)"
proof -
  have "length (guilds_of pid (update_first P f store)) \<le> 1" if "pid \<notin> F" for pid
  proof (cases "guilds_of pid store = []")
    case True
    then show ?thesis by (rule count_first_new)
  next
    case False
    then have "guild_member pid g" if "guild_member pid (f g)" for g
      using assms(5) [OF that] assms(6) that by auto
    from count_update_first [OF this] show ?thesis
      using assms(1) \<open>pid \<notin> F\<close> by (force simp: guilds_ok_def intro: order_trans)
  qed
  moreover have "length (update_first P f store) = length store"
    using map_update_first [of "\<lambda>_. ()" f P store] by (metis length_map)
  ultimately show ?thesis
    using assms(1) map_update_first [of g_id f P store] map_update_first [of "\<lambda>g. List.map to_lower (g_name g)" f P store]
      all_update_first [of "guild_ok n" store f P] assms(2-4)
    by (simp add: guilds_ok_def)
qed

lemma guilds_invite: "guilds_ok n F store \<Longrightarrow> guilds_ok n F (update_first P (\<lambda>g. snd (invite pid now g)) store)"
  by (rule guilds_update [where new = 0]) (simp_all add: invite_same guild_member_def)

lemma guilds_deny: "guilds_ok n F store \<Longrightarrow> guilds_ok n F (update_first P (deny_invite pid) store)"
  by (rule guilds_update [where new = 0]) (simp_all add: deny_same guild_member_def)

lemma accept_member: "guild_member q (snd (accept_invite pid now g)) \<Longrightarrow> guild_member q g \<or> q = pid"
  using accept_same(3) [of pid now g] by (auto simp: guild_member_def)

lemma guilds_accept:
  assumes "guilds_ok n F store" and "\<not> list_ex (guild_member pid) store"
  shows "guilds_ok n F (update_first P (\<lambda>g. snd (accept_invite pid now g)) store)"
proof (rule guilds_update [OF assms(1) accept_same(1,2,4) accept_member])
  show "guilds_of pid store = []
      \<or> (\<forall>g. guild_member pid (snd (accept_invite pid now g)) \<longrightarrow> guild_member pid g)"
    using assms(2) by (simp add: guilds_of_def filter_empty_conv list_ex_iff)
qed

lemma guilds_create:
  assumes "guilds_ok n F store" and "ge_pid e \<in> F"
  shows "guilds_ok n F (snd (guild_create e pkt store))"
proof -
  let ?name = "utf8_lossy (List.map (\<lambda>b. char_of (unat b)) (takeWhile (\<lambda>b. b \<noteq> 0) (drop 2 (take CG_CREATE_TOTAL pkt))))"
  let ?c = "create_guild (int (length store) + 1) ?name (List.map g_name store)"
  show ?thesis
  proof (cases ?c)
    case (Inl err)
    then show ?thesis using assms(1) by (cases err) (simp_all add: guild_create_def Let_def)
  next
    case (Inr g)
    note g = create_ok [OF Inr]
    let ?g = "g\<lparr>g_members := [ge_pid e]\<rparr>"
    have "guild_ok n ?g" using g guild_mono [of 0 g n] by (simp add: guild_ok_def MAX_MEMBERS_def)
    moreover have "length (guilds_of pid (store @ [?g])) \<le> 1" if "pid \<notin> F" for pid
      using assms that by (auto simp: guilds_of_def guild_member_def guilds_ok_def)
    ultimately have "guilds_ok n F (store @ [?g])"
      using assms(1) g by (auto simp: guilds_ok_def image_iff)
    moreover have "snd (guild_create e pkt store) = store @ [?g]"
      using Inr g by (simp add: guild_create_def add_member_def Let_def)
    ultimately show ?thesis by simp
  qed
qed

lemma guilds_handle:
  assumes "guilds_ok n F store" and "2 \<le> length pkt \<Longrightarrow> pkt ! 1 = SUB_CG_CREATE \<Longrightarrow> ge_pid e \<in> F"
  shows "guilds_ok n F (snd (guild_handle e pkt store))"
  using assms guilds_create [OF assms(1), of e pkt] guilds_invite [OF assms(1)] guilds_deny [OF assms(1)]
    guilds_accept [OF assms(1)]
  by (auto simp: guild_handle_def guild_handle_invite_def guild_handle_answer_def Let_def split: option.split)

lemma guilds_mono: "guilds_ok n F store \<Longrightarrow> guilds_ok (Suc n) F store"
  using guild_mono [of n _ "Suc n"] by (auto simp: guilds_ok_def list_all_iff)

lemma guilds_operation:
  assumes "guilds_ok n F store" and "int (Suc n) \<le> i64_max"
  shows "guilds_ok (Suc n) F (guild_step (GOperation i p) store)"
proof (cases "i < length store")
  case True
  let ?s = "store[i := guild_op p (store ! i)]"
  have same: "List.map g_id ?s = List.map g_id store"
      "List.map (\<lambda>g. List.map to_lower (g_name g)) ?s = List.map (\<lambda>g. List.map to_lower (g_name g)) store"
    using True by (simp_all add: map_update guild_op_same list_update_same_conv)
  have "guild_ok n (store ! i)" using assms(1) True by (simp add: guilds_ok_def list_all_length)
  then have "guild_ok (Suc n) (guild_op p (store ! i))" using guild_op_ok assms(2) by blast
  then have "list_all (guild_ok (Suc n)) ?s"
    using guilds_mono [OF assms(1)] by (auto simp: guilds_ok_def list_all_iff dest!: set_update_subset_insert [THEN subsetD])
  moreover have "length (guilds_of pid ?s) \<le> length (guilds_of pid store)" for pid
    unfolding upd_conv_take_nth_drop [OF True]
    by (subst (3) id_take_nth_drop [OF True]) (use guild_op_same(3) [of p "store ! i"] in \<open>auto simp: guilds_of_def guild_member_def\<close>)
  ultimately show ?thesis
    using True assms(1) same by (auto simp: guilds_ok_def intro: order_trans)
next
  case False
  with guilds_mono [OF assms(1)] show ?thesis by simp
qed

lemma guilds_run:
  "guilds_ok n F store \<Longrightarrow> founders evs \<subseteq> F \<Longrightarrow> int (n + length evs) \<le> i64_max \<Longrightarrow>
   guilds_ok (n + length evs) F (fold guild_step evs store)"
proof (induction evs arbitrary: n store)
  case (Cons ev evs)
  have "guilds_ok (Suc n) F (guild_step ev store)"
  proof (cases ev)
    case (GPacket e pkt)
    have "guilds_ok n F (snd (guild_handle e pkt store))"
      by (rule guilds_handle [OF Cons.prems(1)]) (use Cons.prems(2) GPacket in simp)
    then show ?thesis using GPacket guilds_mono by simp
  next
    case (GOperation i p)
    then show ?thesis using guilds_operation [OF Cons.prems(1)] Cons.prems(3) by simp
  qed
  moreover have "founders evs \<subseteq> F" using Cons.prems(2) by (cases ev) (auto split: if_splits)
  ultimately show ?case using Cons.IH [of "Suc n" "guild_step ev store"] Cons.prems(3) by simp
qed simp

text \<open>C26. The guilds of a channel stay sound: after any guild packets of any sessions, at any times, mixed
  with the operations on grades, comments and members that the library offers, the guilds are
  numbered 1, 2, ... in the order of their foundation, no two names are equal up to case and each
  has 2 to 12 characters; no player is a member of a guild twice and no guild, its founder
  included, has more than 32 members; grades are distinct slots from 1 to 15 with distinct names of
  1 to 8 characters; comments have distinct identifiers and no comment stands twice; and a player
  who has never sent a foundation is in at most one guild.\<close>

theorem guild_stays_sound:
  assumes "int (length evs) \<le> i64_max"
  shows "guilds_ok (length evs) (founders evs) (fold guild_step evs [])"
  using guilds_run [of 0 "founders evs" "[]" evs] assms by (simp add: guilds_ok_def guilds_of_def)

definition seen_by :: "int \<Rightarrow> guild_env" where
  "seen_by pid = \<lparr>ge_pid = pid, ge_empire = 1, ge_online = (\<lambda>_. True), ge_now = 0\<rparr>"

definition found_packet :: "string \<Rightarrow> bytes" where
  "found_packet name = [CG_GUILD, SUB_CG_CREATE] @ List.map of_char name @ replicate (13 - length name) 0"

definition sample_guild_life :: "guild_event list" where
  "sample_guild_life =
    [GPacket (seen_by 7) (found_packet ''Reds''), GPacket (seen_by 7) [CG_GUILD, SUB_CG_ADD_MEMBER, 9, 0, 0, 0],
     GPacket (seen_by 9) [CG_GUILD, SUB_CG_INVITE_ANSWER, 1, 0, 0, 0, 1], GOperation 0 (OpGrade ''chief'')]"

lemma sample_guild_members: "List.map g_members (fold guild_step sample_guild_life []) = [[7, 9]]"
  by code_simp

theorem guild_stays_sound_witness:
  "guilds_ok (length sample_guild_life) (founders sample_guild_life) (fold guild_step sample_guild_life [])
    \<and> List.map g_members (fold guild_step sample_guild_life []) = [[7, 9]]"
  by (intro conjI guild_stays_sound sample_guild_members) (simp add: sample_guild_life_def i64_max_def)

text \<open>The exception is real: foundation does not look at the memberships of the founder, although
  an invitation and an answer do, so a player can be a member of any number of guilds.\<close>

lemma founder_in_two_guilds:
  "List.map g_members (fold guild_step [GPacket (seen_by 7) (found_packet ''Reds''),
     GPacket (seen_by 7) (found_packet ''Blues'')] []) = [[7], [7]]"
  by code_simp

end
