(* ===== verification/Pvp.thy ===== *)
theory Pvp
  imports Guild
begin

text \<open>
  Player killing (\<^verbatim>\<open>game_core/src/pvp.rs\<close>): the alignment, its penalty, the experience and the items
  a death costs, and the wars that lift the penalty. The client lemmas are proved in the locale
  \<open>dice\<close>, from the bounds of a throw, and used on the generator of the world.
\<close>

section \<open>Alignment\<close>

definition ALIGNMENT_MAX :: int where "ALIGNMENT_MAX = 200000"

definition clamp :: "int \<Rightarrow> int \<Rightarrow> int \<Rightarrow> int" where
  "clamp lo hi v = (if v < lo then lo else if v > hi then hi else v)"

text \<open>The sum is an \<^verbatim>\<open>i32\<close> and wraps.\<close>

definition update_alignment :: "i32 \<Rightarrow> i32 \<Rightarrow> int" where
  "update_alignment alignment amount = clamp (- ALIGNMENT_MAX) ALIGNMENT_MAX (sint (alignment + amount))"

definition PK_ALIGNMENT_PENALTY :: int where "PK_ALIGNMENT_PENALTY = - 20000"

definition pk_penalty_delta :: "('g \<Rightarrow> int \<Rightarrow> int \<Rightarrow> int \<times> 'g) \<Rightarrow> int \<Rightarrow> u32 \<Rightarrow> 'g \<Rightarrow> int \<times> 'g" where
  "pk_penalty_delta throw attacker_alignment party_in_range g =
    (let no_penalty_pct = (if attacker_alignment \<ge> 0 then 33 else 20)
     in case throw g 1 100 of (r, g') \<Rightarrow>
          if r < no_penalty_pct then (0, g')
          else if party_in_range = 0 then (PK_ALIGNMENT_PENALTY, g')
          else (trunc_div PK_ALIGNMENT_PENALTY (sint party_in_range), g'))"

section \<open>Experience\<close>

definition exp_loss_pct :: "nat \<Rightarrow> nat" where
  "exp_loss_pct level =
    (if level = 0 \<or> 121 \<le> level then 1
     else if level \<le> 9 then 5
     else if level \<le> 27 then 4
     else if level \<le> 44 then 3
     else if level \<le> 62 then 2
     else 1)"

definition EXP_LOSS_CAP :: u64 where "EXP_LOSS_CAP = 800000"

text \<open>The product is a \<^verbatim>\<open>u64\<close> and wraps.\<close>

definition death_exp_loss :: "('g \<Rightarrow> int \<Rightarrow> int \<Rightarrow> int \<times> 'g) \<Rightarrow> nat \<Rightarrow> u64 \<Rightarrow> bool \<Rightarrow> bool \<Rightarrow> 'g \<Rightarrow> u64 \<times> 'g" where
  "death_exp_loss throw level next_exp no_death_penalty teardrop g =
    (if level < 10 then (0, g)
     else case throw g 0 2 of (r, g') \<Rightarrow>
       if r \<noteq> 0 then (0, g')
       else if no_death_penalty then (0, g')
       else (let loss = min (next_exp * of_nat (exp_loss_pct level) div 100) EXP_LOSS_CAP
             in (if teardrop then loss div 2 else loss, g')))"

section \<open>Items\<close>

record DropPenalty =
  dp_inventory_pct :: nat
  dp_inventory_qty :: nat
  dp_equipment_pct :: nat
  dp_equipment_qty :: nat

definition drop_row :: "nat \<Rightarrow> nat \<Rightarrow> nat \<Rightarrow> nat \<Rightarrow> DropPenalty" where
  "drop_row ip iq ep eq =
    \<lparr>dp_inventory_pct = ip, dp_inventory_qty = iq, dp_equipment_pct = ep, dp_equipment_qty = eq\<rparr>"

definition drop_penalty :: "int \<Rightarrow> DropPenalty" where
  "drop_penalty alignment =
    (if alignment \<ge> 120000 then drop_row 0 0 0 0
     else if alignment \<ge> 80000 then drop_row 0 0 0 0
     else if alignment \<ge> 40000 then drop_row 0 0 0 0
     else if alignment \<ge> 10000 then drop_row 0 0 0 0
     else if alignment \<ge> 0 then drop_row 0 0 0 0
     else if alignment > - 40000 then drop_row 25 1 5 1
     else if alignment > - 80000 then drop_row 50 2 10 1
     else if alignment > - 120000 then drop_row 75 4 15 1
     else drop_row 100 8 20 1)"

text \<open>The casts \<^verbatim>\<open>as u32\<close> of the rolls are read back as natural numbers.\<close>

definition as_u32 :: "int \<Rightarrow> nat" where
  "as_u32 v = unat (word_of_int v :: u32)"

definition drop_allowed :: "('g \<Rightarrow> int \<Rightarrow> int \<Rightarrow> int \<times> 'g) \<Rightarrow> DropPenalty \<Rightarrow> bool \<Rightarrow> 'g \<Rightarrow> (bool \<times> bool) \<times> 'g" where
  "drop_allowed throw p skip_item g =
    (case throw g 1 1000 of (r1, g1) \<Rightarrow>
       case throw g1 1 100 of (r2, g2) \<Rightarrow>
         (if skip_item then (False, False)
          else (as_u32 r1 \<le> dp_inventory_pct p, as_u32 r2 \<le> dp_equipment_pct p), g2))"

section \<open>Wars\<close>

definition is_at_war :: "int option \<Rightarrow> int option \<Rightarrow> GuildWar list \<Rightarrow> bool" where
  "is_at_war attacker victim wars =
    (case (attacker, victim) of
       (Some a, Some b) \<Rightarrow>
         a \<noteq> b \<and> list_ex (\<lambda>w. (w_guild_a w = a \<and> w_guild_b w = b) \<or> (w_guild_a w = b \<and> w_guild_b w = a)) wars
     | _ \<Rightarrow> False)"

definition pk_penalty_delta_war :: "('g \<Rightarrow> int \<Rightarrow> int \<Rightarrow> int \<times> 'g) \<Rightarrow> int \<Rightarrow> u32 \<Rightarrow> int option \<Rightarrow> int option \<Rightarrow>
    GuildWar list \<Rightarrow> 'g \<Rightarrow> int \<times> 'g" where
  "pk_penalty_delta_war throw attacker_alignment party_in_range attacker victim wars g =
    (if is_at_war attacker victim wars then (0, g)
     else pk_penalty_delta throw attacker_alignment party_in_range g)"

lemma at_war_pair:
  "is_at_war (Some a) (Some b) wars \<longleftrightarrow> a \<noteq> b \<and> sorted_pair a b \<in> war_pair ` set wars"
  by (auto simp: is_at_war_def list_ex_iff war_pair_def image_iff sorted_pair_eq)

lemma at_war_sym: "is_at_war x y wars = is_at_war y x wars"
  by (auto simp: is_at_war_def list_ex_iff split: option.split)

lemma fresh_score: "declare_war ws a b t = Inr w \<Longrightarrow> w_score_a w = 0 \<and> w_score_b w = 0"
  by (auto simp: declare_war_def split: prod.splits if_splits)

text \<open>Wars: after any declarations two guilds are at war exactly when one of them declared it on the
  other with a valid type, whichever way round one asks; no pair of guilds has two wars.\<close>

theorem wars_as_declared:
  "(is_at_war (Some a) (Some b) (fold declare_step ds [])
      \<longleftrightarrow> a \<noteq> b \<and> (\<exists>t. t \<le> 2 \<and> ((a, b, t) \<in> set ds \<or> (b, a, t) \<in> set ds)))
    \<and> is_at_war (Some b) (Some a) (fold declare_step ds []) = is_at_war (Some a) (Some b) (fold declare_step ds [])
    \<and> distinct (List.map war_pair (fold declare_step ds []))"
  using declared_pairs [of ds "[]"] at_war_sym [of "Some b" "Some a"]
  by (auto simp: at_war_pair sorted_pair_eq)

section \<open>Bounds\<close>

lemma trunc_div_penalty: "0 < k \<Longrightarrow> - 20000 \<le> trunc_div (- 20000) k \<and> trunc_div (- 20000) k \<le> 0"
proof -
  assume k: "0 < k"
  then have "20000 div k \<le> 20000 div 1" by (intro zdiv_mono2) auto
  with k show ?thesis by (auto simp: trunc_div_def Let_def pos_imp_zdiv_nonneg_iff)
qed

lemma as_u32_small: "0 \<le> v \<Longrightarrow> v < 2 ^ 32 \<Longrightarrow> as_u32 v = nat v"
  by (simp add: as_u32_def unsigned_of_int take_bit_int_eq_self)

lemma drop_penalty_clean: "0 \<le> al \<Longrightarrow> drop_penalty al = drop_row 0 0 0 0"
  by (simp add: drop_penalty_def)

context dice
begin

lemma penalty_bounds:
  assumes "uint party_in_range < 2 ^ 31"
  shows "- 20000 \<le> fst (pk_penalty_delta throw al party_in_range g) \<and> fst (pk_penalty_delta throw al party_in_range g) \<le> 0"
proof (cases "party_in_range = 0")
  case False
  have "sint party_in_range = uint party_in_range"
    using assms by (simp add: sint_uint signed_take_bit_int_eq_self order_trans [OF _ uint_ge_0])
  moreover have "0 < uint party_in_range"
    using False uint_0_iff [of party_in_range] uint_ge_0 [of party_in_range] by linarith
  ultimately show ?thesis
    using False trunc_div_penalty [of "uint party_in_range"]
    by (auto simp: pk_penalty_delta_def PK_ALIGNMENT_PENALTY_def split: prod.split)
qed (auto simp: pk_penalty_delta_def PK_ALIGNMENT_PENALTY_def split: prod.split)

lemma no_drop_above_zero:
  assumes "0 \<le> al"
  shows "fst (drop_allowed throw (drop_penalty al) skip_item g) = (False, False)"
proof -
  obtain r1 g1 where r1: "throw g 1 1000 = (r1, g1)" by fastforce
  obtain r2 g2 where r2: "throw g1 1 100 = (r2, g2)" by fastforce
  have "1 \<le> r1" "r1 \<le> 1000" "1 \<le> r2" "r2 \<le> 100"
    using throw_bounds [of 1 1000 g] throw_bounds [of 1 100 g1] by (simp_all add: r1 r2)
  then show ?thesis
    by (simp add: drop_allowed_def r1 r2 drop_penalty_clean [OF assms] drop_row_def as_u32_small)
qed

end

lemma loss_bounds: "fst (death_exp_loss throw level next_exp nd td g) \<le> 800000"
proof -
  have "loss div 2 \<le> 800000" if "loss \<le> 800000" for loss :: u64
    using that div_le_dividend [of "unat loss" 2] by (simp add: word_le_nat_alt unat_div)
  moreover have "min x EXP_LOSS_CAP \<le> 800000" for x by (simp add: EXP_LOSS_CAP_def)
  ultimately show ?thesis by (auto simp: death_exp_loss_def Let_def split: prod.split)
qed

lemma clamp_bounds: "lo \<le> hi \<Longrightarrow> lo \<le> clamp lo hi v \<and> clamp lo hi v \<le> hi"
  by (simp add: clamp_def)

text \<open>What a murder and a death cost, with the generator of the world: the alignment stays within
  200000 of zero, the murderer loses at most 20000 of it, shared among any party, and nothing in a
  war of the two guilds; a victim loses at most 800000 of experience, none below level 10, and a
  victim of alignment 0 or above drops no item.\<close>

theorem pk_penalties_bounded:
  assumes "uint party_in_range < 2 ^ 31"
  shows "\<bar>update_alignment alignment amount\<bar> \<le> 200000
    \<and> - 20000 \<le> fst (pk_penalty_delta_war rand_throw al party_in_range x y wars g)
    \<and> fst (pk_penalty_delta_war rand_throw al party_in_range x y wars g) \<le> 0
    \<and> pk_penalty_delta_war rand_throw al party_in_range x y (\<lparr>w_guild_a = a, w_guild_b = b, w_score_a = sa, w_score_b = sb\<rparr> # wars) g = (if (x, y) \<in> {(Some a, Some b), (Some b, Some a)} \<and> a \<noteq> b then (0, g)
         else pk_penalty_delta_war rand_throw al party_in_range x y wars g)
    \<and> fst (death_exp_loss rand_throw level next_exp nd td g) \<le> (if level < 10 then 0 else 800000)
    \<and> fst (drop_allowed rand_throw (drop_penalty \<bar>v\<bar>) skip_item g) = (False, False)"
  using rand.penalty_bounds [OF assms, of al g] rand.no_drop_above_zero [of "\<bar>v\<bar>" skip_item g]
    loss_bounds [of rand_throw level next_exp nd td g] clamp_bounds [of "- 200000" 200000 "sint (alignment + amount)"]
  by (auto simp: update_alignment_def ALIGNMENT_MAX_def pk_penalty_delta_war_def is_at_war_def
      death_exp_loss_def split: option.splits)

theorem pk_penalties_bounded_witness:
  "\<bar>update_alignment (- 190000) (- 20000)\<bar> \<le> 200000
    \<and> - 20000 \<le> fst (pk_penalty_delta_war rand_throw 5 3 (Some 1) (Some 2) [] (Rand_new 7))
    \<and> fst (drop_allowed rand_throw (drop_penalty \<bar>- 5\<bar>) False (Rand_new 7)) = (False, False)"
  using pk_penalties_bounded [of 3 "- 190000" "- 20000" 5 "Some 1" "Some 2" "[]" "Rand_new 7" 1 2 0 0 50 1000 False False "- 5" False]
  by simp

end
