(* ===== verification/PartyPackets.thy ===== *)
theory PartyPackets
  imports Wire Headers
begin

text \<open>
  The packets of the party and the warp (\<^verbatim>\<open>protocol/src/world.rs\<close>, section PARTY), in the shape of
  \<open>ClientPackets\<close>: record, constructor, reader, writer, and the interpretation of \<open>packet_codec\<close>.
\<close>

record TPacketCGPartyInvite =
  header :: u8
  vid :: u32

definition TPacketCGPartyInvite_SIZE :: nat where [simp]: "TPacketCGPartyInvite_SIZE = 5"

definition TPacketCGPartyInvite_new :: "u32 \<Rightarrow> TPacketCGPartyInvite" where
  "TPacketCGPartyInvite_new vid' =
     \<lparr>header = CG_PARTY_INVITE,
      vid = vid'\<rparr>"

definition TPacketCGPartyInvite_from_bytes :: "bytes \<Rightarrow> ProtocolError + TPacketCGPartyInvite" where
  "TPacketCGPartyInvite_from_bytes data =
     (if length data \<noteq> TPacketCGPartyInvite_SIZE then Inl (BadLength TPacketCGPartyInvite_SIZE (length data))
      else Inr \<lparr>header = data ! 0,
        vid = rd_u32 data 1\<rparr>)"

definition TPacketCGPartyInvite_to_bytes :: "TPacketCGPartyInvite \<Rightarrow> bytes" where
  "TPacketCGPartyInvite_to_bytes p =
    (let b = replicate TPacketCGPartyInvite_SIZE 0;
         b = b[0 := header p];
         b = copy_at b 1 (le32 (vid p))
     in b)"

definition TPacketCGPartyInvite_wf :: "TPacketCGPartyInvite \<Rightarrow> bool" where
  "TPacketCGPartyInvite_wf p \<longleftrightarrow> True"

interpretation cg_party_invite:
  packet_codec TPacketCGPartyInvite_SIZE TPacketCGPartyInvite_wf TPacketCGPartyInvite_to_bytes TPacketCGPartyInvite_from_bytes
  by (rule packet_codecI [OF TPacketCGPartyInvite_from_bytes_def])
     (auto simp: TPacketCGPartyInvite_to_bytes_def TPacketCGPartyInvite_wf_def rd_wr array_lengths intro!: covers)

lemma TPacketCGPartyInvite_new_wf [simp]: "TPacketCGPartyInvite_wf (TPacketCGPartyInvite_new vid')"
  by (simp add: TPacketCGPartyInvite_wf_def TPacketCGPartyInvite_new_def)

record TPacketCGPartyInviteAnswer =
  header :: u8
  leader_vid :: u32
  accept :: u8

definition TPacketCGPartyInviteAnswer_SIZE :: nat where [simp]: "TPacketCGPartyInviteAnswer_SIZE = 6"

definition TPacketCGPartyInviteAnswer_new :: "u32 \<Rightarrow> u8 \<Rightarrow> TPacketCGPartyInviteAnswer" where
  "TPacketCGPartyInviteAnswer_new leader_vid' accept' =
     \<lparr>header = CG_PARTY_INVITE_ANSWER,
      leader_vid = leader_vid',
      accept = accept'\<rparr>"

definition TPacketCGPartyInviteAnswer_from_bytes :: "bytes \<Rightarrow> ProtocolError + TPacketCGPartyInviteAnswer" where
  "TPacketCGPartyInviteAnswer_from_bytes data =
     (if length data \<noteq> TPacketCGPartyInviteAnswer_SIZE then Inl (BadLength TPacketCGPartyInviteAnswer_SIZE (length data))
      else Inr \<lparr>header = data ! 0,
        leader_vid = rd_u32 data 1,
        accept = data ! 5\<rparr>)"

definition TPacketCGPartyInviteAnswer_to_bytes :: "TPacketCGPartyInviteAnswer \<Rightarrow> bytes" where
  "TPacketCGPartyInviteAnswer_to_bytes p =
    (let b = replicate TPacketCGPartyInviteAnswer_SIZE 0;
         b = b[0 := header p];
         b = copy_at b 1 (le32 (leader_vid p));
         b = b[5 := accept p]
     in b)"

definition TPacketCGPartyInviteAnswer_wf :: "TPacketCGPartyInviteAnswer \<Rightarrow> bool" where
  "TPacketCGPartyInviteAnswer_wf p \<longleftrightarrow> True"

interpretation cg_party_invite_answer:
  packet_codec TPacketCGPartyInviteAnswer_SIZE TPacketCGPartyInviteAnswer_wf TPacketCGPartyInviteAnswer_to_bytes TPacketCGPartyInviteAnswer_from_bytes
  by (rule packet_codecI [OF TPacketCGPartyInviteAnswer_from_bytes_def])
     (auto simp: TPacketCGPartyInviteAnswer_to_bytes_def TPacketCGPartyInviteAnswer_wf_def rd_wr array_lengths intro!: covers)

lemma TPacketCGPartyInviteAnswer_new_wf [simp]: "TPacketCGPartyInviteAnswer_wf (TPacketCGPartyInviteAnswer_new leader_vid' accept')"
  by (simp add: TPacketCGPartyInviteAnswer_wf_def TPacketCGPartyInviteAnswer_new_def)

record TPacketCGPartyRemove =
  header :: u8
  pid :: u32

definition TPacketCGPartyRemove_SIZE :: nat where [simp]: "TPacketCGPartyRemove_SIZE = 5"

definition TPacketCGPartyRemove_new :: "u32 \<Rightarrow> TPacketCGPartyRemove" where
  "TPacketCGPartyRemove_new pid' =
     \<lparr>header = CG_PARTY_REMOVE,
      pid = pid'\<rparr>"

definition TPacketCGPartyRemove_from_bytes :: "bytes \<Rightarrow> ProtocolError + TPacketCGPartyRemove" where
  "TPacketCGPartyRemove_from_bytes data =
     (if length data \<noteq> TPacketCGPartyRemove_SIZE then Inl (BadLength TPacketCGPartyRemove_SIZE (length data))
      else Inr \<lparr>header = data ! 0,
        pid = rd_u32 data 1\<rparr>)"

definition TPacketCGPartyRemove_to_bytes :: "TPacketCGPartyRemove \<Rightarrow> bytes" where
  "TPacketCGPartyRemove_to_bytes p =
    (let b = replicate TPacketCGPartyRemove_SIZE 0;
         b = b[0 := header p];
         b = copy_at b 1 (le32 (pid p))
     in b)"

definition TPacketCGPartyRemove_wf :: "TPacketCGPartyRemove \<Rightarrow> bool" where
  "TPacketCGPartyRemove_wf p \<longleftrightarrow> True"

interpretation cg_party_remove:
  packet_codec TPacketCGPartyRemove_SIZE TPacketCGPartyRemove_wf TPacketCGPartyRemove_to_bytes TPacketCGPartyRemove_from_bytes
  by (rule packet_codecI [OF TPacketCGPartyRemove_from_bytes_def])
     (auto simp: TPacketCGPartyRemove_to_bytes_def TPacketCGPartyRemove_wf_def rd_wr array_lengths intro!: covers)

lemma TPacketCGPartyRemove_new_wf [simp]: "TPacketCGPartyRemove_wf (TPacketCGPartyRemove_new pid')"
  by (simp add: TPacketCGPartyRemove_wf_def TPacketCGPartyRemove_new_def)

record TPacketCGPartyParameter =
  header :: u8
  b_distribute_mode :: u8

definition TPacketCGPartyParameter_SIZE :: nat where [simp]: "TPacketCGPartyParameter_SIZE = 2"

definition TPacketCGPartyParameter_new :: "u8 \<Rightarrow> TPacketCGPartyParameter" where
  "TPacketCGPartyParameter_new b_distribute_mode' =
     \<lparr>header = CG_PARTY_PARAMETER,
      b_distribute_mode = b_distribute_mode'\<rparr>"

definition TPacketCGPartyParameter_from_bytes :: "bytes \<Rightarrow> ProtocolError + TPacketCGPartyParameter" where
  "TPacketCGPartyParameter_from_bytes data =
     (if length data \<noteq> TPacketCGPartyParameter_SIZE then Inl (BadLength TPacketCGPartyParameter_SIZE (length data))
      else Inr \<lparr>header = data ! 0,
        b_distribute_mode = data ! 1\<rparr>)"

definition TPacketCGPartyParameter_to_bytes :: "TPacketCGPartyParameter \<Rightarrow> bytes" where
  "TPacketCGPartyParameter_to_bytes p = [header p, b_distribute_mode p]"

definition TPacketCGPartyParameter_wf :: "TPacketCGPartyParameter \<Rightarrow> bool" where
  "TPacketCGPartyParameter_wf p \<longleftrightarrow> True"

interpretation cg_party_parameter:
  packet_codec TPacketCGPartyParameter_SIZE TPacketCGPartyParameter_wf TPacketCGPartyParameter_to_bytes TPacketCGPartyParameter_from_bytes
  by (rule packet_codecI [OF TPacketCGPartyParameter_from_bytes_def])
     (auto simp: TPacketCGPartyParameter_to_bytes_def TPacketCGPartyParameter_wf_def rd_wr array_lengths intro!: covers)

lemma TPacketCGPartyParameter_new_wf [simp]: "TPacketCGPartyParameter_wf (TPacketCGPartyParameter_new b_distribute_mode')"
  by (simp add: TPacketCGPartyParameter_wf_def TPacketCGPartyParameter_new_def)

record TPacketCGPartySetState =
  header :: u8
  pid :: u32
  by_role :: u8
  flag :: u8

definition TPacketCGPartySetState_SIZE :: nat where [simp]: "TPacketCGPartySetState_SIZE = 7"

definition TPacketCGPartySetState_new :: "u32 \<Rightarrow> u8 \<Rightarrow> u8 \<Rightarrow> TPacketCGPartySetState" where
  "TPacketCGPartySetState_new pid' by_role' flag' =
     \<lparr>header = CG_PARTY_SET_STATE,
      pid = pid',
      by_role = by_role',
      flag = flag'\<rparr>"

definition TPacketCGPartySetState_from_bytes :: "bytes \<Rightarrow> ProtocolError + TPacketCGPartySetState" where
  "TPacketCGPartySetState_from_bytes data =
     (if length data \<noteq> TPacketCGPartySetState_SIZE then Inl (BadLength TPacketCGPartySetState_SIZE (length data))
      else Inr \<lparr>header = data ! 0,
        pid = rd_u32 data 1,
        by_role = data ! 5,
        flag = data ! 6\<rparr>)"

definition TPacketCGPartySetState_to_bytes :: "TPacketCGPartySetState \<Rightarrow> bytes" where
  "TPacketCGPartySetState_to_bytes p =
    (let b = replicate TPacketCGPartySetState_SIZE 0;
         b = b[0 := header p];
         b = copy_at b 1 (le32 (pid p));
         b = b[5 := by_role p];
         b = b[6 := flag p]
     in b)"

definition TPacketCGPartySetState_wf :: "TPacketCGPartySetState \<Rightarrow> bool" where
  "TPacketCGPartySetState_wf p \<longleftrightarrow> True"

interpretation cg_party_set_state:
  packet_codec TPacketCGPartySetState_SIZE TPacketCGPartySetState_wf TPacketCGPartySetState_to_bytes TPacketCGPartySetState_from_bytes
  by (rule packet_codecI [OF TPacketCGPartySetState_from_bytes_def])
     (auto simp: TPacketCGPartySetState_to_bytes_def TPacketCGPartySetState_wf_def rd_wr array_lengths intro!: covers)

lemma TPacketCGPartySetState_new_wf [simp]: "TPacketCGPartySetState_wf (TPacketCGPartySetState_new pid' by_role' flag')"
  by (simp add: TPacketCGPartySetState_wf_def TPacketCGPartySetState_new_def)

record TPacketCGPartyUseSkill =
  header :: u8
  by_skill_index :: u8
  vid :: u32

definition TPacketCGPartyUseSkill_SIZE :: nat where [simp]: "TPacketCGPartyUseSkill_SIZE = 6"

definition TPacketCGPartyUseSkill_new :: "u8 \<Rightarrow> u32 \<Rightarrow> TPacketCGPartyUseSkill" where
  "TPacketCGPartyUseSkill_new by_skill_index' vid' =
     \<lparr>header = CG_PARTY_USE_SKILL,
      by_skill_index = by_skill_index',
      vid = vid'\<rparr>"

definition TPacketCGPartyUseSkill_from_bytes :: "bytes \<Rightarrow> ProtocolError + TPacketCGPartyUseSkill" where
  "TPacketCGPartyUseSkill_from_bytes data =
     (if length data \<noteq> TPacketCGPartyUseSkill_SIZE then Inl (BadLength TPacketCGPartyUseSkill_SIZE (length data))
      else Inr \<lparr>header = data ! 0,
        by_skill_index = data ! 1,
        vid = rd_u32 data 2\<rparr>)"

definition TPacketCGPartyUseSkill_to_bytes :: "TPacketCGPartyUseSkill \<Rightarrow> bytes" where
  "TPacketCGPartyUseSkill_to_bytes p =
    (let b = replicate TPacketCGPartyUseSkill_SIZE 0;
         b = b[0 := header p];
         b = b[1 := by_skill_index p];
         b = copy_at b 2 (le32 (vid p))
     in b)"

definition TPacketCGPartyUseSkill_wf :: "TPacketCGPartyUseSkill \<Rightarrow> bool" where
  "TPacketCGPartyUseSkill_wf p \<longleftrightarrow> True"

interpretation cg_party_use_skill:
  packet_codec TPacketCGPartyUseSkill_SIZE TPacketCGPartyUseSkill_wf TPacketCGPartyUseSkill_to_bytes TPacketCGPartyUseSkill_from_bytes
  by (rule packet_codecI [OF TPacketCGPartyUseSkill_from_bytes_def])
     (auto simp: TPacketCGPartyUseSkill_to_bytes_def TPacketCGPartyUseSkill_wf_def rd_wr array_lengths intro!: covers)

lemma TPacketCGPartyUseSkill_new_wf [simp]: "TPacketCGPartyUseSkill_wf (TPacketCGPartyUseSkill_new by_skill_index' vid')"
  by (simp add: TPacketCGPartyUseSkill_wf_def TPacketCGPartyUseSkill_new_def)

record TPacketGCPartyLink =
  header :: u8
  pid :: u32
  vid :: u32

definition TPacketGCPartyLink_SIZE :: nat where [simp]: "TPacketGCPartyLink_SIZE = 9"

definition TPacketGCPartyLink_new :: "u32 \<Rightarrow> u32 \<Rightarrow> TPacketGCPartyLink" where
  "TPacketGCPartyLink_new pid' vid' =
     \<lparr>header = GC_PARTY_LINK,
      pid = pid',
      vid = vid'\<rparr>"

definition TPacketGCPartyLink_from_bytes :: "bytes \<Rightarrow> ProtocolError + TPacketGCPartyLink" where
  "TPacketGCPartyLink_from_bytes data =
     (if length data \<noteq> TPacketGCPartyLink_SIZE then Inl (BadLength TPacketGCPartyLink_SIZE (length data))
      else Inr \<lparr>header = data ! 0,
        pid = rd_u32 data 1,
        vid = rd_u32 data 5\<rparr>)"

definition TPacketGCPartyLink_to_bytes :: "TPacketGCPartyLink \<Rightarrow> bytes" where
  "TPacketGCPartyLink_to_bytes p =
    (let b = replicate TPacketGCPartyLink_SIZE 0;
         b = b[0 := header p];
         b = copy_at b 1 (le32 (pid p));
         b = copy_at b 5 (le32 (vid p))
     in b)"

definition TPacketGCPartyLink_wf :: "TPacketGCPartyLink \<Rightarrow> bool" where
  "TPacketGCPartyLink_wf p \<longleftrightarrow> True"

interpretation gc_party_link:
  packet_codec TPacketGCPartyLink_SIZE TPacketGCPartyLink_wf TPacketGCPartyLink_to_bytes TPacketGCPartyLink_from_bytes
  by (rule packet_codecI [OF TPacketGCPartyLink_from_bytes_def])
     (auto simp: TPacketGCPartyLink_to_bytes_def TPacketGCPartyLink_wf_def rd_wr array_lengths intro!: covers)

lemma TPacketGCPartyLink_new_wf [simp]: "TPacketGCPartyLink_wf (TPacketGCPartyLink_new pid' vid')"
  by (simp add: TPacketGCPartyLink_wf_def TPacketGCPartyLink_new_def)

record TPacketGCPartyUnlink =
  header :: u8
  pid :: u32
  vid :: u32

definition TPacketGCPartyUnlink_SIZE :: nat where [simp]: "TPacketGCPartyUnlink_SIZE = 9"

definition TPacketGCPartyUnlink_new :: "u32 \<Rightarrow> u32 \<Rightarrow> TPacketGCPartyUnlink" where
  "TPacketGCPartyUnlink_new pid' vid' =
     \<lparr>header = GC_PARTY_UNLINK,
      pid = pid',
      vid = vid'\<rparr>"

definition TPacketGCPartyUnlink_from_bytes :: "bytes \<Rightarrow> ProtocolError + TPacketGCPartyUnlink" where
  "TPacketGCPartyUnlink_from_bytes data =
     (if length data \<noteq> TPacketGCPartyUnlink_SIZE then Inl (BadLength TPacketGCPartyUnlink_SIZE (length data))
      else Inr \<lparr>header = data ! 0,
        pid = rd_u32 data 1,
        vid = rd_u32 data 5\<rparr>)"

definition TPacketGCPartyUnlink_to_bytes :: "TPacketGCPartyUnlink \<Rightarrow> bytes" where
  "TPacketGCPartyUnlink_to_bytes p =
    (let b = replicate TPacketGCPartyUnlink_SIZE 0;
         b = b[0 := header p];
         b = copy_at b 1 (le32 (pid p));
         b = copy_at b 5 (le32 (vid p))
     in b)"

definition TPacketGCPartyUnlink_wf :: "TPacketGCPartyUnlink \<Rightarrow> bool" where
  "TPacketGCPartyUnlink_wf p \<longleftrightarrow> True"

interpretation gc_party_unlink:
  packet_codec TPacketGCPartyUnlink_SIZE TPacketGCPartyUnlink_wf TPacketGCPartyUnlink_to_bytes TPacketGCPartyUnlink_from_bytes
  by (rule packet_codecI [OF TPacketGCPartyUnlink_from_bytes_def])
     (auto simp: TPacketGCPartyUnlink_to_bytes_def TPacketGCPartyUnlink_wf_def rd_wr array_lengths intro!: covers)

lemma TPacketGCPartyUnlink_new_wf [simp]: "TPacketGCPartyUnlink_wf (TPacketGCPartyUnlink_new pid' vid')"
  by (simp add: TPacketGCPartyUnlink_wf_def TPacketGCPartyUnlink_new_def)

record TPacketGCPartyInvite =
  header :: u8
  leader_vid :: u32

definition TPacketGCPartyInvite_SIZE :: nat where [simp]: "TPacketGCPartyInvite_SIZE = 5"

definition TPacketGCPartyInvite_new :: "u32 \<Rightarrow> TPacketGCPartyInvite" where
  "TPacketGCPartyInvite_new leader_vid' =
     \<lparr>header = GC_PARTY_INVITE,
      leader_vid = leader_vid'\<rparr>"

definition TPacketGCPartyInvite_from_bytes :: "bytes \<Rightarrow> ProtocolError + TPacketGCPartyInvite" where
  "TPacketGCPartyInvite_from_bytes data =
     (if length data \<noteq> TPacketGCPartyInvite_SIZE then Inl (BadLength TPacketGCPartyInvite_SIZE (length data))
      else Inr \<lparr>header = data ! 0,
        leader_vid = rd_u32 data 1\<rparr>)"

definition TPacketGCPartyInvite_to_bytes :: "TPacketGCPartyInvite \<Rightarrow> bytes" where
  "TPacketGCPartyInvite_to_bytes p =
    (let b = replicate TPacketGCPartyInvite_SIZE 0;
         b = b[0 := header p];
         b = copy_at b 1 (le32 (leader_vid p))
     in b)"

definition TPacketGCPartyInvite_wf :: "TPacketGCPartyInvite \<Rightarrow> bool" where
  "TPacketGCPartyInvite_wf p \<longleftrightarrow> True"

interpretation gc_party_invite:
  packet_codec TPacketGCPartyInvite_SIZE TPacketGCPartyInvite_wf TPacketGCPartyInvite_to_bytes TPacketGCPartyInvite_from_bytes
  by (rule packet_codecI [OF TPacketGCPartyInvite_from_bytes_def])
     (auto simp: TPacketGCPartyInvite_to_bytes_def TPacketGCPartyInvite_wf_def rd_wr array_lengths intro!: covers)

lemma TPacketGCPartyInvite_new_wf [simp]: "TPacketGCPartyInvite_wf (TPacketGCPartyInvite_new leader_vid')"
  by (simp add: TPacketGCPartyInvite_wf_def TPacketGCPartyInvite_new_def)

record TPacketGCPartyAdd =
  header :: u8
  pid :: u32
  char_name :: bytes

definition TPacketGCPartyAdd_SIZE :: nat where [simp]: "TPacketGCPartyAdd_SIZE = 30"

definition TPacketGCPartyAdd_new :: "u32 \<Rightarrow> bytes \<Rightarrow> TPacketGCPartyAdd" where
  "TPacketGCPartyAdd_new pid' char_name' =
     \<lparr>header = GC_PARTY_ADD,
      pid = pid',
      char_name = from_cstr 25 char_name'\<rparr>"

definition TPacketGCPartyAdd_from_bytes :: "bytes \<Rightarrow> ProtocolError + TPacketGCPartyAdd" where
  "TPacketGCPartyAdd_from_bytes data =
     (if length data \<noteq> TPacketGCPartyAdd_SIZE then Inl (BadLength TPacketGCPartyAdd_SIZE (length data))
      else Inr \<lparr>header = data ! 0,
        pid = rd_u32 data 1,
        char_name = rd_arr 25 data 5\<rparr>)"

definition TPacketGCPartyAdd_to_bytes :: "TPacketGCPartyAdd \<Rightarrow> bytes" where
  "TPacketGCPartyAdd_to_bytes p =
    (let b = replicate TPacketGCPartyAdd_SIZE 0;
         b = b[0 := header p];
         b = copy_at b 1 (le32 (pid p));
         b = copy_at b 5 (char_name p)
     in b)"

definition TPacketGCPartyAdd_wf :: "TPacketGCPartyAdd \<Rightarrow> bool" where
  "TPacketGCPartyAdd_wf p \<longleftrightarrow> length (char_name p) = 25"

interpretation gc_party_add:
  packet_codec TPacketGCPartyAdd_SIZE TPacketGCPartyAdd_wf TPacketGCPartyAdd_to_bytes TPacketGCPartyAdd_from_bytes
  by (rule packet_codecI [OF TPacketGCPartyAdd_from_bytes_def])
     (auto simp: TPacketGCPartyAdd_to_bytes_def TPacketGCPartyAdd_wf_def rd_wr array_lengths intro!: covers)

lemma TPacketGCPartyAdd_new_wf [simp]: "TPacketGCPartyAdd_wf (TPacketGCPartyAdd_new pid' char_name')"
  by (simp add: TPacketGCPartyAdd_wf_def TPacketGCPartyAdd_new_def)

record TPacketGCPartyUpdate =
  header :: u8
  pid :: u32
  role :: u8
  percent_hp :: u8
  affects :: "i16 list"

definition TPacketGCPartyUpdate_SIZE :: nat where [simp]: "TPacketGCPartyUpdate_SIZE = 21"

definition TPacketGCPartyUpdate_new :: "u32 \<Rightarrow> u8 \<Rightarrow> u8 \<Rightarrow> TPacketGCPartyUpdate" where
  "TPacketGCPartyUpdate_new pid' role' percent_hp' =
     \<lparr>header = GC_PARTY_UPDATE,
      pid = pid',
      role = role',
      percent_hp = percent_hp',
      affects = replicate 7 0\<rparr>"

definition TPacketGCPartyUpdate_from_bytes :: "bytes \<Rightarrow> ProtocolError + TPacketGCPartyUpdate" where
  "TPacketGCPartyUpdate_from_bytes data =
     (if length data \<noteq> TPacketGCPartyUpdate_SIZE then Inl (BadLength TPacketGCPartyUpdate_SIZE (length data))
      else Inr \<lparr>header = data ! 0,
        pid = rd_u32 data 1,
        role = data ! 5,
        percent_hp = data ! 6,
        affects = [from_le16 (data ! 7) (data ! 8), from_le16 (data ! 9) (data ! 10), from_le16 (data ! 11) (data ! 12), from_le16 (data ! 13) (data ! 14), from_le16 (data ! 15) (data ! 16), from_le16 (data ! 17) (data ! 18), from_le16 (data ! 19) (data ! 20)]\<rparr>)"

definition TPacketGCPartyUpdate_to_bytes :: "TPacketGCPartyUpdate \<Rightarrow> bytes" where
  "TPacketGCPartyUpdate_to_bytes p =
    (let b = replicate TPacketGCPartyUpdate_SIZE 0;
         b = b[0 := header p];
         b = copy_at b 1 (le32 (pid p));
         b = b[5 := role p];
         b = b[6 := percent_hp p];
         b = copy_at b 7 (le16 (affects p ! 0));
         b = copy_at b 9 (le16 (affects p ! 1));
         b = copy_at b 11 (le16 (affects p ! 2));
         b = copy_at b 13 (le16 (affects p ! 3));
         b = copy_at b 15 (le16 (affects p ! 4));
         b = copy_at b 17 (le16 (affects p ! 5));
         b = copy_at b 19 (le16 (affects p ! 6))
     in b)"

definition TPacketGCPartyUpdate_wf :: "TPacketGCPartyUpdate \<Rightarrow> bool" where
  "TPacketGCPartyUpdate_wf p \<longleftrightarrow> length (affects p) = 7"

lemma seven_entries:
  "length xs = 7 \<Longrightarrow> [xs ! 0, xs ! Suc 0, xs ! 2, xs ! 3, xs ! 4, xs ! 5, xs ! 6] = xs"
  by (auto simp: list_eq_iff_nth_eq less_Suc_eq nth_Cons numeral_eq_Suc)

interpretation gc_party_update:
  packet_codec TPacketGCPartyUpdate_SIZE TPacketGCPartyUpdate_wf TPacketGCPartyUpdate_to_bytes TPacketGCPartyUpdate_from_bytes
  by (rule packet_codecI [OF TPacketGCPartyUpdate_from_bytes_def])
     (auto simp: TPacketGCPartyUpdate_to_bytes_def TPacketGCPartyUpdate_wf_def rd_wr seven_entries intro!: covers)

lemma TPacketGCPartyUpdate_new_wf [simp]: "TPacketGCPartyUpdate_wf (TPacketGCPartyUpdate_new pid' role' percent_hp')"
  by (simp add: TPacketGCPartyUpdate_wf_def TPacketGCPartyUpdate_new_def)

record TPacketGCPartyRemove =
  header :: u8
  pid :: u32

definition TPacketGCPartyRemove_SIZE :: nat where [simp]: "TPacketGCPartyRemove_SIZE = 5"

definition TPacketGCPartyRemove_new :: "u32 \<Rightarrow> TPacketGCPartyRemove" where
  "TPacketGCPartyRemove_new pid' =
     \<lparr>header = GC_PARTY_REMOVE,
      pid = pid'\<rparr>"

definition TPacketGCPartyRemove_from_bytes :: "bytes \<Rightarrow> ProtocolError + TPacketGCPartyRemove" where
  "TPacketGCPartyRemove_from_bytes data =
     (if length data \<noteq> TPacketGCPartyRemove_SIZE then Inl (BadLength TPacketGCPartyRemove_SIZE (length data))
      else Inr \<lparr>header = data ! 0,
        pid = rd_u32 data 1\<rparr>)"

definition TPacketGCPartyRemove_to_bytes :: "TPacketGCPartyRemove \<Rightarrow> bytes" where
  "TPacketGCPartyRemove_to_bytes p =
    (let b = replicate TPacketGCPartyRemove_SIZE 0;
         b = b[0 := header p];
         b = copy_at b 1 (le32 (pid p))
     in b)"

definition TPacketGCPartyRemove_wf :: "TPacketGCPartyRemove \<Rightarrow> bool" where
  "TPacketGCPartyRemove_wf p \<longleftrightarrow> True"

interpretation gc_party_remove:
  packet_codec TPacketGCPartyRemove_SIZE TPacketGCPartyRemove_wf TPacketGCPartyRemove_to_bytes TPacketGCPartyRemove_from_bytes
  by (rule packet_codecI [OF TPacketGCPartyRemove_from_bytes_def])
     (auto simp: TPacketGCPartyRemove_to_bytes_def TPacketGCPartyRemove_wf_def rd_wr array_lengths intro!: covers)

lemma TPacketGCPartyRemove_new_wf [simp]: "TPacketGCPartyRemove_wf (TPacketGCPartyRemove_new pid')"
  by (simp add: TPacketGCPartyRemove_wf_def TPacketGCPartyRemove_new_def)

record TPacketGCPartyParameter =
  header :: u8
  b_distribute_mode :: u8

definition TPacketGCPartyParameter_SIZE :: nat where [simp]: "TPacketGCPartyParameter_SIZE = 2"

definition TPacketGCPartyParameter_new :: "u8 \<Rightarrow> TPacketGCPartyParameter" where
  "TPacketGCPartyParameter_new b_distribute_mode' =
     \<lparr>header = GC_PARTY_PARAMETER,
      b_distribute_mode = b_distribute_mode'\<rparr>"

definition TPacketGCPartyParameter_from_bytes :: "bytes \<Rightarrow> ProtocolError + TPacketGCPartyParameter" where
  "TPacketGCPartyParameter_from_bytes data =
     (if length data \<noteq> TPacketGCPartyParameter_SIZE then Inl (BadLength TPacketGCPartyParameter_SIZE (length data))
      else Inr \<lparr>header = data ! 0,
        b_distribute_mode = data ! 1\<rparr>)"

definition TPacketGCPartyParameter_to_bytes :: "TPacketGCPartyParameter \<Rightarrow> bytes" where
  "TPacketGCPartyParameter_to_bytes p = [header p, b_distribute_mode p]"

definition TPacketGCPartyParameter_wf :: "TPacketGCPartyParameter \<Rightarrow> bool" where
  "TPacketGCPartyParameter_wf p \<longleftrightarrow> True"

interpretation gc_party_parameter:
  packet_codec TPacketGCPartyParameter_SIZE TPacketGCPartyParameter_wf TPacketGCPartyParameter_to_bytes TPacketGCPartyParameter_from_bytes
  by (rule packet_codecI [OF TPacketGCPartyParameter_from_bytes_def])
     (auto simp: TPacketGCPartyParameter_to_bytes_def TPacketGCPartyParameter_wf_def rd_wr array_lengths intro!: covers)

lemma TPacketGCPartyParameter_new_wf [simp]: "TPacketGCPartyParameter_wf (TPacketGCPartyParameter_new b_distribute_mode')"
  by (simp add: TPacketGCPartyParameter_wf_def TPacketGCPartyParameter_new_def)

record TPacketGCWarp =
  header :: u8
  pos_x :: i32
  pos_y :: i32
  addr :: u32
  port :: u16

definition TPacketGCWarp_SIZE :: nat where [simp]: "TPacketGCWarp_SIZE = 15"

definition TPacketGCWarp_new :: "i32 \<Rightarrow> i32 \<Rightarrow> u32 \<Rightarrow> u16 \<Rightarrow> TPacketGCWarp" where
  "TPacketGCWarp_new pos_x' pos_y' addr' port' =
     \<lparr>header = 65,
      pos_x = pos_x',
      pos_y = pos_y',
      addr = addr',
      port = port'\<rparr>"

definition TPacketGCWarp_from_bytes :: "bytes \<Rightarrow> ProtocolError + TPacketGCWarp" where
  "TPacketGCWarp_from_bytes data =
     (if length data \<noteq> TPacketGCWarp_SIZE then Inl (BadLength TPacketGCWarp_SIZE (length data))
      else Inr \<lparr>header = data ! 0,
        pos_x = rd_u32 data 1,
        pos_y = rd_u32 data 5,
        addr = rd_u32 data 9,
        port = from_le16 (data ! 13) (data ! 14)\<rparr>)"

definition TPacketGCWarp_to_bytes :: "TPacketGCWarp \<Rightarrow> bytes" where
  "TPacketGCWarp_to_bytes p =
    (let b = replicate TPacketGCWarp_SIZE 0;
         b = b[0 := header p];
         b = copy_at b 1 (le32 (pos_x p));
         b = copy_at b 5 (le32 (pos_y p));
         b = copy_at b 9 (le32 (addr p));
         b = copy_at b 13 (le16 (port p))
     in b)"

definition TPacketGCWarp_wf :: "TPacketGCWarp \<Rightarrow> bool" where
  "TPacketGCWarp_wf p \<longleftrightarrow> True"

interpretation gc_warp:
  packet_codec TPacketGCWarp_SIZE TPacketGCWarp_wf TPacketGCWarp_to_bytes TPacketGCWarp_from_bytes
  by (rule packet_codecI [OF TPacketGCWarp_from_bytes_def])
     (auto simp: TPacketGCWarp_to_bytes_def TPacketGCWarp_wf_def rd_wr array_lengths intro!: covers)

lemma TPacketGCWarp_new_wf [simp]: "TPacketGCWarp_wf (TPacketGCWarp_new pos_x' pos_y' addr' port')"
  by (simp add: TPacketGCWarp_wf_def TPacketGCWarp_new_def)

section \<open>Round trip of the packets\<close>

text \<open>Every packet of the party and the warp parses exactly from the byte strings of its size, and
  parsing and serialising are inverse to each other.\<close>

theorem party_packets_roundtrip:
  "(TPacketCGPartyInvite_from_bytes d = Inr p1 \<longleftrightarrow> TPacketCGPartyInvite_wf p1 \<and> TPacketCGPartyInvite_to_bytes p1 = d)
   \<and> ((\<exists>p. TPacketCGPartyInvite_from_bytes d = Inr p) \<longleftrightarrow> length d = 5)
   \<and> (TPacketCGPartyInviteAnswer_from_bytes d = Inr p2 \<longleftrightarrow> TPacketCGPartyInviteAnswer_wf p2 \<and> TPacketCGPartyInviteAnswer_to_bytes p2 = d)
   \<and> ((\<exists>p. TPacketCGPartyInviteAnswer_from_bytes d = Inr p) \<longleftrightarrow> length d = 6)
   \<and> (TPacketCGPartyRemove_from_bytes d = Inr p3 \<longleftrightarrow> TPacketCGPartyRemove_wf p3 \<and> TPacketCGPartyRemove_to_bytes p3 = d)
   \<and> ((\<exists>p. TPacketCGPartyRemove_from_bytes d = Inr p) \<longleftrightarrow> length d = 5)
   \<and> (TPacketCGPartyParameter_from_bytes d = Inr p4 \<longleftrightarrow> TPacketCGPartyParameter_wf p4 \<and> TPacketCGPartyParameter_to_bytes p4 = d)
   \<and> ((\<exists>p. TPacketCGPartyParameter_from_bytes d = Inr p) \<longleftrightarrow> length d = 2)
   \<and> (TPacketCGPartySetState_from_bytes d = Inr p5 \<longleftrightarrow> TPacketCGPartySetState_wf p5 \<and> TPacketCGPartySetState_to_bytes p5 = d)
   \<and> ((\<exists>p. TPacketCGPartySetState_from_bytes d = Inr p) \<longleftrightarrow> length d = 7)
   \<and> (TPacketCGPartyUseSkill_from_bytes d = Inr p6 \<longleftrightarrow> TPacketCGPartyUseSkill_wf p6 \<and> TPacketCGPartyUseSkill_to_bytes p6 = d)
   \<and> ((\<exists>p. TPacketCGPartyUseSkill_from_bytes d = Inr p) \<longleftrightarrow> length d = 6)
   \<and> (TPacketGCPartyLink_from_bytes d = Inr p7 \<longleftrightarrow> TPacketGCPartyLink_wf p7 \<and> TPacketGCPartyLink_to_bytes p7 = d)
   \<and> ((\<exists>p. TPacketGCPartyLink_from_bytes d = Inr p) \<longleftrightarrow> length d = 9)
   \<and> (TPacketGCPartyUnlink_from_bytes d = Inr p8 \<longleftrightarrow> TPacketGCPartyUnlink_wf p8 \<and> TPacketGCPartyUnlink_to_bytes p8 = d)
   \<and> ((\<exists>p. TPacketGCPartyUnlink_from_bytes d = Inr p) \<longleftrightarrow> length d = 9)
   \<and> (TPacketGCPartyInvite_from_bytes d = Inr p9 \<longleftrightarrow> TPacketGCPartyInvite_wf p9 \<and> TPacketGCPartyInvite_to_bytes p9 = d)
   \<and> ((\<exists>p. TPacketGCPartyInvite_from_bytes d = Inr p) \<longleftrightarrow> length d = 5)
   \<and> (TPacketGCPartyAdd_from_bytes d = Inr p10 \<longleftrightarrow> TPacketGCPartyAdd_wf p10 \<and> TPacketGCPartyAdd_to_bytes p10 = d)
   \<and> ((\<exists>p. TPacketGCPartyAdd_from_bytes d = Inr p) \<longleftrightarrow> length d = 30)
   \<and> (TPacketGCPartyUpdate_from_bytes d = Inr p11 \<longleftrightarrow> TPacketGCPartyUpdate_wf p11 \<and> TPacketGCPartyUpdate_to_bytes p11 = d)
   \<and> ((\<exists>p. TPacketGCPartyUpdate_from_bytes d = Inr p) \<longleftrightarrow> length d = 21)
   \<and> (TPacketGCPartyRemove_from_bytes d = Inr p12 \<longleftrightarrow> TPacketGCPartyRemove_wf p12 \<and> TPacketGCPartyRemove_to_bytes p12 = d)
   \<and> ((\<exists>p. TPacketGCPartyRemove_from_bytes d = Inr p) \<longleftrightarrow> length d = 5)
   \<and> (TPacketGCPartyParameter_from_bytes d = Inr p13 \<longleftrightarrow> TPacketGCPartyParameter_wf p13 \<and> TPacketGCPartyParameter_to_bytes p13 = d)
   \<and> ((\<exists>p. TPacketGCPartyParameter_from_bytes d = Inr p) \<longleftrightarrow> length d = 2)
   \<and> (TPacketGCWarp_from_bytes d = Inr p14 \<longleftrightarrow> TPacketGCWarp_wf p14 \<and> TPacketGCWarp_to_bytes p14 = d)
   \<and> ((\<exists>p. TPacketGCWarp_from_bytes d = Inr p) \<longleftrightarrow> length d = 15)"
  by (intro conjI; rule
    cg_party_invite.from_bytes_Inr cg_party_invite.from_bytes_ok_iff [simplified]
    cg_party_invite_answer.from_bytes_Inr cg_party_invite_answer.from_bytes_ok_iff [simplified]
    cg_party_remove.from_bytes_Inr cg_party_remove.from_bytes_ok_iff [simplified]
    cg_party_parameter.from_bytes_Inr cg_party_parameter.from_bytes_ok_iff [simplified]
    cg_party_set_state.from_bytes_Inr cg_party_set_state.from_bytes_ok_iff [simplified]
    cg_party_use_skill.from_bytes_Inr cg_party_use_skill.from_bytes_ok_iff [simplified]
    gc_party_link.from_bytes_Inr gc_party_link.from_bytes_ok_iff [simplified]
    gc_party_unlink.from_bytes_Inr gc_party_unlink.from_bytes_ok_iff [simplified]
    gc_party_invite.from_bytes_Inr gc_party_invite.from_bytes_ok_iff [simplified]
    gc_party_add.from_bytes_Inr gc_party_add.from_bytes_ok_iff [simplified]
    gc_party_update.from_bytes_Inr gc_party_update.from_bytes_ok_iff [simplified]
    gc_party_remove.from_bytes_Inr gc_party_remove.from_bytes_ok_iff [simplified]
    gc_party_parameter.from_bytes_Inr gc_party_parameter.from_bytes_ok_iff [simplified]
    gc_warp.from_bytes_Inr gc_warp.from_bytes_ok_iff [simplified])

end
