(* ===== verification/Party.thy ===== *)
theory Party
  imports PartyPackets Social "HOL-Library.AList"
begin

text \<open>
  Parties (\<^verbatim>\<open>server_realms/src/channel/party.rs\<close>): the registries of the channel (sessions, pending
  invitations, parties), the handlers of the six client packets, the sharing of experience, the
  clean-up when a connection ends, and what a session does with the messages of its outbox.

  The three registries are one record \<open>PartyWorld\<close>; a handler takes the calling session, the packet and
  the time and returns the session, the registries, the messages put into outboxes and the packets
  written to its own socket. An outbox is its number. The identifier of a player
  (\<^verbatim>\<open>row().id as u32\<close>) is his vid and his pid. Parties and members are association lists whose order is
  the iteration order of the hash maps.
\<close>

section \<open>Constants\<close>

definition PARTY_MAX_MEMBER :: nat where "PARTY_MAX_MEMBER = 8"
definition PARTY_DEFAULT_RANGE :: int where "PARTY_DEFAULT_RANGE = 5000"
definition PARTY_ROLE_NORMAL :: u8 where [simp]: "PARTY_ROLE_NORMAL = 0"
definition PARTY_ROLE_LEADER :: u8 where [simp]: "PARTY_ROLE_LEADER = 1"
definition PARTY_EXP_DISTRIBUTION_NON_PARITY :: u8 where [simp]: "PARTY_EXP_DISTRIBUTION_NON_PARITY = 0"
definition PARTY_EXP_DISTRIBUTION_PARITY :: u8 where [simp]: "PARTY_EXP_DISTRIBUTION_PARITY = 1"
definition PARTY_EXP_DISTRIBUTION_MAX_NUM :: u8 where [simp]: "PARTY_EXP_DISTRIBUTION_MAX_NUM = 2"
definition PARTY_ROLE_ATTACKER :: u8 where [simp]: "PARTY_ROLE_ATTACKER = 2"
definition PARTY_ROLE_DEFENDER :: u8 where [simp]: "PARTY_ROLE_DEFENDER = 7"
definition PARTY_SKILL_HEAL :: u8 where [simp]: "PARTY_SKILL_HEAL = 1"
definition PARTY_SKILL_WARP :: u8 where [simp]: "PARTY_SKILL_WARP = 2"
definition PARTY_HEAL_COOLTIME_LONG_MIN :: nat where "PARTY_HEAL_COOLTIME_LONG_MIN = 60"
definition PARTY_LEVEL_LIMIT :: int where "PARTY_LEVEL_LIMIT = 30"
definition PARTY_ENOUGH_MINUTE_FOR_EXP_BONUS :: nat where "PARTY_ENOUGH_MINUTE_FOR_EXP_BONUS = 60"
definition PARTY_LONG_TIME_EXP_BONUS :: int where "PARTY_LONG_TIME_EXP_BONUS = 5"
definition CHAT_TYPE_INFO :: u8 where [simp]: "CHAT_TYPE_INFO = 1"

text \<open>Times are milliseconds.\<close>

definition PARTY_INVITE_TTL :: nat where "PARTY_INVITE_TTL = 10000"

definition minutes :: "nat \<Rightarrow> nat" where "minutes m = m * 60000"

definition SUMMON_RING :: "(i32 \<times> i32) list" where
  "SUMMON_RING = [(250, 0), (216, 125), (125, 216), (0, 250), (- 125, 216), (- 216, 125),
     (- 250, 0), (- 216, - 125), (- 125, - 216), (0, - 250), (125, - 216), (216, - 125)]"

definition PARTY_EXP_TABLE :: "int list" where
  "PARTY_EXP_TABLE = [
    0, 10, 10, 10, 10, 15, 15, 20, 25, 30, 40,
    50, 60, 80, 100, 120, 140, 160, 184, 210, 240,
    270, 300, 330, 360, 390, 420, 450, 480, 510, 550,
    600, 640, 700, 760, 820, 880, 940, 1000, 1100, 1180,
    1260, 1320, 1380, 1440, 1500, 1560, 1620, 1680, 1740, 1800,
    1860, 1920, 2000, 2100, 2200, 2300, 2450, 2600, 2750, 2900,
    3050, 3200, 3350, 3500, 3650, 3800, 3950, 4100, 4250, 4400,
    4600, 4800, 5000, 5200, 5400, 5600, 5800, 6000, 6200, 6400,
    6600, 6900, 7100, 7300, 7600, 7800, 8000, 8300, 8500, 8800,
    9000, 9000, 9000, 9000, 9000, 9000, 9000, 9000, 9000, 9000,
    10000, 10000, 10000, 10000, 10000, 10000, 10000, 10000, 10000, 10000,
    12000, 12000, 12000, 12000, 12000, 12000, 12000, 12000, 12000, 12000]"

definition PARTY_EXP_BONUS_TABLE :: "int list" where
  "PARTY_EXP_BONUS_TABLE = [0, 0, 12, 18, 26, 40, 53, 70, 100]"

section \<open>The registries\<close>

datatype PartyMsg =
    Packet bytes
  | ExpGain int
  | Joined u32
  | LeftParty
  | HealFull
  | Summon i32 i32

record PartyPeer =
  pp_pid :: u32
  pp_name :: bytes
  pp_level :: i16
  pp_empire :: u8
  pp_map_index :: i32
  pp_x :: i32
  pp_y :: i32
  pp_hp_percent :: u8
  pp_out :: nat

record PartyMember =
  pm_pid :: u32
  pm_name :: bytes
  pm_vid :: u32
  pm_empire :: u8
  pm_role :: u8
  pm_out :: "nat option"
  pm_hp_percent :: u8
  pm_map_index :: i32
  pm_x :: i32
  pm_y :: i32
  pm_level :: i16

record PartyState =
  pt_id :: u32
  leader_pid :: u32
  created_at :: nat
  exp_mode :: u8
  heal_at :: nat
  members :: "(u32 \<times> PartyMember) list"

record PendingInvite =
  leader_out :: nat
  leader_empire :: u8
  invite_expires :: nat

record PartyWorld =
  party_sessions :: "u32 \<rightharpoonup> PartyPeer"
  party_invites :: "u32 \<times> u32 \<rightharpoonup> PendingInvite"
  parties :: "(u32 \<times> PartyState) list"

text \<open>The fields of the calling session the handlers read and write.\<close>

record PartySession =
  ps_id :: u32
  ps_name :: bytes
  ps_level :: i16
  ps_empire :: u8
  ps_map_index :: i32
  ps_x :: i32
  ps_y :: i32
  ps_hp :: i32
  ps_mp :: i32
  ps_max_points :: "(i32 \<times> i32) option"
  ps_out :: nat
  ps_party_id :: "u32 option"

type_synonym deliveries = "(nat \<times> PartyMsg list) list"
type_synonym handled = "PartySession \<times> PartyWorld \<times> deliveries \<times> bytes list"

definition alter :: "'k \<Rightarrow> ('v \<Rightarrow> 'v) \<Rightarrow> ('k \<times> 'v) list \<Rightarrow> ('k \<times> 'v) list" where
  "alter k f al = List.map (\<lambda>(k', v). (k', if k' = k then f v else v)) al"

text \<open>
  \<^verbatim>\<open>hp_percent\<close>: \<^verbatim>\<open>compute_max_points\<close> is \<open>ps_max_points\<close> (hit points and spell points), \<open>None\<close> when it fails.
\<close>

definition hp_percent :: "PartySession \<Rightarrow> u8" where
  "hp_percent s =
    (case ps_max_points s of
       None \<Rightarrow> 0
     | Some (max_hp, max_mp) \<Rightarrow>
         if sint max_hp \<le> 0 then 0
         else (let v = trunc_div (sint (ps_hp s) * 100) (sint max_hp)
               in word_of_int (max 0 (min 100 v))))"

definition register_session :: "PartySession \<Rightarrow> PartyWorld \<Rightarrow> PartyWorld" where
  "register_session s w =
    w\<lparr>party_sessions := (party_sessions w)(ps_id s \<mapsto>
        \<lparr>pp_pid = ps_id s, pp_name = ps_name s, pp_level = ps_level s, pp_empire = ps_empire s,
         pp_map_index = ps_map_index s, pp_x = ps_x s, pp_y = ps_y s, pp_hp_percent = hp_percent s,
         pp_out = ps_out s\<rparr>)\<rparr>"

text \<open>\<^verbatim>\<open>update_position\<close> and \<^verbatim>\<open>update_member_level\<close> change the peer and every member entry of the player.\<close>

definition update_members :: "u32 \<Rightarrow> (PartyMember \<Rightarrow> PartyMember) \<Rightarrow> PartyWorld \<Rightarrow> PartyWorld" where
  "update_members v f w =
    w\<lparr>parties := List.map (\<lambda>(k, pt). (k, pt\<lparr>members := alter v f (members pt)\<rparr>)) (parties w)\<rparr>"

definition update_position :: "u32 \<Rightarrow> i32 \<Rightarrow> i32 \<Rightarrow> PartyWorld \<Rightarrow> PartyWorld" where
  "update_position v x y w =
    update_members v (\<lambda>m. m\<lparr>pm_x := x, pm_y := y\<rparr>)
      (w\<lparr>party_sessions := (party_sessions w)(v := map_option (\<lambda>q. q\<lparr>pp_x := x, pp_y := y\<rparr>) (party_sessions w v))\<rparr>)"

definition update_member_level :: "u32 \<Rightarrow> i16 \<Rightarrow> PartyWorld \<Rightarrow> PartyWorld" where
  "update_member_level v level w =
    update_members v (\<lambda>m. m\<lparr>pm_level := level\<rparr>)
      (w\<lparr>party_sessions := (party_sessions w)(v := map_option (\<lambda>q. q\<lparr>pp_level := level\<rparr>) (party_sessions w v))\<rparr>)"

section \<open>Packets and texts\<close>

definition text_bytes :: "string \<Rightarrow> bytes" where
  "text_bytes s = List.map of_char s"

definition info_packet :: "u32 \<Rightarrow> u8 \<Rightarrow> bytes \<Rightarrow> bytes" where
  "info_packet v empire text =
    [GC_CHAT] @ le16 (word_of_nat (9 + length text)) @ [CHAT_TYPE_INFO] @ le32 v @ [empire] @ text"

definition link_bytes :: "u32 \<Rightarrow> u32 \<Rightarrow> bytes" where
  "link_bytes p v = TPacketGCPartyLink_to_bytes (TPacketGCPartyLink_new p v)"

definition unlink_bytes :: "u32 \<Rightarrow> u32 \<Rightarrow> bytes" where
  "unlink_bytes p v = TPacketGCPartyUnlink_to_bytes (TPacketGCPartyUnlink_new p v)"

definition add_bytes :: "u32 \<Rightarrow> bytes \<Rightarrow> bytes" where
  "add_bytes p name = TPacketGCPartyAdd_to_bytes (TPacketGCPartyAdd_new p name)"

definition update_bytes :: "u32 \<Rightarrow> u8 \<Rightarrow> u8 \<Rightarrow> bytes" where
  "update_bytes p r hp = TPacketGCPartyUpdate_to_bytes (TPacketGCPartyUpdate_new p r hp)"

definition remove_bytes :: "u32 \<Rightarrow> bytes" where
  "remove_bytes p = TPacketGCPartyRemove_to_bytes (TPacketGCPartyRemove_new p)"

definition parameter_bytes :: "u8 \<Rightarrow> bytes" where
  "parameter_bytes mode = TPacketGCPartyParameter_to_bytes (TPacketGCPartyParameter_new mode)"

text \<open>\<^verbatim>\<open>info\<close> writes to the own socket.\<close>

definition info :: "PartySession \<Rightarrow> PartyWorld \<Rightarrow> string \<Rightarrow> handled" where
  "info s w text = (s, w, [], [info_packet (ps_id s) (ps_empire s) (text_bytes text)])"

definition ignored :: "PartySession \<Rightarrow> PartyWorld \<Rightarrow> handled" where
  "ignored s w = (s, w, [], [])"

section \<open>Leaving\<close>

definition in_party :: "u32 \<Rightarrow> u32 \<times> PartyState \<Rightarrow> bool" where
  "in_party p kp \<longleftrightarrow> map_of (members (snd kp)) p \<noteq> None"

text \<open>
  The search goes through the parties in the order the map happens to have. The model keeps a
  list; the sessions of \<^verbatim>\<open>PartyRun\<close> may rearrange it and the members of each party before every
  event, so nothing there depends on one order.
\<close>

definition party_of :: "PartyWorld \<Rightarrow> u32 \<Rightarrow> PartyState option" where
  "party_of w p = map_option snd (List.find (in_party p) (parties w))"

text \<open>Messages to the members that have an outbox.\<close>

definition to_members :: "(PartyMember \<Rightarrow> PartyMsg list) \<Rightarrow> (u32 \<times> PartyMember) list \<Rightarrow> deliveries" where
  "to_members f ms =
    List.concat (List.map (\<lambda>(k, m). case pm_out m of None \<Rightarrow> [] | Some out \<Rightarrow> [(out, f m)]) ms)"

definition disband :: "u32 \<Rightarrow> PartyWorld \<Rightarrow> PartyWorld \<times> deliveries" where
  "disband party_id w =
    (case map_of (parties w) party_id of
       None \<Rightarrow> (w, [])
     | Some party \<Rightarrow>
         (w\<lparr>parties := AList.delete party_id (parties w)\<rparr>,
          to_members (\<lambda>m. [Packet (remove_bytes (pm_pid m)), Packet (unlink_bytes (pm_pid m) (pm_vid m)),
                           Packet (info_packet (pm_vid m) (pm_empire m)
                             (text_bytes ''<Party> The party has been disbanded.'')),
                           LeftParty])
            (members party)))"

datatype RemoveReason = Kicked | Left

definition party_remove_member :: "u32 \<Rightarrow> u32 \<Rightarrow> RemoveReason \<Rightarrow> PartyWorld \<Rightarrow> PartyWorld \<times> deliveries" where
  "party_remove_member party_id p reason w =
    (case map_of (parties w) party_id of
       None \<Rightarrow> (w, [])
     | Some party \<Rightarrow>
         if p = leader_pid party then disband party_id w
         else (case map_of (members party) p of
                 None \<Rightarrow> (w, [])
               | Some member \<Rightarrow>
                   (let rest = AList.delete p (members party);
                        gone = [Packet (remove_bytes p), Packet (unlink_bytes (pm_pid member) (pm_vid member))];
                        text = (case reason of
                                  Kicked \<Rightarrow> ''<Party> You''@ [CHR 0x27] @ ''ve been kicked from the party.''
                                | Left \<Rightarrow> ''<Party> You left the party.'')
                    in (w\<lparr>parties := alter party_id (\<lambda>pt. pt\<lparr>members := rest\<rparr>) (parties w)\<rparr>,
                        to_members (\<lambda>m. gone) rest
                        @ (case pm_out member of
                             None \<Rightarrow> []
                           | Some out \<Rightarrow>
                               [(out, gone @ [Packet (info_packet (pm_vid member) (pm_empire member) (text_bytes text)),
                                              LeftParty])])))))"

definition is_member :: "u32 \<Rightarrow> u32 \<Rightarrow> PartyWorld \<Rightarrow> bool" where
  "is_member party_id p w =
    (case map_of (parties w) party_id of None \<Rightarrow> False | Some pt \<Rightarrow> map_of (members pt) p \<noteq> None)"

definition leave_party_on_disconnect :: "u32 \<Rightarrow> PartyWorld \<Rightarrow> PartyWorld \<times> deliveries" where
  "leave_party_on_disconnect v w =
    (case party_of w v of
       None \<Rightarrow> (w, [])
     | Some party \<Rightarrow>
         if leader_pid party = v then disband (pt_id party) w
         else party_remove_member (pt_id party) v Left w)"

definition drop_guard :: "u32 \<Rightarrow> PartyWorld \<Rightarrow> PartyWorld \<times> deliveries" where
  "drop_guard v w =
    leave_party_on_disconnect v
      (w\<lparr>party_sessions := (party_sessions w)(v := None),
         party_invites := (\<lambda>k. if fst k = v then None else party_invites w k)\<rparr>)"

section \<open>Invitations\<close>

definition inviter_refused :: "PartySession \<Rightarrow> PartyWorld \<Rightarrow> string option" where
  "inviter_refused s w =
    (case party_of w (ps_id s) of
       None \<Rightarrow> None
     | Some pt \<Rightarrow>
         if leader_pid pt \<noteq> ps_id s then Some ''<Party> Only the party leader can invite.''
         else if PARTY_MAX_MEMBER \<le> length (members pt)
         then Some ''<Party> The party is full (max 8 members).''
         else None)"

definition target_refused :: "PartySession \<Rightarrow> PartyPeer \<Rightarrow> PartyWorld \<Rightarrow> string option" where
  "target_refused s target w =
    (if pp_empire target \<noteq> ps_empire s
     then Some (''<Party> You can'' @ [CHR 0x27] @ ''t invite someone from a different empire.'')
     else if \<bar>sint (ps_level s) - sint (pp_level target)\<bar> > PARTY_LEVEL_LIMIT
     then Some (''<Party> The level difference is too big (max '' @ [CHR 0xC2, CHR 0xB1] @ ''30).'')
     else if list_ex (in_party (pp_pid target)) (parties w)
     then Some ''<Party> The target is already in a party.''
     else None)"

definition handle_invite :: "nat \<Rightarrow> bytes \<Rightarrow> PartySession \<Rightarrow> PartyWorld \<Rightarrow> handled" where
  "handle_invite now pkt s w =
    (case TPacketCGPartyInvite_from_bytes pkt of
       Inl e \<Rightarrow> ignored s w
     | Inr p \<Rightarrow>
         if TPacketCGPartyInvite.vid p = ps_id s
         then info s w (''<Party> You can'' @ [CHR 0x27] @ ''t invite yourself.'')
         else (case inviter_refused s w of
                 Some text \<Rightarrow> info s w text
               | None \<Rightarrow>
                   (case party_sessions w (TPacketCGPartyInvite.vid p) of
                      None \<Rightarrow> ignored s w
                    | Some target \<Rightarrow>
                        (case target_refused s target w of
                           Some text \<Rightarrow> info s w text
                         | None \<Rightarrow>
                             if party_invites w (ps_id s, pp_pid target) \<noteq> None then ignored s w
                             else (s, w\<lparr>party_invites := (party_invites w)((ps_id s, pp_pid target) \<mapsto>
                                       \<lparr>leader_out = ps_out s, leader_empire = ps_empire s,
                                        invite_expires = now + PARTY_INVITE_TTL\<rparr>)\<rparr>,
                                   [(pp_out target,
                                     [Packet (TPacketGCPartyInvite_to_bytes (TPacketGCPartyInvite_new (ps_id s)))])],
                                   [])))))"

section \<open>Answers\<close>

definition guest_member :: "PartySession \<Rightarrow> PartyMember" where
  "guest_member s =
    \<lparr>pm_pid = ps_id s, pm_name = ps_name s, pm_vid = ps_id s, pm_empire = ps_empire s,
     pm_role = PARTY_ROLE_NORMAL, pm_out = Some (ps_out s), pm_hp_percent = hp_percent s,
     pm_map_index = ps_map_index s, pm_x = ps_x s, pm_y = ps_y s, pm_level = ps_level s\<rparr>"

definition leader_member :: "u32 \<Rightarrow> PartyPeer \<Rightarrow> PartyMember" where
  "leader_member v peer =
    \<lparr>pm_pid = v, pm_name = pp_name peer, pm_vid = v, pm_empire = pp_empire peer,
     pm_role = PARTY_ROLE_LEADER, pm_out = Some (pp_out peer), pm_hp_percent = pp_hp_percent peer,
     pm_map_index = pp_map_index peer, pm_x = pp_x peer, pm_y = pp_y peer, pm_level = pp_level peer\<rparr>"

definition member_sync_msgs :: "PartyState \<Rightarrow> PartyMsg list" where
  "member_sync_msgs party =
    List.concat (List.map (\<lambda>(k, m). [Packet (add_bytes (pm_pid m) (pm_name m)),
        Packet (update_bytes (pm_pid m) (pm_role m) (pm_hp_percent m))]) (members party))
    @ [Packet (parameter_bytes (exp_mode party))]"

definition link_msgs :: "PartyState \<Rightarrow> PartyMsg list" where
  "link_msgs party = List.map (\<lambda>(k, m). Packet (link_bytes (pm_pid m) (pm_vid m))) (members party)"

definition joined_text :: "bytes \<Rightarrow> bytes" where
  "joined_text name = text_bytes ''<Party> '' @ name @ text_bytes '' joined the party.''"

definition join_party :: "PartySession \<Rightarrow> u32 \<Rightarrow> PartyState \<Rightarrow> PartyWorld \<Rightarrow> PartyWorld \<times> deliveries" where
  "join_party s leader party w =
    (let g = ps_id s;
         party' = party\<lparr>members := AList.update g (guest_member s) (members party)\<rparr>
     in (w\<lparr>parties := alter leader (\<lambda>pt. party') (parties w)\<rparr>,
         (ps_out s, member_sync_msgs party' @ link_msgs party'
                    @ [Packet (info_packet g (ps_empire s) (joined_text (ps_name s)))])
         # to_members (\<lambda>m. [Packet (add_bytes g (ps_name s)),
                             Packet (update_bytes g PARTY_ROLE_NORMAL (hp_percent s)),
                             Packet (link_bytes g g)])
             (List.filter (\<lambda>(k, m). pm_pid m \<noteq> g) (members party'))))"

definition create_party :: "nat \<Rightarrow> PartySession \<Rightarrow> u32 \<Rightarrow> PartyPeer \<Rightarrow> PartyWorld \<Rightarrow> PartyWorld \<times> deliveries" where
  "create_party now s leader peer w =
    (let g = ps_id s;
         party = \<lparr>pt_id = leader, leader_pid = leader, created_at = now,
                  exp_mode = PARTY_EXP_DISTRIBUTION_NON_PARITY,
                  heal_at = now + minutes PARTY_HEAL_COOLTIME_LONG_MIN,
                  members = AList.update g (guest_member s) [(leader, leader_member leader peer)]\<rparr>
     in (w\<lparr>parties := AList.update leader party (parties w)\<rparr>,
         [(pp_out peer, [Joined leader]),
          (pp_out peer, member_sync_msgs party @ link_msgs party
                        @ [Packet (info_packet leader (pp_empire peer) (joined_text (ps_name s)))]),
          (ps_out s, member_sync_msgs party @ link_msgs party
                     @ [Packet (info_packet g (ps_empire s) (joined_text (ps_name s)))])]))"

definition accept_answer :: "nat \<Rightarrow> u32 \<Rightarrow> PartySession \<Rightarrow> PartyWorld \<Rightarrow> handled" where
  "accept_answer now leader s w =
    (case party_sessions w leader of
       None \<Rightarrow> info s w ''<Party> The party leader is no longer online.''
     | Some peer \<Rightarrow>
         if list_ex (in_party (ps_id s)) (parties w) then info s w ''<Party> You are already in a party.''
         else (case map_of (parties w) leader of
                 Some party \<Rightarrow>
                   if PARTY_MAX_MEMBER \<le> length (members party)
                   then info s w ''<Party> The party is full (max 8 members).''
                   else (case join_party s leader party w of
                           (w', ds) \<Rightarrow> (s\<lparr>ps_party_id := Some leader\<rparr>, w', ds, []))
               | None \<Rightarrow>
                   (case create_party now s leader peer w of
                      (w', ds) \<Rightarrow> (s\<lparr>ps_party_id := Some leader\<rparr>, w', ds, []))))"

definition handle_invite_answer :: "nat \<Rightarrow> bytes \<Rightarrow> PartySession \<Rightarrow> PartyWorld \<Rightarrow> handled" where
  "handle_invite_answer now pkt s w =
    (case TPacketCGPartyInviteAnswer_from_bytes pkt of
       Inl e \<Rightarrow> ignored s w
     | Inr p \<Rightarrow>
         (let leader = TPacketCGPartyInviteAnswer.leader_vid p; key = (leader, ps_id s)
          in case party_invites w key of
               None \<Rightarrow> ignored s w
             | Some invite \<Rightarrow>
                 (let w1 = w\<lparr>party_invites := (party_invites w)(key := None)\<rparr>
                  in if invite_expires invite < now then info s w1 ''<Party> The party invitation has expired.''
                     else if TPacketCGPartyInviteAnswer.accept p = 0
                     then (s, w1, [(leader_out invite,
                             [Packet (info_packet leader (leader_empire invite)
                                (text_bytes ''<Party> '' @ ps_name s @ text_bytes '' refused your party invitation.''))])], [])
                     else accept_answer now leader s w1)))"

section \<open>Removal\<close>

definition with_world :: "PartySession \<Rightarrow> PartyWorld \<times> deliveries \<Rightarrow> handled" where
  "with_world s r = (s, fst r, snd r, [])"

definition handle_remove :: "bytes \<Rightarrow> PartySession \<Rightarrow> PartyWorld \<Rightarrow> handled" where
  "handle_remove pkt s w =
    (case TPacketCGPartyRemove_from_bytes pkt of
       Inl e \<Rightarrow> ignored s w
     | Inr p \<Rightarrow>
         (case party_of w (ps_id s) of
            None \<Rightarrow> ignored s w
          | Some party \<Rightarrow>
              (let q = TPacketCGPartyRemove.pid p; two = (length (members party) = 2)
               in if leader_pid party = ps_id s then
                    (if q = ps_id s \<or> two then with_world (s\<lparr>ps_party_id := None\<rparr>) (disband (pt_id party) w)
                     else if is_member (pt_id party) q w
                     then with_world s (party_remove_member (pt_id party) q Kicked w)
                     else ignored s w)
                  else if q = ps_id s then
                    (if two then with_world (s\<lparr>ps_party_id := None\<rparr>) (disband (pt_id party) w)
                     else with_world (s\<lparr>ps_party_id := None\<rparr>) (party_remove_member (pt_id party) (ps_id s) Left w))
                  else info s w (''<Party> You can'' @ [CHR 0x27] @ ''t kick other party members.''))))"

section \<open>Roles, skills and the mode of sharing\<close>

definition leads :: "u32 \<Rightarrow> PartySession \<Rightarrow> PartyWorld \<Rightarrow> bool" where
  "leads party_id s w =
    (case map_of (parties w) party_id of None \<Rightarrow> False | Some pt \<Rightarrow> leader_pid pt = ps_id s)"

definition is_role :: "u8 \<Rightarrow> bool" where
  "is_role r \<longleftrightarrow> PARTY_ROLE_ATTACKER \<le> r \<and> r \<le> PARTY_ROLE_DEFENDER"

text \<open>\<^verbatim>\<open>SetRole\<close>: a normal member takes a free role, a member with a role gives it back.\<close>

definition role_change :: "bool \<Rightarrow> u8 \<Rightarrow> PartyMember \<Rightarrow> PartyState \<Rightarrow> bool" where
  "role_change on r member party =
    (if on then pm_role member = PARTY_ROLE_NORMAL
                \<and> \<not> list_ex (\<lambda>(k, m). pm_role m = r) (members party)
     else pm_role member \<noteq> PARTY_ROLE_NORMAL \<and> pm_role member \<noteq> PARTY_ROLE_LEADER)"

definition set_role :: "u32 \<Rightarrow> u32 \<Rightarrow> u8 \<Rightarrow> PartyWorld \<Rightarrow> PartyWorld" where
  "set_role party_id q r w =
    w\<lparr>parties := alter party_id (\<lambda>pt. pt\<lparr>members := alter q (\<lambda>m. m\<lparr>pm_role := r\<rparr>) (members pt)\<rparr>) (parties w)\<rparr>"

definition handle_set_state :: "bytes \<Rightarrow> PartySession \<Rightarrow> PartyWorld \<Rightarrow> handled" where
  "handle_set_state pkt s w =
    (case TPacketCGPartySetState_from_bytes pkt of
       Inl e \<Rightarrow> ignored s w
     | Inr p \<Rightarrow>
         (case party_of w (ps_id s) of
            None \<Rightarrow> ignored s w
          | Some mine \<Rightarrow>
              (let party_id = pt_id mine; q = TPacketCGPartySetState.pid p;
                   r = TPacketCGPartySetState.by_role p; on = (TPacketCGPartySetState.flag p = 1)
               in if \<not> leads party_id s w then info s w ''<Party> Only the party leader can set member states.''
                  else if \<not> is_member party_id q w then info s w ''<Party> The target is not a party member.''
                  else if \<not> is_role r then ignored s w
                  else (case map_of (parties w) party_id of
                          None \<Rightarrow> ignored s w
                        | Some party \<Rightarrow>
                            (case map_of (members party) q of
                               None \<Rightarrow> ignored s w
                             | Some member \<Rightarrow>
                                 if \<not> role_change on r member party then ignored s w
                                 else (let new_role = (if on then r else PARTY_ROLE_NORMAL)
                                       in (s, set_role party_id q new_role w,
                                           to_members (\<lambda>m. [Packet (update_bytes q new_role (pm_hp_percent member))])
                                             (members party),
                                           [])))))))"

definition near :: "PartyMember \<Rightarrow> i32 \<Rightarrow> i32 \<Rightarrow> int" where
  "near m x y = sint (distance_approx (pm_x m - x) (pm_y m - y))"

definition use_heal :: "nat \<Rightarrow> u32 \<Rightarrow> PartySession \<Rightarrow> PartyWorld \<Rightarrow> handled" where
  "use_heal now party_id s w =
    (case map_of (parties w) party_id of
       None \<Rightarrow> ignored s w
     | Some party \<Rightarrow>
         if heal_at party > now then ignored s w
         else (case map_of (members party) (leader_pid party) of
                 None \<Rightarrow> ignored s w
               | Some leader \<Rightarrow>
                   (s, w\<lparr>parties := alter party_id
                             (\<lambda>pt. pt\<lparr>heal_at := now + minutes PARTY_HEAL_COOLTIME_LONG_MIN\<rparr>) (parties w)\<rparr>,
                    to_members (\<lambda>m. [HealFull])
                      (List.filter (\<lambda>(k, m). pm_map_index m = pm_map_index leader
                                      \<and> near m (pm_x leader) (pm_y leader) < PARTY_DEFAULT_RANGE) (members party)),
                    [])))"

definition use_warp :: "u32 \<Rightarrow> u32 \<Rightarrow> PartySession \<Rightarrow> PartyWorld \<Rightarrow> handled" where
  "use_warp target party_id s w =
    (let lost = info s w (''<Party> The character you want to summon can'' @ [CHR 0x27] @ ''t be found.'')
     in case party_sessions w target of
          None \<Rightarrow> lost
        | Some peer \<Rightarrow>
            (case map_of (parties w) party_id of
               None \<Rightarrow> ignored s w
             | Some party \<Rightarrow>
                 (case map_of (members party) (pp_pid peer) of
                    None \<Rightarrow> lost
                  | Some member \<Rightarrow>
                      (case (pm_out member, map_of (members party) (leader_pid party)) of
                         (Some out, Some leader) \<Rightarrow>
                           (case SUMMON_RING ! (unat (pp_pid peer) mod 12) of
                              (dx, dy) \<Rightarrow> (s, w, [(out, [Summon (pm_x leader + dx) (pm_y leader + dy)])], []))
                       | _ \<Rightarrow> lost))))"

definition handle_use_skill :: "nat \<Rightarrow> bytes \<Rightarrow> PartySession \<Rightarrow> PartyWorld \<Rightarrow> handled" where
  "handle_use_skill now pkt s w =
    (case TPacketCGPartyUseSkill_from_bytes pkt of
       Inl e \<Rightarrow> ignored s w
     | Inr p \<Rightarrow>
         (case party_of w (ps_id s) of
            None \<Rightarrow> ignored s w
          | Some mine \<Rightarrow>
              if \<not> leads (pt_id mine) s w then info s w ''<Party> Only the party leader can use party skills.''
              else if by_skill_index p = PARTY_SKILL_HEAL then use_heal now (pt_id mine) s w
              else if by_skill_index p = PARTY_SKILL_WARP
              then use_warp (TPacketCGPartyUseSkill.vid p) (pt_id mine) s w
              else ignored s w))"

definition handle_parameter :: "bytes \<Rightarrow> PartySession \<Rightarrow> PartyWorld \<Rightarrow> handled" where
  "handle_parameter pkt s w =
    (case TPacketCGPartyParameter_from_bytes pkt of
       Inl e \<Rightarrow> ignored s w
     | Inr p \<Rightarrow>
         (let mode = TPacketCGPartyParameter.b_distribute_mode p
          in if mode \<ge> PARTY_EXP_DISTRIBUTION_MAX_NUM then ignored s w
             else (case party_of w (ps_id s) of
                     None \<Rightarrow> ignored s w
                   | Some mine \<Rightarrow>
                       (s, w\<lparr>parties := alter (pt_id mine) (\<lambda>pt. pt\<lparr>exp_mode := mode\<rparr>) (parties w)\<rparr>,
                        (case map_of (parties w) (pt_id mine) of
                           None \<Rightarrow> []
                         | Some pt \<Rightarrow> to_members (\<lambda>m. [Packet (parameter_bytes mode)]) (members pt)),
                        []))))"

section \<open>Sharing experience\<close>

definition exp_weight :: "i16 \<Rightarrow> int" where
  "exp_weight level = (if sint level \<le> 0 \<or> sint level > 120 then 14000 else PARTY_EXP_TABLE ! nat (sint level))"

definition exp_shares :: "u8 \<Rightarrow> int \<Rightarrow> i16 list \<Rightarrow> int list" where
  "exp_shares mode e levels =
    (if levels = [] \<or> e \<le> 0 then replicate (length levels) 0
     else if mode = PARTY_EXP_DISTRIBUTION_PARITY
     then replicate (length levels) (trunc_div e (int (length levels)))
     else if mode = PARTY_EXP_DISTRIBUTION_NON_PARITY
     then (let tot = max 1 (sum_list (List.map exp_weight levels))
           in List.map (\<lambda>l. trunc_div (wrap_i64 (e * exp_weight l)) tot) levels)
     else replicate (length levels) 0)"

definition present :: "i32 \<Rightarrow> i32 \<Rightarrow> i32 \<Rightarrow> PartyState \<Rightarrow> PartyMember list" where
  "present mp x y party =
    List.filter (\<lambda>m. pm_out m \<noteq> None \<and> pm_map_index m = mp \<and> near m x y \<le> PARTY_DEFAULT_RANGE)
      (List.map snd (members party))"

definition exp_bonus :: "nat \<Rightarrow> i32 \<Rightarrow> i32 \<Rightarrow> PartyState \<Rightarrow> int" where
  "exp_bonus now x y party =
    (case map_of (members party) (leader_pid party) of
       None \<Rightarrow> 0
     | Some leader \<Rightarrow>
         (let near_leader = length (List.filter (\<lambda>(k, m). pm_map_index m = pm_map_index leader
                              \<and> near m (pm_x leader) (pm_y leader) < PARTY_DEFAULT_RANGE) (members party))
          in if near_leader > 1
                \<and> sint (distance_approx (x - pm_x leader) (y - pm_y leader)) < PARTY_DEFAULT_RANGE
             then PARTY_EXP_BONUS_TABLE ! min near_leader 8
                  + (if now - created_at party > minutes PARTY_ENOUGH_MINUTE_FOR_EXP_BONUS
                     then PARTY_LONG_TIME_EXP_BONUS else 0)
             else 0))"

definition exp_pool :: "int \<Rightarrow> int \<Rightarrow> int" where
  "exp_pool bonus e = (if bonus > 0 then trunc_div (wrap_i64 (e * (100 + bonus))) 100 else e)"

text \<open>The loop over the members present: the own share is kept, the others are sent.\<close>

fun hand_out :: "u32 \<Rightarrow> (PartyMember \<times> int) list \<Rightarrow> int \<Rightarrow> int \<times> deliveries" where
  "hand_out v [] my_share = (my_share, [])"
| "hand_out v ((m, share) # rest) my_share =
     (if pm_vid m = v then hand_out v rest share
      else case hand_out v rest my_share of
             (mine, ds) \<Rightarrow>
               (mine, (case pm_out m of None \<Rightarrow> [] | Some out \<Rightarrow> [(out, [ExpGain share])]) @ ds))"

definition distribute_exp :: "nat \<Rightarrow> PartySession \<Rightarrow> int \<Rightarrow> i32 \<Rightarrow> i32 \<Rightarrow> PartyWorld \<Rightarrow> int \<times> deliveries" where
  "distribute_exp now s e x y w =
    (if e \<le> 0 then (0, [])
     else case party_of w (ps_id s) of
            None \<Rightarrow> (e, [])
          | Some party \<Rightarrow>
              (let ms = present (ps_map_index s) x y party;
                   pool = exp_pool (exp_bonus now x y party) e
               in if length ms < 2 \<or> \<not> list_ex (\<lambda>m. pm_vid m = ps_id s) ms then (pool, [])
                  else hand_out (ps_id s) (zip ms (exp_shares (exp_mode party) pool (List.map pm_level ms))) pool))"

end
