(* ===== verification/PartyInv.thy ===== *)
theory PartyInv
  imports Party
begin

text \<open>
  The invariant of the party registries: what every reachable state satisfies, whatever packets the
  players send in whatever order and at whatever time.
\<close>

section \<open>Association lists\<close>

lemma keys_alter [simp]: "List.map fst (alter k f al) = List.map fst al"
  by (simp add: alter_def comp_def case_prod_beta)

lemma length_alter [simp]: "length (alter k f al) = length al"
  by (simp add: alter_def)

lemma map_of_alter [simp]: "map_of (alter k f al) k' = (if k' = k then map_option f (map_of al k) else map_of al k')"
  by (induction al) (auto simp: alter_def)

lemma map_of_map_values: "map_of (List.map (\<lambda>(k, v). (k, f v)) al) k = map_option f (map_of al k)"
  by (induction al) auto

lemma keys_map_values [simp]: "List.map fst (List.map (\<lambda>(k, v). (k, f v)) al) = List.map fst al"
  by (simp add: comp_def case_prod_beta)

lemma fst_map_values [simp]: "fst \<circ> (\<lambda>(k, v). (k, f v)) = fst"
  by auto

lemma length_update: "length (AList.update k v al) \<le> Suc (length al)"
  by (induction al) auto

lemma distinct_alist: "distinct (List.map fst al) \<Longrightarrow> distinct (List.map fst (AList.update k v al))"
  "distinct (List.map fst al) \<Longrightarrow> distinct (List.map fst (AList.delete k al))"
  by (simp_all add: distinct_update distinct_delete)

lemmas alist_simps = update_conv' delete_conv' distinct_alist map_of_map_values

section \<open>Sound parties\<close>

text \<open>
  A party is filed under its leader, who is a member and the only one with the role of the leader;
  every member is filed under his own identifier, no special role is given twice, there are at
  most eight members and the mode of sharing is one of the two.
\<close>

definition members_ok :: "u32 \<Rightarrow> (u32 \<rightharpoonup> PartyMember) \<Rightarrow> bool" where
  "members_ok k ms \<longleftrightarrow>
    ms k \<noteq> None
    \<and> (\<forall>q m. ms q = Some m \<longrightarrow> pm_pid m = q \<and> pm_vid m = q \<and> (pm_role m = PARTY_ROLE_LEADER \<longleftrightarrow> q = k)
          \<and> pm_role m \<le> PARTY_ROLE_DEFENDER)
    \<and> (\<forall>q m q' m'. ms q = Some m \<longrightarrow> ms q' = Some m' \<longrightarrow> pm_role m = pm_role m'
          \<longrightarrow> pm_role m \<noteq> PARTY_ROLE_NORMAL \<longrightarrow> q = q')"

definition party_ok :: "u32 \<Rightarrow> PartyState \<Rightarrow> bool" where
  "party_ok k pt \<longleftrightarrow>
    pt_id pt = k \<and> leader_pid pt = k \<and> distinct (List.map fst (members pt))
    \<and> members_ok k (map_of (members pt))
    \<and> length (members pt) \<le> PARTY_MAX_MEMBER \<and> exp_mode pt < PARTY_EXP_DISTRIBUTION_MAX_NUM"

definition registry_ok :: "PartyWorld \<Rightarrow> bool" where
  "registry_ok w \<longleftrightarrow>
    distinct (List.map fst (parties w))
    \<and> (\<forall>k pt. map_of (parties w) k = Some pt \<longrightarrow> party_ok k pt)
    \<and> (\<forall>v q. party_sessions w v = Some q \<longrightarrow> pp_pid q = v)
    \<and> (\<forall>l g. party_invites w (l, g) \<noteq> None \<longrightarrow> l \<noteq> g)"

lemma registry_party: "registry_ok w \<Longrightarrow> map_of (parties w) k = Some pt \<Longrightarrow> party_ok k pt"
  by (simp add: registry_ok_def)

lemma party_of_Some:
  assumes "registry_ok w" and "party_of w v = Some pt"
  shows "map_of (parties w) (pt_id pt) = Some pt" and "party_ok (pt_id pt) pt" and "map_of (members pt) v \<noteq> None"
proof -
  obtain k where k: "(k, pt) \<in> set (parties w)" "in_party v (k, pt)"
    using assms(2) by (auto simp: party_of_def find_Some_iff) (metis nth_mem)
  then have m: "map_of (parties w) k = Some pt" using assms(1) by (simp add: registry_ok_def)
  with assms(1) have "party_ok k pt" by (rule registry_party)
  with m k(2) show "map_of (parties w) (pt_id pt) = Some pt" "party_ok (pt_id pt) pt" "map_of (members pt) v \<noteq> None"
    by (simp_all add: party_ok_def in_party_def)
qed

lemma party_of_None: "party_of w v = None \<Longrightarrow> map_of (parties w) k = Some pt \<Longrightarrow> map_of (members pt) v = None"
  by (auto simp: party_of_def find_None_iff in_party_def dest: map_of_SomeD)

text \<open>Changes of the registries that keep it sound.\<close>

lemma registry_alter:
  "registry_ok w \<Longrightarrow> (\<And>pt. map_of (parties w) k = Some pt \<Longrightarrow> party_ok k (f pt)) \<Longrightarrow>
   registry_ok (w\<lparr>parties := alter k f (parties w)\<rparr>)"
  by (auto simp: registry_ok_def)

lemma registry_delete: "registry_ok w \<Longrightarrow> registry_ok (w\<lparr>parties := AList.delete k (parties w)\<rparr>)"
  by (auto simp: registry_ok_def alist_simps split: if_splits)

lemma registry_update: "registry_ok w \<Longrightarrow> party_ok k pt \<Longrightarrow> registry_ok (w\<lparr>parties := AList.update k pt (parties w)\<rparr>)"
  by (auto simp: registry_ok_def alist_simps)

text \<open>Changes of the members that keep a party sound.\<close>

lemma members_change:
  assumes "party_ok k pt" and "distinct (List.map fst ms)" and "members_ok k (map_of ms)" and "length ms \<le> PARTY_MAX_MEMBER"
  shows "party_ok k (pt\<lparr>members := ms\<rparr>)"
  using assms by (simp add: party_ok_def)

lemma members_ok_cong:
  assumes "members_ok k ms"
    and "\<And>q. map_option (\<lambda>m. (pm_pid m, pm_vid m, pm_role m)) (ms' q) = map_option (\<lambda>m. (pm_pid m, pm_vid m, pm_role m)) (ms q)"
  shows "members_ok k ms'"
proof -
  have old: "\<exists>m. ms q = Some m \<and> pm_pid m = pm_pid m' \<and> pm_vid m = pm_vid m' \<and> pm_role m = pm_role m'"
    if "ms' q = Some m'" for q m'
    using assms(2) [of q] that by (cases "ms q") auto
  have "ms' k \<noteq> None" using assms(1) assms(2) [of k] by (cases "ms' k") (auto simp: members_ok_def)
  moreover have "pm_pid m' = q \<and> pm_vid m' = q \<and> (pm_role m' = PARTY_ROLE_LEADER \<longleftrightarrow> q = k) \<and> pm_role m' \<le> PARTY_ROLE_DEFENDER"
    if "ms' q = Some m'" for q m'
  proof -
    note o = old [OF that]
    obtain m where m: "ms q = Some m" "pm_pid m = pm_pid m'" "pm_vid m = pm_vid m'" "pm_role m = pm_role m'"
      using o by blast
    have "pm_pid m = q \<and> pm_vid m = q \<and> (pm_role m = PARTY_ROLE_LEADER \<longleftrightarrow> q = k) \<and> pm_role m \<le> PARTY_ROLE_DEFENDER"
      using assms(1) m(1) unfolding members_ok_def by blast
    with m show ?thesis by simp
  qed
  moreover have "q1 = q2"
    if "ms' q1 = Some m1" "ms' q2 = Some m2" "pm_role m1 = pm_role m2" "pm_role m1 \<noteq> PARTY_ROLE_NORMAL" for q1 q2 m1 m2
    using old [OF that(1)] old [OF that(2)] that(3,4) assms(1) unfolding members_ok_def by fastforce
  ultimately show ?thesis unfolding members_ok_def by blast
qed

lemma party_touch:
  assumes "party_ok k pt" and "\<And>m. pm_pid (f m) = pm_pid m \<and> pm_vid (f m) = pm_vid m \<and> pm_role (f m) = pm_role m"
  shows "party_ok k (pt\<lparr>members := alter v f (members pt)\<rparr>)"
proof -
  have "members_ok k (map_of (alter v f (members pt)))"
    by (rule members_ok_cong [of k "map_of (members pt)"])
       (use assms in \<open>auto simp: party_ok_def option.map_comp comp_def\<close>)
  then show ?thesis using assms(1) by (auto intro!: members_change simp: party_ok_def)
qed

lemma party_without:
  assumes "party_ok k pt" and "q \<noteq> k"
  shows "party_ok k (pt\<lparr>members := AList.delete q (members pt)\<rparr>)"
proof -
  have "members_ok k (map_of (AList.delete q (members pt)))"
    using assms by (auto simp: party_ok_def members_ok_def alist_simps split: if_splits)
  then show ?thesis
    using assms(1) length_delete_le [of q "members pt"]
    by (intro members_change) (auto simp: party_ok_def alist_simps)
qed

lemma members_with:
  assumes "members_ok k ms" and "g \<noteq> k" and "pm_pid m = g" and "pm_vid m = g" and "pm_role m = PARTY_ROLE_NORMAL"
  shows "members_ok k (ms(g \<mapsto> m))"
  using assms by (auto simp: members_ok_def)

lemma party_with:
  assumes "party_ok k pt" and "g \<noteq> k" and "pm_pid m = g" and "pm_vid m = g" and "pm_role m = PARTY_ROLE_NORMAL"
    and "length (members pt) < PARTY_MAX_MEMBER"
  shows "party_ok k (pt\<lparr>members := AList.update g m (members pt)\<rparr>)"
proof -
  have "members_ok k (map_of (AList.update g m (members pt)))"
    using members_with [of k "map_of (members pt)" g m] assms by (simp add: party_ok_def update_conv')
  then show ?thesis
    using assms(1,6) length_update [of g m "members pt"]
    by (intro members_change) (auto simp: party_ok_def alist_simps)
qed

lemma members_role:
  assumes "members_ok k ms" and "ms q = Some m" and "q \<noteq> k"
    and "r = PARTY_ROLE_NORMAL \<or> is_role r \<and> (\<forall>q' m'. ms q' = Some m' \<longrightarrow> pm_role m' \<noteq> r)"
  shows "members_ok k (ms(q \<mapsto> m\<lparr>pm_role := r\<rparr>))"
proof -
  have "r \<noteq> PARTY_ROLE_LEADER" "r \<le> PARTY_ROLE_DEFENDER" using assms(4) by (auto simp: is_role_def word_le_nat_alt)
  with assms show ?thesis by (auto simp: members_ok_def)
qed

section \<open>Every operation keeps the registries sound\<close>

lemma registry_register: "registry_ok w \<Longrightarrow> registry_ok (register_session s w)"
  by (auto simp: registry_ok_def register_session_def)

lemma registry_members:
  assumes "registry_ok w" and "\<And>m. pm_pid (f m) = pm_pid m \<and> pm_vid (f m) = pm_vid m \<and> pm_role (f m) = pm_role m"
  shows "registry_ok (update_members v f w)"
  using assms(1) party_touch [OF _ assms(2), of _ _ v]
  by (auto simp: registry_ok_def update_members_def map_of_map_values)

lemma registry_peers:
  "registry_ok w \<Longrightarrow> (\<And>v p. ss v = Some p \<Longrightarrow> pp_pid p = v) \<Longrightarrow> registry_ok (w\<lparr>party_sessions := ss\<rparr>)"
  by (simp add: registry_ok_def)

lemma registry_invites:
  "registry_ok w \<Longrightarrow> (\<And>l g. is (l, g) \<noteq> None \<Longrightarrow> l \<noteq> g) \<Longrightarrow> registry_ok (w\<lparr>party_invites := is\<rparr>)"
  by (simp add: registry_ok_def)

lemma registry_pids: "registry_ok w \<Longrightarrow> party_sessions w v = Some p \<Longrightarrow> pp_pid p = v"
  by (simp add: registry_ok_def)

lemma registry_guests: "registry_ok w \<Longrightarrow> party_invites w (l, g) = Some i \<Longrightarrow> l \<noteq> g"
  by (auto simp: registry_ok_def)

lemma registry_no_self: "registry_ok w \<Longrightarrow> party_invites w (g, g) = None"
  by (cases "party_invites w (g, g)") (auto dest: registry_guests)

lemma registry_position: "registry_ok w \<Longrightarrow> registry_ok (update_position v x y w)"
  unfolding update_position_def
  by (rule registry_members, rule registry_peers) (auto simp: registry_pids split: if_splits)

lemma registry_level: "registry_ok w \<Longrightarrow> registry_ok (update_member_level v l w)"
  unfolding update_member_level_def
  by (rule registry_members, rule registry_peers) (auto simp: registry_pids split: if_splits)

lemma registry_disband: "registry_ok w \<Longrightarrow> registry_ok (fst (disband k w))"
  by (simp add: disband_def registry_delete split: option.split)

lemma registry_remove:
  assumes "registry_ok w"
  shows "registry_ok (fst (party_remove_member k q r w))"
proof (cases "map_of (parties w) k")
  case (Some party)
  with assms have ok: "party_ok k party" by (rule registry_party)
  then have "leader_pid party = k" by (simp add: party_ok_def)
  then show ?thesis
    using Some assms ok
    by (auto simp: party_remove_member_def registry_disband Let_def split: option.split
        intro!: registry_alter party_without)
qed (simp add: party_remove_member_def assms)

lemma registry_leave: "registry_ok w \<Longrightarrow> registry_ok (fst (leave_party_on_disconnect v w))"
  by (simp add: leave_party_on_disconnect_def registry_disband registry_remove split: option.split)

lemma registry_drop: "registry_ok w \<Longrightarrow> registry_ok (fst (drop_guard v w))"
  unfolding drop_guard_def by (rule registry_leave) (auto simp: registry_ok_def)

lemma registry_invite:
  assumes "registry_ok w"
  shows "registry_ok (fst (snd (handle_invite now pkt s w)))"
proof -
  have "registry_ok (w\<lparr>party_invites := (party_invites w)((l, pp_pid t) \<mapsto> i)\<rparr>)"
    if "party_sessions w v = Some t" "v \<noteq> l" for l v t i
    using assms registry_pids [OF assms that(1)] that(2)
    by (intro registry_invites) (auto dest: registry_guests split: if_splits)
  then show ?thesis
    using assms by (auto simp: handle_invite_def ignored_def info_def split: sum.split option.split)
qed

lemma registry_accept:
  assumes "registry_ok w" and "ps_id s \<noteq> l"
  shows "registry_ok (fst (snd (accept_answer now l s w)))"
proof -
  have "registry_ok (w\<lparr>parties := alter l (\<lambda>_. party\<lparr>members := AList.update (ps_id s) (guest_member s) (members party)\<rparr>) (parties w)\<rparr>)"
    if "map_of (parties w) l = Some party" "length (members party) < PARTY_MAX_MEMBER" for party
    using assms that registry_party [OF assms(1) that(1)]
    by (intro registry_alter party_with) (auto simp: guest_member_def)
  moreover have "party_ok l \<lparr>pt_id = l, leader_pid = l, created_at = now, exp_mode = PARTY_EXP_DISTRIBUTION_NON_PARITY,
      heal_at = t, members = AList.update (ps_id s) (guest_member s) [(l, leader_member l peer)]\<rparr>" for peer t
    using assms(2)
    by (auto simp: party_ok_def members_ok_def guest_member_def leader_member_def PARTY_MAX_MEMBER_def
        word_le_nat_alt word_less_nat_alt split: if_splits)
  ultimately show ?thesis
    using assms(1)
    by (auto simp: accept_answer_def info_def join_party_def create_party_def Let_def
        split: option.split intro!: registry_update)
qed

lemma registry_answer:
  assumes "registry_ok w"
  shows "registry_ok (fst (snd (handle_invite_answer now pkt s w)))"
proof -
  have drop: "registry_ok (w\<lparr>party_invites := (party_invites w)(key := None)\<rparr>)" for key
    using assms by (intro registry_invites) (auto dest: registry_guests split: if_splits)
  show ?thesis
    using assms registry_no_self [OF assms]
    by (auto simp: handle_invite_answer_def ignored_def info_def Let_def drop
        split: sum.split option.split intro!: registry_accept)
qed

lemma registry_handle_remove: "registry_ok w \<Longrightarrow> registry_ok (fst (snd (handle_remove pkt s w)))"
  by (auto simp: handle_remove_def ignored_def info_def with_world_def Let_def registry_disband registry_remove
      split: sum.split option.split)

lemma none_has: "\<not> list_ex (\<lambda>(k, m). P m) al \<Longrightarrow> map_of al q = Some m \<Longrightarrow> \<not> P m"
  by (induction al) (auto split: if_splits)

lemma registry_role:
  assumes "registry_ok w" and "map_of (parties w) k = Some party" and "map_of (members party) q = Some m"
    and "role_change on r m party" and "is_role r"
  shows "registry_ok (set_role k q (if on then r else PARTY_ROLE_NORMAL) w)"
proof -
  let ?r = "if on then r else PARTY_ROLE_NORMAL"
  note ok = registry_party [OF assms(1,2)]
  then have ms: "members_ok k (map_of (members party))" by (simp add: party_ok_def)
  have "pm_role m = PARTY_ROLE_LEADER \<longleftrightarrow> q = k" using ms assms(3) unfolding members_ok_def by blast
  then have "q \<noteq> k" using assms(4) by (auto simp: role_change_def split: if_splits)
  moreover
  have "?r = PARTY_ROLE_NORMAL \<or> is_role ?r \<and> (\<forall>q' m'. map_of (members party) q' = Some m' \<longrightarrow> pm_role m' \<noteq> ?r)"
    using assms(4,5) none_has [where P = "\<lambda>m. pm_role m = r" and al = "members party"] by (auto simp: role_change_def)
  ultimately have "members_ok k ((map_of (members party))(q \<mapsto> m\<lparr>pm_role := ?r\<rparr>))"
    using ms assms(3) by (intro members_role)
  moreover have "map_of (alter q (\<lambda>m. m\<lparr>pm_role := ?r\<rparr>) (members party)) = (map_of (members party))(q \<mapsto> m\<lparr>pm_role := ?r\<rparr>)"
    using assms(3) by (auto simp: fun_eq_iff)
  ultimately have "party_ok k (party\<lparr>members := alter q (\<lambda>m. m\<lparr>pm_role := ?r\<rparr>) (members party)\<rparr>)"
    using ok by (intro members_change) (simp_all add: party_ok_def)
  then show ?thesis
    unfolding set_role_def using assms(1,2) by (intro registry_alter) auto
qed

lemma registry_set_state: "registry_ok w \<Longrightarrow> registry_ok (fst (snd (handle_set_state pkt s w)))"
  by (auto simp: handle_set_state_def ignored_def info_def Let_def split: sum.split option.split
      intro: registry_role [where on = True, simplified] registry_role [where on = False, simplified])

lemma party_field:
  "party_ok k pt \<Longrightarrow> party_ok k (pt\<lparr>heal_at := t\<rparr>)"
  "party_ok k pt \<Longrightarrow> mode < PARTY_EXP_DISTRIBUTION_MAX_NUM \<Longrightarrow> party_ok k (pt\<lparr>exp_mode := mode\<rparr>)"
  by (simp_all add: party_ok_def)

lemma registry_skill: "registry_ok w \<Longrightarrow> registry_ok (fst (snd (handle_use_skill now pkt s w)))"
  by (auto simp: handle_use_skill_def use_heal_def use_warp_def ignored_def info_def Let_def
      split: sum.split option.split prod.split intro!: registry_alter party_field dest: registry_party)

lemma registry_parameter: "registry_ok w \<Longrightarrow> registry_ok (fst (snd (handle_parameter pkt s w)))"
  by (auto simp: handle_parameter_def ignored_def Let_def not_le
      split: sum.split option.split intro!: registry_alter party_field dest: registry_party)

end
