(* ===== verification/PartyRun.thy ===== *)
theory PartyRun
  imports PartyInv
begin

text \<open>
  The histories of the party registries as a step relation, the invariant of the reachable states,
  what the end of a connection and an invitation do, and a history that puts one player into two
  parties.
\<close>

section \<open>Histories\<close>

definition no_parties :: PartyWorld where
  "no_parties = \<lparr>party_sessions = Map.empty, party_invites = Map.empty, parties = []\<rparr>"

definition world_after :: "handled \<Rightarrow> PartyWorld" where
  "world_after h = fst (snd h)"

text \<open>The registries are hash maps: between two events the entries of \<open>parties\<close>, and the members of each
  party, may come in any other order.\<close>

definition rehashed_party :: "PartyState \<Rightarrow> PartyState \<Rightarrow> bool" where
  "rehashed_party pt pt' \<longleftrightarrow> pt' = pt\<lparr>members := members pt'\<rparr>
     \<and> distinct (List.map fst (members pt')) \<and> map_of (members pt') = map_of (members pt)"

definition rehashed :: "PartyWorld \<Rightarrow> PartyWorld \<Rightarrow> bool" where
  "rehashed w w' \<longleftrightarrow> w' = w\<lparr>parties := parties w'\<rparr> \<and> distinct (List.map fst (parties w'))
     \<and> (\<forall>k. rel_option rehashed_party (map_of (parties w) k) (map_of (parties w') k))"

inductive party_step :: "PartyWorld \<Rightarrow> PartyWorld \<Rightarrow> bool" where
  enters: "party_step w (register_session s w)"
| leaves: "party_step w (fst (drop_guard v w))"
| moves: "party_step w (update_position v x y w)"
| grows: "party_step w (update_member_level v l w)"
| invites: "party_step w (world_after (handle_invite now pkt s w))"
| answers: "party_step w (world_after (handle_invite_answer now pkt s w))"
| removes: "party_step w (world_after (handle_remove pkt s w))"
| assigns: "party_step w (world_after (handle_set_state pkt s w))"
| uses: "party_step w (world_after (handle_use_skill now pkt s w))"
| changes: "party_step w (world_after (handle_parameter pkt s w))"
| rehashes: "rehashed w w' \<Longrightarrow> party_step w w'"

inductive reached :: "PartyWorld \<Rightarrow> bool" where
  start: "reached no_parties"
| step: "reached w \<Longrightarrow> party_step w w' \<Longrightarrow> reached w'"

inductive_cases stepE: "party_step w w'"

lemma length_by_map: "distinct (List.map fst al) \<Longrightarrow> length al = card (dom (map_of al))"
  by (metis dom_map_of_conv_image_fst distinct_card length_map list.set_map)

lemma party_rehashed:
  assumes "rehashed_party pt pt'" and "party_ok k pt"
  shows "party_ok k pt'"
proof -
  have "length (members pt') = length (members pt)"
    using assms length_by_map [of "members pt"] length_by_map [of "members pt'"]
    by (simp add: rehashed_party_def party_ok_def)
  moreover obtain ms where "pt' = pt\<lparr>members := ms\<rparr>" using assms(1) by (auto simp: rehashed_party_def)
  ultimately show ?thesis using assms by (auto simp: rehashed_party_def party_ok_def)
qed

lemma registry_rehashed:
  assumes "rehashed w w'" and "registry_ok w"
  shows "registry_ok w'"
proof -
  obtain ps where w': "w' = w\<lparr>parties := ps\<rparr>" and d: "distinct (List.map fst ps)"
      and rel: "rel_option rehashed_party (map_of (parties w) k) (map_of ps k)" for k
    using assms(1) by (metis (no_types, lifting) PartyWorld.select_convs(3) PartyWorld.surjective
        PartyWorld.update_convs(3) rehashed_def)
  have "party_ok k pt'" if "map_of ps k = Some pt'" for k pt'
    using rel [of k] that party_rehashed registry_party [OF assms(2), of k]
    by (auto simp: option_rel_Some2)
  then show ?thesis using assms(2) d by (simp add: w' registry_ok_def)
qed

lemma step_registry: "party_step w w' \<Longrightarrow> registry_ok w \<Longrightarrow> registry_ok w'"
  by (erule stepE)
     (simp_all add: world_after_def registry_register registry_drop registry_position registry_level
       registry_invite registry_answer registry_handle_remove registry_set_state registry_skill registry_parameter registry_rehashed)

lemma reached_registry: "reached w \<Longrightarrow> registry_ok w"
proof (induction rule: reached.induct)
  case start
  show ?case by (simp add: registry_ok_def no_parties_def)
qed (rule step_registry)

text \<open>The players of the examples.\<close>

definition hero :: "u32 \<Rightarrow> PartySession" where
  "hero v = \<lparr>ps_id = v, ps_name = text_bytes ''hero'', ps_level = 30, ps_empire = 1, ps_map_index = 1,
     ps_x = 0, ps_y = 0, ps_hp = 50, ps_mp = 50, ps_max_points = Some (100, 100), ps_out = unat v, ps_party_id = None\<rparr>"

definition invite_pkt :: "u32 \<Rightarrow> bytes" where
  "invite_pkt v = TPacketCGPartyInvite_to_bytes (TPacketCGPartyInvite_new v)"

definition accept_pkt :: "u32 \<Rightarrow> bytes" where
  "accept_pkt l = TPacketCGPartyInviteAnswer_to_bytes (TPacketCGPartyInviteAnswer_new l 1)"

lemma parse_invite [simp]: "TPacketCGPartyInvite_from_bytes (invite_pkt v) = Inr (TPacketCGPartyInvite_new v)"
  by (simp add: invite_pkt_def cg_party_invite.from_to)

lemma parse_accept [simp]:
  "TPacketCGPartyInviteAnswer_from_bytes (accept_pkt l) = Inr (TPacketCGPartyInviteAnswer_new l 1)"
  by (simp add: accept_pkt_def cg_party_invite_answer.from_to)

definition three_heroes :: PartyWorld where
  "three_heroes = register_session (hero 3) (register_session (hero 2) (register_session (hero 1) no_parties))"

text \<open>Hero 1 invites hero 3, is invited by hero 2 and accepts.\<close>

definition met_world :: PartyWorld where
  "met_world =
    world_after (handle_invite_answer 3000 (accept_pkt 2) (hero 1)
      (world_after (handle_invite 2000 (invite_pkt 1) (hero 2)
        (world_after (handle_invite 1000 (invite_pkt 3) (hero 1) three_heroes)))))"

definition double_world :: PartyWorld where
  "double_world = world_after (handle_invite_answer 4000 (accept_pkt 1) (hero 3) met_world)"

lemma reached_met: "reached met_world"
  unfolding met_world_def three_heroes_def
  by (intro step [OF _ answers] step [OF _ invites] step [OF _ enters] start)

text \<open>C27. The party registry stays sound in every history: a party is filed under its leader, who is a
  member and the only one with the leader's role, every member is filed under his own identifier,
  no special role is given twice, no party has more than eight members.\<close>

theorem party_registry_sound:
  assumes "reached w" and "map_of (parties w) k = Some pt" and "map_of (members pt) q = Some m"
  shows "pt_id pt = k \<and> leader_pid pt = k \<and> map_of (members pt) k \<noteq> None \<and> length (members pt) \<le> 8
    \<and> distinct (List.map fst (members pt)) \<and> pm_pid m = q \<and> pm_vid m = q \<and> pm_role m \<le> 7
    \<and> (pm_role m = PARTY_ROLE_LEADER \<longleftrightarrow> q = k)
    \<and> (map_of (members pt) q' = Some m' \<and> pm_role m' = pm_role m \<and> q' \<noteq> q \<longrightarrow> pm_role m = PARTY_ROLE_NORMAL)
    \<and> exp_mode pt < 2"
proof -
  have "party_ok k pt" by (rule registry_party [OF reached_registry [OF assms(1)] assms(2)])
  then have pt: "pt_id pt = k" "leader_pid pt = k" "distinct (List.map fst (members pt))" "length (members pt) \<le> 8"
      "exp_mode pt < 2" and ms: "members_ok k (map_of (members pt))"
    by (simp_all add: party_ok_def PARTY_MAX_MEMBER_def)
  have "pm_pid m = q \<and> pm_vid m = q \<and> (pm_role m = PARTY_ROLE_LEADER \<longleftrightarrow> q = k) \<and> pm_role m \<le> PARTY_ROLE_DEFENDER"
      "map_of (members pt) k \<noteq> None"
    using ms assms(3) unfolding members_ok_def by blast+
  moreover have "q' = q" if "map_of (members pt) q' = Some m'" "pm_role m' = pm_role m" "pm_role m \<noteq> PARTY_ROLE_NORMAL"
    using ms assms(3) that unfolding members_ok_def by metis
  ultimately show ?thesis using pt by auto
qed

lemmas party_eval = met_world_def three_heroes_def no_parties_def register_session_def hero_def handle_invite_def
  handle_invite_answer_def accept_answer_def join_party_def create_party_def inviter_refused_def target_refused_def
  party_of_def in_party_def world_after_def PARTY_LEVEL_LIMIT_def PARTY_INVITE_TTL_def PARTY_MAX_MEMBER_def
  TPacketCGPartyInvite_new_def TPacketCGPartyInviteAnswer_new_def guest_member_def leader_member_def

text \<open>A player can be in two parties at once: an invitation outlives the moment its sender joins
  another party, and whoever accepts it makes the sender the leader of a second party.\<close>

theorem one_player_in_two_parties:
  "reached double_world
    \<and> List.map (\<lambda>(k, pt). (k, List.map fst (members pt))) (parties double_world) = [(2, [2, 1]), (1, [1, 3])]"
  using step [OF reached_met answers, of 4000 "accept_pkt 1" "hero 3"]
  by (simp add: double_world_def) (simp add: party_eval Let_def)

theorem party_registry_sound_witness:
  "\<exists>pt m. map_of (parties met_world) 2 = Some pt \<and> map_of (members pt) 1 = Some m
    \<and> leader_pid pt = 2 \<and> length (members pt) \<le> 8 \<and> pm_vid m = 1 \<and> pm_role m \<noteq> PARTY_ROLE_LEADER"
proof -
  obtain pt m where m: "map_of (parties met_world) 2 = Some pt" "map_of (members pt) 1 = Some m"
    by (simp add: party_eval Let_def)
  from party_registry_sound [OF reached_met this, of 2 m] m show ?thesis by auto
qed

section \<open>The end of a connection\<close>

lemma party_of_delete:
  assumes "registry_ok w" and "party_of w v = Some pt" and "length (List.filter (in_party v) (parties w)) \<le> 1"
    and "map_of (parties w) k = Some pt'" and "k \<noteq> pt_id pt"
  shows "map_of (members pt') v = None"
proof (rule ccontr)
  assume "map_of (members pt') v \<noteq> None"
  moreover note p = party_of_Some [OF assms(1,2)]
  ultimately have "{(pt_id pt, pt), (k, pt')} \<subseteq> set (List.filter (in_party v) (parties w))"
    using assms(4) by (auto simp: in_party_def dest: map_of_SomeD)
  then have "card {(pt_id pt, pt), (k, pt')} \<le> 1"
    using card_mono [of "set (List.filter (in_party v) (parties w))"] card_length assms(3)
    by (meson List.finite_set le_trans)
  with assms(5) show False by simp
qed

lemma party_of_NoneI: "(\<And>k pt. (k, pt) \<in> set (parties w) \<Longrightarrow> map_of (members pt) v = None) \<Longrightarrow> party_of w v = None"
  by (auto simp: party_of_def find_None_iff in_party_def)

lemma leave_clears:
  assumes "registry_ok w" and "length (List.filter (in_party v) (parties w)) \<le> 1"
  shows "party_of (fst (leave_party_on_disconnect v w)) v = None"
proof (cases "party_of w v")
  case None
  then show ?thesis by (simp add: leave_party_on_disconnect_def)
next
  case (Some pt)
  note p = party_of_Some [OF assms(1) Some]
  note others = party_of_delete [OF assms(1) Some assms(2)]
  have leader: "leader_pid pt = pt_id pt" using p(2) by (simp add: party_ok_def)
  note ok = registry_leave [OF assms(1), of v]
  show ?thesis
  proof (rule party_of_NoneI)
    fix k pt'
    assume "(k, pt') \<in> set (parties (fst (leave_party_on_disconnect v w)))"
    then have m: "map_of (parties (fst (leave_party_on_disconnect v w))) k = Some pt'"
      using ok by (simp add: registry_ok_def)
    show "map_of (members pt') v = None"
    proof (cases "v = pt_id pt")
      case True
      with m Some p(1) leader have "map_of (parties w) k = Some pt'" "k \<noteq> pt_id pt"
        by (auto simp: leave_party_on_disconnect_def disband_def delete_conv' split: if_splits)
      then show ?thesis by (rule others)
    next
      case False
      then obtain m0 where "map_of (members pt) v = Some m0" using p(3) by auto
      with m Some p(1) leader False show ?thesis
        using others [of k pt']
        by (auto simp: leave_party_on_disconnect_def party_remove_member_def delete_conv' Let_def split: if_splits)
    qed
  qed
qed

lemma leave_keeps:
  "party_sessions (fst (leave_party_on_disconnect v w)) = party_sessions w"
  "party_invites (fst (leave_party_on_disconnect v w)) = party_invites w"
  by (simp_all add: leave_party_on_disconnect_def party_remove_member_def disband_def Let_def split: option.split)

lemma leave_parties:
  assumes "registry_ok w" and "length (List.filter (in_party v) (parties w)) \<le> 1"
  shows "case map_of (parties w) v of
      None \<Rightarrow> length (parties (fst (leave_party_on_disconnect v w))) = length (parties w)
    | Some pt \<Rightarrow> parties (fst (leave_party_on_disconnect v w)) = AList.delete v (parties w)"
proof (cases "map_of (parties w) v")
  case None
  have "length (parties (fst (leave_party_on_disconnect v w))) = length (parties w)"
  proof (cases "party_of w v")
    case (Some pt)
    note p = party_of_Some [OF assms(1) Some]
    then have "leader_pid pt \<noteq> v" using None by (auto simp: party_ok_def)
    then show ?thesis
      using Some p(1) by (simp add: leave_party_on_disconnect_def party_remove_member_def Let_def split: option.split)
  qed (simp add: leave_party_on_disconnect_def)
  with None show ?thesis by simp
next
  case (Some pt)
  then have v: "map_of (members pt) v \<noteq> None"
    using registry_party [OF assms(1) Some] by (auto simp: party_ok_def members_ok_def)
  then obtain pt' where q: "party_of w v = Some pt'"
    using party_of_None [OF _ Some] by (cases "party_of w v") auto
  have "pt_id pt' = v" using party_of_delete [OF assms(1) q assms(2) Some] v by auto
  with party_of_Some [OF assms(1) q] q Some show ?thesis
    by (simp add: leave_party_on_disconnect_def disband_def party_ok_def)
qed

text \<open>Of the parties that list him exactly one lets him go.\<close>

lemma alter_absent: "k \<notin> fst ` set al \<Longrightarrow> alter k f al = al"
  by (induction al) (auto simp: alter_def)

lemma count_alter:
  "distinct (List.map fst al) \<Longrightarrow> map_of al k = Some x \<Longrightarrow> P (k, x) \<Longrightarrow> \<not> P (k, f x) \<Longrightarrow>
   length (List.filter P al) = Suc (length (List.filter P (alter k f al)))"
proof (induction al)
  case (Cons kx al)
  obtain k' x' where kx: "kx = (k', x')" by (cases kx)
  have step: "alter k f (kx # al) = (k', if k' = k then f x' else x') # alter k f al"
    by (simp add: alter_def kx)
  show ?case
  proof (cases "k' = k")
    case True
    then have "alter k f al = al" using Cons.prems(1) kx by (intro alter_absent) auto
    with True Cons.prems kx step show ?thesis by simp
  next
    case False
    with Cons kx step show ?thesis by simp
  qed
qed simp

lemma count_delete:
  "distinct (List.map fst al) \<Longrightarrow> map_of al k = Some x \<Longrightarrow> P (k, x) \<Longrightarrow>
   length (List.filter P al) = Suc (length (List.filter P (AList.delete k al)))"
proof (induction al)
  case (Cons kx al)
  then show ?case by (cases kx; cases "fst kx = k") (auto simp: delete_id image_iff)
qed simp

lemma leave_counts:
  assumes "registry_ok w"
  shows "length (List.filter (in_party v) (parties (fst (leave_party_on_disconnect v w))))
    = length (List.filter (in_party v) (parties w)) - 1"
proof (cases "party_of w v")
  case None
  then have "List.filter (in_party v) (parties w) = []"
    by (auto simp: party_of_def find_None_iff filter_empty_conv)
  with None show ?thesis by (simp add: leave_party_on_disconnect_def)
next
  case (Some pt)
  note p = party_of_Some [OF assms Some]
  have d: "distinct (List.map fst (parties w))" using assms by (simp add: registry_ok_def)
  have v: "in_party v (pt_id pt, pt)" using p(3) by (simp add: in_party_def)
  have leader: "leader_pid pt = pt_id pt" using p(2) by (simp add: party_ok_def)
  show ?thesis
  proof (cases "leader_pid pt = v")
    case True
    then show ?thesis
      using count_delete [OF d p(1), of "in_party v"] v Some p(1)
      by (simp add: leave_party_on_disconnect_def disband_def)
  next
    case False
    obtain m where "map_of (members pt) v = Some m" using p(3) by auto
    moreover have "\<not> in_party v (pt_id pt, pt\<lparr>members := AList.delete v (members pt)\<rparr>)"
      by (simp add: in_party_def delete_conv')
    ultimately show ?thesis
      using False count_alter [OF d p(1), of "in_party v" "\<lambda>q. q\<lparr>members := AList.delete v (members pt)\<rparr>"] v Some p(1)
      by (simp add: leave_party_on_disconnect_def party_remove_member_def Let_def)
  qed
qed

text \<open>C29. What the end of a connection removes: the session and the invitations its player has sent are
  gone, and of the parties that list him exactly one less does. So if he was in at most one party,
  no party lists him any more; if he led it, that party is dissolved and no other is touched, and
  otherwise none is dissolved. (A player can be in two parties, \<open>one_player_in_two_parties\<close>;
  then one of them keeps him.)\<close>

theorem connection_end_cleans:
  assumes "reached w"
  shows "party_sessions (fst (drop_guard v w)) v = None
    \<and> party_invites (fst (drop_guard v w)) (v, g) = None
    \<and> length (List.filter (in_party v) (parties (fst (drop_guard v w)))) = length (List.filter (in_party v) (parties w)) - 1
    \<and> (length (List.filter (in_party v) (parties w)) \<le> 1 \<longrightarrow>
         party_of (fst (drop_guard v w)) v = None
         \<and> (case map_of (parties w) v of
              None \<Rightarrow> length (parties (fst (drop_guard v w))) = length (parties w)
            | Some pt \<Rightarrow> parties (fst (drop_guard v w)) = AList.delete v (parties w)))"
proof -
  define w1 where "w1 = w\<lparr>party_sessions := (party_sessions w)(v := None),
    party_invites := (\<lambda>k. if fst k = v then None else party_invites w k)\<rparr>"
  have w1: "registry_ok w1" "parties w1 = parties w" "fst (drop_guard v w) = fst (leave_party_on_disconnect v w1)"
    using reached_registry [OF assms(1)] by (auto simp: w1_def registry_ok_def drop_guard_def)
  have "party_sessions w1 v = None" "party_invites w1 (v, g) = None" by (simp_all add: w1_def)
  with leave_clears [OF w1(1), of v] leave_parties [OF w1(1), of v] leave_counts [OF w1(1), of v]
  show ?thesis unfolding w1(2,3) leave_keeps by blast
qed

theorem connection_end_cleans_witness:
  "party_of (fst (drop_guard 1 met_world)) 1 = None
    \<and> length (parties (fst (drop_guard 1 met_world))) = length (parties met_world)
    \<and> length (List.filter (in_party 1) (parties met_world)) = 1
    \<and> length (List.filter (in_party 1) (parties (fst (drop_guard 1 met_world)))) = 0"
proof -
  have one: "length (List.filter (in_party 1) (parties met_world)) = 1" "map_of (parties met_world) 1 = None"
    by (simp_all add: party_eval Let_def)
  from connection_end_cleans [OF reached_met, of 1] one show ?thesis by simp
qed

section \<open>What an invitation decides\<close>

text \<open>C30. An invitation is recorded exactly when its sender may invite (he is in no party, or leads one that
  is not full), and its target is another player who is connected, of the same empire, within 30
  levels, in no party, and has no invitation of the same sender. The time plays no part: an
  invitation that was never answered keeps the sender from inviting the same player again, however
  long ago it expired.\<close>

theorem invitation_decides:
  assumes "reached w"
  shows "party_invites (world_after (handle_invite now (invite_pkt t) s w)) (ps_id s, t) \<noteq> party_invites w (ps_id s, t)
    \<longleftrightarrow> t \<noteq> ps_id s
      \<and> (case party_of w (ps_id s) of None \<Rightarrow> True | Some pt \<Rightarrow> leader_pid pt = ps_id s \<and> length (members pt) < 8)
      \<and> (case party_sessions w t of None \<Rightarrow> False
         | Some target \<Rightarrow> pp_empire target = ps_empire s \<and> \<bar>sint (ps_level s) - sint (pp_level target)\<bar> \<le> 30)
      \<and> party_of w t = None \<and> party_invites w (ps_id s, t) = None"
proof -
  have "party_sessions w t = Some target \<Longrightarrow> pp_pid target = t" for target
    using registry_pids [OF reached_registry [OF assms]] by blast
  moreover have "list_ex (in_party t) (parties w) \<longleftrightarrow> party_of w t \<noteq> None"
    by (auto simp: party_of_def list_ex_iff find_None_iff)
  ultimately show ?thesis
    by (auto simp: handle_invite_def world_after_def ignored_def info_def inviter_refused_def target_refused_def
        TPacketCGPartyInvite_new_def PARTY_MAX_MEMBER_def PARTY_LEVEL_LIMIT_def not_le not_less
        split: option.split)
qed

theorem invitation_decides_witness:
  "party_invites (world_after (handle_invite 900000 (invite_pkt 3) (hero 1) met_world)) (1, 3) = party_invites met_world (1, 3)"
  using invitation_decides [OF reached_met, of 900000 3 "hero 1"] by (simp add: hero_def) (simp add: party_eval Let_def)

end
