(* ===== verification/PartyExp.thy ===== *)
theory PartyExp
  imports PartyRun
begin

text \<open>
  The sharing of experience: what the members present receive together, compared with the experience
  of the kill.
\<close>

section \<open>Weights and shares\<close>

lemma weight_bounds: "0 < exp_weight l \<and> exp_weight l \<le> 14000"
proof (cases "sint l \<le> 0 \<or> sint l > 120")
  case False
  have "list_all (\<lambda>n. 0 < PARTY_EXP_TABLE ! n \<and> PARTY_EXP_TABLE ! n \<le> 14000) [1..<121]" by code_simp
  moreover have "nat (sint l) \<in> set [1..<121]" using False by auto
  ultimately show ?thesis using False unfolding exp_weight_def list_all_iff by auto
qed (simp add: exp_weight_def)

lemma weights_positive: "ls \<noteq> [] \<Longrightarrow> 0 < sum_list (List.map exp_weight ls)"
proof (induction ls)
  case (Cons l ls)
  then show ?case using weight_bounds [of l] by (cases ls) auto
qed simp

text \<open>Dividing the parts of a sum and adding up again loses less than one per part.\<close>

lemma sum_div:
  assumes "0 < (t :: int)"
  shows "sum_list (List.map (\<lambda>x. x div t) xs) * t \<le> sum_list xs
    \<and> sum_list xs \<le> sum_list (List.map (\<lambda>x. x div t) xs) * t + (t - 1) * int (length xs)"
proof (induction xs)
  case (Cons x xs)
  have "x div t * t \<le> x" "x \<le> x div t * t + (t - 1)"
    using assms div_mult_mod_eq [of x t] pos_mod_bound [of t x] pos_mod_sign [of t x] by linarith+
  with Cons show ?case by (simp add: algebra_simps)
qed simp

lemma sum_scaled: "sum_list (List.map (\<lambda>x. e * f x) xs) = e * sum_list (List.map f xs)" for e :: int
  by (induction xs) (simp_all add: algebra_simps)

lemma mode_cases: "m < 2 \<Longrightarrow> m = 0 \<or> m = 1" for m :: u8
  by unat_arith

lemma shares_of_parity:
  assumes "0 < e" and "ls \<noteq> []"
  shows "sum_list (replicate (length ls) (e div int (length ls))) \<le> e
    \<and> e - int (length ls) < sum_list (replicate (length ls) (e div int (length ls)))"
proof -
  have n: "0 < int (length ls)" using assms(2) by simp
  have "sum_list (replicate (length ls) (e div int (length ls))) = int (length ls) * (e div int (length ls))"
    by (simp add: sum_list_replicate)
  then show ?thesis
    using mult_div_mod_eq [of "int (length ls)" e] pos_mod_bound [OF n, of e] pos_mod_sign [OF n, of e] by linarith
qed

lemma shares_of_weights:
  assumes "0 < e" and "ls \<noteq> []"
  shows "sum_list (List.map (\<lambda>l. e * exp_weight l div sum_list (List.map exp_weight ls)) ls) \<le> e
    \<and> e - int (length ls) < sum_list (List.map (\<lambda>l. e * exp_weight l div sum_list (List.map exp_weight ls)) ls)"
proof -
  let ?t = "sum_list (List.map exp_weight ls)"
  let ?s = "sum_list (List.map (\<lambda>l. e * exp_weight l div ?t) ls)"
  note t = weights_positive [OF assms(2)]
  from sum_div [OF t, of "List.map (\<lambda>l. e * exp_weight l) ls"]
  have s: "?s * ?t \<le> e * ?t" "e * ?t \<le> ?s * ?t + (?t - 1) * int (length ls)"
    by (simp_all add: sum_scaled comp_def)
  have "0 < int (length ls)" using assms(2) by simp
  moreover have "(?t - 1) * int (length ls) = ?t * int (length ls) - int (length ls)" by (simp add: algebra_simps)
  ultimately have "e * ?t < ?s * ?t + ?t * int (length ls)" using s(2) by linarith
  then have "(e - int (length ls)) * ?t < ?s * ?t" by (simp add: algebra_simps)
  with s(1) t show ?thesis by (simp add: mult_le_cancel_right mult_less_cancel_right)
qed

lemma exp_shares_sum:
  assumes "0 < e" and "e \<le> 2 ^ 49" and "ls \<noteq> []" and "mode < PARTY_EXP_DISTRIBUTION_MAX_NUM"
  shows "sum_list (exp_shares mode e ls) \<le> e \<and> e - int (length ls) < sum_list (exp_shares mode e ls)
    \<and> list_all (\<lambda>x. 0 \<le> x) (exp_shares mode e ls) \<and> length (exp_shares mode e ls) = length ls"
proof -
  note t = weights_positive [OF assms(3)]
  have part: "trunc_div (wrap_i64 (e * exp_weight l)) (sum_list (List.map exp_weight ls))
      = e * exp_weight l div sum_list (List.map exp_weight ls)"
    and pos: "0 \<le> e * exp_weight l div sum_list (List.map exp_weight ls)" for l
  proof -
    have "e * exp_weight l \<le> 2 ^ 49 * 14000"
      using assms(1,2) weight_bounds [of l] by (intro mult_mono) auto
    moreover have "0 \<le> e * exp_weight l" using assms(1) weight_bounds [of l] by simp
    ultimately show "trunc_div (wrap_i64 (e * exp_weight l)) (sum_list (List.map exp_weight ls))
        = e * exp_weight l div sum_list (List.map exp_weight ls)"
      "0 \<le> e * exp_weight l div sum_list (List.map exp_weight ls)"
      using t by (simp_all add: in_i64_def i64_min_def i64_max_def pos_imp_zdiv_nonneg_iff)
  qed
  have "max 1 (sum_list (List.map exp_weight ls)) = sum_list (List.map exp_weight ls)" using t by simp
  with assms(1,3) have weighted: "exp_shares 0 e ls = List.map (\<lambda>l. e * exp_weight l div sum_list (List.map exp_weight ls)) ls"
    by (simp add: exp_shares_def part)
  have parity: "exp_shares 1 e ls = replicate (length ls) (e div int (length ls))"
    using assms(1,3) by (simp add: exp_shares_def)
  have "0 \<le> e div int (length ls)" using assms(1,3) by (simp add: pos_imp_zdiv_nonneg_iff)
  then show ?thesis
    using mode_cases [of mode] assms(4) shares_of_parity [OF assms(1,3)] shares_of_weights [OF assms(1,3)] pos
    by (auto simp: weighted parity list_all_iff)
qed

section \<open>Bonus and pool\<close>

lemma bonus_bounds: "0 \<le> exp_bonus now x y pt \<and> exp_bonus now x y pt \<le> 105"
proof -
  have "list_all (\<lambda>n. 0 \<le> PARTY_EXP_BONUS_TABLE ! n \<and> PARTY_EXP_BONUS_TABLE ! n \<le> 100) [0..<9]" by code_simp
  then have t: "0 \<le> PARTY_EXP_BONUS_TABLE ! min n 8" "PARTY_EXP_BONUS_TABLE ! min n 8 \<le> 100" for n
    by (auto simp: list_all_iff)
  have "PARTY_EXP_BONUS_TABLE ! min n 8 \<le> 105" for n using t(2) [of n] by linarith
  with t show ?thesis
    by (auto simp: exp_bonus_def PARTY_LONG_TIME_EXP_BONUS_def Let_def split: option.split)
qed

lemma in_i64_nonneg: "0 \<le> x \<Longrightarrow> x \<le> 9223372036854775807 \<Longrightarrow> in_i64 x"
  by (simp add: in_i64_def i64_min_def i64_max_def)

lemma pool_bounds:
  assumes "0 < e" and "e \<le> 2 ^ 47" and "0 \<le> b" and "b \<le> 105"
  shows "e \<le> exp_pool b e \<and> exp_pool b e \<le> e * 205 div 100"
proof -
  have e: "e \<le> 140737488355328" using assms(2) by simp
  have "e * (100 + b) \<le> e * 205" "e * 100 \<le> e * (100 + b)" using assms by (auto intro: mult_left_mono)
  moreover from this have "in_i64 (e * (100 + b))" using e assms(1) by (intro in_i64_nonneg) linarith+
  moreover have "e * 100 div 100 \<le> e * (100 + b) div 100" "e * (100 + b) div 100 \<le> e * 205 div 100"
    using calculation(1,2) by (auto intro: zdiv_mono1)
  ultimately show ?thesis using assms(1) by (auto simp: exp_pool_def)
qed

section \<open>Handing out\<close>

definition gained :: "deliveries \<Rightarrow> int list" where
  "gained ds = List.concat (List.map (\<lambda>(out, msgs). List.concat (List.map
    (\<lambda>m. case m of ExpGain a \<Rightarrow> [a] | _ \<Rightarrow> []) msgs)) ds)"

lemma gained_simps [simp]:
  "gained [] = []" "gained ((out, [ExpGain a]) # ds) = a # gained ds"
  by (simp_all add: gained_def)

lemma hand_out_sum:
  "list_all (\<lambda>z. pm_out (fst z) \<noteq> None) zs \<Longrightarrow> distinct (List.map (\<lambda>z. pm_vid (fst z)) zs) \<Longrightarrow>
   fst (hand_out v zs mine) + sum_list (gained (snd (hand_out v zs mine)))
     = sum_list (List.map snd zs) + (if v \<in> (\<lambda>z. pm_vid (fst z)) ` set zs then 0 else mine)"
proof (induction v zs mine rule: hand_out.induct)
  case (2 v m share rest mine)
  show ?case
  proof (cases "pm_vid m = v")
    case True
    then have "v \<notin> (\<lambda>z. pm_vid (fst z)) ` set rest" using "2.prems"(2) by auto
    with True "2.IH"(1) [OF True] "2.prems" show ?thesis by simp
  next
    case False
    obtain a ds where r: "hand_out v rest mine = (a, ds)" by fastforce
    obtain out where "pm_out m = Some out" using "2.prems"(1) by auto
    with False "2.IH"(2) [OF False] "2.prems" r show ?thesis by auto
  qed
qed simp

lemma hand_out_nonneg:
  "list_all (\<lambda>(m, x). 0 \<le> x) zs \<Longrightarrow> 0 \<le> mine \<Longrightarrow>
   0 \<le> fst (hand_out v zs mine) \<and> list_all (\<lambda>x. 0 \<le> x) (gained (snd (hand_out v zs mine)))"
  by (induction v zs mine rule: hand_out.induct) (auto split: prod.splits option.splits)

lemma present_distinct:
  assumes "party_ok k pt"
  shows "distinct (List.map pm_vid (present mp x y pt))" and "length (present mp x y pt) \<le> 8"
proof -
  have "(q, m) \<in> set (members pt) \<Longrightarrow> pm_vid m = q" for q m
    using assms by (auto simp: party_ok_def members_ok_def)
  then have "List.map pm_vid (List.map snd (members pt)) = List.map fst (members pt)" by auto
  then have "distinct (List.map pm_vid (List.map snd (members pt)))" using assms unfolding party_ok_def by metis
  then show "distinct (List.map pm_vid (present mp x y pt))" unfolding present_def by (rule distinct_map_filter)
  have "length (present mp x y pt) \<le> length (List.map snd (members pt))"
    unfolding present_def by (rule length_filter_le)
  then show "length (present mp x y pt) \<le> 8" using assms by (simp add: party_ok_def PARTY_MAX_MEMBER_def)
qed

text \<open>C28. A kill is shared without creating or losing experience: the part of the killer and the parts
  sent to the others add up to the experience of the kill, raised by a bonus of at most 105 per
  cent, except for less than eight points lost to rounding; no part is negative. Both modes of
  sharing, any histories of the party, experience up to \<open>2 ^ 47\<close>, far above a level.\<close>

theorem kill_is_shared:
  assumes "reached w" and "0 < e" and "e \<le> 2 ^ 47"
  shows "\<exists>pool. e \<le> pool \<and> pool \<le> e * 205 div 100
    \<and> fst (distribute_exp now s e x y w) + sum_list (gained (snd (distribute_exp now s e x y w))) \<le> pool
    \<and> pool - 8 < fst (distribute_exp now s e x y w) + sum_list (gained (snd (distribute_exp now s e x y w)))
    \<and> 0 \<le> fst (distribute_exp now s e x y w)
    \<and> list_all (\<lambda>a. 0 \<le> a) (gained (snd (distribute_exp now s e x y w)))"
proof (cases "party_of w (ps_id s)")
  case None
  have "e * 1 \<le> e * 205 div 100" using assms(2) by linarith
  with None assms(2) show ?thesis by (intro exI [of _ e]) (simp add: distribute_exp_def)
next
  case (Some pt)
  note ok = party_of_Some(2) [OF reached_registry [OF assms(1)] Some]
  define ms where "ms = present (ps_map_index s) x y pt"
  define pool where "pool = exp_pool (exp_bonus now x y pt) e"
  have pool: "e \<le> pool" "pool \<le> e * 205 div 100"
    using pool_bounds [OF assms(2,3)] bonus_bounds by (simp_all add: pool_def)
  have "e * 205 div 100 \<le> 140737488355328 * 205 div 100" using assms(3) by (intro zdiv_mono1) simp_all
  with pool assms(2) have small: "0 < pool" "pool \<le> 2 ^ 49" by simp_all
  show ?thesis
  proof (cases "length ms < 2 \<or> \<not> list_ex (\<lambda>m. pm_vid m = ps_id s) ms")
    case True
    with Some assms(2) have "distribute_exp now s e x y w = (pool, [])"
      by (simp add: distribute_exp_def Let_def ms_def pool_def)
    with pool small show ?thesis by (intro exI [of _ pool]) simp
  next
    case False
    define shares where "shares = exp_shares (exp_mode pt) pool (List.map pm_level ms)"
    have r: "distribute_exp now s e x y w = hand_out (ps_id s) (zip ms shares) pool"
      using Some assms(2) False by (simp add: distribute_exp_def Let_def ms_def pool_def shares_def)
    have "List.map pm_level ms \<noteq> []" "exp_mode pt < PARTY_EXP_DISTRIBUTION_MAX_NUM"
      using False ok by (auto simp: party_ok_def)
    from exp_shares_sum [OF small this] present_distinct(2) [OF ok, of "ps_map_index s" x y]
    have shares: "sum_list shares \<le> pool" "pool - 8 < sum_list shares" "list_all (\<lambda>x. 0 \<le> x) shares"
        "length shares = length ms"
      by (simp_all add: shares_def ms_def)
    have zip: "List.map (\<lambda>z. pm_vid (fst z)) (zip ms shares) = List.map pm_vid ms"
        "List.map snd (zip ms shares) = shares"
      using shares(4) by (simp_all add: map_fst_zip flip: map_map [unfolded comp_def])
    have "list_all (\<lambda>z. pm_out (fst z) \<noteq> None) (zip ms shares)" "list_all (\<lambda>(m, x). 0 \<le> x) (zip ms shares)"
      using shares(3) by (auto simp: ms_def present_def list_all_iff dest: set_zip_leftD set_zip_rightD)
    moreover have "ps_id s \<in> (\<lambda>z. pm_vid (fst z)) ` set (zip ms shares)"
      using False arg_cong [OF zip(1), of set] by (auto simp: list_ex_iff intro: rev_image_eqI)
    moreover have "distinct (List.map (\<lambda>z. pm_vid (fst z)) (zip ms shares))"
      unfolding zip(1) by (simp add: ms_def present_distinct(1) [OF ok])
    ultimately show ?thesis
      using pool shares small hand_out_sum [of "zip ms shares" "ps_id s" pool] hand_out_nonneg [of "zip ms shares" pool "ps_id s"]
      by (intro exI [of _ pool]) (simp add: r zip)
  qed
qed

definition pair_world :: PartyWorld where
  "pair_world = world_after (handle_invite_answer 2000 (accept_pkt 1) (hero 2)
     (world_after (handle_invite 1000 (invite_pkt 2) (hero 1) three_heroes)))"

lemma reached_pair: "reached pair_world"
  unfolding pair_world_def three_heroes_def
  by (intro step [OF _ answers] step [OF _ invites] step [OF _ enters] start)

theorem kill_is_shared_witness:
  "\<exists>pool. 1000 \<le> pool \<and> pool \<le> 1000 * 205 div 100
    \<and> fst (distribute_exp 3000 (hero 1) 1000 0 0 pair_world) + sum_list (gained (snd (distribute_exp 3000 (hero 1) 1000 0 0 pair_world))) \<le> pool
    \<and> pool - 8 < fst (distribute_exp 3000 (hero 1) 1000 0 0 pair_world) + sum_list (gained (snd (distribute_exp 3000 (hero 1) 1000 0 0 pair_world)))
    \<and> 0 \<le> fst (distribute_exp 3000 (hero 1) 1000 0 0 pair_world)
    \<and> list_all (\<lambda>a. 0 \<le> a) (gained (snd (distribute_exp 3000 (hero 1) 1000 0 0 pair_world)))"
  by (rule kill_is_shared [OF reached_pair]) simp_all

end
