(* ===== verification/PartyGate.thy ===== *)
theory PartyGate
  imports PartyExp
begin

text \<open>
  What a session does with the messages of its outbox (\<^verbatim>\<open>handle_msg\<close> of
  \<^verbatim>\<open>server_realms/src/channel/party.rs\<close>), and the gate of the world that keeps members of a party from
  attacking each other (\<^verbatim>\<open>game_core/src/combat.rs\<close>, \<^verbatim>\<open>game_core/src/ecs/systems/combat.rs\<close>).
\<close>

section \<open>The gate\<close>

datatype PkMode = Peace | Revenge | Free | Protect | GuildMode

definition PkMode_from_u8 :: "u8 \<Rightarrow> PkMode option" where
  "PkMode_from_u8 b =
    (if b = 0 then Some Peace else if b = 1 then Some Revenge else if b = 2 then Some Free
     else if b = 3 then Some Protect else if b = 4 then Some GuildMode else None)"

definition PK_PROTECT_LEVEL :: int where "PK_PROTECT_LEVEL = 15"

record PvpContext =
  pk_mode :: PkMode
  pc_party_id :: "u32 option"
  pc_guild_id :: "u32 option"
  pc_alignment :: int
  pc_hp :: int
  pc_level :: int
  safe_zone :: bool

definition same :: "u32 option \<Rightarrow> u32 option \<Rightarrow> bool" where
  "same a b \<longleftrightarrow> a \<noteq> None \<and> a = b"

definition battle_is_attackable :: "PvpContext \<Rightarrow> PvpContext \<Rightarrow> bool" where
  "battle_is_attackable a v =
    (if pc_hp a \<le> 0 \<or> pc_hp v \<le> 0 then False
     else if same (pc_party_id a) (pc_party_id v) then False
     else if pk_mode a = Protect \<or> pk_mode v = Protect then False
     else if pk_mode v \<noteq> Peace then True
     else (let same_guild = same (pc_guild_id a) (pc_guild_id v)
           in case pk_mode a of
                Peace \<Rightarrow> False
              | Revenge \<Rightarrow> \<not> same_guild \<and> ((pc_alignment a < 0 \<and> pc_alignment v \<ge> 0)
                                          \<or> (pc_alignment a \<ge> 0 \<and> pc_alignment v < 0))
              | Free \<Rightarrow> True
              | GuildMode \<Rightarrow> \<not> same_guild
              | Protect \<Rightarrow> False))"

definition can_attack :: "PvpContext \<Rightarrow> PvpContext \<Rightarrow> bool" where
  "can_attack a v =
    (if safe_zone a \<or> safe_zone v then False
     else if pc_level a < PK_PROTECT_LEVEL \<or> pc_level v < PK_PROTECT_LEVEL then False
     else battle_is_attackable a v)"

text \<open>
  The players of the world with their components. The context the world builds has alignment 0, no
  guild and no safe zone.
\<close>

record Fighter =
  f_mode :: PkMode
  f_party :: "u32 option"
  f_hp :: int
  f_level :: int

definition pvp_context :: "(u32 \<rightharpoonup> Fighter) \<Rightarrow> u32 \<Rightarrow> PvpContext option" where
  "pvp_context fs v = map_option (\<lambda>f. \<lparr>pk_mode = f_mode f, pc_party_id = f_party f, pc_guild_id = None,
      pc_alignment = 0, pc_hp = f_hp f, pc_level = f_level f, safe_zone = False\<rparr>) (fs v)"

definition pvp_attackable :: "(u32 \<rightharpoonup> Fighter) \<Rightarrow> u32 \<Rightarrow> u32 \<Rightarrow> bool" where
  "pvp_attackable fs a v =
    (case (pvp_context fs a, pvp_context fs v) of (Some x, Some y) \<Rightarrow> can_attack x y | _ \<Rightarrow> False)"

definition set_player_party :: "u32 \<Rightarrow> u32 option \<Rightarrow> (u32 \<rightharpoonup> Fighter) \<Rightarrow> u32 \<rightharpoonup> Fighter" where
  "set_player_party v p fs = fs(v := map_option (\<lambda>f. f\<lparr>f_party := p\<rparr>) (fs v))"

section \<open>Messages\<close>

text \<open>
  What a message makes its session do. The address of the server
  (\<^verbatim>\<open>parse_listen\<close> and \<^verbatim>\<open>ip_to_inet_addr\<close> of the configuration) is an argument, \<open>None\<close> when it cannot be
  parsed; \<open>Inl\<close> ends the session.
\<close>

datatype SessionEffect =
    SendBytes bytes
  | GainExp int
  | SetParty u32 "u32 option"
  | SendPoints
  | SaveRow

definition handle_msg ::
    "(u32 \<times> u16) option \<Rightarrow> PartyMsg \<Rightarrow> PartySession \<Rightarrow> PartyWorld \<Rightarrow>
     (string + PartySession) \<times> PartyWorld \<times> SessionEffect list" where
  "handle_msg ep msg s w =
    (case msg of
       Packet b \<Rightarrow> (Inr s, w, [SendBytes b])
     | ExpGain a \<Rightarrow> (Inr s, w, [GainExp a])
     | Joined p \<Rightarrow> (Inr (s\<lparr>ps_party_id := Some p\<rparr>), w, [SetParty (ps_id s) (Some p)])
     | LeftParty \<Rightarrow> (Inr (s\<lparr>ps_party_id := None\<rparr>), w, [SetParty (ps_id s) None])
     | HealFull \<Rightarrow>
         (case ps_max_points s of
            None \<Rightarrow> (Inl ''HealFull'', w, [])
          | Some (hp, mp) \<Rightarrow> (Inr (s\<lparr>ps_hp := hp, ps_mp := mp\<rparr>), w, [SendPoints, SaveRow]))
     | Summon x y \<Rightarrow>
         (let s' = s\<lparr>ps_x := x, ps_y := y\<rparr>; w' = update_position (ps_id s) x y w
          in case ep of
               None \<Rightarrow> (Inl ''summon'', w', [SaveRow])
             | Some (ip, prt) \<Rightarrow>
                 (Inr s', w', [SaveRow, SendBytes (TPacketGCWarp_to_bytes (TPacketGCWarp_new x y ip prt))])))"

definition fight_effect :: "SessionEffect \<Rightarrow> (u32 \<rightharpoonup> Fighter) \<Rightarrow> u32 \<rightharpoonup> Fighter" where
  "fight_effect e fs = (case e of SetParty v p \<Rightarrow> set_player_party v p fs | _ \<Rightarrow> fs)"

text \<open>A session empties its outbox; the first error ends it.\<close>

fun empty_outbox :: "(u32 \<times> u16) option \<Rightarrow> PartyMsg list \<Rightarrow> PartySession \<times> PartyWorld \<times> (u32 \<rightharpoonup> Fighter) \<Rightarrow>
    PartySession \<times> PartyWorld \<times> (u32 \<rightharpoonup> Fighter)" where
  "empty_outbox ep [] st = st"
| "empty_outbox ep (msg # msgs) (s, w, fs) =
     (case handle_msg ep msg s w of
        (Inl e, w', es) \<Rightarrow> (s, w', fold fight_effect es fs)
      | (Inr s', w', es) \<Rightarrow> empty_outbox ep msgs (s', w', fold fight_effect es fs))"

definition inbox :: "nat \<Rightarrow> deliveries \<Rightarrow> PartyMsg list" where
  "inbox out ds = List.concat (List.map snd (List.filter (\<lambda>(q, msgs). q = out) ds))"

definition is_packet :: "PartyMsg \<Rightarrow> bool" where
  "is_packet m = (case m of Packet b \<Rightarrow> True | _ \<Rightarrow> False)"

lemma outbox_packets: "list_all is_packet msgs \<Longrightarrow> empty_outbox ep msgs (s, w, fs) = (s, w, fs)"
  by (induction msgs arbitrary: s w)
     (auto simp: handle_msg_def fight_effect_def is_packet_def split: PartyMsg.splits)

lemma sync_packets: "list_all is_packet (member_sync_msgs pt)" "list_all is_packet (link_msgs pt)"
  by (auto simp: member_sync_msgs_def link_msgs_def list_all_iff is_packet_def)

lemma to_members_packets:
  "(\<And>m. list_all is_packet (f m)) \<Longrightarrow> list_all (\<lambda>(out, msgs). list_all is_packet msgs) (to_members f ms)"
  by (auto simp: to_members_def list_all_iff split: option.splits)

lemma inbox_packets: "list_all (\<lambda>(out, msgs). list_all is_packet msgs) ds \<Longrightarrow> list_all is_packet (inbox out ds)"
  by (auto simp: inbox_def list_all_iff)

text \<open>What the accepting session finds in its outbox: packets only.\<close>

lemma accept_inbox:
  assumes "accept_answer now l s w = (s', w', ds, rs)" and "party_sessions w l = Some peer" and "pp_out peer \<noteq> ps_out s"
  shows "list_all is_packet (inbox (ps_out s) ds)"
proof -
  have packets: "list_all is_packet (inbox out (to_members (\<lambda>m. [Packet (f m), Packet (g m), Packet (h m)]) ms))"
    for out ms and f g h :: "PartyMember \<Rightarrow> bytes"
    by (intro inbox_packets to_members_packets) (simp add: is_packet_def)
  show ?thesis
    using assms packets sync_packets
    by (auto simp: accept_answer_def info_def join_party_def create_party_def Let_def inbox_def is_packet_def
        split: if_splits option.splits)
qed

lemma handle_msg_id: "handle_msg ep msg s w = (Inr s', w', es) \<Longrightarrow> ps_id s' = ps_id s"
  by (auto simp: handle_msg_def Let_def split: PartyMsg.splits option.splits)

lemma fight_effects:
  "handle_msg ep msg s w = (r, w', es) \<Longrightarrow>
   fold fight_effect es fs = fs \<or> (\<exists>p. fold fight_effect es fs = set_player_party (ps_id s) p fs)"
  by (auto simp: handle_msg_def fight_effect_def Let_def split: PartyMsg.splits option.splits)

lemma set_twice: "set_player_party v p (set_player_party v q fs) = set_player_party v p fs"
  by (auto simp: set_player_party_def option.map_comp comp_def)

text \<open>Emptying an outbox changes at most the party of its own player.\<close>

lemma outbox_fighters:
  "empty_outbox ep msgs (s, w, fs) = (s', w', fs') \<Longrightarrow> fs' = fs \<or> (\<exists>p. fs' = set_player_party (ps_id s) p fs)"
proof (induction msgs arbitrary: s w fs)
  case (Cons msg msgs)
  obtain r w1 es where h: "handle_msg ep msg s w = (r, w1, es)" by (cases rule: prod_cases3)
  note now = fight_effects [OF h, of fs]
  show ?case
  proof (cases r)
    case (Inl e)
    with Cons.prems h now show ?thesis by auto
  next
    case (Inr s1)
    with Cons.prems h have "empty_outbox ep msgs (s1, w1, fold fight_effect es fs) = (s', w', fs')" by simp
    from Cons.IH [OF this] handle_msg_id [of ep msg s w s1 w1 es] h Inr now set_twice show ?thesis by metis
  qed
qed simp

lemma same_None [simp]: "\<not> same p None" "\<not> same None p"
  by (auto simp: same_def)

lemma can_attack_party:
  "pc_party_id v = None \<Longrightarrow> can_attack (a\<lparr>pc_party_id := p\<rparr>) v = can_attack a v"
  "pc_party_id v = None \<Longrightarrow> can_attack v (a\<lparr>pc_party_id := p\<rparr>) = can_attack v a"
  by (cases "pk_mode a"; cases "pk_mode v"; simp add: can_attack_def battle_is_attackable_def Let_def)+

lemma gate_without_party:
  assumes "fs g = Some f" and "f_party f = None" and "l \<noteq> g"
    and "fs' = fs \<or> (\<exists>p. fs' = set_player_party l p fs)"
  shows "pvp_attackable fs' l g = pvp_attackable fs l g \<and> pvp_attackable fs' g l = pvp_attackable fs g l"
proof -
  obtain c where c: "pvp_context fs g = Some c" "pc_party_id c = None"
    using assms(1,2) by (simp add: pvp_context_def)
  have g: "pvp_context (set_player_party l p fs) g = Some c" for p
    using assms(3) c(1) by (simp add: pvp_context_def set_player_party_def)
  have l: "pvp_context (set_player_party l p fs) l = map_option (\<lambda>c. c\<lparr>pc_party_id := p\<rparr>) (pvp_context fs l)" for p
    by (cases "fs l") (simp_all add: pvp_context_def set_player_party_def)
  have "pvp_attackable (set_player_party l p fs) l g = pvp_attackable fs l g
      \<and> pvp_attackable (set_player_party l p fs) g l = pvp_attackable fs g l" for p
    unfolding pvp_attackable_def g l c(1) by (cases "pvp_context fs l") (simp_all add: can_attack_party c(2))
  with assms(4) show ?thesis by blast
qed

lemma accept_members:
  assumes "accept_answer now l s w = (s', w', ds, rs)" and "ps_party_id s = None" and "ps_party_id s' = Some k"
    and "l \<noteq> ps_id s" and "\<And>pt. map_of (parties w) l = Some pt \<Longrightarrow> map_of (members pt) l \<noteq> None"
  shows "k = l \<and> is_member l (ps_id s) w' \<and> is_member l l w'"
proof -
  obtain peer where peer: "party_sessions w l = Some peer" "\<not> list_ex (in_party (ps_id s)) (parties w)"
    using assms(1-3) by (auto simp: accept_answer_def info_def split: option.splits if_splits)
  show ?thesis
  proof (cases "map_of (parties w) l")
    case None
    with assms(1) peer have "w' = fst (create_party now s l peer w)" "s' = s\<lparr>ps_party_id := Some l\<rparr>"
      by (auto simp: accept_answer_def split: prod.splits)
    with assms(3,4) show ?thesis by (simp add: create_party_def is_member_def Let_def update_conv')
  next
    case (Some pt)
    with assms(1-3) peer have "w' = fst (join_party s l pt w)" "s' = s\<lparr>ps_party_id := Some l\<rparr>"
      by (auto simp: accept_answer_def info_def split: prod.splits if_splits)
    with assms(3,4) assms(5) [OF Some] Some show ?thesis by (simp add: join_party_def is_member_def Let_def update_conv')
  qed
qed

text \<open>Joining a party does not protect from its leader: the invitee who accepts becomes a member in
  the registry and in his session, yet the world is never told. After both sessions have handled
  every message, leader and invitee can attack each other exactly as before, although the gate
  refuses attacks inside a party.\<close>

theorem invitee_stays_attackable:
  assumes "reached w" and "handle_invite_answer now pkt s w = (s', w', ds, rs)"
    and "ps_party_id s = None" and "ps_party_id s' = Some l"
    and "party_sessions w l = Some peer" and "pp_out peer \<noteq> ps_out s" and "ps_id leader = l"
    and "fs (ps_id s) = Some f" and "f_party f = None"
    and "empty_outbox ep (inbox (ps_out s) ds) (s', w', fs) = (s2, w2, fs2)"
    and "empty_outbox ep (inbox (pp_out peer) ds) (leader, w2, fs2) = (leader3, w3, fs3)"
  shows "is_member l (ps_id s) w' \<and> is_member l l w' \<and> ps_party_id s2 = Some l
    \<and> pvp_attackable fs3 l (ps_id s) = pvp_attackable fs l (ps_id s)
    \<and> pvp_attackable fs3 (ps_id s) l = pvp_attackable fs (ps_id s) l"
proof -
  note ok = reached_registry [OF assms(1)]
  obtain p i where p: "TPacketCGPartyInviteAnswer_from_bytes pkt = Inr p"
      "party_invites w (TPacketCGPartyInviteAnswer.leader_vid p, ps_id s) = Some i"
      "accept_answer now (TPacketCGPartyInviteAnswer.leader_vid p) s
        (w\<lparr>party_invites := (party_invites w)((TPacketCGPartyInviteAnswer.leader_vid p, ps_id s) := None)\<rparr>) = (s', w', ds, rs)"
    using assms(2-4)
    by (auto simp: handle_invite_answer_def ignored_def info_def Let_def split: sum.splits option.splits if_splits)
  let ?w1 = "w\<lparr>party_invites := (party_invites w)((TPacketCGPartyInviteAnswer.leader_vid p, ps_id s) := None)\<rparr>"
  have ne: "TPacketCGPartyInviteAnswer.leader_vid p \<noteq> ps_id s" using registry_guests [OF ok] p(2) by blast
  have "registry_ok ?w1" using ok by (intro registry_invites) (auto dest: registry_guests split: if_splits)
  then have lead: "map_of (parties ?w1) k = Some pt \<Longrightarrow> map_of (members pt) k \<noteq> None" for k pt
    using registry_party [of ?w1 k pt] by (auto simp: party_ok_def members_ok_def)
  from accept_members [OF p(3) assms(3,4) ne lead]
  have l: "TPacketCGPartyInviteAnswer.leader_vid p = l" and members: "is_member l (ps_id s) w' \<and> is_member l l w'" by simp_all
  have "list_all is_packet (inbox (ps_out s) ds)"
    by (rule accept_inbox [OF p(3)]) (use assms(5,6) l in simp_all)
  from outbox_packets [OF this, of ep s' w' fs] assms(10) have fs2: "fs2 = fs" "s2 = s'" by simp_all
  have "fs3 = fs \<or> (\<exists>q. fs3 = set_player_party l q fs)"
    using outbox_fighters [OF assms(11)] assms(7) by (simp add: fs2)
  moreover have "l \<noteq> ps_id s" using ne l by blast
  ultimately have "pvp_attackable fs3 l (ps_id s) = pvp_attackable fs l (ps_id s)
      \<and> pvp_attackable fs3 (ps_id s) l = pvp_attackable fs (ps_id s) l"
    using assms(8,9) by (intro gate_without_party)
  moreover have "ps_party_id s2 = Some l" using assms(4) fs2(2) by blast
  ultimately show ?thesis using members by blast
qed

definition free_fighters :: "u32 \<rightharpoonup> Fighter" where
  "free_fighters = [1 \<mapsto> \<lparr>f_mode = Free, f_party = None, f_hp = 100, f_level = 30\<rparr>,
                    2 \<mapsto> \<lparr>f_mode = Free, f_party = None, f_hp = 100, f_level = 30\<rparr>]"

definition invited_world :: PartyWorld where
  "invited_world = world_after (handle_invite 1000 (invite_pkt 2) (hero 1) three_heroes)"

lemma reached_invited: "reached invited_world"
  unfolding invited_world_def three_heroes_def
  by (intro step [OF _ invites] step [OF _ enters] start)

theorem invitee_stays_attackable_witness:
  "case handle_invite_answer 2000 (accept_pkt 1) (hero 2) invited_world of
     (s', w', ds, rs) \<Rightarrow>
       (case empty_outbox None (inbox 2 ds) (s', w', free_fighters) of
          (s2, w2, fs2) \<Rightarrow>
            (case empty_outbox None (inbox 1 ds) (hero 1, w2, fs2) of
               (leader3, w3, fs3) \<Rightarrow> is_member 1 2 w' \<and> is_member 1 1 w' \<and> pvp_attackable fs3 1 2))"
proof -
  obtain s' w' ds rs where a: "handle_invite_answer 2000 (accept_pkt 1) (hero 2) invited_world = (s', w', ds, rs)"
    by (cases rule: prod_cases4)
  obtain s2 w2 fs2 where b: "empty_outbox None (inbox 2 ds) (s', w', free_fighters) = (s2, w2, fs2)" by (cases rule: prod_cases3)
  obtain l3 w3 fs3 where c: "empty_outbox None (inbox 1 ds) (hero 1, w2, fs2) = (l3, w3, fs3)" by (cases rule: prod_cases3)
  have joined: "ps_party_id s' = Some 1"
    using a by (auto simp: party_eval invited_world_def Let_def)
  obtain peer where peer: "party_sessions invited_world 1 = Some peer" "pp_out peer = 1"
    by (simp add: party_eval invited_world_def Let_def)
  have "pvp_attackable free_fighters 1 2"
    by (simp add: pvp_attackable_def pvp_context_def free_fighters_def can_attack_def battle_is_attackable_def same_def
        PK_PROTECT_LEVEL_def)
  moreover have "is_member 1 2 w' \<and> is_member 1 1 w' \<and> ps_party_id s2 = Some 1
      \<and> pvp_attackable fs3 1 2 = pvp_attackable free_fighters 1 2
      \<and> pvp_attackable fs3 2 1 = pvp_attackable free_fighters 2 1"
    using invitee_stays_attackable [OF reached_invited a _ joined peer(1), where leader = "hero 1" and fs = free_fighters
        and ep = None] b c peer(2)
    by (simp add: hero_def free_fighters_def)
  ultimately show ?thesis by (simp only: a b c prod.case)
qed

end
