(* ===== verification/ItemPackets.thy ===== *)
theory ItemPackets
  imports Wire Headers
begin

text \<open>
  The packets of the items, the quick slots and the safebox (\<^verbatim>\<open>protocol/src/world.rs\<close>), in the
  shape of \<open>ClientPackets\<close>: record, constructor, reader, writer, and the interpretation of
  \<open>packet_codec\<close>.
\<close>

lemmas le16_read [rd_wr] = from_le16_le16

lemma byte_halves [rd_wr]:
  "ucast (rd_u16 d k) = d ! k" "ucast (drop_bit 8 (rd_u16 d k)) = d ! Suc k"
  using le16_from_le16 [of "d ! k" "d ! Suc k"] by (simp_all add: rd_u16_def le16_def)

lemma whole_one [covers]: "length d = Suc 0 \<Longrightarrow> covers [d ! 0] d (Suc 0)"
  by (auto simp: covers_nth)

lemma whole_three [covers]: "length d = 3 \<Longrightarrow> covers [d ! 0, d ! Suc 0, d ! 2] d 3"
  by (auto simp: covers_nth less_Suc_eq nth_Cons numeral_eq_Suc)

record TQuickslot =
  slot_type :: u8
  pos :: u8

definition TQuickslot_SIZE :: nat where [simp]: "TQuickslot_SIZE = 2"

definition TQuickslot_from_bytes :: "bytes \<Rightarrow> ProtocolError + TQuickslot" where
  "TQuickslot_from_bytes data =
     (if length data \<noteq> TQuickslot_SIZE then Inl (BadLength TQuickslot_SIZE (length data))
      else Inr \<lparr>slot_type = data ! 0,
        pos = data ! 1\<rparr>)"

definition TQuickslot_to_bytes :: "TQuickslot \<Rightarrow> bytes" where
  "TQuickslot_to_bytes p = [slot_type p, pos p]"

definition TQuickslot_wf :: "TQuickslot \<Rightarrow> bool" where
  "TQuickslot_wf p \<longleftrightarrow> True"

interpretation quickslot:
  packet_codec TQuickslot_SIZE TQuickslot_wf TQuickslot_to_bytes TQuickslot_from_bytes
  by (rule packet_codecI [OF TQuickslot_from_bytes_def])
     (auto simp: TQuickslot_to_bytes_def TQuickslot_wf_def rd_wr array_lengths intro!: covers)

record TPacketGCQuickSlotAdd =
  header :: u8
  pos :: u8
  slot :: TQuickslot

definition TPacketGCQuickSlotAdd_SIZE :: nat where [simp]: "TPacketGCQuickSlotAdd_SIZE = 4"

definition TPacketGCQuickSlotAdd_new :: "u8 \<Rightarrow> TQuickslot \<Rightarrow> TPacketGCQuickSlotAdd" where
  "TPacketGCQuickSlotAdd_new pos' slot' =
     \<lparr>header = 28,
      pos = pos',
      slot = slot'\<rparr>"

definition TPacketGCQuickSlotAdd_from_bytes :: "bytes \<Rightarrow> ProtocolError + TPacketGCQuickSlotAdd" where
  "TPacketGCQuickSlotAdd_from_bytes data =
     (if length data \<noteq> TPacketGCQuickSlotAdd_SIZE then Inl (BadLength TPacketGCQuickSlotAdd_SIZE (length data))
      else Inr \<lparr>header = data ! 0,
        pos = data ! 1,
        slot = \<lparr>TQuickslot.slot_type = data ! 2, TQuickslot.pos = data ! 3\<rparr>\<rparr>)"

definition TPacketGCQuickSlotAdd_to_bytes :: "TPacketGCQuickSlotAdd \<Rightarrow> bytes" where
  "TPacketGCQuickSlotAdd_to_bytes p = [header p, pos p, TQuickslot.slot_type (slot p), TQuickslot.pos (slot p)]"

definition TPacketGCQuickSlotAdd_wf :: "TPacketGCQuickSlotAdd \<Rightarrow> bool" where
  "TPacketGCQuickSlotAdd_wf p \<longleftrightarrow> True"

interpretation gc_quick_slot_add:
  packet_codec TPacketGCQuickSlotAdd_SIZE TPacketGCQuickSlotAdd_wf TPacketGCQuickSlotAdd_to_bytes TPacketGCQuickSlotAdd_from_bytes
  by (rule packet_codecI [OF TPacketGCQuickSlotAdd_from_bytes_def])
     (auto simp: TPacketGCQuickSlotAdd_to_bytes_def TPacketGCQuickSlotAdd_wf_def rd_wr array_lengths intro!: covers)

lemma TPacketGCQuickSlotAdd_new_wf [simp]: "TPacketGCQuickSlotAdd_wf (TPacketGCQuickSlotAdd_new pos' slot')"
  by (simp add: TPacketGCQuickSlotAdd_wf_def TPacketGCQuickSlotAdd_new_def)

record TPacketCGQuickSlotAdd =
  header :: u8
  pos :: u8
  slot :: TQuickslot

definition TPacketCGQuickSlotAdd_SIZE :: nat where [simp]: "TPacketCGQuickSlotAdd_SIZE = 4"

definition TPacketCGQuickSlotAdd_from_bytes :: "bytes \<Rightarrow> ProtocolError + TPacketCGQuickSlotAdd" where
  "TPacketCGQuickSlotAdd_from_bytes data =
     (if length data \<noteq> TPacketCGQuickSlotAdd_SIZE then Inl (BadLength TPacketCGQuickSlotAdd_SIZE (length data))
      else Inr \<lparr>header = data ! 0,
        pos = data ! 1,
        slot = \<lparr>TQuickslot.slot_type = data ! 2, TQuickslot.pos = data ! 3\<rparr>\<rparr>)"

definition TPacketCGQuickSlotAdd_to_bytes :: "TPacketCGQuickSlotAdd \<Rightarrow> bytes" where
  "TPacketCGQuickSlotAdd_to_bytes p = [header p, pos p, TQuickslot.slot_type (slot p), TQuickslot.pos (slot p)]"

definition TPacketCGQuickSlotAdd_wf :: "TPacketCGQuickSlotAdd \<Rightarrow> bool" where
  "TPacketCGQuickSlotAdd_wf p \<longleftrightarrow> True"

interpretation cg_quick_slot_add:
  packet_codec TPacketCGQuickSlotAdd_SIZE TPacketCGQuickSlotAdd_wf TPacketCGQuickSlotAdd_to_bytes TPacketCGQuickSlotAdd_from_bytes
  by (rule packet_codecI [OF TPacketCGQuickSlotAdd_from_bytes_def])
     (auto simp: TPacketCGQuickSlotAdd_to_bytes_def TPacketCGQuickSlotAdd_wf_def rd_wr array_lengths intro!: covers)

record TPacketCGQuickSlotDel =
  header :: u8
  pos :: u8

definition TPacketCGQuickSlotDel_SIZE :: nat where [simp]: "TPacketCGQuickSlotDel_SIZE = 2"

definition TPacketCGQuickSlotDel_from_bytes :: "bytes \<Rightarrow> ProtocolError + TPacketCGQuickSlotDel" where
  "TPacketCGQuickSlotDel_from_bytes data =
     (if length data \<noteq> TPacketCGQuickSlotDel_SIZE then Inl (BadLength TPacketCGQuickSlotDel_SIZE (length data))
      else Inr \<lparr>header = data ! 0,
        pos = data ! 1\<rparr>)"

definition TPacketCGQuickSlotDel_to_bytes :: "TPacketCGQuickSlotDel \<Rightarrow> bytes" where
  "TPacketCGQuickSlotDel_to_bytes p = [header p, pos p]"

definition TPacketCGQuickSlotDel_wf :: "TPacketCGQuickSlotDel \<Rightarrow> bool" where
  "TPacketCGQuickSlotDel_wf p \<longleftrightarrow> True"

interpretation cg_quick_slot_del:
  packet_codec TPacketCGQuickSlotDel_SIZE TPacketCGQuickSlotDel_wf TPacketCGQuickSlotDel_to_bytes TPacketCGQuickSlotDel_from_bytes
  by (rule packet_codecI [OF TPacketCGQuickSlotDel_from_bytes_def])
     (auto simp: TPacketCGQuickSlotDel_to_bytes_def TPacketCGQuickSlotDel_wf_def rd_wr array_lengths intro!: covers)

record TPacketCGQuickSlotSwap =
  header :: u8
  pos :: u8
  change_pos :: u8

definition TPacketCGQuickSlotSwap_SIZE :: nat where [simp]: "TPacketCGQuickSlotSwap_SIZE = 3"

definition TPacketCGQuickSlotSwap_from_bytes :: "bytes \<Rightarrow> ProtocolError + TPacketCGQuickSlotSwap" where
  "TPacketCGQuickSlotSwap_from_bytes data =
     (if length data \<noteq> TPacketCGQuickSlotSwap_SIZE then Inl (BadLength TPacketCGQuickSlotSwap_SIZE (length data))
      else Inr \<lparr>header = data ! 0,
        pos = data ! 1,
        change_pos = data ! 2\<rparr>)"

definition TPacketCGQuickSlotSwap_to_bytes :: "TPacketCGQuickSlotSwap \<Rightarrow> bytes" where
  "TPacketCGQuickSlotSwap_to_bytes p = [header p, pos p, change_pos p]"

definition TPacketCGQuickSlotSwap_wf :: "TPacketCGQuickSlotSwap \<Rightarrow> bool" where
  "TPacketCGQuickSlotSwap_wf p \<longleftrightarrow> True"

interpretation cg_quick_slot_swap:
  packet_codec TPacketCGQuickSlotSwap_SIZE TPacketCGQuickSlotSwap_wf TPacketCGQuickSlotSwap_to_bytes TPacketCGQuickSlotSwap_from_bytes
  by (rule packet_codecI [OF TPacketCGQuickSlotSwap_from_bytes_def])
     (auto simp: TPacketCGQuickSlotSwap_to_bytes_def TPacketCGQuickSlotSwap_wf_def rd_wr array_lengths intro!: covers)

record TPacketGCQuickSlotDel =
  header :: u8
  pos :: u8

definition TPacketGCQuickSlotDel_SIZE :: nat where [simp]: "TPacketGCQuickSlotDel_SIZE = 2"

definition TPacketGCQuickSlotDel_new :: "u8 \<Rightarrow> TPacketGCQuickSlotDel" where
  "TPacketGCQuickSlotDel_new pos' =
     \<lparr>header = 29,
      pos = pos'\<rparr>"

definition TPacketGCQuickSlotDel_from_bytes :: "bytes \<Rightarrow> ProtocolError + TPacketGCQuickSlotDel" where
  "TPacketGCQuickSlotDel_from_bytes data =
     (if length data \<noteq> TPacketGCQuickSlotDel_SIZE then Inl (BadLength TPacketGCQuickSlotDel_SIZE (length data))
      else Inr \<lparr>header = data ! 0,
        pos = data ! 1\<rparr>)"

definition TPacketGCQuickSlotDel_to_bytes :: "TPacketGCQuickSlotDel \<Rightarrow> bytes" where
  "TPacketGCQuickSlotDel_to_bytes p = [header p, pos p]"

definition TPacketGCQuickSlotDel_wf :: "TPacketGCQuickSlotDel \<Rightarrow> bool" where
  "TPacketGCQuickSlotDel_wf p \<longleftrightarrow> True"

interpretation gc_quick_slot_del:
  packet_codec TPacketGCQuickSlotDel_SIZE TPacketGCQuickSlotDel_wf TPacketGCQuickSlotDel_to_bytes TPacketGCQuickSlotDel_from_bytes
  by (rule packet_codecI [OF TPacketGCQuickSlotDel_from_bytes_def])
     (auto simp: TPacketGCQuickSlotDel_to_bytes_def TPacketGCQuickSlotDel_wf_def rd_wr array_lengths intro!: covers)

lemma TPacketGCQuickSlotDel_new_wf [simp]: "TPacketGCQuickSlotDel_wf (TPacketGCQuickSlotDel_new pos')"
  by (simp add: TPacketGCQuickSlotDel_wf_def TPacketGCQuickSlotDel_new_def)

record TPacketGCQuickSlotSwap =
  header :: u8
  pos :: u8
  pos_to :: u8

definition TPacketGCQuickSlotSwap_SIZE :: nat where [simp]: "TPacketGCQuickSlotSwap_SIZE = 3"

definition TPacketGCQuickSlotSwap_new :: "u8 \<Rightarrow> u8 \<Rightarrow> TPacketGCQuickSlotSwap" where
  "TPacketGCQuickSlotSwap_new pos' pos_to' =
     \<lparr>header = 30,
      pos = pos',
      pos_to = pos_to'\<rparr>"

definition TPacketGCQuickSlotSwap_from_bytes :: "bytes \<Rightarrow> ProtocolError + TPacketGCQuickSlotSwap" where
  "TPacketGCQuickSlotSwap_from_bytes data =
     (if length data \<noteq> TPacketGCQuickSlotSwap_SIZE then Inl (BadLength TPacketGCQuickSlotSwap_SIZE (length data))
      else Inr \<lparr>header = data ! 0,
        pos = data ! 1,
        pos_to = data ! 2\<rparr>)"

definition TPacketGCQuickSlotSwap_to_bytes :: "TPacketGCQuickSlotSwap \<Rightarrow> bytes" where
  "TPacketGCQuickSlotSwap_to_bytes p = [header p, pos p, pos_to p]"

definition TPacketGCQuickSlotSwap_wf :: "TPacketGCQuickSlotSwap \<Rightarrow> bool" where
  "TPacketGCQuickSlotSwap_wf p \<longleftrightarrow> True"

interpretation gc_quick_slot_swap:
  packet_codec TPacketGCQuickSlotSwap_SIZE TPacketGCQuickSlotSwap_wf TPacketGCQuickSlotSwap_to_bytes TPacketGCQuickSlotSwap_from_bytes
  by (rule packet_codecI [OF TPacketGCQuickSlotSwap_from_bytes_def])
     (auto simp: TPacketGCQuickSlotSwap_to_bytes_def TPacketGCQuickSlotSwap_wf_def rd_wr array_lengths intro!: covers)

lemma TPacketGCQuickSlotSwap_new_wf [simp]: "TPacketGCQuickSlotSwap_wf (TPacketGCQuickSlotSwap_new pos' pos_to')"
  by (simp add: TPacketGCQuickSlotSwap_wf_def TPacketGCQuickSlotSwap_new_def)

record TItemPos =
  window :: u8
  cell :: u16

definition WINDOW_INVENTORY :: u8 where "WINDOW_INVENTORY = 1"
definition WINDOW_EQUIPMENT :: u8 where "WINDOW_EQUIPMENT = 2"
definition WINDOW_SAFEBOX :: u8 where "WINDOW_SAFEBOX = 3"
definition WINDOW_DRAGON_SOUL :: u8 where "WINDOW_DRAGON_SOUL = 5"
definition WINDOW_BELT :: u8 where "WINDOW_BELT = 6"

text \<open>
  The sockets and the attributes of an item are wider in the struct than on the wire: a socket
  travels as an \<^verbatim>\<open>i32\<close>, the type of an attribute as a byte.
\<close>

definition sockets_ok :: "int list \<Rightarrow> bool" where
  "sockets_ok xs \<longleftrightarrow> length xs = 3 \<and> (\<forall>x \<in> set xs. - (2 ^ 31) \<le> x \<and> x < 2 ^ 31)"

definition attrs_ok :: "(int \<times> int) list \<Rightarrow> bool" where
  "attrs_ok xs \<longleftrightarrow> length xs = 7
     \<and> (\<forall>x \<in> set xs. 0 \<le> fst x \<and> fst x < 2 ^ 8 \<and> - (2 ^ 15) \<le> snd x \<and> snd x < 2 ^ 15)"

lemma sint_of_int: "- (2 ^ 31) \<le> x \<Longrightarrow> x < 2 ^ 31 \<Longrightarrow> sint (word_of_int x :: i32) = x"
  "- (2 ^ 15) \<le> y \<Longrightarrow> y < 2 ^ 15 \<Longrightarrow> sint (word_of_int y :: i16) = y"
  "0 \<le> z \<Longrightarrow> z < 2 ^ 8 \<Longrightarrow> uint (word_of_int z :: u8) = z"
  by (simp_all add: sint_sbintrunc' signed_take_bit_int_eq_self uint_word_of_int take_bit_int_eq_self)

lemma sockets_read [rd_wr]:
  assumes "sockets_ok xs"
  shows "[sint (word_of_int (xs ! 0) :: i32), sint (word_of_int (xs ! Suc 0) :: i32), sint (word_of_int (xs ! 2) :: i32)] = xs"
proof -
  have "sint (word_of_int (xs ! i) :: i32) = xs ! i" if "i < 3" for i
    using assms that by (intro sint_of_int) (auto simp: sockets_ok_def)
  then show ?thesis
    using assms by (auto simp: sockets_ok_def list_eq_iff_nth_eq less_Suc_eq nth_Cons numeral_eq_Suc)
qed

lemma no_sockets [rd_wr]: "sockets_ok (replicate 3 0)" "attrs_ok (replicate 7 (0, 0))"
  by (auto simp: sockets_ok_def attrs_ok_def)

lemma attr_read:
  assumes "attrs_ok xs" and "i < 7"
  shows "(uint (word_of_int (fst (xs ! i)) :: u8), sint (word_of_int (snd (xs ! i)) :: i16)) = xs ! i"
proof -
  have "xs ! i \<in> set xs" using assms by (auto simp: attrs_ok_def)
  then show ?thesis
    using assms by (auto simp: attrs_ok_def intro!: prod_eqI sint_of_int)
qed

lemma seven_bytes_pairs:
  "length xs = 7 \<Longrightarrow> [xs ! 0, xs ! Suc 0, xs ! 2, xs ! 3, xs ! 4, xs ! 5, xs ! 6] = xs"
  by (auto simp: list_eq_iff_nth_eq less_Suc_eq nth_Cons numeral_eq_Suc)

lemma attrs_read [rd_wr]:
  assumes "attrs_ok xs"
  shows "[(uint (word_of_int (fst (xs ! 0)) :: u8), sint (word_of_int (snd (xs ! 0)) :: i16)),
    (uint (word_of_int (fst (xs ! Suc 0)) :: u8), sint (word_of_int (snd (xs ! Suc 0)) :: i16)),
    (uint (word_of_int (fst (xs ! 2)) :: u8), sint (word_of_int (snd (xs ! 2)) :: i16)),
    (uint (word_of_int (fst (xs ! 3)) :: u8), sint (word_of_int (snd (xs ! 3)) :: i16)),
    (uint (word_of_int (fst (xs ! 4)) :: u8), sint (word_of_int (snd (xs ! 4)) :: i16)),
    (uint (word_of_int (fst (xs ! 5)) :: u8), sint (word_of_int (snd (xs ! 5)) :: i16)),
    (uint (word_of_int (fst (xs ! 6)) :: u8), sint (word_of_int (snd (xs ! 6)) :: i16))] = xs"
  using assms attr_read [OF assms] by (simp add: seven_bytes_pairs attrs_ok_def)

lemma wire_ranges:
  "- (2 ^ 31) \<le> sint (w :: i32)" "sint (w :: i32) < 2 ^ 31"
  "- (2 ^ 15) \<le> sint (v :: i16)" "sint (v :: i16) < 2 ^ 15" "uint (u :: u8) < 2 ^ 8"
  using sint_greater_eq [of w] sint_less [of w] sint_greater_eq [of v] sint_less [of v] uint_lt2p [of u]
  by simp_all

lemma sockets_ok_wire [rd_wr]: "sockets_ok [sint (a :: i32), sint (b :: i32), sint (c :: i32)]"
  using wire_ranges(1,2) [of a] wire_ranges(1,2) [of b] wire_ranges(1,2) [of c] by (simp add: sockets_ok_def)

lemma attrs_ok_wire [rd_wr]:
  "attrs_ok [(uint (a0 :: u8), sint (b0 :: i16)), (uint (a1 :: u8), sint (b1 :: i16)),
     (uint (a2 :: u8), sint (b2 :: i16)), (uint (a3 :: u8), sint (b3 :: i16)),
     (uint (a4 :: u8), sint (b4 :: i16)), (uint (a5 :: u8), sint (b5 :: i16)), (uint (a6 :: u8), sint (b6 :: i16))]"
  using wire_ranges(3,4) [of b0] wire_ranges(5) [of a0] wire_ranges(3,4) [of b1] wire_ranges(5) [of a1] wire_ranges(3,4) [of b2] wire_ranges(5) [of a2]
    wire_ranges(3,4) [of b3] wire_ranges(5) [of a3] wire_ranges(3,4) [of b4] wire_ranges(5) [of a4] wire_ranges(3,4) [of b5] wire_ranges(5) [of a5]
    wire_ranges(3,4) [of b6] wire_ranges(5) [of a6]
  by (simp add: attrs_ok_def)


record TPacketGCItemSet =
  header :: u8
  cell :: TItemPos
  vnum :: u32
  count :: u8
  flags :: u32
  anti_flags :: u32
  highlight :: u8
  sockets :: "int list"
  attrs :: "(int \<times> int) list"

definition TPacketGCItemSet_SIZE :: nat where [simp]: "TPacketGCItemSet_SIZE = 51"

definition TPacketGCItemSet_from_bytes :: "bytes \<Rightarrow> ProtocolError + TPacketGCItemSet" where
  "TPacketGCItemSet_from_bytes data =
     (if length data \<noteq> TPacketGCItemSet_SIZE then Inl (BadLength TPacketGCItemSet_SIZE (length data))
      else Inr \<lparr>header = data ! 0,
        cell = \<lparr>TItemPos.window = data ! 1, TItemPos.cell = from_le16 (data ! 2) (data ! 3)\<rparr>,
        vnum = rd_u32 data 4,
        count = data ! 8,
        flags = rd_u32 data 9,
        anti_flags = rd_u32 data 13,
        highlight = data ! 17,
        sockets = [sint (rd_i32 data 18), sint (rd_i32 data 22), sint (rd_i32 data 26)],
        attrs = [(uint (data ! 30), sint (from_le16 (data ! 31) (data ! 32))), (uint (data ! 33), sint (from_le16 (data ! 34) (data ! 35))), (uint (data ! 36), sint (from_le16 (data ! 37) (data ! 38))), (uint (data ! 39), sint (from_le16 (data ! 40) (data ! 41))), (uint (data ! 42), sint (from_le16 (data ! 43) (data ! 44))), (uint (data ! 45), sint (from_le16 (data ! 46) (data ! 47))), (uint (data ! 48), sint (from_le16 (data ! 49) (data ! 50)))]\<rparr>)"

definition TPacketGCItemSet_to_bytes :: "TPacketGCItemSet \<Rightarrow> bytes" where
  "TPacketGCItemSet_to_bytes p =
    (let b = replicate TPacketGCItemSet_SIZE 0;
         b = b[0 := header p];
         b = b[1 := TItemPos.window (cell p)];
         b = copy_at b 2 (le16 (TItemPos.cell (cell p)));
         b = copy_at b 4 (le32 (vnum p));
         b = b[8 := count p];
         b = copy_at b 9 (le32 (flags p));
         b = copy_at b 13 (le32 (anti_flags p));
         b = b[17 := highlight p];
         b = copy_at b 18 (le32 (word_of_int (sockets p ! 0)));
         b = copy_at b 22 (le32 (word_of_int (sockets p ! 1)));
         b = copy_at b 26 (le32 (word_of_int (sockets p ! 2)));
         b = b[30 := word_of_int (fst (attrs p ! 0))];
         b = copy_at b 31 (le16 (word_of_int (snd (attrs p ! 0))));
         b = b[33 := word_of_int (fst (attrs p ! 1))];
         b = copy_at b 34 (le16 (word_of_int (snd (attrs p ! 1))));
         b = b[36 := word_of_int (fst (attrs p ! 2))];
         b = copy_at b 37 (le16 (word_of_int (snd (attrs p ! 2))));
         b = b[39 := word_of_int (fst (attrs p ! 3))];
         b = copy_at b 40 (le16 (word_of_int (snd (attrs p ! 3))));
         b = b[42 := word_of_int (fst (attrs p ! 4))];
         b = copy_at b 43 (le16 (word_of_int (snd (attrs p ! 4))));
         b = b[45 := word_of_int (fst (attrs p ! 5))];
         b = copy_at b 46 (le16 (word_of_int (snd (attrs p ! 5))));
         b = b[48 := word_of_int (fst (attrs p ! 6))];
         b = copy_at b 49 (le16 (word_of_int (snd (attrs p ! 6))))
     in b)"

definition TPacketGCItemSet_wf :: "TPacketGCItemSet \<Rightarrow> bool" where
  "TPacketGCItemSet_wf p \<longleftrightarrow> sockets_ok (sockets p) \<and> attrs_ok (attrs p)"

interpretation gc_item_set:
  packet_codec TPacketGCItemSet_SIZE TPacketGCItemSet_wf TPacketGCItemSet_to_bytes TPacketGCItemSet_from_bytes
  by (rule packet_codecI [OF TPacketGCItemSet_from_bytes_def])
     (auto simp: TPacketGCItemSet_to_bytes_def TPacketGCItemSet_wf_def rd_wr array_lengths intro!: covers)

record TPacketGCItemUpdate =
  header :: u8
  cell :: TItemPos
  count :: u8
  sockets :: "int list"
  attrs :: "(int \<times> int) list"

definition TPacketGCItemUpdate_SIZE :: nat where [simp]: "TPacketGCItemUpdate_SIZE = 38"

definition TPacketGCItemUpdate_from_bytes :: "bytes \<Rightarrow> ProtocolError + TPacketGCItemUpdate" where
  "TPacketGCItemUpdate_from_bytes data =
     (if length data \<noteq> TPacketGCItemUpdate_SIZE then Inl (BadLength TPacketGCItemUpdate_SIZE (length data))
      else Inr \<lparr>header = data ! 0,
        cell = \<lparr>TItemPos.window = data ! 1, TItemPos.cell = from_le16 (data ! 2) (data ! 3)\<rparr>,
        count = data ! 4,
        sockets = [sint (rd_i32 data 5), sint (rd_i32 data 9), sint (rd_i32 data 13)],
        attrs = [(uint (data ! 17), sint (from_le16 (data ! 18) (data ! 19))), (uint (data ! 20), sint (from_le16 (data ! 21) (data ! 22))), (uint (data ! 23), sint (from_le16 (data ! 24) (data ! 25))), (uint (data ! 26), sint (from_le16 (data ! 27) (data ! 28))), (uint (data ! 29), sint (from_le16 (data ! 30) (data ! 31))), (uint (data ! 32), sint (from_le16 (data ! 33) (data ! 34))), (uint (data ! 35), sint (from_le16 (data ! 36) (data ! 37)))]\<rparr>)"

definition TPacketGCItemUpdate_to_bytes :: "TPacketGCItemUpdate \<Rightarrow> bytes" where
  "TPacketGCItemUpdate_to_bytes p =
    (let b = replicate TPacketGCItemUpdate_SIZE 0;
         b = b[0 := header p];
         b = b[1 := TItemPos.window (cell p)];
         b = copy_at b 2 (le16 (TItemPos.cell (cell p)));
         b = b[4 := count p];
         b = copy_at b 5 (le32 (word_of_int (sockets p ! 0)));
         b = copy_at b 9 (le32 (word_of_int (sockets p ! 1)));
         b = copy_at b 13 (le32 (word_of_int (sockets p ! 2)));
         b = b[17 := word_of_int (fst (attrs p ! 0))];
         b = copy_at b 18 (le16 (word_of_int (snd (attrs p ! 0))));
         b = b[20 := word_of_int (fst (attrs p ! 1))];
         b = copy_at b 21 (le16 (word_of_int (snd (attrs p ! 1))));
         b = b[23 := word_of_int (fst (attrs p ! 2))];
         b = copy_at b 24 (le16 (word_of_int (snd (attrs p ! 2))));
         b = b[26 := word_of_int (fst (attrs p ! 3))];
         b = copy_at b 27 (le16 (word_of_int (snd (attrs p ! 3))));
         b = b[29 := word_of_int (fst (attrs p ! 4))];
         b = copy_at b 30 (le16 (word_of_int (snd (attrs p ! 4))));
         b = b[32 := word_of_int (fst (attrs p ! 5))];
         b = copy_at b 33 (le16 (word_of_int (snd (attrs p ! 5))));
         b = b[35 := word_of_int (fst (attrs p ! 6))];
         b = copy_at b 36 (le16 (word_of_int (snd (attrs p ! 6))))
     in b)"

definition TPacketGCItemUpdate_wf :: "TPacketGCItemUpdate \<Rightarrow> bool" where
  "TPacketGCItemUpdate_wf p \<longleftrightarrow> sockets_ok (sockets p) \<and> attrs_ok (attrs p)"

interpretation gc_item_update:
  packet_codec TPacketGCItemUpdate_SIZE TPacketGCItemUpdate_wf TPacketGCItemUpdate_to_bytes TPacketGCItemUpdate_from_bytes
  by (rule packet_codecI [OF TPacketGCItemUpdate_from_bytes_def])
     (auto simp: TPacketGCItemUpdate_to_bytes_def TPacketGCItemUpdate_wf_def rd_wr array_lengths intro!: covers)

record TPacketCGItemUse =
  header :: u8
  pos :: TItemPos

definition TPacketCGItemUse_SIZE :: nat where [simp]: "TPacketCGItemUse_SIZE = 4"

definition TPacketCGItemUse_from_bytes :: "bytes \<Rightarrow> ProtocolError + TPacketCGItemUse" where
  "TPacketCGItemUse_from_bytes data =
     (if length data \<noteq> TPacketCGItemUse_SIZE then Inl (BadLength TPacketCGItemUse_SIZE (length data))
      else Inr \<lparr>header = data ! 0,
        pos = \<lparr>TItemPos.window = data ! 1, TItemPos.cell = from_le16 (data ! 2) (data ! 3)\<rparr>\<rparr>)"

definition TPacketCGItemUse_to_bytes :: "TPacketCGItemUse \<Rightarrow> bytes" where
  "TPacketCGItemUse_to_bytes p = [header p, TItemPos.window (pos p), ucast (TItemPos.cell (pos p)), ucast (drop_bit 8 (TItemPos.cell (pos p)))]"

definition TPacketCGItemUse_wf :: "TPacketCGItemUse \<Rightarrow> bool" where
  "TPacketCGItemUse_wf p \<longleftrightarrow> True"

interpretation cg_item_use:
  packet_codec TPacketCGItemUse_SIZE TPacketCGItemUse_wf TPacketCGItemUse_to_bytes TPacketCGItemUse_from_bytes
  by (rule packet_codecI [OF TPacketCGItemUse_from_bytes_def])
     (auto simp: TPacketCGItemUse_to_bytes_def TPacketCGItemUse_wf_def rd_wr array_lengths intro!: covers)

record TPacketCGItemUseToItem =
  header :: u8
  cell :: TItemPos
  target_cell :: TItemPos

definition TPacketCGItemUseToItem_SIZE :: nat where [simp]: "TPacketCGItemUseToItem_SIZE = 7"

definition TPacketCGItemUseToItem_from_bytes :: "bytes \<Rightarrow> ProtocolError + TPacketCGItemUseToItem" where
  "TPacketCGItemUseToItem_from_bytes data =
     (if length data \<noteq> TPacketCGItemUseToItem_SIZE then Inl (BadLength TPacketCGItemUseToItem_SIZE (length data))
      else Inr \<lparr>header = data ! 0,
        cell = \<lparr>TItemPos.window = data ! 1, TItemPos.cell = from_le16 (data ! 2) (data ! 3)\<rparr>,
        target_cell = \<lparr>TItemPos.window = data ! 4, TItemPos.cell = from_le16 (data ! 5) (data ! 6)\<rparr>\<rparr>)"

definition TPacketCGItemUseToItem_to_bytes :: "TPacketCGItemUseToItem \<Rightarrow> bytes" where
  "TPacketCGItemUseToItem_to_bytes p =
    (let b = replicate TPacketCGItemUseToItem_SIZE 0;
         b = b[0 := header p];
         b = b[1 := TItemPos.window (cell p)];
         b = copy_at b 2 (le16 (TItemPos.cell (cell p)));
         b = b[4 := TItemPos.window (target_cell p)];
         b = copy_at b 5 (le16 (TItemPos.cell (target_cell p)))
     in b)"

definition TPacketCGItemUseToItem_wf :: "TPacketCGItemUseToItem \<Rightarrow> bool" where
  "TPacketCGItemUseToItem_wf p \<longleftrightarrow> True"

interpretation cg_item_use_to_item:
  packet_codec TPacketCGItemUseToItem_SIZE TPacketCGItemUseToItem_wf TPacketCGItemUseToItem_to_bytes TPacketCGItemUseToItem_from_bytes
  by (rule packet_codecI [OF TPacketCGItemUseToItem_from_bytes_def])
     (auto simp: TPacketCGItemUseToItem_to_bytes_def TPacketCGItemUseToItem_wf_def rd_wr array_lengths intro!: covers)

record TPacketCGItemMove =
  header :: u8
  pos :: TItemPos
  change_pos :: TItemPos
  num :: u8

definition TPacketCGItemMove_SIZE :: nat where [simp]: "TPacketCGItemMove_SIZE = 8"

definition TPacketCGItemMove_from_bytes :: "bytes \<Rightarrow> ProtocolError + TPacketCGItemMove" where
  "TPacketCGItemMove_from_bytes data =
     (if length data \<noteq> TPacketCGItemMove_SIZE then Inl (BadLength TPacketCGItemMove_SIZE (length data))
      else Inr \<lparr>header = data ! 0,
        pos = \<lparr>TItemPos.window = data ! 1, TItemPos.cell = from_le16 (data ! 2) (data ! 3)\<rparr>,
        change_pos = \<lparr>TItemPos.window = data ! 4, TItemPos.cell = from_le16 (data ! 5) (data ! 6)\<rparr>,
        num = data ! 7\<rparr>)"

definition TPacketCGItemMove_to_bytes :: "TPacketCGItemMove \<Rightarrow> bytes" where
  "TPacketCGItemMove_to_bytes p =
    (let b = replicate TPacketCGItemMove_SIZE 0;
         b = b[0 := header p];
         b = b[1 := TItemPos.window (pos p)];
         b = copy_at b 2 (le16 (TItemPos.cell (pos p)));
         b = b[4 := TItemPos.window (change_pos p)];
         b = copy_at b 5 (le16 (TItemPos.cell (change_pos p)));
         b = b[7 := num p]
     in b)"

definition TPacketCGItemMove_wf :: "TPacketCGItemMove \<Rightarrow> bool" where
  "TPacketCGItemMove_wf p \<longleftrightarrow> True"

interpretation cg_item_move:
  packet_codec TPacketCGItemMove_SIZE TPacketCGItemMove_wf TPacketCGItemMove_to_bytes TPacketCGItemMove_from_bytes
  by (rule packet_codecI [OF TPacketCGItemMove_from_bytes_def])
     (auto simp: TPacketCGItemMove_to_bytes_def TPacketCGItemMove_wf_def rd_wr array_lengths intro!: covers)

record TPacketCGItemDrop =
  header :: u8
  cell :: TItemPos
  gold :: u32

definition TPacketCGItemDrop_SIZE :: nat where [simp]: "TPacketCGItemDrop_SIZE = 8"

definition TPacketCGItemDrop_from_bytes :: "bytes \<Rightarrow> ProtocolError + TPacketCGItemDrop" where
  "TPacketCGItemDrop_from_bytes data =
     (if length data \<noteq> TPacketCGItemDrop_SIZE then Inl (BadLength TPacketCGItemDrop_SIZE (length data))
      else Inr \<lparr>header = data ! 0,
        cell = \<lparr>TItemPos.window = data ! 1, TItemPos.cell = from_le16 (data ! 2) (data ! 3)\<rparr>,
        gold = rd_u32 data 4\<rparr>)"

definition TPacketCGItemDrop_to_bytes :: "TPacketCGItemDrop \<Rightarrow> bytes" where
  "TPacketCGItemDrop_to_bytes p =
    (let b = replicate TPacketCGItemDrop_SIZE 0;
         b = b[0 := header p];
         b = b[1 := TItemPos.window (cell p)];
         b = copy_at b 2 (le16 (TItemPos.cell (cell p)));
         b = wr_u32 b 4 (gold p)
     in b)"

definition TPacketCGItemDrop_wf :: "TPacketCGItemDrop \<Rightarrow> bool" where
  "TPacketCGItemDrop_wf p \<longleftrightarrow> True"

interpretation cg_item_drop:
  packet_codec TPacketCGItemDrop_SIZE TPacketCGItemDrop_wf TPacketCGItemDrop_to_bytes TPacketCGItemDrop_from_bytes
  by (rule packet_codecI [OF TPacketCGItemDrop_from_bytes_def])
     (auto simp: TPacketCGItemDrop_to_bytes_def TPacketCGItemDrop_wf_def rd_wr array_lengths intro!: covers)

record TPacketCGItemDrop2 =
  header :: u8
  cell :: TItemPos
  gold :: u32
  count :: u8

definition TPacketCGItemDrop2_SIZE :: nat where [simp]: "TPacketCGItemDrop2_SIZE = 9"

definition TPacketCGItemDrop2_from_bytes :: "bytes \<Rightarrow> ProtocolError + TPacketCGItemDrop2" where
  "TPacketCGItemDrop2_from_bytes data =
     (if length data \<noteq> TPacketCGItemDrop2_SIZE then Inl (BadLength TPacketCGItemDrop2_SIZE (length data))
      else Inr \<lparr>header = data ! 0,
        cell = \<lparr>TItemPos.window = data ! 1, TItemPos.cell = from_le16 (data ! 2) (data ! 3)\<rparr>,
        gold = rd_u32 data 4,
        count = data ! 8\<rparr>)"

definition TPacketCGItemDrop2_to_bytes :: "TPacketCGItemDrop2 \<Rightarrow> bytes" where
  "TPacketCGItemDrop2_to_bytes p =
    (let b = replicate TPacketCGItemDrop2_SIZE 0;
         b = b[0 := header p];
         b = b[1 := TItemPos.window (cell p)];
         b = copy_at b 2 (le16 (TItemPos.cell (cell p)));
         b = wr_u32 b 4 (gold p);
         b = b[8 := count p]
     in b)"

definition TPacketCGItemDrop2_wf :: "TPacketCGItemDrop2 \<Rightarrow> bool" where
  "TPacketCGItemDrop2_wf p \<longleftrightarrow> True"

interpretation cg_item_drop2:
  packet_codec TPacketCGItemDrop2_SIZE TPacketCGItemDrop2_wf TPacketCGItemDrop2_to_bytes TPacketCGItemDrop2_from_bytes
  by (rule packet_codecI [OF TPacketCGItemDrop2_from_bytes_def])
     (auto simp: TPacketCGItemDrop2_to_bytes_def TPacketCGItemDrop2_wf_def rd_wr array_lengths intro!: covers)

record TPacketGCItemDelDeprecated =
  header :: u8
  cell :: TItemPos
  vnum :: u32
  count :: u8
  sockets :: "int list"
  attrs :: "(int \<times> int) list"

definition TPacketGCItemDelDeprecated_SIZE :: nat where [simp]: "TPacketGCItemDelDeprecated_SIZE = 42"

definition TPacketGCItemDelDeprecated_new :: "TItemPos \<Rightarrow> u32 \<Rightarrow> u8 \<Rightarrow> TPacketGCItemDelDeprecated" where
  "TPacketGCItemDelDeprecated_new cell' vnum' count' =
     \<lparr>header = 20,
      cell = cell',
      vnum = vnum',
      count = count',
      sockets = replicate 3 0,
      attrs = replicate 7 (0, 0)\<rparr>"

definition TPacketGCItemDelDeprecated_from_bytes :: "bytes \<Rightarrow> ProtocolError + TPacketGCItemDelDeprecated" where
  "TPacketGCItemDelDeprecated_from_bytes data =
     (if length data \<noteq> TPacketGCItemDelDeprecated_SIZE then Inl (BadLength TPacketGCItemDelDeprecated_SIZE (length data))
      else Inr \<lparr>header = data ! 0,
        cell = \<lparr>TItemPos.window = data ! 1, TItemPos.cell = from_le16 (data ! 2) (data ! 3)\<rparr>,
        vnum = rd_u32 data 4,
        count = data ! 8,
        sockets = [sint (rd_i32 data 9), sint (rd_i32 data 13), sint (rd_i32 data 17)],
        attrs = [(uint (data ! 21), sint (from_le16 (data ! 22) (data ! 23))), (uint (data ! 24), sint (from_le16 (data ! 25) (data ! 26))), (uint (data ! 27), sint (from_le16 (data ! 28) (data ! 29))), (uint (data ! 30), sint (from_le16 (data ! 31) (data ! 32))), (uint (data ! 33), sint (from_le16 (data ! 34) (data ! 35))), (uint (data ! 36), sint (from_le16 (data ! 37) (data ! 38))), (uint (data ! 39), sint (from_le16 (data ! 40) (data ! 41)))]\<rparr>)"

definition TPacketGCItemDelDeprecated_to_bytes :: "TPacketGCItemDelDeprecated \<Rightarrow> bytes" where
  "TPacketGCItemDelDeprecated_to_bytes p =
    (let b = replicate TPacketGCItemDelDeprecated_SIZE 0;
         b = b[0 := header p];
         b = b[1 := TItemPos.window (cell p)];
         b = copy_at b 2 (le16 (TItemPos.cell (cell p)));
         b = copy_at b 4 (le32 (vnum p));
         b = b[8 := count p];
         b = copy_at b 9 (le32 (word_of_int (sockets p ! 0)));
         b = copy_at b 13 (le32 (word_of_int (sockets p ! 1)));
         b = copy_at b 17 (le32 (word_of_int (sockets p ! 2)));
         b = b[21 := word_of_int (fst (attrs p ! 0))];
         b = copy_at b 22 (le16 (word_of_int (snd (attrs p ! 0))));
         b = b[24 := word_of_int (fst (attrs p ! 1))];
         b = copy_at b 25 (le16 (word_of_int (snd (attrs p ! 1))));
         b = b[27 := word_of_int (fst (attrs p ! 2))];
         b = copy_at b 28 (le16 (word_of_int (snd (attrs p ! 2))));
         b = b[30 := word_of_int (fst (attrs p ! 3))];
         b = copy_at b 31 (le16 (word_of_int (snd (attrs p ! 3))));
         b = b[33 := word_of_int (fst (attrs p ! 4))];
         b = copy_at b 34 (le16 (word_of_int (snd (attrs p ! 4))));
         b = b[36 := word_of_int (fst (attrs p ! 5))];
         b = copy_at b 37 (le16 (word_of_int (snd (attrs p ! 5))));
         b = b[39 := word_of_int (fst (attrs p ! 6))];
         b = copy_at b 40 (le16 (word_of_int (snd (attrs p ! 6))))
     in b)"

definition TPacketGCItemDelDeprecated_wf :: "TPacketGCItemDelDeprecated \<Rightarrow> bool" where
  "TPacketGCItemDelDeprecated_wf p \<longleftrightarrow> sockets_ok (sockets p) \<and> attrs_ok (attrs p)"

interpretation gc_item_del_deprecated:
  packet_codec TPacketGCItemDelDeprecated_SIZE TPacketGCItemDelDeprecated_wf TPacketGCItemDelDeprecated_to_bytes TPacketGCItemDelDeprecated_from_bytes
  by (rule packet_codecI [OF TPacketGCItemDelDeprecated_from_bytes_def])
     (auto simp: TPacketGCItemDelDeprecated_to_bytes_def TPacketGCItemDelDeprecated_wf_def rd_wr array_lengths intro!: covers)

lemma TPacketGCItemDelDeprecated_new_wf [simp]: "TPacketGCItemDelDeprecated_wf (TPacketGCItemDelDeprecated_new cell' vnum' count')"
  by (simp add: TPacketGCItemDelDeprecated_wf_def TPacketGCItemDelDeprecated_new_def rd_wr)

record TPacketGCItemDel =
  header :: u8
  pos :: u8

definition TPacketGCItemDel_SIZE :: nat where [simp]: "TPacketGCItemDel_SIZE = 2"

definition TPacketGCItemDel_new :: "u8 \<Rightarrow> TPacketGCItemDel" where
  "TPacketGCItemDel_new pos' =
     \<lparr>header = GC_SAFEBOX_DEL,
      pos = pos'\<rparr>"

definition TPacketGCItemDel_from_bytes :: "bytes \<Rightarrow> ProtocolError + TPacketGCItemDel" where
  "TPacketGCItemDel_from_bytes data =
     (if length data \<noteq> TPacketGCItemDel_SIZE then Inl (BadLength TPacketGCItemDel_SIZE (length data))
      else Inr \<lparr>header = data ! 0,
        pos = data ! 1\<rparr>)"

definition TPacketGCItemDel_to_bytes :: "TPacketGCItemDel \<Rightarrow> bytes" where
  "TPacketGCItemDel_to_bytes p = [header p, pos p]"

definition TPacketGCItemDel_wf :: "TPacketGCItemDel \<Rightarrow> bool" where
  "TPacketGCItemDel_wf p \<longleftrightarrow> True"

interpretation gc_item_del:
  packet_codec TPacketGCItemDel_SIZE TPacketGCItemDel_wf TPacketGCItemDel_to_bytes TPacketGCItemDel_from_bytes
  by (rule packet_codecI [OF TPacketGCItemDel_from_bytes_def])
     (auto simp: TPacketGCItemDel_to_bytes_def TPacketGCItemDel_wf_def rd_wr array_lengths intro!: covers)

lemma TPacketGCItemDel_new_wf [simp]: "TPacketGCItemDel_wf (TPacketGCItemDel_new pos')"
  by (simp add: TPacketGCItemDel_wf_def TPacketGCItemDel_new_def)

record TPacketGCItemGroundAdd =
  header :: u8
  pos_x :: i32
  pos_y :: i32
  pos_z :: i32
  vid :: u32
  vnum :: u32
  count :: u32
  sockets :: "int list"
  attrs :: "(int \<times> int) list"

definition TPacketGCItemGroundAdd_SIZE :: nat where [simp]: "TPacketGCItemGroundAdd_SIZE = 58"

definition TPacketGCItemGroundAdd_new :: "u32 \<Rightarrow> u32 \<Rightarrow> i32 \<Rightarrow> i32 \<Rightarrow> i32 \<Rightarrow> u32 \<Rightarrow> TPacketGCItemGroundAdd" where
  "TPacketGCItemGroundAdd_new vid' vnum' pos_x' pos_y' pos_z' count' =
     \<lparr>header = GC_ITEM_GROUND_ADD,
      pos_x = pos_x',
      pos_y = pos_y',
      pos_z = pos_z',
      vid = vid',
      vnum = vnum',
      count = count',
      sockets = replicate 3 0,
      attrs = replicate 7 (0, 0)\<rparr>"

definition TPacketGCItemGroundAdd_from_bytes :: "bytes \<Rightarrow> ProtocolError + TPacketGCItemGroundAdd" where
  "TPacketGCItemGroundAdd_from_bytes data =
     (if length data \<noteq> TPacketGCItemGroundAdd_SIZE then Inl (BadLength TPacketGCItemGroundAdd_SIZE (length data))
      else Inr \<lparr>header = data ! 0,
        pos_x = rd_u32 data 1,
        pos_y = rd_u32 data 5,
        pos_z = rd_u32 data 9,
        vid = rd_u32 data 13,
        vnum = rd_u32 data 17,
        count = rd_u32 data 21,
        sockets = [sint (rd_i32 data 25), sint (rd_i32 data 29), sint (rd_i32 data 33)],
        attrs = [(uint (data ! 37), sint (from_le16 (data ! 38) (data ! 39))), (uint (data ! 40), sint (from_le16 (data ! 41) (data ! 42))), (uint (data ! 43), sint (from_le16 (data ! 44) (data ! 45))), (uint (data ! 46), sint (from_le16 (data ! 47) (data ! 48))), (uint (data ! 49), sint (from_le16 (data ! 50) (data ! 51))), (uint (data ! 52), sint (from_le16 (data ! 53) (data ! 54))), (uint (data ! 55), sint (from_le16 (data ! 56) (data ! 57)))]\<rparr>)"

definition TPacketGCItemGroundAdd_to_bytes :: "TPacketGCItemGroundAdd \<Rightarrow> bytes" where
  "TPacketGCItemGroundAdd_to_bytes p =
    (let b = replicate TPacketGCItemGroundAdd_SIZE 0;
         b = b[0 := header p];
         b = copy_at b 1 (le32 (pos_x p));
         b = copy_at b 5 (le32 (pos_y p));
         b = copy_at b 9 (le32 (pos_z p));
         b = copy_at b 13 (le32 (vid p));
         b = copy_at b 17 (le32 (vnum p));
         b = copy_at b 21 (le32 (count p));
         b = copy_at b 25 (le32 (word_of_int (sockets p ! 0)));
         b = copy_at b 29 (le32 (word_of_int (sockets p ! 1)));
         b = copy_at b 33 (le32 (word_of_int (sockets p ! 2)));
         b = b[37 := word_of_int (fst (attrs p ! 0))];
         b = copy_at b 38 (le16 (word_of_int (snd (attrs p ! 0))));
         b = b[40 := word_of_int (fst (attrs p ! 1))];
         b = copy_at b 41 (le16 (word_of_int (snd (attrs p ! 1))));
         b = b[43 := word_of_int (fst (attrs p ! 2))];
         b = copy_at b 44 (le16 (word_of_int (snd (attrs p ! 2))));
         b = b[46 := word_of_int (fst (attrs p ! 3))];
         b = copy_at b 47 (le16 (word_of_int (snd (attrs p ! 3))));
         b = b[49 := word_of_int (fst (attrs p ! 4))];
         b = copy_at b 50 (le16 (word_of_int (snd (attrs p ! 4))));
         b = b[52 := word_of_int (fst (attrs p ! 5))];
         b = copy_at b 53 (le16 (word_of_int (snd (attrs p ! 5))));
         b = b[55 := word_of_int (fst (attrs p ! 6))];
         b = copy_at b 56 (le16 (word_of_int (snd (attrs p ! 6))))
     in b)"

definition TPacketGCItemGroundAdd_wf :: "TPacketGCItemGroundAdd \<Rightarrow> bool" where
  "TPacketGCItemGroundAdd_wf p \<longleftrightarrow> sockets_ok (sockets p) \<and> attrs_ok (attrs p)"

interpretation gc_item_ground_add:
  packet_codec TPacketGCItemGroundAdd_SIZE TPacketGCItemGroundAdd_wf TPacketGCItemGroundAdd_to_bytes TPacketGCItemGroundAdd_from_bytes
  by (rule packet_codecI [OF TPacketGCItemGroundAdd_from_bytes_def])
     (auto simp: TPacketGCItemGroundAdd_to_bytes_def TPacketGCItemGroundAdd_wf_def rd_wr array_lengths intro!: covers)

lemma TPacketGCItemGroundAdd_new_wf [simp]: "TPacketGCItemGroundAdd_wf (TPacketGCItemGroundAdd_new vid' vnum' pos_x' pos_y' pos_z' count')"
  by (simp add: TPacketGCItemGroundAdd_wf_def TPacketGCItemGroundAdd_new_def rd_wr)

record TPacketGCItemGroundDel =
  header :: u8
  vid :: u32

definition TPacketGCItemGroundDel_SIZE :: nat where [simp]: "TPacketGCItemGroundDel_SIZE = 5"

definition TPacketGCItemGroundDel_new :: "u32 \<Rightarrow> TPacketGCItemGroundDel" where
  "TPacketGCItemGroundDel_new vid' =
     \<lparr>header = 27,
      vid = vid'\<rparr>"

definition TPacketGCItemGroundDel_from_bytes :: "bytes \<Rightarrow> ProtocolError + TPacketGCItemGroundDel" where
  "TPacketGCItemGroundDel_from_bytes data =
     (if length data \<noteq> TPacketGCItemGroundDel_SIZE then Inl (BadLength TPacketGCItemGroundDel_SIZE (length data))
      else Inr \<lparr>header = data ! 0,
        vid = rd_u32 data 1\<rparr>)"

definition TPacketGCItemGroundDel_to_bytes :: "TPacketGCItemGroundDel \<Rightarrow> bytes" where
  "TPacketGCItemGroundDel_to_bytes p =
    (let b = replicate TPacketGCItemGroundDel_SIZE 0;
         b = b[0 := header p];
         b = copy_at b 1 (le32 (vid p))
     in b)"

definition TPacketGCItemGroundDel_wf :: "TPacketGCItemGroundDel \<Rightarrow> bool" where
  "TPacketGCItemGroundDel_wf p \<longleftrightarrow> True"

interpretation gc_item_ground_del:
  packet_codec TPacketGCItemGroundDel_SIZE TPacketGCItemGroundDel_wf TPacketGCItemGroundDel_to_bytes TPacketGCItemGroundDel_from_bytes
  by (rule packet_codecI [OF TPacketGCItemGroundDel_from_bytes_def])
     (auto simp: TPacketGCItemGroundDel_to_bytes_def TPacketGCItemGroundDel_wf_def rd_wr array_lengths intro!: covers)

lemma TPacketGCItemGroundDel_new_wf [simp]: "TPacketGCItemGroundDel_wf (TPacketGCItemGroundDel_new vid')"
  by (simp add: TPacketGCItemGroundDel_wf_def TPacketGCItemGroundDel_new_def)

record TPacketCGSafeboxCheckin =
  header :: u8
  b_safe_pos :: u8
  item_pos :: TItemPos

definition TPacketCGSafeboxCheckin_SIZE :: nat where [simp]: "TPacketCGSafeboxCheckin_SIZE = 5"

definition TPacketCGSafeboxCheckin_from_bytes :: "bytes \<Rightarrow> ProtocolError + TPacketCGSafeboxCheckin" where
  "TPacketCGSafeboxCheckin_from_bytes data =
     (if length data \<noteq> TPacketCGSafeboxCheckin_SIZE then Inl (BadLength TPacketCGSafeboxCheckin_SIZE (length data))
      else Inr \<lparr>header = data ! 0,
        b_safe_pos = data ! 1,
        item_pos = \<lparr>TItemPos.window = data ! 2, TItemPos.cell = from_le16 (data ! 3) (data ! 4)\<rparr>\<rparr>)"

definition TPacketCGSafeboxCheckin_to_bytes :: "TPacketCGSafeboxCheckin \<Rightarrow> bytes" where
  "TPacketCGSafeboxCheckin_to_bytes p =
    (let b = replicate TPacketCGSafeboxCheckin_SIZE 0;
         b = b[0 := header p];
         b = b[1 := b_safe_pos p];
         b = b[2 := TItemPos.window (item_pos p)];
         b = copy_at b 3 (le16 (TItemPos.cell (item_pos p)))
     in b)"

definition TPacketCGSafeboxCheckin_wf :: "TPacketCGSafeboxCheckin \<Rightarrow> bool" where
  "TPacketCGSafeboxCheckin_wf p \<longleftrightarrow> True"

interpretation cg_safebox_checkin:
  packet_codec TPacketCGSafeboxCheckin_SIZE TPacketCGSafeboxCheckin_wf TPacketCGSafeboxCheckin_to_bytes TPacketCGSafeboxCheckin_from_bytes
  by (rule packet_codecI [OF TPacketCGSafeboxCheckin_from_bytes_def])
     (auto simp: TPacketCGSafeboxCheckin_to_bytes_def TPacketCGSafeboxCheckin_wf_def rd_wr array_lengths intro!: covers)

record TPacketCGSafeboxCheckout =
  header :: u8
  b_safe_pos :: u8
  item_pos :: TItemPos

definition TPacketCGSafeboxCheckout_SIZE :: nat where [simp]: "TPacketCGSafeboxCheckout_SIZE = 5"

definition TPacketCGSafeboxCheckout_from_bytes :: "bytes \<Rightarrow> ProtocolError + TPacketCGSafeboxCheckout" where
  "TPacketCGSafeboxCheckout_from_bytes data =
     (if length data \<noteq> TPacketCGSafeboxCheckout_SIZE then Inl (BadLength TPacketCGSafeboxCheckout_SIZE (length data))
      else Inr \<lparr>header = data ! 0,
        b_safe_pos = data ! 1,
        item_pos = \<lparr>TItemPos.window = data ! 2, TItemPos.cell = from_le16 (data ! 3) (data ! 4)\<rparr>\<rparr>)"

definition TPacketCGSafeboxCheckout_to_bytes :: "TPacketCGSafeboxCheckout \<Rightarrow> bytes" where
  "TPacketCGSafeboxCheckout_to_bytes p =
    (let b = replicate TPacketCGSafeboxCheckout_SIZE 0;
         b = b[0 := header p];
         b = b[1 := b_safe_pos p];
         b = b[2 := TItemPos.window (item_pos p)];
         b = copy_at b 3 (le16 (TItemPos.cell (item_pos p)))
     in b)"

definition TPacketCGSafeboxCheckout_wf :: "TPacketCGSafeboxCheckout \<Rightarrow> bool" where
  "TPacketCGSafeboxCheckout_wf p \<longleftrightarrow> True"

interpretation cg_safebox_checkout:
  packet_codec TPacketCGSafeboxCheckout_SIZE TPacketCGSafeboxCheckout_wf TPacketCGSafeboxCheckout_to_bytes TPacketCGSafeboxCheckout_from_bytes
  by (rule packet_codecI [OF TPacketCGSafeboxCheckout_from_bytes_def])
     (auto simp: TPacketCGSafeboxCheckout_to_bytes_def TPacketCGSafeboxCheckout_wf_def rd_wr array_lengths intro!: covers)

record TPacketCGSafeboxMoney =
  header :: u8
  b_state :: u8
  l_money :: i32

definition TPacketCGSafeboxMoney_SIZE :: nat where [simp]: "TPacketCGSafeboxMoney_SIZE = 6"

definition TPacketCGSafeboxMoney_from_bytes :: "bytes \<Rightarrow> ProtocolError + TPacketCGSafeboxMoney" where
  "TPacketCGSafeboxMoney_from_bytes data =
     (if length data \<noteq> TPacketCGSafeboxMoney_SIZE then Inl (BadLength TPacketCGSafeboxMoney_SIZE (length data))
      else Inr \<lparr>header = data ! 0,
        b_state = data ! 1,
        l_money = rd_u32 data 2\<rparr>)"

definition TPacketCGSafeboxMoney_to_bytes :: "TPacketCGSafeboxMoney \<Rightarrow> bytes" where
  "TPacketCGSafeboxMoney_to_bytes p =
    (let b = replicate TPacketCGSafeboxMoney_SIZE 0;
         b = b[0 := header p];
         b = b[1 := b_state p];
         b = copy_at b 2 (le32 (l_money p))
     in b)"

definition TPacketCGSafeboxMoney_wf :: "TPacketCGSafeboxMoney \<Rightarrow> bool" where
  "TPacketCGSafeboxMoney_wf p \<longleftrightarrow> True"

interpretation cg_safebox_money:
  packet_codec TPacketCGSafeboxMoney_SIZE TPacketCGSafeboxMoney_wf TPacketCGSafeboxMoney_to_bytes TPacketCGSafeboxMoney_from_bytes
  by (rule packet_codecI [OF TPacketCGSafeboxMoney_from_bytes_def])
     (auto simp: TPacketCGSafeboxMoney_to_bytes_def TPacketCGSafeboxMoney_wf_def rd_wr array_lengths intro!: covers)

record TPacketGCSafeboxSize =
  header :: u8
  b_size :: u8

definition TPacketGCSafeboxSize_SIZE :: nat where [simp]: "TPacketGCSafeboxSize_SIZE = 2"

definition TPacketGCSafeboxSize_new :: "u8 \<Rightarrow> TPacketGCSafeboxSize" where
  "TPacketGCSafeboxSize_new b_size' =
     \<lparr>header = GC_SAFEBOX_SIZE,
      b_size = b_size'\<rparr>"

definition TPacketGCSafeboxSize_from_bytes :: "bytes \<Rightarrow> ProtocolError + TPacketGCSafeboxSize" where
  "TPacketGCSafeboxSize_from_bytes data =
     (if length data \<noteq> TPacketGCSafeboxSize_SIZE then Inl (BadLength TPacketGCSafeboxSize_SIZE (length data))
      else Inr \<lparr>header = data ! 0,
        b_size = data ! 1\<rparr>)"

definition TPacketGCSafeboxSize_to_bytes :: "TPacketGCSafeboxSize \<Rightarrow> bytes" where
  "TPacketGCSafeboxSize_to_bytes p = [header p, b_size p]"

definition TPacketGCSafeboxSize_wf :: "TPacketGCSafeboxSize \<Rightarrow> bool" where
  "TPacketGCSafeboxSize_wf p \<longleftrightarrow> True"

interpretation gc_safebox_size:
  packet_codec TPacketGCSafeboxSize_SIZE TPacketGCSafeboxSize_wf TPacketGCSafeboxSize_to_bytes TPacketGCSafeboxSize_from_bytes
  by (rule packet_codecI [OF TPacketGCSafeboxSize_from_bytes_def])
     (auto simp: TPacketGCSafeboxSize_to_bytes_def TPacketGCSafeboxSize_wf_def rd_wr array_lengths intro!: covers)

lemma TPacketGCSafeboxSize_new_wf [simp]: "TPacketGCSafeboxSize_wf (TPacketGCSafeboxSize_new b_size')"
  by (simp add: TPacketGCSafeboxSize_wf_def TPacketGCSafeboxSize_new_def)

record TPacketGCSafeboxWrongPassword =
  header :: u8

definition TPacketGCSafeboxWrongPassword_SIZE :: nat where [simp]: "TPacketGCSafeboxWrongPassword_SIZE = 1"

definition TPacketGCSafeboxWrongPassword_new :: "TPacketGCSafeboxWrongPassword" where
  "TPacketGCSafeboxWrongPassword_new =
     \<lparr>header = GC_SAFEBOX_WRONG_PASSWORD\<rparr>"

definition TPacketGCSafeboxWrongPassword_from_bytes :: "bytes \<Rightarrow> ProtocolError + TPacketGCSafeboxWrongPassword" where
  "TPacketGCSafeboxWrongPassword_from_bytes data =
     (if length data \<noteq> TPacketGCSafeboxWrongPassword_SIZE then Inl (BadLength TPacketGCSafeboxWrongPassword_SIZE (length data))
      else Inr \<lparr>header = data ! 0\<rparr>)"

definition TPacketGCSafeboxWrongPassword_to_bytes :: "TPacketGCSafeboxWrongPassword \<Rightarrow> bytes" where
  "TPacketGCSafeboxWrongPassword_to_bytes p = [header p]"

definition TPacketGCSafeboxWrongPassword_wf :: "TPacketGCSafeboxWrongPassword \<Rightarrow> bool" where
  "TPacketGCSafeboxWrongPassword_wf p \<longleftrightarrow> True"

interpretation gc_safebox_wrong_password:
  packet_codec TPacketGCSafeboxWrongPassword_SIZE TPacketGCSafeboxWrongPassword_wf TPacketGCSafeboxWrongPassword_to_bytes TPacketGCSafeboxWrongPassword_from_bytes
  by (rule packet_codecI [OF TPacketGCSafeboxWrongPassword_from_bytes_def])
     (auto simp: TPacketGCSafeboxWrongPassword_to_bytes_def TPacketGCSafeboxWrongPassword_wf_def rd_wr array_lengths intro!: covers)

lemma TPacketGCSafeboxWrongPassword_new_wf [simp]: "TPacketGCSafeboxWrongPassword_wf (TPacketGCSafeboxWrongPassword_new )"
  by (simp add: TPacketGCSafeboxWrongPassword_wf_def TPacketGCSafeboxWrongPassword_new_def)

record TPacketGCSafeboxMoneyChange =
  header :: u8
  l_money :: i32

definition TPacketGCSafeboxMoneyChange_SIZE :: nat where [simp]: "TPacketGCSafeboxMoneyChange_SIZE = 5"

definition TPacketGCSafeboxMoneyChange_new :: "i32 \<Rightarrow> TPacketGCSafeboxMoneyChange" where
  "TPacketGCSafeboxMoneyChange_new l_money' =
     \<lparr>header = GC_SAFEBOX_MONEY_CHANGE,
      l_money = l_money'\<rparr>"

definition TPacketGCSafeboxMoneyChange_from_bytes :: "bytes \<Rightarrow> ProtocolError + TPacketGCSafeboxMoneyChange" where
  "TPacketGCSafeboxMoneyChange_from_bytes data =
     (if length data \<noteq> TPacketGCSafeboxMoneyChange_SIZE then Inl (BadLength TPacketGCSafeboxMoneyChange_SIZE (length data))
      else Inr \<lparr>header = data ! 0,
        l_money = rd_u32 data 1\<rparr>)"

definition TPacketGCSafeboxMoneyChange_to_bytes :: "TPacketGCSafeboxMoneyChange \<Rightarrow> bytes" where
  "TPacketGCSafeboxMoneyChange_to_bytes p =
    (let b = replicate TPacketGCSafeboxMoneyChange_SIZE 0;
         b = b[0 := header p];
         b = copy_at b 1 (le32 (l_money p))
     in b)"

definition TPacketGCSafeboxMoneyChange_wf :: "TPacketGCSafeboxMoneyChange \<Rightarrow> bool" where
  "TPacketGCSafeboxMoneyChange_wf p \<longleftrightarrow> True"

interpretation gc_safebox_money_change:
  packet_codec TPacketGCSafeboxMoneyChange_SIZE TPacketGCSafeboxMoneyChange_wf TPacketGCSafeboxMoneyChange_to_bytes TPacketGCSafeboxMoneyChange_from_bytes
  by (rule packet_codecI [OF TPacketGCSafeboxMoneyChange_from_bytes_def])
     (auto simp: TPacketGCSafeboxMoneyChange_to_bytes_def TPacketGCSafeboxMoneyChange_wf_def rd_wr array_lengths intro!: covers)

lemma TPacketGCSafeboxMoneyChange_new_wf [simp]: "TPacketGCSafeboxMoneyChange_wf (TPacketGCSafeboxMoneyChange_new l_money')"
  by (simp add: TPacketGCSafeboxMoneyChange_wf_def TPacketGCSafeboxMoneyChange_new_def)

section \<open>Round trip of the packets\<close>

text \<open>Every packet of the items, the quick slots and the safebox parses exactly from the byte strings
  of its size, and parsing and serialising are inverse to each other on the packets whose sockets
  and attributes fit the wire.\<close>

theorem item_packets_roundtrip:
  "(TQuickslot_from_bytes d = Inr p1 \<longleftrightarrow> TQuickslot_wf p1 \<and> TQuickslot_to_bytes p1 = d)
   \<and> ((\<exists>p. TQuickslot_from_bytes d = Inr p) \<longleftrightarrow> length d = 2)
   \<and> (TPacketGCQuickSlotAdd_from_bytes d = Inr p2 \<longleftrightarrow> TPacketGCQuickSlotAdd_wf p2 \<and> TPacketGCQuickSlotAdd_to_bytes p2 = d)
   \<and> ((\<exists>p. TPacketGCQuickSlotAdd_from_bytes d = Inr p) \<longleftrightarrow> length d = 4)
   \<and> (TPacketCGQuickSlotAdd_from_bytes d = Inr p3 \<longleftrightarrow> TPacketCGQuickSlotAdd_wf p3 \<and> TPacketCGQuickSlotAdd_to_bytes p3 = d)
   \<and> ((\<exists>p. TPacketCGQuickSlotAdd_from_bytes d = Inr p) \<longleftrightarrow> length d = 4)
   \<and> (TPacketCGQuickSlotDel_from_bytes d = Inr p4 \<longleftrightarrow> TPacketCGQuickSlotDel_wf p4 \<and> TPacketCGQuickSlotDel_to_bytes p4 = d)
   \<and> ((\<exists>p. TPacketCGQuickSlotDel_from_bytes d = Inr p) \<longleftrightarrow> length d = 2)
   \<and> (TPacketCGQuickSlotSwap_from_bytes d = Inr p5 \<longleftrightarrow> TPacketCGQuickSlotSwap_wf p5 \<and> TPacketCGQuickSlotSwap_to_bytes p5 = d)
   \<and> ((\<exists>p. TPacketCGQuickSlotSwap_from_bytes d = Inr p) \<longleftrightarrow> length d = 3)
   \<and> (TPacketGCQuickSlotDel_from_bytes d = Inr p6 \<longleftrightarrow> TPacketGCQuickSlotDel_wf p6 \<and> TPacketGCQuickSlotDel_to_bytes p6 = d)
   \<and> ((\<exists>p. TPacketGCQuickSlotDel_from_bytes d = Inr p) \<longleftrightarrow> length d = 2)
   \<and> (TPacketGCQuickSlotSwap_from_bytes d = Inr p7 \<longleftrightarrow> TPacketGCQuickSlotSwap_wf p7 \<and> TPacketGCQuickSlotSwap_to_bytes p7 = d)
   \<and> ((\<exists>p. TPacketGCQuickSlotSwap_from_bytes d = Inr p) \<longleftrightarrow> length d = 3)
   \<and> (TPacketGCItemSet_from_bytes d = Inr p8 \<longleftrightarrow> TPacketGCItemSet_wf p8 \<and> TPacketGCItemSet_to_bytes p8 = d)
   \<and> ((\<exists>p. TPacketGCItemSet_from_bytes d = Inr p) \<longleftrightarrow> length d = 51)
   \<and> (TPacketGCItemUpdate_from_bytes d = Inr p9 \<longleftrightarrow> TPacketGCItemUpdate_wf p9 \<and> TPacketGCItemUpdate_to_bytes p9 = d)
   \<and> ((\<exists>p. TPacketGCItemUpdate_from_bytes d = Inr p) \<longleftrightarrow> length d = 38)
   \<and> (TPacketCGItemUse_from_bytes d = Inr p10 \<longleftrightarrow> TPacketCGItemUse_wf p10 \<and> TPacketCGItemUse_to_bytes p10 = d)
   \<and> ((\<exists>p. TPacketCGItemUse_from_bytes d = Inr p) \<longleftrightarrow> length d = 4)
   \<and> (TPacketCGItemUseToItem_from_bytes d = Inr p11 \<longleftrightarrow> TPacketCGItemUseToItem_wf p11 \<and> TPacketCGItemUseToItem_to_bytes p11 = d)
   \<and> ((\<exists>p. TPacketCGItemUseToItem_from_bytes d = Inr p) \<longleftrightarrow> length d = 7)
   \<and> (TPacketCGItemMove_from_bytes d = Inr p12 \<longleftrightarrow> TPacketCGItemMove_wf p12 \<and> TPacketCGItemMove_to_bytes p12 = d)
   \<and> ((\<exists>p. TPacketCGItemMove_from_bytes d = Inr p) \<longleftrightarrow> length d = 8)
   \<and> (TPacketCGItemDrop_from_bytes d = Inr p13 \<longleftrightarrow> TPacketCGItemDrop_wf p13 \<and> TPacketCGItemDrop_to_bytes p13 = d)
   \<and> ((\<exists>p. TPacketCGItemDrop_from_bytes d = Inr p) \<longleftrightarrow> length d = 8)
   \<and> (TPacketCGItemDrop2_from_bytes d = Inr p14 \<longleftrightarrow> TPacketCGItemDrop2_wf p14 \<and> TPacketCGItemDrop2_to_bytes p14 = d)
   \<and> ((\<exists>p. TPacketCGItemDrop2_from_bytes d = Inr p) \<longleftrightarrow> length d = 9)
   \<and> (TPacketGCItemDelDeprecated_from_bytes d = Inr p15 \<longleftrightarrow> TPacketGCItemDelDeprecated_wf p15 \<and> TPacketGCItemDelDeprecated_to_bytes p15 = d)
   \<and> ((\<exists>p. TPacketGCItemDelDeprecated_from_bytes d = Inr p) \<longleftrightarrow> length d = 42)
   \<and> (TPacketGCItemDel_from_bytes d = Inr p16 \<longleftrightarrow> TPacketGCItemDel_wf p16 \<and> TPacketGCItemDel_to_bytes p16 = d)
   \<and> ((\<exists>p. TPacketGCItemDel_from_bytes d = Inr p) \<longleftrightarrow> length d = 2)
   \<and> (TPacketGCItemGroundAdd_from_bytes d = Inr p17 \<longleftrightarrow> TPacketGCItemGroundAdd_wf p17 \<and> TPacketGCItemGroundAdd_to_bytes p17 = d)
   \<and> ((\<exists>p. TPacketGCItemGroundAdd_from_bytes d = Inr p) \<longleftrightarrow> length d = 58)
   \<and> (TPacketGCItemGroundDel_from_bytes d = Inr p18 \<longleftrightarrow> TPacketGCItemGroundDel_wf p18 \<and> TPacketGCItemGroundDel_to_bytes p18 = d)
   \<and> ((\<exists>p. TPacketGCItemGroundDel_from_bytes d = Inr p) \<longleftrightarrow> length d = 5)
   \<and> (TPacketCGSafeboxCheckin_from_bytes d = Inr p19 \<longleftrightarrow> TPacketCGSafeboxCheckin_wf p19 \<and> TPacketCGSafeboxCheckin_to_bytes p19 = d)
   \<and> ((\<exists>p. TPacketCGSafeboxCheckin_from_bytes d = Inr p) \<longleftrightarrow> length d = 5)
   \<and> (TPacketCGSafeboxCheckout_from_bytes d = Inr p20 \<longleftrightarrow> TPacketCGSafeboxCheckout_wf p20 \<and> TPacketCGSafeboxCheckout_to_bytes p20 = d)
   \<and> ((\<exists>p. TPacketCGSafeboxCheckout_from_bytes d = Inr p) \<longleftrightarrow> length d = 5)
   \<and> (TPacketCGSafeboxMoney_from_bytes d = Inr p21 \<longleftrightarrow> TPacketCGSafeboxMoney_wf p21 \<and> TPacketCGSafeboxMoney_to_bytes p21 = d)
   \<and> ((\<exists>p. TPacketCGSafeboxMoney_from_bytes d = Inr p) \<longleftrightarrow> length d = 6)
   \<and> (TPacketGCSafeboxSize_from_bytes d = Inr p22 \<longleftrightarrow> TPacketGCSafeboxSize_wf p22 \<and> TPacketGCSafeboxSize_to_bytes p22 = d)
   \<and> ((\<exists>p. TPacketGCSafeboxSize_from_bytes d = Inr p) \<longleftrightarrow> length d = 2)
   \<and> (TPacketGCSafeboxWrongPassword_from_bytes d = Inr p23 \<longleftrightarrow> TPacketGCSafeboxWrongPassword_wf p23 \<and> TPacketGCSafeboxWrongPassword_to_bytes p23 = d)
   \<and> ((\<exists>p. TPacketGCSafeboxWrongPassword_from_bytes d = Inr p) \<longleftrightarrow> length d = 1)
   \<and> (TPacketGCSafeboxMoneyChange_from_bytes d = Inr p24 \<longleftrightarrow> TPacketGCSafeboxMoneyChange_wf p24 \<and> TPacketGCSafeboxMoneyChange_to_bytes p24 = d)
   \<and> ((\<exists>p. TPacketGCSafeboxMoneyChange_from_bytes d = Inr p) \<longleftrightarrow> length d = 5)"
  by (intro conjI; rule
    quickslot.from_bytes_Inr quickslot.from_bytes_ok_iff [simplified]
    gc_quick_slot_add.from_bytes_Inr gc_quick_slot_add.from_bytes_ok_iff [simplified]
    cg_quick_slot_add.from_bytes_Inr cg_quick_slot_add.from_bytes_ok_iff [simplified]
    cg_quick_slot_del.from_bytes_Inr cg_quick_slot_del.from_bytes_ok_iff [simplified]
    cg_quick_slot_swap.from_bytes_Inr cg_quick_slot_swap.from_bytes_ok_iff [simplified]
    gc_quick_slot_del.from_bytes_Inr gc_quick_slot_del.from_bytes_ok_iff [simplified]
    gc_quick_slot_swap.from_bytes_Inr gc_quick_slot_swap.from_bytes_ok_iff [simplified]
    gc_item_set.from_bytes_Inr gc_item_set.from_bytes_ok_iff [simplified]
    gc_item_update.from_bytes_Inr gc_item_update.from_bytes_ok_iff [simplified]
    cg_item_use.from_bytes_Inr cg_item_use.from_bytes_ok_iff [simplified]
    cg_item_use_to_item.from_bytes_Inr cg_item_use_to_item.from_bytes_ok_iff [simplified]
    cg_item_move.from_bytes_Inr cg_item_move.from_bytes_ok_iff [simplified]
    cg_item_drop.from_bytes_Inr cg_item_drop.from_bytes_ok_iff [simplified]
    cg_item_drop2.from_bytes_Inr cg_item_drop2.from_bytes_ok_iff [simplified]
    gc_item_del_deprecated.from_bytes_Inr gc_item_del_deprecated.from_bytes_ok_iff [simplified]
    gc_item_del.from_bytes_Inr gc_item_del.from_bytes_ok_iff [simplified]
    gc_item_ground_add.from_bytes_Inr gc_item_ground_add.from_bytes_ok_iff [simplified]
    gc_item_ground_del.from_bytes_Inr gc_item_ground_del.from_bytes_ok_iff [simplified]
    cg_safebox_checkin.from_bytes_Inr cg_safebox_checkin.from_bytes_ok_iff [simplified]
    cg_safebox_checkout.from_bytes_Inr cg_safebox_checkout.from_bytes_ok_iff [simplified]
    cg_safebox_money.from_bytes_Inr cg_safebox_money.from_bytes_ok_iff [simplified]
    gc_safebox_size.from_bytes_Inr gc_safebox_size.from_bytes_ok_iff [simplified]
    gc_safebox_wrong_password.from_bytes_Inr gc_safebox_wrong_password.from_bytes_ok_iff [unfolded TPacketGCSafeboxWrongPassword_SIZE_def]
    gc_safebox_money_change.from_bytes_Inr gc_safebox_money_change.from_bytes_ok_iff [simplified])

end
