(* ===== verification/SessionIo.thy ===== *)
theory SessionIo
  imports Shop ItemPackets
begin

text \<open>
  The session of a connection as the handlers of the safebox and of the quick slots see it
  (\<^verbatim>\<open>server_realms/src/channel/session.rs\<close>), with the calls that may fail: the queries of a
  repository and \<^verbatim>\<open>send\<close>. A handler is a state passing function with an error value; \<open>wp\<close> is its
  weakest precondition, with one postcondition for the normal return and one for the state an
  error or a panic leaves behind.
\<close>

section \<open>The session\<close>

text \<open>The safebox while it is open (\<^verbatim>\<open>SafeboxState\<close>), and a row of the table \<^verbatim>\<open>player.safebox\<close>.\<close>

record SafeboxState =
  bx_size :: i16
  bx_gold :: int
  bx_items :: "ItemRow list"

record BoxRow =
  br_size :: i16
  br_password :: string
  br_gold :: int

text \<open>
  What goes to the client: the bytes of a packet, or the packet of the points, which
  \<^verbatim>\<open>game_core/src/packets.rs\<close> builds from the character row (only its gold changes here).
\<close>

datatype notice = Wire bytes | PointsPacket int

text \<open>
  A call to the database or the socket is done, is lost before it has an effect, or has its effect
  and fails all the same because the answer does not arrive. \<open>c_faults\<close> lists what happens to the
  next calls; after its end every call is done.
\<close>

datatype io_fault = Done | Lost | Unanswered

text \<open>
  \<open>c_saved\<close> collects the rows \<^verbatim>\<open>save\<close> hands to the batcher (gold and quick slots; the rest of the
  row does not change here). \<open>c_items\<close> and \<open>c_boxes\<close> are the tables, \<open>c_next\<close> the next identity of
  the item table.
\<close>

record Conn =
  c_account :: int
  c_owner :: int
  c_vid :: u32
  c_empire :: u8
  c_gold :: int
  c_quickslot :: "bytes option"
  c_bag :: "ItemRow list"
  c_box :: "SafeboxState option"
  c_cooldown :: "nat option"
  c_sent :: "notice list"
  c_saved :: "(int \<times> bytes option) list"
  c_items :: item_table
  c_boxes :: "int \<rightharpoonup> BoxRow"
  c_next :: int
  c_faults :: "io_fault list"

section \<open>Handlers\<close>

datatype 'a answer = Returned 'a | Refused string | Crashed_at string

type_synonym 'a handler = "Conn \<Rightarrow> 'a answer \<times> Conn"

definition hret :: "'a \<Rightarrow> 'a handler" where
  "hret a v = (Returned a, v)"

definition hbind :: "'a handler \<Rightarrow> ('a \<Rightarrow> 'b handler) \<Rightarrow> 'b handler" where
  "hbind m f v =
    (case m v of
       (Returned a, v') \<Rightarrow> f a v'
     | (Refused e, v') \<Rightarrow> (Refused e, v')
     | (Crashed_at e, v') \<Rightarrow> (Crashed_at e, v'))"

definition hfail :: "string \<Rightarrow> 'a handler" where
  "hfail e v = (Refused e, v)"

definition hpanic :: "string \<Rightarrow> 'a handler" where
  "hpanic e v = (Crashed_at e, v)"

definition hmod :: "(Conn \<Rightarrow> Conn) \<Rightarrow> unit handler" where
  "hmod f v = (Returned (), f v)"

text \<open>The continuation reads the session.\<close>

definition hget :: "(Conn \<Rightarrow> 'a handler) \<Rightarrow> 'a handler" where
  "hget k v = k v v"

definition hcall :: "string \<Rightarrow> (Conn \<Rightarrow> Conn) \<Rightarrow> unit handler" where
  "hcall e f v =
    (case c_faults v of
       [] \<Rightarrow> (Returned (), f v)
     | Done # fs \<Rightarrow> (Returned (), f (v\<lparr>c_faults := fs\<rparr>))
     | Lost # fs \<Rightarrow> (Refused e, v\<lparr>c_faults := fs\<rparr>)
     | Unanswered # fs \<Rightarrow> (Refused e, f (v\<lparr>c_faults := fs\<rparr>)))"

text \<open>A query without effect.\<close>

definition hquery :: "string \<Rightarrow> (Conn \<Rightarrow> 'a) \<Rightarrow> 'a handler" where
  "hquery e q = hbind (hcall e (\<lambda>v. v)) (\<lambda>_. hget (\<lambda>v. hret (q v)))"

definition send :: "bytes \<Rightarrow> unit handler" where
  "send d = hcall ''send'' (\<lambda>v. v\<lparr>c_sent := c_sent v @ [Wire d]\<rparr>)"

fun send_all :: "bytes list \<Rightarrow> unit handler" where
  "send_all [] = hret ()"
| "send_all (d # ds) = hbind (send d) (\<lambda>_. send_all ds)"

text \<open>\<^verbatim>\<open>save\<close> hands the character row to the batcher and does not wait.\<close>

definition save :: "unit handler" where
  "save = hmod (\<lambda>v. v\<lparr>c_saved := c_saved v @ [(c_gold v, c_quickslot v)]\<rparr>)"

section \<open>Weakest preconditions\<close>

definition wp :: "'a handler \<Rightarrow> ('a \<Rightarrow> Conn \<Rightarrow> bool) \<Rightarrow> (bool \<Rightarrow> Conn \<Rightarrow> bool) \<Rightarrow> Conn \<Rightarrow> bool" where
  "wp m Q E v =
    (case m v of (Returned a, v') \<Rightarrow> Q a v' | (Refused e, v') \<Rightarrow> E False v' | (Crashed_at e, v') \<Rightarrow> E True v')"

lemma wp_hret [simp]: "wp (hret a) Q E = Q a"
  by (rule ext) (simp add: wp_def hret_def)

lemma wp_hbind [simp]: "wp (hbind m f) Q E = wp m (\<lambda>a. wp (f a) Q E) E"
  by (rule ext) (auto simp: wp_def hbind_def split: prod.splits answer.splits)

lemma wp_hfail [simp]: "wp (hfail e) Q E = E False"
  by (rule ext) (simp add: wp_def hfail_def)

lemma wp_hpanic [simp]: "wp (hpanic e) Q E = E True"
  by (rule ext) (simp add: wp_def hpanic_def)

lemma wp_hmod [simp]: "wp (hmod f) Q E = (\<lambda>v. Q () (f v))"
  by (rule ext) (simp add: wp_def hmod_def)

lemma wp_hget [simp]: "wp (hget k) Q E = (\<lambda>v. wp (k v) Q E v)"
  by (rule ext) (simp add: wp_def hget_def)

lemma wp_if [simp]: "wp (if b then m else n) Q E = (if b then wp m Q E else wp n Q E)"
  by simp

text \<open>Whatever happens to a call, the session goes on with one fault less or stops.\<close>

lemma wp_hcall:
  assumes "\<And>fs. Q () (f (v\<lparr>c_faults := fs\<rparr>)) \<and> E False (f (v\<lparr>c_faults := fs\<rparr>)) \<and> E False (v\<lparr>c_faults := fs\<rparr>)"
  shows "wp (hcall e f) Q E v"
proof (cases "c_faults v")
  case Nil
  then have "v\<lparr>c_faults := []\<rparr> = v" by simp
  with Nil assms [of "[]"] show ?thesis by (simp add: wp_def hcall_def)
next
  case (Cons x fs)
  with assms [of fs] show ?thesis by (cases x) (simp_all add: wp_def hcall_def)
qed

lemma wp_hcall_fine:
  "c_faults v = [] \<Longrightarrow> wp (hcall e f) Q E v \<longleftrightarrow> Q () (f v)"
  by (simp add: wp_def hcall_def)

text \<open>The flag of the second postcondition tells a panic from an error.\<close>

lemma wp_mono:
  "wp m Q E v \<Longrightarrow> (\<And>a w. Q a w \<Longrightarrow> Q' a w) \<Longrightarrow> (\<And>b w. E b w \<Longrightarrow> E' b w) \<Longrightarrow> wp m Q' E' v"
  by (auto simp: wp_def split: prod.splits answer.splits)

text \<open>A call that only talks changes the packets sent and the faults.\<close>

lemma sent_faults: "v\<lparr>c_faults := fs, c_sent := s\<rparr> = v\<lparr>c_sent := s, c_faults := fs\<rparr>"
  by simp

lemma wp_send:
  "(\<And>s fs. Q () (v\<lparr>c_sent := s, c_faults := fs\<rparr>) \<and> E False (v\<lparr>c_sent := s, c_faults := fs\<rparr>)) \<Longrightarrow> wp (send d) Q E v"
  unfolding send_def
proof (rule wp_hcall)
  fix fs
  assume all: "\<And>s fs. Q () (v\<lparr>c_sent := s, c_faults := fs\<rparr>) \<and> E False (v\<lparr>c_sent := s, c_faults := fs\<rparr>)"
  show "Q () (v\<lparr>c_faults := fs\<rparr>\<lparr>c_sent := c_sent (v\<lparr>c_faults := fs\<rparr>) @ [Wire d]\<rparr>)
      \<and> E False (v\<lparr>c_faults := fs\<rparr>\<lparr>c_sent := c_sent (v\<lparr>c_faults := fs\<rparr>) @ [Wire d]\<rparr>) \<and> E False (v\<lparr>c_faults := fs\<rparr>)"
    using all [where s = "c_sent v @ [Wire d]" and fs = fs] all [where s = "c_sent v" and fs = fs] by (simp add: sent_faults)
qed

lemma wp_send_all:
  "(\<And>s fs. Q () (v\<lparr>c_sent := s, c_faults := fs\<rparr>) \<and> E False (v\<lparr>c_sent := s, c_faults := fs\<rparr>)) \<Longrightarrow> wp (send_all ds) Q E v"
proof (induction ds arbitrary: v)
  case Nil
  then show ?case using Nil [where s = "c_sent v" and fs = "c_faults v"] by simp
next
  case (Cons d ds)
  show ?case
    unfolding send_all.simps wp_hbind
  proof (rule wp_send, rule conjI)
    fix s fs
    show "wp (send_all ds) Q E (v\<lparr>c_sent := s, c_faults := fs\<rparr>)"
      by (rule Cons.IH) (simp add: Cons.prems)
    show "E False (v\<lparr>c_sent := s, c_faults := fs\<rparr>)" by (simp add: Cons.prems)
  qed
qed

lemma wp_hquery:
  "(\<And>fs. Q (q (v\<lparr>c_faults := fs\<rparr>)) (v\<lparr>c_faults := fs\<rparr>) \<and> E False (v\<lparr>c_faults := fs\<rparr>)) \<Longrightarrow> wp (hquery e q) Q E v"
  unfolding hquery_def by simp (rule wp_hcall, simp)

text \<open>Without faults every call is done.\<close>

lemma fine_calls:
  "c_faults v = [] \<Longrightarrow> hcall e f v = (Returned (), f v)"
  "c_faults v = [] \<Longrightarrow> hquery e q v = (Returned (q v), v)"
  "c_faults v = [] \<Longrightarrow> send d v = (Returned (), v\<lparr>c_sent := c_sent v @ [Wire d]\<rparr>)"
  by (simp_all add: hcall_def hquery_def send_def hbind_def hget_def hret_def)

lemma fine_send_all:
  "c_faults v = [] \<Longrightarrow> send_all ds v = (Returned (), v\<lparr>c_sent := c_sent v @ map Wire ds\<rparr>)"
  by (induction ds arbitrary: v) (simp_all add: fine_calls hbind_def hret_def)

end
