(* ===== verification/Quickslot.thy ===== *)
theory Quickslot
  imports SessionIo
begin

text \<open>
  The quick slots (\<^verbatim>\<open>server_realms/src/channel/quickslot.rs\<close>): 36 pairs of a type and a position in
  one byte string of the character row, the three handlers that change it, and the clearing of
  the references to a cell, which the safebox uses.
\<close>

section \<open>The bar\<close>

definition QUICKSLOT_MAX_NUM :: nat where "QUICKSLOT_MAX_NUM = 36"
definition QUICKSLOT_TYPE_NONE :: u8 where "QUICKSLOT_TYPE_NONE = 0"
definition QUICKSLOT_TYPE_ITEM :: u8 where "QUICKSLOT_TYPE_ITEM = 1"
definition QUICKSLOT_TYPE_SKILL :: u8 where "QUICKSLOT_TYPE_SKILL = 2"
definition QUICKSLOT_TYPE_COMMAND :: u8 where "QUICKSLOT_TYPE_COMMAND = 3"
definition QUICKSLOT_TYPE_MAX_NUM :: u8 where "QUICKSLOT_TYPE_MAX_NUM = 4"
definition SKILL_MAX_NUM :: u8 where "SKILL_MAX_NUM = 255"

lemmas quickslot_consts = QUICKSLOT_MAX_NUM_def QUICKSLOT_TYPE_NONE_def QUICKSLOT_TYPE_ITEM_def
  QUICKSLOT_TYPE_SKILL_def QUICKSLOT_TYPE_COMMAND_def QUICKSLOT_TYPE_MAX_NUM_def SKILL_MAX_NUM_def

definition blob :: "bytes option \<Rightarrow> bytes" where
  "blob q =
    (case q of
       Some b \<Rightarrow> if length b = QUICKSLOT_MAX_NUM * TQuickslot_SIZE then b
                 else replicate (QUICKSLOT_MAX_NUM * TQuickslot_SIZE) 0
     | None \<Rightarrow> replicate (QUICKSLOT_MAX_NUM * TQuickslot_SIZE) 0)"

definition slot_at :: "bytes \<Rightarrow> u8 \<Rightarrow> TQuickslot option" where
  "slot_at b i =
    (if QUICKSLOT_MAX_NUM \<le> unat i then None
     else case TQuickslot_from_bytes (slice b (unat i * 2) 2) of Inr q \<Rightarrow> Some q | Inl _ \<Rightarrow> None)"

definition no_slot :: TQuickslot where
  "no_slot = \<lparr>slot_type = 0, TQuickslot.pos = 0\<rparr>"

definition slot_or_none :: "bytes \<Rightarrow> u8 \<Rightarrow> TQuickslot" where
  "slot_or_none b i = (case slot_at b i of Some q \<Rightarrow> q | None \<Rightarrow> no_slot)"

definition persist :: "bytes \<Rightarrow> unit handler" where
  "persist b = hbind (hmod (\<lambda>v. v\<lparr>c_quickslot := Some b\<rparr>)) (\<lambda>_. save)"

text \<open>\<^verbatim>\<open>b[i * 2..i * 2 + 2].copy_from_slice(xs)\<close>.\<close>

definition set_slot :: "bytes \<Rightarrow> nat \<Rightarrow> bytes \<Rightarrow> bytes" where
  "set_slot b i xs = copy_at b (i * 2) xs"

text \<open>The loop of \<^verbatim>\<open>clear_item_refs\<close> over the slots that are left.\<close>

fun clear_from :: "nat list \<Rightarrow> bytes \<Rightarrow> u16 \<Rightarrow> bytes \<times> u8 list" where
  "clear_from [] b c = (b, [])"
| "clear_from (i # is) b c =
    (if b ! (i * 2) = QUICKSLOT_TYPE_ITEM \<and> ucast (b ! (i * 2 + 1)) = c
     then (case clear_from is (set_slot b i [0, 0]) c of (b', cleared) \<Rightarrow> (b', word_of_nat i # cleared))
     else clear_from is b c)"

definition clear_item_refs :: "bytes \<Rightarrow> u16 \<Rightarrow> bytes \<times> u8 list" where
  "clear_item_refs b c = clear_from [0..<QUICKSLOT_MAX_NUM] b c"

section \<open>The handlers\<close>

text \<open>The loop of \<^verbatim>\<open>handle_add\<close> that clears the other slots of the same type and position.\<close>

fun dedupe :: "nat list \<Rightarrow> TPacketCGQuickSlotAdd \<Rightarrow> bytes \<Rightarrow> bytes handler" where
  "dedupe [] ad b = hret b"
| "dedupe (i # is) ad b =
    (if i = unat (TPacketCGQuickSlotAdd.pos ad) then dedupe is ad b
     else if b ! (i * 2) = slot_type (TPacketCGQuickSlotAdd.slot ad)
           \<and> b ! (i * 2 + 1) = TQuickslot.pos (TPacketCGQuickSlotAdd.slot ad)
     then hbind (send (TPacketGCQuickSlotDel_to_bytes (TPacketGCQuickSlotDel_new (word_of_nat i))))
            (\<lambda>_. dedupe is ad (set_slot b i [0, 0]))
     else dedupe is ad b)"

definition add_refused :: "TQuickslot \<Rightarrow> bool" where
  "add_refused q \<longleftrightarrow>
     slot_type q = QUICKSLOT_TYPE_NONE
     \<or> slot_type q = QUICKSLOT_TYPE_ITEM \<and> INVENTORY_MAX_NUM \<le> ucast (TQuickslot.pos q)
     \<or> slot_type q = QUICKSLOT_TYPE_SKILL \<and> TQuickslot.pos q = SKILL_MAX_NUM"

definition quickslot_handle_add :: "bytes \<Rightarrow> unit handler" where
  "quickslot_handle_add pkt =
    (case TPacketCGQuickSlotAdd_from_bytes pkt of
       Inl e \<Rightarrow> hret ()
     | Inr ad \<Rightarrow>
         (let p = TPacketCGQuickSlotAdd.pos ad; q = TPacketCGQuickSlotAdd.slot ad
          in if QUICKSLOT_MAX_NUM \<le> unat p then hret ()
             else if QUICKSLOT_TYPE_MAX_NUM \<le> slot_type q then hret ()
             else if add_refused q then hret ()
             else hget (\<lambda>v.
               hbind (if slot_type q \<noteq> QUICKSLOT_TYPE_NONE
                      then dedupe [0..<QUICKSLOT_MAX_NUM] ad (blob (c_quickslot v))
                      else hret (blob (c_quickslot v)))
                 (\<lambda>b. hbind (hret (set_slot b (unat p) (TQuickslot_to_bytes q)))
                 (\<lambda>b'. hbind (send (TPacketGCQuickSlotAdd_to_bytes (TPacketGCQuickSlotAdd_new p q)))
                 (\<lambda>_. persist b'))))))"

definition quickslot_handle_del :: "bytes \<Rightarrow> unit handler" where
  "quickslot_handle_del pkt =
    (case TPacketCGQuickSlotDel_from_bytes pkt of
       Inl e \<Rightarrow> hret ()
     | Inr del \<Rightarrow>
         (let p = TPacketCGQuickSlotDel.pos del
          in if QUICKSLOT_MAX_NUM \<le> unat p then hret ()
             else hget (\<lambda>v.
               (let b = set_slot (blob (c_quickslot v)) (unat p) [0, 0]
                in hbind (send (TPacketGCQuickSlotDel_to_bytes (TPacketGCQuickSlotDel_new p)))
                     (\<lambda>_. persist b)))))"

definition quickslot_handle_swap :: "bytes \<Rightarrow> unit handler" where
  "quickslot_handle_swap pkt =
    (case TPacketCGQuickSlotSwap_from_bytes pkt of
       Inl e \<Rightarrow> hret ()
     | Inr sw \<Rightarrow>
         (let p = TPacketCGQuickSlotSwap.pos sw; c = TPacketCGQuickSlotSwap.change_pos sw
          in if QUICKSLOT_MAX_NUM \<le> unat p \<or> QUICKSLOT_MAX_NUM \<le> unat c then hret ()
             else if p = c then hret ()
             else hget (\<lambda>v.
               (let b = blob (c_quickslot v);
                    a = slot_or_none b p;
                    d = slot_or_none b c;
                    b1 = set_slot b (unat p) (TQuickslot_to_bytes d);
                    b2 = set_slot b1 (unat c) (TQuickslot_to_bytes a)
                in hbind (send (TPacketGCQuickSlotSwap_to_bytes (TPacketGCQuickSlotSwap_new p c)))
                     (\<lambda>_. persist b2)))))"

section \<open>The bar as a table\<close>

text \<open>Slot \<open>i\<close> as a pair; the empty slot is \<open>(0, 0)\<close>.\<close>

definition slot_pair :: "bytes \<Rightarrow> nat \<Rightarrow> u8 \<times> u8" where
  "slot_pair b i = (b ! (i * 2), b ! (i * 2 + 1))"

definition bar_ok :: "bytes \<Rightarrow> bool" where
  "bar_ok b \<longleftrightarrow> length b = 72
     \<and> (\<forall>i < 36. \<forall>j < 36. i \<noteq> j \<longrightarrow> slot_pair b i = slot_pair b j \<longrightarrow> fst (slot_pair b i) = 0)"

lemma length_blob [simp]: "length (blob q) = 72"
  by (auto simp: blob_def quickslot_consts split: option.splits)

lemma length_set_slot [simp]: "length (set_slot b i xs) = length b"
  by (simp add: set_slot_def)

lemma slot_pair_copy:
  assumes "length b = 72" and "length xs = 2" and "i < 36" and "k < 36"
  shows "slot_pair (set_slot b i xs) k = (if k = i then (xs ! 0, xs ! 1) else slot_pair b k)"
  using assms by (auto simp: set_slot_def slot_pair_def nth_copy_at)

lemma slot_pair_empty: "bar_ok (replicate 72 0)"
  by (auto simp: bar_ok_def slot_pair_def)

lemma bar_ok_clear:
  assumes "bar_ok b" and "i < 36"
  shows "bar_ok (set_slot b i [0, 0])"
  using assms unfolding bar_ok_def by (auto simp: slot_pair_copy) (metis fst_conv)+

lemma bar_ok_clear_from:
  "bar_ok b \<Longrightarrow> \<forall>i \<in> set is. i < 36 \<Longrightarrow> bar_ok (fst (clear_from is b c))"
  by (induction "is" b c rule: clear_from.induct) (auto simp: bar_ok_clear split: prod.splits)

lemma bar_ok_item_refs: "bar_ok b \<Longrightarrow> bar_ok (fst (clear_item_refs b c))"
  unfolding clear_item_refs_def by (rule bar_ok_clear_from) (auto simp: quickslot_consts)

text \<open>After \<open>clear_item_refs\<close> no slot refers to the cell, and the other slots are as before.\<close>

lemma clear_from_slots:
  assumes "length b = 72" and "distinct is" and "\<forall>i \<in> set is. i < 36" and "k < 36"
  shows "length (fst (clear_from is b c)) = 72
     \<and> slot_pair (fst (clear_from is b c)) k =
         (if k \<in> set is \<and> fst (slot_pair b k) = QUICKSLOT_TYPE_ITEM \<and> ucast (snd (slot_pair b k)) = c
          then (0, 0) else slot_pair b k)
     \<and> (word_of_nat k \<in> set (snd (clear_from is b c))
         \<longleftrightarrow> k \<in> set is \<and> fst (slot_pair b k) = QUICKSLOT_TYPE_ITEM \<and> ucast (snd (slot_pair b k)) = c)"
  using assms
proof (induction "is" b c rule: clear_from.induct)
  case (2 i "is" b c)
  have inj: "(word_of_nat k = (word_of_nat i :: u8)) \<longleftrightarrow> k = i"
    using 2(4,5,6) by (simp add: word_of_nat_eq_iff take_bit_nat_eq_self)
  show ?case
  proof (cases "b ! (i * 2) = QUICKSLOT_TYPE_ITEM \<and> ucast (b ! (i * 2 + 1)) = c")
    case True
    let ?b = "set_slot b i [0, 0]"
    obtain b' cl where r: "clear_from is ?b c = (b', cl)" by fastforce
    have "slot_pair ?b k = (if k = i then (0, 0) else slot_pair b k)"
      using 2(3-6) by (simp add: slot_pair_copy)
    with True 2 r inj show ?thesis
      by (auto simp: slot_pair_def quickslot_consts)
  next
    case False
    with 2 show ?thesis by (auto simp: slot_pair_def)
  qed
qed simp

section \<open>No two slots show the same thing\<close>

lemma wp_dedupe:
  assumes "length b = 72" and "\<forall>i \<in> set is. i < 36"
    and "\<And>b' s fs. length b' = 72 \<Longrightarrow>
      (\<forall>k < 36. slot_pair b' k = (if k \<in> set is \<and> k \<noteq> unat (TPacketCGQuickSlotAdd.pos ad) \<and> slot_pair b k =
         (slot_type (TPacketCGQuickSlotAdd.slot ad), TQuickslot.pos (TPacketCGQuickSlotAdd.slot ad))
         then (0, 0) else slot_pair b k)) \<Longrightarrow> Q b' (v\<lparr>c_sent := s, c_faults := fs\<rparr>)"
    and "\<And>s fs. E False (v\<lparr>c_sent := s, c_faults := fs\<rparr>)"
  shows "wp (dedupe is ad b) Q E v"
  using assms
proof (induction "is" arbitrary: b v)
  case Nil
  show ?case using Nil.prems(3) [where s = "c_sent v" and fs = "c_faults v" and b' = b] Nil.prems(1) by simp
next
  case (Cons i "is")
  let ?q = "(slot_type (TPacketCGQuickSlotAdd.slot ad), TQuickslot.pos (TPacketCGQuickSlotAdd.slot ad))"
  have i: "i < 36" and rest: "\<forall>i \<in> set is. i < 36" using Cons.prems(2) by auto
  show ?case
  proof (cases "i \<noteq> unat (TPacketCGQuickSlotAdd.pos ad) \<and> slot_pair b i = ?q")
    case True
    let ?b = "set_slot b i [0, 0]"
    have pair: "slot_pair ?b k = (if k = i then (0, 0) else slot_pair b k)" if "k < 36" for k
      using Cons.prems(1) i that by (simp add: slot_pair_copy)
    have "wp (dedupe is ad ?b) Q E (v\<lparr>c_sent := s, c_faults := fs\<rparr>)" for s fs
    proof (rule Cons.IH [OF _ rest])
      fix b' s' fs'
      assume "length b' = 72" and "\<forall>k < 36. slot_pair b' k = (if k \<in> set is
          \<and> k \<noteq> unat (TPacketCGQuickSlotAdd.pos ad) \<and> slot_pair ?b k = ?q then (0, 0) else slot_pair ?b k)"
      then show "Q b' (v\<lparr>c_sent := s, c_faults := fs\<rparr>\<lparr>c_sent := s', c_faults := fs'\<rparr>)"
        using Cons.prems(3) [where s = s' and fs = fs' and b' = b'] True pair
        by (simp add: sent_faults)
    qed (use Cons.prems in \<open>simp_all add: sent_faults\<close>)
    with True Cons.prems(4) show ?thesis
      by (auto simp: slot_pair_def intro!: wp_send)
  next
    case False
    then have step: "dedupe (i # is) ad b = dedupe is ad b" by (auto simp: slot_pair_def)
    show ?thesis
      unfolding step
      by (rule Cons.IH [OF Cons.prems(1) rest])
        (use False in \<open>auto intro!: Cons.prems(3,4)\<close>)
  qed
qed

text \<open>Writing a slot that no other slot equals, and exchanging two slots.\<close>

lemma bar_ok_write:
  assumes "bar_ok b" and "p < 36"
    and "\<forall>k < 36. k \<noteq> p \<longrightarrow> slot_pair b k \<noteq> (x, y)"
  shows "bar_ok (set_slot b p [x, y])"
  using assms unfolding bar_ok_def by (auto simp: slot_pair_copy)

lemma slot_or_none_bytes:
  assumes "length b = 72" and "unat p < 36"
  shows "TQuickslot_to_bytes (slot_or_none b p) = [fst (slot_pair b (unat p)), snd (slot_pair b (unat p))]"
  using assms by (simp add: slot_or_none_def slot_at_def quickslot_consts TQuickslot_from_bytes_def
      TQuickslot_to_bytes_def slot_pair_def)

lemma bar_ok_swap:
  assumes b: "bar_ok b" and p: "p < 36" and c: "c < 36" and "p \<noteq> c"
  shows "bar_ok (set_slot (set_slot b p [fst (slot_pair b c), snd (slot_pair b c)]) c
    [fst (slot_pair b p), snd (slot_pair b p)])" (is "bar_ok ?b")
proof -
  let ?s = "\<lambda>k. if k = c then p else if k = p then c else k"
  have len: "length b = 72" using b by (simp add: bar_ok_def)
  have pairs: "slot_pair ?b k = slot_pair b (?s k)" if "k < 36" for k
    using len p c that \<open>p \<noteq> c\<close> by (simp add: slot_pair_copy)
  have "fst (slot_pair ?b i) = 0" if "i < 36" "j < 36" "i \<noteq> j" "slot_pair ?b i = slot_pair ?b j" for i j
  proof -
    have "?s i < 36" "?s j < 36" using that(1,2) p c by simp_all
    moreover have "?s i \<noteq> ?s j" using \<open>i \<noteq> j\<close> \<open>p \<noteq> c\<close> by simp
    moreover have "slot_pair b (?s i) = slot_pair b (?s j)"
      using that(4) unfolding pairs [OF that(1)] pairs [OF that(2)] .
    ultimately have "fst (slot_pair b (?s i)) = 0" using b unfolding bar_ok_def by blast
    then show ?thesis unfolding pairs [OF that(1)] .
  qed
  then show ?thesis using len by (auto simp: bar_ok_def)
qed

lemma wp_persist [simp]:
  "wp (persist b) Q E = (\<lambda>v. Q () (v\<lparr>c_quickslot := Some b, c_saved := c_saved v @ [(c_gold v, Some b)]\<rparr>))"
  by (simp add: persist_def save_def)

lemma blob_Some: "length b = 72 \<Longrightarrow> blob (Some b) = b"
  by (simp add: blob_def quickslot_consts)

abbreviation shown :: "Conn \<Rightarrow> bytes" where "shown v \<equiv> blob (c_quickslot v)"

lemma add_keeps_the_bar:
  assumes ok: "bar_ok b" and p: "p < 36" and len: "length b' = 72" and "x \<noteq> 0"
    and pairs: "\<forall>k < 36. slot_pair b' k =
      (if k \<in> set [0..<36] \<and> k \<noteq> p \<and> slot_pair b k = (x, y) then (0, 0) else slot_pair b k)"
  shows "bar_ok (set_slot b' p [x, y])"
proof (rule bar_ok_write)
  show "\<forall>k < 36. k \<noteq> p \<longrightarrow> slot_pair b' k \<noteq> (x, y)"
    using pairs \<open>x \<noteq> 0\<close> by auto
  have "fst (slot_pair b' i) = 0"
    if "i < 36" "j < 36" "i \<noteq> j" "slot_pair b' i = slot_pair b' j" for i j
  proof (cases "slot_pair b' i = (0, 0)")
    case False
    with that pairs have "slot_pair b' i = slot_pair b i" "slot_pair b' j = slot_pair b j"
      by (metis (no_types, lifting))+
    with that ok show ?thesis unfolding bar_ok_def by metis
  qed simp
  with len show "bar_ok b'" by (auto simp: bar_ok_def)
qed (rule p)

lemma wp_quickslot_add:
  assumes ok: "bar_ok (shown v)"
  shows "wp (quickslot_handle_add pkt) (\<lambda>_ w. bar_ok (shown w)) (\<lambda>_ w. bar_ok (shown w)) v"
proof (cases "TPacketCGQuickSlotAdd_from_bytes pkt")
  case (Inr ad)
  let ?p = "unat (TPacketCGQuickSlotAdd.pos ad)" and ?q = "TPacketCGQuickSlotAdd.slot ad"
  show ?thesis
  proof (cases "?p < 36 \<and> slot_type ?q \<noteq> 0")
    case True
    have "wp (dedupe [0..<36] ad (shown v)) (\<lambda>b. wp (send d)
        (\<lambda>_ w. bar_ok (blob (Some (set_slot b ?p (TQuickslot_to_bytes ?q))))) (\<lambda>_ w. bar_ok (shown w)))
        (\<lambda>_ w. bar_ok (shown w)) v" for d
      by (rule wp_dedupe)
        (use ok True in \<open>auto simp: blob_Some TQuickslot_to_bytes_def intro!: wp_send add_keeps_the_bar\<close>)
    with ok Inr True show ?thesis
      by (simp add: quickslot_handle_add_def Let_def quickslot_consts)
  next
    case False
    with ok Inr show ?thesis
      by (auto simp: quickslot_handle_add_def Let_def quickslot_consts add_refused_def)
  qed
qed (simp add: quickslot_handle_add_def ok)

lemma wp_quickslot_del:
  assumes "bar_ok (shown v)"
  shows "wp (quickslot_handle_del pkt) (\<lambda>_ w. bar_ok (shown w)) (\<lambda>_ w. bar_ok (shown w)) v"
  using assms bar_ok_clear [OF assms]
  by (auto simp: quickslot_handle_del_def Let_def quickslot_consts blob_Some intro!: wp_send split: sum.splits)

lemma wp_quickslot_swap:
  assumes "bar_ok (shown v)"
  shows "wp (quickslot_handle_swap pkt) (\<lambda>_ w. bar_ok (shown w)) (\<lambda>_ w. bar_ok (shown w)) v"
  using assms bar_ok_swap [OF assms]
  by (auto simp: quickslot_handle_swap_def Let_def quickslot_consts blob_Some slot_or_none_bytes
      word_unat_eq_iff intro!: wp_send split: sum.splits)

end
