(* ===== verification/Safebox.thy ===== *)
theory Safebox
  imports Quickslot
begin

text \<open>
  The safebox (\<^verbatim>\<open>server_realms/src/channel/safebox.rs\<close>), its table (\<^verbatim>\<open>database/src/safebox.rs\<close>) and
  the cells of the belt (\<^verbatim>\<open>server_realms/src/channel/belt.rs\<close>): opening and closing, the change of
  the password and of the size, and the four handlers of the game loop, as functions from the
  bytes of the packet. A \<^verbatim>\<open>&str\<close> is its byte string. The static tables of the item prototypes are
  the arguments \<open>protos\<close> and \<open>uses\<close>.
\<close>

section \<open>Constants and cells\<close>

definition SAFEBOX_PASSWORD_MAX_LEN :: nat where "SAFEBOX_PASSWORD_MAX_LEN = 6"
definition SAFEBOX_DEFAULT_PASSWORD :: string where "SAFEBOX_DEFAULT_PASSWORD = ''000000''"
definition REOPEN_COOLDOWN :: nat where "REOPEN_COOLDOWN = 10000"
definition CHAT_TYPE_COMMAND :: u8 where "CHAT_TYPE_COMMAND = 5"
definition GM_CHAT_TYPE_INFO :: u8 where "GM_CHAT_TYPE_INFO = 1"
definition SAFEBOX_SIZE_MAX :: u8 where "SAFEBOX_SIZE_MAX = 3"
definition UNIQUE_ITEM_SAFEBOX_EXPAND :: int where "UNIQUE_ITEM_SAFEBOX_EXPAND = 71009"
definition ITEM_ANTIFLAG_SAFEBOX :: int where "ITEM_ANTIFLAG_SAFEBOX = 131072"
definition ITEM_ANTIFLAG_STACK :: int where "ITEM_ANTIFLAG_STACK = 32768"
definition ITEM_FLAG_STACKABLE :: int where "ITEM_FLAG_STACKABLE = 4"
definition ITEM_DS :: int where "ITEM_DS = 29"
definition DRAGON_SOUL_INVENTORY_MAX_NUM :: u16 where "DRAGON_SOUL_INVENTORY_MAX_NUM = 1152"
definition GRID_WIDTH :: u16 where "GRID_WIDTH = 5"
definition INVENTORY_PAGE_CELLS :: u16 where "INVENTORY_PAGE_CELLS = 45"

text \<open>
  Products and sums of machine integers wrap (the workspace has no profile of its own, so a
  release build does not check them).
\<close>

definition slots_of :: "i16 \<Rightarrow> u16" where
  "slots_of n = 5 * word_of_int (max (sint n) 0)"

definition slots :: "SafeboxState \<Rightarrow> u16" where
  "slots st = slots_of (bx_size st)"

definition strip_cells :: "u16 \<Rightarrow> u16 \<Rightarrow> u16 list" where
  "strip_cells p n = map (\<lambda>j. p + GRID_WIDTH * word_of_nat j) [0..<unat n]"

definition strip_fits :: "u16 \<Rightarrow> u16 \<Rightarrow> u16 \<Rightarrow> u16 option \<Rightarrow> u16 list \<Rightarrow> bool" where
  "strip_fits p n cells page occupied \<longleftrightarrow>
     list_all (\<lambda>c. c < cells
       \<and> (case page of None \<Rightarrow> True | Some pc \<Rightarrow> c div pc = p div pc)
       \<and> c \<notin> set occupied) (strip_cells p n)"

definition checkin_gate :: "int \<Rightarrow> u16 \<Rightarrow> int \<Rightarrow> u16 \<Rightarrow> u16 \<Rightarrow> u16 list \<Rightarrow> bool" where
  "checkin_gate vnum' n antiflag p cells occupied \<longleftrightarrow>
     vnum' \<noteq> UNIQUE_ITEM_SAFEBOX_EXPAND
     \<and> antiflag AND ITEM_ANTIFLAG_SAFEBOX = 0
     \<and> strip_fits p n cells None occupied"

definition stackable_dst :: "int \<Rightarrow> int \<Rightarrow> bool" where
  "stackable_dst flag antiflag \<longleftrightarrow> flag AND ITEM_FLAG_STACKABLE \<noteq> 0 \<and> antiflag AND ITEM_ANTIFLAG_STACK = 0"

text \<open>An item on the wire, in a window and a cell; \<^verbatim>\<open>set_packet\<close> is the one of the safebox.\<close>

definition item_set :: "u8 \<Rightarrow> u8 \<Rightarrow> u16 \<Rightarrow> ItemRow \<Rightarrow> TPacketGCItemSet" where
  "item_set h win c r =
    \<lparr>TPacketGCItemSet.header = h,
     TPacketGCItemSet.cell = \<lparr>window = win, TItemPos.cell = c\<rparr>,
     TPacketGCItemSet.vnum = word_of_int (row_vnum r),
     TPacketGCItemSet.count = word_of_int (row_count r),
     flags = 0, anti_flags = 0, highlight = 0,
     TPacketGCItemSet.sockets = row_sockets r,
     TPacketGCItemSet.attrs = row_attrs r\<rparr>"

definition set_packet :: "ItemRow \<Rightarrow> u16 \<Rightarrow> bytes" where
  "set_packet r p = TPacketGCItemSet_to_bytes (item_set GC_SAFEBOX_SET WINDOW_SAFEBOX p r)"

definition checked_safebox_money :: "int \<Rightarrow> int \<Rightarrow> int \<Rightarrow> u8 \<Rightarrow> (int \<times> int) option" where
  "checked_safebox_money player_gold box_gold money state =
    (if state = 0 then
       (case (checked_gold_sub player_gold money, checked_gold_delta box_gold money) of
          (Some a, Some b) \<Rightarrow> Some (a, b) | _ \<Rightarrow> None)
     else if state = 1 then
       (case (checked_gold_delta player_gold money, checked_gold_sub box_gold money) of
          (Some a, Some b) \<Rightarrow> Some (a, b) | _ \<Rightarrow> None)
     else None)"

section \<open>The belt\<close>

definition BELT_INVENTORY_SLOT_START :: u16 where "BELT_INVENTORY_SLOT_START = 242"
definition BELT_INVENTORY_SLOT_COUNT :: u16 where "BELT_INVENTORY_SLOT_COUNT = 16"
definition BELT_INVENTORY_SLOT_END :: u16 where "BELT_INVENTORY_SLOT_END = BELT_INVENTORY_SLOT_START + BELT_INVENTORY_SLOT_COUNT"
definition WEAR_BELT :: u16 where "WEAR_BELT = 23"

definition is_belt_cell :: "TItemPos \<Rightarrow> bool" where
  "is_belt_cell p \<longleftrightarrow> window p = WINDOW_INVENTORY
     \<and> BELT_INVENTORY_SLOT_START \<le> TItemPos.cell p \<and> TItemPos.cell p < BELT_INVENTORY_SLOT_END"

definition wire_cell :: "ItemRow \<Rightarrow> u16" where
  "wire_cell r = (if row_window r = ''BELT_INVENTORY'' then BELT_INVENTORY_SLOT_START + word_of_int (row_pos r)
                  else word_of_int (row_pos r))"

definition belt_pos_of :: "u16 \<Rightarrow> int" where
  "belt_pos_of c = uint (c - BELT_INVENTORY_SLOT_START)"

definition place_at :: "ItemRow \<Rightarrow> bool \<Rightarrow> u16 \<Rightarrow> ItemRow" where
  "place_at r to_belt c =
    (if to_belt then r\<lparr>row_window := ''BELT_INVENTORY'', row_pos := belt_pos_of c\<rparr>
     else r\<lparr>row_window := ''INVENTORY'', row_pos := uint c\<rparr>)"

definition BELT_RULE :: "int list" where
  "BELT_RULE = [1, 2, 4, 6, 3, 3, 4, 6, 5, 5, 5, 6, 7, 7, 7, 7]"

definition is_available_cell :: "u16 \<Rightarrow> int \<Rightarrow> bool" where
  "is_available_cell c grade \<longleftrightarrow>
     (let i = unat (c - BELT_INVENTORY_SLOT_START) in i < length BELT_RULE \<and> BELT_RULE ! i \<le> grade)"

text \<open>\<^verbatim>\<open>ITEM_USE\<close> with the subtypes potion, potion without delay and ability.\<close>

definition can_move_into_belt :: "int \<Rightarrow> int \<Rightarrow> bool" where
  "can_move_into_belt b_type b_sub_type \<longleftrightarrow> b_type = 3 \<and> b_sub_type \<in> {0, 11, 7}"

definition equipped_belt :: "ItemRow list \<Rightarrow> ItemRow option" where
  "equipped_belt bag =
     List.find (\<lambda>i. row_window i = ''EQUIPMENT'' \<and> word_of_int (row_pos i) = INVENTORY_MAX_NUM + WEAR_BELT) bag"

section \<open>The tables\<close>

text \<open>
  The columns the handlers read of \<^verbatim>\<open>player.item_proto\<close>: size, antiflag and flag for the safebox;
  type, subtype and values for the use. A row with identifier 0 gets the next identity.
\<close>

record SafeboxProto =
  sp_size :: u16
  sp_antiflag :: int
  sp_flag :: int

record ProtoUse =
  pu_type :: int
  pu_sub_type :: int
  pu_values :: "int list"

definition proto_rows :: "(int \<Rightarrow> (i16 \<times> int \<times> int) option) \<Rightarrow> int list \<Rightarrow> int \<Rightarrow> SafeboxProto option" where
  "proto_rows protos vnums u =
    (if u \<in> set vnums
     then map_option (\<lambda>(n, a, f). \<lparr>sp_size = word_of_int (max (sint n) 1), sp_antiflag = a, sp_flag = f\<rparr>) (protos u)
     else None)"

definition load_safebox_proto :: "(int \<Rightarrow> (i16 \<times> int \<times> int) option) \<Rightarrow> int list \<Rightarrow> (int \<Rightarrow> SafeboxProto option) handler" where
  "load_safebox_proto protos vnums =
    (if vnums = [] then hret (\<lambda>_. None) else hquery ''ITEM_PROTO_SAFEBOX'' (\<lambda>_. proto_rows protos vnums))"

definition no_proto :: SafeboxProto where
  "no_proto = \<lparr>sp_size = 0, sp_antiflag = 0, sp_flag = 0\<rparr>"

definition size_in :: "(int \<Rightarrow> SafeboxProto option) \<Rightarrow> int \<Rightarrow> u16" where
  "size_in ps u = (case ps u of Some p \<Rightarrow> sp_size p | None \<Rightarrow> 1)"

definition occupied_cells :: "(int \<Rightarrow> SafeboxProto option) \<Rightarrow> ItemRow list \<Rightarrow> u16 list" where
  "occupied_cells ps rs = concat (map (\<lambda>r. strip_cells (word_of_int (row_pos r)) (size_in ps (row_vnum r))) rs)"

definition put_item :: "ItemRow \<Rightarrow> int \<Rightarrow> Conn \<Rightarrow> Conn" where
  "put_item r owner v =
    (if row_id r = 0
     then v\<lparr>c_items := (c_items v)(c_next v \<mapsto> (owner, r\<lparr>row_id := c_next v\<rparr>)), c_next := c_next v + 1\<rparr>
     else v\<lparr>c_items := (c_items v)(row_id r \<mapsto> (owner, r))\<rparr>)"

definition upsert :: "ItemRow \<Rightarrow> int \<Rightarrow> unit handler" where
  "upsert r owner = hcall ''ITEM_UPSERT'' (put_item r owner)"

definition delete_item :: "int \<Rightarrow> unit handler" where
  "delete_item i = hcall ''ITEM_DESTROY'' (\<lambda>v. v\<lparr>c_items := (c_items v)(i := None)\<rparr>)"

text \<open>\<^verbatim>\<open>UPDATE player.safebox SET gold = $2 WHERE account_id = $1\<close>: nothing without a row.\<close>

definition change_box :: "(BoxRow \<Rightarrow> BoxRow) \<Rightarrow> Conn \<Rightarrow> Conn" where
  "change_box f v = v\<lparr>c_boxes := (c_boxes v)(c_account v := map_option f (c_boxes v (c_account v)))\<rparr>"

definition set_gold :: "int \<Rightarrow> unit handler" where
  "set_gold g = hcall ''SAFEBOX_SAVE'' (change_box (\<lambda>b. b\<lparr>br_gold := g\<rparr>))"

text \<open>\<^verbatim>\<open>INSERT \<dots> ON CONFLICT DO NOTHING\<close>; the other columns get the defaults of the schema.\<close>

definition insert_box :: "BoxRow \<Rightarrow> Conn \<Rightarrow> Conn" where
  "insert_box b v = (case c_boxes v (c_account v) of
       Some _ \<Rightarrow> v | None \<Rightarrow> v\<lparr>c_boxes := (c_boxes v)(c_account v \<mapsto> b)\<rparr>)"

definition repo_set_size :: "i16 \<Rightarrow> unit handler" where
  "repo_set_size n = hcall ''SAFEBOX_CHANGE_SIZE''
    (if n = 1 then insert_box \<lparr>br_size = n, br_password = [], br_gold = 0\<rparr>
     else change_box (\<lambda>b. b\<lparr>br_size := n\<rparr>))"

definition ascii_lower :: "char \<Rightarrow> char" where
  "ascii_lower c = (if 65 \<le> byte_of c \<and> byte_of c \<le> 90 then char_of (byte_of c + 32) else c)"

definition old_password_matches :: "string \<Rightarrow> string \<Rightarrow> bool" where
  "old_password_matches current old =
    (if current = [] then old = SAFEBOX_DEFAULT_PASSWORD
     else map ascii_lower current = map ascii_lower old)"

definition repo_change_password :: "string \<Rightarrow> string \<Rightarrow> bool handler" where
  "repo_change_password old new =
     hbind (hquery ''SAFEBOX_CHANGE_PASSWORD'' (\<lambda>v. c_boxes v (c_account v)))
       (\<lambda>row. case row of
          None \<Rightarrow> hbind (hcall ''SAFEBOX_CHANGE_PASSWORD_INSERT''
                    (insert_box \<lparr>br_size = 0, br_password = new, br_gold = 0\<rparr>)) (\<lambda>_. hret True)
        | Some b \<Rightarrow>
            if \<not> old_password_matches (br_password b) old then hret False
            else hbind (hcall ''SAFEBOX_CHANGE_PASSWORD_UPDATE'' (change_box (\<lambda>b. b\<lparr>br_password := new\<rparr>)))
                   (\<lambda>_. hret True))"

section \<open>Opening and closing\<close>

definition chat_packet :: "u8 \<Rightarrow> Conn \<Rightarrow> string \<Rightarrow> bytes" where
  "chat_packet kind v text =
    [GC_CHAT] @ le16 (word_of_nat (9 + length text)) @ [kind] @ le32 (c_vid v) @ [c_empire v] @ map of_char text"

definition gm_info :: "string \<Rightarrow> unit handler" where
  "gm_info text = hget (\<lambda>v. send (chat_packet GM_CHAT_TYPE_INFO v text))"

definition box_items :: "(ItemRow list \<Rightarrow> ItemRow list) \<Rightarrow> unit handler" where
  "box_items f = hmod (\<lambda>v. v\<lparr>c_box := map_option (\<lambda>st. st\<lparr>bx_items := f (bx_items st)\<rparr>) (c_box v)\<rparr>)"

text \<open>\<^verbatim>\<open>if let Err\<close> with a log line: the error is dropped.\<close>

definition hignore :: "unit handler \<Rightarrow> unit handler" where
  "hignore m v = (case m v of (Refused e, v') \<Rightarrow> (Returned (), v') | r \<Rightarrow> r)"

definition password_ok :: "BoxRow option \<Rightarrow> string \<Rightarrow> bool" where
  "password_ok row password =
    (case row of
       None \<Rightarrow> password = SAFEBOX_DEFAULT_PASSWORD
     | Some r \<Rightarrow> if br_password r = [] then password = SAFEBOX_DEFAULT_PASSWORD
                 else br_password r = password)"

text \<open>
  \<open>now\<close> is the clock in milliseconds, \<open>found\<close> what the query for the items of the account answers
  (SQL promises no order).
\<close>

definition safebox_open :: "nat \<Rightarrow> ItemRow list \<Rightarrow> string \<Rightarrow> unit handler" where
  "safebox_open now found password =
    (if password = [] \<or> SAFEBOX_PASSWORD_MAX_LEN < length password
     then gm_info ''<Safebox> Wrong password.''
     else hget (\<lambda>v.
       if c_box v \<noteq> None then gm_info ''<Safebox> The safebox is already open.''
       else if (case c_cooldown v of Some until \<Rightarrow> now < until | None \<Rightarrow> False)
       then gm_info ''<Safebox> You can only open the safebox once every 10 seconds.''
       else
         hbind (hquery ''SAFEBOX_LOAD'' (\<lambda>w. c_boxes w (c_account w))) (\<lambda>row.
         if \<not> password_ok row password
         then send (TPacketGCSafeboxWrongPassword_to_bytes TPacketGCSafeboxWrongPassword_new)
         else
           (let n = (case row of Some r \<Rightarrow> br_size r | None \<Rightarrow> 0)
            in hbind (hquery ''SAFEBOX_GOLD''
                  (\<lambda>w. case c_boxes w (c_account w) of Some r \<Rightarrow> br_gold r | None \<Rightarrow> 0)) (\<lambda>gold.
               if \<not> is_valid_gold gold then hfail ''SAFEBOX_GOLD''
               else
                 hbind (hquery ''SAFEBOX_ITEM_LOAD'' (\<lambda>_. found)) (\<lambda>items.
                 hbind (send (TPacketGCSafeboxSize_to_bytes (TPacketGCSafeboxSize_new (ucast n)))) (\<lambda>_.
                 hbind (send_all (map (\<lambda>i. set_packet i (word_of_int (row_pos i)))
                          (filter (\<lambda>i. word_of_int (row_pos i) < slots_of n) items))) (\<lambda>_.
                 hmod (\<lambda>w. w\<lparr>c_box := Some \<lparr>bx_size = n, bx_gold = gold, bx_items = items\<rparr>\<rparr>)))))))))"

definition safebox_close :: "nat \<Rightarrow> unit handler" where
  "safebox_close now = hget (\<lambda>v.
    (case c_box v of
       None \<Rightarrow> hret ()
     | Some st \<Rightarrow>
         if \<not> is_valid_gold (bx_gold st) then hfail ''SAFEBOX_GOLD''
         else
           hbind (hmod (\<lambda>w. w\<lparr>c_box := None\<rparr>)) (\<lambda>_.
           hbind (hignore (set_gold (bx_gold st))) (\<lambda>_.
           hbind (hmod (\<lambda>w. w\<lparr>c_cooldown := Some (now + REOPEN_COOLDOWN)\<rparr>)) (\<lambda>_.
           send (chat_packet CHAT_TYPE_COMMAND v ''CloseSafebox''))))))"

text \<open>What the connection does at its end (\<^verbatim>\<open>game.rs\<close>, \<^verbatim>\<open>run\<close>), whatever ended the game loop.\<close>

definition end_session :: "nat \<Rightarrow> unit handler" where
  "end_session now = hbind (hignore (safebox_close now)) (\<lambda>_. save)"

definition safebox_change_password :: "string \<Rightarrow> string \<Rightarrow> unit handler" where
  "safebox_change_password old new =
    (if old = [] \<or> new = [] \<or> SAFEBOX_PASSWORD_MAX_LEN < length old \<or> SAFEBOX_PASSWORD_MAX_LEN < length new
     then gm_info ''<Safebox> Wrong password.''
     else hbind (repo_change_password old new) (\<lambda>changed.
       gm_info (if changed then ''<Safebox> Your safebox password has been changed.''
                else ''<Safebox> The current password is wrong.'')))"

definition safebox_set_size :: "u8 \<Rightarrow> unit handler" where
  "safebox_set_size n =
    (let n = (if SAFEBOX_SIZE_MAX < n then 0 else n)
     in hbind (send (TPacketGCSafeboxSize_to_bytes (TPacketGCSafeboxSize_new n))) (\<lambda>_.
        hbind (hmod (\<lambda>v. v\<lparr>c_box := map_option
                 (\<lambda>st. if sint (bx_size st) < uint n then st\<lparr>bx_size := ucast n\<rparr> else st) (c_box v)\<rparr>)) (\<lambda>_.
        repo_set_size (ucast n))))"

section \<open>The handlers of the game loop\<close>

text \<open>\<^verbatim>\<open>i.pos as u16 == c\<close>, whatever the window.\<close>

definition stands_at :: "u16 \<Rightarrow> ItemRow \<Rightarrow> bool" where
  "stands_at c r \<longleftrightarrow> word_of_int (row_pos r) = c"

definition default_proto :: "(int \<Rightarrow> SafeboxProto option) \<Rightarrow> int \<Rightarrow> SafeboxProto" where
  "default_proto ps u = (case ps u of Some p \<Rightarrow> p | None \<Rightarrow> no_proto)"

text \<open>The quick slots that show the cell are cleared before the item leaves the inventory.\<close>

definition drop_refs :: "u16 \<Rightarrow> unit handler" where
  "drop_refs c = hget (\<lambda>v.
     (case clear_item_refs (blob (c_quickslot v)) c of (qblob, cleared) \<Rightarrow>
        if cleared = [] then hret ()
        else hbind (send_all (map (\<lambda>p. TPacketGCQuickSlotDel_to_bytes (TPacketGCQuickSlotDel_new p)) cleared))
               (\<lambda>_. hmod (\<lambda>w. w\<lparr>c_quickslot := Some qblob\<rparr>))))"

definition move_in :: "nat \<Rightarrow> ItemRow \<Rightarrow> u16 \<Rightarrow> u8 \<Rightarrow> unit handler" where
  "move_in idx r c p =
    (let r' = r\<lparr>row_window := ''SAFEBOX'', row_pos := uint p\<rparr>
     in hbind (hmod (\<lambda>v. v\<lparr>c_bag := remove_nth idx (c_bag v)\<rparr>)) (\<lambda>_.
        hbind (send (TPacketGCItemDelDeprecated_to_bytes
                 (TPacketGCItemDelDeprecated_new \<lparr>window = WINDOW_INVENTORY, TItemPos.cell = c\<rparr> 0 0))) (\<lambda>_.
        hbind (hget (\<lambda>v. upsert r' (c_account v))) (\<lambda>_.
        hbind (send (set_packet r' (ucast p))) (\<lambda>_.
        hbind (box_items (\<lambda>items. items @ [r'])) (\<lambda>_. save))))))"

definition handle_checkin :: "(int \<Rightarrow> (i16 \<times> int \<times> int) option) \<Rightarrow> bytes \<Rightarrow> unit handler" where
  "handle_checkin protos pkt =
    (case TPacketCGSafeboxCheckin_from_bytes pkt of
       Inl e \<Rightarrow> hret ()
     | Inr p \<Rightarrow> hget (\<lambda>v.
        (let ip = TPacketCGSafeboxCheckin.item_pos p; sp = TPacketCGSafeboxCheckin.b_safe_pos p; c = TItemPos.cell ip
         in case c_box v of
              None \<Rightarrow> hret ()
            | Some st \<Rightarrow>
                if window ip \<noteq> WINDOW_INVENTORY \<or> INVENTORY_MAX_NUM \<le> c then hret ()
                else case position (\<lambda>r. row_window r = ''INVENTORY'' \<and> stands_at c r) (c_bag v) of
                       None \<Rightarrow> hret ()
                     | Some idx \<Rightarrow>
                         (let r = c_bag v ! idx
                          in hbind (load_safebox_proto protos (map row_vnum (bx_items st) @ [row_vnum r])) (\<lambda>ps.
                             (let proto = default_proto ps (row_vnum r)
                              in if \<not> checkin_gate (row_vnum r) (max (sp_size proto) 1) (sp_antiflag proto) (ucast sp)
                                       (slots st) (occupied_cells ps (bx_items st))
                                 then hret ()
                                 else hbind (drop_refs c) (\<lambda>_. move_in idx r c sp)))))))"

definition belt_gate :: "(int \<Rightarrow> ProtoUse option) \<Rightarrow> ItemRow list \<Rightarrow> int \<Rightarrow> u16 \<Rightarrow> bool handler" where
  "belt_gate uses bag u c =
     hbind (hquery ''ITEM_PROTO_USE'' (\<lambda>_. uses u)) (\<lambda>pr.
     (case pr of
        None \<Rightarrow> hret False
      | Some q \<Rightarrow>
          if \<not> can_move_into_belt (pu_type q) (pu_sub_type q) then hret False
          else case equipped_belt bag of
                 None \<Rightarrow> hret False
               | Some b \<Rightarrow>
                   hbind (hquery ''ITEM_PROTO_USE'' (\<lambda>_. uses (row_vnum b))) (\<lambda>bp.
                   (case bp of
                      None \<Rightarrow> hret False
                    | Some bq \<Rightarrow>
                        hret (is_available_cell c (pu_values bq ! 0)
                              \<and> \<not> list_ex (\<lambda>i. row_window i = ''BELT_INVENTORY'' \<and> row_pos i = belt_pos_of c) bag)))))"

definition move_out :: "nat \<Rightarrow> ItemRow \<Rightarrow> u8 \<Rightarrow> u8 \<Rightarrow> u16 \<Rightarrow> ItemRow \<Rightarrow> unit handler" where
  "move_out idx r p win c r' =
     hbind (box_items (remove_nth idx)) (\<lambda>_.
     hbind (send (TPacketGCItemDel_to_bytes (TPacketGCItemDel_new p))) (\<lambda>_.
     hbind (hget (\<lambda>v. upsert r' (c_owner v))) (\<lambda>_.
     hbind (send (TPacketGCItemSet_to_bytes (item_set 21 win c r'))) (\<lambda>_.
     hbind (hmod (\<lambda>v. v\<lparr>c_bag := c_bag v @ [r']\<rparr>)) (\<lambda>_. save)))))"

definition handle_checkout ::
    "(int \<Rightarrow> (i16 \<times> int \<times> int) option) \<Rightarrow> (int \<Rightarrow> ProtoUse option) \<Rightarrow> bytes \<Rightarrow> unit handler" where
  "handle_checkout protos uses pkt =
    (case TPacketCGSafeboxCheckout_from_bytes pkt of
       Inl e \<Rightarrow> hret ()
     | Inr p \<Rightarrow> hget (\<lambda>v.
        (let ip = TPacketCGSafeboxCheckout.item_pos p; sp = TPacketCGSafeboxCheckout.b_safe_pos p;
             c = TItemPos.cell ip;
             is_ds = (window ip = WINDOW_DRAGON_SOUL); is_inv = (window ip = WINDOW_INVENTORY)
         in case c_box v of
              None \<Rightarrow> hret ()
            | Some st \<Rightarrow>
                if \<not> (is_ds \<or> is_inv) then hret ()
                else if is_ds \<and> DRAGON_SOUL_INVENTORY_MAX_NUM \<le> c then hret ()
                else if is_inv \<and> INVENTORY_MAX_NUM \<le> c \<and> \<not> is_belt_cell ip then hret ()
                else case position (stands_at (ucast sp)) (bx_items st) of
                       None \<Rightarrow> hret ()
                     | Some idx \<Rightarrow>
                         (let r = bx_items st ! idx; u = row_vnum r
                          in hbind (hquery ''ITEM_PROTO_USE'' (\<lambda>_. uses u)) (\<lambda>pr.
                             if (case pr of Some q \<Rightarrow> pu_type q = ITEM_DS | None \<Rightarrow> False) \<noteq> is_ds then hret ()
                             else if is_ds \<and> list_ex (\<lambda>i. row_window i = ''DRAGON_SOUL_INVENTORY'' \<and> stands_at c i) (c_bag v)
                             then hret ()
                             else hbind (load_safebox_proto protos (map row_vnum (c_bag v) @ [u])) (\<lambda>ps.
                               (let to_belt = (\<not> is_ds \<and> is_belt_cell ip)
                                in hbind (if to_belt then belt_gate uses (c_bag v) u c
                                          else hret (is_ds \<or> strip_fits c (size_in ps u) INVENTORY_MAX_NUM
                                                 (Some INVENTORY_PAGE_CELLS)
                                                 (occupied_cells ps (filter (\<lambda>i. row_window i = ''INVENTORY'') (c_bag v)))))
                                     (\<lambda>fits.
                                       if \<not> fits then hret ()
                                       else move_out idx r sp (if is_ds then WINDOW_DRAGON_SOUL else WINDOW_INVENTORY) c
                                              (if is_ds then r\<lparr>row_window := ''DRAGON_SOUL_INVENTORY'', row_pos := uint c\<rparr>
                                               else place_at r to_belt c)))))))))"

definition move_free :: "nat \<Rightarrow> ItemRow \<Rightarrow> u16 \<Rightarrow> u16 \<Rightarrow> unit handler" where
  "move_free idx r a b =
    (let r' = r\<lparr>row_pos := uint b\<rparr>
     in hbind (box_items (remove_nth idx)) (\<lambda>_.
        hbind (hget (\<lambda>v. upsert r' (c_account v))) (\<lambda>_.
        hbind (send (TPacketGCItemDel_to_bytes (TPacketGCItemDel_new (ucast a)))) (\<lambda>_.
        hbind (send (set_packet r' b)) (\<lambda>_.
        box_items (\<lambda>items. items @ [r']))))))"

text \<open>\<^verbatim>\<open>&st.items[i]\<close>: an index past the end is a panic.\<close>

definition box_nth :: "nat \<Rightarrow> (ItemRow \<Rightarrow> unit handler) \<Rightarrow> unit handler" where
  "box_nth i k = hget (\<lambda>v.
     (case c_box v of
        None \<Rightarrow> hpanic ''caja abierta''
      | Some st \<Rightarrow> if i < length (bx_items st) then k (bx_items st ! i) else hpanic ''index out of bounds''))"

definition write_stack :: "nat \<Rightarrow> ItemRow \<Rightarrow> int \<Rightarrow> u16 \<Rightarrow> unit handler" where
  "write_stack i r n c =
     hbind (hget (\<lambda>v. upsert (r\<lparr>row_count := n\<rparr>) (c_account v))) (\<lambda>_.
     hbind (send (set_packet (r\<lparr>row_count := n\<rparr>) c)) (\<lambda>_.
     box_items (\<lambda>items. items[i := (items ! i)\<lparr>row_count := n\<rparr>])))"

definition stack_amount :: "int \<Rightarrow> int \<Rightarrow> int \<Rightarrow> int" where
  "stack_amount want src_count dst_count =
     min (min (if want = 0 then src_count else want) (wrap_i64 (ITEM_COUNT_LIMIT - dst_count))) src_count"

definition move_stack :: "nat \<Rightarrow> nat \<Rightarrow> ItemRow \<Rightarrow> ItemRow \<Rightarrow> int \<Rightarrow> u16 \<Rightarrow> u16 \<Rightarrow> unit handler" where
  "move_stack src_idx dst_idx src dst amount a b =
    (let src_new = row_count src - amount; dst_new = row_count dst + amount
     in hbind (if src_new \<le> 0
               then hbind (send (TPacketGCItemDel_to_bytes (TPacketGCItemDel_new (ucast a)))) (\<lambda>_.
                    hbind (delete_item (row_id src)) (\<lambda>_.
                    box_items (remove_nth src_idx)))
               else write_stack src_idx src src_new a)
          (\<lambda>_. box_nth dst_idx (\<lambda>d. write_stack dst_idx d dst_new b)))"

definition handle_item_move :: "(int \<Rightarrow> (i16 \<times> int \<times> int) option) \<Rightarrow> bytes \<Rightarrow> unit handler" where
  "handle_item_move protos pkt =
    (case TPacketCGItemMove_from_bytes pkt of
       Inl e \<Rightarrow> hret ()
     | Inr mv \<Rightarrow>
        (let a = TItemPos.cell (TPacketCGItemMove.pos mv); b = TItemPos.cell (TPacketCGItemMove.change_pos mv)
         in if a = b then hret ()
            else hget (\<lambda>v.
             (case c_box v of
                None \<Rightarrow> hret ()
              | Some st \<Rightarrow>
                  if slots st \<le> a \<or> slots st \<le> b then hret ()
                  else case position (stands_at a) (bx_items st) of
                         None \<Rightarrow> hret ()
                       | Some src_idx \<Rightarrow>
                           (let src = bx_items st ! src_idx
                            in hbind (load_safebox_proto protos (map row_vnum (bx_items st))) (\<lambda>ps.
                               case position (stands_at b) (bx_items st) of
                                 None \<Rightarrow>
                                   if \<not> strip_fits b (size_in ps (row_vnum src)) (slots st) None
                                          (occupied_cells ps (bx_items st))
                                   then hret () else move_free src_idx src a b
                               | Some dst_idx \<Rightarrow>
                                   if src_idx = dst_idx then hret ()
                                   else
                                     (let dst = bx_items st ! dst_idx; proto = default_proto ps (row_vnum dst);
                                          amount = stack_amount (uint (TPacketCGItemMove.num mv)) (row_count src) (row_count dst)
                                      in if row_vnum src \<noteq> row_vnum dst \<or> row_sockets src \<noteq> row_sockets dst
                                            \<or> \<not> stackable_dst (sp_flag proto) (sp_antiflag proto) then hret ()
                                         else if amount \<le> 0 then hret ()
                                         else move_stack src_idx dst_idx src dst amount a b)))))))"

definition i32_of :: "int \<Rightarrow> (int \<Rightarrow> unit handler) \<Rightarrow> unit handler" where
  "i32_of g k = (if - (2 ^ 31) \<le> g \<and> g < 2 ^ 31 then k g else hfail ''i32'')"

definition handle_money :: "bytes \<Rightarrow> unit handler" where
  "handle_money pkt =
    (case TPacketCGSafeboxMoney_from_bytes pkt of
       Inl e \<Rightarrow> hret ()
     | Inr p \<Rightarrow> hget (\<lambda>v.
        (case c_box v of
           None \<Rightarrow> hret ()
         | Some st \<Rightarrow>
             (let money = sint (TPacketCGSafeboxMoney.l_money p)
              in if money \<le> 0 then hret ()
                 else case checked_safebox_money (c_gold v) (bx_gold st) money (b_state p) of
                        None \<Rightarrow> hret ()
                      | Some (a, b) \<Rightarrow>
                          i32_of a (\<lambda>a.
                          hbind (hmod (\<lambda>w. w\<lparr>c_gold := a\<rparr>)) (\<lambda>_.
                          i32_of b (\<lambda>b.
                          hbind (hmod (\<lambda>w. w\<lparr>c_box := map_option (\<lambda>st. st\<lparr>bx_gold := b\<rparr>) (c_box w)\<rparr>)) (\<lambda>_.
                          hbind (hcall ''send'' (\<lambda>w. w\<lparr>c_sent := c_sent w @ [PointsPacket (c_gold w)]\<rparr>)) (\<lambda>_.
                          hbind (send (TPacketGCSafeboxMoneyChange_to_bytes (TPacketGCSafeboxMoneyChange_new (word_of_int b)))) (\<lambda>_.
                          hbind save (\<lambda>_.
                          set_gold b)))))))))))"

end
