(* ===== verification/SafeboxRun.thy ===== *)
theory SafeboxRun
  imports Safebox
begin

text \<open>
  What the safebox keeps: the sessions of one account over the item table, with every call that
  may fail. The locale \<open>guarded_session\<close> is the contract of the handlers: a good session stays
  good while the handlers return, and what is stored stays sound when one of them fails.
\<close>

section \<open>Sessions that end at the first failure\<close>

fun run_ops :: "('o \<Rightarrow> unit handler) \<Rightarrow> 'o list \<Rightarrow> Conn \<Rightarrow> bool \<times> Conn" where
  "run_ops hop [] v = (True, v)"
| "run_ops hop (x # xs) v =
    (case hop x v of (Returned _, w) \<Rightarrow> run_ops hop xs w | (_, w) \<Rightarrow> (False, w))"

locale guarded_session =
  fixes good stored :: "Conn \<Rightarrow> bool" and hop :: "'o \<Rightarrow> unit handler" and allowed :: "'o \<Rightarrow> Conn \<Rightarrow> bool"
  assumes good_stored: "good v \<Longrightarrow> stored v"
    and keeps: "good v \<Longrightarrow> allowed x v \<Longrightarrow> wp (hop x) (\<lambda>_. good) (\<lambda>_. stored) v"
begin

lemma returns_good: "good v \<Longrightarrow> allowed x v \<Longrightarrow> hop x v = (Returned (), w) \<Longrightarrow> good w"
  using keeps [of v x] by (simp add: wp_def)

lemma always_stored: "good v \<Longrightarrow> allowed x v \<Longrightarrow> stored (snd (hop x v))"
  using keeps [of v x] by (auto simp: wp_def good_stored split: prod.splits answer.splits)

lemma run_good:
  assumes "good v" and "\<And>x w. good w \<Longrightarrow> allowed x w" and "run_ops hop xs v = (alive, w)"
  shows "stored w \<and> (alive \<longrightarrow> good w)"
  using assms(1,3)
proof (induction xs arbitrary: v)
  case (Cons x xs)
  obtain r u where u: "hop x v = (r, u)" by fastforce
  show ?case
  proof (cases r)
    case (Returned y)
    with u Cons show ?thesis using returns_good [of v x u] assms(2) by auto
  next
    case (Refused e)
    with u Cons show ?thesis using always_stored [of v x] assms(2) by auto
  next
    case (Crashed_at e)
    with u Cons show ?thesis using always_stored [of v x] assms(2) by auto
  qed
qed (simp add: good_stored)

end

text \<open>The quick slots: no two of them show the same thing.\<close>

datatype BarOp = BarAdd bytes | BarDel bytes | BarSwap bytes

fun run_bar :: "BarOp \<Rightarrow> unit handler" where
  "run_bar (BarAdd pkt) = quickslot_handle_add pkt"
| "run_bar (BarDel pkt) = quickslot_handle_del pkt"
| "run_bar (BarSwap pkt) = quickslot_handle_swap pkt"

interpretation bar: guarded_session "\<lambda>v. bar_ok (shown v)" "\<lambda>v. bar_ok (shown v)" run_bar "\<lambda>x v. True"
proof
  fix v x
  assume "bar_ok (shown v)"
  then show "wp (run_bar x) (\<lambda>_ v. bar_ok (shown v)) (\<lambda>_ v. bar_ok (shown v)) v"
    by (cases x) (simp_all add: wp_quickslot_add wp_quickslot_del wp_quickslot_swap)
qed

theorem quick_slots_show_one_thing_once:
  assumes "bar_ok (shown v)"
  shows "bar_ok (shown (snd (run_ops run_bar ops v)))"
proof -
  obtain alive w where w: "run_ops run_bar ops v = (alive, w)" by fastforce
  from bar.run_good [OF assms TrueI w] have "bar_ok (shown w)" by (rule conjunct1)
  with w show ?thesis by simp
qed

section \<open>The rows of the item table\<close>

definition keyed :: "item_table \<Rightarrow> bool" where
  "keyed t \<longleftrightarrow> (\<forall>i owner r. t i = Some (owner, r) \<longrightarrow> row_id r = i \<and> i \<noteq> 0)"

definition rows_in :: "(string \<Rightarrow> bool) \<Rightarrow> int \<Rightarrow> item_table \<Rightarrow> ItemRow set" where
  "rows_in W owner t = {r. \<exists>i. t i = Some (owner, r) \<and> W (row_window r)}"

abbreviation box_rows :: "int \<Rightarrow> item_table \<Rightarrow> ItemRow set" where
  "box_rows \<equiv> rows_in (\<lambda>w. w = ''SAFEBOX'')"

abbreviation inventory_rows :: "int \<Rightarrow> item_table \<Rightarrow> ItemRow set" where
  "inventory_rows \<equiv> rows_in (\<lambda>w. w = ''INVENTORY'')"

text \<open>The windows \<^verbatim>\<open>load_by_owner\<close> asks for.\<close>

definition own_window :: "string \<Rightarrow> bool" where
  "own_window w \<longleftrightarrow> w \<in> {''INVENTORY'', ''EQUIPMENT'', ''DRAGON_SOUL_INVENTORY'', ''BELT_INVENTORY''}"

abbreviation own_rows :: "int \<Rightarrow> item_table \<Rightarrow> ItemRow set" where
  "own_rows \<equiv> rows_in own_window"

lemma rows_in_key: "keyed t \<Longrightarrow> r \<in> rows_in W owner t \<longleftrightarrow> t (row_id r) = Some (owner, r) \<and> W (row_window r)"
  by (auto simp: rows_in_def keyed_def)

lemma rows_unique: "keyed t \<Longrightarrow> r \<in> rows_in W o1 t \<Longrightarrow> r' \<in> rows_in W' o2 t \<Longrightarrow> row_id r = row_id r' \<Longrightarrow> r = r'"
  by (simp add: rows_in_key)

lemma keyed_put: "keyed t \<Longrightarrow> row_id r \<noteq> 0 \<Longrightarrow> keyed (t(row_id r \<mapsto> (owner, r)))"
  by (auto simp: keyed_def)

lemma keyed_delete: "keyed t \<Longrightarrow> keyed (t(i := None))"
  by (auto simp: keyed_def)

lemma rows_put:
  assumes "keyed t" and "row_id r \<noteq> 0"
  shows "rows_in W owner (t(row_id r \<mapsto> (o1, r))) =
    {x \<in> rows_in W owner t. row_id x \<noteq> row_id r} \<union> (if o1 = owner \<and> W (row_window r) then {r} else {})"
proof (rule set_eqI)
  fix x
  show "x \<in> rows_in W owner (t(row_id r \<mapsto> (o1, r))) \<longleftrightarrow>
      x \<in> {x \<in> rows_in W owner t. row_id x \<noteq> row_id r} \<union> (if o1 = owner \<and> W (row_window r) then {r} else {})"
    using rows_in_key [OF keyed_put [OF assms], of x W owner o1] rows_in_key [OF assms(1), of x W owner]
    by (cases "row_id x = row_id r") auto
qed

lemma rows_delete:
  assumes "keyed t"
  shows "rows_in W owner (t(i := None)) = {x \<in> rows_in W owner t. row_id x \<noteq> i}"
proof (rule set_eqI)
  fix x
  show "x \<in> rows_in W owner (t(i := None)) \<longleftrightarrow> x \<in> {x \<in> rows_in W owner t. row_id x \<noteq> i}"
    using rows_in_key [OF keyed_delete [OF assms], of x W owner i] rows_in_key [OF assms, of x W owner]
    by (cases "row_id x = i") auto
qed

section \<open>Strips\<close>

definition size_at :: "(int \<Rightarrow> (i16 \<times> int \<times> int) option) \<Rightarrow> int \<Rightarrow> u16" where
  "size_at protos u = (case protos u of Some (n, a, f) \<Rightarrow> word_of_int (max (sint n) 1) | None \<Rightarrow> 1)"

definition strip :: "(int \<Rightarrow> (i16 \<times> int \<times> int) option) \<Rightarrow> ItemRow \<Rightarrow> u16 set" where
  "strip protos r = set (strip_cells (word_of_int (row_pos r)) (size_at protos (row_vnum r)))"

definition apart :: "(int \<Rightarrow> (i16 \<times> int \<times> int) option) \<Rightarrow> ItemRow set \<Rightarrow> bool" where
  "apart protos R \<longleftrightarrow> (\<forall>r \<in> R. \<forall>r' \<in> R. r \<noteq> r' \<longrightarrow> strip protos r \<inter> strip protos r' = {})"

lemma apart_subset: "apart protos R \<Longrightarrow> R' \<subseteq> R \<Longrightarrow> apart protos R'"
  unfolding apart_def by blast

lemma apart_insert:
  "apart protos R \<Longrightarrow> (\<And>r. r \<in> R \<Longrightarrow> r \<noteq> x \<Longrightarrow> strip protos x \<inter> strip protos r = {}) \<Longrightarrow> apart protos (insert x R)"
  unfolding apart_def by blast

text \<open>A row changed without changing its strip.\<close>

lemma apart_replace:
  assumes "apart protos R" and "r \<in> R" and "strip protos r' = strip protos r"
  shows "apart protos (insert r' (R - {r}))"
  using assms unfolding apart_def by blast

section \<open>Sound tables, good sessions\<close>

definition table_sound :: "(int \<Rightarrow> (i16 \<times> int \<times> int) option) \<Rightarrow> int \<Rightarrow> item_table \<Rightarrow> bool" where
  "table_sound protos account t \<longleftrightarrow> keyed t \<and> apart protos (box_rows account t)"

definition box_sound :: "int \<Rightarrow> item_table \<Rightarrow> SafeboxState option \<Rightarrow> bool" where
  "box_sound account t box \<longleftrightarrow>
    (case box of
       None \<Rightarrow> True
     | Some st \<Rightarrow> distinct (bx_items st) \<and> set (bx_items st) = box_rows account t \<and> is_valid_gold (bx_gold st))"

definition bag_sound :: "int \<Rightarrow> item_table \<Rightarrow> ItemRow list \<Rightarrow> int \<Rightarrow> bool" where
  "bag_sound owner t bag purse \<longleftrightarrow> distinct bag \<and> set bag = own_rows owner t \<and> is_valid_gold purse"

definition table_ok :: "(int \<Rightarrow> (i16 \<times> int \<times> int) option) \<Rightarrow> Conn \<Rightarrow> bool" where
  "table_ok protos v \<longleftrightarrow> table_sound protos (c_account v) (c_items v)"

definition vault_ok :: "(int \<Rightarrow> (i16 \<times> int \<times> int) option) \<Rightarrow> Conn \<Rightarrow> bool" where
  "vault_ok protos v \<longleftrightarrow> table_sound protos (c_account v) (c_items v)
     \<and> box_sound (c_account v) (c_items v) (c_box v)
     \<and> bag_sound (c_owner v) (c_items v) (c_bag v) (c_gold v)"

lemma vault_talk [simp]:
  "vault_ok protos (v\<lparr>c_sent := s\<rparr>) = vault_ok protos v" "vault_ok protos (v\<lparr>c_faults := fs\<rparr>) = vault_ok protos v"
  "table_ok protos (v\<lparr>c_sent := s\<rparr>) = table_ok protos v" "table_ok protos (v\<lparr>c_faults := fs\<rparr>) = table_ok protos v"
  by (simp_all add: vault_ok_def table_ok_def)

lemma vault_table: "vault_ok protos v \<Longrightarrow> table_ok protos v"
  by (simp add: vault_ok_def table_ok_def)

section \<open>Changes of one row\<close>

text \<open>What a row of the box may become: the new table is sound, and the box and the bag follow.\<close>

lemma sound_put:
  assumes t: "table_sound protos account t" and r: "row_id r \<noteq> 0"
    and box: "o1 = account \<Longrightarrow> row_window r = ''SAFEBOX'' \<Longrightarrow>
      (\<And>x. x \<in> box_rows account t \<Longrightarrow> row_id x \<noteq> row_id r \<Longrightarrow> strip protos r \<inter> strip protos x = {})"
  shows "table_sound protos account (t(row_id r \<mapsto> (o1, r)))"
proof -
  have k: "keyed t" and a: "apart protos (box_rows account t)" using t by (simp_all add: table_sound_def)
  have "apart protos (box_rows account (t(row_id r \<mapsto> (o1, r))))"
  proof (cases "o1 = account \<and> row_window r = ''SAFEBOX''")
    case True
    have "apart protos (insert r {x \<in> box_rows account t. row_id x \<noteq> row_id r})"
      by (rule apart_insert [OF apart_subset [OF a]]) (use box True in auto)
    with True show ?thesis by (simp add: rows_put [OF k r])
  next
    case False
    then have "box_rows account (t(row_id r \<mapsto> (o1, r))) \<subseteq> box_rows account t"
      by (auto simp: rows_put [OF k r])
    with a show ?thesis by (rule apart_subset)
  qed
  then show ?thesis using keyed_put [OF k r] by (simp add: table_sound_def)
qed

lemma sound_delete:
  assumes "table_sound protos account t"
  shows "table_sound protos account (t(i := None))"
  using assms apart_subset unfolding table_sound_def
  by (metis (no_types, lifting) keyed_delete mem_Collect_eq rows_delete subsetI)

lemma rows_but_one:
  assumes k: "keyed t" and r: "t (row_id r) = Some (o0, r)"
  shows "{x \<in> rows_in W owner t. row_id x \<noteq> row_id r} = rows_in W owner t - {r}"
proof (rule set_eqI)
  fix x
  show "x \<in> {x \<in> rows_in W owner t. row_id x \<noteq> row_id r} \<longleftrightarrow> x \<in> rows_in W owner t - {r}"
  proof (cases "row_id x = row_id r")
    case True
    have "x \<notin> rows_in W owner t - {r}"
    proof
      assume "x \<in> rows_in W owner t - {r}"
      then have "t (row_id x) = Some (owner, x)" and "x \<noteq> r" by (simp_all add: rows_in_key [OF k])
      with True r show False by simp
    qed
    with True show ?thesis by simp
  next
    case False
    then have "x \<noteq> r" by auto
    with False show ?thesis by simp
  qed
qed

lemma rows_replace:
  assumes k: "keyed t" and r: "t (row_id r) = Some (o0, r)" and i: "row_id r' = row_id r"
  shows "rows_in W owner (t(row_id r' \<mapsto> (o1, r'))) =
    (rows_in W owner t - {r}) \<union> (if o1 = owner \<and> W (row_window r') then {r'} else {})"
proof -
  have "row_id r' \<noteq> 0" using k r unfolding i keyed_def by metis
  moreover have "{x \<in> rows_in W owner t. row_id x \<noteq> row_id r'} = rows_in W owner t - {r}"
    unfolding i by (rule rows_but_one [OF k r])
  ultimately show ?thesis by (simp add: rows_put [OF k])
qed

lemma rows_drop:
  assumes k: "keyed t" and r: "t (row_id r) = Some (o0, r)"
  shows "rows_in W owner (t(row_id r := None)) = rows_in W owner t - {r}"
  by (simp add: rows_delete [OF k] rows_but_one [OF k r])

text \<open>A row that is in neither window list may come and go unseen.\<close>

lemma not_in_rows: "keyed t \<Longrightarrow> t (row_id r) = Some (o0, r) \<Longrightarrow> \<not> W (row_window r) \<Longrightarrow> rows_in W owner t - {r} = rows_in W owner t"
  by (auto simp: rows_in_key)

lemma own_safebox [simp]: "\<not> own_window ''SAFEBOX''" "own_window w \<Longrightarrow> w \<noteq> ''SAFEBOX''"
  by (auto simp: own_window_def)

lemma box_row_at:
  assumes "table_sound protos account t" and "box_sound account t (Some st)" and "i < length (bx_items st)"
  shows "t (row_id (bx_items st ! i)) = Some (account, bx_items st ! i)
    \<and> row_window (bx_items st ! i) = ''SAFEBOX'' \<and> row_id (bx_items st ! i) \<noteq> 0"
proof -
  have "bx_items st ! i \<in> box_rows account t"
    using assms(2,3) nth_mem [OF assms(3)] by (auto simp: box_sound_def)
  then show ?thesis
    using assms(1) by (auto simp: table_sound_def rows_in_key keyed_def)
qed

lemma box_row_same:
  assumes "table_sound protos account t" and "box_sound account t (Some st)"
    and "x \<in> set (bx_items st)" and "y \<in> set (bx_items st)" and "row_id x = row_id y"
  shows "x = y"
  using assms rows_unique [of t x _ account y _ account] by (auto simp: box_sound_def table_sound_def)

lemma bag_row_at:
  assumes "table_sound protos account t" and "bag_sound owner t bag purse" and "i < length bag"
  shows "t (row_id (bag ! i)) = Some (owner, bag ! i) \<and> own_window (row_window (bag ! i)) \<and> row_id (bag ! i) \<noteq> 0"
proof -
  have "bag ! i \<in> own_rows owner t"
    using assms(2,3) nth_mem [OF assms(3)] by (auto simp: bag_sound_def)
  then show ?thesis
    using assms(1) by (auto simp: table_sound_def rows_in_key keyed_def)
qed

text \<open>A row of the box gets a new value with the same identifier.\<close>

lemma box_write:
  assumes t: "table_sound protos account t" and box: "box_sound account t (Some st)" and bag: "bag_sound owner t bag purse"
    and i: "i < length (bx_items st)" and r': "row_id r' = row_id (bx_items st ! i)" "row_window r' = ''SAFEBOX''"
    and items: "distinct items" "set items = insert r' (set (bx_items st) - {bx_items st ! i})"
    and free: "\<And>x. x \<in> box_rows account t \<Longrightarrow> x \<noteq> bx_items st ! i \<Longrightarrow> strip protos r' \<inter> strip protos x = {}"
  shows "table_sound protos account (t(row_id r' \<mapsto> (account, r')))
    \<and> box_sound account (t(row_id r' \<mapsto> (account, r'))) (Some (st\<lparr>bx_items := items\<rparr>))
    \<and> bag_sound owner (t(row_id r' \<mapsto> (account, r'))) bag purse"
proof (intro conjI)
  note at = box_row_at [OF t box i]
  have k: "keyed t" using t by (simp add: table_sound_def)
  note rep = rows_replace [OF k conjunct1 [OF at] r'(1)]
  show "table_sound protos account (t(row_id r' \<mapsto> (account, r')))"
    by (rule sound_put [OF t]) (use at r' free in auto)
  show "box_sound account (t(row_id r' \<mapsto> (account, r'))) (Some (st\<lparr>bx_items := items\<rparr>))"
    using box items r'(2) by (simp add: box_sound_def rep)
  show "bag_sound owner (t(row_id r' \<mapsto> (account, r'))) bag purse"
    using bag r'(2) at not_in_rows [OF k, of "bx_items st ! i" account own_window owner] by (simp add: bag_sound_def rep)
qed

lemma box_drop:
  assumes t: "table_sound protos account t" and box: "box_sound account t (Some st)" and bag: "bag_sound owner t bag purse"
    and i: "i < length (bx_items st)"
  shows "table_sound protos account (t(row_id (bx_items st ! i) := None))
    \<and> box_sound account (t(row_id (bx_items st ! i) := None)) (Some (st\<lparr>bx_items := remove_nth i (bx_items st)\<rparr>))
    \<and> bag_sound owner (t(row_id (bx_items st ! i) := None)) bag purse"
proof (intro conjI)
  note at = box_row_at [OF t box i]
  have k: "keyed t" using t by (simp add: table_sound_def)
  note rep = rows_drop [OF k conjunct1 [OF at]]
  show "table_sound protos account (t(row_id (bx_items st ! i) := None))"
    by (rule sound_delete [OF t])
  show "box_sound account (t(row_id (bx_items st ! i) := None)) (Some (st\<lparr>bx_items := remove_nth i (bx_items st)\<rparr>))"
    using box i distinct_remove_nth [of "\<lambda>x. x" "bx_items st" i] by (simp add: box_sound_def rep set_remove_nth)
  show "bag_sound owner (t(row_id (bx_items st ! i) := None)) bag purse"
    using bag at not_in_rows [OF k, of "bx_items st ! i" account own_window owner] by (simp add: bag_sound_def rep)
qed

section \<open>The handlers keep the session good\<close>

abbreviation kept :: "(int \<Rightarrow> (i16 \<times> int \<times> int) option) \<Rightarrow> unit handler \<Rightarrow> Conn \<Rightarrow> bool" where
  "kept protos m \<equiv> wp m (\<lambda>_. vault_ok protos) (\<lambda>_. table_ok protos)"

lemma put_item_nonzero: "row_id r \<noteq> 0 \<Longrightarrow> put_item r owner v = v\<lparr>c_items := (c_items v)(row_id r \<mapsto> (owner, r))\<rparr>"
  by (simp add: put_item_def)

lemma wp_upsert:
  assumes "row_id r \<noteq> 0"
    and "\<And>fs. Q () (v\<lparr>c_items := (c_items v)(row_id r \<mapsto> (owner, r)), c_faults := fs\<rparr>)"
    and "\<And>fs. E False (v\<lparr>c_items := (c_items v)(row_id r \<mapsto> (owner, r)), c_faults := fs\<rparr>)"
    and "\<And>fs. E False (v\<lparr>c_faults := fs\<rparr>)"
  shows "wp (upsert r owner) Q E v"
proof -
  have "put_item r owner (v\<lparr>c_faults := fs\<rparr>) = v\<lparr>c_items := (c_items v)(row_id r \<mapsto> (owner, r)), c_faults := fs\<rparr>" for fs
    using assms(1) by (simp add: put_item_nonzero)
  with assms(2-4) show ?thesis unfolding upsert_def by (intro wp_hcall) simp
qed

lemma wp_delete_item:
  assumes "\<And>fs. Q () (v\<lparr>c_items := (c_items v)(i := None), c_faults := fs\<rparr>)"
    and "\<And>fs. E False (v\<lparr>c_items := (c_items v)(i := None), c_faults := fs\<rparr>)"
    and "\<And>fs. E False (v\<lparr>c_faults := fs\<rparr>)"
  shows "wp (delete_item i) Q E v"
proof -
  have eq: "v\<lparr>c_faults := fs, c_items := (c_items v)(i := None)\<rparr> = v\<lparr>c_items := (c_items v)(i := None), c_faults := fs\<rparr>" for fs
    by simp
  with assms show ?thesis unfolding delete_item_def by (intro wp_hcall) (simp add: eq)
qed

lemma strip_count [simp]: "strip protos (r\<lparr>row_count := n\<rparr>) = strip protos r"
  by (simp add: strip_def)

lemma apart_rows: "apart protos R \<Longrightarrow> r \<in> R \<Longrightarrow> x \<in> R \<Longrightarrow> x \<noteq> r \<Longrightarrow> strip protos r \<inter> strip protos x = {}"
  unfolding apart_def by blast

lemma kept_write_stack:
  assumes v: "vault_ok protos v" and st: "c_box v = Some st" and i: "i < length (bx_items st)"
    and r: "r = bx_items st ! i"
    and Q: "\<And>w. vault_ok protos w \<Longrightarrow> c_box w = Some (st\<lparr>bx_items := (bx_items st)[i := r\<lparr>row_count := n\<rparr>]\<rparr>) \<Longrightarrow> Q () w"
    and E: "\<And>w. table_ok protos w \<Longrightarrow> E False w"
  shows "wp (write_stack i r n c) Q E v"
proof -
  let ?r = "r\<lparr>row_count := n\<rparr>"
  have t: "table_sound protos (c_account v) (c_items v)" and box: "box_sound (c_account v) (c_items v) (Some st)"
    and bag: "bag_sound (c_owner v) (c_items v) (c_bag v) (c_gold v)"
    using v st by (simp_all add: vault_ok_def)
  have at: "row_id r \<noteq> 0" "row_window r = ''SAFEBOX''" "r \<in> set (bx_items st)"
    using box_row_at [OF t box i] i by (simp_all add: r)
  have new: "table_sound protos (c_account v) ((c_items v)(row_id ?r \<mapsto> (c_account v, ?r)))
    \<and> box_sound (c_account v) ((c_items v)(row_id ?r \<mapsto> (c_account v, ?r))) (Some (st\<lparr>bx_items := (bx_items st)[i := ?r]\<rparr>))
    \<and> bag_sound (c_owner v) ((c_items v)(row_id ?r \<mapsto> (c_account v, ?r))) (c_bag v) (c_gold v)"
  proof (rule box_write [OF t box bag i])
    have "?r \<notin> set (bx_items st) - {bx_items st ! i}"
      using box_row_same [OF t box, of ?r "bx_items st ! i"] i by (auto simp: r)
    then show "distinct ((bx_items st)[i := ?r])"
      using box by (simp add: distinct_list_update box_sound_def)
    show "set ((bx_items st)[i := ?r]) = insert ?r (set (bx_items st) - {bx_items st ! i})"
      using box i by (simp add: set_update_distinct box_sound_def)
    show "strip protos ?r \<inter> strip protos x = {}" if "x \<in> box_rows (c_account v) (c_items v)" "x \<noteq> bx_items st ! i" for x
      using t box at that apart_rows [of protos "box_rows (c_account v) (c_items v)" r x]
      by (simp add: r table_sound_def box_sound_def)
  qed (simp_all add: r at [unfolded r])
  show ?thesis
    unfolding write_stack_def box_items_def wp_hbind wp_hget wp_hmod
    by (intro wp_upsert wp_send conjI Q E)
      (use new st at v in \<open>simp_all add: vault_ok_def table_ok_def flip: r\<close>)
qed

lemma wp_box_nth [simp]:
  "wp (box_nth i k) Q E = (\<lambda>v. case c_box v of
     None \<Rightarrow> E True v
   | Some st \<Rightarrow> if i < length (bx_items st) then wp (k (bx_items st ! i)) Q E v else E True v)"
  by (rule ext) (simp add: box_nth_def split: option.splits)

lemma kept_write_last:
  assumes "vault_ok protos v" and "c_box v = Some st"
  shows "kept protos (box_nth j (\<lambda>d. write_stack j d n b)) v"
  using assms by (auto simp: vault_table intro!: kept_write_stack [OF assms])

lemma kept_move_stack:
  assumes v: "vault_ok protos v" and st: "c_box v = Some st" and i: "i < length (bx_items st)"
    and src: "src = bx_items st ! i"
  shows "kept protos (move_stack i j src dst amount a b) v"
proof (cases "row_count src - amount \<le> 0")
  case False
  have "wp (write_stack i src (row_count src - amount) a)
      (\<lambda>_. kept protos (box_nth j (\<lambda>d. write_stack j d (row_count dst + amount) b))) (\<lambda>_. table_ok protos) v"
    by (rule kept_write_stack [OF v st i src]) (blast intro: kept_write_last)+
  with False show ?thesis by (simp add: move_stack_def Let_def del: wp_box_nth)
next
  case True
  have t: "table_sound protos (c_account v) (c_items v)" and box: "box_sound (c_account v) (c_items v) (Some st)"
    and bag: "bag_sound (c_owner v) (c_items v) (c_bag v) (c_gold v)"
    using v st by (simp_all add: vault_ok_def)
  note gone = box_drop [OF t box bag i, folded src]
  have "wp (hbind (send d) (\<lambda>_. hbind (delete_item (row_id src)) (\<lambda>_. box_items (remove_nth i))))
      (\<lambda>_. kept protos (box_nth j (\<lambda>d. write_stack j d (row_count dst + amount) b))) (\<lambda>_. table_ok protos) v" for d
    unfolding box_items_def wp_hbind wp_hmod
    by (intro wp_send wp_delete_item conjI kept_write_last)
      (use gone st v in \<open>simp_all add: vault_ok_def table_ok_def\<close>)
  with True show ?thesis by (simp add: move_stack_def Let_def del: wp_box_nth)
qed

section \<open>Gates\<close>

lemma size_in_rows: "u \<in> set us \<Longrightarrow> size_in (proto_rows protos us) u = size_at protos u"
  by (auto simp: size_in_def proto_rows_def size_at_def split: option.splits)

lemma size_pos: "max (word_of_int (max (sint (n :: i16)) 1) :: u16) 1 = word_of_int (max (sint n) 1)"
proof -
  have "max (sint n) 1 < 2 ^ 16" using wire_ranges(4) [of n] by simp
  then have "uint (word_of_int (max (sint n) 1) :: u16) = max (sint n) 1"
    by (simp add: uint_word_of_int take_bit_int_eq_self)
  then have "(1 :: u16) \<le> word_of_int (max (sint n) 1)" by (simp add: word_le_def)
  then show ?thesis by (simp add: max_def)
qed

lemma size_default: "u \<in> set us \<Longrightarrow> max (sp_size (default_proto (proto_rows protos us) u)) 1 = size_at protos u"
  by (auto simp: default_proto_def proto_rows_def size_at_def no_proto_def size_pos split: option.splits)

text \<open>A strip that fits is apart from every strip that was counted.\<close>

lemma fits_apart:
  assumes fits: "strip_fits p (size_at protos (row_vnum r)) cells page (occupied_cells (proto_rows protos us) rs)"
    and r': "word_of_int (row_pos r') = p" "row_vnum r' = row_vnum r"
    and x: "x \<in> set rs" "row_vnum x \<in> set us"
  shows "strip protos r' \<inter> strip protos x = {}"
proof -
  have "strip protos r' \<inter> set (occupied_cells (proto_rows protos us) rs) = {}"
    using fits r' by (auto simp: strip_fits_def strip_def list_all_iff)
  moreover have "strip protos x \<subseteq> set (occupied_cells (proto_rows protos us) rs)"
    using x by (auto simp: occupied_cells_def strip_def size_in_rows)
  ultimately show ?thesis by blast
qed

section \<open>Moving\<close>

lemma kept_move_free:
  assumes v: "vault_ok protos v" and st: "c_box v = Some st" and i: "i < length (bx_items st)"
    and r: "r = bx_items st ! i"
    and fits: "strip_fits b (size_at protos (row_vnum r)) cells page
      (occupied_cells (proto_rows protos (map row_vnum (bx_items st))) (bx_items st))"
  shows "kept protos (move_free i r a b) v"
proof -
  let ?r = "r\<lparr>row_pos := uint b\<rparr>"
  have t: "table_sound protos (c_account v) (c_items v)" and box: "box_sound (c_account v) (c_items v) (Some st)"
    and bag: "bag_sound (c_owner v) (c_items v) (c_bag v) (c_gold v)"
    using v st by (simp_all add: vault_ok_def)
  have at: "row_id r \<noteq> 0" "row_window r = ''SAFEBOX''" "r \<in> set (bx_items st)"
    using box_row_at [OF t box i] i by (simp_all add: r)
  have dist: "distinct (bx_items st)" and rows: "set (bx_items st) = box_rows (c_account v) (c_items v)"
    using box by (simp_all add: box_sound_def)
  have new: "table_sound protos (c_account v) ((c_items v)(row_id ?r \<mapsto> (c_account v, ?r)))
    \<and> box_sound (c_account v) ((c_items v)(row_id ?r \<mapsto> (c_account v, ?r)))
        (Some (st\<lparr>bx_items := remove_nth i (bx_items st) @ [?r]\<rparr>))
    \<and> bag_sound (c_owner v) ((c_items v)(row_id ?r \<mapsto> (c_account v, ?r))) (c_bag v) (c_gold v)"
  proof (rule box_write [OF t box bag i])
    have "?r \<notin> set (bx_items st) - {r}"
      using box_row_same [OF t box, of ?r r] at by auto
    then show "distinct (remove_nth i (bx_items st) @ [?r])"
      using dist i distinct_remove_nth [of "\<lambda>x. x" "bx_items st" i] by (simp add: set_remove_nth r)
    show "set (remove_nth i (bx_items st) @ [?r]) = insert ?r (set (bx_items st) - {bx_items st ! i})"
      using dist i by (auto simp: set_remove_nth)
    show "strip protos ?r \<inter> strip protos x = {}" if "x \<in> box_rows (c_account v) (c_items v)" "x \<noteq> bx_items st ! i" for x
      by (rule fits_apart [OF fits]) (use that rows in auto)
  qed (simp_all add: r at [unfolded r])
  show ?thesis
    unfolding move_free_def box_items_def wp_hbind wp_hget wp_hmod Let_def
    by (intro wp_upsert wp_send conjI) (use new st at v in \<open>simp_all add: vault_ok_def table_ok_def\<close>)
qed

lemma wp_load_proto:
  assumes "\<And>fs. Q (proto_rows protos us) (v\<lparr>c_faults := fs\<rparr>)" and "\<And>fs. E False (v\<lparr>c_faults := fs\<rparr>)"
  shows "wp (load_safebox_proto protos us) Q E v"
proof (cases "us = []")
  case True
  then have "(\<lambda>_. None) = proto_rows protos us" by (auto simp: proto_rows_def)
  with True show ?thesis using assms(1) [of "c_faults v"] by (simp add: load_safebox_proto_def)
next
  case False
  then show ?thesis using assms by (auto simp: load_safebox_proto_def intro!: wp_hquery)
qed

lemma kept_item_move:
  assumes v: "vault_ok protos v"
  shows "kept protos (handle_item_move protos pkt) v"
proof (cases "TPacketCGItemMove_from_bytes pkt")
  case (Inr mv)
  show ?thesis
  proof (cases "c_box v")
    case (Some st)
    let ?us = "map row_vnum (bx_items st)"
    have w: "vault_ok protos (v\<lparr>c_faults := fs\<rparr>)" "c_box (v\<lparr>c_faults := fs\<rparr>) = Some st" for fs
      using v Some by simp_all
    show ?thesis
      unfolding handle_item_move_def Inr sum.case Let_def
      using v Some w
      by (auto simp: vault_table size_in_rows dest!: position_Some split: option.splits
          intro!: wp_load_proto kept_move_free [OF w] kept_move_stack [OF w])
  qed (use Inr v in \<open>simp add: handle_item_move_def Let_def\<close>)
qed (simp add: handle_item_move_def v)

section \<open>In and out\<close>

lemma bag_to_box:
  assumes t: "table_sound protos account t" and box: "box_sound account t (Some st)" and bag: "bag_sound owner t bag purse"
    and i: "i < length bag" and r': "row_id r' = row_id (bag ! i)" "row_window r' = ''SAFEBOX''"
    and free: "\<And>x. x \<in> box_rows account t \<Longrightarrow> strip protos r' \<inter> strip protos x = {}"
  shows "table_sound protos account (t(row_id r' \<mapsto> (account, r')))
    \<and> box_sound account (t(row_id r' \<mapsto> (account, r'))) (Some (st\<lparr>bx_items := bx_items st @ [r']\<rparr>))
    \<and> bag_sound owner (t(row_id r' \<mapsto> (account, r'))) (remove_nth i bag) purse"
proof (intro conjI)
  note at = bag_row_at [OF t bag i]
  have k: "keyed t" using t by (simp add: table_sound_def)
  note rep = rows_replace [OF k conjunct1 [OF at] r'(1)]
  have other: "box_rows account t - {bag ! i} = box_rows account t"
    using not_in_rows [OF k conjunct1 [OF at], of "\<lambda>w. w = ''SAFEBOX''" account] at own_safebox(2) by blast
  have "r' \<notin> box_rows account t"
    using at r' own_safebox(2) by (auto simp: rows_in_key [OF k])
  then show "box_sound account (t(row_id r' \<mapsto> (account, r'))) (Some (st\<lparr>bx_items := bx_items st @ [r']\<rparr>))"
    using box r'(2) by (simp add: box_sound_def rep other)
  show "table_sound protos account (t(row_id r' \<mapsto> (account, r')))"
    by (rule sound_put [OF t]) (use at r' free in auto)
  show "bag_sound owner (t(row_id r' \<mapsto> (account, r'))) (remove_nth i bag) purse"
    using bag i r'(2) distinct_remove_nth [of "\<lambda>x. x" bag i] by (simp add: bag_sound_def rep set_remove_nth)
qed

lemma box_to_bag:
  assumes t: "table_sound protos account t" and box: "box_sound account t (Some st)" and bag: "bag_sound owner t bag purse"
    and i: "i < length (bx_items st)" and r': "row_id r' = row_id (bx_items st ! i)" "own_window (row_window r')"
  shows "table_sound protos account (t(row_id r' \<mapsto> (owner, r')))
    \<and> box_sound account (t(row_id r' \<mapsto> (owner, r'))) (Some (st\<lparr>bx_items := remove_nth i (bx_items st)\<rparr>))
    \<and> bag_sound owner (t(row_id r' \<mapsto> (owner, r'))) (bag @ [r']) purse"
proof (intro conjI)
  note at = box_row_at [OF t box i]
  have k: "keyed t" using t by (simp add: table_sound_def)
  note rep = rows_replace [OF k conjunct1 [OF at] r'(1)]
  have other: "own_rows owner t - {bx_items st ! i} = own_rows owner t"
    by (rule not_in_rows [OF k conjunct1 [OF at]]) (simp add: at)
  have window: "row_window r' \<noteq> ''SAFEBOX''" using own_safebox(2) r'(2) by blast
  have "r' \<notin> own_rows owner t"
    using at r' own_safebox(1) by (auto simp: rows_in_key [OF k])
  then show "bag_sound owner (t(row_id r' \<mapsto> (owner, r'))) (bag @ [r']) purse"
    using bag r'(2) by (simp add: bag_sound_def rep other)
  show "table_sound protos account (t(row_id r' \<mapsto> (owner, r')))"
    by (rule sound_put [OF t]) (use at r' window in auto)
  show "box_sound account (t(row_id r' \<mapsto> (owner, r'))) (Some (st\<lparr>bx_items := remove_nth i (bx_items st)\<rparr>))"
    using box i window distinct_remove_nth [of "\<lambda>x. x" "bx_items st" i] by (simp add: box_sound_def rep set_remove_nth)
qed

lemma vault_bar [simp]:
  "vault_ok protos (v\<lparr>c_quickslot := q\<rparr>) = vault_ok protos v" "table_ok protos (v\<lparr>c_quickslot := q\<rparr>) = table_ok protos v"
  "vault_ok protos (v\<lparr>c_saved := s\<rparr>) = vault_ok protos v" "table_ok protos (v\<lparr>c_saved := s\<rparr>) = table_ok protos v"
  by (simp_all add: vault_ok_def table_ok_def)

lemma wp_drop_refs:
  assumes "\<And>q s fs. Q () (v\<lparr>c_quickslot := q, c_sent := s, c_faults := fs\<rparr>)"
    and "\<And>s fs. E False (v\<lparr>c_sent := s, c_faults := fs\<rparr>)"
  shows "wp (drop_refs c) Q E v"
proof -
  have swap: "v\<lparr>c_sent := s, c_faults := fs, c_quickslot := q\<rparr> = v\<lparr>c_quickslot := q, c_sent := s, c_faults := fs\<rparr>" for s fs q
    by simp
  have "v\<lparr>c_quickslot := c_quickslot v, c_sent := c_sent v, c_faults := c_faults v\<rparr> = v" by simp
  with assms(1) have "Q () v" by metis
  then show ?thesis
    by (auto simp: drop_refs_def swap assms split: prod.splits intro!: wp_send_all)
qed

lemma wp_save [simp]: "wp save Q E = (\<lambda>v. Q () (v\<lparr>c_saved := c_saved v @ [(c_gold v, c_quickslot v)]\<rparr>))"
  by (simp add: save_def)

lemma kept_move_in:
  assumes v: "vault_ok protos v" and st: "c_box v = Some st" and i: "i < length (c_bag v)"
    and r: "r = c_bag v ! i"
    and fits: "strip_fits (ucast p) (size_at protos (row_vnum r)) cells page
      (occupied_cells (proto_rows protos (map row_vnum (bx_items st) @ us)) (bx_items st))"
  shows "kept protos (move_in i r c p) v"
proof -
  let ?r = "r\<lparr>row_window := ''SAFEBOX'', row_pos := uint p\<rparr>"
  have t: "table_sound protos (c_account v) (c_items v)" and box: "box_sound (c_account v) (c_items v) (Some st)"
    and bag: "bag_sound (c_owner v) (c_items v) (c_bag v) (c_gold v)"
    using v st by (simp_all add: vault_ok_def)
  have at: "row_id r \<noteq> 0" using bag_row_at [OF t bag i] by (simp add: r)
  have "table_sound protos (c_account v) ((c_items v)(row_id ?r \<mapsto> (c_account v, ?r)))
    \<and> box_sound (c_account v) ((c_items v)(row_id ?r \<mapsto> (c_account v, ?r))) (Some (st\<lparr>bx_items := bx_items st @ [?r]\<rparr>))
    \<and> bag_sound (c_owner v) ((c_items v)(row_id ?r \<mapsto> (c_account v, ?r))) (remove_nth i (c_bag v)) (c_gold v)"
  proof (rule bag_to_box [OF t box bag i])
    show "strip protos ?r \<inter> strip protos x = {}" if "x \<in> box_rows (c_account v) (c_items v)" for x
      by (rule fits_apart [OF fits]) (use that box in \<open>auto simp: box_sound_def\<close>)
  qed (simp_all add: r)
  with st at v show ?thesis
    unfolding move_in_def box_items_def wp_hbind wp_hget wp_hmod Let_def
    by (intro wp_upsert wp_send conjI) (simp_all add: vault_ok_def table_ok_def)
qed

lemma kept_checkin:
  assumes v: "vault_ok protos v"
  shows "kept protos (handle_checkin protos pkt) v"
proof (cases "TPacketCGSafeboxCheckin_from_bytes pkt")
  case (Inr p)
  show ?thesis
  proof (cases "c_box v")
    case (Some st)
    have w: "vault_ok protos (v\<lparr>c_quickslot := q, c_sent := s, c_faults := fs\<rparr>)"
      "c_box (v\<lparr>c_quickslot := q, c_sent := s, c_faults := fs\<rparr>) = Some st"
      "i < length (c_bag v) \<Longrightarrow> i < length (c_bag (v\<lparr>c_quickslot := q, c_sent := s, c_faults := fs\<rparr>))" for q s fs i
      using v Some by simp_all
    show ?thesis
      unfolding handle_checkin_def Inr sum.case Let_def
      using v Some
      by (auto simp: vault_table size_default checkin_gate_def dest!: position_Some split: option.splits
          intro!: wp_load_proto wp_drop_refs kept_move_in [OF w])
  qed (use Inr v in \<open>simp add: handle_checkin_def Let_def\<close>)
qed (simp add: handle_checkin_def v)

lemma kept_move_out:
  assumes v: "vault_ok protos v" and st: "c_box v = Some st" and i: "i < length (bx_items st)"
    and r': "row_id r' = row_id (bx_items st ! i)" "own_window (row_window r')"
  shows "kept protos (move_out i r p win c r') v"
proof -
  have t: "table_sound protos (c_account v) (c_items v)" and box: "box_sound (c_account v) (c_items v) (Some st)"
    and bag: "bag_sound (c_owner v) (c_items v) (c_bag v) (c_gold v)"
    using v st by (simp_all add: vault_ok_def)
  have at: "row_id r' \<noteq> 0" using box_row_at [OF t box i] r' by simp
  from box_to_bag [OF t box bag i r'] st at v show ?thesis
    unfolding move_out_def box_items_def wp_hbind wp_hget wp_hmod Let_def
    by (intro wp_upsert wp_send conjI) (simp_all add: vault_ok_def table_ok_def)
qed

lemma wp_belt_gate:
  assumes "\<And>b fs. Q b (v\<lparr>c_faults := fs\<rparr>)" and "\<And>fs. E False (v\<lparr>c_faults := fs\<rparr>)"
  shows "wp (belt_gate uses bag u c) Q E v"
  using assms by (auto simp: belt_gate_def split: option.splits intro!: wp_hquery)

lemma placed_rows:
  "row_id (place_at r belt c) = row_id r" "own_window (row_window (place_at r belt c))"
  "row_window (place_at r belt c) = ''INVENTORY'' \<longleftrightarrow> \<not> belt"
  "\<not> belt \<Longrightarrow> word_of_int (row_pos (place_at r belt c)) = c" "row_vnum (place_at r belt c) = row_vnum r"
  by (simp_all add: place_at_def own_window_def)

lemma inventory_of_bag:
  assumes "bag_sound owner t bag purse" and "keyed t"
  shows "set (filter (\<lambda>i. row_window i = ''INVENTORY'') bag) = inventory_rows owner t"
  using assms by (auto simp: bag_sound_def rows_in_key own_window_def)

lemma kept_checkout:
  assumes v: "vault_ok protos v"
  shows "kept protos (handle_checkout protos uses pkt) v"
proof (cases "TPacketCGSafeboxCheckout_from_bytes pkt")
  case (Inr p)
  show ?thesis
  proof (cases "c_box v")
    case (Some st)
    have w: "vault_ok protos (v\<lparr>c_faults := fs\<rparr>)" "c_box (v\<lparr>c_faults := fs\<rparr>) = Some st" for fs
      using v Some by simp_all
    have ds: "own_window ''DRAGON_SOUL_INVENTORY''" by (simp add: own_window_def)
    show ?thesis
      unfolding handle_checkout_def Inr sum.case Let_def
      using v Some
      by (auto simp: vault_table placed_rows ds dest!: position_Some split: option.splits
          intro!: wp_hquery wp_load_proto wp_belt_gate kept_move_out [OF w])
  qed (use Inr v in \<open>simp add: handle_checkout_def Let_def\<close>)
qed (simp add: handle_checkout_def v)

subsection \<open>Where an item is taken out to\<close>

text \<open>
  A row put into the bag does not get in the way of one that is there: in the inventory their
  strips are disjoint, among the dragon souls and on the belt their positions differ.
\<close>

definition out_of_the_way :: "(int \<Rightarrow> (i16 \<times> int \<times> int) option) \<Rightarrow> ItemRow \<Rightarrow> ItemRow \<Rightarrow> bool" where
  "out_of_the_way protos r x \<longleftrightarrow>
     (row_window r = ''INVENTORY'' \<and> row_window x = ''INVENTORY'' \<longrightarrow> strip protos r \<inter> strip protos x = {})
     \<and> (row_window r = ''DRAGON_SOUL_INVENTORY'' \<and> row_window x = ''DRAGON_SOUL_INVENTORY'' \<longrightarrow> row_pos r \<noteq> row_pos x)
     \<and> (row_window r = ''BELT_INVENTORY'' \<and> row_window x = ''BELT_INVENTORY'' \<longrightarrow> row_pos r \<noteq> row_pos x)"

definition taken_out :: "(int \<Rightarrow> (i16 \<times> int \<times> int) option) \<Rightarrow> ItemRow list \<Rightarrow> ItemRow list \<Rightarrow> bool" where
  "taken_out protos bag bag' \<longleftrightarrow> bag' = bag
     \<or> (\<exists>r. bag' = bag @ [r]
          \<and> row_window r \<in> {''INVENTORY'', ''DRAGON_SOUL_INVENTORY'', ''BELT_INVENTORY''}
          \<and> list_all (out_of_the_way protos r) bag)"

abbreviation puts :: "(int \<Rightarrow> (i16 \<times> int \<times> int) option) \<Rightarrow> ItemRow list \<Rightarrow> unit handler \<Rightarrow> Conn \<Rightarrow> bool" where
  "puts protos bag m \<equiv> wp m (\<lambda>_ w. taken_out protos bag (c_bag w)) (\<lambda>_ w. taken_out protos bag (c_bag w))"

lemma taken_nothing [simp]: "taken_out protos bag bag"
  by (simp add: taken_out_def)

lemma wp_upsert_bag:
  assumes "\<And>w. c_bag w = c_bag v \<Longrightarrow> Q () w" and "\<And>w. c_bag w = c_bag v \<Longrightarrow> E False w"
  shows "wp (upsert r owner) Q E v"
  unfolding upsert_def by (intro wp_hcall) (auto simp: put_item_def intro!: assms)

lemma puts_move_out:
  assumes "row_window r' \<in> {''INVENTORY'', ''DRAGON_SOUL_INVENTORY'', ''BELT_INVENTORY''}"
    and "list_all (out_of_the_way protos r') bag" and "c_bag v = bag"
  shows "puts protos bag (move_out i r p win c r') v"
proof -
  have "taken_out protos bag (bag @ [r'])" using assms(1,2) by (auto simp: taken_out_def)
  then show ?thesis
    by (auto simp: move_out_def box_items_def assms(3) intro!: wp_upsert_bag wp_send)
qed

lemma out_strip:
  assumes "strip_fits c (size_in (proto_rows protos (map row_vnum bag @ [row_vnum r])) (row_vnum r)) cells page
      (occupied_cells (proto_rows protos (map row_vnum bag @ [row_vnum r])) (filter (\<lambda>i. row_window i = ''INVENTORY'') bag))"
  shows "list_all (out_of_the_way protos (r\<lparr>row_window := ''INVENTORY'', row_pos := uint c\<rparr>)) bag"
proof -
  let ?us = "map row_vnum bag @ [row_vnum r]" and ?rs = "filter (\<lambda>i. row_window i = ''INVENTORY'') bag"
  have "strip protos (r\<lparr>row_window := ''INVENTORY'', row_pos := uint c\<rparr>) \<inter> strip protos x = {}"
    if "x \<in> set bag" "row_window x = ''INVENTORY''" for x
    using assms that
    by (intro fits_apart [where us = ?us and rs = ?rs and r = r and p = c and cells = cells and page = page])
      (auto simp: size_in_rows)
  then show ?thesis by (auto simp: list_all_iff out_of_the_way_def)
qed

lemma out_soul:
  assumes "\<not> list_ex (\<lambda>i. row_window i = ''DRAGON_SOUL_INVENTORY'' \<and> stands_at c i) bag"
  shows "list_all (out_of_the_way protos (r\<lparr>row_window := ''DRAGON_SOUL_INVENTORY'', row_pos := uint c\<rparr>)) bag"
proof -
  have "stands_at c x" if "uint c = row_pos x" for x
    by (simp add: stands_at_def flip: that)
  then have "uint c \<noteq> row_pos x" if "x \<in> set bag" "row_window x = ''DRAGON_SOUL_INVENTORY''" for x
    using assms that unfolding list_ex_iff by blast
  then show ?thesis by (simp add: list_all_iff out_of_the_way_def)
qed

lemma wp_belt_cell:
  assumes "\<And>b fs. b \<longrightarrow> list_all (out_of_the_way protos (place_at r True c)) bag \<Longrightarrow> Q b (v\<lparr>c_faults := fs\<rparr>)"
    and "\<And>fs. E False (v\<lparr>c_faults := fs\<rparr>)"
  shows "wp (belt_gate uses bag u c) Q E v"
proof -
  have "list_all (out_of_the_way protos (place_at r True c)) bag"
    if "\<not> list_ex (\<lambda>i. row_window i = ''BELT_INVENTORY'' \<and> row_pos i = belt_pos_of c) bag"
    using that by (auto simp: list_all_iff list_ex_iff out_of_the_way_def place_at_def)
  then show ?thesis
    using assms by (auto simp: belt_gate_def split: option.splits intro!: wp_hquery)
qed

lemma checkout_puts: "puts protos (c_bag v) (handle_checkout protos uses pkt) v"
proof (cases "TPacketCGSafeboxCheckout_from_bytes pkt")
  case (Inr p)
  let ?ip = "TPacketCGSafeboxCheckout.item_pos p"
  show ?thesis
  proof (cases "\<not> (window ?ip = WINDOW_DRAGON_SOUL) \<and> is_belt_cell ?ip")
    case True
    then show ?thesis
      unfolding handle_checkout_def Inr sum.case Let_def
      by (auto split: option.splits intro!: wp_hquery wp_load_proto wp_belt_cell puts_move_out simp: place_at_def)
  next
    case False
    then have belt: "(window ?ip \<noteq> WINDOW_DRAGON_SOUL \<and> is_belt_cell ?ip) = False" by blast
    show ?thesis
      unfolding handle_checkout_def Inr sum.case Let_def belt
      by (auto split: option.splits intro!: wp_hquery wp_load_proto puts_move_out out_soul out_strip simp: place_at_def)
  qed
qed (simp add: handle_checkout_def)

section \<open>Opening, closing, and the gold\<close>

lemma wp_hignore [simp]: "wp (hignore m) Q E = wp m (\<lambda>_. Q ()) (\<lambda>b. if b then E True else Q ())"
  by (rule ext) (auto simp: wp_def hignore_def split: prod.splits answer.splits)

lemma vault_boxes [simp]:
  "vault_ok protos (v\<lparr>c_boxes := t\<rparr>) = vault_ok protos v" "table_ok protos (v\<lparr>c_boxes := t\<rparr>) = table_ok protos v"
  "vault_ok protos (v\<lparr>c_cooldown := n\<rparr>) = vault_ok protos v" "table_ok protos (v\<lparr>c_cooldown := n\<rparr>) = table_ok protos v"
  "vault_ok protos (change_box f v) = vault_ok protos v" "table_ok protos (change_box f v) = table_ok protos v"
  "vault_ok protos (insert_box b v) = vault_ok protos v" "table_ok protos (insert_box b v) = table_ok protos v"
  by (simp_all add: vault_ok_def table_ok_def change_box_def insert_box_def split: option.splits)

lemma kept_gm_info: "vault_ok protos v \<Longrightarrow> kept protos (gm_info text) v"
  by (auto simp: gm_info_def vault_table intro!: wp_send)

lemma kept_set_gold: "vault_ok protos v \<Longrightarrow> kept protos (set_gold g) v"
  by (auto simp: set_gold_def vault_table intro!: wp_hcall)

lemma kept_open:
  assumes v: "vault_ok protos v" and found: "distinct found" "set found = box_rows (c_account v) (c_items v)"
  shows "kept protos (safebox_open now found password) v"
proof -
  have "vault_ok protos (w\<lparr>c_box := Some \<lparr>bx_size = n, bx_gold = g, bx_items = found\<rparr>\<rparr>)"
    if "is_valid_gold g" "w = v\<lparr>c_sent := s, c_faults := fs\<rparr>" for w n g s fs
    using v found that by (simp add: vault_ok_def box_sound_def)
  then show ?thesis
    using v by (auto simp: safebox_open_def vault_table Let_def intro!: kept_gm_info wp_hquery wp_send wp_send_all)
qed

lemma kept_close: "vault_ok protos v \<Longrightarrow> kept protos (safebox_close now) v"
  by (auto simp: safebox_close_def set_gold_def vault_table vault_ok_def [of protos "v\<lparr>c_box := None\<rparr>"]
      vault_ok_def [of protos v] box_sound_def split: option.splits intro!: wp_hcall wp_send)

lemma kept_password: "vault_ok protos v \<Longrightarrow> kept protos (safebox_change_password old new) v"
  by (auto simp: safebox_change_password_def repo_change_password_def vault_table
      split: option.splits intro!: kept_gm_info wp_hquery wp_hcall)

lemma vault_resize: "vault_ok protos v \<Longrightarrow>
  vault_ok protos (v\<lparr>c_sent := s, c_box := map_option (\<lambda>st. if sint (bx_size st) < m then st\<lparr>bx_size := k\<rparr> else st) (c_box v)\<rparr>)"
  by (cases "c_box v") (simp_all add: vault_ok_def box_sound_def)

lemma kept_set_size: "vault_ok protos v \<Longrightarrow> kept protos (safebox_set_size n) v"
  by (auto simp: safebox_set_size_def repo_set_size_def vault_table Let_def
      intro!: wp_send wp_hcall vault_table vault_resize)

lemma money_valid:
  "checked_safebox_money g b m state = Some (g', b') \<Longrightarrow> is_valid_gold g' \<and> is_valid_gold b' \<and> g' + b' = g + b"
  by (auto simp: checked_safebox_money_def checked_gold_sub_Some checked_gold_delta_Some split: if_splits option.splits)

lemma kept_money:
  assumes v: "vault_ok protos v"
  shows "kept protos (handle_money pkt) v"
proof (cases "TPacketCGSafeboxMoney_from_bytes pkt")
  case (Inr p)
  show ?thesis
  proof (cases "c_box v")
    case (Some st)
    let ?m = "checked_safebox_money (c_gold v) (bx_gold st) (sint (TPacketCGSafeboxMoney.l_money p)) (b_state p)"
    show ?thesis
    proof (cases ?m)
      case m: (Some ab)
      obtain a b where ab: "ab = (a, b)" by fastforce
      have good: "vault_ok protos (v\<lparr>c_gold := a, c_box := Some (st\<lparr>bx_gold := b\<rparr>)\<rparr>)"
        "vault_ok protos (v\<lparr>c_gold := a\<rparr>)"
        using v Some money_valid [OF m [unfolded ab]] by (simp_all add: vault_ok_def box_sound_def bag_sound_def)
      let ?w = "v\<lparr>c_gold := a, c_box := Some (st\<lparr>bx_gold := b\<rparr>)\<rparr>"
      have "kept protos (hbind (hcall ''send'' (\<lambda>w. w\<lparr>c_sent := c_sent w @ [PointsPacket (c_gold w)]\<rparr>)) (\<lambda>_.
          hbind (send d) (\<lambda>_. hbind save (\<lambda>_. set_gold b)))) ?w" for d
        unfolding wp_hbind wp_save
        by (intro wp_hcall conjI wp_send kept_set_gold) (use good in \<open>simp_all add: vault_table\<close>)
      then show ?thesis
        using v Some m ab good by (simp add: handle_money_def Inr i32_of_def Let_def vault_table)
    qed (use Inr v Some in \<open>simp add: handle_money_def Let_def\<close>)
  qed (use Inr v in \<open>simp add: handle_money_def Let_def\<close>)
qed (simp add: handle_money_def v)

section \<open>Every session of the account\<close>

datatype VaultOp =
    OpenBox nat "ItemRow list" string
  | CloseBox nat
  | ChangePassword string string
  | SetSize u8
  | Checkin bytes
  | Checkout bytes
  | MoveItem bytes
  | MoveMoney bytes

fun run_vault ::
    "(int \<Rightarrow> (i16 \<times> int \<times> int) option) \<Rightarrow> (int \<Rightarrow> ProtoUse option) \<Rightarrow> VaultOp \<Rightarrow> unit handler" where
  "run_vault protos uses (OpenBox now found password) = safebox_open now found password"
| "run_vault protos uses (CloseBox now) = safebox_close now"
| "run_vault protos uses (ChangePassword old new) = safebox_change_password old new"
| "run_vault protos uses (SetSize n) = safebox_set_size n"
| "run_vault protos uses (Checkin pkt) = handle_checkin protos pkt"
| "run_vault protos uses (Checkout pkt) = handle_checkout protos uses pkt"
| "run_vault protos uses (MoveItem pkt) = handle_item_move protos pkt"
| "run_vault protos uses (MoveMoney pkt) = handle_money pkt"

text \<open>The query of \<open>OpenBox\<close> answers the rows of the table, in some order.\<close>

fun answers_table :: "VaultOp \<Rightarrow> Conn \<Rightarrow> bool" where
  "answers_table (OpenBox now found password) v \<longleftrightarrow>
     distinct found \<and> set found = box_rows (c_account v) (c_items v)"
| "answers_table x v \<longleftrightarrow> True"

interpretation vault: guarded_session "vault_ok protos" "table_ok protos" "run_vault protos uses" answers_table
  for protos uses
proof
  fix v x
  assume v: "vault_ok protos v"
  then show "table_ok protos v" by (rule vault_table)
  show "kept protos (run_vault protos uses x) v" if "answers_table x v"
    using v that
    by (cases x) (simp_all add: kept_open kept_close kept_password kept_set_size kept_checkin kept_checkout
        kept_item_move kept_money)
qed

text \<open>
  Everything else that happens during a session or between two sessions: purchases, trades, moves
  of items, other players. It may change the item table, the bag, the wallet and the rows of the
  safeboxes at will, as long as rows stay filed under their identifiers, the items of this safebox
  are left alone (no other code writes the window \<^verbatim>\<open>SAFEBOX\<close>), and the bag is again what the table
  has of the character.
\<close>

definition elsewhere :: "Conn \<Rightarrow> Conn \<Rightarrow> bool" where
  "elsewhere v w \<longleftrightarrow> c_account w = c_account v \<and> keyed (c_items w)
     \<and> box_rows (c_account w) (c_items w) = box_rows (c_account v) (c_items v)
     \<and> bag_sound (c_owner w) (c_items w) (c_bag w) (c_gold w)"

text \<open>
  What happens to an account: operations that return, operations that fail or panic and end the
  session, anything elsewhere, and logins on any of its characters, with the box closed. \<open>start\<close> is
  the first session.
\<close>

inductive vault_reached ::
    "(int \<Rightarrow> (i16 \<times> int \<times> int) option) \<Rightarrow> (int \<Rightarrow> ProtoUse option) \<Rightarrow> Conn \<Rightarrow> bool \<times> Conn \<Rightarrow> bool"
  for protos uses start where
  begins: "vault_reached protos uses start (True, start)"
| returns: "vault_reached protos uses start (True, v) \<Longrightarrow> answers_table x v \<Longrightarrow>
    run_vault protos uses x v = (Returned (), w) \<Longrightarrow> vault_reached protos uses start (True, w)"
| fails: "vault_reached protos uses start (True, v) \<Longrightarrow> answers_table x v \<Longrightarrow>
    run_vault protos uses x v = (Refused e, w) \<Longrightarrow> vault_reached protos uses start (False, snd (end_session now w))"
| crashes: "vault_reached protos uses start (True, v) \<Longrightarrow> answers_table x v \<Longrightarrow>
    run_vault protos uses x v = (Crashed_at e, w) \<Longrightarrow> vault_reached protos uses start (False, w)"
| happens: "vault_reached protos uses start (True, v) \<Longrightarrow> elsewhere v w \<Longrightarrow> c_box w = c_box v \<Longrightarrow>
    vault_reached protos uses start (True, w)"
| leaves: "vault_reached protos uses start (True, v) \<Longrightarrow> vault_reached protos uses start (False, snd (end_session now v))"
| logs_in: "vault_reached protos uses start (False, v) \<Longrightarrow> elsewhere v w \<Longrightarrow> c_box w = None \<Longrightarrow>
    vault_reached protos uses start (True, w)"

lemma end_session_table: "table_ok protos v \<Longrightarrow> table_ok protos (snd (end_session now v))"
proof -
  assume v: "table_ok protos v"
  have "wp (end_session now) (\<lambda>_. table_ok protos) (\<lambda>_. table_ok protos) v"
    using v by (auto simp: end_session_def safebox_close_def set_gold_def table_ok_def change_box_def
        split: option.splits intro!: wp_hcall wp_send)
  then show ?thesis by (auto simp: wp_def split: prod.splits answer.splits)
qed

lemma vault_invariant:
  assumes "vault_reached protos uses start s" and "vault_ok protos start"
  shows "table_ok protos (snd s) \<and> (fst s \<longrightarrow> vault_ok protos (snd s))"
  using assms
proof (induction rule: vault_reached.induct)
  case (returns v x w)
  then show ?case using vault.returns_good [of protos v x uses w] by (simp add: vault_table)
next
  case (fails v x e w now)
  then have "table_ok protos w" using vault.always_stored [of protos v x uses] by simp
  then show ?case by (simp add: end_session_table)
next
  case (crashes v x e w)
  then show ?case using vault.always_stored [of protos v x uses] by simp
next
  case (happens v w)
  then show ?case
    by (auto simp: vault_ok_def table_ok_def table_sound_def elsewhere_def box_sound_def split: option.splits)
next
  case (logs_in v w)
  then show ?case
    by (auto simp: vault_ok_def table_ok_def table_sound_def elsewhere_def box_sound_def)
qed (simp_all add: end_session_table vault_table)

end
