(* ===== verification/SafeboxCases.thy ===== *)
theory SafeboxCases
  imports SafeboxRun
begin

text \<open>
  The properties of the safebox: what is stored stays sound over all sessions of an account, what
  a stack moves and what it loses, the transfers of gold, and the box without a row.
\<close>

section \<open>Stacking\<close>

text \<open>The common shape of a request that stacks the item at \<open>i\<close> onto the item at \<open>j\<close>.\<close>

definition stacks ::
    "(int \<Rightarrow> (i16 \<times> int \<times> int) option) \<Rightarrow> SafeboxState \<Rightarrow> TPacketCGItemMove \<Rightarrow> nat \<Rightarrow> nat \<Rightarrow> bool" where
  "stacks protos st mv i j \<longleftrightarrow>
    (let a = TItemPos.cell (TPacketCGItemMove.pos mv); b = TItemPos.cell (TPacketCGItemMove.change_pos mv);
         src = bx_items st ! i; dst = bx_items st ! j
     in a \<noteq> b \<and> a < slots st \<and> b < slots st
        \<and> position (stands_at a) (bx_items st) = Some i \<and> position (stands_at b) (bx_items st) = Some j
        \<and> row_vnum src = row_vnum dst \<and> row_sockets src = row_sockets dst
        \<and> (case protos (row_vnum dst) of Some (n, af, f) \<Rightarrow> stackable_dst f af | None \<Rightarrow> False))"

lemma stacks_move:
  assumes mv: "TPacketCGItemMove_from_bytes pkt = Inr mv" and st: "c_box v = Some st" and s: "stacks protos st mv i j"
    and amount: "amount = stack_amount (uint (TPacketCGItemMove.num mv)) (row_count (bx_items st ! i)) (row_count (bx_items st ! j))"
    and pos: "0 < amount"
  shows "handle_item_move protos pkt v =
    hbind (load_safebox_proto protos (map row_vnum (bx_items st)))
      (\<lambda>_. move_stack i j (bx_items st ! i) (bx_items st ! j) amount
        (TItemPos.cell (TPacketCGItemMove.pos mv)) (TItemPos.cell (TPacketCGItemMove.change_pos mv))) v"
proof -
  let ?us = "map row_vnum (bx_items st)"
  have j: "j < length (bx_items st)" using s position_Some by (fastforce simp: stacks_def Let_def)
  then have "proto_rows protos ?us (row_vnum (bx_items st ! j)) \<noteq> None
      \<and> stackable_dst (sp_flag (default_proto (proto_rows protos ?us) (row_vnum (bx_items st ! j))))
          (sp_antiflag (default_proto (proto_rows protos ?us) (row_vnum (bx_items st ! j))))"
    using s by (auto simp: stacks_def Let_def proto_rows_def default_proto_def split: option.splits)
  moreover have "i \<noteq> j" using s by (auto simp: stacks_def Let_def stands_at_def dest!: position_Some)
  ultimately show ?thesis
    using s mv st amount pos j
    by (auto simp: handle_item_move_def stacks_def hget_def hbind_def load_safebox_proto_def hquery_def hret_def
        Let_def hcall_def not_le split: list.splits io_fault.splits)
qed

text \<open>What a merge writes: the source lowered or removed, then the destination raised.\<close>

definition after_source :: "Conn \<Rightarrow> ItemRow \<Rightarrow> int \<Rightarrow> item_table" where
  "after_source v src amount =
    (if amount = row_count src then (c_items v)(row_id src := None)
     else (c_items v)(row_id src \<mapsto> (c_account v, src\<lparr>row_count := row_count src - amount\<rparr>)))"

definition after_stack :: "Conn \<Rightarrow> ItemRow \<Rightarrow> ItemRow \<Rightarrow> int \<Rightarrow> item_table" where
  "after_stack v src dst amount =
    (after_source v src amount)(row_id dst \<mapsto> (c_account v, dst\<lparr>row_count := row_count dst + amount\<rparr>))"

lemma stack_amount_le: "stack_amount want c d \<le> c"
  by (simp add: stack_amount_def)

lemma wp_write_stack:
  assumes "row_id r \<noteq> 0"
    and "\<And>w. c_items w = (c_items v)(row_id r \<mapsto> (c_account v, r\<lparr>row_count := n\<rparr>)) \<Longrightarrow> c_account w = c_account v \<Longrightarrow>
      c_box w = map_option (\<lambda>st. st\<lparr>bx_items := (bx_items st)[i := (bx_items st ! i)\<lparr>row_count := n\<rparr>]\<rparr>) (c_box v) \<Longrightarrow> Q () w"
    and "\<And>w. c_items w \<in> {c_items v, (c_items v)(row_id r \<mapsto> (c_account v, r\<lparr>row_count := n\<rparr>))} \<Longrightarrow> E False w"
  shows "wp (write_stack i r n c) Q E v"
  unfolding write_stack_def box_items_def wp_hbind wp_hget wp_hmod
  by (intro wp_upsert wp_send conjI assms(2,3)) (simp_all add: assms(1))

text \<open>The table an error may leave while \<open>src\<close> is put on \<open>dst\<close>.\<close>

abbreviation stack_error :: "Conn \<Rightarrow> ItemRow \<Rightarrow> ItemRow \<Rightarrow> int \<Rightarrow> bool \<Rightarrow> Conn \<Rightarrow> bool" where
  "stack_error v src dst amount crash w \<equiv> \<not> crash
    \<and> (c_items w = c_items v \<or> c_items w = after_source v src amount \<or> c_items w = after_stack v src dst amount)"

lemma wp_move_stack:
  assumes "c_box v = Some st" and ij: "i < length (bx_items st)" "j < length (bx_items st)" "i \<noteq> j"
    and "src = bx_items st ! i" and "dst = bx_items st ! j"
    and ids: "row_id src \<noteq> 0" "row_id dst \<noteq> 0" and le: "amount \<le> row_count src"
    and "j < i \<or> amount < row_count src"
  shows "wp (move_stack i j src dst amount a b) (\<lambda>_ w. c_items w = after_stack v src dst amount)
    (stack_error v src dst amount) (v\<lparr>c_faults := fs\<rparr>)"
proof -
  let ?E = "stack_error v src dst amount"
  have last: "wp (box_nth k (\<lambda>d. write_stack k d (row_count dst + amount) b)) (\<lambda>_ w. c_items w = after_stack v src dst amount) ?E w"
    if "c_items w = after_source v src amount" "c_account w = c_account v" "c_box w = Some box2"
      "k < length (bx_items box2)" "bx_items box2 ! k = dst" for w box2 k
    using that ids(2) by (auto intro!: wp_write_stack simp: after_stack_def)
  show ?thesis
  proof (cases "amount = row_count src")
    case False
    with le have pos: "\<not> row_count src - amount \<le> 0" by simp
    have lowered: "after_source v src amount =
        (c_items v)(row_id src \<mapsto> (c_account v, src\<lparr>row_count := row_count src - amount\<rparr>))"
      using False by (simp add: after_source_def)
    have "wp (write_stack i src (row_count src - amount) a)
        (\<lambda>_. wp (box_nth j (\<lambda>d. write_stack j d (row_count dst + amount) b)) (\<lambda>_ w. c_items w = after_stack v src dst amount) ?E)
        ?E (v\<lparr>c_faults := fs\<rparr>)"
      by (rule wp_write_stack [OF ids(1)])
        (use assms(1) ij in \<open>auto intro!: last simp del: wp_box_nth simp flip: lowered assms(6)\<close>)
    with pos show ?thesis by (simp add: move_stack_def Let_def del: wp_box_nth)
  next
    case True
    with assms(10) have "j < i" by simp
    have tail: "wp (box_nth j (\<lambda>d. write_stack j d (row_count dst + amount) b)) (\<lambda>_ w. c_items w = after_stack v src dst amount) ?E w"
      if "c_items w = (c_items v)(row_id src := None)" "c_account w = c_account v"
        "c_box w = Some (st\<lparr>bx_items := remove_nth i (bx_items st)\<rparr>)" for w
      by (rule last [OF _ that(2,3)])
        (use that(1) ij True \<open>j < i\<close> in \<open>simp_all add: after_source_def assms(6) nth_remove_nth\<close>)
    have "wp (hbind (send d) (\<lambda>_. hbind (delete_item (row_id src)) (\<lambda>_. box_items (remove_nth i))))
        (\<lambda>_. wp (box_nth j (\<lambda>d. write_stack j d (row_count dst + amount) b)) (\<lambda>_ w. c_items w = after_stack v src dst amount) ?E)
        ?E (v\<lparr>c_faults := fs\<rparr>)" for d
      unfolding box_items_def wp_hbind wp_hmod
      by (intro wp_send wp_delete_item conjI tail)
        (use assms(1) True in \<open>simp_all add: after_source_def\<close>)
    with True show ?thesis by (simp add: move_stack_def Let_def del: wp_box_nth)
  qed
qed

text \<open>C32. Stacking within the safebox, whatever call fails: when the destination stands before the
  source, or the source keeps some items, the amount moves from the source to the destination and
  nothing else changes; an error leaves the table before the merge, with the source lowered only, or
  after it, so items may be lost but are never created; it does not panic.
\<close>

theorem stacking_moves_the_amount:
  assumes "vault_ok protos v"
    and "TPacketCGItemMove_from_bytes pkt = Inr mv" and "c_box v = Some st" and "stacks protos st mv i j"
    and "src = bx_items st ! i" and "dst = bx_items st ! j"
    and "amount = stack_amount (uint (TPacketCGItemMove.num mv)) (row_count src) (row_count dst)" and "0 < amount"
    and "j < i \<or> amount < row_count src"
  shows "case handle_item_move protos pkt v of
      (Returned _, w) \<Rightarrow> c_items w = after_stack v src dst amount
    | (Refused _, w) \<Rightarrow> c_items w = c_items v \<or> c_items w = after_source v src amount \<or> c_items w = after_stack v src dst amount
    | (Crashed_at _, w) \<Rightarrow> False"
proof -
  let ?E = "stack_error v src dst amount"
  let ?a = "TItemPos.cell (TPacketCGItemMove.pos mv)" and ?b = "TItemPos.cell (TPacketCGItemMove.change_pos mv)"
  have ij: "i < length (bx_items st)" "j < length (bx_items st)" "i \<noteq> j"
    using assms(4) by (auto simp: stacks_def Let_def stands_at_def dest!: position_Some)
  have t: "table_sound protos (c_account v) (c_items v)" and box: "box_sound (c_account v) (c_items v) (Some st)"
    using assms(1,3) by (simp_all add: vault_ok_def)
  have ids: "row_id src \<noteq> 0" "row_id dst \<noteq> 0"
    using box_row_at [OF t box ij(1)] box_row_at [OF t box ij(2)] by (simp_all add: assms(5,6))
  have le: "amount \<le> row_count src" by (simp add: assms(7) stack_amount_le)
  note moved = wp_move_stack [OF assms(3) ij assms(5,6) ids le assms(9)]
  have "wp (hbind (load_safebox_proto protos (map row_vnum (bx_items st)))
      (\<lambda>_. move_stack i j src dst amount ?a ?b)) (\<lambda>_ w. c_items w = after_stack v src dst amount) ?E v"
    unfolding wp_hbind by (intro wp_load_proto moved) simp_all
  then have "wp (handle_item_move protos pkt) (\<lambda>_ w. c_items w = after_stack v src dst amount) ?E v"
    unfolding wp_def stacks_move [OF assms(2-4) assms(7) [unfolded assms(5,6)] assms(8)] assms(5,6) .
  then show ?thesis
    by (auto simp: wp_def split: prod.splits answer.splits)
qed

text \<open>C33. Stacking a whole stack onto one that stands later in the list: the source is removed from the
  list before the destination is indexed, so the row behind the destination gets the count, and
  without such a row the handler panics. The destination keeps its count and the items of the
  source are gone from the table.
\<close>

theorem stacking_forward_hits_the_next_row:
  assumes "vault_ok protos v" and "c_faults v = []"
    and "TPacketCGItemMove_from_bytes pkt = Inr mv" and "c_box v = Some st" and "stacks protos st mv i j"
    and "src = bx_items st ! i" and "dst = bx_items st ! j"
    and "stack_amount (uint (TPacketCGItemMove.num mv)) (row_count src) (row_count dst) = row_count src" and "0 < row_count src"
    and "i < j"
  shows "let (answer, w) = handle_item_move protos pkt v; gone = (c_items v)(row_id src := None); hit = bx_items st ! Suc j
    in gone (row_id dst) = Some (c_account v, dst)
       \<and> (if Suc j < length (bx_items st)
          then answer = Returned ()
            \<and> c_items w = gone(row_id hit \<mapsto> (c_account v, hit\<lparr>row_count := row_count dst + row_count src\<rparr>))
            \<and> c_items w (row_id dst) = Some (c_account v, dst)
          else answer = Crashed_at ''index out of bounds'' \<and> c_items w = gone)"
proof -
  have ij: "i < length (bx_items st)" "j < length (bx_items st)"
    using assms(5) by (auto simp: stacks_def Let_def dest!: position_Some)
  have t: "table_sound protos (c_account v) (c_items v)" and box: "box_sound (c_account v) (c_items v) (Some st)"
    using assms(1,4) by (simp_all add: vault_ok_def)
  have at: "k < length (bx_items st) \<Longrightarrow> c_items v (row_id (bx_items st ! k)) = Some (c_account v, bx_items st ! k)
      \<and> row_id (bx_items st ! k) \<noteq> 0" for k
    using box_row_at [OF t box, of k] by simp
  have differ: "row_id (bx_items st ! k) \<noteq> row_id (bx_items st ! l)"
    if "k < length (bx_items st)" "l < length (bx_items st)" "k \<noteq> l" for k l
    using box_row_same [OF t box, of "bx_items st ! k" "bx_items st ! l"] box that
    by (auto simp: box_sound_def nth_eq_iff_index_eq)
  have ids: "row_id dst \<noteq> row_id src" using differ [of j i] ij assms(10) by (simp add: assms(6,7))
  let ?a = "TItemPos.cell (TPacketCGItemMove.pos mv)" and ?b = "TItemPos.cell (TPacketCGItemMove.change_pos mv)"
  have "handle_item_move protos pkt v = move_stack i j src dst (row_count src) ?a ?b v"
    unfolding stacks_move [OF assms(3-5) assms(8) [unfolded assms(6,7), symmetric] assms(9) [unfolded assms(6)]]
    by (simp add: load_safebox_proto_def hbind_def hret_def fine_calls assms(2,6,7))
  moreover have "remove_nth i (bx_items st) ! j = bx_items st ! Suc j"
    using ij assms(10) by (simp add: nth_remove_nth)
  ultimately show ?thesis
    using assms(2,4) ij at ids differ [of "Suc j" j] assms(7,10)
    by (auto simp: move_stack_def delete_item_def box_items_def box_nth_def write_stack_def upsert_def
        hbind_def hget_def hmod_def fine_calls put_item_def hpanic_def Let_def)
qed

section \<open>Gold\<close>

text \<open>How much goes from the wallet into the box, when the transfer is allowed.\<close>

definition deposit :: "int \<Rightarrow> int \<Rightarrow> TPacketCGSafeboxMoney \<Rightarrow> int option" where
  "deposit purse box p =
    (let m = sint (TPacketCGSafeboxMoney.l_money p)
     in if m \<le> 0 then None
        else if b_state p = 0 \<and> m \<le> purse \<and> box + m \<le> GOLD_MAX then Some m
        else if b_state p = 1 \<and> m \<le> box \<and> purse + m \<le> GOLD_MAX then Some (- m)
        else None)"

lemma deposit_checked:
  assumes "is_valid_gold purse" and "is_valid_gold box" and "0 < sint (TPacketCGSafeboxMoney.l_money p)"
  shows "checked_safebox_money purse box (sint (TPacketCGSafeboxMoney.l_money p)) (b_state p) =
    map_option (\<lambda>d. (purse - d, box + d)) (deposit purse box p)"
  using assms
  by (auto simp: checked_safebox_money_def deposit_def Let_def is_valid_gold_def
      checked_gold_sub_None checked_gold_delta_None
      checked_gold_sub_Some checked_gold_delta_Some split: option.splits)

lemma money_transfer:
  assumes "vault_ok protos v" and "c_faults v = []" and "c_box v = Some st"
    and "TPacketCGSafeboxMoney_from_bytes pkt = Inr p"
  shows "handle_money pkt v = (Returned (),
    case deposit (c_gold v) (bx_gold st) p of
      None \<Rightarrow> v
    | Some d \<Rightarrow> change_box (\<lambda>b. b\<lparr>br_gold := bx_gold st + d\<rparr>)
        (v\<lparr>c_gold := c_gold v - d, c_box := Some (st\<lparr>bx_gold := bx_gold st + d\<rparr>),
           c_sent := c_sent v @ [PointsPacket (c_gold v - d),
             Wire (TPacketGCSafeboxMoneyChange_to_bytes (TPacketGCSafeboxMoneyChange_new (word_of_int (bx_gold st + d))))],
           c_saved := c_saved v @ [(c_gold v - d, c_quickslot v)]\<rparr>))"
proof -
  have valid: "is_valid_gold (c_gold v)" "is_valid_gold (bx_gold st)"
    using assms(1,3) by (simp_all add: vault_ok_def box_sound_def bag_sound_def)
  show ?thesis
  proof (cases "sint (TPacketCGSafeboxMoney.l_money p) \<le> 0")
    case True
    then show ?thesis
      using assms(3,4) by (simp add: handle_money_def hget_def hret_def Let_def deposit_def)
  next
    case False
    then have pos: "0 < sint (TPacketCGSafeboxMoney.l_money p)" by simp
    note checked = deposit_checked [OF valid pos]
    show ?thesis
    proof (cases "deposit (c_gold v) (bx_gold st) p")
      case None
      with False checked show ?thesis
        using assms(3,4) by (simp add: handle_money_def hget_def hret_def Let_def)
    next
      case (Some d)
      have "is_valid_gold (c_gold v - d) \<and> is_valid_gold (bx_gold st + d)"
        using money_valid [of _ _ _ _ "c_gold v - d" "bx_gold st + d"] checked Some by simp
      then have "i32_of (c_gold v - d) k = k (c_gold v - d)" "i32_of (bx_gold st + d) k = k (bx_gold st + d)" for k
        by (simp_all add: i32_of_def is_valid_gold_def GOLD_MAX_def)
      with False checked Some show ?thesis
        using assms(2-4)
        by (simp add: handle_money_def hget_def hbind_def hmod_def save_def set_gold_def fine_calls Let_def)
    qed
  qed
qed

text \<open>C34. A transfer between the wallet and an open safebox: allowed exactly when the amount is positive,
  the giving side has it and the receiving side stays within the limit; then the sum is kept, the
  client gets both balances, the row is saved and the balance of the box is written. Anything else
  changes nothing.
\<close>

theorem gold_moves_or_stays:
  assumes "vault_ok protos v" and "c_faults v = []" and "c_box v = Some st"
    and "TPacketCGSafeboxMoney_from_bytes pkt = Inr p"
  shows "handle_money pkt v = (Returned (),
    case deposit (c_gold v) (bx_gold st) p of
      None \<Rightarrow> v
    | Some d \<Rightarrow> change_box (\<lambda>b. b\<lparr>br_gold := bx_gold st + d\<rparr>)
        (v\<lparr>c_gold := c_gold v - d, c_box := Some (st\<lparr>bx_gold := bx_gold st + d\<rparr>),
           c_sent := c_sent v @ [PointsPacket (c_gold v - d),
             Wire (TPacketGCSafeboxMoneyChange_to_bytes (TPacketGCSafeboxMoneyChange_new (word_of_int (bx_gold st + d))))],
           c_saved := c_saved v @ [(c_gold v - d, c_quickslot v)]\<rparr>))"
  by (rule money_transfer [OF assms])

text \<open>C35. An account without a row opens the box with the default password, and what it deposits there
  is taken from the wallet and lost: the write of the balance is an update of no row, so after
  closing and opening again the box holds nothing. A size the game master sets above one page is
  lost with it.
\<close>

theorem deposit_without_a_row_is_lost:
  assumes "vault_ok protos v" and "c_faults v = []" and "c_box v = Some st" and "c_boxes v (c_account v) = None"
    and "TPacketCGSafeboxMoney_from_bytes pkt = Inr p" and "deposit (c_gold v) (bx_gold st) p = Some d"
    and "n \<noteq> 1" and "t + REOPEN_COOLDOWN \<le> t'"
  shows "let (alive, w) = run_ops (run_vault protos uses)
      [MoveMoney pkt, SetSize n, CloseBox t, OpenBox t' found SAFEBOX_DEFAULT_PASSWORD] v
    in alive \<and> c_gold w = c_gold v - d \<and> c_boxes w = c_boxes v
       \<and> c_box w = Some \<lparr>bx_size = 0, bx_gold = 0, bx_items = found\<rparr>"
proof -
  have "is_valid_gold (bx_gold st + d)"
    using money_valid [of "c_gold v" "bx_gold st" _ _ "c_gold v - d" "bx_gold st + d"] deposit_checked [of "c_gold v" "bx_gold st" p] assms(1,3,6)
    by (auto simp: vault_ok_def box_sound_def bag_sound_def deposit_def Let_def split: if_splits)
  moreover have "(ucast (if SAFEBOX_SIZE_MAX < n then 0 else n) :: i16) \<noteq> 1"
    using assms(7) by (auto simp: word_uint_eq_iff uint_up_ucast is_up)
  moreover have "(c_boxes v)(c_account v := None) = c_boxes v" using assms(4) by (simp add: fun_upd_idem)
  moreover have "is_valid_gold 0" by (simp add: is_valid_gold_def GOLD_MAX_def)
  ultimately show ?thesis
    using money_transfer [OF assms(1-3,5)] assms(2-6,8)
    by (simp add: safebox_set_size_def repo_set_size_def safebox_close_def safebox_open_def set_gold_def hignore_def
        hbind_def hget_def hmod_def hret_def fine_calls fine_send_all change_box_def Let_def password_ok_def
        SAFEBOX_DEFAULT_PASSWORD_def SAFEBOX_PASSWORD_MAX_LEN_def)
qed

section \<open>The items of all sessions\<close>


section \<open>A safebox with two stacks and a sword\<close>

definition sample_protos :: "int \<Rightarrow> (i16 \<times> int \<times> int) option" where
  "sample_protos u = (if u = 27001 then Some (1, 0, 4) else if u = 299 then Some (2, 0, 0) else None)"

definition sample_uses :: "int \<Rightarrow> ProtoUse option" where "sample_uses u = None"

definition stored :: "int \<Rightarrow> string \<Rightarrow> int \<Rightarrow> int \<Rightarrow> int \<Rightarrow> ItemRow" where
  "stored i win p n u = \<lparr>row_id = i, row_window = win, row_pos = p, row_count = n, row_vnum = u,
     row_sockets = [0, 0, 0], row_attrs = replicate 7 (0, 0)\<rparr>"

definition sample_box :: "ItemRow list" where
  "sample_box = [stored 11 ''SAFEBOX'' 0 30 27001, stored 12 ''SAFEBOX'' 1 40 27001, stored 13 ''SAFEBOX'' 2 1 299]"

definition sample_vault :: Conn where
  "sample_vault =
    \<lparr>c_account = 7, c_owner = 3, c_vid = 1, c_empire = 1, c_gold = 500, c_quickslot = None,
     c_bag = [stored 21 ''INVENTORY'' 5 1 299],
     c_box = Some \<lparr>bx_size = 2, bx_gold = 0, bx_items = sample_box\<rparr>, c_cooldown = None, c_sent = [], c_saved = [],
     c_items = [11 \<mapsto> (7, stored 11 ''SAFEBOX'' 0 30 27001), 12 \<mapsto> (7, stored 12 ''SAFEBOX'' 1 40 27001),
       13 \<mapsto> (7, stored 13 ''SAFEBOX'' 2 1 299), 21 \<mapsto> (3, stored 21 ''INVENTORY'' 5 1 299)],
     c_boxes = Map.empty, c_next = 100, c_faults = []\<rparr>"

lemma stored_sel [simp]: "row_id (stored i win p n u) = i" "row_window (stored i win p n u) = win"
  "row_pos (stored i win p n u) = p" "row_vnum (stored i win p n u) = u" "row_count (stored i win p n u) = n"
  by (simp_all add: stored_def)

lemma sample_strips:
  "strip sample_protos (stored i win 0 n 27001) = {0}" "strip sample_protos (stored i win 1 n 27001) = {1}"
  "strip sample_protos (stored i win 2 n 299) = {2, 7}"
  by (simp_all add: strip_def stored_def size_at_def sample_protos_def strip_cells_def GRID_WIDTH_def upt_rec)

lemma sample_table:
  "c_items sample_vault i =
    (if i = 21 then Some (3, stored 21 ''INVENTORY'' 5 1 299) else if i = 13 then Some (7, stored 13 ''SAFEBOX'' 2 1 299)
     else if i = 12 then Some (7, stored 12 ''SAFEBOX'' 1 40 27001)
     else if i = 11 then Some (7, stored 11 ''SAFEBOX'' 0 30 27001) else None)"
  by (simp add: sample_vault_def)

lemma sample_keyed: "keyed (c_items sample_vault)"
  by (simp add: keyed_def sample_table)

lemma sample_row:
  "x \<in> rows_in W owner (c_items sample_vault) \<longleftrightarrow>
     x \<in> set sample_box \<and> owner = 7 \<and> W ''SAFEBOX'' \<or> x = stored 21 ''INVENTORY'' 5 1 299 \<and> owner = 3 \<and> W ''INVENTORY''"
  unfolding rows_in_key [OF sample_keyed] sample_table sample_box_def
  by (auto split: if_split_asm)

lemma sample_rows:
  "box_rows 7 (c_items sample_vault) = set sample_box"
  "inventory_rows owner (c_items sample_vault) = (if owner = 3 then {stored 21 ''INVENTORY'' 5 1 299} else {})"
  "own_rows 3 (c_items sample_vault) = {stored 21 ''INVENTORY'' 5 1 299}"
  by (auto simp: sample_row own_window_def)

lemma sample_vault_ok: "vault_ok sample_protos sample_vault"
proof -
  note sample_keyed
  moreover have "apart sample_protos (set sample_box)"
    by (simp add: apart_def sample_box_def sample_strips)
  moreover have "distinct sample_box" by (simp add: sample_box_def stored_def)
  moreover have "is_valid_gold 0" "is_valid_gold 500" by (simp_all add: is_valid_gold_def GOLD_MAX_def)
  ultimately show ?thesis
    using sample_rows
    by (simp add: vault_ok_def table_sound_def box_sound_def bag_sound_def apart_def)
      (simp add: sample_vault_def)
qed

definition forward :: bytes where "forward = [77, 3, 0, 0, 3, 1, 0, 0]"
definition backward :: bytes where "backward = [77, 3, 1, 0, 3, 0, 0, 0]"



definition sample_state :: SafeboxState where
  "sample_state = \<lparr>bx_size = 2, bx_gold = 0, bx_items = sample_box\<rparr>"

definition moved :: "u16 \<Rightarrow> u16 \<Rightarrow> TPacketCGItemMove" where
  "moved a b = \<lparr>TPacketCGItemMove.header = 77, TPacketCGItemMove.pos = \<lparr>window = 3, TItemPos.cell = a\<rparr>,
     TPacketCGItemMove.change_pos = \<lparr>window = 3, TItemPos.cell = b\<rparr>, TPacketCGItemMove.num = 0\<rparr>"

lemma moved_bytes:
  "TPacketCGItemMove_from_bytes forward = Inr (moved 0 1)" "TPacketCGItemMove_from_bytes backward = Inr (moved 1 0)"
  by code_simp+

lemma sample_session: "c_box sample_vault = Some sample_state" "c_faults sample_vault = []"
  by (simp_all add: sample_vault_def sample_state_def)

lemma sample_stacks:
  "stacks sample_protos sample_state (moved 0 1) 0 1" "stacks sample_protos sample_state (moved 1 0) 1 0"
  by code_simp+

lemma sample_nth: "bx_items sample_state ! 0 = stored 11 ''SAFEBOX'' 0 30 27001"
  "bx_items sample_state ! 1 = stored 12 ''SAFEBOX'' 1 40 27001" "bx_items sample_state ! 2 = stored 13 ''SAFEBOX'' 2 1 299"
  "length (bx_items sample_state) = 3"
  by (simp_all add: sample_state_def sample_box_def)

lemma sample_amounts: "stack_amount 0 40 30 = 40" "stack_amount 0 30 40 = 30"
  by code_simp+

theorem stacking_moves_the_amount_witness:
  "case handle_item_move sample_protos backward sample_vault of
      (Returned _, w) \<Rightarrow> c_items w = after_stack sample_vault (stored 12 ''SAFEBOX'' 1 40 27001) (stored 11 ''SAFEBOX'' 0 30 27001) 40
    | (Refused _, w) \<Rightarrow> c_items w = c_items sample_vault
        \<or> c_items w = after_source sample_vault (stored 12 ''SAFEBOX'' 1 40 27001) 40
        \<or> c_items w = after_stack sample_vault (stored 12 ''SAFEBOX'' 1 40 27001) (stored 11 ''SAFEBOX'' 0 30 27001) 40
    | (Crashed_at _, w) \<Rightarrow> False"
  by (rule stacking_moves_the_amount
        [OF sample_vault_ok moved_bytes(2) sample_session(1) sample_stacks(2) sample_nth(2) [symmetric] sample_nth(1) [symmetric]])
    (simp_all add: moved_def sample_amounts)

theorem stacking_forward_hits_the_next_row_witness:
  "let (answer, w) = handle_item_move sample_protos forward sample_vault
   in answer = Returned () \<and> c_items w 11 = None \<and> c_items w 12 = Some (7, stored 12 ''SAFEBOX'' 1 40 27001)
      \<and> c_items w 13 = Some (7, stored 13 ''SAFEBOX'' 2 70 299)"
proof -
  obtain answer w where h: "handle_item_move sample_protos forward sample_vault = (answer, w)" by fastforce
  have "bx_items sample_state ! Suc (Suc 0) = stored 13 ''SAFEBOX'' 2 1 299" "c_account sample_vault = 7"
    by (simp_all add: sample_vault_def sample_state_def sample_box_def)
  moreover have "stored 13 ''SAFEBOX'' 2 1 299\<lparr>row_count := 70\<rparr> = stored 13 ''SAFEBOX'' 2 70 299"
    by (simp add: stored_def)
  ultimately show ?thesis
    using stacking_forward_hits_the_next_row
      [OF sample_vault_ok sample_session(2) moved_bytes(1) sample_session(1) sample_stacks(1) refl refl, unfolded sample_nth]
    by (simp add: moved_def sample_amounts h sample_nth Let_def)
qed

definition put_two_hundred :: bytes where "put_two_hundred = [79, 0, 200, 0, 0, 0]"

definition two_hundred :: TPacketCGSafeboxMoney where
  "two_hundred = \<lparr>TPacketCGSafeboxMoney.header = 79, b_state = 0, TPacketCGSafeboxMoney.l_money = 200\<rparr>"

lemma two_hundred_in: "TPacketCGSafeboxMoney_from_bytes put_two_hundred = Inr two_hundred"
  "deposit 500 0 two_hundred = Some 200" "c_gold sample_vault = 500" "bx_gold sample_state = 0"
  by code_simp+

theorem gold_moves_or_stays_witness:
  "c_gold (snd (handle_money put_two_hundred sample_vault)) = 300"
  using gold_moves_or_stays [OF sample_vault_ok sample_session(2,1) two_hundred_in(1)]
  by (simp add: two_hundred_in change_box_def)

theorem deposit_without_a_row_is_lost_witness:
  "let (alive, w) = run_ops (run_vault sample_protos sample_uses)
      [MoveMoney put_two_hundred, SetSize 2, CloseBox 0, OpenBox 10000 [] SAFEBOX_DEFAULT_PASSWORD] sample_vault
    in alive \<and> c_gold w = 300 \<and> c_boxes w = Map.empty \<and> c_box w = Some \<lparr>bx_size = 0, bx_gold = 0, bx_items = []\<rparr>"
proof -
  have none: "c_boxes sample_vault (c_account sample_vault) = None" "c_boxes sample_vault = Map.empty"
    by (simp_all add: sample_vault_def)
  show ?thesis
    using deposit_without_a_row_is_lost [OF sample_vault_ok sample_session(2,1) none(1) two_hundred_in(1),
        unfolded two_hundred_in(3,4), OF two_hundred_in(2), of 2 0 10000 sample_uses "[]"]
    by (simp add: none(2) REOPEN_COOLDOWN_def)
qed

end
