(* ===== verification/QuestText.thy ===== *)
theory QuestText
  imports Wal
begin

text \<open>
  The operations of Rust's \<^verbatim>\<open>str\<close> the parser of the quest language uses, on the bytes of a text:
  searching and cutting at a pattern, prefixes and suffixes, splitting, the numbers of type
  \<^verbatim>\<open>u32\<close>. \<open>lines_of\<close>, \<open>trim\<close> and \<open>parse_i64\<close> are those of the log files.
\<close>

section \<open>Patterns\<close>

text \<open>\<^verbatim>\<open>str::find\<close>: the index of the first occurrence.\<close>

fun find_text :: "string \<Rightarrow> string \<Rightarrow> nat option" where
  "find_text p [] = (if p = [] then Some 0 else None)"
| "find_text p (c # s) =
    (if take (length p) (c # s) = p then Some 0 else map_option Suc (find_text p s))"

definition strip_lead :: "string \<Rightarrow> string \<Rightarrow> string option" where
  "strip_lead p s = (if take (length p) s = p then Some (drop (length p) s) else None)"

definition ends_with :: "string \<Rightarrow> string \<Rightarrow> bool" where
  "ends_with p s \<longleftrightarrow> length p \<le> length s \<and> drop (length s - length p) s = p"

definition strip_tail :: "string \<Rightarrow> string \<Rightarrow> string option" where
  "strip_tail p s = (if ends_with p s then Some (take (length s - length p) s) else None)"

text \<open>\<^verbatim>\<open>str::split\<close> at a character.\<close>

fun split_on :: "char \<Rightarrow> string \<Rightarrow> string list" where
  "split_on d [] = [[]]"
| "split_on d (c # s) = (if c = d then [] # split_on d s else (c # hd (split_on d s)) # tl (split_on d s))"

text \<open>\<^verbatim>\<open>text[1..text.len() - 1]\<close>.\<close>

definition inner_text :: "string \<Rightarrow> string" where
  "inner_text s = butlast (tl s)"

text \<open>\<^verbatim>\<open>str::parse::<u32>\<close>: an optional plus sign, at least one digit, in range.\<close>

definition parse_u32 :: "string \<Rightarrow> u32 option" where
  "parse_u32 s =
    (let ds = (case s of c # t \<Rightarrow> if c = CHR ''+'' then t else s | [] \<Rightarrow> [])
     in if ds = [] then None
        else Option.bind (parse_digits 0 ds) (\<lambda>n. if int n < 2 ^ 32 then Some (word_of_int (int n)) else None))"

section \<open>Characters\<close>

definition is_ascii_alpha :: "char \<Rightarrow> bool" where
  "is_ascii_alpha c \<longleftrightarrow> 65 \<le> byte_of c \<and> byte_of c \<le> 90 \<or> 97 \<le> byte_of c \<and> byte_of c \<le> 122"

definition is_name_char :: "char \<Rightarrow> bool" where
  "is_name_char c \<longleftrightarrow> is_ascii_digit c \<or> is_ascii_alpha c \<or> c = CHR ''_''"

text \<open>A visible character of ASCII, which no trimming removes.\<close>

definition visible :: "char \<Rightarrow> bool" where
  "visible c \<longleftrightarrow> 33 \<le> byte_of c \<and> byte_of c < 127"

text \<open>\<open>ws_len\<close> by cases on the first bytes, as it is evaluated.\<close>

lemma ws_len_cases [code]:
  "ws_len s =
    (case s of
       [] \<Rightarrow> 0
     | a # s' \<Rightarrow>
        if byte_of a = 32 \<or> 9 \<le> byte_of a \<and> byte_of a \<le> 13 then 1
        else (case s' of
           [] \<Rightarrow> 0
         | b # s'' \<Rightarrow>
            if byte_of a = 194 \<and> (byte_of b = 133 \<or> byte_of b = 160) then 2
            else (case s'' of
               [] \<Rightarrow> 0
             | c # _ \<Rightarrow>
                if [byte_of a, byte_of b, byte_of c] \<in> {[225, 154, 128], [226, 129, 159], [227, 128, 128]} then 3
                else if byte_of a = 226 \<and> byte_of b = 128
                  \<and> (128 \<le> byte_of c \<and> byte_of c \<le> 138 \<or> byte_of c \<in> {168, 169, 175}) then 3
                else 0)))"
  by (auto simp: ws_len_def Let_def numeral_3_eq_3 split: list.split)

section \<open>Facts\<close>

lemma find_text_split:
  assumes "find_text p s = Some i"
  shows "\<exists>b. s = take i s @ p @ b" and "i + length p \<le> length s"
  using assms
proof (induction s arbitrary: i)
  case (Cons c s)
  { case 1
    show ?case
    proof (cases "take (length p) (c # s) = p")
      case True
      then have "c # s = p @ drop (length p) (c # s)" by (metis append_take_drop_id)
      with True 1 show ?thesis by auto
    next
      case False
      with 1 obtain j where j: "find_text p s = Some j" "i = Suc j" by auto
      with Cons(1) [OF j(1)] show ?thesis by auto
    qed
  next
    case 2
    then show ?case
      using Cons(2) by (auto split: if_splits simp: min_def dest: arg_cong [of _ _ length])
  }
qed (auto split: if_splits)

lemma find_text_first:
  assumes "find_text p (a @ butlast p) = None" and "p \<noteq> []"
  shows "find_text p (a @ p @ b) = Some (length a)"
  using assms(1)
proof (induction a)
  case Nil
  then show ?case using assms(2) by (cases p) auto
next
  case (Cons c a)
  have "take (length p) (c # a @ p @ b) \<noteq> p"
  proof
    assume hit: "take (length p) (c # a @ p @ b) = p"
    have "length p \<le> length (c # a @ butlast p)" using assms(2) by simp
    moreover have "c # a @ p @ b = (c # a @ butlast p) @ last p # b" using assms(2) by simp
    ultimately have "take (length p) (c # a @ butlast p) = p"
      using hit by (metis append_eq_conv_conj take_append take_all_iff diff_is_0_eq take0 append_Nil2)
    with Cons.prems show False by simp
  qed
  with Cons show ?case by (auto split: if_splits)
qed

lemma find_text_head:
  assumes "p \<noteq> []" and "hd p \<notin> set a"
  shows "find_text p (a @ p @ b) = Some (length a)"
  using assms
proof (induction a)
  case Nil
  then show ?case by (cases p) auto
next
  case (Cons c a)
  then show ?case by (cases p) auto
qed

lemma find_text_none: "p \<noteq> [] \<Longrightarrow> hd p \<notin> set s \<Longrightarrow> find_text p s = None"
  by (induction s) (cases p; auto)+

lemma find_char: "c \<notin> set a \<Longrightarrow> find_text [c] (a @ c # b) = Some (length a)"
  using find_text_head [of "[c]" a b] by simp

lemma strip_lead_append [simp]: "strip_lead p (p @ s) = Some s"
  by (simp add: strip_lead_def)

lemma ends_with_append [simp]: "ends_with p (s @ p)"
  by (simp add: ends_with_def)

lemma strip_tail_append [simp]: "strip_tail p (s @ p) = Some s"
  by (simp add: strip_tail_def)

lemma ends_with_last: "p \<noteq> [] \<Longrightarrow> ends_with p s \<Longrightarrow> s \<noteq> [] \<and> last s = last p"
  by (auto simp: ends_with_def) (metis last_drop drop_eq_Nil not_le)

lemma inner_text_quoted [simp]: "inner_text (a # s @ [b]) = s"
  by (simp add: inner_text_def butlast_append)

lemma split_on_nonempty [simp]: "split_on d s \<noteq> []"
  by (induction s) auto

lemma split_on_none: "d \<notin> set s \<Longrightarrow> split_on d s = [s]"
  by (induction s) auto

lemma split_on_append: "d \<notin> set a \<Longrightarrow> split_on d (a @ d # s) = a # split_on d s"
  by (induction a) auto

lemma trim_start_visible: "visible c \<Longrightarrow> trim_start (c # s) = c # s"
  by (simp add: visible_def)

lemma trim_visible:
  assumes "s \<noteq> []" and "visible (hd s)" and "visible (last s)"
  shows "trim s = s"
proof -
  have "ws_suffix_len (butlast s @ [last s]) = 0"
    using assms(3) by (intro ws_suffix_ascii) (simp_all add: visible_def)
  then have "trim_end s = s" using assms(1) by (simp add: trim_end_id)
  then show ?thesis
    using assms trim_start_visible [of "hd s" "tl s"] by (simp add: trim_def)
qed

lemma trim_start_blank: "trim_start (CHR '' '' # s) = trim_start s"
  by (subst trim_start.simps) (simp add: ws_len_def byte_of_def Let_def)

lemma trim_start_blanks: "trim_start (replicate n (CHR '' '') @ s) = trim_start s"
  by (induction n) (simp_all add: trim_start_blank)

lemma parse_show_u32: "parse_u32 (show_nat (unat n)) = Some (n :: u32)"
proof -
  obtain c t where s: "show_nat (unat n) = c # t" and c: "is_ascii_digit c"
    using show_nat_digits [of "unat n"] by (cases "show_nat (unat n)") auto
  have "parse_digits 0 (c # t) = Some (unat n)" using parse_show_nat [of "unat n"] s by simp
  moreover have "unat n < 2 ^ 32" using unsigned_less [of n] by simp
  ultimately show ?thesis
    using digit_not_sign [OF c] by (simp add: parse_u32_def s)
qed

lemma i64_range: "parse_i64 s = Some n \<Longrightarrow> in_i64 n"
  by (auto simp: parse_i64_def Let_def checked_def split: list.splits if_splits bind_splits)

end
