(* ===== verification/QuestParser.thy ===== *)
theory QuestParser
  imports QuestText QuestAst
begin

text \<open>
  The parser of the quest language (\<^verbatim>\<open>quest_dsl/src/parser.rs\<close>): lines with their indentation, the
  statements of events and blocks, the arguments of calls, and the recursive descent over the
  tokens of an expression. A loop over an index of the lines or of the tokens is a function of
  the lines or tokens that are left. The wording of an error message is its case of \<open>complaint\<close>.
\<close>

section \<open>The rest of the syntax tree\<close>

datatype ParamType = TyVnum | TyLevel | TyKey | TyStr

record QParam =
  param_name :: string
  param_type :: "ParamType option"

record Block =
  block_name :: string
  block_params :: "QParam list"
  block_body :: "Stmt list"

record InstanceDef =
  inst_name :: string
  inst_base :: string
  inst_args :: "(string \<times> Val) list"

datatype Quest =
    QConcrete QuestDef
  | QFamily string "QParam list" "QState list"
  | QInstance InstanceDef

record QuestFile =
  file_imports :: "string list"
  file_blocks :: "Block list"
  file_quests :: "Quest list"

section \<open>Errors\<close>

datatype complaint =
    ImportNotAtRoot
  | ExpectedAtRoot string
  | UnknownConstruction string
  | ExpectedState string
  | ExpectedOn string
  | UnknownStatement string
  | UnknownAction string
  | UnopenedParenthesis
  | ActionNotClosed string
  | UnopenedInArguments
  | ArgumentsNotClosed
  | EmptyValue
  | ParamsNotClosed string
  | UnknownParamType string
  | InstanceWithoutValue string
  | UnknownTrigger string
  | BadTarget string
  | MalformedNear "string list"
  | BetweenNeedsComma
  | EmptyExpression
  | CallSeparator
  | UnknownFunction string
  | ParamNotClosed

record ParseError =
  pe_line :: nat
  pe_col :: nat
  pe_msg :: complaint

definition err :: "nat \<Rightarrow> complaint \<Rightarrow> ParseError" where
  "err ln m = \<lparr>pe_line = ln, pe_col = 1, pe_msg = m\<rparr>"

section \<open>Tokens\<close>

definition flush :: "string list \<Rightarrow> string \<Rightarrow> string list" where
  "flush out cur = (if cur = [] then out else out @ [cur])"

definition is_word_char :: "char \<Rightarrow> bool" where
  "is_word_char c \<longleftrightarrow> is_ascii_digit c \<or> is_ascii_alpha c \<or> c = CHR ''_'' \<or> c = CHR ''@'' \<or> c = CHR ''.''"

text \<open>What a string literal takes up to and with the closing quote, and what is left.\<close>

fun literal :: "string \<Rightarrow> string \<times> string" where
  "literal [] = ([], [])"
| "literal (c # s) = (if c = dq then ([c], s) else (case literal s of (l, r) \<Rightarrow> (c # l, r)))"

lemma literal_length: "length (snd (literal s)) \<le> length s"
  by (induction s) (auto split: prod.splits)

function tok_loop :: "string list \<Rightarrow> string \<Rightarrow> string \<Rightarrow> string list" where
  "tok_loop out cur [] = flush out cur"
| "tok_loop out cur (c # s) =
    (if c = dq then (case literal s of (l, r) \<Rightarrow> tok_loop out (cur @ c # l) r)
     else if 0 < ws_len (c # s) then tok_loop (flush out cur) [] (drop (ws_len (c # s)) (c # s))
     else if c \<in> {CHR ''('', CHR '')'', CHR '',''} then tok_loop (flush out cur @ [[c]]) [] s
     else if is_word_char c then tok_loop out (cur @ [c]) s
     else let ch = take (utf8_len c) (c # s); r = drop (utf8_len c) (c # s)
          in if c \<in> {CHR ''='', CHR ''!'', CHR ''<'', CHR ''>''} \<and> r \<noteq> [] \<and> hd r = CHR ''=''
             then tok_loop (flush out cur @ [ch @ ''='']) [] (tl r)
             else tok_loop (flush out cur @ [ch]) [] r)"
  by pat_completeness auto
termination
proof (relation "measure (\<lambda>(_, _, s). length s)", goal_cases)
  case (2 out cur c s x y)
  then have "y = snd (literal s)" by (metis snd_conv)
  then show ?case using literal_length [of s] by (simp add: less_Suc_eq_le)
next
  case (6 out cur c s x y)
  then show ?case using utf8_len_pos [of c] by (simp add: less_Suc_eq_le)
next
  case (7 out cur c s x y)
  then show ?case using utf8_len_pos [of c] by (simp del: utf8_len_pos)
qed (simp_all add: less_Suc_eq_le)

definition tokenize :: "string \<Rightarrow> string list" where
  "tokenize s = tok_loop [] [] s"

section \<open>Expressions\<close>

text \<open>Functions that need no parentheses, and all functions.\<close>

definition bare_func :: "string \<Rightarrow> FuncName option" where
  "bare_func t =
    (if t = ''pc.level'' then Some PcLevel
     else if t = ''get_time'' then Some GetTime
     else if t = ''get_map_index'' then Some GetMapIndex
     else if t = ''get_gm_level'' then Some GetGmLevel
     else if t = ''is_test_server'' then Some IsTestServer
     else None)"

definition func_of :: "string \<Rightarrow> FuncName option" where
  "func_of t =
    (if t = ''pc.level'' then Some PcLevel
     else if t = ''count_item'' then Some CountItem
     else if t = ''get_qf'' then Some GetQf
     else if t = ''number'' then Some Number
     else if t = ''get_time'' then Some GetTime
     else if t = ''get_map_index'' then Some GetMapIndex
     else if t = ''get_gm_level'' then Some GetGmLevel
     else if t = ''pet.is_summon'' then Some PetIsSummon
     else if t = ''is_test_server'' then Some IsTestServer
     else None)"

definition cmp_of :: "string \<Rightarrow> CmpOp option" where
  "cmp_of t =
    (if t = ''=='' then Some CmpEq
     else if t = ''!='' then Some CmpNe
     else if t = ''<'' then Some CmpLt
     else if t = ''>'' then Some CmpGt
     else if t = ''<='' then Some CmpLe
     else if t = ''>='' then Some CmpGe
     else None)"

text \<open>A quoted text, with its quotes.\<close>

definition is_quoted :: "string \<Rightarrow> bool" where
  "is_quoted t \<longleftrightarrow> t \<noteq> [] \<and> hd t = dq \<and> last t = dq \<and> 2 \<le> length t"

text \<open>The end of \<^verbatim>\<open>parse_primary\<close>, for a token without an opening parenthesis behind it.\<close>

definition atom :: "string \<Rightarrow> string list \<Rightarrow> complaint + Expr \<times> string list" where
  "atom t ts =
    (case parse_i64 t of
       Some n \<Rightarrow> Inr (EValue (VNum n), ts)
     | None \<Rightarrow>
      (case strip_lead ''@'' t of
         Some key \<Rightarrow> Inr (EValue (VKey key), ts)
       | None \<Rightarrow>
           if is_quoted t then Inr (EValue (VStr (inner_text t)), ts)
           else (case bare_func t of
                   Some f \<Rightarrow> Inr (EFunc f [], ts)
                 | None \<Rightarrow>
                     if t = ''('' then
                       (case ts of
                          p # close # ts' \<Rightarrow> if close = '')'' then Inr (EValue (VParam p), ts') else Inl ParamNotClosed
                        | _ \<Rightarrow> Inl ParamNotClosed)
                     else Inr (ECapture t, ts))))"

text \<open>The name of a call is looked up once its arguments are read.\<close>

definition finish_call :: "string \<Rightarrow> complaint + Expr list \<times> string list \<Rightarrow> complaint + Expr \<times> string list" where
  "finish_call t r =
    (case r of
       Inl e \<Rightarrow> Inl e
     | Inr (args, ts) \<Rightarrow> (case func_of t of Some f \<Rightarrow> Inr (EFunc f args, ts) | None \<Rightarrow> Inl (UnknownFunction t)))"

function (sequential)
    parse_or :: "string list \<Rightarrow> complaint + Expr \<times> string list"
and or_loop :: "Expr \<Rightarrow> string list \<Rightarrow> complaint + Expr \<times> string list"
and parse_and :: "string list \<Rightarrow> complaint + Expr \<times> string list"
and and_loop :: "Expr \<Rightarrow> string list \<Rightarrow> complaint + Expr \<times> string list"
and parse_cmp :: "string list \<Rightarrow> complaint + Expr \<times> string list"
and parse_between :: "string list \<Rightarrow> complaint + Expr \<times> string list"
and parse_add :: "string list \<Rightarrow> complaint + Expr \<times> string list"
and add_loop :: "Expr \<Rightarrow> string list \<Rightarrow> complaint + Expr \<times> string list"
and parse_mul :: "string list \<Rightarrow> complaint + Expr \<times> string list"
and mul_loop :: "Expr \<Rightarrow> string list \<Rightarrow> complaint + Expr \<times> string list"
and parse_primary :: "string list \<Rightarrow> complaint + Expr \<times> string list"
and args_loop :: "Expr list \<Rightarrow> string list \<Rightarrow> complaint + Expr list \<times> string list" where
  "parse_or ts = (case parse_and ts of Inl e \<Rightarrow> Inl e | Inr (lhs, ts') \<Rightarrow> or_loop lhs ts')"
| "or_loop lhs ts =
    (if ts \<noteq> [] \<and> hd ts = ''or'' then
       (case parse_and (tl ts) of Inl e \<Rightarrow> Inl e | Inr (rhs, ts') \<Rightarrow> or_loop (EOr lhs rhs) ts')
     else Inr (lhs, ts))"
| "parse_and ts = (case parse_cmp ts of Inl e \<Rightarrow> Inl e | Inr (lhs, ts') \<Rightarrow> and_loop lhs ts')"
| "and_loop lhs ts =
    (if ts \<noteq> [] \<and> hd ts = ''and'' then
       (case parse_cmp (tl ts) of Inl e \<Rightarrow> Inl e | Inr (rhs, ts') \<Rightarrow> and_loop (EAnd lhs rhs) ts')
     else Inr (lhs, ts))"
| "parse_cmp ts =
    (case parse_between ts of
       Inl e \<Rightarrow> Inl e
     | Inr (lhs, ts') \<Rightarrow>
        (case ts' of
           [] \<Rightarrow> Inr (lhs, ts')
         | t # us \<Rightarrow>
            (case cmp_of t of
               None \<Rightarrow> Inr (lhs, ts')
             | Some oper \<Rightarrow>
                (case parse_between us of
                   Inl e \<Rightarrow> Inl e
                 | Inr (rhs, ts'') \<Rightarrow> Inr (ECompare lhs oper rhs, ts'')))))"
| "parse_between ts =
    (case parse_add ts of
       Inl e \<Rightarrow> Inl e
     | Inr (lhs, ts') \<Rightarrow>
         if ts' \<noteq> [] \<and> hd ts' = ''between'' then
           (case parse_add (tl ts') of
              Inl e \<Rightarrow> Inl e
            | Inr (lo, us) \<Rightarrow>
                if us \<noteq> [] \<and> hd us = '','' then
                  (case parse_add (tl us) of
                     Inl e \<Rightarrow> Inl e
                   | Inr (hi, us') \<Rightarrow> Inr (EBetween lhs lo hi, us'))
                else Inl BetweenNeedsComma)
         else Inr (lhs, ts'))"
| "parse_add ts = (case parse_mul ts of Inl e \<Rightarrow> Inl e | Inr (lhs, ts') \<Rightarrow> add_loop lhs ts')"
| "add_loop lhs ts =
    (if ts \<noteq> [] \<and> hd ts = ''+'' then
       (case parse_mul (tl ts) of Inl e \<Rightarrow> Inl e | Inr (rhs, ts') \<Rightarrow> add_loop (EAdd lhs rhs) ts')
     else if ts \<noteq> [] \<and> hd ts = ''-'' then
       (case parse_mul (tl ts) of Inl e \<Rightarrow> Inl e | Inr (rhs, ts') \<Rightarrow> add_loop (ESub lhs rhs) ts')
     else Inr (lhs, ts))"
| "parse_mul ts = (case parse_primary ts of Inl e \<Rightarrow> Inl e | Inr (lhs, ts') \<Rightarrow> mul_loop lhs ts')"
| "mul_loop lhs ts =
    (if ts \<noteq> [] \<and> hd ts = ''*'' then
       (case parse_primary (tl ts) of Inl e \<Rightarrow> Inl e | Inr (rhs, ts') \<Rightarrow> mul_loop (EMul lhs rhs) ts')
     else if ts \<noteq> [] \<and> hd ts = ''/'' then
       (case parse_primary (tl ts) of Inl e \<Rightarrow> Inl e | Inr (rhs, ts') \<Rightarrow> mul_loop (EDiv lhs rhs) ts')
     else Inr (lhs, ts))"
| "parse_primary ts =
    (case ts of
       [] \<Rightarrow> Inl EmptyExpression
     | t # us \<Rightarrow>
         if t = ''not'' then
           (case parse_primary us of Inl e \<Rightarrow> Inl e | Inr (a, ts') \<Rightarrow> Inr (ENot a, ts'))
         else if us \<noteq> [] \<and> hd us = ''('' then
           finish_call t (if tl us \<noteq> [] \<and> hd (tl us) = '')'' then Inr ([], tl (tl us)) else args_loop [] (tl us))
         else atom t us)"
| "args_loop args ts =
    (case parse_or ts of
       Inl e \<Rightarrow> Inl e
     | Inr (a, ts') \<Rightarrow>
         if ts' \<noteq> [] \<and> hd ts' = '')'' then Inr (args @ [a], tl ts')
         else if ts' \<noteq> [] \<and> hd ts' = '','' then args_loop (args @ [a]) (tl ts')
         else Inl CallSeparator)"
  by pat_completeness auto

text \<open>
  The recursion is nested: how far the loops go on depends on what the operands took. Every
  operand takes at least one token; that is proved on the domain of the functions, and ends them.
\<close>

lemmas descent_pinduct =
  parse_or_or_loop_parse_and_and_loop_parse_cmp_parse_between_parse_add_add_loop_parse_mul_mul_loop_parse_primary_args_loop.pinduct

lemmas descent_psimps =
  parse_or.psimps or_loop.psimps parse_and.psimps and_loop.psimps parse_cmp.psimps parse_between.psimps
  parse_add.psimps add_loop.psimps parse_mul.psimps mul_loop.psimps parse_primary.psimps args_loop.psimps

abbreviation "descends \<equiv>
  parse_or_or_loop_parse_and_and_loop_parse_cmp_parse_between_parse_add_add_loop_parse_mul_mul_loop_parse_primary_args_loop_dom"

definition leaves_less :: "nat \<Rightarrow> complaint + 'a \<times> string list \<Rightarrow> bool" where
  "leaves_less n r \<longleftrightarrow> (\<forall>a ts. r = Inr (a, ts) \<longrightarrow> length ts < n)"

lemma leaves_less_simps [simp]:
  "leaves_less n (Inl e)" "leaves_less n (Inr (a, ts)) \<longleftrightarrow> length ts < n"
  by (simp_all add: leaves_less_def)

lemma leaves_lessD: "leaves_less n r \<Longrightarrow> r = Inr (a, ts) \<Longrightarrow> length ts < n"
  by (simp add: leaves_less_def)

lemma leaves_less_mono: "leaves_less m r \<Longrightarrow> m \<le> n \<Longrightarrow> leaves_less n r"
  by (fastforce simp: leaves_less_def)

lemma finish_call_leaves: "leaves_less n r \<Longrightarrow> leaves_less n (finish_call t r)"
  by (auto simp: finish_call_def leaves_less_def split: sum.splits option.splits)

lemma leaves_less_case:
  assumes "leaves_less n r" and "\<And>a us. r = Inr (a, us) \<Longrightarrow> length us < n \<Longrightarrow> leaves_less m (f a us)"
  shows "leaves_less m (case r of Inl e \<Rightarrow> Inl e | Inr (a, us) \<Rightarrow> f a us)"
  using assms by (auto simp: leaves_less_def split: sum.split)

lemma atom_leaves: "leaves_less (Suc (length ts)) (atom t ts)"
  by (auto simp: atom_def split: option.splits list.splits)

lemma descent_leaves:
  "descends (Inl (Inl (Inl ts))) \<Longrightarrow> leaves_less (length ts) (parse_or ts)"
  "descends (Inl (Inl (Inr (Inl (lhs, ts))))) \<Longrightarrow> leaves_less (Suc (length ts)) (or_loop lhs ts)"
  "descends (Inl (Inl (Inr (Inr ts)))) \<Longrightarrow> leaves_less (length ts) (parse_and ts)"
  "descends (Inl (Inr (Inl (lhs, ts)))) \<Longrightarrow> leaves_less (Suc (length ts)) (and_loop lhs ts)"
  "descends (Inl (Inr (Inr (Inl ts)))) \<Longrightarrow> leaves_less (length ts) (parse_cmp ts)"
  "descends (Inl (Inr (Inr (Inr ts)))) \<Longrightarrow> leaves_less (length ts) (parse_between ts)"
  "descends (Inr (Inl (Inl ts))) \<Longrightarrow> leaves_less (length ts) (parse_add ts)"
  "descends (Inr (Inl (Inr (Inl (lhs, ts))))) \<Longrightarrow> leaves_less (Suc (length ts)) (add_loop lhs ts)"
  "descends (Inr (Inl (Inr (Inr ts)))) \<Longrightarrow> leaves_less (length ts) (parse_mul ts)"
  "descends (Inr (Inr (Inl (lhs, ts)))) \<Longrightarrow> leaves_less (Suc (length ts)) (mul_loop lhs ts)"
  "descends (Inr (Inr (Inr (Inl ts)))) \<Longrightarrow> leaves_less (length ts) (parse_primary ts)"
  "descends (Inr (Inr (Inr (Inr (args, ts))))) \<Longrightarrow> leaves_less (length ts) (args_loop args ts)"
proof (induction ts and lhs ts and ts and lhs ts and ts and ts and ts and lhs ts and ts and lhs ts and ts and args ts
    rule: descent_pinduct)
  case (1 ts)
  show ?case
    unfolding parse_or.psimps [OF 1(1)]
    by (rule leaves_less_case [OF 1(2)], rule leaves_less_mono [OF 1(3)]) auto
next
  case (2 lhs ts)
  show ?case
    unfolding or_loop.psimps [OF 2(1)]
    by (auto intro!: leaves_less_case [OF 2(2)] leaves_less_mono [OF 2(3)])
next
  case (3 ts)
  show ?case
    unfolding parse_and.psimps [OF 3(1)]
    by (rule leaves_less_case [OF 3(2)], rule leaves_less_mono [OF 3(3)]) auto
next
  case (4 lhs ts)
  show ?case
    unfolding and_loop.psimps [OF 4(1)]
    by (auto intro!: leaves_less_case [OF 4(2)] leaves_less_mono [OF 4(3)])
next
  case (5 ts)
  show ?case
    unfolding parse_cmp.psimps [OF 5(1)]
    by (rule leaves_less_case [OF 5(2)])
      (auto split: list.split option.split intro!: leaves_less_case [OF 5(3)])
next
  case (6 ts)
  show ?case
    unfolding parse_between.psimps [OF 6(1)]
  proof (rule leaves_less_case [OF 6(2)])
    fix lhs us
    assume us: "parse_add ts = Inr (lhs, us)" "length us < length ts"
    show "leaves_less (length ts) (if us \<noteq> [] \<and> hd us = ''between''
        then case parse_add (tl us) of Inl e \<Rightarrow> Inl e
          | Inr (lo, vs) \<Rightarrow>
              if vs \<noteq> [] \<and> hd vs = '','' then
                case parse_add (tl vs) of Inl e \<Rightarrow> Inl e | Inr (hi, vs') \<Rightarrow> Inr (EBetween lhs lo hi, vs')
              else Inl BetweenNeedsComma
        else Inr (lhs, us))"
    proof (cases "us \<noteq> [] \<and> hd us = ''between''")
      case True
      note third = 6(4) [OF us(1) refl True _ refl]
      from True us show ?thesis
        by (auto intro!: leaves_less_case [OF 6(3) [OF us(1) refl True]] intro!: leaves_less_case [OF third])
    qed (use us in auto)
  qed
next
  case (7 ts)
  show ?case
    unfolding parse_add.psimps [OF 7(1)]
    by (rule leaves_less_case [OF 7(2)], rule leaves_less_mono [OF 7(3)]) auto
next
  case (8 lhs ts)
  show ?case
  proof (cases "ts \<noteq> [] \<and> hd ts = ''+''")
    case True
    then show ?thesis unfolding add_loop.psimps [OF 8(1)]
      by (auto intro!: leaves_less_case [OF 8(2)] leaves_less_mono [OF 8(3)])
  next
    case False
    then show ?thesis unfolding add_loop.psimps [OF 8(1)]
      by (auto intro!: leaves_less_case [OF 8(4)] leaves_less_mono [OF 8(5)])
  qed
next
  case (9 ts)
  show ?case
    unfolding parse_mul.psimps [OF 9(1)]
    by (rule leaves_less_case [OF 9(2)], rule leaves_less_mono [OF 9(3)]) auto
next
  case (10 lhs ts)
  show ?case
  proof (cases "ts \<noteq> [] \<and> hd ts = ''*''")
    case True
    then show ?thesis unfolding mul_loop.psimps [OF 10(1)]
      by (auto intro!: leaves_less_case [OF 10(2)] leaves_less_mono [OF 10(3)])
  next
    case False
    then show ?thesis unfolding mul_loop.psimps [OF 10(1)]
      by (auto intro!: leaves_less_case [OF 10(4)] leaves_less_mono [OF 10(5)])
  qed
next
  case (11 ts)
  have call: "leaves_less (Suc (length us)) (if tl us \<noteq> [] \<and> hd (tl us) = '')'' then Inr ([], tl (tl us)) else args_loop [] (tl us))"
    if "ts = t # us" "t \<noteq> ''not''" "us \<noteq> [] \<and> hd us = ''(''" for t us
    using leaves_less_mono [OF 11(3) [OF that]] by auto
  show ?case
  proof (cases ts)
    case (Cons t us)
    show ?thesis
    proof (cases "t \<noteq> ''not'' \<and> us \<noteq> [] \<and> hd us = ''(''")
      case True
      then show ?thesis
        unfolding parse_primary.psimps [OF 11(1)]
        using finish_call_leaves [OF call [OF Cons]] by (simp add: Cons)
    next
      case False
      then show ?thesis
        unfolding parse_primary.psimps [OF 11(1)]
        by (auto simp: Cons intro!: leaves_less_case [OF 11(2)] leaves_less_mono [OF atom_leaves])
    qed
  qed (use parse_primary.psimps [OF 11(1)] in simp)
next
  case (12 args ts)
  show ?case
    unfolding args_loop.psimps [OF 12(1)]
    by (rule leaves_less_case [OF 12(2)]) (auto intro!: leaves_less_mono [OF 12(3)])
qed

text \<open>Lexicographic: the tokens that are left, then the level of the grammar.\<close>

lemma descent_total: "All descends"
proof (relation "inv_image (less_than <*lex*> less_than) (\<lambda>x. case x of
      Inl (Inl (Inl ts)) \<Rightarrow> (length ts, 6 :: nat)
    | Inl (Inl (Inr (Inl (lhs, ts)))) \<Rightarrow> (length ts, 6)
    | Inl (Inl (Inr (Inr ts))) \<Rightarrow> (length ts, 5)
    | Inl (Inr (Inl (lhs, ts))) \<Rightarrow> (length ts, 6)
    | Inl (Inr (Inr (Inl ts))) \<Rightarrow> (length ts, 4)
    | Inl (Inr (Inr (Inr ts))) \<Rightarrow> (length ts, 3)
    | Inr (Inl (Inl ts)) \<Rightarrow> (length ts, 2)
    | Inr (Inl (Inr (Inl (lhs, ts)))) \<Rightarrow> (length ts, 6)
    | Inr (Inl (Inr (Inr ts))) \<Rightarrow> (length ts, 1)
    | Inr (Inr (Inl (lhs, ts))) \<Rightarrow> (length ts, 6)
    | Inr (Inr (Inr (Inl ts))) \<Rightarrow> (length ts, 0)
    | Inr (Inr (Inr (Inr (args, ts)))) \<Rightarrow> (length ts, 7))", goal_cases)
qed (auto dest!: descent_leaves [THEN leaves_lessD])

termination parse_or
  by (rule descent_total)

lemmas descent_takes = descent_leaves [OF spec [OF descent_total]]

declare parse_or.simps [simp del] or_loop.simps [simp del] parse_and.simps [simp del] and_loop.simps [simp del]
  parse_cmp.simps [simp del] parse_between.simps [simp del] parse_add.simps [simp del] add_loop.simps [simp del]
  parse_mul.simps [simp del] mul_loop.simps [simp del] parse_primary.simps [simp del] args_loop.simps [simp del]

definition parse_expr :: "string \<Rightarrow> complaint + Expr" where
  "parse_expr s =
    (case parse_or (tokenize s) of
       Inl e \<Rightarrow> Inl e
     | Inr (e, ts) \<Rightarrow> if ts = [] then Inr e else Inl (MalformedNear ts))"

section \<open>Values and arguments\<close>

definition expr_chars :: "char set" where
  "expr_chars = set ''()+-*/<>=~ '' \<union> {CHR 0x27}"

definition parse_value :: "string \<Rightarrow> ParseError + Val" where
  "parse_value s =
    (let t = trim s in
     case strip_lead ''@'' t of
       Some key \<Rightarrow> Inr (VKey key)
     | None \<Rightarrow>
        if is_quoted t then Inr (VStr (inner_text t))
        else (case parse_i64 t of
           Some n \<Rightarrow> Inr (VNum n)
         | None \<Rightarrow>
            if t \<noteq> [] \<and> hd t = CHR ''('' \<and> last t = CHR '')'' \<and> 3 \<le> length t \<and> list_all is_name_char (inner_text t)
            then Inr (VParam (inner_text t))
            else if list_ex (\<lambda>c. c \<in> expr_chars) t then
              (case parse_expr t of
                 Inl m \<Rightarrow> Inl (err 1 m)
               | Inr e \<Rightarrow> Inr (case e of EValue v \<Rightarrow> v | _ \<Rightarrow> VExpr e))
            else (case bare_func t of
                    Some f \<Rightarrow> Inr (VExpr (EFunc f []))
                  | None \<Rightarrow> if t \<noteq> [] then Inr (VStr t) else Inl (err 1 EmptyValue))))"

fun split_loop :: "string list \<Rightarrow> int \<Rightarrow> string \<Rightarrow> bool \<Rightarrow> string \<Rightarrow> ParseError + string list" where
  "split_loop out depth cur in_str [] =
    (if in_str \<or> depth \<noteq> 0 then Inl (err 1 ArgumentsNotClosed) else Inr (flush out cur))"
| "split_loop out depth cur in_str (c # s) =
    (if c = dq then split_loop out depth (cur @ [c]) (\<not> in_str) s
     else if c = CHR ''('' \<and> \<not> in_str then split_loop out (depth + 1) (cur @ [c]) in_str s
     else if c = CHR '')'' \<and> \<not> in_str then
       (if depth - 1 < 0 then Inl (err 1 UnopenedInArguments) else split_loop out (depth - 1) (cur @ [c]) in_str s)
     else if c = CHR '','' \<and> \<not> in_str \<and> depth = 0 then split_loop (out @ [cur]) depth [] in_str s
     else split_loop out depth (cur @ [c]) in_str s)"

definition split_args :: "string \<Rightarrow> ParseError + string list" where
  "split_args s = split_loop [] 0 [] False s"

text \<open>\<^verbatim>\<open>collect::<R<Vec<_>>>()\<close>, and a loop that pushes the results.\<close>

fun map_result :: "('a \<Rightarrow> 'e + 'b) \<Rightarrow> 'a list \<Rightarrow> 'e + 'b list" where
  "map_result f [] = Inr []"
| "map_result f (x # xs) =
    (case f x of Inl e \<Rightarrow> Inl e | Inr y \<Rightarrow> (case map_result f xs of Inl e \<Rightarrow> Inl e | Inr ys \<Rightarrow> Inr (y # ys)))"

definition parse_values :: "string \<Rightarrow> ParseError + Val list" where
  "parse_values s =
    (case split_args s of Inl e \<Rightarrow> Inl e | Inr texts \<Rightarrow> map_result (\<lambda>a. parse_value (trim a)) texts)"

definition split_head :: "string \<Rightarrow> ParseError + string \<times> string" where
  "split_head s =
    (case find_text ''('' s of
       Some i \<Rightarrow>
        (let rest = trim (drop i s)
         in if \<not> ends_with '')'' rest then Inl (err 1 (ParamsNotClosed s))
            else Inr (trim (take i s), inner_text rest))
     | None \<Rightarrow> Inr (trim s, []))"

definition parse_use_args :: "string \<Rightarrow> ParseError + string \<times> Val list" where
  "parse_use_args s =
    (case split_head s of
       Inl e \<Rightarrow> Inl e
     | Inr (name, args_text) \<Rightarrow> (case parse_values args_text of Inl e \<Rightarrow> Inl e | Inr args \<Rightarrow> Inr (name, args)))"

definition param_type_of :: "string \<Rightarrow> ParamType option" where
  "param_type_of t =
    (if t = ''vnum'' then Some TyVnum else if t = ''level'' then Some TyLevel
     else if t = ''key'' then Some TyKey else if t = ''str'' then Some TyStr else None)"

definition parse_param :: "string \<Rightarrow> ParseError + QParam" where
  "parse_param s =
    (let p = trim s in
     case find_text '':'' p of
       Some i \<Rightarrow>
        (case param_type_of (trim (drop (i + 1) p)) of
           Some ty \<Rightarrow> Inr \<lparr>param_name = trim (take i p), param_type = Some ty\<rparr>
         | None \<Rightarrow> Inl (err 1 (UnknownParamType (trim (drop (i + 1) p)))))
     | None \<Rightarrow> Inr \<lparr>param_name = p, param_type = None\<rparr>)"

definition parse_name_params :: "string \<Rightarrow> ParseError + string \<times> QParam list" where
  "parse_name_params s =
    (case split_head s of
       Inl e \<Rightarrow> Inl e
     | Inr (name, args_text) \<Rightarrow>
        (case split_args args_text of
           Inl e \<Rightarrow> Inl e
         | Inr texts \<Rightarrow> (case map_result parse_param texts of Inl e \<Rightarrow> Inl e | Inr ps \<Rightarrow> Inr (name, ps))))"

definition parse_inst_arg :: "string \<Rightarrow> ParseError + string \<times> Val" where
  "parse_inst_arg s =
    (let p = trim s in
     case find_text '':'' p of
       None \<Rightarrow> Inl (err 1 (InstanceWithoutValue p))
     | Some i \<Rightarrow>
        (case parse_value (trim (drop (i + 1) p)) of Inl e \<Rightarrow> Inl e | Inr v \<Rightarrow> Inr (trim (take i p), v)))"

definition parse_name_args :: "string \<Rightarrow> ParseError + string \<times> (string \<times> Val) list" where
  "parse_name_args s =
    (case split_head s of
       Inl e \<Rightarrow> Inl e
     | Inr (name, args_text) \<Rightarrow>
        (case split_args args_text of
           Inl e \<Rightarrow> Inl e
         | Inr texts \<Rightarrow> (case map_result parse_inst_arg texts of Inl e \<Rightarrow> Inl e | Inr args \<Rightarrow> Inr (name, args))))"

section \<open>Triggers, actions and statements\<close>

definition parse_target :: "string \<Rightarrow> ParseError + TriggerTarget" where
  "parse_target s =
    (let t = trim s in
     case parse_u32 t of
       Some v \<Rightarrow> Inr (TargetNum v)
     | None \<Rightarrow>
         if t \<noteq> [] \<and> hd t = CHR ''('' \<and> last t = CHR '')'' \<and> 3 \<le> length t then Inr (TargetParam (inner_text t))
         else Inl (err 1 (BadTarget t)))"

definition plain_trigger :: "string \<Rightarrow> TriggerKind option" where
  "plain_trigger t =
    (if t = ''login'' then Some KLogin
     else if t = ''levelup'' then Some KLevelUp
     else if t = ''letter'' then Some KLetter
     else if t = ''button'' then Some KButton
     else if t = ''info'' then Some KInfo
     else if t = ''enter'' then Some KEnter
     else if t = ''logout'' then Some KLogout
     else if t = ''timer'' then Some KTimer
     else if t = ''__TARGET__.target.click'' then Some KTargetClick
     else None)"

definition with_target :: "(TriggerTarget \<Rightarrow> TriggerKind) \<Rightarrow> string \<Rightarrow> ParseError + Trigger" where
  "with_target k s = (case parse_target s of Inl e \<Rightarrow> Inl e | Inr t \<Rightarrow> Inr \<lparr>trigger_kind = k t\<rparr>)"

definition parse_trigger :: "string \<Rightarrow> ParseError + Trigger" where
  "parse_trigger s =
    (let t = trim s in
     case plain_trigger t of
       Some k \<Rightarrow> Inr \<lparr>trigger_kind = k\<rparr>
     | None \<Rightarrow>
      (case strip_tail ''.chat'' t of
         Some vnum' \<Rightarrow> with_target KChat vnum'
       | None \<Rightarrow>
        (case strip_tail ''.kill'' t of
           Some vnum' \<Rightarrow> with_target KKill vnum'
         | None \<Rightarrow>
          (case strip_tail ''.use'' t of
             Some vnum' \<Rightarrow> with_target KUse vnum'
           | None \<Rightarrow>
               if CHR ''.'' \<in> set t \<and> ends_with ''.*'' t then Inr \<lparr>trigger_kind = KRust t\<rparr>
               else Inl (err 1 (UnknownTrigger t))))))"

definition action_of :: "string \<Rightarrow> ActionName option" where
  "action_of t = map_of
    [(''say_title'', SayTitle), (''say'', Say), (''say_reward'', SayReward), (''say_item_vnum'', SayItemVnum),
     (''send_letter'', SendLetter), (''clear_letter'', ClearLetter), (''wait'', Wait), (''set_state'', SetState),
     (''set_quest_state'', SetQuestState), (''set_qf'', SetQf), (''give_item2'', GiveItem2),
     (''remove_item'', RemoveItem), (''target_vid'', TargetVid), (''target_delete'', TargetDelete),
     (''warp'', Warp), (''notice'', Notice), (''notice_multiline'', NoticeMultiline), (''affect_add'', AffectAdd),
     (''affect_remove'', AffectRemove), (''select'', Select), (''input_number'', InputNumber), (''return'', Return)] t"

definition parse_call :: "string \<Rightarrow> ParseError + string \<times> Val list \<times> string option" where
  "parse_call s =
    (let t = trim s;
         (call, capture) = (case find_text '' as '' t of
              Some i \<Rightarrow> (trim (take i t), Some (trim (drop (i + 4) t)))
            | None \<Rightarrow> (t, None))
     in case find_text ''('' call of
          None \<Rightarrow> if ends_with '')'' call then Inl (err 1 UnopenedParenthesis) else Inr (call, [], capture)
        | Some i \<Rightarrow>
            if \<not> ends_with '')'' call then Inl (err 1 (ActionNotClosed call))
            else
              (let name = trim (take i call); args_text = trim (butlast (drop (i + 1) call))
               in if args_text = [] then Inr (name, [], capture)
                  else (case parse_values args_text of Inl e \<Rightarrow> Inl e | Inr args \<Rightarrow> Inr (name, args, capture))))"

definition parse_action :: "string \<Rightarrow> ParseError + Action \<times> string option" where
  "parse_action s =
    (case parse_call s of
       Inl e \<Rightarrow> Inl e
     | Inr (name, args, capture) \<Rightarrow>
        (case action_of name of
           None \<Rightarrow> Inl (err 1 (UnknownAction name))
         | Some a \<Rightarrow> Inr (\<lparr>action_name = a, action_args = args\<rparr>, capture)))"

definition parse_stmt :: "nat \<Rightarrow> string \<Rightarrow> ParseError + Stmt" where
  "parse_stmt ln s =
    (case strip_lead ''-> '' s of
       Some rest \<Rightarrow>
        (case parse_action rest of Inl e \<Rightarrow> Inl e | Inr (a, capture) \<Rightarrow> Inr (SAction a capture))
     | None \<Rightarrow>
      (case strip_lead ''use '' s of
         Some rest \<Rightarrow>
          (case parse_use_args rest of Inl e \<Rightarrow> Inl e | Inr (name, args) \<Rightarrow> Inr (SUse name args))
       | None \<Rightarrow>
        (case strip_lead ''if '' s of
           Some rest \<Rightarrow>
            (case parse_expr rest of Inl m \<Rightarrow> Inl (err ln m) | Inr c \<Rightarrow> Inr (SBranch (Some c) []))
         | None \<Rightarrow>
             if s = ''else'' then Inr (SBranch None []) else Inl (err ln (UnknownStatement s)))))"

section \<open>Lines\<close>

text \<open>A line: its number, its indentation and its trimmed text.\<close>

type_synonym Line = "nat \<times> nat \<times> string"

definition indent_of :: "string \<Rightarrow> nat" where
  "indent_of raw = length raw - length (dropWhile (\<lambda>c. c = CHR '' '') raw)"

fun read_lines :: "nat \<Rightarrow> string list \<Rightarrow> Line list" where
  "read_lines n [] = []"
| "read_lines n (raw # ls) =
    (let t = trim raw
     in if t = [] \<or> hd t = CHR ''#'' then read_lines (Suc n) ls
        else (n, indent_of raw, t) # read_lines (Suc n) ls)"

text \<open>The statements of the lines that are indented deeper than \<open>ind\<close>.\<close>

fun stmts_below :: "nat \<Rightarrow> Line list \<Rightarrow> ParseError + Stmt list \<times> Line list" where
  "stmts_below ind [] = Inr ([], [])"
| "stmts_below ind ((ln, i, t) # ls) =
    (if ind < i then
       (case parse_stmt ln t of
          Inl e \<Rightarrow> Inl e
        | Inr s \<Rightarrow> (case stmts_below ind ls of Inl e \<Rightarrow> Inl e | Inr (ss, ls') \<Rightarrow> Inr (s # ss, ls')))
     else Inr ([], (ln, i, t) # ls))"

lemma stmts_below_length: "stmts_below ind ls = Inr (ss, ls') \<Longrightarrow> length ls' \<le> length ls"
  by (induction ind ls arbitrary: ss rule: stmts_below.induct)
    (auto split: if_splits sum.splits intro: le_SucI)

definition parse_block :: "Line list \<Rightarrow> string \<Rightarrow> ParseError + Block \<times> Line list" where
  "parse_block ls rest =
    (case parse_name_params rest of
       Inl e \<Rightarrow> Inl e
     | Inr (name, ps) \<Rightarrow>
        (case stmts_below 0 ls of
           Inl e \<Rightarrow> Inl e
         | Inr (body, ls') \<Rightarrow> Inr (\<lparr>block_name = name, block_params = ps, block_body = body\<rparr>, ls')))"

text \<open>\<^verbatim>\<open>if\<close> and \<^verbatim>\<open>else\<close> at the level of the event own the lines that are indented deeper than they are.\<close>

function event_body :: "Line list \<Rightarrow> ParseError + Stmt list \<times> Line list" where
  "event_body [] = Inr ([], [])"
| "event_body ((ln, i, t) # ls) =
    (if i \<le> 4 then Inr ([], (ln, i, t) # ls)
     else if strip_lead ''if '' t \<noteq> None \<or> t = ''else'' then
       (case (case strip_lead ''if '' t of
                Some c \<Rightarrow> (case parse_expr (trim c) of Inl m \<Rightarrow> Inl (err ln m) | Inr e \<Rightarrow> Inr (Some e))
              | None \<Rightarrow> Inr None) of
          Inl e \<Rightarrow> Inl e
        | Inr cond \<Rightarrow>
           (case stmts_below i ls of
              Inl e \<Rightarrow> Inl e
            | Inr (body, ls') \<Rightarrow>
               (case event_body ls' of
                  Inl e \<Rightarrow> Inl e
                | Inr (ss, ls'') \<Rightarrow> Inr (SBranch cond body # ss, ls''))))
     else
       (case parse_stmt ln t of
          Inl e \<Rightarrow> Inl e
        | Inr s \<Rightarrow> (case event_body ls of Inl e \<Rightarrow> Inl e | Inr (ss, ls') \<Rightarrow> Inr (s # ss, ls'))))"
  by pat_completeness auto
termination
  by (relation "measure length") (auto simp: less_Suc_eq_le dest: stmts_below_length)

lemma event_body_length: "event_body ls = Inr (ss, ls') \<Longrightarrow> length ls' \<le> length ls"
  by (induction ls arbitrary: ss rule: event_body.induct)
    (fastforce split: if_splits sum.splits option.splits dest: stmts_below_length intro: le_SucI)+

definition at_line :: "nat \<Rightarrow> ParseError + 'a \<Rightarrow> ParseError + 'a" where
  "at_line ln r = (case r of Inl e \<Rightarrow> Inl (e\<lparr>pe_line := ln\<rparr>) | Inr x \<Rightarrow> Inr x)"

definition parse_event :: "nat \<Rightarrow> string \<Rightarrow> Line list \<Rightarrow> ParseError + QEvent \<times> Line list" where
  "parse_event ln rest ls =
    (let (head, cond) = (case find_text '' with '' (trim rest) of
            Some w \<Rightarrow>
              (trim (take w (trim rest)),
               (case parse_expr (trim (drop (w + 6) (trim rest))) of Inl m \<Rightarrow> Inl (err ln m) | Inr e \<Rightarrow> Inr (Some e)))
          | None \<Rightarrow> (trim rest, Inr None))
     in case cond of
          Inl e \<Rightarrow> Inl e
        | Inr c \<Rightarrow>
           (case map_result (\<lambda>t. at_line ln (parse_trigger (trim t))) (split_on CHR '','' head) of
              Inl e \<Rightarrow> Inl e
            | Inr triggers \<Rightarrow>
               (case event_body ls of
                  Inl e \<Rightarrow> Inl e
                | Inr (body, ls') \<Rightarrow> Inr (\<lparr>ev_triggers = triggers, ev_condition = c, ev_body = body\<rparr>, ls'))))"

lemma parse_event_length: "parse_event ln rest ls = Inr (ev, ls') \<Longrightarrow> length ls' \<le> length ls"
  by (auto simp: parse_event_def split: sum.splits option.splits prod.splits dest: event_body_length)

function parse_events :: "Line list \<Rightarrow> ParseError + QEvent list \<times> Line list" where
  "parse_events [] = Inr ([], [])"
| "parse_events ((ln, i, t) # ls) =
    (if i \<le> 2 then Inr ([], (ln, i, t) # ls)
     else if i \<noteq> 4 then Inl (err ln (ExpectedOn t))
     else (case strip_lead ''on '' t of
             None \<Rightarrow> Inl (err ln (ExpectedOn t))
           | Some rest \<Rightarrow>
              (case parse_event ln rest ls of
                 Inl e \<Rightarrow> Inl e
               | Inr (ev, ls') \<Rightarrow>
                  (case parse_events ls' of Inl e \<Rightarrow> Inl e | Inr (evs, ls'') \<Rightarrow> Inr (ev # evs, ls'')))))"
  by pat_completeness auto
termination
  by (relation "measure length") (auto simp: less_Suc_eq_le dest: parse_event_length)

lemma parse_events_length: "parse_events ls = Inr (evs, ls') \<Longrightarrow> length ls' \<le> length ls"
  by (induction ls arbitrary: evs rule: parse_events.induct)
    (fastforce split: if_splits sum.splits option.splits dest: parse_event_length intro: le_SucI)+

function parse_states :: "Line list \<Rightarrow> ParseError + QState list \<times> Line list" where
  "parse_states [] = Inr ([], [])"
| "parse_states ((ln, i, t) # ls) =
    (if i = 0 then Inr ([], (ln, i, t) # ls)
     else if i \<noteq> 2 then Inl (err ln (ExpectedState t))
     else (case strip_lead ''state '' t of
             None \<Rightarrow> Inl (err ln (ExpectedState t))
           | Some rest \<Rightarrow>
              (case parse_events ls of
                 Inl e \<Rightarrow> Inl e
               | Inr (evs, ls') \<Rightarrow>
                  (case parse_states ls' of
                     Inl e \<Rightarrow> Inl e
                   | Inr (sts, ls'') \<Rightarrow> Inr (\<lparr>state_name = trim rest, state_events = evs\<rparr> # sts, ls'')))))"
  by pat_completeness auto
termination
  by (relation "measure length") (auto simp: less_Suc_eq_le dest: parse_events_length)

lemma parse_states_length: "parse_states ls = Inr (sts, ls') \<Longrightarrow> length ls' \<le> length ls"
  by (induction ls arbitrary: sts rule: parse_states.induct)
    (fastforce split: if_splits sum.splits option.splits dest: parse_events_length intro: le_SucI)+

definition parse_quest :: "string \<Rightarrow> Line list \<Rightarrow> ParseError + Quest \<times> Line list" where
  "parse_quest rest ls =
    (case find_text '' = '' rest of
       Some eq \<Rightarrow>
        (case parse_name_args (trim (drop (eq + 3) rest)) of
           Inl e \<Rightarrow> Inl e
         | Inr (base, args) \<Rightarrow>
             Inr (QInstance \<lparr>inst_name = trim (take eq rest), inst_base = base, inst_args = args\<rparr>, ls))
     | None \<Rightarrow>
      (case find_text '' family '' rest of
         Some fpos \<Rightarrow>
          (case parse_name_params (trim (drop (fpos + 8) rest)) of
             Inl e \<Rightarrow> Inl e
           | Inr (_, ps) \<Rightarrow>
              (case parse_states ls of
                 Inl e \<Rightarrow> Inl e
               | Inr (sts, ls') \<Rightarrow> Inr (QFamily (trim (take fpos rest)) ps sts, ls')))
       | None \<Rightarrow>
          (case parse_states ls of
             Inl e \<Rightarrow> Inl e
           | Inr (sts, ls') \<Rightarrow> Inr (QConcrete \<lparr>quest_name = trim rest, quest_states = sts\<rparr>, ls'))))"

lemma parse_quest_length: "parse_quest rest ls = Inr (q, ls') \<Longrightarrow> length ls' \<le> length ls"
  by (auto simp: parse_quest_def split: sum.splits option.splits dest: parse_states_length)

lemma parse_block_length: "parse_block ls rest = Inr (b, ls') \<Longrightarrow> length ls' \<le> length ls"
  by (auto simp: parse_block_def split: sum.splits dest: stmts_below_length)

section \<open>Files\<close>

fun parse_imports :: "Line list \<Rightarrow> ParseError + string list \<times> Line list" where
  "parse_imports [] = Inr ([], [])"
| "parse_imports ((ln, i, t) # ls) =
    (if i \<noteq> 0 then Inl (err ln ImportNotAtRoot)
     else (case strip_lead ''import '' t of
             Some rest \<Rightarrow>
               (case parse_imports ls of Inl e \<Rightarrow> Inl e | Inr (imps, ls') \<Rightarrow> Inr (trim rest # imps, ls'))
           | None \<Rightarrow> Inr ([], (ln, i, t) # ls)))"

function parse_items :: "Line list \<Rightarrow> ParseError + Block list \<times> Quest list" where
  "parse_items [] = Inr ([], [])"
| "parse_items ((ln, i, t) # ls) =
    (if i \<noteq> 0 then Inl (err ln (ExpectedAtRoot t))
     else (case strip_lead ''block '' t of
        Some rest \<Rightarrow>
         (case parse_block ls rest of
            Inl e \<Rightarrow> Inl e
          | Inr (b, ls') \<Rightarrow> (case parse_items ls' of Inl e \<Rightarrow> Inl e | Inr (bs, qs) \<Rightarrow> Inr (b # bs, qs)))
      | None \<Rightarrow>
         (case strip_lead ''quest '' t of
            Some rest \<Rightarrow>
             (case parse_quest rest ls of
                Inl e \<Rightarrow> Inl e
              | Inr (q, ls') \<Rightarrow> (case parse_items ls' of Inl e \<Rightarrow> Inl e | Inr (bs, qs) \<Rightarrow> Inr (bs, q # qs)))
          | None \<Rightarrow> Inl (err ln (UnknownConstruction t)))))"
  by pat_completeness auto
termination
  by (relation "measure length") (auto simp: less_Suc_eq_le dest: parse_block_length parse_quest_length)

definition parse :: "string \<Rightarrow> ParseError + QuestFile" where
  "parse text =
    (case parse_imports (read_lines 1 (lines_of text)) of
       Inl e \<Rightarrow> Inl e
     | Inr (imps, ls) \<Rightarrow>
        (case parse_items ls of
           Inl e \<Rightarrow> Inl e
         | Inr (bs, qs) \<Rightarrow> Inr \<lparr>file_imports = imps, file_blocks = bs, file_quests = qs\<rparr>))"

end
