(* ===== verification/QuestRender.thy ===== *)
theory QuestRender
  imports QuestParser
begin

text \<open>
  The printer of the quest language (\<^verbatim>\<open>quest_dsl/src/render.rs\<close>), from the syntax tree back to text.
\<close>

section \<open>Names\<close>

fun render_ty :: "ParamType \<Rightarrow> string" where
  "render_ty TyVnum = ''vnum''"
| "render_ty TyLevel = ''level''"
| "render_ty TyKey = ''key''"
| "render_ty TyStr = ''str''"

definition render_param :: "QParam \<Rightarrow> string" where
  "render_param p = (case param_type p of
     Some ty \<Rightarrow> param_name p @ '': '' @ render_ty ty | None \<Rightarrow> param_name p)"

definition render_params :: "QParam list \<Rightarrow> string" where
  "render_params ps = join_with '', '' (map render_param ps)"

fun render_target :: "TriggerTarget \<Rightarrow> string" where
  "render_target (TargetNum n) = show_nat (unat n)"
| "render_target (TargetParam p) = ''('' @ p @ '')''"

fun render_kind :: "TriggerKind \<Rightarrow> string" where
  "render_kind KLogin = ''login''"
| "render_kind KLevelUp = ''levelup''"
| "render_kind KLetter = ''letter''"
| "render_kind KButton = ''button''"
| "render_kind KInfo = ''info''"
| "render_kind KEnter = ''enter''"
| "render_kind KLogout = ''logout''"
| "render_kind KTimer = ''timer''"
| "render_kind (KChat t) = render_target t @ ''.chat''"
| "render_kind (KKill t) = render_target t @ ''.kill''"
| "render_kind (KUse t) = render_target t @ ''.use''"
| "render_kind KTargetClick = ''__TARGET__.target.click''"
| "render_kind (KRust s) = s"

definition render_trigger :: "Trigger \<Rightarrow> string" where
  "render_trigger t = render_kind (trigger_kind t)"

fun render_action :: "ActionName \<Rightarrow> string" where
  "render_action SayTitle = ''say_title''"
| "render_action Say = ''say''"
| "render_action SayReward = ''say_reward''"
| "render_action SayItemVnum = ''say_item_vnum''"
| "render_action SendLetter = ''send_letter''"
| "render_action ClearLetter = ''clear_letter''"
| "render_action Wait = ''wait''"
| "render_action SetState = ''set_state''"
| "render_action SetQuestState = ''set_quest_state''"
| "render_action SetQf = ''set_qf''"
| "render_action GiveItem2 = ''give_item2''"
| "render_action RemoveItem = ''remove_item''"
| "render_action TargetVid = ''target_vid''"
| "render_action TargetDelete = ''target_delete''"
| "render_action Warp = ''warp''"
| "render_action Notice = ''notice''"
| "render_action NoticeMultiline = ''notice_multiline''"
| "render_action AffectAdd = ''affect_add''"
| "render_action AffectRemove = ''affect_remove''"
| "render_action Select = ''select''"
| "render_action InputNumber = ''input_number''"
| "render_action Return = ''return''"

section \<open>Expressions and values\<close>

fun render_cmp :: "CmpOp \<Rightarrow> string" where
  "render_cmp CmpEq = ''==''"
| "render_cmp CmpNe = ''!=''"
| "render_cmp CmpLt = ''<''"
| "render_cmp CmpGt = ''>''"
| "render_cmp CmpLe = ''<=''"
| "render_cmp CmpGe = ''>=''"

fun render_func :: "FuncName \<Rightarrow> string" where
  "render_func PcLevel = ''pc.level''"
| "render_func CountItem = ''count_item''"
| "render_func GetQf = ''get_qf''"
| "render_func Number = ''number''"
| "render_func GetTime = ''get_time''"
| "render_func GetMapIndex = ''get_map_index''"
| "render_func GetGmLevel = ''get_gm_level''"
| "render_func PetIsSummon = ''pet.is_summon''"
| "render_func IsTestServer = ''is_test_server''"

fun render_expr :: "Expr \<Rightarrow> string" and render_value :: "Val \<Rightarrow> string" where
  "render_expr (EBetween a b c) = render_expr a @ '' between '' @ render_expr b @ '', '' @ render_expr c"
| "render_expr (ECompare a oper b) = render_expr a @ '' '' @ render_cmp oper @ '' '' @ render_expr b"
| "render_expr (EAdd a b) = render_expr a @ '' + '' @ render_expr b"
| "render_expr (ESub a b) = render_expr a @ '' - '' @ render_expr b"
| "render_expr (EMul a b) = render_expr a @ '' * '' @ render_expr b"
| "render_expr (EDiv a b) = render_expr a @ '' / '' @ render_expr b"
| "render_expr (EAnd a b) = render_expr a @ '' and '' @ render_expr b"
| "render_expr (EOr a b) = render_expr a @ '' or '' @ render_expr b"
| "render_expr (ENot a) = ''not '' @ render_expr a"
| "render_expr (EValue v) = render_value v"
| "render_expr (ECapture c) = c"
| "render_expr (EFunc f args) =
    (if args = [] then render_func f
     else render_func f @ ''('' @ join_with '', '' (map render_expr args) @ '')'')"
| "render_value (VNum n) = show_int n"
| "render_value (VStr s) = [dq] @ s @ [dq]"
| "render_value (VKey k) = ''@'' @ k"
| "render_value (VParam p) = ''('' @ p @ '')''"
| "render_value (VExpr e) = render_expr e"

section \<open>Statements, quests and files\<close>

definition render_call :: "Action \<Rightarrow> string" where
  "render_call a =
     render_action (action_name a) @ ''('' @ join_with '', '' (map render_value (action_args a)) @ '')''"

definition branch_head :: "Expr option \<Rightarrow> string" where
  "branch_head c = (case c of Some e \<Rightarrow> ''if '' @ render_expr e | None \<Rightarrow> ''else'')"

fun render_stmt :: "Stmt \<Rightarrow> string" where
  "render_stmt (SAction a capture) =
     ''-> '' @ render_call a @ (case capture of Some c \<Rightarrow> '' as '' @ c | None \<Rightarrow> [])"
| "render_stmt (SBranch c body) = branch_head c"
| "render_stmt (SUse name args) = ''use '' @ name @ ''('' @ join_with '', '' (map render_value args) @ '')''"

text \<open>\<^verbatim>\<open>writeln!\<close>.\<close>

definition out_line :: "string \<Rightarrow> string \<Rightarrow> string" where
  "out_line ind t = ind @ t @ [newline]"

fun render_stmts :: "string \<Rightarrow> Stmt list \<Rightarrow> string" where
  "render_stmts ind [] = []"
| "render_stmts ind (SBranch c body # ss) =
     out_line ind (branch_head c) @ render_stmts (ind @ ''  '') body @ render_stmts ind ss"
| "render_stmts ind (s # ss) = out_line ind (render_stmt s) @ render_stmts ind ss"

definition render_triggers :: "Trigger list \<Rightarrow> string" where
  "render_triggers ts = join_with '', '' (map render_trigger ts)"

definition event_head :: "QEvent \<Rightarrow> string" where
  "event_head ev = ''on '' @ render_triggers (ev_triggers ev)
     @ (case ev_condition ev of Some c \<Rightarrow> '' with '' @ render_expr c | None \<Rightarrow> [])"

definition render_event :: "QEvent \<Rightarrow> string" where
  "render_event ev = out_line ''    '' (event_head ev) @ render_stmts ''      '' (ev_body ev)"

definition render_state :: "QState \<Rightarrow> string" where
  "render_state sd = out_line ''  '' (''state '' @ state_name sd) @ concat (map render_event (state_events sd))"

definition render_states :: "QState list \<Rightarrow> string" where
  "render_states sds = concat (map render_state sds)"

fun render_quest :: "Quest \<Rightarrow> string" where
  "render_quest (QConcrete d) = out_line [] (''quest '' @ quest_name d) @ render_states (quest_states d)"
| "render_quest (QFamily name ps sds) =
     out_line [] (''quest '' @ name @ '' family ('' @ render_params ps @ '')'') @ render_states sds"
| "render_quest (QInstance i) =
     out_line [] (''quest '' @ inst_name i @ '' = '' @ inst_base i @ ''(''
       @ join_with '', '' (map (\<lambda>(n, v). n @ '': '' @ render_value v) (inst_args i)) @ '')'')"

definition render_block :: "Block \<Rightarrow> string" where
  "render_block b =
     out_line [] (''block '' @ block_name b @ ''('' @ render_params (block_params b) @ '')'')
     @ render_stmts ''  '' (block_body b)"

definition render :: "QuestFile \<Rightarrow> string" where
  "render f =
     concat (map (\<lambda>i. out_line [] (''import '' @ i)) (file_imports f))
     @ concat (map render_block (file_blocks f))
     @ concat (map render_quest (file_quests f))"

end
