(* ===== verification/QuestPrint.thy ===== *)
theory QuestPrint
  imports QuestRender
begin

text \<open>
  The parser reads back what the printer writes. The trees for which it does are \<open>printable\<close>:
  the language has no parentheses around expressions, so the operands have to be of the rank the
  grammar gives them, and names and texts must not contain the characters that delimit them.
\<close>

section \<open>Characters of the output\<close>

text \<open>A character of a name: letters, digits, the underscore and the dot.\<close>

definition is_ident :: "char \<Rightarrow> bool" where
  "is_ident c \<longleftrightarrow> is_name_char c \<or> c = CHR ''.''"

definition ident :: "string \<Rightarrow> bool" where
  "ident s \<longleftrightarrow> s \<noteq> [] \<and> list_all is_ident s"

lemma ident_char:
  assumes "is_ident c"
  shows "is_word_char c" "visible c" "c \<notin> {CHR '' '', CHR ''('', CHR '')'', CHR '','', CHR '':'', CHR ''='', CHR ''@'', CHR ''#'', dq, newline}"
    "c \<noteq> CHR ''-''" "c \<noteq> CHR ''+''"
  using assms
  by (auto simp: is_ident_def is_name_char_def is_word_char_def is_ascii_digit_def is_ascii_alpha_def visible_def byte_of_def)

lemma not_ident [simp]: "\<not> is_ident CHR ''(''" "\<not> is_ident CHR '')''" "\<not> is_ident CHR '' ''" "\<not> is_ident CHR '',''"
  using ident_char(3) by blast+

lemma ident_ends:
  assumes "ident s"
  shows "s \<noteq> []" "visible (hd s)" "visible (last s)" "trim s = s"
  using assms by (auto simp: ident_def list_all_iff intro!: trim_visible ident_char(2))

lemma ident_notin: "list_all is_ident s \<Longrightarrow> c \<in> {CHR '' '', CHR ''('', CHR '')'', CHR '','', CHR '':'', CHR ''='', dq, newline} \<Longrightarrow> c \<notin> set s"
  using ident_char(3) by (fastforce simp: list_all_iff)

section \<open>Tokens\<close>

text \<open>A character that ends a token.\<close>

definition ends_token :: "string \<Rightarrow> bool" where
  "ends_token r \<longleftrightarrow> r = [] \<or> hd r \<in> {CHR '' '', CHR '','', CHR '')''}"

lemma ws_visible: "visible c \<Longrightarrow> ws_len (c # s) = 0"
  by (simp add: visible_def)

lemma ws_blank: "ws_len (CHR '' '' # s) = 1"
  by (simp add: ws_len_def byte_of_def)

lemma tok_blank: "tok_loop out cur (CHR '' '' # r) = tok_loop (flush out cur) [] r"
  by (simp add: ws_blank)

lemma tok_open: "tok_loop out cur (CHR ''('' # r) = tok_loop (flush out cur @ [''('']) [] r"
  and tok_close: "tok_loop out cur (CHR '')'' # r) = tok_loop (flush out cur @ ['')'']) [] r"
  and tok_comma: "tok_loop out cur (CHR '','' # r) = tok_loop (flush out cur @ ['','']) [] r"
  by (simp_all add: ws_visible visible_def byte_of_def)

lemma tok_end: "ends_token r \<Longrightarrow> tok_loop out cur r = tok_loop (flush out cur) [] r"
  by (cases r) (auto simp: ends_token_def flush_def tok_blank tok_comma tok_close simp del: tok_loop.simps(2))

lemma word_char:
  assumes "is_word_char c"
  shows "visible c" "c \<notin> {dq, CHR ''('', CHR '')'', CHR '',''}"
  using assms by (auto simp: is_word_char_def is_ascii_digit_def is_ascii_alpha_def visible_def byte_of_def)

lemma tok_word: "list_all is_word_char w \<Longrightarrow> tok_loop out cur (w @ r) = tok_loop out (cur @ w) r"
proof (induction w arbitrary: cur)
  case (Cons c w)
  then show ?case using word_char [of c] by (simp add: ws_visible)
qed simp

lemma literal_append: "dq \<notin> set s \<Longrightarrow> literal (s @ dq # r) = (s @ [dq], r)"
  by (induction s) auto

lemma tok_literal: "dq \<notin> set s \<Longrightarrow> tok_loop out cur (dq # s @ dq # r) = tok_loop out (cur @ dq # s @ [dq]) r"
  by (simp add: literal_append)

definition operator_chars :: "char set" where
  "operator_chars = set ''+-*/=!<>''"

lemma operator_char: "c \<in> operator_chars \<Longrightarrow>
    visible c \<and> \<not> is_word_char c \<and> utf8_len c = 1 \<and> c \<noteq> dq \<and> c \<noteq> CHR ''('' \<and> c \<noteq> CHR '')'' \<and> c \<noteq> CHR '',''"
  by (auto simp: operator_chars_def visible_def is_word_char_def is_ascii_digit_def is_ascii_alpha_def byte_of_def
      utf8_len_def Let_def)

declare tok_loop.simps(2) [simp del]

lemma tok_sign: "c \<in> operator_chars \<Longrightarrow> tok_loop out [] (c # CHR '' '' # r) = tok_loop (out @ [[c]]) [] (CHR '' '' # r)"
  using operator_char [of c] by (subst tok_loop.simps(2)) (simp add: ws_visible flush_def)

lemma tok_relation: "c \<in> set ''=!<>'' \<Longrightarrow> tok_loop out [] (c # CHR ''='' # r) = tok_loop (out @ [[c, CHR ''='']]) [] r"
  using operator_char [of c] by (subst tok_loop.simps(2)) (simp add: ws_visible flush_def operator_chars_def)

lemma tok_token: "list_all is_word_char w \<Longrightarrow> w \<noteq> [] \<Longrightarrow> ends_token r \<Longrightarrow> tok_loop out [] (w @ r) = tok_loop (out @ [w]) [] r"
  by (simp add: tok_word tok_end [of r out w] flush_def)

lemma tok_text: "dq \<notin> set s \<Longrightarrow> ends_token r \<Longrightarrow> tok_loop out [] (dq # s @ dq # r) = tok_loop (out @ [dq # s @ [dq]]) [] r"
  by (simp add: tok_literal tok_end [of r out "dq # s @ [dq]"] flush_def)

lemma tok_signs:
  "tok_loop out [] (CHR ''+'' # CHR '' '' # r) = tok_loop (out @ [''+'']) [] (CHR '' '' # r)"
  "tok_loop out [] (CHR ''-'' # CHR '' '' # r) = tok_loop (out @ [''-'']) [] (CHR '' '' # r)"
  "tok_loop out [] (CHR ''*'' # CHR '' '' # r) = tok_loop (out @ [''*'']) [] (CHR '' '' # r)"
  "tok_loop out [] (CHR ''/'' # CHR '' '' # r) = tok_loop (out @ [''/'']) [] (CHR '' '' # r)"
  "tok_loop out [] (render_cmp oper @ CHR '' '' # r) = tok_loop (out @ [render_cmp oper]) [] (CHR '' '' # r)"
  by (simp_all add: tok_sign operator_chars_def) (cases oper; simp add: tok_sign tok_relation operator_chars_def)

lemma tok_keywords:
  "tok_loop out [] (CHR ''a'' # CHR ''n'' # CHR ''d'' # CHR '' '' # r) = tok_loop (out @ [''and'']) [] (CHR '' '' # r)"
  "tok_loop out [] (CHR ''o'' # CHR ''r'' # CHR '' '' # r) = tok_loop (out @ [''or'']) [] (CHR '' '' # r)"
  "tok_loop out [] (CHR ''n'' # CHR ''o'' # CHR ''t'' # CHR '' '' # r) = tok_loop (out @ [''not'']) [] (CHR '' '' # r)"
  "tok_loop out [] (CHR ''b'' # CHR ''e'' # CHR ''t'' # CHR ''w'' # CHR ''e'' # CHR ''e'' # CHR ''n'' # CHR '' '' # r) = tok_loop (out @ [''between'']) [] (CHR '' '' # r)"
  using tok_token [of "''and''" "CHR '' '' # r" out] tok_token [of "''or''" "CHR '' '' # r" out]
    tok_token [of "''not''" "CHR '' '' # r" out] tok_token [of "''between''" "CHR '' '' # r" out]
  by (simp_all add: ends_token_def is_word_char_def is_ascii_alpha_def byte_of_def)

section \<open>The tokens of a tree\<close>

fun expr_tokens :: "Expr \<Rightarrow> string list" and value_tokens :: "Val \<Rightarrow> string list"
  and more_tokens :: "Expr list \<Rightarrow> string list" where
  "expr_tokens (EBetween a b c) = expr_tokens a @ ''between'' # expr_tokens b @ '','' # expr_tokens c"
| "expr_tokens (ECompare a oper b) = expr_tokens a @ render_cmp oper # expr_tokens b"
| "expr_tokens (EAdd a b) = expr_tokens a @ ''+'' # expr_tokens b"
| "expr_tokens (ESub a b) = expr_tokens a @ ''-'' # expr_tokens b"
| "expr_tokens (EMul a b) = expr_tokens a @ ''*'' # expr_tokens b"
| "expr_tokens (EDiv a b) = expr_tokens a @ ''/'' # expr_tokens b"
| "expr_tokens (EAnd a b) = expr_tokens a @ ''and'' # expr_tokens b"
| "expr_tokens (EOr a b) = expr_tokens a @ ''or'' # expr_tokens b"
| "expr_tokens (ENot a) = ''not'' # expr_tokens a"
| "expr_tokens (EValue v) = value_tokens v"
| "expr_tokens (ECapture c) = [c]"
| "expr_tokens (EFunc f args) =
    (case args of [] \<Rightarrow> [render_func f] | a # as \<Rightarrow> render_func f # ''('' # expr_tokens a @ more_tokens as)"
| "value_tokens (VNum n) = [show_int n]"
| "value_tokens (VStr s) = [dq # s @ [dq]]"
| "value_tokens (VKey k) = [''@'' @ k]"
| "value_tokens (VParam p) = [''('', p, '')'']"
| "value_tokens (VExpr e) = expr_tokens e"
| "more_tokens [] = ['')'']"
| "more_tokens (a # as) = '','' # expr_tokens a @ more_tokens as"

text \<open>The rank of an expression: the level of the grammar that reads it.\<close>

fun rank :: "Expr \<Rightarrow> nat" where
  "rank (EOr a b) = 6"
| "rank (EAnd a b) = 5"
| "rank (ECompare a oper b) = 4"
| "rank (EBetween a b c) = 3"
| "rank (EAdd a b) = 2"
| "rank (ESub a b) = 2"
| "rank (EMul a b) = 1"
| "rank (EDiv a b) = 1"
| "rank e = 0"

definition reserved :: "string set" where
  "reserved = {''not'', ''and'', ''or'', ''between''}"

text \<open>A bare word that is read as a capture.\<close>

definition capture_ok :: "string \<Rightarrow> bool" where
  "capture_ok c \<longleftrightarrow> ident c \<and> \<not> is_ascii_digit (hd c) \<and> c \<notin> reserved \<and> bare_func c = None"

fun shaped :: "Expr \<Rightarrow> bool" and literal_ok :: "Val \<Rightarrow> bool" where
  "shaped (EBetween a b c) \<longleftrightarrow> shaped a \<and> shaped b \<and> shaped c \<and> rank a \<le> 2 \<and> rank b \<le> 2 \<and> rank c \<le> 2"
| "shaped (ECompare a oper b) \<longleftrightarrow> shaped a \<and> shaped b \<and> rank a \<le> 3 \<and> rank b \<le> 3"
| "shaped (EAdd a b) \<longleftrightarrow> shaped a \<and> shaped b \<and> rank a \<le> 2 \<and> rank b \<le> 1"
| "shaped (ESub a b) \<longleftrightarrow> shaped a \<and> shaped b \<and> rank a \<le> 2 \<and> rank b \<le> 1"
| "shaped (EMul a b) \<longleftrightarrow> shaped a \<and> shaped b \<and> rank a \<le> 1 \<and> rank b = 0"
| "shaped (EDiv a b) \<longleftrightarrow> shaped a \<and> shaped b \<and> rank a \<le> 1 \<and> rank b = 0"
| "shaped (EAnd a b) \<longleftrightarrow> shaped a \<and> shaped b \<and> rank a \<le> 5 \<and> rank b \<le> 4"
| "shaped (EOr a b) \<longleftrightarrow> shaped a \<and> shaped b \<and> rank b \<le> 5"
| "shaped (ENot a) \<longleftrightarrow> shaped a \<and> rank a = 0"
| "shaped (EValue v) \<longleftrightarrow> literal_ok v"
| "shaped (ECapture c) \<longleftrightarrow> capture_ok c"
| "shaped (EFunc f args) \<longleftrightarrow> (args = [] \<longrightarrow> bare_func (render_func f) = Some f) \<and> (\<forall>a \<in> set args. shaped a)"
| "literal_ok (VNum n) \<longleftrightarrow> 0 \<le> n \<and> in_i64 n"
| "literal_ok (VStr s) \<longleftrightarrow> dq \<notin> set s \<and> newline \<notin> set s"
| "literal_ok (VKey k) \<longleftrightarrow> list_all is_ident k"
| "literal_ok (VParam p) \<longleftrightarrow> p \<noteq> [] \<and> list_all is_name_char p"
| "literal_ok (VExpr e) \<longleftrightarrow> False"

lemma name_word: "list_all is_name_char p \<Longrightarrow> list_all is_word_char p"
  by (auto simp: list_all_iff is_name_char_def is_word_char_def)

lemma ident_word: "list_all is_ident p \<Longrightarrow> list_all is_word_char p"
  by (auto simp: list_all_iff is_ident_def is_name_char_def is_word_char_def)

lemma show_nat_word: "list_all is_word_char (show_nat n)"
  using show_nat_digits [of n] by (auto simp: list_all_iff is_word_char_def)

lemma func_word: "list_all is_ident (render_func f)" "render_func f \<noteq> []"
  by (cases f; simp add: is_ident_def is_name_char_def is_ascii_alpha_def byte_of_def)+

lemma ends_token_simps [simp]:
  "ends_token []" "ends_token (CHR '' '' # r)" "ends_token (CHR '','' # r)" "ends_token (CHR '')'' # r)"
  by (simp_all add: ends_token_def)

text \<open>The arguments behind the first one.\<close>

lemma join_more: "join_with '', '' (x # map f xs) = x @ concat (map (\<lambda>a. '', '' @ f a) xs)"
  by (induction xs arbitrary: x) auto

lemma ends_more [simp]: "ends_token (concat (map (\<lambda>a. CHR '','' # CHR '' '' # f a) as) @ CHR '')'' # r)"
  by (cases as) simp_all

lemma show_nat_nonempty [simp]: "show_nat n \<noteq> []"
  using show_nat_digits by blast

lemma tok_expr:
  "shaped e \<Longrightarrow> ends_token r \<Longrightarrow> tok_loop out [] (render_expr e @ r) = tok_loop (out @ expr_tokens e) [] r"
  "literal_ok v \<Longrightarrow> ends_token r \<Longrightarrow> tok_loop out [] (render_value v @ r) = tok_loop (out @ value_tokens v) [] r"
  "list_all shaped es \<Longrightarrow> ends_token r \<Longrightarrow>
    tok_loop out [] (concat (map (\<lambda>a. '', '' @ render_expr a) es) @ CHR '')'' # r) = tok_loop (out @ more_tokens es) [] r"
proof (induction e and v and es arbitrary: out r and out r and out r rule: expr_tokens_value_tokens_more_tokens.induct)
  case (12 f args)
  show ?case
  proof (cases args)
    case Nil
    with 12 show ?thesis by (simp add: tok_token ident_word func_word)
  next
    case (Cons a as)
    have "tok_loop out [] (render_func f @ CHR ''('' # render_expr a @ s) =
        tok_loop (out @ [render_func f, ''('']) [] (render_expr a @ s)" for s
      by (simp add: tok_word ident_word func_word tok_open flush_def)
    with 12 Cons show ?thesis by (simp add: join_more list_all_iff)
  qed
next
  case (15 k)
  then show ?case using tok_token [of "''@'' @ k" r out] by (simp add: ident_word is_word_char_def)
qed (simp_all add: tok_blank tok_signs tok_keywords tok_comma tok_close tok_open tok_text tok_token flush_def
    capture_ok_def ident_def ident_word name_word show_nat_word show_int_def)

section \<open>The descent over printed tokens\<close>

text \<open>Tokens after which an operand of each level is not yet complete.\<close>

definition calls :: "string set" where "calls = {''(''}"
definition factors :: "string set" where "factors = calls \<union> {''*'', ''/''}"
definition terms :: "string set" where "terms = factors \<union> {''+'', ''-'', ''between''}"
definition comparisons :: "string set" where "comparisons = terms \<union> {''=='', ''!='', ''<'', ''>'', ''<='', ''>=''}"
definition conjuncts :: "string set" where "conjuncts = comparisons \<union> {''and''}"
definition disjuncts :: "string set" where "disjuncts = conjuncts \<union> {''or''}"

lemmas follow_defs = calls_def factors_def terms_def comparisons_def conjuncts_def disjuncts_def

definition settled :: "string set \<Rightarrow> string list \<Rightarrow> bool" where
  "settled S ts \<longleftrightarrow> ts = [] \<or> hd ts \<notin> S"

lemma settled_simps [simp]: "settled S []" "settled S (t # ts) \<longleftrightarrow> t \<notin> S"
  by (simp_all add: settled_def)

lemma settled_mono: "settled T ts \<Longrightarrow> S \<subseteq> T \<Longrightarrow> settled S ts"
  by (auto simp: settled_def)

text \<open>Each level reads the tokens of a tree; the levels with a loop go on with what follows.\<close>

fun rereads :: "nat \<Rightarrow> Expr \<Rightarrow> bool" where
  "rereads 0 e \<longleftrightarrow> (\<forall>ts. settled calls ts \<longrightarrow> parse_primary (expr_tokens e @ ts) = Inr (e, ts))"
| "rereads (Suc 0) e \<longleftrightarrow> (\<forall>ts. settled calls ts \<longrightarrow> parse_mul (expr_tokens e @ ts) = mul_loop e ts)"
| "rereads (Suc (Suc 0)) e \<longleftrightarrow> (\<forall>ts. settled factors ts \<longrightarrow> parse_add (expr_tokens e @ ts) = add_loop e ts)"
| "rereads (Suc (Suc (Suc 0))) e \<longleftrightarrow> (\<forall>ts. settled terms ts \<longrightarrow> parse_between (expr_tokens e @ ts) = Inr (e, ts))"
| "rereads (Suc (Suc (Suc (Suc 0)))) e \<longleftrightarrow> (\<forall>ts. settled comparisons ts \<longrightarrow> parse_cmp (expr_tokens e @ ts) = Inr (e, ts))"
| "rereads (Suc (Suc (Suc (Suc (Suc 0))))) e \<longleftrightarrow> (\<forall>ts. settled comparisons ts \<longrightarrow> parse_and (expr_tokens e @ ts) = and_loop e ts)"
| "rereads n e \<longleftrightarrow> (\<forall>ts. settled conjuncts ts \<longrightarrow> parse_or (expr_tokens e @ ts) = or_loop e ts)"

lemma mul_loop_stop: "settled factors ts \<Longrightarrow> mul_loop e ts = Inr (e, ts)"
  by (subst mul_loop.simps) (auto simp: settled_def follow_defs)

lemma add_loop_stop: "settled terms ts \<Longrightarrow> add_loop e ts = Inr (e, ts)"
  by (subst add_loop.simps) (auto simp: settled_def follow_defs)

lemma and_loop_stop: "settled conjuncts ts \<Longrightarrow> and_loop e ts = Inr (e, ts)"
  by (subst and_loop.simps) (auto simp: settled_def follow_defs)

lemma or_loop_stop: "settled disjuncts ts \<Longrightarrow> or_loop e ts = Inr (e, ts)"
  by (subst or_loop.simps) (auto simp: settled_def follow_defs)

lemma follow_free [simp]:
  "'','' \<notin> disjuncts" "'')'' \<notin> disjuncts" "'','' \<notin> conjuncts" "'')'' \<notin> conjuncts" "'','' \<notin> terms" "'','' \<notin> factors"
  "''or'' \<notin> conjuncts" "''and'' \<notin> comparisons" "''between'' \<notin> factors" "''+'' \<notin> factors" "''-'' \<notin> factors"
  "''*'' \<notin> calls" "''/'' \<notin> calls"
  by (simp_all add: follow_defs)

lemma cmp_of_calm: "t \<notin> comparisons \<Longrightarrow> cmp_of t = None"
  by (auto simp: cmp_of_def follow_defs)

lemma follow_subset: "calls \<subseteq> factors" "factors \<subseteq> terms" "terms \<subseteq> comparisons" "comparisons \<subseteq> conjuncts" "conjuncts \<subseteq> disjuncts"
  by (auto simp: follow_defs)

lemma settled_between: "settled terms ts \<Longrightarrow> \<not> (ts \<noteq> [] \<and> hd ts = ''between'')"
  by (auto simp: settled_def follow_defs)

lemma rereads_Suc: "rereads n e \<Longrightarrow> rereads (Suc n) e"
proof (induction n e rule: rereads.induct)
  case (1 e)
  then show ?case by (simp add: parse_mul.simps)
next
  case (2 e)
  then show ?case
    by (simp add: parse_add.simps mul_loop_stop settled_mono [OF _ follow_subset(1)])
next
  case (3 e)
  then show ?case
    by (simp add: parse_between.simps add_loop_stop settled_mono [OF _ follow_subset(2)] settled_between)
next
  case (4 e)
  then show ?case
    by (auto simp: parse_cmp.simps settled_mono [OF _ follow_subset(3)] cmp_of_calm split: list.split)
next
  case (5 e)
  then show ?case by (simp add: parse_and.simps)
next
  case (6 e)
  then show ?case
    by (simp add: parse_or.simps and_loop_stop settled_mono [OF _ follow_subset(4)])
qed simp_all

lemma rereads_mono: "rereads m e \<Longrightarrow> m \<le> n \<Longrightarrow> rereads n e"
  by (induction n) (auto simp: le_Suc_eq rereads_Suc simp del: rereads.simps)

lemma i64_none: "\<not> is_ascii_digit c \<Longrightarrow> c \<noteq> CHR ''-'' \<Longrightarrow> c \<noteq> CHR ''+'' \<Longrightarrow> parse_i64 (c # t) = None"
  by (simp add: parse_i64_def)

lemma atom_simps [simp]:
  "dq \<notin> set x \<Longrightarrow> atom (dq # x @ [dq]) ts = Inr (EValue (VStr x), ts)"
  "atom (CHR ''@'' # k) ts = Inr (EValue (VKey k), ts)"
  "atom ''('' (p # '')'' # ts) = Inr (EValue (VParam p), ts)"
  by (simp_all add: atom_def i64_none is_ascii_digit_def byte_of_def strip_lead_def is_quoted_def bare_func_def)

lemma atom_number: "in_i64 n \<Longrightarrow> atom (show_int n) ts = Inr (EValue (VNum n), ts)"
  by (simp add: atom_def parse_show_int)

lemma capture_head: "capture_ok c \<Longrightarrow> \<exists>x t. c = x # t \<and> is_ident x \<and> \<not> is_ascii_digit x"
  by (cases c) (auto simp: capture_ok_def ident_def)

lemma atom_capture:
  assumes "capture_ok c"
  shows "atom c ts = Inr (ECapture c, ts)"
proof -
  obtain x t where c: "c = x # t" and x: "is_ident x" "\<not> is_ascii_digit x" using capture_head [OF assms] by blast
  have "c \<noteq> ''(''" "bare_func c = None" using assms by (auto simp: capture_ok_def ident_def)
  then show ?thesis
    using ident_char [OF x(1)] x(2) by (simp add: atom_def c i64_none strip_lead_def is_quoted_def)
qed

lemma atom_bare: "bare_func (render_func f) = Some f \<Longrightarrow> atom (render_func f) ts = Inr (EFunc f [], ts)"
  by (cases f) (simp_all add: atom_def i64_none is_ascii_digit_def byte_of_def strip_lead_def is_quoted_def bare_func_def)

lemma func_of_render [simp]: "func_of (render_func f) = Some f"
  by (cases f) (simp_all add: func_of_def)

lemma cmp_of_render [simp]: "cmp_of (render_cmp oper) = Some oper"
  by (cases oper) (simp_all add: cmp_of_def)

lemma render_cmp_calm [simp]: "render_cmp oper \<notin> terms"
  by (cases oper) (simp_all add: follow_defs)

text \<open>No tree starts with a closing parenthesis.\<close>

lemma tokens_start: "shaped e \<Longrightarrow> \<exists>t ts. expr_tokens e = t # ts \<and> t \<noteq> '')''"
  and "literal_ok v \<Longrightarrow> \<exists>t ts. value_tokens v = t # ts \<and> t \<noteq> '')''" and True
proof (induction e and v and "[] :: Expr list" rule: expr_tokens_value_tokens_more_tokens.induct)
  case (11 c)
  then show ?case by (auto simp: capture_ok_def ident_def)
next
  case (12 f args)
  then show ?case by (cases f) (auto split: list.split)
next
  case (13 n)
  then show ?case using show_nat_digits [of "nat n"]
    by (auto simp: show_int_def list_all_iff is_ascii_digit_def byte_of_def)
qed auto

lemma args_read:
  assumes "list_all (\<lambda>a. shaped a \<and> rereads 6 a) (a # as)"
  shows "args_loop acc (expr_tokens a @ more_tokens as @ ts) = Inr (acc @ a # as, ts)"
  using assms
proof (induction as arbitrary: acc a)
  case Nil
  have "parse_or (expr_tokens a @ '')'' # ts) = Inr (a, '')'' # ts)"
    using Nil by (simp add: numeral_eq_Suc or_loop_stop)
  then show ?case by (simp add: args_loop.simps)
next
  case (Cons b as)
  have "parse_or (expr_tokens a @ '','' # r) = Inr (a, '','' # r)" for r
    using Cons.prems by (simp add: numeral_eq_Suc or_loop_stop)
  moreover have "args_loop (acc @ [a]) (expr_tokens b @ more_tokens as @ ts) = Inr ((acc @ [a]) @ b # as, ts)"
    by (rule Cons.IH) (use Cons.prems in simp)
  ultimately show ?case by (subst args_loop.simps) simp
qed

lemma rereads_rank: "shaped e \<Longrightarrow> rereads (rank e) e" and "literal_ok v \<Longrightarrow> rereads 0 (EValue v)"
proof (induction e and v)
  case (EBetween a b c)
  then have abc: "rereads 2 a" "rereads 2 b" "rereads 2 c" by (auto intro: rereads_mono simp del: rereads.simps)
  have "parse_add (expr_tokens a @ ''between'' # r) = Inr (a, ''between'' # r)"
    "parse_add (expr_tokens b @ '','' # r) = Inr (b, '','' # r)" for r
    using abc by (simp_all add: numeral_eq_Suc add_loop.simps)
  moreover have "settled terms ts \<Longrightarrow> parse_add (expr_tokens c @ ts) = Inr (c, ts)" for ts
    using abc by (simp add: numeral_eq_Suc add_loop_stop settled_mono [OF _ follow_subset(2)])
  ultimately show ?case by (simp add: numeral_eq_Suc parse_between.simps)
next
  case (ECompare a oper b)
  then have "rereads 3 a" "rereads 3 b" by (auto intro: rereads_mono simp del: rereads.simps)
  then show ?case
    by (simp add: numeral_eq_Suc parse_cmp.simps settled_mono [OF _ follow_subset(3)])
next
  case (EAdd a b)
  then have "rereads 2 a" "rereads 1 b" by (auto intro: rereads_mono simp del: rereads.simps)
  then show ?case
    by (simp add: numeral_eq_Suc add_loop.simps [of a] mul_loop_stop settled_mono [OF _ follow_subset(1)])
next
  case (ESub a b)
  then have "rereads 2 a" "rereads 1 b" by (auto intro: rereads_mono simp del: rereads.simps)
  then show ?case
    by (simp add: numeral_eq_Suc add_loop.simps [of a] mul_loop_stop settled_mono [OF _ follow_subset(1)])
next
  case (EMul a b)
  then have "rereads 1 a" "rereads 0 b" by (auto intro: rereads_mono simp del: rereads.simps)
  then show ?case by (simp add: mul_loop.simps [of a])
next
  case (EDiv a b)
  then have "rereads 1 a" "rereads 0 b" by (auto intro: rereads_mono simp del: rereads.simps)
  then show ?case by (simp add: mul_loop.simps [of a])
next
  case (EAnd a b)
  then have "rereads 5 a" "rereads 4 b" by (auto intro: rereads_mono simp del: rereads.simps)
  then show ?case by (simp add: numeral_eq_Suc and_loop.simps [of a])
next
  case (EOr a b)
  moreover have "rank a \<le> 6" by (cases a) simp_all
  ultimately have "rereads 6 a" "rereads 5 b" by (auto intro: rereads_mono simp del: rereads.simps)
  then show ?case
    by (simp add: numeral_eq_Suc or_loop.simps [of a] and_loop_stop settled_mono [OF _ follow_subset(4)])
next
  case (ENot a)
  then show ?case by (simp add: parse_primary.simps)
next
  case (ECapture c)
  then show ?case by (auto simp: parse_primary.simps settled_def calls_def atom_capture capture_ok_def reserved_def)
next
  case (EFunc f args)
  have name: "render_func f \<noteq> ''not''" by (cases f) simp_all
  show ?case
  proof (cases args)
    case Nil
    with EFunc name show ?thesis by (auto simp: parse_primary.simps settled_def calls_def atom_bare)
  next
    case (Cons a as)
    have "rank b \<le> 6" for b by (cases b) simp_all
    with EFunc Cons have args: "list_all (\<lambda>a. shaped a \<and> rereads 6 a) (a # as)"
      by (auto simp: list_all_iff intro: rereads_mono)
    obtain t r where "expr_tokens a = t # r" "t \<noteq> '')''" using tokens_start [of a] EFunc Cons by auto
    with args_read [OF args, of "[]"] name Cons show ?thesis
      by (simp add: parse_primary.simps finish_call_def)
  qed
next
  case (EValue v)
  then show ?case by simp
next
  case (VNum n)
  have "hd (show_int n) \<noteq> CHR ''n''" using VNum show_nat_digits [of "nat n"]
    by (cases "show_nat (nat n)") (auto simp: show_int_def is_ascii_digit_def byte_of_def)
  then have "show_int n \<noteq> ''not''" by auto
  with VNum show ?case by (auto simp: parse_primary.simps settled_def calls_def atom_number)
next
  case (VStr s)
  then show ?case by (auto simp: parse_primary.simps settled_def calls_def)
next
  case (VKey k)
  then show ?case by (auto simp: parse_primary.simps settled_def calls_def)
next
  case (VParam p)
  then have "p \<noteq> ''(''" by (auto simp: is_name_char_def is_ascii_digit_def is_ascii_alpha_def byte_of_def)
  then show ?case by (auto simp: parse_primary.simps)
qed simp_all

lemma rank_le: "rank e \<le> 6"
  by (cases e) simp_all

lemma expr_read:
  assumes "shaped e"
  shows "parse_expr (render_expr e) = Inr e"
proof -
  have "rereads 6 e" using rereads_mono [OF rereads_rank(1) [OF assms] rank_le] .
  then have "\<forall>ts. settled conjuncts ts \<longrightarrow> parse_or (expr_tokens e @ ts) = or_loop e ts"
    by (simp add: numeral_eq_Suc)
  then have "parse_or (expr_tokens e @ []) = or_loop e []" using settled_simps(1) by blast
  then show ?thesis
    using tok_expr(1) [OF assms, of "[]" "[]"] by (simp add: parse_expr_def tokenize_def flush_def or_loop_stop)
qed

section \<open>Values\<close>

text \<open>The first and the last character of a printed tree, and what does not occur in it.\<close>

lemma show_nat_ends: "visible (hd (show_nat n))" "visible (last (show_nat n))" "newline \<notin> set (show_nat n)"
proof -
  have "list_all visible (show_nat n)"
    using show_nat_digits [of n] by (auto simp: list_all_iff visible_def is_ascii_digit_def)
  then show "visible (hd (show_nat n))" "visible (last (show_nat n))" "newline \<notin> set (show_nat n)"
    by (auto simp: list_all_iff visible_def byte_of_def)
qed

lemma visible_chars [simp]:
  "visible dq" "visible CHR ''@''" "visible CHR ''(''" "visible CHR '')''" "visible CHR ''-''" "visible CHR ''n''"
  by (simp_all add: visible_def byte_of_def)

lemma last_ident: "s \<noteq> [] \<Longrightarrow> list_all is_ident s \<Longrightarrow> visible (last s)"
  by (auto simp: list_all_iff intro: ident_char(2))

lemma hd_ident: "s \<noteq> [] \<Longrightarrow> list_all is_ident s \<Longrightarrow> visible (hd s)"
  by (auto simp: list_all_iff intro: ident_char(2))

lemma newline_joined: "newline \<notin> set (join_with '', '' xs) \<longleftrightarrow> (\<forall>x \<in> set xs. newline \<notin> set x)"
  by (induction xs rule: induct_list012) auto

lemma name_ident: "list_all is_name_char p \<Longrightarrow> list_all is_ident p"
  by (auto simp: list_all_iff is_ident_def)

lemma printed_expr:
  "shaped e \<Longrightarrow> render_expr e \<noteq> [] \<and> visible (hd (render_expr e)) \<and> visible (last (render_expr e)) \<and> newline \<notin> set (render_expr e)"
  "literal_ok v \<Longrightarrow> render_value v \<noteq> [] \<and> visible (hd (render_value v)) \<and> visible (last (render_value v)) \<and> newline \<notin> set (render_value v)"
proof (induction e and v)
  case (ECompare a oper b)
  moreover have "newline \<notin> set (render_cmp oper)" by (cases oper) simp_all
  ultimately show ?case by simp
next
  case (ECapture c)
  then show ?case
    using ident_ends [of c] ident_notin [of c newline] by (simp add: capture_ok_def ident_def)
next
  case (EFunc f args)
  then show ?case
    using func_word [of f] hd_ident [of "render_func f"] last_ident [of "render_func f"] ident_notin [of "render_func f" newline]
    by (auto simp: newline_joined)
next
  case (VNum n)
  then show ?case using show_nat_ends [of "nat n"] by (simp add: show_int_def)
next
  case (VKey k)
  then show ?case using last_ident [of k] ident_notin [of k newline] by simp
next
  case (VParam p)
  then show ?case using ident_notin [OF name_ident, of p newline] by simp
qed simp_all

text \<open>
  An argument that is read back: a literal, or an expression that does not look like one and has
  no comma of a \<^verbatim>\<open>between\<close> outside of calls.
\<close>

fun no_between :: "Expr \<Rightarrow> bool" where
  "no_between (EBetween a b c) \<longleftrightarrow> False"
| "no_between (ECompare a oper b) \<longleftrightarrow> no_between a \<and> no_between b"
| "no_between (EAdd a b) \<longleftrightarrow> no_between a \<and> no_between b"
| "no_between (ESub a b) \<longleftrightarrow> no_between a \<and> no_between b"
| "no_between (EMul a b) \<longleftrightarrow> no_between a \<and> no_between b"
| "no_between (EDiv a b) \<longleftrightarrow> no_between a \<and> no_between b"
| "no_between (EAnd a b) \<longleftrightarrow> no_between a \<and> no_between b"
| "no_between (EOr a b) \<longleftrightarrow> no_between a \<and> no_between b"
| "no_between (ENot a) \<longleftrightarrow> no_between a"
| "no_between e \<longleftrightarrow> True"

fun is_leaf :: "Expr \<Rightarrow> bool" where
  "is_leaf (EValue v) \<longleftrightarrow> True"
| "is_leaf (ECapture c) \<longleftrightarrow> True"
| "is_leaf e \<longleftrightarrow> False"

fun arg_ok :: "Val \<Rightarrow> bool" where
  "arg_ok (VNum n) \<longleftrightarrow> in_i64 n"
| "arg_ok (VExpr e) \<longleftrightarrow> shaped e \<and> \<not> is_leaf e \<and> no_between e
     \<and> hd (render_expr e) \<noteq> CHR ''@'' \<and> \<not> is_quoted (render_expr e)"
| "arg_ok v \<longleftrightarrow> literal_ok v"

lemma printed_value:
  "arg_ok v \<Longrightarrow> render_value v \<noteq> [] \<and> visible (hd (render_value v)) \<and> visible (last (render_value v)) \<and> newline \<notin> set (render_value v)"
proof (cases v)
  case (VNum n)
  then show ?thesis
    using show_nat_ends [of "nat n"] show_nat_ends [of "nat (- n)"] by (simp add: show_int_def)
next
  case (VExpr e)
  then show "arg_ok v \<Longrightarrow> ?thesis" using printed_expr(1) [of e] by simp
qed (use printed_expr(2) [of v] in simp_all)

lemma trim_value: "arg_ok v \<Longrightarrow> trim (render_value v) = render_value v"
  using printed_value [of v] by (simp add: trim_visible)

text \<open>A compound expression contains a blank or a parenthesis, unless it is the name of a function.\<close>

lemma i64_digits: "parse_i64 s = Some n \<Longrightarrow> list_all is_ascii_digit (tl s)"
proof -
  have digits: "parse_digits a t = Some m \<Longrightarrow> list_all is_ascii_digit t" for a t m
    by (induction a t rule: parse_digits.induct) (auto split: if_splits)
  show "parse_i64 s = Some n \<Longrightarrow> list_all is_ascii_digit (tl s)"
    by (auto simp: parse_i64_def Let_def split: list.splits if_splits bind_splits dest!: digits)
qed

lemma compound_blank:
  assumes "shaped e" and "\<not> is_leaf e" and "\<forall>f. e \<noteq> EFunc f []"
  shows "CHR '' '' \<in> set (tl (render_expr e)) \<or> CHR ''('' \<in> set (tl (render_expr e)) \<and> hd (render_expr e) \<noteq> CHR ''(''"
proof -
  have tl_app: "x \<noteq> [] \<Longrightarrow> set (tl (x @ y)) = set (tl x) \<union> set y" for x y :: string by simp
  have "hd (render_func f) \<noteq> CHR ''(''" for f by (cases f) simp_all
  then show ?thesis
    using assms printed_expr(1) func_word
    by (cases e) (auto simp: tl_app hd_append)
qed

lemma in_butlast: "x \<in> set t \<Longrightarrow> x \<noteq> last t \<Longrightarrow> x \<in> set (butlast t)"
  by (induction t) auto

lemma value_expr_read:
  assumes "shaped e" and "\<not> is_leaf e" and "hd (render_expr e) \<noteq> CHR ''@''" and "\<not> is_quoted (render_expr e)"
  shows "parse_value (render_expr e) = Inr (VExpr e)"
proof -
  let ?t = "render_expr e"
  have t: "?t \<noteq> []" "trim ?t = ?t"
    using printed_expr(1) [OF assms(1)] by (auto simp: trim_visible)
  have key: "strip_lead ''@'' ?t = None" using assms(3) t(1) by (cases ?t) (auto simp: strip_lead_def)
  have value_of: "(case e of EValue v \<Rightarrow> v | _ \<Rightarrow> VExpr e) = VExpr e" using assms(2) by (cases e) simp_all
  show ?thesis
  proof (cases "\<exists>f. e = EFunc f []")
    case True
    then obtain f where f: "e = EFunc f []" by blast
    with assms(1) have "bare_func (render_func f) = Some f" by simp
    with f t key assms(4) show ?thesis
      by (cases f) (simp_all add: parse_value_def Let_def i64_none is_ascii_digit_def byte_of_def expr_chars_def bare_func_def)
  next
    case False
    then have mark: "CHR '' '' \<in> set (tl ?t) \<or> CHR ''('' \<in> set (tl ?t) \<and> hd ?t \<noteq> CHR ''(''"
      by (intro compound_blank assms) simp
    have "parse_i64 ?t = None"
    proof (rule ccontr)
      assume "parse_i64 ?t \<noteq> None"
      then obtain n where "parse_i64 ?t = Some n" by blast
      from i64_digits [OF this] mark show False by (auto simp: list_all_iff is_ascii_digit_def byte_of_def)
    qed
    moreover have "\<not> list_all is_name_char (inner_text ?t)" if "hd ?t = CHR ''(''" "last ?t = CHR '')''" "3 \<le> length ?t"
    proof -
      have "CHR '' '' \<in> set (tl ?t)" using mark that(1) by simp
      moreover have "tl ?t \<noteq> []" using that(3) by (cases ?t) auto
      moreover have "last (tl ?t) = CHR '')''" using that(2) calculation(2) by (simp add: last_tl)
      ultimately have "CHR '' '' \<in> set (inner_text ?t)"
        unfolding inner_text_def by (intro in_butlast) simp_all
      moreover have "\<not> is_name_char CHR '' ''" by (simp add: is_name_char_def is_ascii_digit_def is_ascii_alpha_def byte_of_def)
      ultimately show ?thesis by (auto simp: list_all_iff)
    qed
    moreover have "list_ex (\<lambda>c. c \<in> expr_chars) ?t"
      using mark t(1) by (cases ?t) (auto simp: list_ex_iff expr_chars_def)
    ultimately show ?thesis
      using key t assms(4) expr_read [OF assms(1)] value_of by (simp add: parse_value_def Let_def)
  qed
qed

lemma value_read: "arg_ok v \<Longrightarrow> parse_value (render_value v) = Inr v"
proof (cases v)
  case (VNum n)
  then have t: "arg_ok v \<Longrightarrow> trim (show_int n) = show_int n" using trim_value [of v] by simp
  have "hd (show_int n) \<noteq> CHR ''@'' \<and> hd (show_int n) \<noteq> dq" "show_int n \<noteq> []"
    using show_nat_digits [of "nat n"]
    by (cases "show_nat (nat n)"; auto simp: show_int_def is_ascii_digit_def byte_of_def)+
  then have "strip_lead ''@'' (show_int n) = None" "\<not> is_quoted (show_int n)"
    by (cases "show_int n"; auto simp: strip_lead_def is_quoted_def)+
  then show "arg_ok v \<Longrightarrow> ?thesis" using VNum t by (simp add: parse_value_def Let_def parse_show_int)
next
  case (VStr s)
  then show "arg_ok v \<Longrightarrow> ?thesis" using trim_value [of v]
    by (simp add: parse_value_def Let_def strip_lead_def is_quoted_def)
next
  case (VKey k)
  have "strip_lead ''@'' (CHR ''@'' # k) = Some k" by (simp add: strip_lead_def)
  then show "arg_ok v \<Longrightarrow> ?thesis" using trim_value [of v] VKey
    by (simp add: parse_value_def Let_def)
next
  case (VParam p)
  then show "arg_ok v \<Longrightarrow> ?thesis" using trim_value [of v]
    by (auto simp: parse_value_def Let_def strip_lead_def is_quoted_def i64_none is_ascii_digit_def byte_of_def Suc_le_eq)
next
  case (VExpr e)
  then show "arg_ok v \<Longrightarrow> ?thesis" using value_expr_read [of e] by simp
qed

section \<open>Argument lists\<close>

text \<open>A text the scan of the arguments passes at every depth from \<open>k\<close> on.\<close>

definition passes :: "int \<Rightarrow> string \<Rightarrow> bool" where
  "passes k s \<longleftrightarrow> (\<forall>d out cur r. k \<le> d \<longrightarrow> split_loop out d cur False (s @ r) = split_loop out d (cur @ s) False r)"

lemma passes_append: "passes k s \<Longrightarrow> passes k t \<Longrightarrow> passes k (s @ t)"
  by (simp add: passes_def)

lemma passes_Nil [simp]: "passes k []"
  by (simp add: passes_def)

lemma passes_mono: "passes k s \<Longrightarrow> k \<le> l \<Longrightarrow> passes l s"
  by (auto simp: passes_def)

lemma passes_char: "c \<notin> {dq, CHR ''('', CHR '')'', CHR '',''} \<Longrightarrow> passes k [c]"
  by (simp add: passes_def)

lemma passes_plain: "set s \<inter> {dq, CHR ''('', CHR '')'', CHR '',''} = {} \<Longrightarrow> passes k s"
proof (induction s)
  case (Cons c s)
  then show ?case using passes_append [OF passes_char [of c], of k s] by force
qed simp

lemma passes_comma: "0 < k \<Longrightarrow> passes k '', ''"
  by (auto simp: passes_def)

lemma passes_parens: "0 \<le> k \<Longrightarrow> passes (k + 1) s \<Longrightarrow> passes k (CHR ''('' # s @ '')'')"
  by (auto simp: passes_def)

lemma split_text: "dq \<notin> set s \<Longrightarrow> split_loop out d cur True (s @ r) = split_loop out d (cur @ s) True r"
  by (induction s arbitrary: cur) auto

lemma passes_text: "dq \<notin> set s \<Longrightarrow> passes k (dq # s @ [dq])"
  by (simp add: passes_def split_text)

lemma passes_ident: "list_all is_ident s \<Longrightarrow> passes k s"
  by (rule passes_plain) (use ident_notin in blast)

lemma passes_digits: "passes k (show_nat n)"
  by (rule passes_plain) (use show_nat_digits [of n] in \<open>auto simp: list_all_iff is_ascii_digit_def byte_of_def\<close>)

lemma passes_join: "0 < k \<Longrightarrow> (\<And>x. x \<in> set xs \<Longrightarrow> passes k x) \<Longrightarrow> passes k (join_with '', '' xs)"
proof (induction xs rule: induct_list012)
  case (3 x y zs)
  then show ?case using passes_append [OF passes_append [OF _ passes_comma], of k x "join_with '', '' (y # zs)"] by simp
qed auto

lemma passes_words:
  "passes k '' + ''" "passes k '' - ''" "passes k '' * ''" "passes k '' / ''" "passes k '' and ''" "passes k '' or ''"
  "passes k ''not ''" "passes k '' between ''" "passes k '' ''"
  by (rule passes_plain; simp)+

lemma passes_cmp: "passes k (render_cmp oper)"
  by (rule passes_plain) (cases oper; simp)

definition passed :: "Expr \<Rightarrow> bool" where
  "passed e \<longleftrightarrow> (\<forall>k. (if no_between e then 0 \<le> k else 0 < k) \<longrightarrow> passes k (render_expr e))"

lemma passed_join: "\<forall>a \<in> set args. passed a \<Longrightarrow> passes 1 (join_with '', '' (map render_expr args))"
  by (rule passes_join) (auto simp: passed_def)

lemma passed_binary:
  assumes "passed a" and "passed b" and "\<And>k. passes k w"
    and "render_expr e = render_expr a @ w @ render_expr b" and "no_between e = (no_between a \<and> no_between b)"
  shows "passed e"
  using assms passes_append [OF passes_append, of _ "render_expr a" w "render_expr b"]
  by (auto simp: passed_def)

lemma passes_expr:
  "shaped e \<Longrightarrow> passed e"
  "literal_ok v \<Longrightarrow> passes 0 (render_value v)"
proof (induction e and v)
  case (EBetween a b c)
  have "passes k (render_expr (EBetween a b c))" if "0 < k" for k
    using EBetween that passes_append [OF passes_append [OF passes_append [OF passes_append]], of k
        "render_expr a" "'' between ''" "render_expr b" "'', ''" "render_expr c"]
    by (simp add: passed_def passes_words passes_comma split: if_splits)
  then show ?case by (simp add: passed_def)
next
  case (ECompare a oper b)
  then have "passed a" "passed b" by simp_all
  then show ?case
    using passes_append [OF passes_append [OF passes_append [OF passes_append]], of _
        "render_expr a" "'' ''" "render_cmp oper" "'' ''" "render_expr b"]
    by (simp add: passed_def passes_words passes_cmp split: if_splits)
next
  case (EFunc f args)
  then have "passes 1 (join_with '', '' (map render_expr args))" by (intro passed_join) auto
  then have "0 \<le> k \<Longrightarrow> passes k (render_func f @ CHR ''('' # join_with '', '' (map render_expr args) @ '')'')" for k
    using passes_append [OF passes_ident [OF func_word(1)] passes_parens, of k "join_with '', '' (map render_expr args)" f]
    by (simp add: passes_mono)
  then show ?case using passes_ident [OF func_word(1)] by (simp add: passed_def)
next
  case (VNum n)
  then show ?case by (simp add: show_int_def passes_digits)
next
  case (VStr s)
  then show ?case by (simp add: passes_text)
next
  case (VKey k)
  then show ?case using passes_append [OF passes_char [of "CHR ''@''"] passes_ident [of k]] by simp
next
  case (VParam p)
  then show ?case using passes_parens [of 0 p] by (simp add: passes_ident name_ident)
next
  case (ECapture c)
  then show ?case by (simp add: passed_def passes_ident capture_ok_def ident_def)
next
  case (ENot a)
  then show ?case using passes_append [of _ "''not ''" "render_expr a"]
    by (simp add: passed_def passes_words split: if_splits)
next
  case (EAdd a b)
  then show ?case by - (rule passed_binary [of a b "'' + ''"]; simp add: passes_words)
next
  case (ESub a b)
  then show ?case by - (rule passed_binary [of a b "'' - ''"]; simp add: passes_words)
next
  case (EMul a b)
  then show ?case by - (rule passed_binary [of a b "'' * ''"]; simp add: passes_words)
next
  case (EDiv a b)
  then show ?case by - (rule passed_binary [of a b "'' / ''"]; simp add: passes_words)
next
  case (EAnd a b)
  then show ?case by - (rule passed_binary [of a b "'' and ''"]; simp add: passes_words)
next
  case (EOr a b)
  then show ?case by - (rule passed_binary [of a b "'' or ''"]; simp add: passes_words)
next
  case (EValue v)
  then show ?case by (auto simp: passed_def intro: passes_mono)
qed simp

end
