(* ===== verification/QuestReread.thy ===== *)
theory QuestReread
  imports QuestPrint
begin

text \<open>
  The lines the printer writes are read back: the statements, the heads of events, the heads of
  quests and blocks, then the lines of a whole file. \<open>printable\<close> says which files these are.
\<close>

section \<open>Texts\<close>

text \<open>A text that stands on a line and has no blanks at its ends.\<close>

definition plain :: "string \<Rightarrow> bool" where
  "plain s \<longleftrightarrow> s \<noteq> [] \<and> visible (hd s) \<and> visible (last s) \<and> newline \<notin> set s"

lemma plain_trim [simp]: "plain s \<Longrightarrow> trim s = s"
  by (simp add: plain_def trim_visible)

lemma plain_blank [simp]: "plain s \<Longrightarrow> trim (CHR '' '' # s) = s"
  using plain_trim [of s] by (simp add: trim_def trim_start_blank)

lemma plain_blanks: "plain s \<Longrightarrow> trim (replicate n (CHR '' '') @ s) = s"
  using plain_trim [of s] by (simp add: trim_def trim_start_blanks)

lemma trim_Nil [simp]: "trim [] = []"
  by (simp add: trim_def trim_start.simps trim_end.simps ws_suffix_len_def ws_len_def)

lemma plain_nonempty: "plain s \<Longrightarrow> s \<noteq> []"
  by (simp add: plain_def)

lemma plain_append: "plain a \<Longrightarrow> plain b \<Longrightarrow> newline \<notin> set m \<Longrightarrow> plain (a @ m @ b)"
  by (simp add: plain_def)

lemma plain_lead: "plain b \<Longrightarrow> visible c \<Longrightarrow> newline \<notin> set (c # m) \<Longrightarrow> plain (c # m @ b)"
  by (simp add: plain_def)

lemma plain_ident: "ident s \<Longrightarrow> plain s"
  using ident_ends [of s] ident_notin [of s newline] by (simp add: plain_def ident_def)

lemma plain_expr: "shaped e \<Longrightarrow> plain (render_expr e)"
  using printed_expr(1) [of e] by (simp add: plain_def)

lemma plain_value: "arg_ok v \<Longrightarrow> plain (render_value v)"
  using printed_value [of v] by (simp add: plain_def)

lemma find_text_missing: "x \<in> set p \<Longrightarrow> x \<notin> set s \<Longrightarrow> find_text p s = None"
proof (cases "find_text p s")
  case (Some i)
  assume "x \<in> set p" "x \<notin> set s"
  moreover obtain b where "s = take i s @ p @ b" using find_text_split(1) [OF Some] by blast
  ultimately show ?thesis by (metis Un_iff set_append)
qed

text \<open>A pattern behind a text that does not contain it and ends with a character foreign to it.\<close>

lemma find_text_behind:
  assumes "find_text p a = None" and "a \<noteq> []" and "last a \<notin> set p" and "p \<noteq> []"
  shows "find_text p (a @ p @ b) = Some (length a)"
  using assms
proof (induction a)
  case (Cons c a)
  have found: "find_text p (p @ b) = Some 0" using assms(4) by (cases p) simp_all
  have "take (length p) (c # a @ p @ b) \<noteq> p"
  proof
    assume hit: "take (length p) (c # a @ p @ b) = p"
    show False
    proof (cases "length p \<le> length (c # a)")
      case True
      then have "take (length p) (c # a @ p @ b) = take (length p) (c # a)"
        using take_append [of "length p" "c # a" "p @ b"] by simp
      with hit Cons.prems(1) show False by (simp split: if_splits)
    next
      case False
      then have "take (length p) (c # a @ p @ b) = (c # a) @ take (length p - length (c # a)) (p @ b)"
        using take_append [of "length p" "c # a" "p @ b"] by simp
      with hit have "set (c # a) \<subseteq> set p" by (metis Un_iff set_append subsetI)
      moreover have "last (c # a) \<in> set (c # a)" by (rule last_in_set) simp
      ultimately show False using Cons.prems(3) by blast
    qed
  qed
  moreover have "find_text p (a @ p @ b) = Some (length a)"
    using Cons found by (cases "a = []") (auto split: if_splits)
  ultimately show ?case by simp
qed simp

section \<open>Lists separated by commas\<close>

lemma join_with_more: "join_with '', '' (x # xs) = x @ concat (map (\<lambda>y. '', '' @ y) xs)"
  using join_more [of x "\<lambda>y. y" xs] by simp

lemma split_more:
  assumes "\<forall>x \<in> set xs. passes 0 x" and "cur \<noteq> []"
  shows "split_loop out 0 cur False (concat (map (\<lambda>x. '', '' @ x) xs)) = Inr (out @ cur # map (\<lambda>x. CHR '' '' # x) xs)"
  using assms
proof (induction xs arbitrary: out cur)
  case Nil
  then show ?case by (simp add: flush_def)
next
  case (Cons x xs)
  have "split_loop (out @ [cur]) 0 [] False (CHR '' '' # x @ concat (map (\<lambda>x. '', '' @ x) xs))
      = split_loop (out @ [cur]) 0 (CHR '' '' # x) False (concat (map (\<lambda>x. '', '' @ x) xs))"
    using Cons.prems(1) passes_append [OF passes_words(9), of 0 x] by (simp add: passes_def)
  with Cons show ?case by simp
qed

lemma split_join:
  assumes "\<forall>x \<in> set (x # xs). passes 0 x" and "x \<noteq> []"
  shows "split_args (join_with '', '' (x # xs)) = Inr (x # map (\<lambda>y. CHR '' '' # y) xs)"
proof -
  have "split_loop [] 0 [] False (x @ concat (map (\<lambda>y. '', '' @ y) xs))
      = split_loop [] 0 x False (concat (map (\<lambda>y. '', '' @ y) xs))"
    using assms(1) by (simp add: passes_def)
  then show ?thesis using split_more [of xs x "[]"] assms by (simp add: split_args_def join_with_more)
qed

lemma map_result_map: "(\<And>x. x \<in> set xs \<Longrightarrow> f (g x) = Inr (h x)) \<Longrightarrow> map_result f (map g xs) = Inr (map h xs)"
  by (induction xs) simp_all

text \<open>Items that are read after trimming.\<close>

lemma items_read:
  assumes "\<And>x. x \<in> set xs \<Longrightarrow> passes 0 (g x) \<and> plain (g x) \<and> f (g x) = Inr x"
    and "\<And>s. f (CHR '' '' # s) = f s"
  shows "split_args (join_with '', '' (map g xs)) = Inr ys \<Longrightarrow> map_result f ys = Inr xs"
    and "\<exists>ys. split_args (join_with '', '' (map g xs)) = Inr ys"
proof -
  have *: "\<exists>ys. split_args (join_with '', '' (map g xs)) = Inr ys \<and> map_result f ys = Inr xs"
  proof (cases xs)
    case Nil
    then show ?thesis by (simp add: split_args_def flush_def)
  next
    case (Cons x zs)
    have "split_args (join_with '', '' (map g xs)) = Inr (g x # map (\<lambda>y. CHR '' '' # g y) zs)"
      using split_join [of "g x" "map g zs"] assms(1) by (simp add: Cons plain_nonempty comp_def)
    moreover have "map_result f (map (\<lambda>y. CHR '' '' # g y) zs) = Inr (map (\<lambda>y. y) zs)"
      by (rule map_result_map) (use assms Cons in simp)
    ultimately show ?thesis using assms(1) Cons by simp
  qed
  then show "\<exists>ys. split_args (join_with '', '' (map g xs)) = Inr ys" by blast
  from * show "split_args (join_with '', '' (map g xs)) = Inr ys \<Longrightarrow> map_result f ys = Inr xs" by auto
qed

lemma passes_value: "arg_ok v \<Longrightarrow> passes 0 (render_value v)"
proof (cases v)
  case (VNum n)
  then show ?thesis
    using passes_append [OF passes_char [of "CHR ''-''"] passes_digits, of 0 "nat (- n)"]
    by (simp add: show_int_def passes_digits)
next
  case (VExpr e)
  then show "arg_ok v \<Longrightarrow> ?thesis" using passes_expr(1) [of e] by (simp add: passed_def)
qed (use passes_expr(2) [of v] in simp_all)

lemma trim_front: "trim (CHR '' '' # s) = trim s"
  by (simp add: trim_def trim_start_blank)

lemma values_read: "list_all arg_ok vs \<Longrightarrow> parse_values (join_with '', '' (map render_value vs)) = Inr vs"
  using items_read [of vs render_value "\<lambda>a. parse_value (trim a)"]
  by (auto simp: parse_values_def list_all_iff passes_value plain_value value_read trim_value trim_front)

lemma plain_join:
  assumes "\<forall>x \<in> set xs. plain x" and "xs \<noteq> []"
  shows "plain (join_with '', '' xs)"
  using assms
proof (induction xs rule: induct_list012)
  case (3 x y zs)
  then show ?case using plain_append [of x "join_with '', '' (y # zs)" "'', ''"] by simp
qed simp_all

section \<open>Statements\<close>

text \<open>A name in front of its arguments in parentheses.\<close>

definition applied :: "string \<Rightarrow> string \<Rightarrow> string" where
  "applied name s = name @ ''('' @ s @ '')''"

lemma find_open: "list_all is_ident name \<Longrightarrow> find_text ''('' (applied name s) = Some (length name)"
  using find_char [of "CHR ''(''" name] ident_notin [of name "CHR ''(''"] by (simp add: applied_def)

lemma plain_applied: "ident name \<Longrightarrow> newline \<notin> set s \<Longrightarrow> plain (applied name s)"
  using plain_append [of name "'')''" "CHR ''('' # s"] plain_ident by (simp add: applied_def plain_def)

lemma ends_applied: "ends_with '')'' (applied name s)"
  using ends_with_append [of "'')''" "name @ ''('' @ s"] by (simp add: applied_def)

definition stmt_arg_ok :: "Action \<Rightarrow> bool" where
  "stmt_arg_ok a \<longleftrightarrow> list_all arg_ok (action_args a) \<and> find_text '' as '' (render_call a) = None"

lemma action_ident: "ident (render_action a)" and action_of_render [simp]: "action_of (render_action a) = Some a"
  by (cases a; simp add: ident_def is_ident_def is_name_char_def is_ascii_alpha_def is_ascii_digit_def byte_of_def)
    (cases a; simp add: action_of_def)

lemma newline_values: "list_all arg_ok vs \<Longrightarrow> newline \<notin> set (join_with '', '' (map render_value vs))"
  using plain_value by (auto simp: newline_joined list_all_iff plain_def)

lemma render_call_applied:
  "render_call a = applied (render_action (action_name a)) (join_with '', '' (map render_value (action_args a)))"
  by (simp add: render_call_def applied_def)

lemma trim_args: "list_all arg_ok vs \<Longrightarrow> trim (join_with '', '' (map render_value vs)) = join_with '', '' (map render_value vs)"
  using plain_join [of "map render_value vs"] by (cases "vs = []") (auto simp: list_all_iff plain_value)

lemma join_empty: "list_all arg_ok vs \<Longrightarrow> join_with '', '' (map render_value vs) = [] \<longleftrightarrow> vs = []"
  using plain_nonempty [OF plain_join [of "map render_value vs"]]
  by (cases "vs = []") (auto simp: list_all_iff plain_value)

text \<open>The call without its capture.\<close>

lemma call_read:
  assumes "ident name" and "list_all arg_ok vs" and "args = join_with '', '' (map render_value vs)"
  shows "trim (take (length name) (applied name args)) = name"
    and "trim (butlast (drop (Suc (length name)) (applied name args))) = args"
    and "args \<noteq> [] \<Longrightarrow> parse_values args = Inr vs" and "args = [] \<Longrightarrow> vs = []"
  using assms values_read [of vs] join_empty [of vs] trim_args [of vs] plain_ident [of name]
  by (auto simp: applied_def butlast_append)

lemma action_read:
  assumes "stmt_arg_ok a" and "case capture of None \<Rightarrow> True | Some c \<Rightarrow> ident c"
  shows "parse_action (render_call a @ (case capture of Some c \<Rightarrow> '' as '' @ c | None \<Rightarrow> [])) = Inr (a, capture)"
proof -
  let ?n = "render_action (action_name a)" and ?args = "join_with '', '' (map render_value (action_args a))"
  let ?call = "render_call a"
  have ok: "list_all arg_ok (action_args a)" "find_text '' as '' ?call = None" using assms(1) by (auto simp: stmt_arg_ok_def)
  note call = call_read [OF action_ident [of "action_name a"] ok(1) refl]
  have p: "plain ?call" by (simp add: render_call_applied plain_applied action_ident newline_values ok(1))
  have last: "last ?call = CHR '')''" by (simp add: render_call_def)
  have head: "find_text ''('' ?call = Some (length ?n)" "ends_with '')'' ?call"
    using action_ident [of "action_name a"] by (simp_all add: render_call_applied find_open ends_applied ident_def)
  have read: "(if ?args = [] then Inr (?n, [], cap)
      else case parse_values ?args of Inl e \<Rightarrow> Inl e | Inr args \<Rightarrow> Inr (?n, args, cap)) = Inr (?n, action_args a, cap)" for cap
    using call(3,4) by (cases "?args = []") simp_all
  note step = head read call(1,2) [folded render_call_applied]
  show ?thesis
  proof (cases capture)
    case None
    with p ok(2) show ?thesis by (simp add: parse_action_def parse_call_def Let_def step)
  next
    case (Some c)
    have c: "plain c" using assms(2) Some by (simp add: plain_ident)
    have "find_text '' as '' (?call @ '' as '' @ c) = Some (length ?call)"
      by (rule find_text_behind) (use ok(2) last p in \<open>auto simp: plain_def\<close>)
    moreover have "plain (?call @ '' as '' @ c)" by (rule plain_append) (use p c in simp_all)
    ultimately show ?thesis using p c Some by (simp add: parse_action_def parse_call_def Let_def step)
  qed
qed

fun line_ok :: "Stmt \<Rightarrow> bool" where
  "line_ok (SAction a capture) \<longleftrightarrow> stmt_arg_ok a \<and> (case capture of None \<Rightarrow> True | Some c \<Rightarrow> ident c)"
| "line_ok (SUse name args) \<longleftrightarrow> ident name \<and> list_all arg_ok args"
| "line_ok (SBranch c body) \<longleftrightarrow> (case c of None \<Rightarrow> True | Some e \<Rightarrow> shaped e) \<and> body = []"

lemma strip_heads [simp]:
  "strip_lead ''-> '' (CHR ''-'' # CHR ''>'' # CHR '' '' # s) = Some s"
  "strip_lead ''-> '' (CHR ''u'' # s) = None" "strip_lead ''-> '' (CHR ''i'' # s) = None" "strip_lead ''-> '' (CHR ''e'' # s) = None"
  "strip_lead ''use '' (CHR ''u'' # CHR ''s'' # CHR ''e'' # CHR '' '' # s) = Some s"
  "strip_lead ''use '' (CHR ''i'' # s) = None" "strip_lead ''use '' (CHR ''e'' # s) = None"
  "strip_lead ''if '' (CHR ''i'' # CHR ''f'' # CHR '' '' # s) = Some s"
  "strip_lead ''if '' (CHR ''e'' # s) = None" "strip_lead ''if '' (CHR ''-'' # s) = None" "strip_lead ''if '' (CHR ''u'' # s) = None"
  by (simp_all add: strip_lead_def)

lemma stmt_read: "line_ok s \<Longrightarrow> parse_stmt ln (render_stmt s) = Inr s"
proof (cases s)
  case (SAction a capture)
  then show "line_ok s \<Longrightarrow> ?thesis" using action_read [of a capture] by (simp add: parse_stmt_def)
next
  case (SUse name args)
  show "?thesis" if ok: "line_ok s"
  proof -
    have name: "ident name" "list_all arg_ok args" using ok SUse by simp_all
    let ?t = "applied name (join_with '', '' (map render_value args))"
    have "trim (drop (length name) ?t) = ''('' @ join_with '', '' (map render_value args) @ '')''"
      using newline_values [OF name(2)] plain_append [of "''(''" "'')''" "join_with '', '' (map render_value args)"]
      by (simp add: applied_def plain_def)
    moreover have "ends_with '')'' (''('' @ join_with '', '' (map render_value args) @ '')'')"
      using ends_applied [of "[]"] by (simp add: applied_def)
    ultimately have "split_head ?t = Inr (name, join_with '', '' (map render_value args))"
      using name call_read(1) [OF name refl] by (simp add: split_head_def find_open ident_def)
    then show ?thesis using values_read [OF name(2)] SUse
      by (simp add: parse_stmt_def parse_use_args_def applied_def)
  qed
next
  case (SBranch c body)
  then show "line_ok s \<Longrightarrow> ?thesis"
    by (cases c) (auto simp: parse_stmt_def branch_head_def expr_read)
qed

section \<open>Triggers\<close>

fun target_ok :: "TriggerTarget \<Rightarrow> bool" where
  "target_ok (TargetNum n) \<longleftrightarrow> True"
| "target_ok (TargetParam p) \<longleftrightarrow> p \<noteq> [] \<and> CHR '','' \<notin> set p \<and> newline \<notin> set p"

fun trigger_ok :: "TriggerKind \<Rightarrow> bool" where
  "trigger_ok (KChat t) \<longleftrightarrow> target_ok t"
| "trigger_ok (KKill t) \<longleftrightarrow> target_ok t"
| "trigger_ok (KUse t) \<longleftrightarrow> target_ok t"
| "trigger_ok (KRust s) \<longleftrightarrow> plain s \<and> CHR '','' \<notin> set s \<and> ends_with ''.*'' s"
| "trigger_ok k \<longleftrightarrow> True"

lemma show_nat_set: "c \<in> set (show_nat n) \<Longrightarrow> is_ascii_digit c"
  using show_nat_digits [of n] by (auto simp: list_all_iff)

lemma digit_visible: "is_ascii_digit c \<Longrightarrow> visible c \<and> c \<noteq> CHR '','' \<and> c \<noteq> newline \<and> c \<noteq> CHR ''(''"
  by (auto simp: is_ascii_digit_def visible_def byte_of_def)

lemma target_text:
  assumes "target_ok t"
  shows "plain (render_target t)" "CHR '','' \<notin> set (render_target t)" "parse_target (render_target t) = Inr t"
    "is_ascii_digit (hd (render_target t)) \<or> hd (render_target t) = CHR ''(''"
proof -
  show p: "plain (render_target t)"
  proof (cases t)
    case (TargetNum n)
    then show ?thesis using show_nat_ends [of "unat n"] by (simp add: plain_def)
  next
    case (TargetParam p)
    then show ?thesis using assms by (simp add: plain_def)
  qed
  show "CHR '','' \<notin> set (render_target t)"
    using assms by (cases t) (auto dest: show_nat_set digit_visible)
  show "is_ascii_digit (hd (render_target t)) \<or> hd (render_target t) = CHR ''(''"
    by (cases t) (simp_all add: show_nat_set [OF hd_in_set])
  show "parse_target (render_target t) = Inr t"
  proof (cases t)
    case (TargetNum n)
    then show ?thesis using plain_trim [OF p] by (simp add: parse_target_def parse_show_u32)
  next
    case (TargetParam p)
    then have "parse_u32 (render_target t) = None"
      by (simp add: parse_u32_def is_ascii_digit_def byte_of_def)
    then show ?thesis using assms plain_trim [OF p] TargetParam by (auto simp: parse_target_def Suc_le_eq)
  qed
qed

definition trigger_words :: "string list" where
  "trigger_words = [''login'', ''levelup'', ''letter'', ''button'', ''info'', ''enter'', ''logout'', ''timer'',
     ''__TARGET__.target.click'']"

lemma plain_trigger_word: "plain_trigger s = Some k \<Longrightarrow> s \<in> set trigger_words"
  unfolding plain_trigger_def trigger_words_def by (simp split: if_splits)

lemma trigger_word_ends:
  "list_all (\<lambda>s. last s \<noteq> CHR ''*'' \<and> \<not> is_ascii_digit (hd s) \<and> hd s \<noteq> CHR ''('') trigger_words"
  by (simp add: trigger_words_def is_ascii_digit_def byte_of_def)

lemma plain_trigger_none: "is_ascii_digit (hd s) \<or> hd s = CHR ''('' \<Longrightarrow> plain_trigger s = None"
  and plain_trigger_rust: "last s = CHR ''*'' \<Longrightarrow> plain_trigger s = None"
  using plain_trigger_word [of s] trigger_word_ends by (cases "plain_trigger s"; auto simp: list_all_iff)+

lemma strip_tail_last: "p \<noteq> [] \<Longrightarrow> last s \<noteq> last p \<Longrightarrow> strip_tail p s = None"
  using ends_with_last [of p s] by (auto simp: strip_tail_def)

lemma strip_tail_kill: "strip_tail ''.kill'' (s @ ''.kill'') = Some s"
  and strip_tail_chat: "strip_tail ''.chat'' (s @ ''.chat'') = Some s"
  and strip_tail_use: "strip_tail ''.use'' (s @ ''.use'') = Some s"
  by (rule strip_tail_append)+

lemma rust_trigger: "ends_with ''.*'' s \<Longrightarrow> s \<noteq> [] \<and> last s = CHR ''*'' \<and> CHR ''.'' \<in> set s"
  using ends_with_last [of "''.*''" s] in_set_dropD [of "CHR ''.''" "length s - Suc (Suc 0)" s] by (simp add: ends_with_def)

lemma target_trigger:
  assumes "target_ok t"
  shows "parse_trigger (render_target t @ ''.chat'') = Inr \<lparr>trigger_kind = KChat t\<rparr>"
    and "parse_trigger (render_target t @ ''.kill'') = Inr \<lparr>trigger_kind = KKill t\<rparr>"
    and "parse_trigger (render_target t @ ''.use'') = Inr \<lparr>trigger_kind = KUse t\<rparr>"
    and "plain w \<Longrightarrow> plain (render_target t @ w)"
proof -
  have t: "render_target t \<noteq> []" using target_text(1) [OF assms] by (simp add: plain_def)
  show p: "plain (render_target t @ w)" if "plain w" for w
    using plain_append [OF target_text(1) [OF assms] that, of "[]"] by simp
  have "plain_trigger (render_target t @ w) = None" for w
    using target_text(4) [OF assms] t by (intro plain_trigger_none) auto
  moreover have "trim (render_target t @ w) = render_target t @ w" if "plain w" for w
    using p [OF that] by simp
  moreover have "plain ''.chat''" "plain ''.kill''" "plain ''.use''" by (simp_all add: plain_def visible_def byte_of_def)
  ultimately show "parse_trigger (render_target t @ ''.chat'') = Inr \<lparr>trigger_kind = KChat t\<rparr>"
    "parse_trigger (render_target t @ ''.kill'') = Inr \<lparr>trigger_kind = KKill t\<rparr>"
    "parse_trigger (render_target t @ ''.use'') = Inr \<lparr>trigger_kind = KUse t\<rparr>"
    by (simp_all add: parse_trigger_def strip_tail_chat strip_tail_kill strip_tail_use strip_tail_last
        with_target_def target_text(3) [OF assms])
qed

lemma rust_read: "plain s \<Longrightarrow> ends_with ''.*'' s \<Longrightarrow> parse_trigger s = Inr \<lparr>trigger_kind = KRust s\<rparr>"
  using rust_trigger [of s] by (simp add: parse_trigger_def plain_trigger_rust strip_tail_last)

lemma plain_words [simp]:
  "plain ''.chat''" "plain ''.kill''" "plain ''.use''" "plain ''login''" "plain ''levelup''" "plain ''letter''"
  "plain ''button''" "plain ''info''" "plain ''enter''" "plain ''logout''" "plain ''timer''"
  "plain ''__TARGET__.target.click''"
  by (simp_all add: plain_def visible_def byte_of_def)

lemma word_trigger: "plain_trigger s = Some k \<Longrightarrow> plain s \<Longrightarrow> parse_trigger s = Inr \<lparr>trigger_kind = k\<rparr>"
  by (simp add: parse_trigger_def)

lemma words_read [simp]:
  "parse_trigger ''login'' = Inr \<lparr>trigger_kind = KLogin\<rparr>"
  "parse_trigger ''levelup'' = Inr \<lparr>trigger_kind = KLevelUp\<rparr>"
  "parse_trigger ''letter'' = Inr \<lparr>trigger_kind = KLetter\<rparr>"
  "parse_trigger ''button'' = Inr \<lparr>trigger_kind = KButton\<rparr>"
  "parse_trigger ''info'' = Inr \<lparr>trigger_kind = KInfo\<rparr>"
  "parse_trigger ''enter'' = Inr \<lparr>trigger_kind = KEnter\<rparr>"
  "parse_trigger ''logout'' = Inr \<lparr>trigger_kind = KLogout\<rparr>"
  "parse_trigger ''timer'' = Inr \<lparr>trigger_kind = KTimer\<rparr>"
  "parse_trigger ''__TARGET__.target.click'' = Inr \<lparr>trigger_kind = KTargetClick\<rparr>"
  by (rule word_trigger; simp add: plain_trigger_def)+

lemma kind_text:
  assumes "trigger_ok k"
  shows "plain (render_kind k)" "CHR '','' \<notin> set (render_kind k)"
    "parse_trigger (render_kind k) = Inr \<lparr>trigger_kind = k\<rparr>"
  using assms by (cases k; simp add: target_trigger rust_read target_text(2))+

end
