(* ===== verification/QuestTrip.thy ===== *)
theory QuestTrip
  imports QuestReread
begin

text \<open>
  The round trip of whole quest files: the heads of events, quests, families, instances and
  blocks, the lines of a file with their indentation, and the file the parser makes of them.
\<close>

section \<open>Heads\<close>

text \<open>Texts without a comma, split at the commas that join them.\<close>

lemma split_on_more:
  "CHR '','' \<notin> set x \<Longrightarrow> \<forall>y \<in> set ys. CHR '','' \<notin> set y \<Longrightarrow>
    split_on CHR '','' (x @ concat (map (\<lambda>y. '', '' @ y) ys)) = x # map (\<lambda>y. CHR '' '' # y) ys"
proof (induction ys arbitrary: x)
  case (Cons y ys)
  then show ?case using split_on_append [of "CHR '',''" x] Cons.IH [of "CHR '' '' # y"] by simp
qed (simp add: split_on_none)

definition triggers_ok :: "Trigger list \<Rightarrow> bool" where
  "triggers_ok ts \<longleftrightarrow> ts \<noteq> [] \<and> list_all (\<lambda>t. trigger_ok (trigger_kind t)) ts
     \<and> find_text '' with '' (render_triggers ts @ '' with'') = None"

lemma trigger_text:
  assumes "trigger_ok (trigger_kind t)"
  shows "plain (render_trigger t)" "CHR '','' \<notin> set (render_trigger t)" "parse_trigger (render_trigger t) = Inr t"
  using kind_text [OF assms] by (simp_all add: render_trigger_def)

lemma triggers_read:
  assumes "list_all (\<lambda>t. trigger_ok (trigger_kind t)) ts" and "ts \<noteq> []"
  shows "map_result (\<lambda>t. at_line ln (parse_trigger (trim t))) (split_on CHR '','' (render_triggers ts)) = Inr ts"
proof -
  obtain t us where ts: "ts = t # us" using assms(2) by (cases ts) auto
  have "map_result (\<lambda>t. at_line ln (parse_trigger (trim t))) (map (\<lambda>u. CHR '' '' # render_trigger u) us)
      = Inr (map (\<lambda>u. u) us)"
    by (rule map_result_map) (use assms trigger_text in \<open>auto simp: ts list_all_iff at_line_def\<close>)
  moreover have "split_on CHR '','' (render_triggers ts) = render_trigger t # map (\<lambda>u. CHR '' '' # render_trigger u) us"
    using split_on_more [of "render_trigger t" "map render_trigger us"] assms(1)
    by (simp add: render_triggers_def ts join_with_more trigger_text list_all_iff comp_def)
  ultimately show ?thesis using assms(1) trigger_text by (simp add: ts at_line_def)
qed

definition event_text :: "QEvent \<Rightarrow> string" where
  "event_text ev = render_triggers (ev_triggers ev)
     @ (case ev_condition ev of Some c \<Rightarrow> '' with '' @ render_expr c | None \<Rightarrow> [])"

lemma event_head_text: "event_head ev = ''on '' @ event_text ev"
  by (simp add: event_head_def event_text_def)

definition head_ok :: "QEvent \<Rightarrow> bool" where
  "head_ok ev \<longleftrightarrow> triggers_ok (ev_triggers ev) \<and> (case ev_condition ev of None \<Rightarrow> True | Some c \<Rightarrow> shaped c)"

lemma plain_triggers: "triggers_ok ts \<Longrightarrow> plain (render_triggers ts)"
  unfolding render_triggers_def
  by (rule plain_join) (auto simp: triggers_ok_def list_all_iff trigger_text)

lemma plain_event: "head_ok ev \<Longrightarrow> plain (event_text ev)"
  using plain_append [of "render_triggers (ev_triggers ev)" _ "'' with ''"]
  by (cases "ev_condition ev") (simp_all add: event_text_def head_ok_def plain_triggers plain_expr)

lemma find_text_prefix: "find_text p (a @ b) = None \<Longrightarrow> find_text p a = None"
proof (induction a)
  case Nil
  then show ?case by (cases "p = []"; cases b) auto
next
  case (Cons c a)
  have "take (length p) (c # a) = p \<Longrightarrow> take (length p) (c # a @ b) = p"
    by (metis append_Cons append_take_drop_id append_eq_conv_conj append.assoc)
  with Cons show ?case by (auto split: if_splits)
qed

lemma event_read:
  assumes "head_ok ev" and "event_body ls = Inr (ev_body ev, ls')"
  shows "parse_event ln (event_text ev) ls = Inr (ev, ls')"
proof -
  let ?ts = "render_triggers (ev_triggers ev)"
  have ts: "triggers_ok (ev_triggers ev)" using assms(1) by (simp add: head_ok_def)
  then have none: "find_text '' with '' (?ts @ '' with'') = None" and read:
    "map_result (\<lambda>t. at_line ln (parse_trigger (trim t))) (split_on CHR '','' ?ts) = Inr (ev_triggers ev)"
    using triggers_read by (auto simp: triggers_ok_def)
  note plain = plain_trim [OF plain_triggers [OF ts]] plain_trim [OF plain_event [OF assms(1)]]
  show ?thesis
  proof (cases "ev_condition ev")
    case None
    then show ?thesis
      using find_text_prefix [OF none] read assms(2) plain by (simp add: parse_event_def event_text_def)
  next
    case (Some c)
    have c: "shaped c" using assms(1) Some by (simp add: head_ok_def)
    have "find_text '' with '' (?ts @ '' with '' @ render_expr c) = Some (length ?ts)"
      by (rule find_text_first) (use none in simp_all)
    then show ?thesis
      using Some read assms(2) plain expr_read [OF c] plain_trim [OF plain_expr [OF c]]
      by (simp add: parse_event_def event_text_def)
  qed
qed

text \<open>Names with parameters and names with arguments.\<close>

definition param_ok :: "QParam \<Rightarrow> bool" where
  "param_ok p \<longleftrightarrow> ident (param_name p)"

lemma render_ty_ident: "ident (render_ty ty)" and param_type_of_render [simp]: "param_type_of (render_ty ty) = Some ty"
  by (cases ty; simp add: ident_def is_ident_def is_name_char_def is_ascii_alpha_def is_ascii_digit_def byte_of_def)
    (cases ty; simp add: param_type_of_def)

lemma find_colon: "ident n \<Longrightarrow> find_text '':'' (n @ CHR '':'' # s) = Some (length n)" "ident n \<Longrightarrow> find_text '':'' n = None"
  using find_char [of "CHR '':''" n s] find_text_none [of "'':''" n] ident_notin [of n "CHR '':''"] by (auto simp: ident_def)

lemma passes_colon: "passes k '': ''"
  by (rule passes_plain) simp

lemma param_text:
  assumes "param_ok p"
  shows "passes 0 (render_param p) \<and> plain (render_param p) \<and> parse_param (render_param p) = Inr p"
proof (cases "param_type p")
  case None
  then show ?thesis using assms find_colon(2) [of "param_name p"]
    by (simp add: param_ok_def render_param_def passes_ident plain_ident parse_param_def ident_def)
next
  case (Some ty)
  have n: "ident (param_name p)" using assms by (simp add: param_ok_def)
  have plain: "plain (param_name p @ '': '' @ render_ty ty)"
    by (rule plain_append) (use plain_ident n render_ty_ident in auto)
  have "passes 0 (param_name p @ '': '' @ render_ty ty)"
    using n render_ty_ident by (intro passes_append passes_ident passes_plain) (auto simp: ident_def)
  moreover have "trim (param_name p @ '': '' @ render_ty ty) = param_name p @ '': '' @ render_ty ty"
    using plain by (rule plain_trim)
  ultimately show ?thesis
    using Some n find_colon(1) [OF n] plain plain_ident render_ty_ident
    by (simp add: render_param_def parse_param_def)
qed

lemma args_head:
  assumes "list_all is_ident name" and "newline \<notin> set s"
  shows "split_head (applied name s) = Inr (name, s)"
proof -
  have "trim (drop (length name) (applied name s)) = ''('' @ s @ '')''"
    using plain_append [of "''(''" "'')''" s] assms(2) by (simp add: applied_def plain_def)
  moreover have "ends_with '')'' (''('' @ s @ '')'')" using ends_applied [of "[]"] by (simp add: applied_def)
  moreover have "trim (take (length name) (applied name s)) = name"
    using plain_ident [of name] assms(1) by (cases "name = []") (auto simp: applied_def ident_def)
  ultimately show ?thesis by (simp add: split_head_def find_open assms(1))
qed

lemma parse_param_blank: "parse_param (CHR '' '' # s) = parse_param s"
  and parse_inst_arg_blank: "parse_inst_arg (CHR '' '' # s) = parse_inst_arg s"
  by (simp_all add: parse_param_def parse_inst_arg_def trim_front)

lemma params_read:
  assumes "list_all is_ident name" and "list_all param_ok ps"
  shows "parse_name_params (applied name (render_params ps)) = Inr (name, ps)" "newline \<notin> set (render_params ps)"
proof -
  have ok: "\<And>x. x \<in> set ps \<Longrightarrow> passes 0 (render_param x) \<and> plain (render_param x) \<and> parse_param (render_param x) = Inr x"
    using assms(2) by (simp add: list_all_iff param_text)
  show "newline \<notin> set (render_params ps)" using ok by (auto simp: render_params_def newline_joined plain_def)
  then show "parse_name_params (applied name (render_params ps)) = Inr (name, ps)"
    using items_read [of ps render_param parse_param, OF ok parse_param_blank] args_head [OF assms(1)]
    by (auto simp: parse_name_params_def render_params_def)
qed

fun render_arg :: "string \<times> Val \<Rightarrow> string" where
  "render_arg (n, v) = n @ '': '' @ render_value v"

fun inst_arg_ok :: "string \<times> Val \<Rightarrow> bool" where
  "inst_arg_ok (n, v) \<longleftrightarrow> ident n \<and> arg_ok v"

lemma inst_arg_text:
  assumes "inst_arg_ok a"
  shows "passes 0 (render_arg a) \<and> plain (render_arg a) \<and> parse_inst_arg (render_arg a) = Inr a"
proof (cases a)
  case (Pair n v)
  have n: "ident n" and v: "arg_ok v" using assms Pair by auto
  have plain: "plain (n @ '': '' @ render_value v)"
    by (rule plain_append) (use plain_ident n plain_value v in auto)
  have "passes 0 (n @ '': '' @ render_value v)"
    using passes_append [OF passes_append [OF passes_ident passes_colon] passes_value [OF v], of n] n
    by (simp add: ident_def)
  moreover have "trim (n @ '': '' @ render_value v) = n @ '': '' @ render_value v"
    using plain by (rule plain_trim)
  ultimately show ?thesis
    using Pair n find_colon(1) [OF n] plain plain_ident [OF n] plain_value [OF v] value_read [OF v]
    by (simp add: parse_inst_arg_def)
qed

lemma inst_args_read:
  assumes "ident name" and "list_all inst_arg_ok args"
  shows "parse_name_args (applied name (join_with '', '' (map render_arg args))) = Inr (name, args)"
    and "newline \<notin> set (join_with '', '' (map render_arg args))"
proof -
  have ok: "\<And>x. x \<in> set args \<Longrightarrow> passes 0 (render_arg x) \<and> plain (render_arg x) \<and> parse_inst_arg (render_arg x) = Inr x"
    using assms(2) by (simp add: list_all_iff inst_arg_text)
  show "newline \<notin> set (join_with '', '' (map render_arg args))" using ok by (auto simp: newline_joined plain_def)
  then show "parse_name_args (applied name (join_with '', '' (map render_arg args))) = Inr (name, args)"
    using items_read [of args render_arg parse_inst_arg, OF ok parse_inst_arg_blank] args_head [of name] assms(1)
    by (auto simp: parse_name_args_def ident_def)
qed

section \<open>Lines\<close>

text \<open>A printed line: its indentation and its text.\<close>

type_synonym Row = "nat \<times> string"

fun row_text :: "Row \<Rightarrow> string" where
  "row_text (k, t) = out_line (replicate k CHR '' '') t"

fun row_ok :: "Row \<Rightarrow> bool" where
  "row_ok (k, t) \<longleftrightarrow> plain t \<and> hd t \<noteq> CHR ''#''"

lemma line_read:
  assumes "row_ok (k, t)"
  shows "read_lines n (lines_of (row_text (k, t) @ s)) = (n, k, t) # read_lines (Suc n) (lines_of s)"
proof -
  let ?raw = "replicate k CHR '' '' @ t"
  have t: "plain t" "hd t \<noteq> CHR ''#''" using assms by simp_all
  have blank: "\<not> visible CHR '' ''" "\<not> visible CHR 0x0D" by (simp_all add: visible_def byte_of_def)
  have "lines_of (?raw @ newline # s) = ?raw # lines_of s"
    by (rule lines_of_line) (use t(1) blank in \<open>auto simp: plain_def\<close>)
  moreover have "dropWhile (\<lambda>c. c = CHR '' '') ?raw = t"
    using t(1) blank by (induction k) (cases t; auto simp: plain_def)+
  then have "indent_of ?raw = k" by (simp add: indent_of_def)
  ultimately show ?thesis
    using t plain_blanks [of t k] by (simp add: out_line_def plain_def)
qed

lemma lines_read:
  "list_all row_ok rs \<Longrightarrow> map snd (read_lines n (lines_of (concat (map row_text rs)))) = rs"
proof (induction rs arbitrary: n)
  case Nil
  then show ?case by (simp add: lines_of.simps)
next
  case (Cons r rs)
  then show ?case by (cases r) (simp add: line_read del: row_text.simps row_ok.simps)
qed

fun stmt_rows :: "nat \<Rightarrow> Stmt list \<Rightarrow> Row list" where
  "stmt_rows k [] = []"
| "stmt_rows k (SBranch c body # ss) = (k, branch_head c) # stmt_rows (k + 2) body @ stmt_rows k ss"
| "stmt_rows k (s # ss) = (k, render_stmt s) # stmt_rows k ss"

definition event_rows :: "QEvent \<Rightarrow> Row list" where
  "event_rows ev = (4, event_head ev) # stmt_rows 6 (ev_body ev)"

definition state_rows :: "QState \<Rightarrow> Row list" where
  "state_rows sd = (2, ''state '' @ state_name sd) # concat (map event_rows (state_events sd))"

definition family_head :: "string \<Rightarrow> QParam list \<Rightarrow> string" where
  "family_head name ps = name @ '' family '' @ applied [] (render_params ps)"

definition instance_head :: "InstanceDef \<Rightarrow> string" where
  "instance_head i = inst_name i @ '' = '' @ applied (inst_base i) (join_with '', '' (map render_arg (inst_args i)))"

fun quest_rows :: "Quest \<Rightarrow> Row list" where
  "quest_rows (QConcrete d) = (0, ''quest '' @ quest_name d) # concat (map state_rows (quest_states d))"
| "quest_rows (QFamily name ps sds) = (0, ''quest '' @ family_head name ps) # concat (map state_rows sds)"
| "quest_rows (QInstance i) = [(0, ''quest '' @ instance_head i)]"

definition block_rows :: "Block \<Rightarrow> Row list" where
  "block_rows b = (0, ''block '' @ applied (block_name b) (render_params (block_params b))) # stmt_rows 2 (block_body b)"

definition file_rows :: "QuestFile \<Rightarrow> Row list" where
  "file_rows f = map (\<lambda>i. (0, ''import '' @ i)) (file_imports f) @ concat (map block_rows (file_blocks f))
     @ concat (map quest_rows (file_quests f))"

abbreviation text_of :: "Row list \<Rightarrow> string" where
  "text_of rs \<equiv> concat (map row_text rs)"

lemma stmts_text: "render_stmts (replicate k CHR '' '') ss = text_of (stmt_rows k ss)"
proof (induction k ss rule: stmt_rows.induct)
  case (2 k c body ss)
  have "replicate k CHR '' '' @ ''  '' = replicate (k + 2) CHR '' ''"
    by (induction k) simp_all
  with 2 show ?case by simp
qed simp_all

lemma blanks: "''  '' = replicate 2 CHR '' ''" "''    '' = replicate 4 CHR '' ''" "''      '' = replicate 6 CHR '' ''"
  by (simp_all add: numeral_eq_Suc)

lemma states_text: "render_states sds = text_of (concat (map state_rows sds))"
proof -
  have event: "render_event ev = text_of (event_rows ev)" for ev
    by (simp add: render_event_def event_rows_def stmts_text [symmetric] numeral_eq_Suc)
  have "render_state sd = text_of (state_rows sd)" for sd
  proof -
    have "concat (map render_event evs) = text_of (concat (map event_rows evs))" for evs
      by (induction evs) (simp_all add: event)
    then show ?thesis by (simp add: render_state_def state_rows_def numeral_eq_Suc)
  qed
  then show ?thesis by (induction sds) (simp_all add: render_states_def)
qed

lemma quest_text: "render_quest q = text_of (quest_rows q)"
proof (cases q)
  case (QInstance i)
  have "(\<lambda>(n, v). n @ '': '' @ render_value v) = render_arg" by (rule ext) (auto split: prod.split)
  then show ?thesis by (simp add: QInstance instance_head_def applied_def)
qed (simp_all add: states_text family_head_def applied_def)

lemma file_text: "render f = text_of (file_rows f)"
proof -
  have "concat (map (\<lambda>i. out_line [] (''import '' @ i)) is) = text_of (map (\<lambda>i. (0, ''import '' @ i)) is)" for "is"
    by (induction "is") simp_all
  moreover have "concat (map render_block bs) = text_of (concat (map block_rows bs))" for bs
    by (induction bs) (simp_all add: render_block_def block_rows_def applied_def stmts_text [symmetric] numeral_eq_Suc)
  moreover have "concat (map render_quest qs) = text_of (concat (map quest_rows qs))" for qs
    by (induction qs) (simp_all add: quest_text)
  ultimately show ?thesis by (simp add: render_def file_rows_def)
qed

section \<open>Reading the lines\<close>

text \<open>The lines go on with one of at most the indentation \<open>d\<close>, or end.\<close>

definition low :: "nat \<Rightarrow> Line list \<Rightarrow> bool" where
  "low d ls \<longleftrightarrow> ls = [] \<or> fst (snd (hd ls)) \<le> d"

lemma low_simps [simp]: "low d []" "low d ((n, i, t) # ls) \<longleftrightarrow> i \<le> d"
  by (simp_all add: low_def)

lemma low_mono: "low c ls \<Longrightarrow> c \<le> d \<Longrightarrow> low d ls"
  by (auto simp: low_def)

lemma low_rows: "map snd ls = rs \<Longrightarrow> rs = [] \<or> fst (hd rs) \<le> d \<Longrightarrow> low d rest \<Longrightarrow> low d (ls @ rest)"
  by (cases ls) (auto simp: low_def)

lemma rows_append:
  assumes "map snd ls = xs @ ys"
  obtains l1 l2 where "ls = l1 @ l2" "map snd l1 = xs" "map snd l2 = ys"
  using assms unfolding map_eq_append_conv by blast

lemma rows_split:
  assumes "map snd ls = r # xs @ ys"
  obtains n l1 l2 where "ls = (n, r) # l1 @ l2" "map snd l1 = xs" "map snd l2 = ys"
proof -
  obtain a ls' where ls: "ls = a # ls'" "snd a = r" "map snd ls' = xs @ ys" using assms by (cases ls) auto
  obtain l1 l2 where "ls' = l1 @ l2" "map snd l1 = xs" "map snd l2 = ys"
    by (rule rows_append [OF ls(3)])
  with ls that [of "fst a" l1 l2] show ?thesis by (cases a) simp
qed

lemma stmts_below_stop: "low d ls \<Longrightarrow> stmts_below d ls = Inr ([], ls)"
  by (cases ls) auto

lemma line_rows: "line_ok s \<Longrightarrow> stmt_rows k (s # ss) = (k, render_stmt s) # stmt_rows k ss"
  by (cases s) simp_all

lemma stmts_read:
  "list_all line_ok ss \<Longrightarrow> d < k \<Longrightarrow> map snd ls = stmt_rows k ss \<Longrightarrow> low d rest \<Longrightarrow> stmts_below d (ls @ rest) = Inr (ss, rest)"
proof (induction ss arbitrary: ls)
  case Nil
  then show ?case by (simp add: stmts_below_stop)
next
  case (Cons s ss)
  then obtain n ls' where ls: "ls = (n, k, render_stmt s) # ls'" "map snd ls' = stmt_rows k ss"
    by (auto simp: line_rows simp del: stmt_rows.simps)
  with Cons show ?case by (simp add: stmt_read)
qed

fun stmt_printable :: "Stmt \<Rightarrow> bool" where
  "stmt_printable (SBranch c body) \<longleftrightarrow> (case c of None \<Rightarrow> True | Some e \<Rightarrow> shaped e) \<and> list_all line_ok body"
| "stmt_printable s \<longleftrightarrow> line_ok s"

lemma stmt_rows_head: "stmt_rows k ss = [] \<or> fst (hd (stmt_rows k ss)) \<le> k"
  by (induction k ss rule: stmt_rows.induct) simp_all

lemma branch_step:
  assumes "case c of None \<Rightarrow> True | Some e \<Rightarrow> shaped e" and "stmts_below 6 ls = Inr (body, us)" and "event_body us = Inr (ss, vs)"
  shows "event_body ((n, 6, branch_head c) # ls) = Inr (SBranch c body # ss, vs)"
  using assms plain_trim [OF plain_expr]
  by (cases c) (simp_all add: branch_head_def expr_read)

lemma plain_step:
  assumes "line_ok s" and "\<And>c body. s \<noteq> SBranch c body" and "event_body ls = Inr (ss, us)"
  shows "event_body ((n, 6, render_stmt s) # ls) = Inr (s # ss, us)"
proof (cases s)
  case (SBranch c body)
  with assms(2) show ?thesis by blast
qed (use assms(1,3) stmt_read [OF assms(1), of n] in simp_all)

lemma event_body_read:
  "list_all stmt_printable ss \<Longrightarrow> map snd ls = stmt_rows 6 ss \<Longrightarrow> low 4 rest \<Longrightarrow> event_body (ls @ rest) = Inr (ss, rest)"
proof (induction ss arbitrary: ls)
  case Nil
  then show ?case by (cases rest) auto
next
  case (Cons s ss)
  show ?case
  proof (cases s)
    case (SBranch c body)
    with Cons.prems(2) have "map snd ls = (6, branch_head c) # stmt_rows 8 body @ stmt_rows 6 ss" by simp
    then obtain n l1 l2 where ls: "ls = (n, 6, branch_head c) # l1 @ l2"
      "map snd l1 = stmt_rows 8 body" "map snd l2 = stmt_rows 6 ss"
      by (rule rows_split)
    have "low 6 (l2 @ rest)"
      by (rule low_rows [OF ls(3) stmt_rows_head]) (use Cons.prems(3) low_mono in auto)
    then have "stmts_below 6 (l1 @ l2 @ rest) = Inr (body, l2 @ rest)"
      using Cons.prems(1) SBranch ls(2) by (intro stmts_read [of body 6 8]) auto
    with Cons SBranch ls show ?thesis by (simp add: branch_step del: event_body.simps)
  next
    case (SAction a cap)
    with Cons.prems(2) obtain n ls' where "ls = (n, 6, render_stmt s) # ls'" "map snd ls' = stmt_rows 6 ss" by auto
    with Cons SAction show ?thesis by (simp add: plain_step del: event_body.simps render_stmt.simps line_ok.simps)
  next
    case (SUse name args)
    with Cons.prems(2) obtain n ls' where "ls = (n, 6, render_stmt s) # ls'" "map snd ls' = stmt_rows 6 ss" by auto
    with Cons SUse show ?thesis by (simp add: plain_step del: event_body.simps render_stmt.simps line_ok.simps)
  qed
qed

definition event_printable :: "QEvent \<Rightarrow> bool" where
  "event_printable ev \<longleftrightarrow> head_ok ev \<and> list_all stmt_printable (ev_body ev)"

lemma events_read:
  "list_all event_printable evs \<Longrightarrow> map snd ls = concat (map event_rows evs) \<Longrightarrow> low 2 rest \<Longrightarrow>
    parse_events (ls @ rest) = Inr (evs, rest)"
proof (induction evs arbitrary: ls)
  case Nil
  then show ?case by (cases rest) auto
next
  case (Cons ev evs)
  have "map snd ls = (4, event_head ev) # stmt_rows 6 (ev_body ev) @ concat (map event_rows evs)"
    using Cons.prems(2) by (simp add: event_rows_def [of ev])
  then obtain n l1 l2 where ls: "ls = (n, 4, event_head ev) # l1 @ l2"
    "map snd l1 = stmt_rows 6 (ev_body ev)" "map snd l2 = concat (map event_rows evs)"
    by (rule rows_split)
  have "low 4 (l2 @ rest)"
    using low_mono [OF Cons.prems(3), of 4, simplified] by (intro low_rows [OF ls(3)]) (cases evs; auto simp: event_rows_def)
  then have "event_body (l1 @ l2 @ rest) = Inr (ev_body ev, l2 @ rest)"
    using Cons.prems(1) ls(2) by (intro event_body_read) (auto simp: event_printable_def)
  with Cons.prems(1) have "parse_event n (event_text ev) (l1 @ l2 @ rest) = Inr (ev, l2 @ rest)"
    by (intro event_read) (auto simp: event_printable_def)
  moreover have "strip_lead ''on '' (event_head ev) = Some (event_text ev)"
    by (simp add: event_head_text strip_lead_def)
  ultimately show ?case using Cons ls by simp
qed

definition state_printable :: "QState \<Rightarrow> bool" where
  "state_printable sd \<longleftrightarrow> plain (state_name sd) \<and> list_all event_printable (state_events sd)"

lemma states_read:
  "list_all state_printable sds \<Longrightarrow> map snd ls = concat (map state_rows sds) \<Longrightarrow> low 0 rest \<Longrightarrow>
    parse_states (ls @ rest) = Inr (sds, rest)"
proof (induction sds arbitrary: ls)
  case Nil
  then show ?case by (cases rest) auto
next
  case (Cons sd sds)
  have "map snd ls = (2, ''state '' @ state_name sd) # concat (map event_rows (state_events sd)) @ concat (map state_rows sds)"
    using Cons.prems(2) by (simp add: state_rows_def [of sd])
  then obtain n l1 l2 where ls: "ls = (n, 2, ''state '' @ state_name sd) # l1 @ l2"
    "map snd l1 = concat (map event_rows (state_events sd))" "map snd l2 = concat (map state_rows sds)"
    by (rule rows_split)
  have "low 2 (l2 @ rest)"
    using low_mono [OF Cons.prems(3), of 2, simplified] by (intro low_rows [OF ls(3)]) (cases sds; auto simp: state_rows_def)
  then have "parse_events (l1 @ l2 @ rest) = Inr (state_events sd, l2 @ rest)"
    using Cons.prems(1) ls(2) by (intro events_read) (auto simp: state_printable_def)
  moreover have "strip_lead ''state '' (''state '' @ state_name sd) = Some (state_name sd)"
    by (rule strip_lead_append)
  moreover have "trim (state_name sd) = state_name sd" using Cons.prems(1) by (simp add: state_printable_def)
  ultimately show ?case using Cons ls by simp
qed

fun quest_printable :: "Quest \<Rightarrow> bool" where
  "quest_printable (QConcrete d) \<longleftrightarrow> ident (quest_name d) \<and> list_all state_printable (quest_states d)"
| "quest_printable (QFamily name ps sds) \<longleftrightarrow> ident name \<and> list_all param_ok ps \<and> list_all state_printable sds"
| "quest_printable (QInstance i) \<longleftrightarrow> ident (inst_name i) \<and> ident (inst_base i) \<and> list_all inst_arg_ok (inst_args i)"

definition block_printable :: "Block \<Rightarrow> bool" where
  "block_printable b \<longleftrightarrow> ident (block_name b) \<and> list_all param_ok (block_params b) \<and> list_all line_ok (block_body b)"

definition printable :: "QuestFile \<Rightarrow> bool" where
  "printable f \<longleftrightarrow> list_all plain (file_imports f) \<and> list_all block_printable (file_blocks f)
     \<and> list_all quest_printable (file_quests f)"

section \<open>Files\<close>

lemma ident_free: "ident s \<Longrightarrow> CHR '' '' \<notin> set s \<and> CHR ''='' \<notin> set s \<and> newline \<notin> set s"
  using ident_notin [of s] by (auto simp: ident_def)

lemma params_free: "list_all param_ok ps \<Longrightarrow> CHR ''='' \<notin> set (render_params ps)"
proof -
  have join: "c \<in> set (join_with '', '' xs) \<Longrightarrow> c = CHR '','' \<or> c = CHR '' '' \<or> (\<exists>x \<in> set xs. c \<in> set x)" for c xs
    by (induction xs rule: induct_list012) auto
  have "CHR ''='' \<notin> set (render_ty ty)" for ty by (cases ty) simp_all
  then show "list_all param_ok ps \<Longrightarrow> ?thesis"
    using ident_free join [of "CHR ''=''" "map render_param ps"]
    by (fastforce simp: render_params_def list_all_iff param_ok_def render_param_def split: option.splits)
qed

lemma quest_read:
  assumes "quest_printable q" and "map snd ls = rs" and "quest_rows q = (0, ''quest '' @ h) # rs" and "low 0 rest"
  shows "parse_quest h (ls @ rest) = Inr (q, rest)"
proof (cases q)
  case (QConcrete d)
  then have h: "h = quest_name d" "map snd ls = concat (map state_rows (quest_states d))" "ident h"
    using assms by auto
  have "parse_states (ls @ rest) = Inr (quest_states d, rest)"
    using assms(1,4) h(2) QConcrete by (intro states_read) simp_all
  moreover have "find_text '' = '' h = None" "find_text '' family '' h = None"
    using ident_free [OF h(3)] by (auto intro!: find_text_none)
  ultimately show ?thesis using QConcrete h plain_ident [OF h(3)] by (simp add: parse_quest_def)
next
  case (QFamily name ps sds)
  then have h: "h = family_head name ps" "map snd ls = concat (map state_rows sds)" "ident name" "list_all param_ok ps"
    using assms by auto
  have "parse_states (ls @ rest) = Inr (sds, rest)"
    using assms(1,4) h(2) QFamily by (intro states_read) simp_all
  moreover have "find_text '' = '' h = None"
    using ident_free [OF h(3)] params_free [OF h(4)]
    by (intro find_text_missing [of "CHR ''=''"]) (simp_all add: h(1) family_head_def applied_def)
  moreover have "find_text '' family '' h = Some (length name)"
    unfolding h(1) family_head_def by (rule find_text_head) (use ident_free [OF h(3)] in simp_all)
  moreover have "plain (applied [] (render_params ps))"
    using params_read(2) [of "[]" ps] h(4) by (simp add: applied_def plain_def)
  ultimately show ?thesis
    using QFamily plain_ident [OF h(3)] params_read(1) [of "[]" ps] h(4)
    by (simp add: parse_quest_def h(1) family_head_def)
next
  case (QInstance i)
  then have h: "h = instance_head i" "ls = []" "ident (inst_name i)" "ident (inst_base i)" "list_all inst_arg_ok (inst_args i)"
    using assms by auto
  note args = inst_args_read [OF h(4,5)]
  have "find_text '' = '' h = Some (length (inst_name i))"
    unfolding h(1) instance_head_def by (rule find_text_head) (use ident_free [OF h(3)] in simp_all)
  moreover have "plain (applied (inst_base i) (join_with '', '' (map render_arg (inst_args i))))"
    by (rule plain_applied) (use h(4) args(2) in simp_all)
  ultimately show ?thesis
    using QInstance h(2) plain_ident [OF h(3)] args(1) by (simp add: parse_quest_def h(1) instance_head_def)
qed

lemma block_read:
  assumes "block_printable b" and "map snd ls = stmt_rows 2 (block_body b)" and "low 0 rest"
  shows "parse_block (ls @ rest) (applied (block_name b) (render_params (block_params b))) = Inr (b, rest)"
  using assms params_read(1) [of "block_name b" "block_params b"] stmts_read [of "block_body b" 0 2 ls rest]
  by (simp add: parse_block_def block_printable_def ident_def)

lemma strip_items [simplified, simp]:
  "strip_lead ''block '' (''block '' @ s) = Some s" "strip_lead ''quest '' (''quest '' @ s) = Some s"
  "strip_lead ''block '' (''quest '' @ s) = None" "strip_lead ''import '' (''import '' @ s) = Some s"
  "strip_lead ''import '' (''block '' @ s) = None" "strip_lead ''import '' (''quest '' @ s) = None"
  by (simp_all add: strip_lead_def)

lemma quest_rows_head:
  obtains h rs where "quest_rows q = (0, ''quest '' @ h) # rs"
  by (cases q) auto

lemma quests_read:
  "list_all quest_printable qs \<Longrightarrow> map snd ls = concat (map quest_rows qs) \<Longrightarrow> low 0 ls \<and> parse_items ls = Inr ([], qs)"
proof (induction qs arbitrary: ls)
  case (Cons q qs)
  obtain h rs where q: "quest_rows q = (0, ''quest '' @ h) # rs" by (rule quest_rows_head)
  then have "map snd ls = (0, ''quest '' @ h) # rs @ concat (map quest_rows qs)" using Cons.prems(2) by simp
  then obtain n l1 l2 where ls: "ls = (n, 0, ''quest '' @ h) # l1 @ l2" "map snd l1 = rs"
    "map snd l2 = concat (map quest_rows qs)"
    by (rule rows_split)
  have "low 0 l2 \<and> parse_items l2 = Inr ([], qs)" using Cons ls(3) by simp
  moreover from this have "parse_quest h (l1 @ l2) = Inr (q, l2)"
    using quest_read [OF _ ls(2) q] Cons.prems(1) by simp
  ultimately show ?case using ls(1) by simp
qed simp

lemma items_lines:
  "list_all block_printable bs \<Longrightarrow> list_all quest_printable qs \<Longrightarrow>
    map snd ls = concat (map block_rows bs) @ concat (map quest_rows qs) \<Longrightarrow>
    low 0 ls \<and> parse_items ls = Inr (bs, qs) \<and> parse_imports ls = Inr ([], ls)"
proof (induction bs arbitrary: ls)
  case Nil
  then have "low 0 ls \<and> parse_items ls = Inr ([], qs)" by (intro quests_read) simp_all
  moreover have "parse_imports ls = Inr ([], ls)"
  proof (cases qs)
    case (Cons q us)
    obtain h rs where "quest_rows q = (0, ''quest '' @ h) # rs" by (rule quest_rows_head)
    with Nil Cons obtain n ls' where "ls = (n, 0, ''quest '' @ h) # ls'" by auto
    then show ?thesis by simp
  qed (use Nil in simp)
  ultimately show ?case by simp
next
  case (Cons b bs)
  let ?h = "applied (block_name b) (render_params (block_params b))"
  have "map snd ls = (0, ''block '' @ ?h) # stmt_rows 2 (block_body b)
      @ concat (map block_rows bs) @ concat (map quest_rows qs)"
    using Cons.prems(3) by (simp add: block_rows_def [of b])
  then obtain n l1 l2 where ls: "ls = (n, 0, ''block '' @ ?h) # l1 @ l2" "map snd l1 = stmt_rows 2 (block_body b)"
    "map snd l2 = concat (map block_rows bs) @ concat (map quest_rows qs)"
    by (rule rows_split)
  have "low 0 l2 \<and> parse_items l2 = Inr (bs, qs)" using Cons ls(3) by simp
  moreover from this have "parse_block (l1 @ l2) ?h = Inr (b, l2)"
    using block_read [OF _ ls(2)] Cons.prems(1) by simp
  ultimately show ?case using ls(1) by simp
qed

lemma imports_read:
  "list_all plain is \<Longrightarrow> map snd ls = map (\<lambda>i. (0, ''import '' @ i)) is \<Longrightarrow> parse_imports rest = Inr ([], rest) \<Longrightarrow>
    parse_imports (ls @ rest) = Inr (is, rest)"
  by (induction "is" arbitrary: ls) auto

text \<open>Every printed line is read as one line.\<close>

lemma row_lead: "plain s \<Longrightarrow> visible c \<Longrightarrow> c \<noteq> CHR ''#'' \<Longrightarrow> newline \<notin> set (c # m) \<Longrightarrow> row_ok (k, c # m @ s)"
  using plain_lead [of s c m] by simp

lemma row_words:
  "plain s \<Longrightarrow> row_ok (k, ''-> '' @ s)" "plain s \<Longrightarrow> row_ok (k, ''if '' @ s)" "plain s \<Longrightarrow> row_ok (k, ''use '' @ s)"
  "plain s \<Longrightarrow> row_ok (k, ''on '' @ s)" "plain s \<Longrightarrow> row_ok (k, ''state '' @ s)" "plain s \<Longrightarrow> row_ok (k, ''quest '' @ s)"
  "plain s \<Longrightarrow> row_ok (k, ''block '' @ s)" "plain s \<Longrightarrow> row_ok (k, ''import '' @ s)" "row_ok (k, ''else'')"
  by (simp_all add: plain_def visible_def byte_of_def)

lemma branch_row: "case c of None \<Rightarrow> True | Some e \<Rightarrow> shaped e \<Longrightarrow> row_ok (k, branch_head c)"
  using row_words(2,9) plain_expr by (auto simp: branch_head_def simp del: row_ok.simps split: option.splits)

lemma line_row: "line_ok s \<Longrightarrow> row_ok (k, render_stmt s)"
proof (cases s)
  case (SAction a capture)
  show ?thesis if "line_ok s"
  proof -
    have call: "plain (render_call a)"
      using that SAction action_ident [of "action_name a"]
      by (auto simp: render_call_applied stmt_arg_ok_def intro!: plain_applied newline_values)
    moreover have "plain (render_call a @ '' as '' @ c)" if "capture = Some c" for c
      by (rule plain_append [OF call]) (use \<open>line_ok s\<close> SAction that plain_ident in auto)
    ultimately show ?thesis
      using row_words(1) SAction by (cases capture) (simp_all del: row_ok.simps)
  qed
next
  case (SUse name args)
  then show "line_ok s \<Longrightarrow> ?thesis"
    using row_words(3) [OF plain_applied [OF _ newline_values], of name args k]
    by (simp add: applied_def del: row_ok.simps)
next
  case (SBranch c body)
  then show "line_ok s \<Longrightarrow> ?thesis" using branch_row [of c k] by (simp del: row_ok.simps)
qed

lemma line_rows_ok: "list_all line_ok ss \<Longrightarrow> list_all row_ok (stmt_rows k ss)"
  by (induction ss) (simp_all add: line_rows line_row del: stmt_rows.simps(2,3) row_ok.simps)

lemma body_rows_ok: "list_all stmt_printable ss \<Longrightarrow> list_all row_ok (stmt_rows k ss)"
proof (induction ss)
  case (Cons s ss)
  then show ?case
    using line_row [of s k]
    by (cases s) (simp_all add: branch_row line_rows_ok del: row_ok.simps render_stmt.simps line_ok.simps)
qed simp

lemma event_rows_ok: "event_printable ev \<Longrightarrow> list_all row_ok (event_rows ev)"
  using row_words(4) [OF plain_event, of ev 4]
  by (simp add: event_rows_def event_printable_def event_head_text body_rows_ok del: row_ok.simps)

lemma state_rows_ok: "state_printable sd \<Longrightarrow> list_all row_ok (state_rows sd)"
  using row_words(5) [of "state_name sd" 2] event_rows_ok
  by (auto simp: state_rows_def state_printable_def list_all_iff simp del: row_ok.simps)

lemma states_rows_ok: "list_all state_printable sds \<Longrightarrow> list_all row_ok (concat (map state_rows sds))"
  using state_rows_ok by (fastforce simp: list_all_iff simp del: row_ok.simps)

lemma quest_rows_ok:
  assumes "quest_printable q"
  shows "list_all row_ok (quest_rows q)"
proof (cases q)
  case (QConcrete d)
  then show ?thesis
    using assms row_words(6) [OF plain_ident, of "quest_name d" 0] states_rows_ok by (simp del: row_ok.simps)
next
  case (QFamily name ps sds)
  have "plain (applied [] (render_params ps))"
    using assms QFamily params_read(2) [of "[]" ps] by (simp add: applied_def plain_def)
  then have "plain (family_head name ps)"
    using plain_append [OF plain_ident, of name "applied [] (render_params ps)" "'' family ''"] assms QFamily
    by (simp add: family_head_def)
  then show ?thesis
    using assms QFamily row_words(6) [of "family_head name ps" 0] states_rows_ok by (simp del: row_ok.simps)
next
  case (QInstance i)
  have "plain (instance_head i)"
    unfolding instance_head_def
    by (rule plain_append [OF plain_ident plain_applied]) (use assms QInstance inst_args_read(2) in auto)
  then show ?thesis using QInstance row_words(6) [of "instance_head i" 0] by (simp del: row_ok.simps)
qed

lemma block_rows_ok: "block_printable b \<Longrightarrow> list_all row_ok (block_rows b)"
  using row_words(7) [OF plain_applied, of "block_name b" "render_params (block_params b)" 0]
    params_read(2) [of "block_name b" "block_params b"]
  by (simp add: block_rows_def block_printable_def line_rows_ok ident_def del: row_ok.simps)

lemma file_rows_ok: "printable f \<Longrightarrow> list_all row_ok (file_rows f)"
proof -
  assume f: "printable f"
  have "list_all row_ok (map (\<lambda>i. (0, ''import '' @ i)) is)" if "list_all plain is" for "is"
    using that row_words(8) by (induction "is") (simp_all del: row_ok.simps)
  moreover have "list_all row_ok (concat (map block_rows bs))" if "list_all block_printable bs" for bs
    using that by (induction bs) (simp_all add: block_rows_ok del: row_ok.simps)
  moreover have "list_all row_ok (concat (map quest_rows qs))" if "list_all quest_printable qs" for qs
    using that by (induction qs) (simp_all add: quest_rows_ok del: row_ok.simps)
  ultimately show "list_all row_ok (file_rows f)" using f by (simp add: file_rows_def printable_def del: row_ok.simps)
qed

lemma rows_parsed:
  assumes "printable f" and "map snd ls = file_rows f"
  shows "\<exists>rest. parse_imports ls = Inr (file_imports f, rest) \<and> parse_items rest = Inr (file_blocks f, file_quests f)"
proof -
  obtain l1 l2 where ls: "ls = l1 @ l2" "map snd l1 = map (\<lambda>i. (0, ''import '' @ i)) (file_imports f)"
    "map snd l2 = concat (map block_rows (file_blocks f)) @ concat (map quest_rows (file_quests f))"
    by (rule rows_append [OF assms(2) [unfolded file_rows_def]])
  have "parse_items l2 = Inr (file_blocks f, file_quests f) \<and> parse_imports l2 = Inr ([], l2)"
    using items_lines [OF _ _ ls(3)] assms(1) by (simp add: printable_def)
  with imports_read [OF _ ls(2), of l2] assms(1) ls(1) show ?thesis by (simp add: printable_def)
qed

lemma render_read: "printable f \<Longrightarrow> parse (render f) = Inr f"
proof -
  assume f: "printable f"
  have "map snd (read_lines 1 (lines_of (render f))) = file_rows f"
    by (simp add: file_text lines_read file_rows_ok f)
  from rows_parsed [OF f this] show "parse (render f) = Inr f" by (auto simp: parse_def)
qed

text \<open>C36. Whatever quest file the printer writes, the parser reads back: for a file whose names,
  texts and expressions the language can express, parsing the printed text gives the file again.\<close>

theorem parse_render:
  assumes "printable f"
  shows "parse (render f) = Inr f"
  using assms by (rule render_read)

definition sample_file :: QuestFile where
  "sample_file =
    \<lparr>file_imports = [''common''],
     file_blocks = [\<lparr>block_name = ''reward'', block_params = [\<lparr>param_name = ''item'', param_type = Some TyVnum\<rparr>],
       block_body = [SAction \<lparr>action_name = GiveItem2, action_args = [VParam ''item'', VNum 1]\<rparr> None]\<rparr>],
     file_quests =
      [QFamily ''collect'' [\<lparr>param_name = ''lv'', param_type = None\<rparr>]
        [\<lparr>state_name = ''start'', state_events =
          [\<lparr>ev_triggers = [\<lparr>trigger_kind = KLogin\<rparr>, \<lparr>trigger_kind = KKill (TargetNum 601)\<rparr>],
            ev_condition = Some (EAnd (ECompare (EFunc PcLevel []) CmpGe (EValue (VParam ''lv''))) (ENot (ECapture ''busy''))),
            ev_body =
             [SAction \<lparr>action_name = Select, action_args = [VKey ''yes'', VStr ''no, thanks'']\<rparr> (Some ''choice''),
              SBranch (Some (ECompare (ECapture ''choice'') CmpEq (EValue (VNum 1)))) [SUse ''reward'' [VNum 71035]],
              SBranch None [SAction \<lparr>action_name = Return, action_args = []\<rparr> None]]\<rparr>]\<rparr>],
       QInstance \<lparr>inst_name = ''collect_lv30'', inst_base = ''collect'', inst_args = [(''lv'', VNum 30)]\<rparr>]\<rparr>"

lemma sample_printable: "printable sample_file"
  by code_simp

theorem parse_render_witness: "printable sample_file \<and> parse (render sample_file) = Inr sample_file"
  using parse_render [OF sample_printable] sample_printable by simp

end
