(* ===== verification/QuestFamily.thy ===== *)
theory QuestFamily
  imports QuestParser QuestRun
begin

text \<open>
  Quest families (\<^verbatim>\<open>quest_dsl/src/family.rs\<close>, the expansion of instances) and the loading of the
  engine from the text of a quest file (\<^verbatim>\<open>QuestEngine::load\<close>). What the parser accepts has
  representable literals and branches of one level, and the expansion keeps that, so the engine
  that is loaded meets what its execution relies on. The output of Rust's derived \<^verbatim>\<open>Debug\<close>, which
  ends up in the name of a parameter nobody gave a number, is the argument \<open>debug\<close>.
\<close>

section \<open>Expansion\<close>

type_synonym Bindings = "string \<rightharpoonup> Val"

fun subst_expr :: "Bindings \<Rightarrow> Expr \<Rightarrow> Expr" and subst_value :: "Bindings \<Rightarrow> Val \<Rightarrow> Val" where
  "subst_expr m (EBetween a b c) = EBetween (subst_expr m a) (subst_expr m b) (subst_expr m c)"
| "subst_expr m (ECompare a oper b) = ECompare (subst_expr m a) oper (subst_expr m b)"
| "subst_expr m (EAdd a b) = EAdd (subst_expr m a) (subst_expr m b)"
| "subst_expr m (ESub a b) = ESub (subst_expr m a) (subst_expr m b)"
| "subst_expr m (EMul a b) = EMul (subst_expr m a) (subst_expr m b)"
| "subst_expr m (EDiv a b) = EDiv (subst_expr m a) (subst_expr m b)"
| "subst_expr m (EAnd a b) = EAnd (subst_expr m a) (subst_expr m b)"
| "subst_expr m (EOr a b) = EOr (subst_expr m a) (subst_expr m b)"
| "subst_expr m (ENot a) = ENot (subst_expr m a)"
| "subst_expr m (EValue v) = EValue (subst_value m v)"
| "subst_expr m (ECapture c) = ECapture c"
| "subst_expr m (EFunc f args) = EFunc f (map (subst_expr m) args)"
| "subst_value m (VParam p) = (case m p of Some v \<Rightarrow> v | None \<Rightarrow> VParam p)"
| "subst_value m (VExpr e) = VExpr (subst_expr m e)"
| "subst_value m (VNum n) = VNum n"
| "subst_value m (VStr s) = VStr s"
| "subst_value m (VKey k) = VKey k"

fun subst_stmt :: "Bindings \<Rightarrow> Stmt \<Rightarrow> Stmt" where
  "subst_stmt m (SAction a capture) =
     SAction \<lparr>action_name = action_name a, action_args = map (subst_value m) (action_args a)\<rparr> capture"
| "subst_stmt m (SBranch c body) = SBranch (map_option (subst_expr m) c) (map (subst_stmt m) body)"
| "subst_stmt m (SUse name args) = SUse name (map (subst_value m) args)"

fun subst_target :: "(Val \<Rightarrow> string) \<Rightarrow> Bindings \<Rightarrow> TriggerTarget \<Rightarrow> TriggerTarget" where
  "subst_target debug m (TargetParam name) =
    (case m name of
       Some (VNum n) \<Rightarrow>
         if 0 \<le> n \<and> n \<le> 2 ^ 32 - 1 then TargetNum (word_of_int n) else TargetParam (debug (VNum n))
     | Some v \<Rightarrow> TargetParam (debug v)
     | None \<Rightarrow> TargetParam name)"
| "subst_target debug m t = t"

fun subst_kind :: "(Val \<Rightarrow> string) \<Rightarrow> Bindings \<Rightarrow> TriggerKind \<Rightarrow> TriggerKind" where
  "subst_kind debug m (KChat t) = KChat (subst_target debug m t)"
| "subst_kind debug m (KKill t) = KKill (subst_target debug m t)"
| "subst_kind debug m (KUse t) = KUse (subst_target debug m t)"
| "subst_kind debug m k = k"

definition subst_trigger :: "(Val \<Rightarrow> string) \<Rightarrow> Bindings \<Rightarrow> Trigger \<Rightarrow> Trigger" where
  "subst_trigger debug m t = \<lparr>trigger_kind = subst_kind debug m (trigger_kind t)\<rparr>"

definition subst_event :: "(Val \<Rightarrow> string) \<Rightarrow> Bindings \<Rightarrow> QEvent \<Rightarrow> QEvent" where
  "subst_event debug m ev =
     \<lparr>ev_triggers = map (subst_trigger debug m) (ev_triggers ev),
      ev_condition = map_option (subst_expr m) (ev_condition ev),
      ev_body = map (subst_stmt m) (ev_body ev)\<rparr>"

definition substitute_state :: "(Val \<Rightarrow> string) \<Rightarrow> Bindings \<Rightarrow> QState \<Rightarrow> QState" where
  "substitute_state debug m sd =
     \<lparr>state_name = state_name sd, state_events = map (subst_event debug m) (state_events sd)\<rparr>"

datatype family_error =
    NoFamily string string
  | NoArgument string string string
  | WrongType string string Val ParamType

definition validate_type :: "ParamType \<Rightarrow> Val \<Rightarrow> bool" where
  "validate_type ty v =
    (case (ty, v) of
       (TyVnum, VNum _) \<Rightarrow> True
     | (TyLevel, VNum _) \<Rightarrow> True
     | (TyKey, VKey _) \<Rightarrow> True
     | (TyKey, VStr _) \<Rightarrow> True
     | (TyStr, VStr _) \<Rightarrow> True
     | (TyStr, VKey _) \<Rightarrow> True
     | _ \<Rightarrow> False)"

text \<open>The map from parameters to values: a later parameter of the same name wins.\<close>

fun bind_params :: "InstanceDef \<Rightarrow> QParam list \<Rightarrow> Bindings \<Rightarrow> family_error + Bindings" where
  "bind_params inst [] m = Inr m"
| "bind_params inst (p # ps) m =
    (case List.find (\<lambda>(n, v). n = param_name p) (inst_args inst) of
       None \<Rightarrow> Inl (NoArgument (inst_name inst) (param_name p) (inst_base inst))
     | Some (n, v) \<Rightarrow>
        (case param_type p of
           Some ty \<Rightarrow>
             if validate_type ty v then bind_params inst ps (m(param_name p \<mapsto> v))
             else Inl (WrongType (inst_name inst) (param_name p) v ty)
         | None \<Rightarrow> bind_params inst ps (m(param_name p \<mapsto> v))))"

text \<open>The families of a file by name: of two of the same name the later one stays.\<close>

definition families :: "Quest list \<Rightarrow> string \<rightharpoonup> QParam list \<times> QState list" where
  "families qs = map_of (rev (List.map_filter
     (\<lambda>q. case q of QFamily name ps sds \<Rightarrow> Some (name, ps, sds) | _ \<Rightarrow> None) qs))"

fun expand_all :: "(Val \<Rightarrow> string) \<Rightarrow> (string \<rightharpoonup> QParam list \<times> QState list) \<Rightarrow> Quest list \<Rightarrow> family_error + QuestDef list" where
  "expand_all debug fam [] = Inr []"
| "expand_all debug fam (QInstance inst # qs) =
    (case fam (inst_base inst) of
       None \<Rightarrow> Inl (NoFamily (inst_base inst) (inst_name inst))
     | Some (ps, sds) \<Rightarrow>
        (case bind_params inst ps Map.empty of
           Inl e \<Rightarrow> Inl e
         | Inr m \<Rightarrow>
            (case expand_all debug fam qs of
               Inl e \<Rightarrow> Inl e
             | Inr ds \<Rightarrow>
                 Inr (\<lparr>quest_name = inst_name inst, quest_states = map (substitute_state debug m) sds\<rparr> # ds))))"
| "expand_all debug fam (q # qs) = expand_all debug fam qs"

definition expand_families :: "(Val \<Rightarrow> string) \<Rightarrow> QuestFile \<Rightarrow> family_error + QuestDef list" where
  "expand_families debug f = expand_all debug (families (file_quests f)) (file_quests f)"

section \<open>Loading the engine\<close>

datatype load_error = LoadParse ParseError | LoadFamily family_error

definition concrete_quests :: "QuestFile \<Rightarrow> QuestDef list" where
  "concrete_quests f = List.map_filter (\<lambda>q. case q of QConcrete d \<Rightarrow> Some d | _ \<Rightarrow> None) (file_quests f)"

definition engine_load :: "(Val \<Rightarrow> string) \<Rightarrow> string \<Rightarrow> load_error + Engine" where
  "engine_load debug s =
    (case parse s of
       Inl e \<Rightarrow> Inl (LoadParse e)
     | Inr f \<Rightarrow>
        (case expand_families debug f of
           Inl e \<Rightarrow> Inl (LoadFamily e)
         | Inr ds \<Rightarrow> Inr \<lparr>eng_quests = concrete_quests f @ ds, eng_texts = Map.empty\<rparr>))"

section \<open>What the descent returns\<close>

definition delivers :: "('a \<Rightarrow> bool) \<Rightarrow> complaint + 'a \<times> string list \<Rightarrow> bool" where
  "delivers P r \<longleftrightarrow> (\<forall>a ts. r = Inr (a, ts) \<longrightarrow> P a)"

lemma delivers_simps [simp]: "delivers P (Inl e)" "delivers P (Inr (a, ts)) \<longleftrightarrow> P a"
  by (simp_all add: delivers_def)

lemma delivers_case:
  assumes "delivers P r" and "\<And>a us. r = Inr (a, us) \<Longrightarrow> P a \<Longrightarrow> delivers Q (f a us)"
  shows "delivers Q (case r of Inl e \<Rightarrow> Inl e | Inr (a, us) \<Rightarrow> f a us)"
  using assms by (auto simp: delivers_def split: sum.split)

lemmas descent_induct =
  parse_or_or_loop_parse_and_and_loop_parse_cmp_parse_between_parse_add_add_loop_parse_mul_mul_loop_parse_primary_args_loop.induct

lemma atom_literals: "delivers expr_ok (atom t ts)"
  by (auto simp: atom_def dest: i64_range split: option.splits list.splits)

lemma finish_call_literals: "delivers (list_all expr_ok) r \<Longrightarrow> delivers expr_ok (finish_call t r)"
  by (auto simp: finish_call_def delivers_def list_all_iff split: sum.splits option.splits)

lemma descent_literals:
  "delivers expr_ok (parse_or ts)"
  "expr_ok lhs \<Longrightarrow> delivers expr_ok (or_loop lhs ts)"
  "delivers expr_ok (parse_and ts)"
  "expr_ok lhs \<Longrightarrow> delivers expr_ok (and_loop lhs ts)"
  "delivers expr_ok (parse_cmp ts)"
  "delivers expr_ok (parse_between ts)"
  "delivers expr_ok (parse_add ts)"
  "expr_ok lhs \<Longrightarrow> delivers expr_ok (add_loop lhs ts)"
  "delivers expr_ok (parse_mul ts)"
  "expr_ok lhs \<Longrightarrow> delivers expr_ok (mul_loop lhs ts)"
  "delivers expr_ok (parse_primary ts)"
  "list_all expr_ok args \<Longrightarrow> delivers (list_all expr_ok) (args_loop args ts)"
proof (induction ts and lhs ts and ts and lhs ts and ts and ts and ts and lhs ts and ts and lhs ts and ts and args ts
    rule: descent_induct)
  case (1 ts)
  then show ?case by (subst parse_or.simps) (auto intro!: delivers_case)
next
  case (2 lhs ts)
  then show ?case by (subst or_loop.simps) (auto intro!: delivers_case)
next
  case (3 ts)
  then show ?case by (subst parse_and.simps) (auto intro!: delivers_case)
next
  case (4 lhs ts)
  then show ?case by (subst and_loop.simps) (auto intro!: delivers_case)
next
  case (5 ts)
  then show ?case
    by (subst parse_cmp.simps) (auto intro!: delivers_case [where P = expr_ok] split: list.split option.split)
next
  case (6 ts)
  then show ?case by (subst parse_between.simps) (auto intro!: delivers_case [where P = expr_ok])
next
  case (7 ts)
  then show ?case by (subst parse_add.simps) (auto intro!: delivers_case)
next
  case (8 lhs ts)
  then show ?case by (subst add_loop.simps) (auto intro!: delivers_case)
next
  case (9 ts)
  then show ?case by (subst parse_mul.simps) (auto intro!: delivers_case)
next
  case (10 lhs ts)
  then show ?case by (subst mul_loop.simps) (auto intro!: delivers_case)
next
  case (11 ts)
  then show ?case
    by (subst parse_primary.simps)
      (auto intro!: delivers_case [where P = expr_ok] finish_call_literals atom_literals split: list.split)
next
  case (12 args ts)
  then show ?case by (subst args_loop.simps) (auto intro!: delivers_case [where P = expr_ok])
qed

section \<open>What the parser accepts\<close>

lemma parse_expr_literals: "parse_expr s = Inr e \<Longrightarrow> expr_ok e"
  using descent_literals(1) [of "tokenize s"]
  by (auto simp: parse_expr_def delivers_def split: sum.splits if_splits)

lemma value_of_expr: "expr_ok e \<Longrightarrow> val_ok (case e of EValue v \<Rightarrow> v | _ \<Rightarrow> VExpr e)"
  by (cases e) simp_all

lemma parse_value_literals: "parse_value s = Inr v \<Longrightarrow> val_ok v"
  by (auto simp: parse_value_def Let_def dest: i64_range intro: value_of_expr parse_expr_literals
      split: option.splits if_splits sum.splits)

lemma map_result_all:
  "map_result f xs = Inr ys \<Longrightarrow> (\<And>x y. f x = Inr y \<Longrightarrow> P y) \<Longrightarrow> list_all P ys"
  by (induction xs arbitrary: ys) (auto split: sum.splits)

lemma parse_values_literals: "parse_values s = Inr vs \<Longrightarrow> list_all val_ok vs"
  by (auto simp: parse_values_def intro: map_result_all parse_value_literals split: sum.splits)

lemma parse_call_literals: "parse_call s = Inr (name, args, capture) \<Longrightarrow> list_all val_ok args"
  by (auto simp: parse_call_def Let_def dest: parse_values_literals split: option.splits if_splits sum.splits prod.splits)

lemma parse_action_literals: "parse_action s = Inr (a, capture) \<Longrightarrow> list_all val_ok (action_args a)"
  by (auto simp: parse_action_def split: option.splits sum.splits) (rule parse_call_literals)

lemma parse_use_literals: "parse_use_args s = Inr (name, args) \<Longrightarrow> list_all val_ok args"
  by (auto simp: parse_use_args_def dest: parse_values_literals split: sum.splits)

definition line_stmt_ok :: "Stmt \<Rightarrow> bool" where
  "line_stmt_ok s \<longleftrightarrow> stmt_ok s \<and> bodiless s"

lemma parse_stmt_ok: "parse_stmt ln s = Inr st \<Longrightarrow> line_stmt_ok st"
  by (auto simp: parse_stmt_def line_stmt_ok_def dest: parse_action_literals parse_use_literals parse_expr_literals
      split: option.splits sum.splits if_splits)

lemma stmts_below_ok: "stmts_below ind ls = Inr (ss, ls') \<Longrightarrow> list_all line_stmt_ok ss"
  by (induction ind ls arbitrary: ss rule: stmts_below.induct)
    (auto dest: parse_stmt_ok split: if_splits sum.splits)

definition body_ok :: "Stmt list \<Rightarrow> bool" where
  "body_ok ss \<longleftrightarrow> list_all stmt_ok ss \<and> list_all flat_stmt ss"

lemma body_ok_simps [simp]:
  "body_ok []" "body_ok (s # ss) \<longleftrightarrow> stmt_ok s \<and> flat_stmt s \<and> body_ok ss"
  by (auto simp: body_ok_def)

lemma line_body_ok: "line_stmt_ok s \<Longrightarrow> stmt_ok s \<and> flat_stmt s"
  by (cases s) (auto simp: line_stmt_ok_def)

lemma branch_ok: "list_all line_stmt_ok body \<Longrightarrow> (case c of None \<Rightarrow> True | Some e \<Rightarrow> expr_ok e) \<Longrightarrow>
    stmt_ok (SBranch c body) \<and> flat_stmt (SBranch c body)"
  by (auto simp: list_all_iff line_stmt_ok_def)

lemma event_body_ok: "event_body ls = Inr (ss, ls') \<Longrightarrow> body_ok ss"
proof (induction ls arbitrary: ss ls' rule: event_body.induct)
  case (2 ln i t ls)
  let ?cond = "case strip_lead ''if '' t of
      Some c \<Rightarrow> (case parse_expr (trim c) of Inl m \<Rightarrow> Inl (err ln m) | Inr e \<Rightarrow> Inr (Some e)) | None \<Rightarrow> Inr None"
  show ?case
  proof (cases "i \<le> 4")
    case False
    show ?thesis
    proof (cases "strip_lead ''if '' t \<noteq> None \<or> t = ''else''")
      case True
      with 2(3) False obtain c body us rest where
        c: "?cond = Inr c" and body: "stmts_below i ls = Inr (body, us)"
        and rest: "event_body us = Inr (rest, ls')" and ss: "ss = SBranch c body # rest"
        by (simp split: sum.splits prod.splits)
      have "case c of None \<Rightarrow> True | Some e \<Rightarrow> expr_ok e"
        using c by (auto dest: parse_expr_literals split: option.splits sum.splits)
      with branch_ok [OF stmts_below_ok [OF body]] 2(1) [OF False True c body refl rest] ss
      show ?thesis by (simp del: stmt_ok.simps flat_stmt.simps)
    next
      case False
      with 2(3) \<open>\<not> i \<le> 4\<close> obtain s rest where
        s: "parse_stmt ln t = Inr s" and rest: "event_body ls = Inr (rest, ls')" and ss: "ss = s # rest"
        by (simp split: sum.splits prod.splits)
      with line_body_ok [OF parse_stmt_ok [OF s]] 2(2) [OF \<open>\<not> i \<le> 4\<close> False s rest] show ?thesis by simp
    qed
  qed (use 2(3) in simp)
qed simp

lemma parse_event_ok: "parse_event ln rest ls = Inr (ev, ls') \<Longrightarrow> event_ok ev"
  by (auto simp: parse_event_def Let_def body_ok_def [symmetric]
      dest: event_body_ok parse_expr_literals split: sum.splits option.splits prod.splits)

definition state_ok :: "QState \<Rightarrow> bool" where
  "state_ok sd \<longleftrightarrow> list_all event_ok (state_events sd)"

lemma parse_events_ok: "parse_events ls = Inr (evs, ls') \<Longrightarrow> list_all event_ok evs"
proof (induction ls arbitrary: evs ls' rule: parse_events.induct)
  case (2 ln i t ls)
  show ?case
  proof (cases "i \<le> 2")
    case False
    with 2(2) obtain rest ev us evs' where rest: "i = 4" "strip_lead ''on '' t = Some rest"
      and ev: "parse_event ln rest ls = Inr (ev, us)" and evs: "parse_events us = Inr (evs', ls')" "evs = ev # evs'"
      by (simp split: if_splits sum.splits option.splits prod.splits)
    from False rest(1) 2(1) [OF _ _ rest(2) ev refl evs(1)] parse_event_ok [OF ev] evs(2)
    show ?thesis by (simp del: event_ok.simps)
  qed (use 2(2) in simp)
qed simp

lemma parse_states_ok: "parse_states ls = Inr (sts, ls') \<Longrightarrow> list_all state_ok sts"
proof (induction ls arbitrary: sts ls' rule: parse_states.induct)
  case (2 ln i t ls)
  show ?case
  proof (cases "i = 0")
    case False
    with 2(2) obtain rest evs us sts' where rest: "i = 2" "strip_lead ''state '' t = Some rest"
      and evs: "parse_events ls = Inr (evs, us)" and sts: "parse_states us = Inr (sts', ls')"
        "sts = \<lparr>state_name = trim rest, state_events = evs\<rparr> # sts'"
      by (simp split: if_splits sum.splits option.splits prod.splits)
    from False rest(1) 2(1) [OF _ _ rest(2) evs refl sts(1)] parse_events_ok [OF evs] sts(2)
    show ?thesis by (simp add: state_ok_def)
  qed (use 2(2) in simp)
qed simp

fun parsed_ok :: "Quest \<Rightarrow> bool" where
  "parsed_ok (QConcrete d) \<longleftrightarrow> quest_ok d"
| "parsed_ok (QFamily name ps sds) \<longleftrightarrow> list_all state_ok sds"
| "parsed_ok (QInstance inst) \<longleftrightarrow> list_all (\<lambda>(n, v). val_ok v) (inst_args inst)"

lemma quest_states_ok: "quest_ok d \<longleftrightarrow> list_all state_ok (quest_states d)"
  by (simp add: quest_ok_def state_ok_def [abs_def])

lemma parse_inst_arg_literals: "parse_inst_arg s = Inr a \<Longrightarrow> case a of (n, v) \<Rightarrow> val_ok v"
  by (auto simp: parse_inst_arg_def Let_def dest: parse_value_literals split: option.splits sum.splits)

lemma parse_name_args_literals: "parse_name_args s = Inr (base, args) \<Longrightarrow> list_all (\<lambda>(n, v). val_ok v) args"
  by (auto simp: parse_name_args_def split: sum.splits) (rule map_result_all [OF _ parse_inst_arg_literals])

lemma parse_quest_ok: "parse_quest rest ls = Inr (q, ls') \<Longrightarrow> parsed_ok q"
  by (auto simp: parse_quest_def quest_states_ok dest: parse_name_args_literals parse_states_ok
      split: sum.splits option.splits)

lemma parse_items_ok: "parse_items ls = Inr (bs, qs) \<Longrightarrow> list_all parsed_ok qs"
proof (induction ls arbitrary: bs qs rule: parse_items.induct)
  case (2 ln i t ls)
  have i: "\<not> i \<noteq> 0" using 2(3) by (simp split: if_splits)
  show ?case
  proof (cases "strip_lead ''block '' t")
    case None
    with 2(3) obtain rest q us qs' where rest: "strip_lead ''quest '' t = Some rest"
      and q: "parse_quest rest ls = Inr (q, us)" and qs: "parse_items us = Inr (bs, qs')" "qs = q # qs'"
      by (simp split: if_splits sum.splits option.splits prod.splits)
    from 2(1) [OF i None rest q refl qs(1)] parse_quest_ok [OF q] qs(2) show ?thesis by simp
  next
    case (Some rest)
    with 2(3) obtain b us bs' where b: "parse_block ls rest = Inr (b, us)" and qs: "parse_items us = Inr (bs', qs)"
      by (simp split: if_splits sum.splits option.splits prod.splits)
    from 2(2) [OF i Some b refl qs] show ?thesis .
  qed
qed simp

lemma parse_ok: "parse s = Inr f \<Longrightarrow> list_all parsed_ok (file_quests f)"
  by (auto simp: parse_def split: sum.splits) (rule parse_items_ok)

section \<open>What the expansion keeps\<close>

definition bindings_ok :: "Bindings \<Rightarrow> bool" where
  "bindings_ok m \<longleftrightarrow> (\<forall>p v. m p = Some v \<longrightarrow> val_ok v)"

lemma subst_literals:
  "bindings_ok m \<Longrightarrow> expr_ok e \<Longrightarrow> expr_ok (subst_expr m e)"
  "bindings_ok m \<Longrightarrow> val_ok v \<Longrightarrow> val_ok (subst_value m v)"
  by (induction e and v) (auto simp: bindings_ok_def split: option.split)

lemma subst_stmt_ok: "bindings_ok m \<Longrightarrow> stmt_ok s \<Longrightarrow> stmt_ok (subst_stmt m s)"
  by (induction s) (auto simp: subst_literals list_all_iff split: option.split)

lemma subst_flat: "flat_stmt s \<Longrightarrow> flat_stmt (subst_stmt m s)"
proof (cases s)
  case (SBranch c body)
  have "bodiless b \<Longrightarrow> bodiless (subst_stmt m b)" for b by (cases b) simp_all
  then show "flat_stmt s \<Longrightarrow> ?thesis" using SBranch by (auto simp: list_all_iff)
qed simp_all

lemma substitute_state_ok: "bindings_ok m \<Longrightarrow> state_ok sd \<Longrightarrow> state_ok (substitute_state debug m sd)"
  by (auto simp: state_ok_def substitute_state_def subst_event_def list_all_iff subst_literals subst_stmt_ok subst_flat
      split: option.splits)

lemma bind_params_ok:
  "bind_params inst ps m = Inr m' \<Longrightarrow> list_all (\<lambda>(n, v). val_ok v) (inst_args inst) \<Longrightarrow> bindings_ok m \<Longrightarrow> bindings_ok m'"
proof (induction ps arbitrary: m)
  case (Cons p ps)
  obtain n v where v: "List.find (\<lambda>(n, v). n = param_name p) (inst_args inst) = Some (n, v)"
    using Cons.prems(1) by (auto split: option.splits)
  then have "val_ok v" using Cons.prems(2) by (auto simp: find_Some_iff list_all_length)
  then have "bindings_ok (m(param_name p \<mapsto> v))" using Cons.prems(3) by (simp add: bindings_ok_def)
  with Cons v show ?case by (auto split: option.splits if_splits)
qed simp

lemma families_ok: "list_all parsed_ok qs \<Longrightarrow> families qs name = Some (ps, sds) \<Longrightarrow> list_all state_ok sds"
  by (fastforce simp: families_def List.map_filter_def list_all_iff dest!: map_of_SomeD split: Quest.splits)

lemma expand_all_ok:
  "expand_all debug fam qs = Inr ds \<Longrightarrow> list_all parsed_ok qs \<Longrightarrow>
    (\<And>name ps sds. fam name = Some (ps, sds) \<Longrightarrow> list_all state_ok sds) \<Longrightarrow> list_all quest_ok ds"
proof (induction debug fam qs arbitrary: ds rule: expand_all.induct)
  case (2 debug fam inst qs)
  obtain ps sds m ds' where fam: "fam (inst_base inst) = Some (ps, sds)"
    and m: "bind_params inst ps Map.empty = Inr m" and ds': "expand_all debug fam qs = Inr ds'"
    and ds: "ds = \<lparr>quest_name = inst_name inst, quest_states = map (substitute_state debug m) sds\<rparr> # ds'"
    using 2(2) by (auto split: option.splits sum.splits)
  have "bindings_ok m" using bind_params_ok [OF m] 2(3) by (simp add: bindings_ok_def)
  then have "list_all state_ok (map (substitute_state debug m) sds)"
    using 2(4) [OF fam] by (auto simp: list_all_iff substitute_state_ok)
  with 2(1) [OF fam refl m ds'] 2(3,4) ds show ?case by (simp add: quest_states_ok)
qed auto

lemma expand_families_ok: "list_all parsed_ok (file_quests f) \<Longrightarrow> expand_families debug f = Inr ds \<Longrightarrow> list_all quest_ok ds"
  unfolding expand_families_def by (rule expand_all_ok) (auto dest: families_ok)

lemma concrete_quests_ok: "list_all parsed_ok (file_quests f) \<Longrightarrow> list_all quest_ok (concrete_quests f)"
  by (fastforce simp: concrete_quests_def List.map_filter_def list_all_iff split: Quest.splits)

end
