(* ===== verification/QuestShape.thy ===== *)
theory QuestShape
  imports QuestTrip QuestFamily
begin

text \<open>
  What the parser of the quest language makes of a text: it takes tokens at every step, it
  respects the ranks of the operators, its errors name a line, and it reads back what the printer
  writes. Where it does not do what the documents of the language promise, a theorem says so.
\<close>

section \<open>The ranks of the operators\<close>

text \<open>The part of \<open>shaped\<close> that is about the operators only.\<close>

fun ranked :: "Expr \<Rightarrow> bool" where
  "ranked (EBetween a b c) \<longleftrightarrow> ranked a \<and> ranked b \<and> ranked c \<and> rank a \<le> 2 \<and> rank b \<le> 2 \<and> rank c \<le> 2"
| "ranked (ECompare a oper b) \<longleftrightarrow> ranked a \<and> ranked b \<and> rank a \<le> 3 \<and> rank b \<le> 3"
| "ranked (EAdd a b) \<longleftrightarrow> ranked a \<and> ranked b \<and> rank a \<le> 2 \<and> rank b \<le> 1"
| "ranked (ESub a b) \<longleftrightarrow> ranked a \<and> ranked b \<and> rank a \<le> 2 \<and> rank b \<le> 1"
| "ranked (EMul a b) \<longleftrightarrow> ranked a \<and> ranked b \<and> rank a \<le> 1 \<and> rank b = 0"
| "ranked (EDiv a b) \<longleftrightarrow> ranked a \<and> ranked b \<and> rank a \<le> 1 \<and> rank b = 0"
| "ranked (EAnd a b) \<longleftrightarrow> ranked a \<and> ranked b \<and> rank a \<le> 5 \<and> rank b \<le> 4"
| "ranked (EOr a b) \<longleftrightarrow> ranked a \<and> ranked b \<and> rank b \<le> 5"
| "ranked (ENot a) \<longleftrightarrow> ranked a \<and> rank a = 0"
| "ranked (EFunc f args) \<longleftrightarrow> (\<forall>a \<in> set args. ranked a)"
| "ranked e \<longleftrightarrow> True"

definition within :: "nat \<Rightarrow> Expr \<Rightarrow> bool" where
  "within n e \<longleftrightarrow> ranked e \<and> rank e \<le> n"

lemma within_up:
  "within n e \<Longrightarrow> ranked e" "within 4 e \<Longrightarrow> within 5 e" "within 3 e \<Longrightarrow> within 4 e" "within 2 e \<Longrightarrow> within 3 e"
  "within 1 e \<Longrightarrow> within 2 e" "within 0 e \<Longrightarrow> within 1 e"
  by (simp_all add: within_def)

lemma within_nodes:
  "ranked (EOr a b) \<longleftrightarrow> ranked a \<and> within 5 b"
  "within 5 (EAnd a b) \<longleftrightarrow> within 5 a \<and> within 4 b"
  "within 4 (ECompare a oper b) \<longleftrightarrow> within 3 a \<and> within 3 b"
  "within 3 (EBetween a b c) \<longleftrightarrow> within 2 a \<and> within 2 b \<and> within 2 c"
  "within 2 (EAdd a b) \<longleftrightarrow> within 2 a \<and> within 1 b" "within 2 (ESub a b) \<longleftrightarrow> within 2 a \<and> within 1 b"
  "within 1 (EMul a b) \<longleftrightarrow> within 1 a \<and> within 0 b" "within 1 (EDiv a b) \<longleftrightarrow> within 1 a \<and> within 0 b"
  "within 0 (ENot a) \<longleftrightarrow> within 0 a"
  by (auto simp: within_def)

lemma delivers_mono: "delivers P r \<Longrightarrow> (\<And>a. P a \<Longrightarrow> Q a) \<Longrightarrow> delivers Q r"
  by (auto simp: delivers_def)

lemma atom_ranked: "delivers (within 0) (atom t ts)"
  by (auto simp: atom_def within_def split: option.splits list.splits)

lemma finish_call_ranked: "delivers (list_all ranked) r \<Longrightarrow> delivers (within 0) (finish_call t r)"
  by (auto simp: finish_call_def delivers_def within_def list_all_iff split: sum.splits option.splits)

lemma descent_ranked:
  "delivers ranked (parse_or ts)"
  "ranked lhs \<Longrightarrow> delivers ranked (or_loop lhs ts)"
  "delivers (within 5) (parse_and ts)"
  "within 5 lhs \<Longrightarrow> delivers (within 5) (and_loop lhs ts)"
  "delivers (within 4) (parse_cmp ts)"
  "delivers (within 3) (parse_between ts)"
  "delivers (within 2) (parse_add ts)"
  "within 2 lhs \<Longrightarrow> delivers (within 2) (add_loop lhs ts)"
  "delivers (within 1) (parse_mul ts)"
  "within 1 lhs \<Longrightarrow> delivers (within 1) (mul_loop lhs ts)"
  "delivers (within 0) (parse_primary ts)"
  "list_all ranked args \<Longrightarrow> delivers (list_all ranked) (args_loop args ts)"
proof (induction ts and lhs ts and ts and lhs ts and ts and ts and ts and lhs ts and ts and lhs ts and ts and args ts
    rule: descent_induct)
  case (1 ts)
  show ?case by (subst parse_or.simps) (rule delivers_case [OF 1(1)], rule 1(2), auto intro: within_up)
next
  case (2 lhs ts)
  then show ?case by (subst or_loop.simps) (auto intro!: delivers_case simp: within_nodes simp del: ranked.simps(8))
next
  case (3 ts)
  show ?case by (subst parse_and.simps) (rule delivers_case [OF 3(1)], rule 3(2), auto intro: within_up)
next
  case (4 lhs ts)
  then show ?case by (subst and_loop.simps) (auto intro!: delivers_case simp: within_nodes)
next
  case (5 ts)
  then show ?case
    by (subst parse_cmp.simps)
      (auto intro!: delivers_case [where P = "within 3"] simp: within_nodes within_up split: list.split option.split)
next
  case (6 ts)
  then show ?case
    by (subst parse_between.simps) (auto intro!: delivers_case [where P = "within 2"] simp: within_nodes within_up)
next
  case (7 ts)
  show ?case by (subst parse_add.simps) (rule delivers_case [OF 7(1)], rule 7(2), auto intro: within_up)
next
  case (8 lhs ts)
  then show ?case by (subst add_loop.simps) (auto intro!: delivers_case simp: within_nodes)
next
  case (9 ts)
  show ?case by (subst parse_mul.simps) (rule delivers_case [OF 9(1)], rule 9(2), auto simp: within_up simp del: One_nat_def)
next
  case (10 lhs ts)
  then show ?case by (subst mul_loop.simps) (auto intro!: delivers_case simp: within_nodes simp del: One_nat_def)
next
  case (11 ts)
  then show ?case
    by (subst parse_primary.simps)
      (auto intro!: delivers_case [where P = "within 0"] finish_call_ranked atom_ranked simp: within_nodes split: list.split)
next
  case (12 args ts)
  then show ?case by (subst args_loop.simps) (auto intro!: delivers_case [where P = ranked])
qed

lemma args_takes: "leaves_less (length ts) (args_loop args ts)"
  by (subst args_loop.simps)
    (auto intro!: leaves_less_case [OF descent_takes(1)] leaves_less_mono [OF descent_takes(12)])

text \<open>C40. The reading of an expression ends: every operand, at every rank and from any list of tokens,
  takes at least one token when it succeeds, so do the arguments of a call, and the loops over the
  operators never hand back more tokens than they got. So each round of a loop, which reads an
  operand behind its operator, works on a shorter list.\<close>

theorem descent_ends:
  "leaves_less (length ts) (parse_or ts) \<and> leaves_less (length ts) (parse_and ts)
    \<and> leaves_less (length ts) (parse_cmp ts) \<and> leaves_less (length ts) (parse_between ts)
    \<and> leaves_less (length ts) (parse_add ts) \<and> leaves_less (length ts) (parse_mul ts)
    \<and> leaves_less (length ts) (parse_primary ts) \<and> leaves_less (length ts) (args_loop args ts)
    \<and> leaves_less (Suc (length ts)) (or_loop lhs ts) \<and> leaves_less (Suc (length ts)) (and_loop lhs ts)
    \<and> leaves_less (Suc (length ts)) (add_loop lhs ts) \<and> leaves_less (Suc (length ts)) (mul_loop lhs ts)"
  by (intro conjI descent_takes args_takes)

text \<open>C38. A condition is read by the ranks of its operators: \<^verbatim>\<open>*\<close> and \<^verbatim>\<open>/\<close> bind closer than \<^verbatim>\<open>+\<close> and \<^verbatim>\<open>-\<close>,
  these closer than \<^verbatim>\<open>between\<close>, then the comparisons, \<^verbatim>\<open>and\<close>, \<^verbatim>\<open>or\<close>; operators of one rank lean to the
  left. Its literals are in the range of 64 bits.\<close>

theorem conditions_by_rank:
  assumes "parse_expr s = Inr e"
  shows "ranked e \<and> expr_ok e"
  using assms descent_ranked(1) [of "tokenize s"] parse_expr_literals
  by (auto simp: parse_expr_def delivers_def split: sum.splits if_splits)

theorem conditions_by_rank_witness:
  "ranked (EAnd (ECompare (EFunc PcLevel []) CmpGe (EAdd (EValue (VNum 1)) (EMul (EValue (VNum 2)) (EValue (VNum 3)))))
      (ENot (ECapture ''done''))) \<and> expr_ok (EValue (VNum 2))"
proof -
  have "parse_expr ''pc.level >= 1 + 2 * 3 and not done'' =
      Inr (EAnd (ECompare (EFunc PcLevel []) CmpGe (EAdd (EValue (VNum 1)) (EMul (EValue (VNum 2)) (EValue (VNum 3)))))
        (ENot (ECapture ''done'')))"
    by code_simp
  from conditions_by_rank [OF this] show ?thesis by simp
qed

section \<open>What is loaded can be run\<close>

text \<open>C37. A quest file that the server loads is one its engine can run: the literals of every quest are in
  the range of 64 bits and a branch holds no branch with a body of its own. The parser and the
  expansion of families establish what the execution of quests is proved under.\<close>

theorem loaded_engine_runs:
  assumes "engine_load debug s = Inr eng"
  shows "list_all quest_ok (eng_quests eng)"
  using assms concrete_quests_ok expand_families_ok
  by (auto simp: engine_load_def dest: parse_ok split: sum.splits)

definition sample_member :: QuestDef where
  "sample_member =
    \<lparr>quest_name = ''collect_lv30'',
     quest_states =
      [\<lparr>state_name = ''start'', state_events =
        [\<lparr>ev_triggers = [\<lparr>trigger_kind = KLogin\<rparr>, \<lparr>trigger_kind = KKill (TargetNum 601)\<rparr>],
          ev_condition = Some (EAnd (ECompare (EFunc PcLevel []) CmpGe (EValue (VNum 30))) (ENot (ECapture ''busy''))),
          ev_body =
           [SAction \<lparr>action_name = Select, action_args = [VKey ''yes'', VStr ''no, thanks'']\<rparr> (Some ''choice''),
            SBranch (Some (ECompare (ECapture ''choice'') CmpEq (EValue (VNum 1)))) [SUse ''reward'' [VNum 71035]],
            SBranch None [SAction \<lparr>action_name = Return, action_args = []\<rparr> None]]\<rparr>]\<rparr>]\<rparr>"

theorem loaded_engine_runs_witness:
  "engine_load (\<lambda>_. []) (render sample_file) = Inr \<lparr>eng_quests = [sample_member], eng_texts = Map.empty\<rparr>
    \<and> quest_ok sample_member"
proof -
  have "expand_families (\<lambda>_. []) sample_file = Inr [sample_member]" "concrete_quests sample_file = []" by code_simp+
  with render_read [OF sample_printable]
  have load: "engine_load (\<lambda>_. []) (render sample_file) = Inr \<lparr>eng_quests = [sample_member], eng_texts = Map.empty\<rparr>"
    by (simp add: engine_load_def)
  with loaded_engine_runs [OF load] show ?thesis by simp
qed

section \<open>Where the language differs from its documents\<close>

text \<open>The lines below an indentation, read one by one.\<close>

abbreviation deeper :: "nat \<Rightarrow> Line list \<Rightarrow> bool" where
  "deeper i ls \<equiv> list_all (\<lambda>(n, k, t). i < k) ls"

abbreviation ends_below :: "nat \<Rightarrow> Line list \<Rightarrow> bool" where
  "ends_below i ls \<equiv> (case ls of [] \<Rightarrow> True | (n, k, t) # ls' \<Rightarrow> k \<le> i)"

lemma stmts_below_all:
  assumes "deeper i ls" and "map_result (\<lambda>(n, k, t). parse_stmt n t) ls = Inr ss" and "ends_below i rest"
  shows "stmts_below i (ls @ rest) = Inr (ss, rest)"
  using assms(1,2)
proof (induction ls arbitrary: ss)
  case Nil
  then show ?case using assms(3) by (cases rest) auto
next
  case (Cons l ls)
  then show ?case by (cases l) (auto split: sum.splits)
qed

text \<open>C39. The lines of a branch inside a branch are run whenever the outer condition holds, whether the
  inner one holds or not: an \<^verbatim>\<open>if\<close> below an \<^verbatim>\<open>if\<close> is read as a branch without a body, the lines under it
  become statements of the outer branch, and the engine evaluates the inner condition and goes on
  with them. The conclusion does not depend on \<open>holds\<close>, the value of the inner condition.\<close>

theorem nested_guard_is_lost:
  assumes "parse_expr (trim c1) = Inr e1" and "parse_expr c2 = Inr e2"
    and "4 < i" and "i < j" and "deeper i below" and "map_result (\<lambda>(n, k, t). parse_stmt n t) below = Inr ss"
    and "ends_below i rest" and "event_body rest = Inr (ss', left)"
    and "x_cond throw ctx (quest_name q) (Some e1) x = (QOk True, y)"
    and "x_cond throw ctx (quest_name q) (Some e2) y = (QOk holds, z)"
  shows "\<exists>body. event_body ((n1, i, ''if '' @ c1) # (n2, j, ''if '' @ c2) # below @ rest) = Inr (body, left)
    \<and> exec_body throw eng ctx q st ev body 0 None x =
        (case exec_stmts throw eng ctx q st ev (Some 0) (Suc 0) ss z of
           (QOk None, w) \<Rightarrow> exec_stmts throw eng ctx q st ev None (Suc 0) ss' w
         | r \<Rightarrow> r)"
proof -
  have guard: "parse_stmt n2 (''if '' @ c2) = Inr (SBranch (Some e2) [])"
    using assms(2) by (simp add: parse_stmt_def)
  have "stmts_below i ((n2, j, ''if '' @ c2) # below @ rest) = Inr (SBranch (Some e2) [] # ss, rest)"
    using stmts_below_all [OF assms(5,6,7)] guard assms(4) by simp
  then have "event_body ((n1, i, ''if '' @ c1) # (n2, j, ''if '' @ c2) # below @ rest)
      = Inr (SBranch (Some e1) (SBranch (Some e2) [] # ss) # ss', left)"
    using assms(1,3,8) by simp
  moreover have "exec_stmts throw eng ctx q st ev (Some 0) 0 (SBranch (Some e2) [] # ss) y
      = exec_stmts throw eng ctx q st ev (Some 0) (Suc 0) ss z"
    using assms(10) by (cases holds) simp_all
  then have "exec_body throw eng ctx q st ev (SBranch (Some e1) (SBranch (Some e2) [] # ss) # ss') 0 None x
      = (case exec_stmts throw eng ctx q st ev (Some 0) (Suc 0) ss z of
           (QOk None, w) \<Rightarrow> exec_stmts throw eng ctx q st ev None (Suc 0) ss' w
         | r \<Rightarrow> r)"
    using assms(9) by (simp add: exec_body_def)
  ultimately show ?thesis by blast
qed

text \<open>A player of level 60 is warped by a line that stands below \<^verbatim>\<open>if pc.level <= 50\<close>.\<close>

definition guarded_warp :: "Line list" where
  "guarded_warp = [(4, 6, ''if pc.level >= 30''), (5, 8, ''if pc.level <= 50''), (6, 10, ''-> warp(1, 2)'')]"

definition level_sixty :: EvalCtx where
  "level_sixty = \<lparr>ctx_level = 60, ctx_map_index = 0, ctx_now_s = 0, ctx_items = Map.empty, ctx_captures = Map.empty\<rparr>"

definition no_engine :: Engine where "no_engine = \<lparr>eng_quests = [], eng_texts = Map.empty\<rparr>"
definition no_quest :: QuestDef where "no_quest = \<lparr>quest_name = ''q'', quest_states = []\<rparr>"
definition no_throw :: "unit throw" where "no_throw g a b = (a, g)"

theorem nested_guard_is_lost_witness:
  "\<exists>body. event_body guarded_warp = Inr (body, [])
    \<and> out_effects (x_out (snd (exec_body no_throw no_engine level_sixty no_quest 1 0 body 0 None (enter runtime_default ()))))
        = [WarpTo 1 2]"
proof -
  let ?x = "enter runtime_default ()" and ?warp = "SAction \<lparr>action_name = Warp, action_args = [VNum 1, VNum 2]\<rparr> None"
  let ?low = "ECompare (EFunc PcLevel []) CmpGe (EValue (VNum 30))" and ?high = "ECompare (EFunc PcLevel []) CmpLe (EValue (VNum 50))"
  have "parse_expr (trim ''pc.level >= 30'') = Inr ?low" "parse_expr ''pc.level <= 50'' = Inr ?high" by code_simp+
  moreover have "map_result (\<lambda>(n, k, t). parse_stmt n t) [(6, 10 :: nat, ''-> warp(1, 2)'')] = Inr [?warp]" by code_simp
  moreover have "x_cond no_throw level_sixty (quest_name no_quest) (Some ?low) ?x = (QOk True, ?x)"
    "x_cond no_throw level_sixty (quest_name no_quest) (Some ?high) ?x = (QOk False, ?x)"
    by (simp_all add: x_cond_def level_sixty_def enter_def bool_int_def qret_def)
  moreover have "out_effects (x_out (snd (exec_stmts no_throw no_engine level_sixty no_quest 1 0 (Some 0) (Suc 0) [?warp] ?x))) = [WarpTo 1 2]"
    "fst (exec_stmts no_throw no_engine level_sixty no_quest 1 0 (Some 0) (Suc 0) [?warp] ?x) = QOk None"
    by code_simp+
  ultimately show ?thesis
    using nested_guard_is_lost [of "''pc.level >= 30''" ?low "''pc.level <= 50''" ?high 6 8
        "[(6, 10, ''-> warp(1, 2)'')]" "[?warp]" "[]" "[]" "[]" no_throw level_sixty no_quest ?x ?x False ?x 4 5 no_engine 1 0]
    by (auto simp: guarded_warp_def split: prod.splits)
qed

text \<open>An opening parenthesis in an operand holds one word, the name of a parameter.\<close>

lemma parentheses_hold_a_name:
  assumes "parse_primary (''('' # ts) = Inr (e, us)"
  shows "\<exists>p. ts = p # '')'' # us \<and> e = EValue (VParam p)"
  using assms
  by (auto simp: parse_primary.simps finish_call_def func_of_def atom_def parse_i64_def strip_lead_def is_quoted_def
      bare_func_def is_ascii_digit_def byte_of_def split: if_splits sum.splits list.splits option.splits)

text \<open>A condition has no negative literals: the sign is read as the name of a capture. So is every unknown word.\<close>

lemma words_read_as_captures:
  "parse_expr ''pc.level > -5'' = Inl (MalformedNear [''5''])"
  "parse_expr ''pc.level > -'' = Inr (ECompare (EFunc PcLevel []) CmpGt (ECapture ''-''))"
  "parse_expr ''pc.levle > 5'' = Inr (ECompare (ECapture ''pc.levle'') CmpGt (EValue (VNum 5)))"
  by code_simp+

text \<open>The printer drops the parentheses of a call without arguments, and four functions need them.\<close>

lemma empty_call_reads_as_capture:
  "parse_expr ''pet.is_summon()'' = Inr (EFunc PetIsSummon [])"
  "parse_expr (render_expr (EFunc PetIsSummon [])) = Inr (ECapture ''pet.is_summon'')"
  by code_simp+

text \<open>What goes wrong inside the call of an action is reported for the first line of the file.\<close>

definition first_line :: "ParseError + 'a \<Rightarrow> bool" where
  "first_line r \<longleftrightarrow> (\<forall>e. r = Inl e \<longrightarrow> pe_line e = 1)"

lemma first_line_simps [simp]: "first_line (Inr x)" "first_line (Inl (err n m)) \<longleftrightarrow> n = 1"
  by (simp_all add: first_line_def err_def)

lemma first_line_case: "first_line r \<Longrightarrow> (\<And>x. first_line (f x)) \<Longrightarrow> first_line (case r of Inl e \<Rightarrow> Inl e | Inr x \<Rightarrow> f x)"
  by (auto simp: first_line_def split: sum.split)

lemma split_loop_line: "first_line (split_loop out d cur q s)"
  by (induction out d cur q s rule: split_loop.induct) simp_all

lemma map_result_line: "(\<And>x. first_line (f x)) \<Longrightarrow> first_line (map_result f xs)"
  by (induction xs) (auto intro!: first_line_case)

lemma parse_value_line: "first_line (parse_value s)"
  by (auto simp: parse_value_def Let_def split: option.split sum.split)

lemma parse_values_line: "first_line (parse_values s)"
  by (auto simp: parse_values_def split_args_def intro!: first_line_case split_loop_line map_result_line parse_value_line)

lemma parse_call_line: "first_line (parse_call s)"
  by (auto simp: parse_call_def Let_def intro!: first_line_case parse_values_line split: option.split)

text \<open>An error inside an action or a use of a block names line 1, whatever line it stands on.\<close>

lemma action_errors_name_line_one:
  assumes "parse_stmt ln s = Inl e" and "strip_lead ''-> '' s \<noteq> None"
  shows "pe_line e = 1"
proof -
  obtain rest where rest: "strip_lead ''-> '' s = Some rest" using assms(2) by blast
  have "parse_action rest = Inl e" using assms(1) rest by (auto simp: parse_stmt_def split: sum.splits)
  moreover have "first_line (parse_action rest)"
    unfolding parse_action_def
    by (rule first_line_case [OF parse_call_line]) (auto split: option.split prod.split)
  ultimately show ?thesis by (simp add: first_line_def)
qed

lemma action_errors_name_line_one_witness:
  "parse_stmt 40 ''-> warp(1, 2'' = Inl (err 1 (ActionNotClosed ''warp(1, 2''))
    \<and> pe_line (err 1 (ActionNotClosed ''warp(1, 2'')) = 1"
proof -
  have e: "parse_stmt 40 ''-> warp(1, 2'' = Inl (err 1 (ActionNotClosed ''warp(1, 2''))" by code_simp
  with action_errors_name_line_one [OF e] show ?thesis by (simp add: strip_lead_def)
qed

end
