(* ===== verification/Spec2Isabelle.thy ===== *)
theory Spec2Isabelle
  imports ClientPackets ServerPackets Handshake Wal Social QuestCases QuestItems GuildChannel Pvp PartyGate SafeboxCases QuestShape
begin

text \<open>
  Verification development for the Rust game server under \<^verbatim>\<open>src/source/reforge\<close>, a workspace of
  crates that speak the wire protocol of an MMORPG client, run the game world and write to
  PostgreSQL through a write-ahead log.

  \<^bold>\<open>The program and the theories.\<close> Paths are relative to \<^verbatim>\<open>src/source/reforge\<close>. A session reads
  packets from its connection (\<^verbatim>\<open>network\<close>, \<^verbatim>\<open>protocol\<close>), turns them into intents for the
  single-threaded world (\<^verbatim>\<open>game_core\<close>) or handles them against its own rows
  (\<^verbatim>\<open>server_realms/src/channel\<close>), and hands every change of the tables to the batcher
  (\<^verbatim>\<open>database\<close>).

  \<^item> \<open>Prelude\<close>: machine types, checked and wrapping \<^verbatim>\<open>i64\<close>, truncating division, buffers.
  \<^item> \<open>Wire\<close>, \<open>Headers\<close>, \<open>ClientPackets\<close>, \<open>ServerPackets\<close>: \<^verbatim>\<open>protocol/src/lib.rs\<close>, the readers and
    writers, the header and phase constants and the packets of the login flow. The locale
    \<open>packet_codec\<close> states what a packet promises; every packet interprets it.
  \<^item> \<open>Framer\<close>, \<open>Handshake\<close>: \<^verbatim>\<open>network/src/framer.rs\<close> and \<^verbatim>\<open>network/src/handshake.rs\<close>. The framer is a
    state machine over a buffer; the handshake runs on top of it, with the clock, the random
    numbers and the arriving reads as inputs.
  \<^item> \<open>Mutation\<close>, \<open>Batcher\<close>, \<open>Wal\<close>: \<^verbatim>\<open>database/src/wal.rs\<close>. A mutation is one statement with its
    parameters; \<open>accumulate\<close> and \<open>run\<close> are the worker of \<^verbatim>\<open>Batcher::spawn\<close>; \<open>wal_apply\<close>,
    \<open>persist_batch\<close> and \<open>replay_wal\<close> are the log sink. A sink is the locale \<open>mutation_sink\<close>.
  \<^item> \<open>Wallet\<close>, \<open>Item\<close>: \<^verbatim>\<open>database/src/economy.rs\<close> and \<^verbatim>\<open>database/src/item.rs\<close>, the guarded statements
    of an exchange unit and their meaning on the tables.
  \<^item> \<open>Shop\<close>, \<open>Trade\<close>, \<open>Social\<close>: \<^verbatim>\<open>game_core/src/shop.rs\<close>, \<^verbatim>\<open>game_core/src/trade.rs\<close>,
    \<^verbatim>\<open>game_core/src/ecs/systems/social.rs\<close> and their handlers under \<^verbatim>\<open>server_realms/src/channel\<close>.
  \<^item> \<open>Dice\<close>: the generator of the world and the locale \<open>dice\<close> its clients are proved in.
  \<^item> \<open>QuestAst\<close>, \<open>QuestEngine\<close>, \<open>QuestRun\<close>, \<open>QuestSim\<close>, \<open>QuestWorld\<close>, \<open>QuestCases\<close>, \<open>QuestItems\<close>:
    the syntax tree of \<^verbatim>\<open>quest_dsl\<close>, the interpreter \<^verbatim>\<open>game_core/src/quest/engine.rs\<close>, the quest system
    of the world, the rows of \<^verbatim>\<open>player.quest\<close> and the items a quest gives and takes.
  \<^item> \<open>QuestText\<close>, \<open>QuestParser\<close>, \<open>QuestRender\<close>, \<open>QuestFamily\<close>, \<open>QuestPrint\<close>, \<open>QuestReread\<close>, \<open>QuestTrip\<close>,
    \<open>QuestShape\<close>: the text of a quest. The operations on \<^verbatim>\<open>str\<close>, \<^verbatim>\<open>quest_dsl/src/parser.rs\<close>,
    \<^verbatim>\<open>quest_dsl/src/render.rs\<close>, the expansion of families in \<^verbatim>\<open>quest_dsl/src/family.rs\<close> with
    \<^verbatim>\<open>QuestEngine::load\<close>; then the round trip, from the tokens of an expression over the arguments,
    statements and heads to the lines of a file, and what the parser makes of any text.
  \<^item> \<open>Guild\<close>, \<open>GuildChannel\<close>, \<open>Pvp\<close>: \<^verbatim>\<open>game_core/src/guild.rs\<close>, its handlers
    \<^verbatim>\<open>server_realms/src/channel/guild.rs\<close> with the packets of \<^verbatim>\<open>protocol/src/guild.rs\<close>, and
    \<^verbatim>\<open>game_core/src/pvp.rs\<close>.
  \<^item> \<open>PartyPackets\<close>, \<open>Party\<close>, \<open>PartyInv\<close>, \<open>PartyRun\<close>, \<open>PartyExp\<close>, \<open>PartyGate\<close>: the packets of the party
    (\<^verbatim>\<open>protocol/src/world.rs\<close>), the registries and handlers of \<^verbatim>\<open>server_realms/src/channel/party.rs\<close>, its
    invariant, the histories as the step relation \<open>party_step\<close>, the sharing of experience, and the
    messages between sessions together with the gate of \<^verbatim>\<open>game_core/src/combat.rs\<close>.
  \<^item> \<open>ItemPackets\<close>, \<open>SessionIo\<close>, \<open>Quickslot\<close>, \<open>Safebox\<close>, \<open>SafeboxRun\<close>, \<open>SafeboxCases\<close>: the packets of the
    items, the session with the calls that may fail, \<^verbatim>\<open>server_realms/src/channel/quickslot.rs\<close> and
    \<^verbatim>\<open>server_realms/src/channel/safebox.rs\<close> with \<^verbatim>\<open>database/src/safebox.rs\<close> and the belt cells of
    \<^verbatim>\<open>server_realms/src/channel/belt.rs\<close>. The locale \<open>guarded_session\<close> is what holds while a session
    runs and what remains when it ends; the quick slots and the safebox interpret it.

  \<^bold>\<open>Correspondence.\<close> A struct is a record with a field prefix where names clash, an enum a datatype,
  a function a HOL function of the same name; a method that mutates its receiver returns the new
  receiver. Errors are \<open>Inl\<close>, panics \<open>None\<close> (or \<open>QPanic\<close> in the quest engine). Wire integers and
  counters that wrap are words; balances, counts and identifiers of type \<^verbatim>\<open>i64\<close> are \<open>int\<close> with the
  range written out, wrapped by \<open>wrap_i64\<close> where the code adds without a check. A \<^verbatim>\<open>HashMap\<close> read by
  key is a map; where the code iterates over it, it is an association list whose order stands for
  the unspecified iteration order (the histories of the parties may rearrange it before any event). Time is a number in milliseconds passed to the operation. The
  handlers of \<open>Safebox\<close> and \<open>Quickslot\<close> pass the session on with an error value; each call to the
  database or the socket may fail before or after it had its effect, as the list \<open>c_faults\<close> of the
  session says, and \<open>wp\<close> is their weakest precondition.

  \<^bold>\<open>What the lemma groups show.\<close> Packets: parsing and serialising are inverse on exactly the byte
  strings of the declared size. Framer: bytes are neither lost nor reordered, and segmentation does
  not matter on the game channel. Handshake: what is accepted, what never panics, that an honest
  client is accepted. Persistence: batches conserve order, nothing is committed twice, a repeatable
  batch whose log file is complete survives a crash in each durable state the sink goes through, and
  the cases in which a replay overwrites newer data, applies a part or applies twice. Items, shops,
  trades: the units execute as one transaction, are idempotent, and the session equals the tables. Social world: no order of intents panics; how a trade duplicates gold and items. Quests:
  the states, dialogues and saved rows stay consistent over all sessions, also those that break off
  while an event is sent or saved, and a player who enters
  again meets the same reactions; what branches, answers and state changes do. The text of a quest:
  what is printed is read back, what is loaded can be run, and where the language differs from its
  documents. Guilds, murders and
  wars: invariants and bounds. Safebox: no two stored items overlap, a checkout gets in the way of no
  item of the bag, and the session equals the rows, whatever call of the safebox fails and whatever
  happens elsewhere that leaves the stored rows alone; what stacking and transfers of gold do, and the two cases in which they lose.

  \<^bold>\<open>Recursion and fuel.\<close> No definition uses fuel: the loops over buffers, events, files and
  inventories terminate by measures (buffer length, remaining events, open room of the stacks),
  the handshake by its 32 attempts, and the descent over an expression lexicographically by the
  tokens that are left and the level of the grammar; that an operand takes a token is proved on the
  domain of the functions before they are known to end.

  \<^bold>\<open>Not modelled.\<close> Sockets, timers and the asynchronous runtime (pure I/O); the PostgreSQL driver,
  whose statement execution is a parameter in \<open>Wal\<close> and is given a meaning for the statements of
  \<open>Item\<close>; repositories that only decode rows of a SELECT; the floating-point parts of damage and
  movement; the proxy for the legacy SQL dialect, the import tool, the load generator and the
  terminal interface; the converter of the old quest corpus with the extraction of families it uses.
  The manifest lists every part with the
  reason.
\<close>

end
